(* ===== verification/Prelude.thy ===== *)
theory Prelude
  imports Complex_Main "HOL-Library.Char_ord" "HOL-Library.List_Lexorder"
begin

text \<open>
  Shared vocabulary of the development: Rust strings as their UTF-8 bytes
  (\<open>trim\<close>, \<open>starts_with\<close>, \<open>contains\<close>, \<open>split_once\<close>, ASCII case), the ordered maps
  \<open>BTreeMap\<close> as key-sorted association lists with their interface as the locale
  \<open>ordered_map\<close>, JSON values, and the lemma collections the components extend.
  A Rust \<open>Result\<close> is a sum type, \<open>Inl\<close> the error; a Rust \<open>String\<close> orders by bytes,
  which is the lexicographic order on \<^typ>\<open>string\<close>.
\<close>

named_theorems run_simps "defining facts unfolded when an operation is executed symbolically"
named_theorems frame_simps "fields an operation leaves alone"

section \<open>Results\<close>

type_synonym ('e, 'a) result = "'e + 'a"

definition rbind :: "('e, 'a) result \<Rightarrow> ('a \<Rightarrow> ('e, 'b) result) \<Rightarrow> ('e, 'b) result" where
  "rbind m f = (case m of Inl e \<Rightarrow> Inl e | Inr a \<Rightarrow> f a)"

definition ensure_that :: "bool \<Rightarrow> 'e \<Rightarrow> ('e, unit) result" where
  "ensure_that b e = (if b then Inr () else Inl e)"

definition ok_or :: "'a option \<Rightarrow> 'e \<Rightarrow> ('e, 'a) result" where
  "ok_or x e = (case x of None \<Rightarrow> Inl e | Some a \<Rightarrow> Inr a)"

lemma rbind_Inr_iff [simp]: "rbind m f = Inr b \<longleftrightarrow> (\<exists>a. m = Inr a \<and> f a = Inr b)"
  by (cases m) (auto simp: rbind_def)

lemma rbind_simps [simp]: "rbind (Inl e) f = Inl e" "rbind (Inr a) f = f a"
  by (simp_all add: rbind_def)

lemma ensure_that_Inr_iff [simp]: "ensure_that b e = Inr u \<longleftrightarrow> b"
  by (simp add: ensure_that_def)

lemma ensure_that_simps [simp]: "ensure_that True e = Inr ()" "ensure_that False e = Inl e"
  by (simp_all add: ensure_that_def)

lemma ok_or_Inr_iff [simp]: "ok_or x e = Inr a \<longleftrightarrow> x = Some a"
  by (cases x) (auto simp: ok_or_def)

lemma ok_or_simps [simp]: "ok_or None e = Inl e" "ok_or (Some a) e = Inr a"
  by (simp_all add: ok_or_def)

text \<open>An early return is refused exactly when its guard fails.\<close>

lemma guard_Inr_iff [simp]:
  "(if b then Inl e else m) = Inr a \<longleftrightarrow> \<not> b \<and> m = Inr a"
  "(if b then m else Inl e) = Inr a \<longleftrightarrow> b \<and> m = Inr a"
  by auto

fun is_ok :: "('e, 'a) result \<Rightarrow> bool" where
  "is_ok (Inl _) = False"
| "is_ok (Inr _) = True"

section \<open>Options\<close>

fun is_some_and :: "'a option \<Rightarrow> ('a \<Rightarrow> bool) \<Rightarrow> bool" where
  "is_some_and None p = False"
| "is_some_and (Some a) p = p a"

fun is_none_or :: "'a option \<Rightarrow> ('a \<Rightarrow> bool) \<Rightarrow> bool" where
  "is_none_or None p = True"
| "is_none_or (Some a) p = p a"

fun opt_or :: "'a option \<Rightarrow> 'a option \<Rightarrow> 'a option" where
  "opt_or None y = y"
| "opt_or (Some a) y = Some a"

fun opt_filter :: "('a \<Rightarrow> bool) \<Rightarrow> 'a option \<Rightarrow> 'a option" where
  "opt_filter p None = None"
| "opt_filter p (Some a) = (if p a then Some a else None)"

fun unwrap_or :: "'a option \<Rightarrow> 'a \<Rightarrow> 'a" where
  "unwrap_or None d = d"
| "unwrap_or (Some a) d = a"

lemma is_some_and_iff: "is_some_and x p \<longleftrightarrow> (\<exists>a. x = Some a \<and> p a)"
  by (cases x) auto

lemma is_none_or_iff: "is_none_or x p \<longleftrightarrow> (\<forall>a. x = Some a \<longrightarrow> p a)"
  by (cases x) auto

lemma not_is_some_and: "\<not> is_some_and x p \<longleftrightarrow> is_none_or x (\<lambda>a. \<not> p a)"
  by (cases x) auto

lemma opt_filter_Some_iff: "opt_filter p x = Some a \<longleftrightarrow> x = Some a \<and> p a"
  by (cases x) auto

text \<open>The first element that satisfies a predicate, as \<open>Iterator::find\<close>.\<close>

lemma find_Some_mem: "List.find p xs = Some x \<Longrightarrow> x \<in> set xs \<and> p x"
  by (auto simp: find_Some_iff)

section \<open>Strings\<close>

text \<open>
  \<open>char::is_whitespace\<close> on UTF-8: the byte lengths of a White\_Space code point standing
  at the head of the text. Every such code point has one, two or three bytes.
\<close>

fun ws1 :: "nat \<Rightarrow> bool" where
  "ws1 a \<longleftrightarrow> (9 \<le> a \<and> a \<le> 13) \<or> a = 32"

fun ws2 :: "nat \<Rightarrow> nat \<Rightarrow> bool" where
  "ws2 a b \<longleftrightarrow> a = 194 \<and> (b = 133 \<or> b = 160)"

fun ws3 :: "nat \<Rightarrow> nat \<Rightarrow> nat \<Rightarrow> bool" where
  "ws3 a b c \<longleftrightarrow>
     (a = 225 \<and> b = 154 \<and> c = 128) \<or>
     (a = 226 \<and> b = 128 \<and> ((128 \<le> c \<and> c \<le> 138) \<or> c = 168 \<or> c = 169 \<or> c = 175)) \<or>
     (a = 226 \<and> b = 129 \<and> c = 159) \<or>
     (a = 227 \<and> b = 128 \<and> c = 128)"

abbreviation byte :: "char \<Rightarrow> nat" where
  "byte c \<equiv> of_char c"

fun trim_start :: "string \<Rightarrow> string" where
  "trim_start [] = []"
| "trim_start (a # xs) =
     (if ws1 (byte a) then trim_start xs
      else case xs of
        [] \<Rightarrow> [a]
      | b # ys \<Rightarrow>
          (if ws2 (byte a) (byte b) then trim_start ys
           else case ys of
             [] \<Rightarrow> [a, b]
           | c # zs \<Rightarrow>
               (if ws3 (byte a) (byte b) (byte c) then trim_start zs else a # b # c # zs)))"

text \<open>The same from the end, on the reversed bytes.\<close>

fun trim_rev :: "string \<Rightarrow> string" where
  "trim_rev [] = []"
| "trim_rev (c # xs) =
     (if ws1 (byte c) then trim_rev xs
      else case xs of
        [] \<Rightarrow> [c]
      | b # ys \<Rightarrow>
          (if ws2 (byte b) (byte c) then trim_rev ys
           else case ys of
             [] \<Rightarrow> [c, b]
           | a # zs \<Rightarrow>
               (if ws3 (byte a) (byte b) (byte c) then trim_rev zs else c # b # a # zs)))"

definition trim_end :: "string \<Rightarrow> string" where
  "trim_end s = rev (trim_rev (rev s))"

definition trim :: "string \<Rightarrow> string" where
  "trim s = trim_end (trim_start s)"

definition blank :: "string \<Rightarrow> bool" where
  "blank s \<longleftrightarrow> trim s = []"

fun starts_with :: "string \<Rightarrow> string \<Rightarrow> bool" where
  "starts_with s [] = True"
| "starts_with [] (p # ps) = False"
| "starts_with (c # cs) (p # ps) = (c = p \<and> starts_with cs ps)"

definition strip_prefix :: "string \<Rightarrow> string \<Rightarrow> string option" where
  "strip_prefix p s = (if starts_with s p then Some (drop (length p) s) else None)"

fun contains_str :: "string \<Rightarrow> string \<Rightarrow> bool" where
  "contains_str [] p = (p = [])"
| "contains_str (c # cs) p = (starts_with (c # cs) p \<or> contains_str cs p)"

fun split_once :: "char \<Rightarrow> string \<Rightarrow> (string \<times> string) option" where
  "split_once d [] = None"
| "split_once d (c # cs) =
     (if c = d then Some ([], cs)
      else case split_once d cs of None \<Rightarrow> None | Some (a, b) \<Rightarrow> Some (c # a, b))"

definition ascii_lower :: "char \<Rightarrow> char" where
  "ascii_lower c = (if 65 \<le> byte c \<and> byte c \<le> 90 then char_of (byte c + 32) else c)"

definition to_ascii_lowercase :: "string \<Rightarrow> string" where
  "to_ascii_lowercase s = map ascii_lower s"

definition eq_ignore_ascii_case :: "string \<Rightarrow> string \<Rightarrow> bool" where
  "eq_ignore_ascii_case a b \<longleftrightarrow> to_ascii_lowercase a = to_ascii_lowercase b"

definition is_ascii_digit :: "char \<Rightarrow> bool" where
  "is_ascii_digit c \<longleftrightarrow> 48 \<le> byte c \<and> byte c \<le> 57"

definition is_ascii_hexdigit :: "char \<Rightarrow> bool" where
  "is_ascii_hexdigit c \<longleftrightarrow>
     is_ascii_digit c \<or> (65 \<le> byte c \<and> byte c \<le> 70) \<or> (97 \<le> byte c \<and> byte c \<le> 102)"

definition is_ascii_alphanumeric :: "char \<Rightarrow> bool" where
  "is_ascii_alphanumeric c \<longleftrightarrow>
     is_ascii_digit c \<or> (65 \<le> byte c \<and> byte c \<le> 90) \<or> (97 \<le> byte c \<and> byte c \<le> 122)"

text \<open>\<open>str::split\<close> with a byte predicate, and \<open>str::split_whitespace\<close>.\<close>

fun split_on_acc :: "(char \<Rightarrow> bool) \<Rightarrow> string \<Rightarrow> string \<Rightarrow> string list" where
  "split_on_acc p acc [] = [rev acc]"
| "split_on_acc p acc (c # cs) =
     (if p c then rev acc # split_on_acc p [] cs else split_on_acc p (c # acc) cs)"

definition split_on :: "(char \<Rightarrow> bool) \<Rightarrow> string \<Rightarrow> string list" where
  "split_on p s = split_on_acc p [] s"

fun split_ws_acc :: "string \<Rightarrow> string \<Rightarrow> string list" where
  "split_ws_acc acc [] = [rev acc]"
| "split_ws_acc acc (a # xs) =
     (if ws1 (byte a) then rev acc # split_ws_acc [] xs
      else case xs of
        [] \<Rightarrow> [rev (a # acc)]
      | b # ys \<Rightarrow>
          (if ws2 (byte a) (byte b) then rev acc # split_ws_acc [] ys
           else case ys of
             [] \<Rightarrow> [rev (b # a # acc)]
           | c # zs \<Rightarrow>
               (if ws3 (byte a) (byte b) (byte c) then rev acc # split_ws_acc [] zs
                else split_ws_acc (a # acc) xs)))"

definition split_whitespace :: "string \<Rightarrow> string list" where
  "split_whitespace s = filter (\<lambda>w. w \<noteq> []) (split_ws_acc [] s)"

lemma starts_with_iff: "starts_with s p \<longleftrightarrow> (\<exists>t. s = p @ t)"
  by (induction s p rule: starts_with.induct) auto

lemma starts_with_append [simp]: "starts_with (p @ t) p"
  by (auto simp: starts_with_iff)

lemma strip_prefix_Some_iff: "strip_prefix p s = Some t \<longleftrightarrow> s = p @ t"
  by (auto simp: strip_prefix_def starts_with_iff)

lemma split_once_None_iff: "split_once d s = None \<longleftrightarrow> d \<notin> set s"
  by (induction s) (auto split: option.splits)

lemma split_once_append: "d \<notin> set a \<Longrightarrow> split_once d (a @ d # b) = Some (a, b)"
  by (induction a) auto

lemma split_once_SomeD: "split_once d s = Some (a, b) \<Longrightarrow> s = a @ d # b \<and> d \<notin> set a"
  by (induction s arbitrary: a) (auto split: option.splits if_splits)

lemma split_once_Some_iff: "split_once d s = Some (a, b) \<longleftrightarrow> s = a @ d # b \<and> d \<notin> set a"
  using split_once_append split_once_SomeD by metis

section \<open>Ordered maps\<close>

text \<open>
  A \<open>BTreeMap\<close> is the list of its entries in key order. \<open>bt_get\<close> is the library's
  \<open>map_of\<close>; iteration (\<open>keys\<close>, \<open>values\<close>, \<open>iter\<close>) walks the list.
\<close>

type_synonym ('k, 'v) btree = "('k \<times> 'v) list"

abbreviation bt_get :: "('k, 'v) btree \<Rightarrow> 'k \<Rightarrow> 'v option" where
  "bt_get m k \<equiv> map_of m k"

abbreviation bt_keys :: "('k, 'v) btree \<Rightarrow> 'k list" where
  "bt_keys m \<equiv> map fst m"

abbreviation bt_values :: "('k, 'v) btree \<Rightarrow> 'v list" where
  "bt_values m \<equiv> map snd m"

definition bt_has :: "('k, 'v) btree \<Rightarrow> 'k \<Rightarrow> bool" where
  "bt_has m k \<longleftrightarrow> bt_get m k \<noteq> None"

fun bt_insert :: "'k::linorder \<Rightarrow> 'v \<Rightarrow> ('k, 'v) btree \<Rightarrow> ('k, 'v) btree" where
  "bt_insert k v [] = [(k, v)]"
| "bt_insert k v ((a, b) # m) =
     (if k < a then (k, v) # (a, b) # m
      else if k = a then (k, v) # m
      else (a, b) # bt_insert k v m)"

definition bt_remove :: "'k \<Rightarrow> ('k, 'v) btree \<Rightarrow> ('k, 'v) btree" where
  "bt_remove k m = filter (\<lambda>(a, _). a \<noteq> k) m"

text \<open>\<open>get_mut\<close> followed by an update of the value; no entry, no change.\<close>

definition bt_modify :: "'k \<Rightarrow> ('v \<Rightarrow> 'v) \<Rightarrow> ('k, 'v) btree \<Rightarrow> ('k, 'v) btree" where
  "bt_modify k f m = map (\<lambda>(a, b). (a, if a = k then f b else b)) m"

definition bt_map :: "('k \<Rightarrow> 'v \<Rightarrow> 'w) \<Rightarrow> ('k, 'v) btree \<Rightarrow> ('k, 'w) btree" where
  "bt_map f m = map (\<lambda>(a, b). (a, f a b)) m"

definition bt_retain :: "('k \<Rightarrow> 'v \<Rightarrow> bool) \<Rightarrow> ('k, 'v) btree \<Rightarrow> ('k, 'v) btree" where
  "bt_retain p m = filter (\<lambda>(a, b). p a b) m"

definition bt_any :: "('k \<Rightarrow> 'v \<Rightarrow> bool) \<Rightarrow> ('k, 'v) btree \<Rightarrow> bool" where
  "bt_any p m \<longleftrightarrow> list_ex (\<lambda>(a, b). p a b) m"

definition bt_all :: "('k \<Rightarrow> 'v \<Rightarrow> bool) \<Rightarrow> ('k, 'v) btree \<Rightarrow> bool" where
  "bt_all p m \<longleftrightarrow> list_all (\<lambda>(a, b). p a b) m"

definition bt_wf :: "('k::linorder, 'v) btree \<Rightarrow> bool" where
  "bt_wf m \<longleftrightarrow> sorted_wrt (<) (bt_keys m)"

lemma bt_get_insert [simp]: "bt_get (bt_insert k v m) = (bt_get m)(k \<mapsto> v)"
  by (induction k v m rule: bt_insert.induct) (auto simp: fun_eq_iff)

lemma bt_get_remove [simp]: "bt_get (bt_remove k m) = (bt_get m)(k := None)"
  by (induction m) (auto simp: bt_remove_def fun_eq_iff)

lemma bt_get_modify [simp]:
  "bt_get (bt_modify k f m) a = (if a = k then map_option f (bt_get m a) else bt_get m a)"
  by (induction m) (auto simp: bt_modify_def)

lemma bt_get_map [simp]: "bt_get (bt_map f m) a = map_option (f a) (bt_get m a)"
  by (induction m) (auto simp: bt_map_def)

lemma set_keys_insert: "set (bt_keys (bt_insert k v m)) = insert k (set (bt_keys m))"
  by (induction k v m rule: bt_insert.induct) auto

lemma bt_wf_empty [simp]: "bt_wf []"
  by (simp add: bt_wf_def)

lemma bt_wf_insert [simp]: "bt_wf m \<Longrightarrow> bt_wf (bt_insert k v m)"
proof (induction k v m rule: bt_insert.induct)
  case (1 k v)
  then show ?case by (simp add: bt_wf_def)
next
  case (2 k v a b m)
  then show ?case
    using set_keys_insert [of k v m] by (fastforce simp: bt_wf_def)
qed

lemma bt_keys_modify [simp]: "bt_keys (bt_modify k f m) = bt_keys m"
  by (induction m) (auto simp: bt_modify_def)

lemma bt_keys_map [simp]: "bt_keys (bt_map f m) = bt_keys m"
  by (induction m) (auto simp: bt_map_def)

lemma bt_wf_modify [simp]: "bt_wf (bt_modify k f m) = bt_wf m"
  by (simp only: bt_wf_def bt_keys_modify)

lemma bt_wf_map [simp]: "bt_wf (bt_map f m) = bt_wf m"
  by (simp only: bt_wf_def bt_keys_map)

lemma bt_wf_filter: "bt_wf m \<Longrightarrow> bt_wf (filter p m)"
  by (induction m) (auto simp: bt_wf_def)

lemma bt_wf_retain [simp]: "bt_wf m \<Longrightarrow> bt_wf (bt_retain p m)"
  unfolding bt_retain_def by (rule bt_wf_filter)

lemma bt_wf_remove [simp]: "bt_wf m \<Longrightarrow> bt_wf (bt_remove k m)"
  unfolding bt_remove_def by (rule bt_wf_filter)

lemma bt_wf_distinct: "bt_wf m \<Longrightarrow> distinct (bt_keys m)"
  by (simp add: bt_wf_def strict_sorted_iff)

lemma bt_get_mem: "bt_wf m \<Longrightarrow> bt_get m k = Some v \<longleftrightarrow> (k, v) \<in> set m"
  by (simp add: bt_wf_distinct)

lemma bt_mem_get: "bt_get m k = Some v \<Longrightarrow> (k, v) \<in> set m"
  by (rule map_of_SomeD)

lemma bt_any_iff: "bt_wf m \<Longrightarrow> bt_any p m \<longleftrightarrow> (\<exists>k v. bt_get m k = Some v \<and> p k v)"
  by (fastforce simp: bt_any_def list_ex_iff bt_get_mem)

lemma bt_all_iff: "bt_wf m \<Longrightarrow> bt_all p m \<longleftrightarrow> (\<forall>k v. bt_get m k = Some v \<longrightarrow> p k v)"
  by (fastforce simp: bt_all_def list_all_iff bt_get_mem)

lemma not_bt_any: "\<not> bt_any p m \<longleftrightarrow> bt_all (\<lambda>k v. \<not> p k v) m"
  by (auto simp: bt_any_def bt_all_def list_ex_iff list_all_iff)

lemma bt_all_getD: "bt_all p m \<Longrightarrow> bt_get m k = Some v \<Longrightarrow> p k v"
  by (auto simp: bt_all_def list_all_iff dest: bt_mem_get)

lemma bt_get_retain:
  "bt_wf m \<Longrightarrow> bt_get (bt_retain p m) k =
     (case bt_get m k of None \<Rightarrow> None | Some v \<Rightarrow> if p k v then Some v else None)"
proof (induction m)
  case Nil
  then show ?case by (simp add: bt_retain_def)
next
  case (Cons x m)
  obtain a b where x: "x = (a, b)" by (cases x)
  from Cons.prems have wf: "bt_wf m" and a: "a \<notin> set (bt_keys m)"
    by (auto simp: bt_wf_def x)
  have "bt_get m a = None" using a by (simp add: map_of_eq_None_iff)
  with Cons.IH [OF wf] show ?case
    by (auto simp: bt_retain_def x split: option.splits)
qed

lemma bt_has_iff [simp]: "bt_has m k \<longleftrightarrow> (\<exists>v. bt_get m k = Some v)"
  by (auto simp: bt_has_def)

lemma bt_insert_same: "bt_wf m \<Longrightarrow> bt_get m k = Some v \<Longrightarrow> bt_insert k v m = m"
proof (induction k v m rule: bt_insert.induct)
  case (1 k v)
  then show ?case by simp
next
  case (2 k v a b m)
  have "\<not> k < a"
  proof
    assume "k < a"
    with "2.prems" have "(k, v) \<in> set m" by (auto dest: bt_mem_get split: if_splits)
    then have "k \<in> set (bt_keys m)" by force
    with "2.prems"(1) \<open>k < a\<close> show False by (auto simp: bt_wf_def)
  qed
  with 2 show ?case by (auto simp: bt_wf_def split: if_splits)
qed

text \<open>
  The interface the components use of an ordered map: what \<open>get\<close> returns after
  \<open>insert\<close>, \<open>remove\<close> and an in-place change, and that all three keep the representation
  invariant. The laws of overwriting and commuting updates are proved once, from the
  interface alone.
\<close>

locale ordered_map =
  fixes mget :: "'m \<Rightarrow> 'k \<Rightarrow> 'v option"
    and mput :: "'k \<Rightarrow> 'v \<Rightarrow> 'm \<Rightarrow> 'm"
    and mdel :: "'k \<Rightarrow> 'm \<Rightarrow> 'm"
    and mmod :: "'k \<Rightarrow> ('v \<Rightarrow> 'v) \<Rightarrow> 'm \<Rightarrow> 'm"
    and mwf :: "'m \<Rightarrow> bool"
  assumes get_put: "mget (mput k v m) = (mget m)(k \<mapsto> v)"
    and get_del: "mget (mdel k m) = (mget m)(k := None)"
    and get_mod: "mget (mmod k f m) j = (if j = k then map_option f (mget m j) else mget m j)"
    and put_wf: "mwf m \<Longrightarrow> mwf (mput k v m)"
    and del_wf: "mwf m \<Longrightarrow> mwf (mdel k m)"
    and mod_wf: "mwf m \<Longrightarrow> mwf (mmod k f m)"
    and ext: "mwf m \<Longrightarrow> mwf n \<Longrightarrow> mget m = mget n \<Longrightarrow> m = n"
begin

lemma put_put: "mwf m \<Longrightarrow> mput k w (mput k v m) = mput k w m"
  by (rule ext) (auto simp: put_wf get_put)

lemma put_commute: "mwf m \<Longrightarrow> j \<noteq> k \<Longrightarrow> mput j w (mput k v m) = mput k v (mput j w m)"
  by (rule ext) (auto simp: put_wf get_put fun_upd_twist)

lemma mod_as_put: "mwf m \<Longrightarrow> mget m k = Some v \<Longrightarrow> mmod k f m = mput k (f v) m"
  by (rule ext) (auto simp: put_wf mod_wf get_put get_mod fun_eq_iff)

lemma del_put: "mwf m \<Longrightarrow> mget m k = None \<Longrightarrow> mdel k (mput k v m) = m"
  by (rule ext) (auto simp: put_wf del_wf get_put get_del fun_eq_iff)

end

lemma bt_wf_ext:
  fixes m n :: "('a::linorder, 'b) btree"
  shows "bt_wf m \<Longrightarrow> bt_wf n \<Longrightarrow> bt_get m = bt_get n \<Longrightarrow> m = n"
proof -
  assume m: "bt_wf m" and n: "bt_wf n" and eq: "bt_get m = bt_get n"
  have s: "set m = set n"
  proof (rule set_eqI)
    fix x :: "'a \<times> 'b"
    obtain k v where x: "x = (k, v)" by (cases x)
    show "x \<in> set m \<longleftrightarrow> x \<in> set n"
      using bt_get_mem [OF m, of k v] bt_get_mem [OF n, of k v] eq x by simp
  qed
  have keys: "bt_keys m = bt_keys n"
  proof (rule sorted_distinct_set_unique)
    show "sorted (bt_keys m)" "sorted (bt_keys n)" "distinct (bt_keys m)" "distinct (bt_keys n)"
      using m n by (simp_all add: bt_wf_def strict_sorted_iff)
    show "set (bt_keys m) = set (bt_keys n)" using s by simp
  qed
  have len: "length m = length n" using arg_cong [OF keys, of length] by simp
  show "m = n"
  proof (rule nth_equalityI [OF len])
    fix i assume i: "i < length m"
    then have "m ! i \<in> set n" using s nth_mem [of i m] by simp
    then obtain j where j: "j < length n" "n ! j = m ! i" by (auto simp: in_set_conv_nth)
    have "fst (m ! i) = bt_keys n ! i" using keys i len by (metis nth_map)
    with j have "bt_keys n ! j = bt_keys n ! i" by simp
    then have "j = i"
      using bt_wf_distinct [OF n] i j(1) len
      by (metis length_map nth_eq_iff_index_eq)
    with j show "m ! i = n ! i" by simp
  qed
qed

interpretation bt: ordered_map bt_get bt_insert bt_remove bt_modify bt_wf
  by unfold_locales (auto simp: fun_eq_iff intro: bt_wf_ext)

section \<open>JSON values\<close>

text \<open>\<open>serde_json::Value\<close>; objects keep their entries in key order.\<close>

datatype json =
    JNull
  | JBool bool
  | JInt int
  | JFloat real
  | JString string
  | JArray "json list"
  | JObject "(string \<times> json) list"

fun json_get :: "json \<Rightarrow> string \<Rightarrow> json option" where
  "json_get (JObject m) k = map_of m k"
| "json_get _ k = None"

fun as_str :: "json \<Rightarrow> string option" where
  "as_str (JString s) = Some s"
| "as_str _ = None"

fun as_bool :: "json \<Rightarrow> bool option" where
  "as_bool (JBool b) = Some b"
| "as_bool _ = None"

fun as_array :: "json \<Rightarrow> json list option" where
  "as_array (JArray xs) = Some xs"
| "as_array _ = None"

section \<open>Transition systems\<close>

text \<open>
  A component that changes by steps, and what every step keeps. The reachable states of a
  component are the reflexive transitive closure of its step relation.
\<close>

locale step_invariant =
  fixes step :: "'s \<Rightarrow> 's \<Rightarrow> bool" and inv :: "'s \<Rightarrow> bool"
  assumes step_keeps: "step s t \<Longrightarrow> inv s \<Longrightarrow> inv t"
begin

lemma reachable_keeps: "step\<^sup>*\<^sup>* s t \<Longrightarrow> inv s \<Longrightarrow> inv t"
  by (induction rule: rtranclp_induct) (auto intro: step_keeps)

end

text \<open>And what only grows: an order every step follows from states that satisfy the invariant.\<close>

locale step_progress = step_invariant +
  fixes le :: "'a \<Rightarrow> 'a \<Rightarrow> bool"
  assumes le_refl: "le s s"
    and le_trans: "le s t \<Longrightarrow> le t u \<Longrightarrow> le s u"
    and step_le: "step s t \<Longrightarrow> inv s \<Longrightarrow> le s t"
begin

lemma reachable_le:
  assumes "step\<^sup>*\<^sup>* s t" and "inv s"
  shows "le s t"
  using assms(1)
proof (induction rule: rtranclp_induct)
  case (step t u)
  then show ?case using reachable_keeps [OF step(1) assms(2)] le_trans step_le by blast
qed (rule le_refl)

end

end
