(* ===== verification/Planner_Types.thy ===== *)
theory Planner_Types
  imports Prelude
begin

text \<open>
  The planner's persistent data (\<open>planner_workflow.rs\<close>, \<open>planner_release.rs\<close>,
  \<open>planner_capacity.rs\<close>, \<open>planner_guard.rs\<close>, \<open>planner_skills.rs\<close>): the run document, its
  works with their attempts, artifacts, reviews and receipts, inputs, wakes, releases,
  capacity state, and the operations of the \<open>planner_workflow\<close> tool. Field names carry
  the record's name as a prefix, because a record field is a global constant. Counters
  (\<open>u32\<close>, \<open>u64\<close>, \<open>usize\<close>) are \<^typ>\<open>nat\<close>, millisecond and second stamps (\<open>i64\<close>) are
  \<^typ>\<open>int\<close>; \<open>PathBuf\<close> is its text.
\<close>

section \<open>Phases, roles, stages\<close>

datatype planner_phase = Planning | Implementation

datatype planner_role =
  CreatePlan | SelectPlan | ImplementWork | ReviewWork | FinishWork | IntegratePlan

datatype run_status =
    RunRunning
  | RunPaused
  | RunCancelled
  | RunComplete
  | RunDraining
  | RunSuperseded

datatype work_status =
    Retired
  | Admitted
  | Allocating
  | Running
  | ReviewPending
  | Corrections
  | Accepted
  | Finished
  | Integrated
  | Blocked
  | Watching
  | Interrupted

datatype stage =
    Selected
  | CandidatePassed
  | StagingDeployed
  | StagingPassed
  | ProductionMerged
  | ProductionDeployed
  | ProductionPassed
  | Disposed
  | Failed
  | Abandoned

text \<open>\<open>#[derive(PartialOrd, Ord)]\<close> on a field-less enum orders by declaration.\<close>

fun stage_index :: "stage \<Rightarrow> nat" where
  "stage_index Selected = 0"
| "stage_index CandidatePassed = 1"
| "stage_index StagingDeployed = 2"
| "stage_index StagingPassed = 3"
| "stage_index ProductionMerged = 4"
| "stage_index ProductionDeployed = 5"
| "stage_index ProductionPassed = 6"
| "stage_index Disposed = 7"
| "stage_index Failed = 8"
| "stage_index Abandoned = 9"

lemma stage_index_inject: "stage_index a = stage_index b \<longleftrightarrow> a = b"
  by (cases a; cases b) simp_all

instantiation stage :: linorder
begin

definition less_eq_stage :: "stage \<Rightarrow> stage \<Rightarrow> bool" where
  "a \<le> b \<longleftrightarrow> stage_index a \<le> stage_index b"

definition less_stage :: "stage \<Rightarrow> stage \<Rightarrow> bool" where
  "a < b \<longleftrightarrow> stage_index a < stage_index b"

instance
  by standard (auto simp: less_eq_stage_def less_stage_def stage_index_inject)

end

fun role_index :: "planner_role \<Rightarrow> nat" where
  "role_index CreatePlan = 0"
| "role_index SelectPlan = 1"
| "role_index ImplementWork = 2"
| "role_index ReviewWork = 3"
| "role_index FinishWork = 4"
| "role_index IntegratePlan = 5"

lemma role_index_inject: "role_index a = role_index b \<longleftrightarrow> a = b"
  by (cases a; cases b) simp_all

instantiation planner_role :: linorder
begin

definition less_eq_planner_role :: "planner_role \<Rightarrow> planner_role \<Rightarrow> bool" where
  "a \<le> b \<longleftrightarrow> role_index a \<le> role_index b"

definition less_planner_role :: "planner_role \<Rightarrow> planner_role \<Rightarrow> bool" where
  "a < b \<longleftrightarrow> role_index a < role_index b"

instance
  by standard (auto simp: less_eq_planner_role_def less_planner_role_def role_index_inject)

end

section \<open>Policy snapshot\<close>

record resolved_skill =
  skill_name :: string
  skill_source :: string
  skill_hash :: string
  skill_text :: string

record workspace_config =
  wcfg_command :: string
  wcfg_args :: "string list"
  wcfg_timeout_ms :: nat

record resolved_planner =
  pol_schema :: nat
  pol_identity :: string
  pol_policy :: resolved_skill
  pol_roles :: "(planner_role, resolved_skill) btree"
  pol_roadmap :: "string option"
  pol_host_instructions :: string
  pol_workspace :: "workspace_config option"

section \<open>Works\<close>

record work_spec =
  spec_work_id :: string
  spec_plan_id :: string
  spec_scope :: string
  spec_dependencies :: "string list"
  spec_ready_dependencies :: "(string, string) btree"
  spec_required_checks :: "string list"
  spec_required_integration_evidence :: "string list"
  spec_repository :: "string option"
  spec_external_id :: "string option"
  spec_completion_contract_version :: "nat option"

record workspace =
  ws_path :: string
  ws_lease :: string
  ws_environment :: "(string, string) btree"
  ws_mcp_servers :: "json list"

record attempt =
  att_id :: string
  att_router_pid :: nat
  att_router_started_at_ms :: nat
  att_delegate_id :: "string option"
  att_ended :: bool

record artifact =
  art_revision :: string
  art_changed_paths :: "string list"
  art_checks :: "(string, string) btree"
  art_evidence :: "string list"
  art_unresolved :: "string list"
  art_integration_requirements :: "(string, string) btree"

record review =
  rev_revision :: string
  rev_accepted :: bool
  rev_evidence :: "string list"
  rev_corrections :: "string option"

record receipt =
  rcp_revision :: string
  rcp_evidence :: "(string, string) btree"

record handoff =
  ho_kind :: string
  ho_message :: string

record completion_record =
  cr_spec :: work_spec
  cr_status :: work_status
  cr_artifact :: "artifact option"
  cr_review :: "review option"
  cr_finish :: "receipt option"
  cr_integration :: "receipt option"

record reconciliation =
  rc_required :: bool
  rc_source_revision :: "string option"
  rc_evidence :: "string list"
  rc_prior_specs :: "work_spec list"
  rc_prior_completions :: "completion_record list"

definition reconciliation_default :: reconciliation where
  "reconciliation_default =
     \<lparr>rc_required = False, rc_source_revision = None, rc_evidence = [], rc_prior_specs = [],
      rc_prior_completions = []\<rparr>"

record work =
  work_reconciliation :: reconciliation
  work_spec :: work_spec
  work_child_id :: string
  work_status :: work_status
  work_workspace :: "workspace option"
  work_attempt :: "attempt option"
  work_artifact :: "artifact option"
  work_review :: "review option"
  work_finish :: "receipt option"
  work_integration :: "receipt option"
  work_reason :: "string option"
  work_last_output :: "string option"
  work_paused :: bool
  work_ready_at_ms :: "int option"
  work_handoff :: "handoff option"

section \<open>Inputs and wakes\<close>

text \<open>
  \<open>ContentBlock\<close> and \<open>PromptRequest\<close> are ACP wire data. The router looks at a block's
  kind and at a text block's text; every other block is carried as its JSON.
\<close>

datatype content_block =
    TextBlock string
  | ImageBlock json
  | AudioBlock json
  | ResourceBlock json
  | ResourceLinkBlock json
  | OtherBlock json

record prompt_request =
  req_session_id :: string
  req_prompt :: "content_block list"
  req_meta :: "json option"

record input_receipt =
  inp_origin :: string
  inp_replayed_from :: "string option"
  inp_text :: string
  inp_attachments :: "json list"
  inp_owner :: "string option"
  inp_acknowledged :: bool
  inp_delivered_to :: "string set"

record queued_parent_input =
  q_input_id :: string
  q_request :: prompt_request

record wake =
  wake_reason :: string
  wake_work_id :: string
  wake_acknowledged :: bool
  wake_deliveries :: nat
  wake_retry_after :: int
  wake_claim_pid :: nat
  wake_claim_started_at_ms :: nat
  wake_announced :: bool

definition wake_default :: wake where
  "wake_default =
     \<lparr>wake_reason = [], wake_work_id = [], wake_acknowledged = False, wake_deliveries = 0,
      wake_retry_after = 0, wake_claim_pid = 0, wake_claim_started_at_ms = 0,
      wake_announced = False\<rparr>"

definition new_wake :: "string \<Rightarrow> string \<Rightarrow> wake" where
  "new_wake work_id reason = wake_default\<lparr>wake_work_id := work_id, wake_reason := reason\<rparr>"

section \<open>Releases\<close>

record checkpoint =
  cp_stage :: stage
  cp_revision :: string
  cp_works :: "(string, string) btree"
  cp_replaces :: "string option"
  cp_evidence :: "(string, string) btree"

record release =
  rel_candidate :: string
  rel_works :: "(string, string) btree"
  rel_checkpoints :: "checkpoint list"
  rel_superseded_by :: "string option"

record selection_attestation =
  sa_session_id :: string
  sa_run_revision :: nat
  sa_release_id :: string
  sa_candidate :: string
  sa_hold_input_id :: string
  sa_human_input_id :: string
  sa_repairs :: "(string, string) btree"
  sa_allowed :: "(string, string) btree"

section \<open>Capacity, audit, observations\<close>

record hold =
  hold_plan_id :: string
  hold_reason :: string
  hold_detail :: string
  hold_expires_at_ms :: int

record candidate_work =
  cand_work :: work_spec
  cand_task :: string

record host_snapshot =
  hs_at_ms :: int
  hs_ok :: bool
  hs_error :: "string option"
  hs_candidates :: "candidate_work list"

record auto_admission =
  aa_at_ms :: int
  aa_run :: nat
  aa_free :: nat
  aa_admitted :: "string list"
  aa_held :: "string list"

record resume =
  rs_count :: nat
  rs_due_at :: "int option"
  rs_followup :: "(string \<times> nat) option"
  rs_failure_fingerprint :: "string option"
  rs_same_failure_count :: nat
  rs_suspended :: "string option"

definition resume_default :: resume where
  "resume_default =
     \<lparr>rs_count = 0, rs_due_at = None, rs_followup = None, rs_failure_fingerprint = None,
      rs_same_failure_count = 0, rs_suspended = None\<rparr>"

record defect =
  df_code :: string
  df_detail :: string

record audit_snapshot =
  au_at_ms :: int
  au_ok :: bool
  au_error :: "string option"
  au_defects :: "defect list"
  au_observed :: "string set"
  au_completed_guides :: "string set option"

record gate_state =
  gate_count :: nat
  gate_last_at :: int

datatype observation_state = Pending | Passed | ObsFailed | Unknown

record observation =
  obs_revision :: string
  obs_reference :: string
  obs_state :: observation_state
  obs_evidence :: string

record capacity_state =
  cap_pending_adoption :: "string option"
  cap_last_adoption_retry_at :: int
  cap_holds :: "(string, hold) btree"
  cap_host :: "host_snapshot option"
  cap_unfilled_wakes :: nat
  cap_unfilled_since :: "int option"
  cap_last_wake_at :: int
  cap_last_inflight_wake_at :: int
  cap_auto_admit_runs :: nat
  cap_last_auto_admission :: "auto_admission option"
  cap_resumes :: "(string, resume) btree"
  cap_audit :: "audit_snapshot option"
  cap_last_audit_wake_at :: int
  cap_gate :: gate_state
  cap_native_adoption :: "json option"

definition capacity_default :: capacity_state where
  "capacity_default =
     \<lparr>cap_pending_adoption = None, cap_last_adoption_retry_at = 0, cap_holds = [],
      cap_host = None, cap_unfilled_wakes = 0, cap_unfilled_since = None, cap_last_wake_at = 0,
      cap_last_inflight_wake_at = 0, cap_auto_admit_runs = 0, cap_last_auto_admission = None,
      cap_resumes = [], cap_audit = None, cap_last_audit_wake_at = 0,
      cap_gate = \<lparr>gate_count = 0, gate_last_at = 0\<rparr>, cap_native_adoption = None\<rparr>"

section \<open>The run\<close>

record run_owner =
  own_pid :: nat
  own_started_at_ms :: nat

record planner_run =
  run_revision :: nat
  run_policy :: resolved_planner
  run_prior_policies :: "resolved_planner list"
  run_phase :: planner_phase
  run_coordinator :: bool
  run_status :: run_status
  run_execution_request :: "string option"
  run_execution_input_id :: "string option"
  run_commands :: "string set"
  run_works :: "(string, work) btree"
  run_releases :: "(string, release) btree"
  run_observations :: "(string, observation) btree"
  run_completed_guides_at_start :: "string set option"
  run_inputs :: "(string, input_receipt) btree"
  run_parent_queue :: "queued_parent_input list"
  run_wakes :: "(string, wake) btree"
  run_approval_waits :: "string set"
  run_receipts :: "(string, string) btree"
  run_idle_heartbeats :: nat
  run_capacity :: capacity_state
  run_owner :: "run_owner option"
  run_owner_heartbeat_at :: int
  run_superseded_by :: "string option"

record worker_identity =
  wi_work_id :: string
  wi_attempt_id :: string

section \<open>Operations of the planner tool\<close>

datatype operation =
    OpStatus nat "string option"
  | OpAdmit string work_spec
  | OpReconcile string work_spec string "string list"
  | OpRetire string string string "(string, string) btree"
  | OpArtifact string string string artifact
  | OpReview string string string bool "string list" "string option"
  | OpFinished string string string receipt
  | OpFinalize string string receipt
  | OpIntegrate string string receipt
  | OpRelease string string checkpoint
  | OpDisposition string string work_status string
  | OpAcknowledgeInput string string "string option"
  | OpAcknowledgeWake string string
  | OpHold string string string string
  | OpComplete string string

text \<open>The idempotency key (\<open>value.get("key")\<close>); a status query has none.\<close>

fun op_key :: "operation \<Rightarrow> string option" where
  "op_key (OpStatus _ _) = None"
| "op_key (OpAdmit k _) = Some k"
| "op_key (OpReconcile k _ _ _) = Some k"
| "op_key (OpRetire k _ _ _) = Some k"
| "op_key (OpArtifact k _ _ _) = Some k"
| "op_key (OpReview k _ _ _ _ _) = Some k"
| "op_key (OpFinished k _ _ _) = Some k"
| "op_key (OpFinalize k _ _) = Some k"
| "op_key (OpIntegrate k _ _) = Some k"
| "op_key (OpRelease k _ _) = Some k"
| "op_key (OpDisposition k _ _ _) = Some k"
| "op_key (OpAcknowledgeInput k _ _) = Some k"
| "op_key (OpAcknowledgeWake k _) = Some k"
| "op_key (OpHold k _ _ _) = Some k"
| "op_key (OpComplete k _) = Some k"

section \<open>Refusals\<close>

text \<open>
  One constructor per refusal message of the planner; a message's formatted parts are the
  constructor's arguments.
\<close>

datatype host_error =
    ErrNotFullSha
  | ErrSourceNotCarried
  | ErrGit string
  | ErrHeadChanged
  | ErrDirtyWorkspace
  | ErrWorkspaceUnavailable string
  | ErrAllocation string
  | ErrNotIsolated
  | ErrCapacityHost string
  | ErrAuditHost string
  | ErrAuditDefects "defect list"
  | ErrHostUnavailable string
  | ErrHostRejected string string
  | ErrHostUnacknowledged string
  | ErrWorkspaceHeld string

datatype run_error =
    ErrSuperseded "string option"
  | ErrMissingKey
  | ErrKeyReused
  | ErrAdoptionPending string "string option"
  | ErrChildCannotCoordinate
  | ErrShuttingDown
  | ErrRunSuspended run_status
  | ErrCompleteEvidence
  | ErrCompleteReleases
  | ErrCompletePending "string list"
  | ErrUnheldCandidates "string list"
  | ErrUnknownWake
  | ErrConcurrent
  | ErrContended
  | ErrStateMissing
  | ErrRunNotRunning
  | ErrNoLiveOwner
  | ErrRunMissing
  | ErrRunSupersededUse
  | ErrCheckoutMismatch
  | ErrCommandReplayed string
  | ErrPolicy string

datatype work_error =
    ErrUnknownWork
  | ErrRetireNoHost
  | ErrRetireRefused
  | ErrUnknownReconciliationWork
  | ErrContractVersion "nat option"
  | ErrReconcileIncomplete
  | ErrReconcileContract
  | ErrCorrectionScope
  | ErrCorrectionLive
  | ErrReconcileLive
  | ErrReconcileFrozen
  | ErrHandoffUnresolved
  | ErrSelfDependency
  | ErrAdmissionUnauthorized
  | ErrAssignmentIncomplete
  | ErrAssignmentDiffers
  | ErrDuplicateGuide string
  | ErrNotAssignedChild
  | ErrWrongAssignment
  | ErrNoAttempt
  | ErrAttemptFenced
  | ErrNoWorkspace
  | ErrArtifactEvidence
  | ErrIntegrationRequirements
  | ErrArtifactPaths
  | ErrCheckNotPassed string
  | ErrNoArtifact
  | ErrStaleReview
  | ErrReviewEvidence
  | ErrUnresolved
  | ErrNoCorrections
  | ErrNotAccepted
  | ErrFinishEvidence
  | ErrNoFinishVerifier
  | ErrNoFinalizeHost
  | ErrFinalizeState
  | ErrFinalizeEvidence
  | ErrNotFinished
  | ErrIntegrateLive
  | ErrIntegrateEvidence
  | ErrMissingIntegrationEvidence string
  | ErrDispositionReason
  | ErrDispositionLive
  | ErrDispositionIntegrated

datatype dispatch_error =
    ErrExecutionSuspended
  | ErrNotAdmitted "string option" "string option"
  | ErrReconciliationRequired
  | ErrAssignmentPaused
  | ErrDependencyNotIntegrated string
  | ErrSourceNotReady string string
  | ErrLiveAttempt
  | ErrAwaitingParent
  | ErrLeaseChanged
  | ErrFenceLost
  | ErrSuspendedDuringAllocation
  | ErrStaleStop
  | ErrAttemptBusy
  | ErrReviewFirst

datatype release_error =
    ErrNeedsReleaseRound
  | ErrBypassesRelease
  | ErrReleaseNotPassed
  | ErrReleaseNoHost
  | ErrReleaseSession
  | ErrReleaseId
  | ErrReleaseEvidence stage
  | ErrReleaseClosed
  | ErrReleaseFrozen
  | ErrReleaseOrder stage
  | ErrReleaseRevision
  | ErrProductionBusy
  | ErrNotDisposable
  | ErrEmptySelection
  | ErrStagingBusy
  | ErrReplacedMissing
  | ErrReplacedNotFailed
  | ErrWorkSelected string
  | ErrReleaseUnknownWork
  | ErrMissingDependency string string
  | ErrReleaseWorkNotFinished string
  | ErrUnderBatched "string list"
  | ErrAttestationBinding
  | ErrAttestationInput
  | ErrAttestationHuman
  | ErrAttestedUnknown
  | ErrAttestedUnfinished
  | ErrAttestedConflict
  | ErrAttestedClosure
  | ErrHoldNeedsAttestation
  | ErrAttestationFormat

datatype input_error =
    ErrInputOwnerUnknown
  | ErrUnknownInput
  | ErrInputOwnerChanged
  | ErrInputUndelivered
  | ErrInputIdentity
  | ErrInputActive string
  | ErrInputHuman
  | ErrInputId
  | ErrInputMessage
  | ErrWithdrawalReason
  | ErrSender

datatype hold_error =
    ErrHoldPlan
  | ErrHoldSourceConflict "string list"
  | ErrHoldDependency
  | ErrHoldDisk
  | ErrHoldProduction
  | ErrHoldHuman
  | ErrHoldReason string
  | ErrHoldUnverified string
  | ErrHoldRefused string

datatype planner_error =
    HostErr host_error
  | RunErr run_error
  | WorkErr work_error
  | DispatchErr dispatch_error
  | ReleaseErr release_error
  | InputErr input_error
  | HoldErr hold_error

section \<open>Well-formed runs\<close>

text \<open>
  The representation invariant of a run document: every \<open>BTreeMap\<close> it holds is a
  key-sorted list, and a work is filed under its own identity.
\<close>

definition run_wf :: "planner_run \<Rightarrow> bool" where
  "run_wf r \<longleftrightarrow>
     bt_wf (run_works r) \<and> bt_wf (run_releases r) \<and> bt_wf (run_observations r) \<and>
     bt_wf (run_inputs r) \<and> bt_wf (run_wakes r) \<and> bt_wf (run_receipts r) \<and>
     bt_wf (cap_holds (run_capacity r)) \<and> bt_wf (cap_resumes (run_capacity r)) \<and>
     (\<forall>k w. bt_get (run_works r) k = Some w \<longrightarrow> spec_work_id (work_spec w) = k)"

end
