(* ===== verification/Planner_Host.thy ===== *)
theory Planner_Host
  imports Planner_Types
begin

text \<open>
  What the planner reads from outside its own document: git, the file system, the
  process table, the clock, and the repository's host programs (integrate-check, audit,
  capacity, workspace allocator). A selection check is built from the whole run, so its
  request carries the run it describes. They are fields of \<open>planner_env\<close>, an argument of every
  operation that uses them; the checks the router itself makes on their answers
  (\<open>verify_revision\<close>, \<open>verify_source_revision\<close>, \<open>owner_alive\<close>, \<open>integrate_reply\<close>,
  \<open>completion_audit\<close>, \<open>verify_hold\<close>, \<open>allocate_workspace\<close>) are definitions. The
  allocator returns the document it printed; a capacity or audit host returns its exit
  code, its parsed answer when the answer parses, and its description.
\<close>

record host_output =
  out_code :: "int option"
  out_json :: "json option"
  out_stderr :: string

record audit_reply =
  ar_defects :: "defect list"
  ar_hold_valid :: "bool option"
  ar_reason :: "string option"
  ar_observations :: "(string, observation) btree"
  ar_completed_guides :: "string set option"

datatype host_request =
    CheckOperation operation
  | CheckAssignment operation work
  | CheckRelease operation release "(string, string) btree" "(string, string) btree"
  | CheckSelection string planner_run string checkpoint

record planner_env =
  env_git_head :: "string \<Rightarrow> (string, string) result"
  env_git_status :: "string \<Rightarrow> (string, string) result"
  env_git_carries :: "string \<Rightarrow> string \<Rightarrow> bool"
  env_git_toplevel :: "string \<Rightarrow> (string, string) result"
  env_staging_tip :: "string option"
  env_is_ancestor :: "string \<Rightarrow> string \<Rightarrow> bool"
  env_is_dir :: "string \<Rightarrow> bool"
  env_canonical :: "string \<Rightarrow> (string, string) result"
  env_cwd :: "string option"
  env_identity :: "nat \<times> nat"
  env_pid_exists :: "nat \<Rightarrow> bool"
  env_pid_start :: "nat \<Rightarrow> nat option"
  env_now_ms :: int
  env_content_hash :: "string \<Rightarrow> string"
  env_failure_json :: "string option \<Rightarrow> planner_error option \<Rightarrow> artifact option \<Rightarrow>
     (string \<times> string) option \<Rightarrow> review option \<Rightarrow> string"
  env_fingerprint :: "operation \<Rightarrow> string"
  env_withdrawal_json :: "int \<Rightarrow> string \<Rightarrow> string"
  env_withdrawal_parse :: "string \<Rightarrow> (int \<times> string) option"
  env_integrate_host :: "(host_request \<Rightarrow> (string, host_output) result) option"
  env_audit_host :: "(planner_run \<Rightarrow> bool \<Rightarrow> (string \<times> string \<times> string) option \<Rightarrow>
     (string, int option \<times> audit_reply option \<times> string) result) option"
  env_capacity_host :: "(planner_run \<Rightarrow>
     (string, int option \<times> candidate_work list option \<times> string) result) option"
  env_allocator :: "work_spec \<Rightarrow> string \<Rightarrow> (string, workspace) result"
  env_clone :: "string \<Rightarrow> (string, workspace) result"
  env_delegate_limit :: nat
  env_attestation :: "json \<Rightarrow> (string, selection_attestation) result"
  env_is_uuid :: "string \<Rightarrow> bool"
  env_error_text :: "planner_error \<Rightarrow> string"

text \<open>The \<open>action\<close> tag of a request (\<open>#[serde(tag = "action", rename_all = "kebab-case")]\<close>).\<close>

fun op_action :: "operation \<Rightarrow> string" where
  "op_action (OpStatus _ _) = ''status''"
| "op_action (OpAdmit _ _) = ''admit''"
| "op_action (OpReconcile _ _ _ _) = ''reconcile''"
| "op_action (OpRetire _ _ _ _) = ''retire''"
| "op_action (OpArtifact _ _ _ _) = ''artifact''"
| "op_action (OpReview _ _ _ _ _ _) = ''review''"
| "op_action (OpFinished _ _ _ _) = ''finished''"
| "op_action (OpFinalize _ _ _) = ''finalize''"
| "op_action (OpIntegrate _ _ _) = ''integrate''"
| "op_action (OpRelease _ _ _) = ''release''"
| "op_action (OpDisposition _ _ _ _) = ''disposition''"
| "op_action (OpAcknowledgeInput _ _ _) = ''acknowledge-input''"
| "op_action (OpAcknowledgeWake _ _) = ''acknowledge-wake''"
| "op_action (OpHold _ _ _ _) = ''hold''"
| "op_action (OpComplete _ _) = ''complete''"

fun request_action :: "host_request \<Rightarrow> string" where
  "request_action (CheckOperation op) = op_action op"
| "request_action (CheckAssignment op _) = op_action op"
| "request_action (CheckRelease op _ _ _) = op_action op"
| "request_action (CheckSelection _ _ _ _) = ''release-selection-check''"

section \<open>Git and processes\<close>

definition full_sha :: "string \<Rightarrow> bool" where
  "full_sha sha \<longleftrightarrow> length sha = 40 \<and> list_all is_ascii_hexdigit sha"

definition verify_revision :: "planner_env \<Rightarrow> string \<Rightarrow> string \<Rightarrow> (planner_error, unit) result" where
  "verify_revision env path revision =
     (case env_git_head env path of
        Inl e \<Rightarrow> Inl (HostErr (ErrGit e))
      | Inr head \<Rightarrow>
          if head \<noteq> revision then Inl (HostErr ErrHeadChanged)
          else case env_git_status env path of
            Inl e \<Rightarrow> Inl (HostErr (ErrGit e))
          | Inr status \<Rightarrow> if status \<noteq> [] then Inl (HostErr ErrDirtyWorkspace) else Inr ())"

definition verify_source_revision ::
  "planner_env \<Rightarrow> string \<Rightarrow> string \<Rightarrow> (planner_error, unit) result" where
  "verify_source_revision env path revision =
     (if length revision \<noteq> 40 \<or> \<not> list_all is_ascii_hexdigit revision then Inl (HostErr ErrNotFullSha)
      else if env_git_carries env path revision then Inr ()
      else Inl (HostErr ErrSourceNotCarried))"

definition owner_alive :: "planner_env \<Rightarrow> attempt \<Rightarrow> bool" where
  "owner_alive env a =
     (if att_router_pid a = 0 then False
      else if att_router_pid a = fst (env_identity env) then
        (att_router_pid a, att_router_started_at_ms a) = env_identity env
      else if \<not> env_pid_exists env (att_router_pid a) then False
      else is_none_or (env_pid_start env (att_router_pid a))
             (\<lambda>start. start = att_router_started_at_ms a))"

definition run_owner_alive :: "planner_env \<Rightarrow> run_owner \<Rightarrow> bool" where
  "run_owner_alive env o1 =
     owner_alive env
       \<lparr>att_id = [], att_router_pid = own_pid o1, att_router_started_at_ms = own_started_at_ms o1,
        att_delegate_id = None, att_ended = False\<rparr>"

definition workspace_available :: "planner_env \<Rightarrow> workspace \<Rightarrow> (planner_error, unit) result" where
  "workspace_available env w =
     (if env_is_dir env (ws_path w) then Inr () else Inl (HostErr (ErrWorkspaceUnavailable (ws_path w))))"

lemma verify_revision_Inr_iff:
  "verify_revision env path revision = Inr u \<longleftrightarrow>
     env_git_head env path = Inr revision \<and> env_git_status env path = Inr []"
  by (auto simp: verify_revision_def split: sum.splits)

section \<open>Host programs\<close>

definition acknowledged_actions :: "string list" where
  "acknowledged_actions =
     [''finished'', ''finalize'', ''release'', ''retire'', ''release-selection-check'']"

definition verified_action :: "json option \<Rightarrow> string option" where
  "verified_action v =
     Option.bind v (\<lambda>j. Option.bind (json_get j ''verified_action'') as_str)"

definition integrate_reply :: "planner_env \<Rightarrow> host_request \<Rightarrow> (planner_error, json) result" where
  "integrate_reply env req =
     (case env_integrate_host env of
        None \<Rightarrow> Inr JNull
      | Some host \<Rightarrow>
          (let action = request_action req in
           if env_cwd env = None then Inl (HostErr (ErrHostUnavailable action))
           else case host req of
             Inl e \<Rightarrow> Inl (HostErr (ErrHostUnavailable action))
           | Inr out \<Rightarrow>
               if out_code out = Some 0 then
                 (if List.member acknowledged_actions action \<and>
                     verified_action (out_json out) \<noteq> Some action
                  then Inl (HostErr (ErrHostUnacknowledged action))
                  else Inr (unwrap_or (out_json out) JNull))
               else if out_code out = Some 2 then
                 Inl (HostErr (ErrHostRejected action
                   (if out_stderr out = [] then ''no reason given'' else out_stderr out)))
               else Inl (HostErr (ErrHostUnavailable action))))"

definition integrate_check :: "planner_env \<Rightarrow> host_request \<Rightarrow> (planner_error, unit) result" where
  "integrate_check env req = rbind (integrate_reply env req) (\<lambda>_. Inr ())"

text \<open>\<open>validate_observations\<close> of an audit answer, then \<open>audit\<close>.\<close>

definition valid_evidence :: "string \<Rightarrow> bool" where
  "valid_evidence v \<longleftrightarrow>
     \<not> blank v \<and>
     \<not> List.member [''unknown'', ''pending'', ''unverified''] (to_ascii_lowercase (trim v))"

definition valid_observation :: "string \<Rightarrow> observation \<Rightarrow> bool" where
  "valid_observation i obs \<longleftrightarrow>
     \<not> (blank i \<or> 256 < length i \<or> length (obs_revision obs) \<noteq> 40 \<or>
        \<not> list_all is_ascii_hexdigit (obs_revision obs) \<or>
        \<not> valid_evidence (obs_reference obs) \<or> \<not> valid_evidence (obs_evidence obs))"

definition validate_observations :: "(string, observation) btree \<Rightarrow> (string, unit) result" where
  "validate_observations obs =
     (if 128 < length obs then Inl ''audit returned more than 128 observations''
      else if bt_all valid_observation obs then Inr ()
      else Inl ''audit observation requires an id, full revision, exact reference and evidence'')"

definition audit ::
  "planner_env \<Rightarrow> planner_run \<Rightarrow> bool \<Rightarrow> (string \<times> string \<times> string) option \<Rightarrow>
   (string, audit_reply) result option" where
  "audit env run completing hold_check =
     (case env_audit_host env of
        None \<Rightarrow> None
      | Some host \<Rightarrow> Some
          (if env_cwd env = None then Inl ''the parent session is not loaded''
           else case host run completing hold_check of
             Inl e \<Rightarrow> Inl e
           | Inr (code, reply, described) \<Rightarrow>
               if code = Some 0 then
                 (case reply of
                    None \<Rightarrow> Inl ''audit host returned invalid JSON''
                  | Some r \<Rightarrow>
                      rbind (validate_observations (ar_observations r)) (\<lambda>_. Inr r))
               else Inl (''audit host exited with '' @ described)))"

definition completion_audit :: "planner_env \<Rightarrow> planner_run \<Rightarrow> (planner_error, unit) result" where
  "completion_audit env run =
     (case audit env run True None of
        None \<Rightarrow> Inr ()
      | Some (Inl e) \<Rightarrow> Inl (HostErr (ErrAuditHost e))
      | Some (Inr reply) \<Rightarrow>
          if ar_defects reply = [] then Inr () else Inl (HostErr (ErrAuditDefects (ar_defects reply))))"

definition verify_hold ::
  "planner_env \<Rightarrow> planner_run \<Rightarrow> string \<Rightarrow> string \<Rightarrow> string \<Rightarrow> (planner_error, unit) result" where
  "verify_hold env run plan_id reason detail =
     (case audit env run False (Some (plan_id, reason, trim detail)) of
        None \<Rightarrow> Inr ()
      | Some (Inl e) \<Rightarrow> Inl (HoldErr (ErrHoldUnverified e))
      | Some (Inr reply) \<Rightarrow>
          if ar_hold_valid reply = Some False
          then Inl (HoldErr (ErrHoldRefused (unwrap_or (ar_reason reply) ''no reason given'')))
          else Inr ())"

lemma integrate_check_no_host: "env_integrate_host env = None \<Longrightarrow> integrate_check env req = Inr ()"
  by (simp add: integrate_check_def integrate_reply_def)

text \<open>An accepted check means exit status 0 of the configured host.\<close>

lemma integrate_check_accepts:
  assumes "integrate_check env req = Inr u" and "env_integrate_host env = Some host"
  shows "\<exists>out. host req = Inr out \<and> out_code out = Some 0"
  using assms
  by (auto simp: integrate_check_def integrate_reply_def Let_def split: sum.splits if_splits)

section \<open>Workspace allocation\<close>

definition allocate_workspace ::
  "planner_env \<Rightarrow> work \<Rightarrow> resolved_planner \<Rightarrow> (planner_error, workspace) result" where
  "allocate_workspace env w policy =
     (case env_cwd env of
        None \<Rightarrow> Inl (HostErr (ErrAllocation ''parent session missing''))
      | Some cwd \<Rightarrow>
          (case (if pol_workspace policy \<noteq> None
                 then env_allocator env (work_spec w) (work_child_id w)
                 else env_clone env (work_child_id w)) of
             Inl e \<Rightarrow> Inl (HostErr (ErrAllocation e))
           | Inr ws \<Rightarrow>
               (case env_canonical env (ws_path ws) of
                  Inl e \<Rightarrow> Inl (HostErr (ErrAllocation e))
                | Inr path \<Rightarrow>
                    (case env_canonical env cwd of
                       Inl e \<Rightarrow> Inl (HostErr (ErrAllocation e))
                     | Inr home \<Rightarrow>
                         if path = home \<or> blank (ws_lease ws) then Inl (HostErr ErrNotIsolated)
                         else case env_git_toplevel env path of
                           Inl e \<Rightarrow> Inl (HostErr (ErrGit e))
                         | Inr _ \<Rightarrow> Inr (ws\<lparr>ws_path := path\<rparr>)))))"

lemma allocate_workspace_isolated:
  assumes "allocate_workspace env w policy = Inr ws"
  shows "\<not> blank (ws_lease ws) \<and> (\<exists>cwd home. env_cwd env = Some cwd \<and>
    env_canonical env cwd = Inr home \<and> ws_path ws \<noteq> home)"
  using assms
  by (auto simp: allocate_workspace_def split: option.splits sum.splits if_splits)

end
