(* ===== verification/Planner_Samples.thy ===== *)
theory Planner_Samples
  imports Planner_Host
begin

text \<open>
  Concrete documents the witnesses of the planner theories evaluate: a policy, an
  assignment, a work, a running implementation run and an environment whose git, file
  system and hosts answer in the simplest successful way.
\<close>

definition sample_sha :: string where
  "sample_sha = replicate 40 (CHR ''a'')"

definition sample_policy :: resolved_planner where
  "sample_policy =
     \<lparr>pol_schema = 1, pol_identity = ''policy'',
      pol_policy = \<lparr>skill_name = ''p'', skill_source = ''s'', skill_hash = ''h'', skill_text = ''t''\<rparr>,
      pol_roles = [], pol_roadmap = None, pol_host_instructions = [], pol_workspace = None\<rparr>"

definition sample_spec :: "string \<Rightarrow> work_spec" where
  "sample_spec i =
     \<lparr>spec_work_id = i, spec_plan_id = ''plan'', spec_scope = ''scope'', spec_dependencies = [],
      spec_ready_dependencies = [], spec_required_checks = [''unit''],
      spec_required_integration_evidence = [''merge''], spec_repository = None,
      spec_external_id = None, spec_completion_contract_version = None\<rparr>"

definition sample_work :: "string \<Rightarrow> work" where
  "sample_work i =
     \<lparr>work_reconciliation = reconciliation_default, work_spec = sample_spec i,
      work_child_id = ''child-'' @ i, work_status = Admitted, work_workspace = None,
      work_attempt = None, work_artifact = None, work_review = None, work_finish = None,
      work_integration = None, work_reason = None, work_last_output = None, work_paused = False,
      work_ready_at_ms = None, work_handoff = None\<rparr>"

definition sample_workspace :: workspace where
  "sample_workspace =
     \<lparr>ws_path = ''/w'', ws_lease = ''lease'', ws_environment = [], ws_mcp_servers = []\<rparr>"

definition sample_attempt :: "string \<Rightarrow> bool \<Rightarrow> attempt" where
  "sample_attempt i ended =
     \<lparr>att_id = i, att_router_pid = 7, att_router_started_at_ms = 70, att_delegate_id = None,
      att_ended = ended\<rparr>"

definition sample_run :: "(string, work) btree \<Rightarrow> planner_run" where
  "sample_run works =
     \<lparr>run_revision = 4, run_policy = sample_policy, run_prior_policies = [],
      run_phase = Implementation, run_coordinator = True, run_status = RunRunning,
      run_execution_request = Some ''go'', run_execution_input_id = Some ''in-1'',
      run_commands = {}, run_works = works, run_releases = [], run_observations = [],
      run_completed_guides_at_start = None, run_inputs = [], run_parent_queue = [],
      run_wakes = [], run_approval_waits = {}, run_receipts = [], run_idle_heartbeats = 0,
      run_capacity = capacity_default, run_owner = None, run_owner_heartbeat_at = 0,
      run_superseded_by = None\<rparr>"

definition sample_env :: planner_env where
  "sample_env =
     \<lparr>env_git_head = (\<lambda>_. Inr sample_sha), env_git_status = (\<lambda>_. Inr []),
      env_git_carries = (\<lambda>_ _. True), env_git_toplevel = (\<lambda>p. Inr p), env_staging_tip = None,
      env_is_ancestor = (\<lambda>_ _. True), env_is_dir = (\<lambda>_. True), env_canonical = (\<lambda>p. Inr p),
      env_cwd = Some ''/repo'', env_identity = (7, 70), env_pid_exists = (\<lambda>_. True),
      env_pid_start = (\<lambda>_. None), env_now_ms = 1000, env_content_hash = (\<lambda>s. s),
      env_failure_json = (\<lambda>_ _ _ _ _. ''failure''), env_fingerprint = op_action,
      env_withdrawal_json = (\<lambda>_ s. s), env_withdrawal_parse = (\<lambda>s. Some (0, s)),
      env_integrate_host = Some (\<lambda>req. Inr \<lparr>out_code = Some 0,
         out_json = Some (JObject [(''verified_action'', JString (request_action req))]),
         out_stderr = []\<rparr>),
      env_audit_host = None, env_capacity_host = None,
      env_allocator = (\<lambda>_ _. Inr sample_workspace), env_clone = (\<lambda>_. Inr sample_workspace),
      env_delegate_limit = 2, env_attestation = (\<lambda>_. Inl ''no attestation''),
      env_is_uuid = (\<lambda>_. True), env_error_text = (\<lambda>_. ''refused'')\<rparr>"

lemmas sample_defs =
  sample_policy_def sample_spec_def sample_work_def sample_workspace_def sample_attempt_def
  sample_run_def sample_env_def sample_sha_def reconciliation_default_def capacity_default_def
  resume_default_def

end
