(* ===== verification/Planner_Capacity.thy ===== *)
theory Planner_Capacity
  imports Planner_Samples
begin

text \<open>
  Router-enforced worker capacity (\<open>planner_capacity.rs\<close>): slots, candidate holds, the
  capacity host's answer, the completion gate, slot filling with capacity wakes and
  automatic admission, and the resumption of workers that stopped early. A wake's prose
  and a fresh wake id (\<open>Uuid::new_v4\<close>) are arguments of the operation that records the
  wake. \<open>planner_workflow::mutate\<close> applies its closure to the current document; here the
  document is the argument, and a closure that refuses leaves it unchanged.
\<close>

section \<open>Constants and timing\<close>

definition AWAITING_HUMAN :: string where
  "AWAITING_HUMAN = ''awaiting-human''"

definition HOLD_REASONS :: "string list" where
  "HOLD_REASONS =
     [''source-conflict'', ''dependency'', ''disk-floor'', ''production-failure'', AWAITING_HUMAN]"

definition HOLD_MS :: int where
  "HOLD_MS = 30 * 60 * 1000"

definition i64_max :: int where
  "i64_max = 2 ^ 63 - 1"

definition RESUME_BACKOFF_SECS :: "int list" where
  "RESUME_BACKOFF_SECS = [30, 120, 300]"

definition SAME_FAILURE_LIMIT :: nat where
  "SAME_FAILURE_LIMIT = 3"

definition PARENT_HANDOFFS :: "string list" where
  "PARENT_HANDOFFS =
     [''commit_paths_ready'', ''lease_requested'', ''ownership_requested'',
      ''staging_gate_request'', ''round_verified'', ''round_failed'', ''reassignment_required'']"

definition ROUTER_WAKE_PREFIXES :: "string list" where
  "ROUTER_WAKE_PREFIXES =
     [''capacity:'', ''auto-admit:'', ''inflight:'', ''audit:'', ''gate:'', ''adopt-native:'']"

record capacity_config =
  tm_wake_after_secs :: nat
  tm_auto_admit_after_wakes :: nat
  tm_auto_admit_after_secs :: nat
  tm_inflight_wake_secs :: nat

definition timing_defaults :: capacity_config where
  "timing_defaults =
     \<lparr>tm_wake_after_secs = 60, tm_auto_admit_after_wakes = 2, tm_auto_admit_after_secs = 300,
      tm_inflight_wake_secs = 300\<rparr>"

definition upd_capacity :: "(capacity_state \<Rightarrow> capacity_state) \<Rightarrow> planner_run \<Rightarrow> planner_run" where
  "upd_capacity f run = run\<lparr>run_capacity := f (run_capacity run)\<rparr>"

definition put_wake :: "string \<Rightarrow> wake \<Rightarrow> planner_run \<Rightarrow> planner_run" where
  "put_wake wid w run = run\<lparr>run_wakes := bt_insert wid w (run_wakes run)\<rparr>"

lemma upd_capacity_simps [simp]:
  "run_capacity (upd_capacity f run) = f (run_capacity run)"
  "run_works (upd_capacity f run) = run_works run"
  "run_wakes (upd_capacity f run) = run_wakes run"
  "run_releases (upd_capacity f run) = run_releases run"
  "run_receipts (upd_capacity f run) = run_receipts run"
  "run_inputs (upd_capacity f run) = run_inputs run"
  "run_observations (upd_capacity f run) = run_observations run"
  "run_status (upd_capacity f run) = run_status run"
  "run_phase (upd_capacity f run) = run_phase run"
  "run_revision (upd_capacity f run) = run_revision run"
  by (simp_all add: upd_capacity_def)

lemma put_wake_simps [simp]:
  "run_capacity (put_wake i w run) = run_capacity run"
  "run_works (put_wake i w run) = run_works run"
  "run_wakes (put_wake i w run) = bt_insert i w (run_wakes run)"
  "run_releases (put_wake i w run) = run_releases run"
  "run_receipts (put_wake i w run) = run_receipts run"
  "run_inputs (put_wake i w run) = run_inputs run"
  "run_observations (put_wake i w run) = run_observations run"
  "run_status (put_wake i w run) = run_status run"
  "run_phase (put_wake i w run) = run_phase run"
  "run_revision (put_wake i w run) = run_revision run"
  by (simp_all add: put_wake_def)

section \<open>Slots\<close>

definition attempt_live :: "work \<Rightarrow> bool" where
  "attempt_live w \<longleftrightarrow> is_some_and (work_attempt w) (\<lambda>a. \<not> att_ended a)"

definition attempt_done :: "work \<Rightarrow> bool" where
  "attempt_done w \<longleftrightarrow> is_none_or (work_attempt w) att_ended"

definition live_workers :: "planner_run \<Rightarrow> nat" where
  "live_workers run = length (filter attempt_live (bt_values (run_works run)))"

definition slots :: "planner_env \<Rightarrow> planner_run \<Rightarrow> nat \<times> nat \<times> nat" where
  "slots env run =
     (let max = env_delegate_limit env; live = live_workers run in (live, max, max - live))"

definition terminal :: "work_status \<Rightarrow> bool" where
  "terminal s \<longleftrightarrow> s = Integrated \<or> s = Blocked \<or> s = Watching \<or> s = Retired"

definition open_work :: "planner_run \<Rightarrow> string \<Rightarrow> bool" where
  "open_work run work_id =
     (case bt_get (run_works run) work_id of
        None \<Rightarrow> True
      | Some w \<Rightarrow>
          \<not> work_paused w \<and> attempt_done w \<and>
          (work_status w = Admitted \<or> (work_status w = Interrupted \<and> work_workspace w = None)))"

lemma attempt_done_iff: "attempt_done w \<longleftrightarrow> \<not> attempt_live w"
  by (cases "work_attempt w") (auto simp: attempt_done_def attempt_live_def)

section \<open>Holds\<close>

definition hold_for :: "planner_run \<Rightarrow> candidate_work \<Rightarrow> int \<Rightarrow> hold option" where
  "hold_for run c now_ms =
     List.find (\<lambda>h. hold_expires_at_ms h > now_ms)
       (List.map_filter (\<lambda>i. bt_get (cap_holds (run_capacity run)) i)
          [spec_plan_id (cand_work c), spec_work_id (cand_work c)])"

definition unheld_candidates :: "planner_run \<Rightarrow> int \<Rightarrow> candidate_work list" where
  "unheld_candidates run now_ms =
     (case opt_filter hs_ok (cap_host (run_capacity run)) of
        None \<Rightarrow> []
      | Some host \<Rightarrow>
          filter (\<lambda>c. open_work run (spec_work_id (cand_work c)) \<and> hold_for run c now_ms = None)
            (hs_candidates host))"

definition check_hold ::
  "planner_run \<Rightarrow> string \<Rightarrow> string \<Rightarrow> string \<Rightarrow> (planner_error, unit) result" where
  "check_hold run plan_id reason detail0 =
     (if blank plan_id then Inl (HoldErr ErrHoldPlan)
      else let detail = trim detail0 in
      if reason = ''source-conflict'' then
        (let live = map fst (filter (\<lambda>(_, w). \<not> terminal (work_status w)) (run_works run)) in
         if \<not> list_ex (\<lambda>i. contains_str detail i) live then Inl (HoldErr (ErrHoldSourceConflict live))
         else Inr ())
      else if reason = ''dependency'' then
        (if detail = [] then Inl (HoldErr ErrHoldDependency) else Inr ())
      else if reason = ''disk-floor'' then
        (if \<not> list_ex is_ascii_digit detail then Inl (HoldErr ErrHoldDisk) else Inr ())
      else if reason = ''production-failure'' then
        (if \<not> list_ex (\<lambda>w. 7 \<le> length w) (split_on (\<lambda>c. \<not> is_ascii_hexdigit c) detail)
         then Inl (HoldErr ErrHoldProduction) else Inr ())
      else if reason = AWAITING_HUMAN then
        (if \<not> List.member detail (CHR 0x22) then Inl (HoldErr ErrHoldHuman) else Inr ())
      else Inl (HoldErr (ErrHoldReason reason)))"

definition record_hold ::
  "planner_run \<Rightarrow> string \<Rightarrow> string \<Rightarrow> string \<Rightarrow> int \<Rightarrow> (planner_error, planner_run) result" where
  "record_hold run plan_id reason detail now_ms =
     rbind (check_hold run plan_id reason detail) (\<lambda>_.
       let expires = (if reason = AWAITING_HUMAN then i64_max else now_ms + HOLD_MS) in
       Inr (upd_capacity (\<lambda>c. c\<lparr>cap_holds :=
         bt_insert plan_id
           \<lparr>hold_plan_id = plan_id, hold_reason = reason, hold_detail = trim detail,
            hold_expires_at_ms = expires\<rparr>
           (bt_retain (\<lambda>_ h. hold_expires_at_ms h > now_ms) (cap_holds c))\<rparr>) run))"

definition human_hold :: "planner_run \<Rightarrow> hold option" where
  "human_hold run =
     List.find (\<lambda>h. hold_reason h = AWAITING_HUMAN) (bt_values (cap_holds (run_capacity run)))"

definition held_by_human :: "planner_run \<Rightarrow> work_spec \<Rightarrow> bool" where
  "held_by_human run spec =
     is_some_and (human_hold run)
       (\<lambda>h. hold_plan_id h = spec_plan_id spec \<or> hold_plan_id h = spec_work_id spec)"

definition clear_human_hold :: "planner_run \<Rightarrow> planner_run" where
  "clear_human_hold run =
     upd_capacity (\<lambda>c. c\<lparr>cap_holds := bt_retain (\<lambda>_ h. hold_reason h \<noteq> AWAITING_HUMAN)
       (cap_holds c)\<rparr>) run"

section \<open>The capacity host\<close>

definition run_capacity_host ::
  "(planner_run \<Rightarrow> (string, int option \<times> candidate_work list option \<times> string) result) \<Rightarrow>
   planner_run \<Rightarrow> (string, candidate_work list) result" where
  "run_capacity_host host run =
     (case host run of
        Inl e \<Rightarrow> Inl e
      | Inr (code, reply, described) \<Rightarrow>
          if code \<noteq> Some 0 then Inl (''capacity host exited with '' @ described)
          else (case reply of
                  None \<Rightarrow> Inl ''capacity host returned invalid JSON''
                | Some cs \<Rightarrow> Inr cs))"

definition query_host :: "planner_env \<Rightarrow> planner_run \<Rightarrow> int \<Rightarrow> host_snapshot option" where
  "query_host env run now_ms =
     (case env_capacity_host env of
        None \<Rightarrow> None
      | Some host \<Rightarrow>
          (let answer = (if env_cwd env = None then Inl ''the parent session is not loaded''
                         else run_capacity_host host run) in
           Some (case answer of
              Inr cs \<Rightarrow> \<lparr>hs_at_ms = now_ms, hs_ok = True, hs_error = None, hs_candidates = cs\<rparr>
            | Inl e \<Rightarrow> \<lparr>hs_at_ms = now_ms, hs_ok = False, hs_error = Some e, hs_candidates = []\<rparr>)))"

definition completion_allowed :: "planner_env \<Rightarrow> planner_run \<Rightarrow> (planner_error, unit) result" where
  "completion_allowed env run =
     (let now_ms = env_now_ms env in
      case query_host env run now_ms of
        None \<Rightarrow> Inr ()
      | Some snapshot \<Rightarrow>
          if \<not> hs_ok snapshot then Inl (HostErr (ErrCapacityHost (unwrap_or (hs_error snapshot) [])))
          else let probe = upd_capacity (\<lambda>c. c\<lparr>cap_host := Some snapshot\<rparr>) run;
                   unheld = unheld_candidates probe now_ms
               in if unheld \<noteq> []
                  then Inl (RunErr (ErrUnheldCandidates (map (\<lambda>c. spec_work_id (cand_work c)) unheld)))
                  else Inr ())"

definition host_configured :: "planner_env \<Rightarrow> bool" where
  "host_configured env \<longleftrightarrow> env_capacity_host env \<noteq> None"

definition supersedes_heartbeat :: "planner_env \<Rightarrow> planner_run \<Rightarrow> int \<Rightarrow> bool" where
  "supersedes_heartbeat env run now_ms \<longleftrightarrow>
     host_configured env \<and>
     is_some_and (cap_host (run_capacity run))
       (\<lambda>h. \<not> hs_ok h \<or> unheld_candidates run now_ms \<noteq> [])"


section \<open>Router wakes\<close>

definition ack_router_wakes :: "string \<Rightarrow> planner_run \<Rightarrow> planner_run" where
  "ack_router_wakes prefix run =
     run\<lparr>run_wakes := bt_map (\<lambda>i w. if starts_with i prefix \<and> \<not> wake_acknowledged w
       then w\<lparr>wake_acknowledged := True\<rparr> else w) (run_wakes run)\<rparr>"

definition pending_wake :: "planner_run \<Rightarrow> string \<Rightarrow> bool" where
  "pending_wake run prefix =
     bt_any (\<lambda>i w. starts_with i prefix \<and> \<not> wake_acknowledged w) (run_wakes run)"

definition reset_unfilled :: "planner_run \<Rightarrow> planner_run" where
  "reset_unfilled run =
     (if cap_unfilled_since (run_capacity run) = None \<and> cap_unfilled_wakes (run_capacity run) = 0 \<and>
         \<not> pending_wake run ''capacity:''
      then run
      else ack_router_wakes ''capacity:''
             (upd_capacity (\<lambda>c. c\<lparr>cap_unfilled_wakes := 0, cap_unfilled_since := None\<rparr>) run))"

section \<open>Dependencies\<close>

text \<open>
  \<open>dependencies_ready\<close> of \<open>planner_workflow.rs\<close>: integrated dependencies first, then the
  accepted source revisions, each list in its order.
\<close>

definition dependency_integrated :: "planner_run \<Rightarrow> string \<Rightarrow> bool" where
  "dependency_integrated run i =
     is_some_and (bt_get (run_works run) i) (\<lambda>w. work_status w = Integrated)"

definition source_ready :: "planner_run \<Rightarrow> string \<Rightarrow> string \<Rightarrow> bool" where
  "source_ready run i revision =
     is_some_and (bt_get (run_works run) i) (\<lambda>w.
       (work_status w = Accepted \<or> work_status w = Finished \<or> work_status w = Integrated) \<and>
       is_some_and (work_review w) (\<lambda>r. rev_accepted r \<and> rev_revision r = revision) \<and>
       is_some_and (work_artifact w) (\<lambda>a. art_revision a = revision) \<and>
       attempt_done w)"

definition dependencies_ready :: "planner_run \<Rightarrow> work \<Rightarrow> (planner_error, unit) result" where
  "dependencies_ready run w =
     (case List.find (\<lambda>i. \<not> dependency_integrated run i) (spec_dependencies (work_spec w)) of
        Some i \<Rightarrow> Inl (DispatchErr (ErrDependencyNotIntegrated i))
      | None \<Rightarrow>
          (case List.find (\<lambda>(i, revision). \<not> source_ready run i revision)
                  (spec_ready_dependencies (work_spec w)) of
             Some (i, revision) \<Rightarrow> Inl (DispatchErr (ErrSourceNotReady i revision))
           | None \<Rightarrow> Inr ()))"

lemma dependencies_ready_iff:
  "dependencies_ready run w = Inr u \<longleftrightarrow>
     (\<forall>i \<in> set (spec_dependencies (work_spec w)). dependency_integrated run i) \<and>
     (\<forall>(i, revision) \<in> set (spec_ready_dependencies (work_spec w)). source_ready run i revision)"
  by (auto simp: dependencies_ready_def find_None_iff split: option.splits dest!: find_Some_mem)

section \<open>Filling free slots\<close>

definition awaiting_reconciliation :: "planner_run \<Rightarrow> string list" where
  "awaiting_reconciliation run =
     map fst (filter (\<lambda>(_, w). rc_required (work_reconciliation w) \<and>
       (work_status w = Admitted \<or> work_status w = Interrupted \<or> work_status w = Corrections \<or>
        work_status w = Accepted) \<and> attempt_done w) (run_works run))"

text \<open>
  One pass of \<open>fill_slots\<close>. \<open>FillNone\<close> is the \<open>false\<close> return; \<open>FillWake\<close> recorded a
  capacity wake; \<open>FillAdmit\<close> hands the unheld candidates to \<open>auto_admit\<close>.
\<close>

datatype fill_outcome = FillNone | FillWake | FillAdmit "candidate_work list"

definition fill_snapshot ::
  "planner_env \<Rightarrow> capacity_config \<Rightarrow> int \<Rightarrow> planner_run \<Rightarrow> planner_run option" where
  "fill_snapshot env timing now run =
     (let now_ms = now * 1000;
          query_ms = max 5 (min 30 (int (tm_wake_after_secs timing))) * 1000 in
      if is_some_and (cap_host (run_capacity run)) (\<lambda>h. now_ms - hs_at_ms h < query_ms) then Some run
      else case query_host env run now_ms of
        None \<Rightarrow> None
      | Some snapshot \<Rightarrow> Some (upd_capacity (\<lambda>c. c\<lparr>cap_host := Some snapshot\<rparr>) run))"

definition idle_admission :: "capacity_config \<Rightarrow> int \<Rightarrow> bool \<Rightarrow> planner_run \<Rightarrow> bool" where
  "idle_admission timing idle parent_idle run \<longleftrightarrow>
     parent_idle \<and> \<not> pending_wake run ''capacity:'' \<and>
     (tm_auto_admit_after_wakes timing \<le> cap_unfilled_wakes (run_capacity run) \<or>
      int (tm_auto_admit_after_secs timing) \<le> idle)"

definition busy_admission :: "capacity_config \<Rightarrow> int \<Rightarrow> bool \<Rightarrow> planner_run \<Rightarrow> bool" where
  "busy_admission timing now parent_idle run \<longleftrightarrow>
     \<not> parent_idle \<and> 0 < cap_last_wake_at (run_capacity run) \<and>
     (if pending_wake run ''capacity:''
      then int (tm_auto_admit_after_secs timing) \<le> now - cap_last_wake_at (run_capacity run)
      else tm_auto_admit_after_wakes timing \<le> cap_unfilled_wakes (run_capacity run))"

definition record_capacity_wake ::
  "string \<Rightarrow> string \<Rightarrow> string \<Rightarrow> bool \<Rightarrow> int \<Rightarrow> planner_run \<Rightarrow> planner_run" where
  "record_capacity_wake sid uuid reason counted now run =
     (if pending_wake run ''capacity:'' then run
      else put_wake (''capacity:'' @ uuid) (new_wake sid reason)
        (upd_capacity (\<lambda>c. c\<lparr>cap_unfilled_wakes := cap_unfilled_wakes c + (if counted then 1 else 0),
           cap_last_wake_at := now\<rparr>) run))"

definition fill_slots ::
  "planner_env \<Rightarrow> capacity_config \<Rightarrow> string \<Rightarrow> string \<Rightarrow> string \<Rightarrow> int \<Rightarrow> int \<Rightarrow> bool \<Rightarrow> bool \<Rightarrow>
   planner_run \<Rightarrow> fill_outcome \<times> planner_run" where
  "fill_slots env timing sid uuid reason now last_at parent_idle pinned run0 =
     (if \<not> host_configured env then (FillNone, run0)
      else let (live, max_slots, free) = slots env run0 in
      if free = 0 then (FillNone, reset_unfilled run0)
      else case fill_snapshot env timing now run0 of
        None \<Rightarrow> (FillNone, run0)
      | Some run1 \<Rightarrow>
          (let ok = is_some_and (cap_host (run_capacity run1)) hs_ok;
               unheld = unheld_candidates run1 (now * 1000);
               awaiting = awaiting_reconciliation run1 in
           if ok \<and> unheld = [] \<and> awaiting = [] then (FillNone, reset_unfilled run1)
           else let run2 = (if cap_unfilled_since (run_capacity run1) = None
                            then upd_capacity (\<lambda>c. c\<lparr>cap_unfilled_since :=
                              Some (if parent_idle then last_at else now)\<rparr>) run1
                            else run1);
                    idle = now - last_at in
           if ok \<and> pinned \<and> unheld \<noteq> [] \<and>
              (idle_admission timing idle parent_idle run2 \<or> busy_admission timing now parent_idle run2)
           then (FillAdmit unheld, run2)
           else let since = max (unwrap_or (cap_unfilled_since (run_capacity run2)) now)
                              (cap_last_wake_at (run_capacity run2)) in
           if now - since < int (tm_wake_after_secs timing) \<or> pending_wake run2 ''capacity:''
           then (FillNone, run2)
           else (FillWake, record_capacity_wake sid uuid reason ok now run2)))"


section \<open>Automatic admission\<close>

text \<open>
  \<open>auto_admit\<close> over its two effects: \<open>admit\<close> is the planner's own admit operation under
  the key it is given, \<open>start\<close> is \<open>start_planner_worker\<close>. Both return the error text.
\<close>

definition auto_hold :: "string \<Rightarrow> string \<Rightarrow> string \<Rightarrow> int \<Rightarrow> planner_run \<Rightarrow> planner_run" where
  "auto_hold plan_id reason detail now run =
     upd_capacity (\<lambda>c. c\<lparr>cap_holds := bt_insert plan_id
       \<lparr>hold_plan_id = plan_id, hold_reason = reason, hold_detail = detail,
        hold_expires_at_ms = now * 1000 + HOLD_MS\<rparr> (cap_holds c)\<rparr>) run"

fun auto_admit_loop ::
  "(string \<Rightarrow> work_spec \<Rightarrow> planner_run \<Rightarrow> (string, planner_run) result) \<Rightarrow>
   (string \<Rightarrow> string \<Rightarrow> planner_run \<Rightarrow> (string, planner_run) result) \<Rightarrow> string \<Rightarrow> int \<Rightarrow>
   candidate_work list \<Rightarrow> planner_run \<Rightarrow> string list \<Rightarrow> string list \<Rightarrow>
   planner_run \<times> string list \<times> string list" where
  "auto_admit_loop admit start round_no now [] run admitted held = (run, admitted, held)"
| "auto_admit_loop admit start round_no now (c # cs) run admitted held =
     (let work_id = spec_work_id (cand_work c) in
      case (if bt_has (run_works run) work_id then Inr run
            else admit (''auto-admit:'' @ work_id @ '':'' @ round_no) (cand_work c) run) of
        Inl e \<Rightarrow>
          auto_admit_loop admit start round_no now cs run admitted
            (held @ [work_id @ '' (admission refused: '' @ e @ '')''])
      | Inr run1 \<Rightarrow>
          (case start work_id (cand_task c) run1 of
             Inr run2 \<Rightarrow> auto_admit_loop admit start round_no now cs run2 (admitted @ [work_id]) held
           | Inl e \<Rightarrow>
               (let reason = (if contains_str e ''dependencies'' then ''dependency'' else ''disk-floor'');
                    detail = ''router auto-admission of '' @ work_id @ '' refused: '' @ e in
                auto_admit_loop admit start round_no now cs
                  (auto_hold (spec_plan_id (cand_work c)) reason detail now run1) admitted
                  (held @ [work_id @ '' ('' @ reason @ '': '' @ e @ '')'']))))"

definition auto_admit ::
  "(string \<Rightarrow> work_spec \<Rightarrow> planner_run \<Rightarrow> (string, planner_run) result) \<Rightarrow>
   (string \<Rightarrow> string \<Rightarrow> planner_run \<Rightarrow> (string, planner_run) result) \<Rightarrow> (nat \<Rightarrow> string) \<Rightarrow>
   (string list \<Rightarrow> string list \<Rightarrow> string) \<Rightarrow> string \<Rightarrow> candidate_work list \<Rightarrow> nat \<Rightarrow> nat \<Rightarrow> int \<Rightarrow>
   planner_run \<Rightarrow> planner_run" where
  "auto_admit admit start show_nat prose sid unheld live max_slots now run =
     (let free = max_slots - live;
          round_no = cap_auto_admit_runs (run_capacity run) + 1;
          (run1, admitted, held) =
            auto_admit_loop admit start (show_nat round_no) now (take free unheld) run [] [];
          record = \<lparr>aa_at_ms = now * 1000, aa_run = round_no, aa_free = free, aa_admitted = admitted,
                    aa_held = held\<rparr> in
      put_wake (''auto-admit:'' @ show_nat round_no) (new_wake sid (prose admitted held))
        (ack_router_wakes ''capacity:''
          (upd_capacity (\<lambda>c. c\<lparr>cap_auto_admit_runs := round_no, cap_last_auto_admission := Some record,
             cap_unfilled_wakes := 0, cap_last_wake_at := now\<rparr>) run1)))"

section \<open>Resuming workers that stopped early\<close>

definition recovery_prerequisite :: "planner_env \<Rightarrow> planner_run \<Rightarrow> work \<Rightarrow> planner_error option" where
  "recovery_prerequisite env run w =
     (if rc_required (work_reconciliation w) then Some (DispatchErr ErrReconciliationRequired)
      else case work_workspace w of
        None \<Rightarrow> None
      | Some ws \<Rightarrow>
          (case workspace_available env ws of
             Inl e \<Rightarrow> Some e
           | Inr _ \<Rightarrow> (case dependencies_ready run w of Inl e \<Rightarrow> Some e | Inr _ \<Rightarrow> None)))"

definition failure_fingerprint :: "planner_env \<Rightarrow> work \<Rightarrow> planner_error option \<Rightarrow> string" where
  "failure_fingerprint env w prerequisite =
     env_content_hash env (env_failure_json env (work_reason w) prerequisite (work_artifact w)
       (map_option (\<lambda>ws. (ws_path ws, ws_lease ws)) (work_workspace w)) (work_review w))"

definition stopped_early :: "work \<Rightarrow> bool" where
  "stopped_early w \<longleftrightarrow>
     is_some_and (work_attempt w) att_ended \<and> work_status w = Interrupted \<and> \<not> work_paused w \<and>
     work_finish w = None \<and> work_workspace w \<noteq> None \<and>
     is_none_or (work_handoff w) (\<lambda>h. \<not> List.member PARENT_HANDOFFS (ho_kind h))"

definition waiting_on_build :: "planner_run \<Rightarrow> work \<Rightarrow> int \<Rightarrow> bool" where
  "waiting_on_build run w now =
     (let i = ''ci:'' @ spec_work_id (work_spec w) in
      is_some_and (cap_audit (run_capacity run)) (\<lambda>a.
        au_ok a \<and> i \<in> au_observed a \<and> au_at_ms a \<le> now * 1000 \<and>
        now * 1000 - au_at_ms a < 120000) \<and>
      is_some_and (bt_get (run_observations run) i) (\<lambda>obs.
        obs_state obs = Pending \<and>
        is_some_and (work_handoff w) (\<lambda>h. ho_kind h = ''waiting'' \<and>
          List.member (split_whitespace (ho_message h)) (i @ ''@'' @ obs_revision obs))))"

definition backoff_step :: "nat \<Rightarrow> int" where
  "backoff_step count = RESUME_BACKOFF_SECS ! min count (length RESUME_BACKOFF_SECS - 1)"

text \<open>Recording one observation of a stopped worker (the first \<open>mutate\<close> of the loop body).\<close>

definition observe_stop ::
  "planner_env \<Rightarrow> string \<Rightarrow> string \<Rightarrow> string \<Rightarrow> nat \<Rightarrow> string option \<Rightarrow> string \<Rightarrow> int \<Rightarrow> planner_run \<Rightarrow>
   planner_run option" where
  "observe_stop env i attempt_id fingerprint count suspended prose now run =
     (case bt_get (run_works run) i of
        None \<Rightarrow> None
      | Some w \<Rightarrow>
          if \<not> stopped_early w \<or> map_option att_id (work_attempt w) \<noteq> Some attempt_id \<or>
             failure_fingerprint env w (recovery_prerequisite env run w) \<noteq> fingerprint
          then None
          else let state = unwrap_or (bt_get (cap_resumes (run_capacity run)) i) resume_default;
                   state1 = state\<lparr>rs_failure_fingerprint := Some fingerprint,
                     rs_same_failure_count := count, rs_suspended := suspended,
                     rs_due_at := (if suspended = None then Some (now + backoff_step (rs_count state))
                                   else None)\<rparr>;
                   run1 = upd_capacity (\<lambda>c. c\<lparr>cap_resumes := bt_insert i state1 (cap_resumes c)\<rparr>) run in
               Some (if suspended \<noteq> None then put_wake (''recovery:'' @ i) (new_wake i prose) run1
                     else run1\<lparr>run_wakes := bt_modify (''recovery:'' @ i)
                            (\<lambda>wk. wk\<lparr>wake_acknowledged := True\<rparr>) (run_wakes run1)\<rparr>))"

text \<open>Claiming a due resumption (the second \<open>mutate\<close>).\<close>

definition claim_resume ::
  "planner_env \<Rightarrow> string \<Rightarrow> string \<Rightarrow> string \<Rightarrow> (string \<times> nat) option \<Rightarrow> int \<Rightarrow> planner_run \<Rightarrow>
   planner_run option" where
  "claim_resume env i attempt_id fingerprint followup now run =
     (case bt_get (run_works run) i of
        None \<Rightarrow> None
      | Some w \<Rightarrow>
          if run_status run \<noteq> RunRunning \<or> run_phase run \<noteq> Implementation \<or> \<not> stopped_early w \<or>
             map_option att_id (work_attempt w) \<noteq> Some attempt_id \<or>
             failure_fingerprint env w (recovery_prerequisite env run w) \<noteq> fingerprint
          then None
          else (case bt_get (cap_resumes (run_capacity run)) i of
             None \<Rightarrow> None
           | Some state \<Rightarrow>
               if rs_suspended state \<noteq> None \<or> is_none_or (rs_due_at state) (\<lambda>t. t > now) then None
               else Some (upd_capacity (\<lambda>c. c\<lparr>cap_resumes := bt_insert i
                      (state\<lparr>rs_count := rs_count state + 1, rs_due_at := None,
                         rs_followup := followup\<rparr>) (cap_resumes c)\<rparr>) run)))"


text \<open>
  One iteration of the loop over the works of the snapshot \<open>run\<close>: \<open>current\<close> is the stored
  document, \<open>live\<close> the worker count. \<open>describe\<close> renders a prerequisite, \<open>repeated\<close> the
  unchanged-failure text and \<open>prose\<close> the recovery wake; \<open>delegates\<close> is the table of open
  sub-sessions with their turn counts. The third result names the resumed worker and the
  sub-session it follows up on (\<open>resume_planner_worker\<close>), or none (\<open>start_planner_worker\<close>).
\<close>

record resume_texts =
  tx_describe :: "planner_error \<Rightarrow> string"
  tx_repeated :: "nat \<Rightarrow> string"
  tx_recovery :: "string \<Rightarrow> string"

definition resume_prune :: "string \<Rightarrow> planner_run \<Rightarrow> planner_run" where
  "resume_prune i run =
     (if is_some_and (bt_get (run_works run) i)
           (\<lambda>w. work_status w = Finished \<or> work_status w = Integrated)
      then upd_capacity (\<lambda>c. c\<lparr>cap_resumes := bt_remove i (cap_resumes c)\<rparr>) run else run)"

definition resume_suspension ::
  "resume_texts \<Rightarrow> planner_error option \<Rightarrow> nat \<Rightarrow> string option" where
  "resume_suspension tx prerequisite count =
     opt_or (map_option (tx_describe tx) prerequisite)
       (if SAME_FAILURE_LIMIT \<le> count then Some (tx_repeated tx count) else None)"

definition resume_followup ::
  "(string \<rightharpoonup> nat) \<Rightarrow> attempt \<Rightarrow> resume option \<Rightarrow> (string \<times> nat) option" where
  "resume_followup delegates a state =
     (let open_session = Option.bind (att_delegate_id a)
            (\<lambda>d. map_option (\<lambda>turns. (d, turns)) (delegates d));
          prior = Option.bind state rs_followup in
      opt_filter (\<lambda>(d, turns). is_none_or prior (\<lambda>(was, at_turns). was \<noteq> d \<or> at_turns < turns))
        open_session)"

definition resume_worker ::
  "planner_env \<Rightarrow> resume_texts \<Rightarrow> (string \<rightharpoonup> nat) \<Rightarrow> bool \<Rightarrow> nat \<Rightarrow> int \<Rightarrow> planner_run \<Rightarrow>
   string \<times> work \<Rightarrow> nat \<times> planner_run \<times> (string \<times> (string \<times> nat) option) list \<Rightarrow>
   nat \<times> planner_run \<times> (string \<times> (string \<times> nat) option) list" where
  "resume_worker env tx delegates pinned max_slots now run = (\<lambda>(i, w) (live, current, resumed).
     case work_attempt w of
       None \<Rightarrow> (live, current, resumed)
     | Some a \<Rightarrow>
         if held_by_human run (work_spec w) then (live, current, resumed)
         else let state = bt_get (cap_resumes (run_capacity run)) i in
         if \<not> stopped_early w then
           (if state \<noteq> None \<and> (work_status w = Finished \<or> work_status w = Integrated)
            then (live, resume_prune i current, resumed) else (live, current, resumed))
         else let prerequisite = recovery_prerequisite env run w in
         if prerequisite = None \<and> waiting_on_build run w now then (live, current, resumed)
         else let fingerprint = failure_fingerprint env w prerequisite;
                  changed = is_none_or state (\<lambda>s. rs_failure_fingerprint s \<noteq> Some fingerprint) in
         if changed \<or> is_some_and state (\<lambda>s. rs_due_at s = None \<and> rs_suspended s = None) then
           (let count = (if changed then 1
                         else case state of None \<Rightarrow> 1 | Some s \<Rightarrow> rs_same_failure_count s + 1);
                suspended = resume_suspension tx prerequisite count;
                prose = tx_recovery tx (unwrap_or suspended []) in
            (live, unwrap_or (observe_stop env i (att_id a) fingerprint count suspended prose now
               current) current, resumed))
         else if is_none_or state (\<lambda>s. rs_suspended s \<noteq> None \<or> is_none_or (rs_due_at s) (\<lambda>t. t > now)) \<or>
                 \<not> pinned \<or> max_slots \<le> live
         then (live, current, resumed)
         else let followup = resume_followup delegates a state in
           (case claim_resume env i (att_id a) fingerprint followup now current of
              None \<Rightarrow> (live, current, resumed)
            | Some current1 \<Rightarrow> (live + 1, current1, resumed @ [(i, followup)])))"

definition resume_workers ::
  "planner_env \<Rightarrow> resume_texts \<Rightarrow> (string \<rightharpoonup> nat) \<Rightarrow> bool \<Rightarrow> int \<Rightarrow> planner_run \<Rightarrow>
   nat \<times> planner_run \<times> (string \<times> (string \<times> nat) option) list" where
  "resume_workers env tx delegates pinned now run =
     (let (live, max_slots, _) = slots env run in
      fold (resume_worker env tx delegates pinned max_slots now run) (run_works run) (live, run, []))"

section \<open>In-flight wakes and observations\<close>

definition release_stage :: "release \<Rightarrow> stage" where
  "release_stage r = (if rel_checkpoints r = [] then Selected else cp_stage (last (rel_checkpoints r)))"

definition release_active :: "release \<Rightarrow> bool" where
  "release_active r \<longleftrightarrow>
     rel_superseded_by r = None \<and>
     \<not> (release_stage r = Disposed \<or> release_stage r = Abandoned)"

definition inflight :: "capacity_config \<Rightarrow> int \<Rightarrow> int \<Rightarrow> planner_run \<Rightarrow> string list option" where
  "inflight timing now idle run =
     (let ids = map fst (filter (\<lambda>(_, w).
                  (spec_plan_id (work_spec w) = ''release'' \<and> \<not> terminal (work_status w)) \<or>
                  work_status w = Running) (run_works run))
                @ map fst (filter (\<lambda>(_, r). release_active r) (run_releases run)) in
      if ids \<noteq> [] \<and> int (tm_wake_after_secs timing) \<le> idle \<and>
         int (tm_inflight_wake_secs timing) \<le> now - cap_last_inflight_wake_at (run_capacity run) \<and>
         \<not> bt_any (\<lambda>_ wk. \<not> wake_acknowledged wk) (run_wakes run)
      then Some ids else None)"

definition inflight_wake ::
  "capacity_config \<Rightarrow> string \<Rightarrow> string \<Rightarrow> (string list \<Rightarrow> string) \<Rightarrow> int \<Rightarrow> int \<Rightarrow> planner_run \<Rightarrow>
   planner_run" where
  "inflight_wake timing sid uuid prose now idle run =
     (case inflight timing now idle run of
        None \<Rightarrow> run
      | Some ids \<Rightarrow>
          put_wake (''inflight:'' @ uuid) (new_wake sid (prose ids))
            (upd_capacity (\<lambda>c. c\<lparr>cap_last_inflight_wake_at := now\<rparr>) run))"

definition wake_retry_secs :: "nat \<Rightarrow> int" where
  "wake_retry_secs deliveries = [30, 120, 300] ! min (deliveries - 1) 2"

definition record_observation ::
  "string \<Rightarrow> (string \<Rightarrow> observation \<Rightarrow> string) \<Rightarrow> string \<times> observation \<Rightarrow> planner_run \<Rightarrow> planner_run" where
  "record_observation sid prose = (\<lambda>(i, obs) run.
     if bt_get (run_observations run) i = Some obs then run
     else let run1 = run\<lparr>run_observations := bt_insert i obs (run_observations run)\<rparr> in
       if obs_state obs \<noteq> Pending
       then put_wake (''observation:'' @ i) (new_wake sid (prose i obs)) run1
       else run1\<lparr>run_wakes := bt_modify (''observation:'' @ i)
              (\<lambda>w. w\<lparr>wake_acknowledged := True\<rparr>) (run_wakes run1)\<rparr>)"

definition record_observations ::
  "string \<Rightarrow> (string \<Rightarrow> observation \<Rightarrow> string) \<Rightarrow> (string, observation) btree \<Rightarrow> planner_run \<Rightarrow>
   planner_run" where
  "record_observations sid prose obs run = fold (record_observation sid prose) obs run"

section \<open>Correctness of holds\<close>

lemma hold_for_None_iff:
  "hold_for run c now_ms = None \<longleftrightarrow>
     (\<forall>h. bt_get (cap_holds (run_capacity run)) (spec_plan_id (cand_work c)) = Some h \<longrightarrow>
        hold_expires_at_ms h \<le> now_ms) \<and>
     (\<forall>h. bt_get (cap_holds (run_capacity run)) (spec_work_id (cand_work c)) = Some h \<longrightarrow>
        hold_expires_at_ms h \<le> now_ms)"
  by (auto simp: hold_for_def find_None_iff List.map_filter_def split: option.splits)

lemma check_hold_reason:
  "check_hold run plan_id reason detail = Inr u \<Longrightarrow> List.member HOLD_REASONS reason \<and> \<not> blank plan_id"
  by (auto simp: check_hold_def HOLD_REASONS_def Let_def split: if_splits)

lemma record_hold_Inr_iff:
  "record_hold run plan_id reason detail now_ms = Inr run' \<longleftrightarrow>
     check_hold run plan_id reason detail = Inr () \<and>
     run' = upd_capacity (\<lambda>c. c\<lparr>cap_holds :=
         bt_insert plan_id
           \<lparr>hold_plan_id = plan_id, hold_reason = reason, hold_detail = trim detail,
            hold_expires_at_ms = (if reason = AWAITING_HUMAN then i64_max else now_ms + HOLD_MS)\<rparr>
           (bt_retain (\<lambda>_ h. hold_expires_at_ms h > now_ms) (cap_holds c))\<rparr>) run"
  by (auto simp: record_hold_def Let_def)

lemma open_work_upd_capacity [simp]: "open_work (upd_capacity f run) i = open_work run i"
  by (simp add: open_work_def)

text \<open>
  A candidate stays out of a free slot exactly when the host's last answer is not
  usable, its work no longer needs a slot, or an unexpired hold is filed under its plan or
  its work id.
\<close>

lemma unheld_candidates_exact:
  "c \<in> set (unheld_candidates run now_ms) \<longleftrightarrow>
     (\<exists>host. cap_host (run_capacity run) = Some host \<and> hs_ok host \<and> c \<in> set (hs_candidates host)) \<and>
     open_work run (spec_work_id (cand_work c)) \<and>
     \<not> (\<exists>i h. i \<in> {spec_plan_id (cand_work c), spec_work_id (cand_work c)} \<and>
          bt_get (cap_holds (run_capacity run)) i = Some h \<and> now_ms < hold_expires_at_ms h)"
  by (cases "cap_host (run_capacity run)")
    (auto simp: unheld_candidates_def hold_for_None_iff not_less split: option.splits if_splits)

text \<open>
  A recorded hold carries one of the allowed reasons, covers its candidate from the
  moment it is recorded until exactly thirty minutes later (for ever, up to the largest
  timestamp, when it waits for the human) and no longer, and never revives a hold that had
  already expired.
\<close>

lemma record_hold_window:
  assumes "record_hold run plan_id reason detail now_ms = Inr run'"
    and "bt_wf (cap_holds (run_capacity run))"
    and "expires = (if reason = AWAITING_HUMAN then 9223372036854775807 else now_ms + 1800000)"
  shows "List.member HOLD_REASONS reason \<and>
    (\<forall>c t. (spec_plan_id (cand_work c) = plan_id \<or> spec_work_id (cand_work c) = plan_id) \<and>
       t < expires \<longrightarrow> c \<notin> set (unheld_candidates run' t)) \<and>
    (\<forall>h. bt_get (cap_holds (run_capacity run')) plan_id = Some h \<longrightarrow>
       hold_expires_at_ms h = expires) \<and>
    (\<forall>k. k \<noteq> plan_id \<longrightarrow> bt_get (cap_holds (run_capacity run')) k =
       opt_filter (\<lambda>h. now_ms < hold_expires_at_ms h) (bt_get (cap_holds (run_capacity run)) k))"
proof (intro conjI allI impI)
  have ex: "(if reason = AWAITING_HUMAN then i64_max else now_ms + HOLD_MS) = expires"
    by (simp add: assms(3) i64_max_def HOLD_MS_def)
  note r = assms(1) [unfolded record_hold_Inr_iff ex]
  show "List.member HOLD_REASONS reason" using r check_hold_reason by blast
  show "c \<notin> set (unheld_candidates run' t)"
    if c: "(spec_plan_id (cand_work c) = plan_id \<or> spec_work_id (cand_work c) = plan_id) \<and>
       t < expires" for c t
  proof -
    have "hold_for run' c t \<noteq> None" using c r by (auto simp: hold_for_None_iff)
    then show ?thesis by (auto simp: unheld_candidates_def split: option.splits)
  qed
  show "hold_expires_at_ms h = expires"
    if "bt_get (cap_holds (run_capacity run')) plan_id = Some h" for h
    using that r by auto
  show "bt_get (cap_holds (run_capacity run')) k =
         opt_filter (\<lambda>h. now_ms < hold_expires_at_ms h) (bt_get (cap_holds (run_capacity run)) k)"
    if "k \<noteq> plan_id" for k
    using that r assms(2) by (auto simp: bt_get_retain split: option.splits)
qed

lemma human_hold_iff:
  "bt_wf (cap_holds (run_capacity run)) \<Longrightarrow> human_hold run \<noteq> None \<longleftrightarrow>
     (\<exists>k h. bt_get (cap_holds (run_capacity run)) k = Some h \<and> hold_reason h = AWAITING_HUMAN)"
  by (force simp: human_hold_def find_None_iff bt_get_mem)

lemma holds_clear_human_hold:
  "bt_wf (cap_holds (run_capacity run)) \<Longrightarrow>
   bt_get (cap_holds (run_capacity (clear_human_hold run))) k =
     opt_filter (\<lambda>h. hold_reason h \<noteq> AWAITING_HUMAN) (bt_get (cap_holds (run_capacity run)) k)"
  by (auto simp: clear_human_hold_def bt_get_retain split: option.splits)

text \<open>
  The run-wide hold for a human who withheld authorization survives every other hold
  recorded before the end of time, and the human's next message lifts it and keeps every
  other hold.
\<close>

lemma human_hold_until_message:
  assumes "bt_wf (cap_holds (run_capacity run))"
    and "record_hold run p AWAITING_HUMAN detail now_ms = Inr run1"
    and "record_hold run1 q reason detail2 later_ms = Inr run2"
    and "q \<noteq> p" and "later_ms < i64_max"
  shows "human_hold run2 \<noteq> None \<and> human_hold (clear_human_hold run2) = None \<and>
    (\<forall>k. bt_get (cap_holds (run_capacity (clear_human_hold run2))) k =
       opt_filter (\<lambda>h. hold_reason h \<noteq> AWAITING_HUMAN) (bt_get (cap_holds (run_capacity run2)) k))"
proof -
  note r1 = assms(2) [unfolded record_hold_Inr_iff] and r2 = assms(3) [unfolded record_hold_Inr_iff]
  have wf1: "bt_wf (cap_holds (run_capacity run1))" using r1 assms(1) by simp
  have wf2: "bt_wf (cap_holds (run_capacity run2))" using r2 wf1 by simp
  have "\<exists>h. bt_get (cap_holds (run_capacity run2)) p = Some h \<and> hold_reason h = AWAITING_HUMAN"
    using r1 r2 wf1 assms(4,5) by (auto simp: bt_get_retain)
  then have "human_hold run2 \<noteq> None" using human_hold_iff [OF wf2] by blast
  moreover have wf3: "bt_wf (cap_holds (run_capacity (clear_human_hold run2)))"
    using wf2 by (simp add: clear_human_hold_def)
  have "human_hold (clear_human_hold run2) = None"
    using human_hold_iff [OF wf3] holds_clear_human_hold [OF wf2]
    by (auto simp: opt_filter_Some_iff)
  ultimately show ?thesis using holds_clear_human_hold [OF wf2] by blast
qed

section \<open>Correctness of completion and admission\<close>

text \<open>
  With a capacity host configured, completion is allowed only on a successful answer of
  the host, and then every candidate it lists is either no longer in need of a slot or
  covered by an unexpired hold; an unavailable host never reads as ``no work''.
\<close>

lemma completion_allowed_covers:
  assumes "completion_allowed env run = Inr ()" and "env_capacity_host env = Some host"
  shows "\<exists>cs described. host run = Inr (Some 0, Some cs, described) \<and>
    (\<forall>c \<in> set cs. \<not> open_work run (spec_work_id (cand_work c)) \<or>
       (\<exists>i h. i \<in> {spec_plan_id (cand_work c), spec_work_id (cand_work c)} \<and>
          bt_get (cap_holds (run_capacity run)) i = Some h \<and> env_now_ms env < hold_expires_at_ms h))"
proof -
  obtain cs described where h: "host run = Inr (Some 0, Some cs, described)" "env_cwd env \<noteq> None"
    using assms
    by (auto simp: completion_allowed_def query_host_def run_capacity_host_def Let_def
        split: option.splits sum.splits if_splits)
  then have "\<forall>c \<in> set cs. \<not> (open_work run (spec_work_id (cand_work c)) \<and>
      hold_for run c (env_now_ms env) = None)"
    using assms
    by (auto simp: completion_allowed_def query_host_def run_capacity_host_def Let_def
        unheld_candidates_def hold_for_def filter_empty_conv split: if_splits)
  with h show ?thesis by (fastforce simp: hold_for_None_iff not_le)
qed

definition sample_candidate :: "string \<Rightarrow> candidate_work" where
  "sample_candidate i = \<lparr>cand_work = sample_spec i, cand_task = ''task''\<rparr>"

definition sample_capacity_env :: "candidate_work list \<Rightarrow> planner_env" where
  "sample_capacity_env cs =
     sample_env\<lparr>env_capacity_host := Some (\<lambda>_. Inr (Some 0, Some cs, ''exit 0''))\<rparr>"

lemma auto_admit_loop_accounts:
  "auto_admit_loop admit start r now cs run adm held = (run', adm', held') \<Longrightarrow>
     length adm' + length held' = length adm + length held + length cs \<and>
     set adm' \<subseteq> set adm \<union> (\<lambda>c. spec_work_id (cand_work c)) ` set cs"
  by (induction admit start r now cs run adm held arbitrary: run' adm' held'
      rule: auto_admit_loop.induct)
    (fastforce simp: Let_def split: sum.splits if_splits)+

lemma pending_wake_put [simp]:
  "pending_wake (put_wake i w run) prefix \<longleftrightarrow>
     (starts_with i prefix \<and> \<not> wake_acknowledged w) \<or>
     bt_any (\<lambda>k v. k \<noteq> i \<and> starts_with k prefix \<and> \<not> wake_acknowledged v) (run_wakes run)"
  if "bt_wf (run_wakes run)"
  using that by (auto simp: pending_wake_def bt_any_iff split: if_splits)

lemma not_pending_ack: "\<not> pending_wake (ack_router_wakes prefix run) prefix"
  by (auto simp: pending_wake_def ack_router_wakes_def bt_any_def bt_map_def list_ex_iff
      split: if_splits)

lemma starts_with_same_length: "length p \<le> length s \<Longrightarrow> starts_with (s @ t) p = starts_with s p"
  by (induction s p rule: starts_with.induct) auto

text \<open>
  Automatic admission drops no candidate silently: of the first \<open>max - live\<close> unheld
  candidates each is started or recorded as held, no more than the free slots are used, and
  afterwards no capacity wake is pending.
\<close>

lemma auto_admit_accounts:
  assumes "\<And>k spec r r'. admit k spec r = Inr r' \<Longrightarrow> bt_wf (run_wakes r) \<Longrightarrow> bt_wf (run_wakes r')"
    and "\<And>i task r r'. start i task r = Inr r' \<Longrightarrow> bt_wf (run_wakes r) \<Longrightarrow> bt_wf (run_wakes r')"
    and "bt_wf (run_wakes run)"
  shows "\<exists>record. cap_last_auto_admission (run_capacity
           (auto_admit admit start show_nat prose sid unheld live max_slots now run)) = Some record \<and>
     length (aa_admitted record) + length (aa_held record) = min (max_slots - live) (length unheld) \<and>
     set (aa_admitted record) \<subseteq>
       (\<lambda>c. spec_work_id (cand_work c)) ` set (take (max_slots - live) unheld) \<and>
     \<not> pending_wake (auto_admit admit start show_nat prose sid unheld live max_slots now run) ''capacity:''"
proof -
  have wf: "bt_wf (run_wakes run1)"
    if "auto_admit_loop admit start r now cs run0 adm held = (run1, adm1, held1)"
      "bt_wf (run_wakes run0)" for r cs run0 adm held run1 adm1 held1
    using that
  proof (induction cs arbitrary: run0 adm held)
    case (Cons c cs)
    then show ?case
      by (auto simp: Let_def auto_hold_def split: sum.splits if_splits
          dest!: assms(1,2) elim!: Cons.IH)
  qed simp
  obtain run1 adm held where l:
    "auto_admit_loop admit start (show_nat (cap_auto_admit_runs (run_capacity run) + 1)) now
       (take (max_slots - live) unheld) run [] [] = (run1, adm, held)"
    by (metis prod.exhaust)
  have ack: "\<not> bt_any (\<lambda>k v. k \<noteq> j \<and> starts_with k ''capacity:'' \<and> \<not> wake_acknowledged v)
      (run_wakes (ack_router_wakes ''capacity:'' r))" for j r
    using not_pending_ack [of "''capacity:''" r]
    by (auto simp: pending_wake_def bt_any_def list_ex_iff)
  have w: "bt_wf (run_wakes (ack_router_wakes ''capacity:'' (upd_capacity f run1)))" for f
    using wf [OF l assms(3)] by (simp add: ack_router_wakes_def)
  have c: "run_capacity (ack_router_wakes p r) = run_capacity r" for p r
    by (simp add: ack_router_wakes_def)
  show ?thesis
    using auto_admit_loop_accounts [OF l] ack w
    by (simp add: auto_admit_def Let_def l [simplified] c min.commute)
qed

section \<open>Correctness of resumption\<close>

text \<open>A worker whose failure repeated to the limit is suspended.\<close>

definition resumes_limited :: "planner_run \<Rightarrow> bool" where
  "resumes_limited run \<longleftrightarrow>
     (\<forall>i s. bt_get (cap_resumes (run_capacity run)) i = Some s \<longrightarrow>
        rs_suspended s = None \<longrightarrow> rs_same_failure_count s < SAME_FAILURE_LIMIT)"

lemma resume_suspension_None_iff:
  "resume_suspension tx p count = None \<longleftrightarrow> p = None \<and> count < SAME_FAILURE_LIMIT"
  by (cases p) (auto simp: resume_suspension_def)

lemma resumes_limited_prune: "resumes_limited run \<Longrightarrow> resumes_limited (resume_prune i run)"
  by (auto simp: resumes_limited_def resume_prune_def split: if_splits)

lemma resumes_limited_put:
  "resumes_limited run \<Longrightarrow> (rs_suspended s = None \<Longrightarrow> rs_same_failure_count s < SAME_FAILURE_LIMIT) \<Longrightarrow>
   cap_resumes (run_capacity run') = bt_insert i s (cap_resumes (run_capacity run)) \<Longrightarrow>
   resumes_limited run'"
  by (simp add: resumes_limited_def)

lemma resumes_limited_observe:
  assumes "resumes_limited run"
    and "observe_stop env i aid fp count (resume_suspension tx p count) prose now run = Some run'"
  shows "resumes_limited run'"
proof -
  have "\<exists>s. rs_same_failure_count s = count \<and> rs_suspended s = resume_suspension tx p count \<and>
      cap_resumes (run_capacity run') = bt_insert i s (cap_resumes (run_capacity run))"
    using assms(2)
    by (force simp: observe_stop_def Let_def split: option.splits if_splits)
  then obtain s where "rs_same_failure_count s = count" "rs_suspended s = resume_suspension tx p count"
    "cap_resumes (run_capacity run') = bt_insert i s (cap_resumes (run_capacity run))" by blast
  then show ?thesis
    using resumes_limited_put [OF assms(1)] resume_suspension_None_iff by metis
qed

lemma resumes_limited_claim:
  assumes "resumes_limited run" and "claim_resume env i aid fp f now run = Some run'"
  shows "resumes_limited run'"
proof -
  obtain s where "bt_get (cap_resumes (run_capacity run)) i = Some s"
    "cap_resumes (run_capacity run') = bt_insert i
       (s\<lparr>rs_count := rs_count s + 1, rs_due_at := None, rs_followup := f\<rparr>) (cap_resumes (run_capacity run))"
    using assms(2) by (auto simp: claim_resume_def split: option.splits if_splits)
  with assms(1) show ?thesis
    by (intro resumes_limited_put [OF assms(1)]) (auto simp: resumes_limited_def)
qed

text \<open>What holds of a worker the pass resumes, in the snapshot the pass started from.\<close>

definition resumable :: "planner_env \<Rightarrow> int \<Rightarrow> planner_run \<Rightarrow> string \<Rightarrow> bool" where
  "resumable env now run i \<longleftrightarrow>
     (\<exists>w s due. (i, w) \<in> set (run_works run) \<and> stopped_early w \<and> \<not> held_by_human run (work_spec w) \<and>
        bt_get (cap_resumes (run_capacity run)) i = Some s \<and> rs_suspended s = None \<and>
        rs_due_at s = Some due \<and> due \<le> now \<and>
        rs_failure_fingerprint s = Some (failure_fingerprint env w (recovery_prerequisite env run w)) \<and>
        \<not> (recovery_prerequisite env run w = None \<and> waiting_on_build run w now))"

definition resume_inv ::
  "planner_env \<Rightarrow> nat \<Rightarrow> int \<Rightarrow> planner_run \<Rightarrow> nat \<Rightarrow>
   nat \<times> planner_run \<times> (string \<times> (string \<times> nat) option) list \<Rightarrow> bool" where
  "resume_inv env max_slots now run live0 = (\<lambda>(live, current, resumed).
     live = live0 + length resumed \<and> (resumed \<noteq> [] \<longrightarrow> live \<le> max_slots) \<and>
     resumes_limited current \<and> (\<forall>(i, f) \<in> set resumed. resumable env now run i))"

lemma resume_worker_inv:
  assumes "resume_inv env max_slots now run live0 acc" and "iw \<in> set (run_works run)"
  shows "resume_inv env max_slots now run live0
    (resume_worker env tx delegates pinned max_slots now run iw acc)"
proof -
  obtain i w where iw: "iw = (i, w)" by (cases iw)
  obtain live current resumed where acc: "acc = (live, current, resumed)" by (cases acc)
  note inv = assms(1) [unfolded acc resume_inv_def prod.case]
  have stay: "resume_inv env max_slots now run live0 (live, cur, resumed)"
    if "resumes_limited cur" for cur
    using inv that by (auto simp: resume_inv_def)
  have prune: "resume_inv env max_slots now run live0 (live, resume_prune i current, resumed)"
    using stay resumes_limited_prune inv by blast
  have obs: "resume_inv env max_slots now run live0
      (live, unwrap_or (observe_stop env i aid fp count (resume_suspension tx p count) prose now
        current) current, resumed)" for aid fp count p prose
    by (rule stay, cases "observe_stop env i aid fp count (resume_suspension tx p count) prose now current")
      (use inv in \<open>auto dest: resumes_limited_observe\<close>)
  have claim: "resume_inv env max_slots now run live0 (live + 1, cur, resumed @ [(i, f)])"
    if "resumable env now run i" "live < max_slots" "claim_resume env i aid fp f now current = Some cur"
    for cur f aid fp
    using that inv resumes_limited_claim by (auto simp: resume_inv_def)
  show ?thesis
  proof (cases "work_attempt w")
    case None
    then show ?thesis using assms(1) by (simp add: resume_worker_def iw acc)
  next
    case (Some a)
    define st where "st = bt_get (cap_resumes (run_capacity run)) i"
    define pre where "pre = recovery_prerequisite env run w"
    define due where "due \<longleftrightarrow> stopped_early w \<and> \<not> held_by_human run (work_spec w) \<and>
      \<not> (pre = None \<and> waiting_on_build run w now) \<and>
      \<not> is_none_or st (\<lambda>s. rs_failure_fingerprint s \<noteq> Some (failure_fingerprint env w pre)) \<and>
      \<not> is_none_or st (\<lambda>s. rs_suspended s \<noteq> None \<or> is_none_or (rs_due_at s) (\<lambda>t. t > now)) \<and>
      live < max_slots"
    have r: "resumable env now run i" if due
      using that assms(2) unfolding due_def pre_def st_def resumable_def iw
      by (auto simp: is_none_or_iff)
    have step: "resume_inv env max_slots now run live0
        (case claim_resume env i aid fp f now current of None \<Rightarrow> (live, current, resumed)
         | Some cur \<Rightarrow> (live + 1, cur, resumed @ [(i, f)]))" if due for aid fp f
      using that r claim stay inv by (auto simp: due_def split: option.split)
    show ?thesis
      unfolding resume_worker_def iw acc prod.case Some option.case Let_def
        st_def [symmetric] pre_def [symmetric]
      using stay inv prune obs step by (simp add: due_def not_le)
  qed
qed

text \<open>
  One resumption pass never exceeds the delegate limit, and every worker it resumes had
  stopped early, is not held by the human, was due by its backoff under an unchanged
  failure, is not waiting for its own build, and had failed the same way fewer than three
  times; and a failure repeated to the limit stays suspended.
\<close>

lemma resume_workers_bounded:
  assumes "resume_workers env tx delegates pinned now run = (live, run', resumed)"
    and "resumes_limited run"
  shows "live = live_workers run + length resumed \<and>
    (resumed \<noteq> [] \<longrightarrow> live \<le> env_delegate_limit env) \<and> resumes_limited run' \<and>
    (\<forall>(i, f) \<in> set resumed. resumable env now run i \<and>
       (\<forall>s. bt_get (cap_resumes (run_capacity run)) i = Some s \<longrightarrow> rs_same_failure_count s < 3))"
proof -
  have fold: "resume_inv env m now run live0 (fold (resume_worker env tx delegates pinned m now run) ws acc)"
    if "resume_inv env m now run live0 acc" "set ws \<subseteq> set (run_works run)" for m live0 ws acc
    using that
  proof (induction ws arbitrary: acc)
    case (Cons iw ws)
    then show ?case using resume_worker_inv [of env m now run live0 acc iw] by simp
  qed simp
  have "resume_inv env (env_delegate_limit env) now run (live_workers run) (live_workers run, run, [])"
    using assms(2) by (simp add: resume_inv_def)
  from fold [OF this, of "run_works run"] assms(1)
  have inv: "resume_inv env (env_delegate_limit env) now run (live_workers run) (live, run', resumed)"
    by (simp add: resume_workers_def slots_def Let_def)
  have "rs_same_failure_count s < 3"
    if "resumable env now run i" "bt_get (cap_resumes (run_capacity run)) i = Some s" for i s
    using that assms(2) by (auto simp: resumable_def resumes_limited_def SAME_FAILURE_LIMIT_def)
  with inv show ?thesis by (auto simp: resume_inv_def)
qed

definition sample_stopped :: planner_run where
  "sample_stopped =
     (sample_run [(''w1'', (sample_work ''w1'')\<lparr>work_status := Interrupted,
        work_workspace := Some sample_workspace, work_attempt := Some (sample_attempt ''a1'' True)\<rparr>)])
     \<lparr>run_capacity := capacity_default\<lparr>cap_resumes := [(''w1'', resume_default\<lparr>rs_due_at := Some 10,
        rs_failure_fingerprint := Some ''failure'', rs_same_failure_count := 1\<rparr>)]\<rparr>\<rparr>"

definition sample_texts :: resume_texts where
  "sample_texts = \<lparr>tx_describe = (\<lambda>_. ''e''), tx_repeated = (\<lambda>_. ''r''), tx_recovery = (\<lambda>s. s)\<rparr>"

end
