(* ===== verification/Planner_Input.thy ===== *)
theory Planner_Input
  imports Planner_Capacity
begin

text \<open>
  Parent inputs (\<open>planner_workflow.rs\<close>, \<open>planner_input.rs\<close>, \<open>external_message.rs\<close>): who a
  prompt comes from, the leading \<open>/plan\<close> and \<open>/implement\<close> commands, recording an input once,
  queueing, delivery, acknowledgment, withdrawal, and messages of a local monitor. A fresh
  identity (\<open>Uuid::new_v4\<close>) is an argument.
\<close>

section \<open>Reading a prompt\<close>

definition router_meta :: "prompt_request \<Rightarrow> json option" where
  "router_meta req = Option.bind (req_meta req) (\<lambda>m. json_get m ''router_acp'')"

definition meta_str :: "json \<Rightarrow> string \<Rightarrow> string option" where
  "meta_str m k = Option.bind (json_get m k) as_str"

definition human_prompt :: "prompt_request \<Rightarrow> bool" where
  "human_prompt req \<longleftrightarrow>
     \<not> is_some_and (router_meta req) (\<lambda>m.
         json_get m ''planner_role'' \<noteq> None \<or>
         Option.bind (json_get m ''agent_origin'') as_bool = Some True \<or>
         is_some_and (meta_str m ''origin'') (\<lambda>s. s \<noteq> ''human'' \<and> s \<noteq> ''user''))"

definition delegated_approval :: "prompt_request \<Rightarrow> bool" where
  "delegated_approval req \<longleftrightarrow>
     Option.bind (router_meta req) (\<lambda>m. Option.bind (json_get m ''delegated_approval'')
       (\<lambda>a. meta_str a ''by'')) = Some ''coordinator''"

definition prompt_input_id :: "prompt_request \<Rightarrow> string option" where
  "prompt_input_id req =
     Option.bind (router_meta req) (\<lambda>m.
       Option.bind (opt_or (json_get m ''planner_input_id'') (json_get m ''input_id'')) as_str)"

fun text_of :: "content_block \<Rightarrow> string option" where
  "text_of (TextBlock t) = Some t"
| "text_of _ = None"

fun block_json :: "content_block \<Rightarrow> json option" where
  "block_json (TextBlock t) = None"
| "block_json (ImageBlock j) = Some j"
| "block_json (AudioBlock j) = Some j"
| "block_json (ResourceBlock j) = Some j"
| "block_json (ResourceLinkBlock j) = Some j"
| "block_json (OtherBlock j) = Some j"

fun join_with :: "string \<Rightarrow> string list \<Rightarrow> string" where
  "join_with sep [] = []"
| "join_with sep [x] = x"
| "join_with sep (x # y # zs) = x @ sep @ join_with sep (y # zs)"

definition newline :: string where
  "newline = [CHR 0x0A]"

definition display_text :: "prompt_request \<Rightarrow> string" where
  "display_text req = join_with newline (List.map_filter text_of (req_prompt req))"

section \<open>Leading commands\<close>

text \<open>\<open>str::find\<close> and \<open>str::rsplit_once\<close> of a pattern.\<close>

fun find_str :: "string \<Rightarrow> string \<Rightarrow> nat option" where
  "find_str p [] = (if p = [] then Some 0 else None)"
| "find_str p (c # cs) =
     (if starts_with (c # cs) p then Some 0 else map_option Suc (find_str p cs))"

fun rsplit_once :: "string \<Rightarrow> string \<Rightarrow> (string \<times> string) option" where
  "rsplit_once p [] = (if p = [] then Some ([], []) else None)"
| "rsplit_once p (c # cs) =
     (case rsplit_once p cs of
        Some (a, b) \<Rightarrow> Some (c # a, b)
      | None \<Rightarrow> if starts_with (c # cs) p then Some ([], drop (length p) (c # cs)) else None)"

lemma find_str_bound: "find_str p s = Some n \<Longrightarrow> n + length p \<le> length s"
proof (induction p s arbitrary: n rule: find_str.induct)
  case (2 p c cs)
  have "length p \<le> length (c # cs)" if "starts_with (c # cs) p"
    using that by (auto simp: starts_with_iff dest!: arg_cong [of _ _ length])
  with 2 show ?case by (fastforce split: if_splits)
qed (simp split: if_splits)

definition context_open :: string where
  "context_open = ''<turn-context>''"

definition context_close :: string where
  "context_close = ''</turn-context>''"

definition goose_memo :: string where
  "goose_memo =
     ''Conversation context from goose before this ACP provider session was created:''"

function strip_spans :: "string \<Rightarrow> string" where
  "strip_spans rest =
     (case find_str context_open rest of
        None \<Rightarrow> rest
      | Some start \<Rightarrow>
          (case find_str context_close (drop start rest) of
             None \<Rightarrow> take start rest
           | Some e \<Rightarrow> take start rest @ strip_spans (drop (start + e + length context_close) rest)))"
  by pat_completeness auto
termination
  by (relation "measure length")
    (auto simp: context_close_def dest!: find_str_bound)

declare strip_spans.simps [simp del]

definition without_turn_context :: "string \<Rightarrow> string" where
  "without_turn_context t = (if starts_with t goose_memo then [] else strip_spans t)"

record leading_cmd =
  lc_phase :: planner_phase
  lc_block :: nat
  lc_args :: string

text \<open>The first block that is not blank text; a non-text block there means no command.\<close>

fun first_typed :: "nat \<Rightarrow> content_block list \<Rightarrow> (nat \<times> string) option" where
  "first_typed i [] = None"
| "first_typed i (b # bs) =
     (case text_of b of
        None \<Rightarrow> None
      | Some t \<Rightarrow>
          (let typed = without_turn_context t in
           if blank typed then first_typed (i + 1) bs else Some (i, typed)))"

definition command_phase :: "string \<Rightarrow> string \<Rightarrow> string \<Rightarrow> planner_phase option" where
  "command_phase plan implement name =
     (if name = plan then Some Planning else if name = implement then Some Implementation else None)"

text \<open>\<open>split_once(char::is_whitespace)\<close>: the text before and after the first white space.\<close>

fun split_ws_once :: "string \<Rightarrow> (string \<times> string) option" where
  "split_ws_once [] = None"
| "split_ws_once (a # xs) =
     (if ws1 (byte a) then Some ([], xs)
      else case xs of
        b # ys \<Rightarrow>
          (if ws2 (byte a) (byte b) then Some ([], ys)
           else case ys of
             c # zs \<Rightarrow>
               (if ws3 (byte a) (byte b) (byte c) then Some ([], zs)
                else map_option (\<lambda>(u, v). (a # u, v)) (split_ws_once xs))
           | [] \<Rightarrow> map_option (\<lambda>(u, v). (a # u, v)) (split_ws_once xs))
      | [] \<Rightarrow> None)"

definition first_line :: "string \<Rightarrow> string" where
  "first_line s = (case split_once (CHR 0x0A) s of None \<Rightarrow> s | Some (a, _) \<Rightarrow> a)"

definition loaded_skill_command :: "nat \<Rightarrow> string \<Rightarrow> string \<Rightarrow> leading_cmd option" where
  "loaded_skill_command block typed loaded =
     (case split_whitespace loaded of
        [] \<Rightarrow> None
      | name # _ \<Rightarrow>
          if \<not> starts_with (trim_start (drop (length name) loaded)) ''(skill)'' then None
          else case command_phase ''plan'' ''implement'' name of
            None \<Rightarrow> None
          | Some phase \<Rightarrow>
              (let content = (case rsplit_once (newline @ ''## Supporting Files'') typed of
                                None \<Rightarrow> typed | Some (c, _) \<Rightarrow> c);
                   args = (case rsplit_once (newline @ ''ARGUMENTS:'') content of
                             None \<Rightarrow> [] | Some (_, a) \<Rightarrow> trim (first_line a)) in
               Some \<lparr>lc_phase = phase, lc_block = block, lc_args = args\<rparr>))"

definition leading_command :: "prompt_request \<Rightarrow> leading_cmd option" where
  "leading_command req =
     (if \<not> human_prompt req then None
      else case first_typed 0 (req_prompt req) of
        None \<Rightarrow> None
      | Some (block, t) \<Rightarrow>
          (let typed = trim_start t in
           case strip_prefix ''# Loaded Skill: '' typed of
             Some loaded \<Rightarrow> loaded_skill_command block typed loaded
           | None \<Rightarrow>
               (let (verb, args) = (case split_ws_once typed of
                                      None \<Rightarrow> (typed, []) | Some (v, a) \<Rightarrow> (v, trim_start a)) in
                case command_phase ''/plan'' ''/implement'' verb of
                  None \<Rightarrow> None
                | Some phase \<Rightarrow>
                    Some \<lparr>lc_phase = phase, lc_block = block, lc_args = trim_end args\<rparr>)))"

definition command :: "prompt_request \<Rightarrow> planner_phase option" where
  "command req = map_option lc_phase (leading_command req)"


section \<open>Recording, queueing and delivering an input\<close>

definition upd_input :: "string \<Rightarrow> (input_receipt \<Rightarrow> input_receipt) \<Rightarrow> planner_run \<Rightarrow> planner_run" where
  "upd_input i f run = run\<lparr>run_inputs := bt_modify i f (run_inputs run)\<rparr>"

definition ack_wake :: "string \<Rightarrow> planner_run \<Rightarrow> planner_run" where
  "ack_wake i run =
     run\<lparr>run_wakes := bt_modify i (\<lambda>w. w\<lparr>wake_acknowledged := True\<rparr>) (run_wakes run)\<rparr>"

definition input_origin :: "prompt_request \<Rightarrow> string" where
  "input_origin req =
     (if human_prompt req then ''human''
      else if delegated_approval req then ''coordinator'' else ''agent'')"

definition new_receipt :: "prompt_request \<Rightarrow> input_receipt" where
  "new_receipt req =
     \<lparr>inp_origin = input_origin req, inp_replayed_from = None, inp_text = display_text req,
      inp_attachments = List.map_filter block_json (req_prompt req), inp_owner = None,
      inp_acknowledged = False, inp_delivered_to = {}\<rparr>"

definition request_input_id :: "string \<Rightarrow> prompt_request \<Rightarrow> string" where
  "request_input_id uuid req =
     unwrap_or (Option.bind (router_meta req) (\<lambda>m. meta_str m ''input_id'')) uuid"

definition record_input ::
  "string \<Rightarrow> prompt_request \<Rightarrow> planner_run \<Rightarrow> (planner_error, string \<times> planner_run) result" where
  "record_input uuid req run =
     (let i = request_input_id uuid req;
          receipt = new_receipt req;
          human = human_prompt req;
          after = (\<lambda>r. (i, if human then clear_human_hold r else r)) in
      case bt_get (run_inputs run) i of
        Some previous \<Rightarrow>
          if inp_text previous \<noteq> inp_text receipt \<or>
             inp_attachments previous \<noteq> inp_attachments receipt \<or>
             inp_origin previous \<noteq> inp_origin receipt
          then Inl (InputErr ErrInputIdentity)
          else Inr (after run)
      | None \<Rightarrow> Inr (after (run\<lparr>run_inputs := bt_insert i receipt (run_inputs run)\<rparr>)))"

definition resolved :: "input_receipt \<Rightarrow> bool" where
  "resolved inp = inp_acknowledged inp"

definition entry_wake :: "string \<Rightarrow> wake \<Rightarrow> planner_run \<Rightarrow> planner_run" where
  "entry_wake i w run = (if bt_has (run_wakes run) i then run else put_wake i w run)"

definition queue_parent_request ::
  "string \<Rightarrow> string \<Rightarrow> prompt_request \<Rightarrow> planner_run \<Rightarrow> (planner_error, string \<times> planner_run) result"
where
  "queue_parent_request uuid sid req run =
     rbind (record_input uuid req run) (\<lambda>(i, run1).
       if is_some_and (bt_get (run_inputs run1) i) resolved then Inr (i, run1)
       else let run2 = (if list_ex (\<lambda>q. q_input_id q = i) (run_parent_queue run1) then run1
                        else run1\<lparr>run_parent_queue :=
                          run_parent_queue run1 @ [\<lparr>q_input_id = i, q_request = req\<rparr>]\<rparr>) in
         Inr (i, entry_wake (''input:'' @ i)
           (new_wake sid ''Original parent input awaits its own turn'') run2))"

definition record_steered_input ::
  "string \<Rightarrow> string \<Rightarrow> prompt_request \<Rightarrow> planner_run \<Rightarrow> (planner_error, planner_run) result" where
  "record_steered_input uuid sid req run =
     rbind (record_input uuid req run) (\<lambda>(i, run1).
       Inr (upd_input i (\<lambda>inp. inp\<lparr>inp_delivered_to := insert sid (inp_delivered_to inp)\<rparr>) run1))"

definition mark_input_delivered ::
  "string \<Rightarrow> string \<Rightarrow> string \<Rightarrow> planner_run \<Rightarrow> (planner_error, planner_run) result" where
  "mark_input_delivered sid input_id owner run =
     rbind (ok_or (bt_get (run_inputs run) input_id) (InputErr ErrUnknownInput)) (\<lambda>inp.
       if owner \<noteq> sid \<and> is_some_and (inp_owner inp) (\<lambda>previous. previous \<noteq> owner)
       then Inl (InputErr ErrInputOwnerChanged)
       else Inr (upd_input input_id (\<lambda>x.
         (if owner \<noteq> sid \<and> input_id \<notin> run_commands run then x\<lparr>inp_owner := Some owner\<rparr> else x)
           \<lparr>inp_delivered_to := insert owner (inp_delivered_to x)\<rparr>) run))"

section \<open>Withdrawal and acknowledgment\<close>

definition withdrawal :: "planner_env \<Rightarrow> planner_run \<Rightarrow> string \<Rightarrow> (int \<times> string) option" where
  "withdrawal env run i =
     Option.bind (bt_get (run_receipts run) (''input-withdrawal:'' @ i)) (env_withdrawal_parse env)"

definition acknowledge_input ::
  "planner_env \<Rightarrow> string \<Rightarrow> string \<Rightarrow> string option \<Rightarrow> planner_run \<Rightarrow> (planner_error, planner_run) result"
where
  "acknowledge_input env sid i owner run =
     (if is_some_and owner (\<lambda>o1. \<not> bt_has (run_works run) o1) then Inl (InputErr ErrInputOwnerUnknown)
      else if withdrawal env run i \<noteq> None then Inr run
      else rbind (ok_or (bt_get (run_inputs run) i) (InputErr ErrUnknownInput)) (\<lambda>inp.
        if inp_owner inp \<noteq> None \<and> inp_owner inp \<noteq> owner then Inl (InputErr ErrInputOwnerChanged)
        else if unwrap_or owner sid \<notin> inp_delivered_to inp then Inl (InputErr ErrInputUndelivered)
        else Inr ((ack_wake (''input:'' @ i)
               (upd_input i (\<lambda>x. x\<lparr>inp_owner := owner, inp_acknowledged := True\<rparr>) run))
             \<lparr>run_parent_queue := filter (\<lambda>q. q_input_id q \<noteq> i) (run_parent_queue run)\<rparr>)))"

definition input_unreconciled :: "string \<Rightarrow> planner_run \<Rightarrow> string \<Rightarrow> input_receipt \<Rightarrow> bool" where
  "input_unreconciled sid run i inp \<longleftrightarrow>
     \<not> (i \<in> run_commands run \<or> resolved inp \<or> inp_owner inp \<noteq> None \<or> sid \<notin> inp_delivered_to inp)"

definition reconcile_delivered_inputs ::
  "(string \<Rightarrow> string \<Rightarrow> string) \<Rightarrow> string \<Rightarrow> planner_run \<Rightarrow> planner_run" where
  "reconcile_delivered_inputs prose sid run =
     (if run_status run \<noteq> RunRunning \<and> run_status run \<noteq> RunDraining then run
      else run\<lparr>run_wakes := fold (\<lambda>(i, inp) ws.
          if input_unreconciled sid run i inp
          then bt_insert (''input:'' @ i)
                 ((unwrap_or (bt_get ws (''input:'' @ i)) wake_default)
                    \<lparr>wake_work_id := sid, wake_acknowledged := False,
                     wake_reason := prose i (inp_origin inp)\<rparr>) ws
          else ws) (run_inputs run) (run_wakes run)\<rparr>)"

text \<open>One withdrawn input, as both \<open>withdraw\<close> and \<open>retire_lifted_hold\<close> record it.\<close>

definition withdraw_one :: "planner_env \<Rightarrow> string \<Rightarrow> string \<Rightarrow> planner_run \<Rightarrow> planner_run" where
  "withdraw_one env reason i run =
     (upd_input i (\<lambda>x. x\<lparr>inp_acknowledged := True\<rparr>)
       (run\<lparr>run_receipts := bt_insert (''input-withdrawal:'' @ i)
          (env_withdrawal_json env (env_now_ms env) reason) (run_receipts run)\<rparr>))
     \<lparr>run_wakes := bt_modify (''input:'' @ i)
        (\<lambda>w. w\<lparr>wake_acknowledged := True, wake_claim_pid := 0\<rparr>) (run_wakes run)\<rparr>"

definition withdraw_ids :: "planner_env \<Rightarrow> string \<Rightarrow> string list \<Rightarrow> planner_run \<Rightarrow> planner_run" where
  "withdraw_ids env reason ids run =
     (let run1 = fold (withdraw_one env reason) ids run in
      run1\<lparr>run_parent_queue :=
        filter (\<lambda>q. \<not> List.member ids (q_input_id q)) (run_parent_queue run1)\<rparr>)"

definition hold_slug :: "string \<Rightarrow> string option" where
  "hold_slug hold =
     opt_filter (\<lambda>s. s \<noteq> []) (map_option (\<lambda>rest. hd (split_on (\<lambda>c. c = CHR '':'') rest))
       (strip_prefix ''repair-hold:'' hold))"

definition retire_lifted_hold ::
  "planner_env \<Rightarrow> string \<Rightarrow> string \<Rightarrow> planner_run \<Rightarrow> string list \<times> planner_run" where
  "retire_lifted_hold env hold reason run =
     (case hold_slug hold of
        None \<Rightarrow> ([], run)
      | Some slug \<Rightarrow>
          (let prefix = ''repair-hold:'' @ slug @ '':'';
               ids = filter (\<lambda>k. starts_with k prefix \<and> withdrawal env run k = None)
                       (bt_keys (run_inputs run)) in
           (ids, withdraw_ids env reason ids run)))"

definition withdraw_selection ::
  "planner_env \<Rightarrow> string option \<Rightarrow> bool \<Rightarrow> planner_run \<Rightarrow> string list" where
  "withdraw_selection env i include_human run =
     map fst (filter (\<lambda>(k, inp). is_none_or i (\<lambda>x. x = k) \<and>
       (\<not> resolved inp \<or> (i \<noteq> None \<and> withdrawal env run k = None)) \<and>
       (include_human \<or> inp_origin inp = ''agent'')) (run_inputs run))"

definition input_claimed :: "planner_env \<Rightarrow> planner_run \<Rightarrow> string \<Rightarrow> bool" where
  "input_claimed env run i =
     is_some_and (bt_get (run_wakes run) (''input:'' @ i)) (\<lambda>w.
       wake_claim_pid w \<noteq> 0 \<and>
       owner_alive env \<lparr>att_id = i, att_router_pid = wake_claim_pid w,
         att_router_started_at_ms = wake_claim_started_at_ms w, att_delegate_id = None,
         att_ended = False\<rparr>)"

text \<open>
  \<open>withdraw\<close> on the loaded run; \<open>cwd\<close> is the checkout the caller names and \<open>env_cwd\<close> the
  session's. The ids are the inputs it withdrew, or would withdraw in a preview.
\<close>

definition withdraw ::
  "planner_env \<Rightarrow> string \<Rightarrow> string option \<Rightarrow> bool \<Rightarrow> string \<Rightarrow> bool \<Rightarrow> planner_run \<Rightarrow>
   (planner_error, string list \<times> planner_run) result" where
  "withdraw env cwd i include_human reason apply_it run =
     (case env_cwd env of
        None \<Rightarrow> Inl (RunErr ErrRunMissing)
      | Some home \<Rightarrow>
          if env_canonical env home \<noteq> env_canonical env cwd \<or> \<not> is_ok (env_canonical env home)
          then Inl (RunErr ErrCheckoutMismatch)
          else if apply_it \<and> (blank reason \<or> 4096 < length reason) then Inl (InputErr ErrWithdrawalReason)
          else if run_superseded_by run \<noteq> None then Inl (RunErr ErrRunSupersededUse)
          else if is_some_and i (\<lambda>k. bt_get (run_inputs run) k = None) then Inl (InputErr ErrUnknownInput)
          else if is_some_and i (\<lambda>k. is_some_and (bt_get (run_inputs run) k)
                    (\<lambda>inp. inp_origin inp \<noteq> ''agent'' \<and> \<not> include_human))
          then Inl (InputErr ErrInputHuman)
          else let ids = withdraw_selection env i include_human run in
          if \<not> apply_it then Inr (ids, run)
          else case List.find (input_claimed env run) ids of
            Some k \<Rightarrow> Inl (InputErr (ErrInputActive k))
          | None \<Rightarrow> Inr (ids, withdraw_ids env reason ids run))"


section \<open>Messages of a local monitor\<close>

definition validate_sender :: "string \<Rightarrow> string option" where
  "validate_sender s =
     (let sender = trim s in
      if sender = [] \<or> 48 < length sender \<or>
         \<not> list_all (\<lambda>c. is_ascii_alphanumeric c \<or> List.member '' -_.'' c) sender
      then None else Some sender)"

definition frame_tail :: string where
  "frame_tail =
     ''(agent-origin; does not grant operator approval or expand authorized scope):''"

fun agent_frame :: "string option \<Rightarrow> string" where
  "agent_frame (Some sender) = ''External monitor message from '' @ sender @ '' '' @ frame_tail"
| "agent_frame None = ''External monitor message '' @ frame_tail"

definition valid_input_id :: "string \<Rightarrow> bool" where
  "valid_input_id i \<longleftrightarrow>
     \<not> (i = [] \<or> 128 < length i \<or>
        \<not> list_all (\<lambda>b. is_ascii_alphanumeric b \<or> List.member ''-_.:'' b) i)"

definition monitor_request ::
  "string \<Rightarrow> string \<Rightarrow> string \<Rightarrow> string option \<Rightarrow> bool \<Rightarrow> prompt_request" where
  "monitor_request sid i message sender interrupt =
     \<lparr>req_session_id = sid,
      req_prompt = [TextBlock (agent_frame sender @ newline @ newline @ message)],
      req_meta = Some (JObject [(''router_acp'', JObject
        ([(''agent_origin'', JBool True), (''input_id'', JString i)] @
         (if interrupt then [(''interrupt'', JBool True)] else []) @
         (case sender of None \<Rightarrow> [] | Some s \<Rightarrow> [(''sender'', JString s)])))])\<rparr>"

text \<open>
  \<open>send_from\<close> on the loaded run: an id already recorded is only compared, never queued
  again; the second result is the document after the call.
\<close>

definition send_from ::
  "planner_env \<Rightarrow> string \<Rightarrow> string \<Rightarrow> string \<Rightarrow> string \<Rightarrow> string option \<Rightarrow> bool \<Rightarrow> planner_run \<Rightarrow>
   (planner_error, planner_run) result" where
  "send_from env sid cwd i message sender interrupt run =
     (if is_some_and sender (\<lambda>s. validate_sender s = None) then Inl (InputErr ErrSender)
      else if \<not> valid_input_id i then Inl (InputErr ErrInputId)
      else if blank message \<or> 64 * 1024 < length message then Inl (InputErr ErrInputMessage)
      else case env_cwd env of
        None \<Rightarrow> Inl (RunErr ErrRunMissing)
      | Some home \<Rightarrow>
          if env_canonical env home \<noteq> env_canonical env cwd \<or> \<not> is_ok (env_canonical env home)
          then Inl (RunErr ErrCheckoutMismatch)
          else let req = monitor_request sid i message (Option.bind sender validate_sender) interrupt in
          if bt_has (run_inputs run) i
          then rbind (record_input [] req run) (\<lambda>_. Inr run)
          else if run_status run \<noteq> RunRunning \<or> run_superseded_by run \<noteq> None then Inl (RunErr ErrRunNotRunning)
          else if \<not> is_some_and (run_owner run) (run_owner_alive env) then Inl (RunErr ErrNoLiveOwner)
          else rbind (queue_parent_request [] sid req run) (\<lambda>(_, run1). Inr run1))"

section \<open>Starting and commanding a run\<close>

text \<open>\<open>ensure\<close> creates the run of a session that has none.\<close>

definition initial_run :: "planner_env \<Rightarrow> resolved_planner \<Rightarrow> bool \<Rightarrow> planner_run" where
  "initial_run env policy coordinator =
     \<lparr>run_revision = 0, run_policy = policy, run_prior_policies = [], run_phase = Planning,
      run_coordinator = coordinator, run_status = RunRunning, run_execution_request = None,
      run_execution_input_id = None, run_commands = {}, run_works = [], run_releases = [],
      run_observations = [], run_completed_guides_at_start = None, run_inputs = [],
      run_parent_queue = [], run_wakes = [], run_approval_waits = {}, run_receipts = [],
      run_idle_heartbeats = 0, run_capacity = capacity_default,
      run_owner = Some \<lparr>own_pid = fst (env_identity env), own_started_at_ms = snd (env_identity env)\<rparr>,
      run_owner_heartbeat_at = env_now_ms env div 1000, run_superseded_by = None\<rparr>"

definition mark_reconciliation_required :: "work \<Rightarrow> work" where
  "mark_reconciliation_required w =
     (if (work_status w = Admitted \<or> work_status w = Allocating \<or> work_status w = Running \<or>
          work_status w = Interrupted \<or> work_status w = Corrections \<or> work_status w = Accepted) \<and>
         work_workspace w \<noteq> None
      then w\<lparr>work_reconciliation := (work_reconciliation w)\<lparr>rc_required := True\<rparr>\<rparr> else w)"

text \<open>
  \<open>user_command_once\<close>, the part that changes the run: \<open>draining\<close> is a live drain of the
  session, \<open>coordinator\<close> the session's flag, \<open>resolve\<close> the policy resolved now (None: the
  session is gone) and \<open>entrypoint\<close> the repository skill of the command as its source and
  its JSON. The instructions text written into the request is not part of the run.
\<close>

record command_context =
  cc_draining :: bool
  cc_coordinator :: bool
  cc_resolve :: "(string, resolved_planner) result"
  cc_entrypoint :: "(string \<times> string) option"

definition install_policy :: "command_context \<Rightarrow> planner_run \<Rightarrow> (planner_error, planner_run) result" where
  "install_policy ctx run =
     (case cc_resolve ctx of
        Inl e \<Rightarrow> Inl (RunErr (ErrPolicy e))
      | Inr policy \<Rightarrow>
          (let run1 = (if pol_identity policy \<noteq> pol_identity (run_policy run)
                       then run\<lparr>run_prior_policies := run_prior_policies run @ [run_policy run],
                              run_policy := policy\<rparr>
                       else run) in
           Inr (run1\<lparr>run_works := bt_map (\<lambda>_. mark_reconciliation_required) (run_works run1)\<rparr>)))"

definition reset_retries :: "planner_run \<Rightarrow> planner_run" where
  "reset_retries run =
     run\<lparr>run_wakes := bt_map (\<lambda>_ w. if \<not> wake_acknowledged w
       then w\<lparr>wake_deliveries := 0, wake_retry_after := 0\<rparr> else w) (run_wakes run)\<rparr>"

definition keep_entrypoint :: "command_context \<Rightarrow> planner_phase \<Rightarrow> string \<Rightarrow> planner_run \<Rightarrow> planner_run" where
  "keep_entrypoint ctx phase input_id run =
     (case cc_entrypoint ctx of
        None \<Rightarrow> run
      | Some (source, skill_json) \<Rightarrow>
          if bt_any (\<lambda>_ s. skill_source s = source) (pol_roles (run_policy run)) \<or> phase = Planning
          then run
          else run\<lparr>run_receipts := bt_insert (''entrypoint:'' @ input_id) skill_json (run_receipts run)\<rparr>)"

definition apply_command ::
  "command_context \<Rightarrow> planner_phase \<Rightarrow> bool \<Rightarrow> bool \<Rightarrow> string \<Rightarrow> prompt_request \<Rightarrow> planner_run \<Rightarrow>
   planner_run" where
  "apply_command ctx phase fresh resuming input_id original run3 =
     (let run4 = run3\<lparr>run_phase := phase,
            run_coordinator := run_coordinator run3 \<or> phase = Implementation \<or> cc_coordinator ctx\<rparr>;
          run5 = (if phase = Implementation \<or> run_status run4 = RunComplete
                  then (if resuming then run4\<lparr>run_approval_waits := {}\<rparr> else run4)
                         \<lparr>run_status := RunRunning\<rparr>
                  else run4);
          run6 = (if fresh then reset_retries run5 else run5);
          run7 = (if phase = Implementation
                  then run6\<lparr>run_execution_request := Some (display_text original),
                         run_execution_input_id := Some input_id\<rparr>
                  else run6) in
      keep_entrypoint ctx phase input_id run7)"

definition user_command_once ::
  "command_context \<Rightarrow> string \<Rightarrow> prompt_request \<Rightarrow> prompt_request \<Rightarrow> bool \<Rightarrow> planner_run \<Rightarrow>
   (planner_error, (planner_phase \<times> planner_run) option) result" where
  "user_command_once ctx uuid original req queued run0 =
     (case leading_command req of
        None \<Rightarrow> Inr None
      | Some lc \<Rightarrow>
          (let phase = lc_phase lc in
           if run_status run0 = RunSuperseded then Inl (RunErr (ErrSuperseded (run_superseded_by run0)))
           else if run_status run0 = RunDraining \<and> cc_draining ctx then Inl (RunErr ErrShuttingDown)
           else rbind (record_input uuid original run0) (\<lambda>(input_id, run1).
             let first_admission = (input_id \<notin> run_commands run1);
                 run2 = run1\<lparr>run_commands := insert input_id (run_commands run1)\<rparr> in
             if \<not> first_admission \<and> \<not> queued then Inl (RunErr (ErrCommandReplayed input_id))
             else let fresh = (first_admission \<and> \<not> queued);
                      resuming = (run_status run2 = RunPaused \<or> run_status run2 = RunCancelled \<or>
                                  run_status run2 = RunDraining) in
             rbind (if fresh \<and> resuming \<and> phase = Implementation \<and>
                       bt_all (\<lambda>_ w. attempt_done w) (run_works run2)
                    then install_policy ctx run2 else Inr run2)
               (\<lambda>run3. Inr (Some (phase,
                  apply_command ctx phase fresh resuming input_id original run3))))))"

section \<open>Correctness of inputs\<close>

lemma clear_human_hold_frame [simp]:
  "run_inputs (clear_human_hold run) = run_inputs run"
  "run_works (clear_human_hold run) = run_works run"
  "run_parent_queue (clear_human_hold run) = run_parent_queue run"
  "run_wakes (clear_human_hold run) = run_wakes run"
  "run_receipts (clear_human_hold run) = run_receipts run"
  "run_commands (clear_human_hold run) = run_commands run"
  "run_phase (clear_human_hold run) = run_phase run"
  "run_status (clear_human_hold run) = run_status run"
  by (simp_all add: clear_human_hold_def upd_capacity_def)

lemma record_input_Inr_iff:
  "record_input uuid req run = Inr (i, run') \<longleftrightarrow>
     i = request_input_id uuid req \<and>
     (\<forall>p. bt_get (run_inputs run) i = Some p \<longrightarrow> inp_text p = display_text req \<and>
        inp_attachments p = List.map_filter block_json (req_prompt req) \<and> inp_origin p = input_origin req) \<and>
     run' = (let r = (if bt_has (run_inputs run) i then run
                      else run\<lparr>run_inputs := bt_insert i (new_receipt req) (run_inputs run)\<rparr>)
             in if human_prompt req then clear_human_hold r else r)"
  by (cases "bt_get (run_inputs run) (request_input_id uuid req)")
    (auto simp: record_input_def Let_def new_receipt_def)

text \<open>
  An input is recorded once: the receipt filed under its id always carries the text,
  attachments and origin of the request, an existing receipt is kept as it is, no other
  receipt changes, recording the same request again changes nothing, and another message
  under the same id is refused.
\<close>

lemma input_recorded_once:
  assumes "record_input uuid req run = Inr (i, run')"
  shows "(\<exists>inp. bt_get (run_inputs run') i = Some inp \<and> inp_text inp = display_text req \<and>
        inp_attachments inp = List.map_filter block_json (req_prompt req) \<and>
        inp_origin inp = input_origin req) \<and>
    (\<forall>k inp. bt_get (run_inputs run) k = Some inp \<longrightarrow> bt_get (run_inputs run') k = Some inp) \<and>
    (\<forall>k. k \<noteq> i \<longrightarrow> bt_get (run_inputs run') k = bt_get (run_inputs run) k) \<and>
    (\<exists>run2. record_input uuid req run' = Inr (i, run2) \<and> run_inputs run2 = run_inputs run') \<and>
    (\<forall>other. request_input_id uuid other = i \<and> display_text other \<noteq> display_text req \<longrightarrow>
       record_input uuid other run' = Inl (InputErr ErrInputIdentity))"
proof -
  note r = assms [unfolded record_input_Inr_iff]
  have inp: "\<exists>inp. bt_get (run_inputs run') i = Some inp \<and> inp_text inp = display_text req \<and>
        inp_attachments inp = List.map_filter block_json (req_prompt req) \<and>
        inp_origin inp = input_origin req"
    using r by (auto simp: Let_def new_receipt_def)
  moreover have "\<forall>k inp. bt_get (run_inputs run) k = Some inp \<longrightarrow> bt_get (run_inputs run') k = Some inp"
    "\<forall>k. k \<noteq> i \<longrightarrow> bt_get (run_inputs run') k = bt_get (run_inputs run) k"
    using r by (auto simp: Let_def)
  moreover have "\<exists>run2. record_input uuid req run' = Inr (i, run2) \<and> run_inputs run2 = run_inputs run'"
    using r inp by (auto simp: record_input_def Let_def new_receipt_def)
  moreover have "record_input uuid other run' = Inl (InputErr ErrInputIdentity)"
    if "request_input_id uuid other = i \<and> display_text other \<noteq> display_text req" for other
    using that inp by (auto simp: record_input_def Let_def new_receipt_def)
  ultimately show ?thesis by blast
qed

definition sample_request :: prompt_request where
  "sample_request = \<lparr>req_session_id = ''s'', req_prompt = [TextBlock ''/implement now''], req_meta = None\<rparr>"

lemma monitor_request_origin [simp]:
  "\<not> human_prompt (monitor_request sid i message sender interrupt)"
  "input_origin (monitor_request sid i message sender interrupt) = ''agent''"
  "request_input_id uuid (monitor_request sid i message sender interrupt) = i"
  by (auto simp: human_prompt_def router_meta_def monitor_request_def input_origin_def
      delegated_approval_def meta_str_def request_input_id_def split: option.splits)

lemma entry_wake_frame [simp]:
  "run_inputs (entry_wake i w run) = run_inputs run"
  "run_works (entry_wake i w run) = run_works run"
  "run_capacity (entry_wake i w run) = run_capacity run"
  "run_phase (entry_wake i w run) = run_phase run"
  "run_status (entry_wake i w run) = run_status run"
  "run_execution_request (entry_wake i w run) = run_execution_request run"
  "run_commands (entry_wake i w run) = run_commands run"
  "run_parent_queue (entry_wake i w run) = run_parent_queue run"
  by (simp_all add: entry_wake_def put_wake_def)

text \<open>
  A monitor's message carries no authority: it is filed with agent origin and leaves the
  phase, the run status, the execution request, the admitted commands, the works and every
  hold as they were; a message whose id is already recorded changes nothing, and a new one is
  queued exactly once, undelivered and unacknowledged.
\<close>

lemma monitor_message_no_authority:
  assumes "send_from env sid cwd i message sender interrupt run = Inr run'"
  shows "run_phase run' = run_phase run \<and> run_status run' = run_status run \<and>
    run_execution_request run' = run_execution_request run \<and> run_commands run' = run_commands run \<and>
    run_works run' = run_works run \<and> run_capacity run' = run_capacity run \<and>
    (bt_has (run_inputs run) i \<longrightarrow> run' = run) \<and>
    (\<exists>inp. bt_get (run_inputs run') i = Some inp \<and> inp_origin inp = ''agent'') \<and>
    (\<not> bt_has (run_inputs run) i \<longrightarrow>
       (\<exists>inp. bt_get (run_inputs run') i = Some inp \<and> \<not> inp_acknowledged inp \<and> inp_delivered_to inp = {}) \<and>
       (\<exists>q \<in> set (run_parent_queue run'). q_input_id q = i) \<and>
       length (filter (\<lambda>q. q_input_id q = i) (run_parent_queue run')) =
         max 1 (length (filter (\<lambda>q. q_input_id q = i) (run_parent_queue run))))"
proof (cases "bt_has (run_inputs run) i")
  case True
  then show ?thesis using assms
    by (auto simp: send_from_def Let_def record_input_Inr_iff split: if_splits option.splits)
next
  case False
  define req where "req = monitor_request sid i message (Option.bind sender validate_sender) interrupt"
  have req: "\<not> human_prompt req" "input_origin req = ''agent''" "request_input_id [] req = i"
    by (simp_all add: req_def)
  define run1 where "run1 = run\<lparr>run_inputs := bt_insert i (new_receipt req) (run_inputs run)\<rparr>"
  have "record_input [] req run = Inr (i, run1)"
    using False req by (auto simp: record_input_Inr_iff Let_def run1_def)
  moreover have "queue_parent_request [] sid req run = Inr (i, run')"
    using assms False calculation
    by (auto simp: send_from_def Let_def req_def [symmetric] queue_parent_request_def
        split: if_splits option.splits)
  ultimately have run': "run' = entry_wake (''input:'' @ i)
        (new_wake sid ''Original parent input awaits its own turn'')
      (if list_ex (\<lambda>q. q_input_id q = i) (run_parent_queue run1) then run1
       else run1\<lparr>run_parent_queue := run_parent_queue run1 @ [\<lparr>q_input_id = i, q_request = req\<rparr>]\<rparr>)"
    by (auto simp: queue_parent_request_def run1_def resolved_def new_receipt_def)
  show ?thesis
  proof (cases "list_ex (\<lambda>q. q_input_id q = i) (run_parent_queue run)")
    case q: True
    then have "filter (\<lambda>q. q_input_id q = i) (run_parent_queue run) \<noteq> []"
      by (auto simp: list_ex_iff filter_empty_conv)
    then have "1 \<le> length (filter (\<lambda>q. q_input_id q = i) (run_parent_queue run))"
      by (simp add: Suc_le_eq)
    with q False req show ?thesis
      by (auto simp: run' run1_def new_receipt_def list_ex_iff max_def)
  next
    case q: False
    then have "filter (\<lambda>q. q_input_id q = i) (run_parent_queue run) = []"
      by (auto simp: list_ex_iff filter_empty_conv)
    with q False req show ?thesis by (auto simp: run' run1_def new_receipt_def)
  qed
qed

text \<open>
  An acknowledgment is never inferred: unless the input was explicitly withdrawn, it
  succeeds only for a recorded input that was delivered to the very owner who acknowledges
  it, keeps the input's original owner, and then closes the receipt, its wake and its queue
  entry together while every other input, the works and the releases stay as they were.
\<close>

lemma acknowledgment_needs_delivery:
  assumes "acknowledge_input env sid i owner run = Inr run'" and "withdrawal env run i = None"
  shows "\<exists>inp. bt_get (run_inputs run) i = Some inp \<and>
    (case owner of None \<Rightarrow> sid | Some o1 \<Rightarrow> o1) \<in> inp_delivered_to inp \<and>
    (inp_owner inp = None \<or> inp_owner inp = owner) \<and>
    bt_get (run_inputs run') i = Some (inp\<lparr>inp_owner := owner, inp_acknowledged := True\<rparr>) \<and>
    (\<forall>k. k \<noteq> i \<longrightarrow> bt_get (run_inputs run') k = bt_get (run_inputs run) k) \<and>
    (\<forall>w. bt_get (run_wakes run') (''input:'' @ i) = Some w \<longrightarrow> wake_acknowledged w) \<and>
    (\<forall>q \<in> set (run_parent_queue run'). q_input_id q \<noteq> i) \<and>
    run_works run' = run_works run \<and> run_releases run' = run_releases run"
  using assms
  by (cases owner)
    (auto simp: acknowledge_input_def upd_input_def ack_wake_def split: if_splits)

lemma withdraw_fold:
  "bt_get (run_inputs (fold (withdraw_one env reason) ids run)) k =
     (if k \<in> set ids then map_option (\<lambda>x. x\<lparr>inp_acknowledged := True\<rparr>) (bt_get (run_inputs run) k)
      else bt_get (run_inputs run) k)"
  "bt_get (run_receipts (fold (withdraw_one env reason) ids run)) (''input-withdrawal:'' @ k) =
     (if k \<in> set ids then Some (env_withdrawal_json env (env_now_ms env) reason)
      else bt_get (run_receipts run) (''input-withdrawal:'' @ k))"
  "run_works (fold (withdraw_one env reason) ids run) = run_works run"
  "run_parent_queue (fold (withdraw_one env reason) ids run) = run_parent_queue run"
  by (induction ids arbitrary: run)
    (auto simp: withdraw_one_def upd_input_def map_option_case split: option.split)

text \<open>
  Withdrawing keeps every original: each selected input is closed with a withdrawal
  receipt that reads back as the given reason, keeps its text, attachments, origin and
  owner, and leaves the parent queue; no other input changes; and without
  \<open>--include-human\<close> only agent-origin inputs are ever selected.
\<close>

lemma withdraw_keeps_originals:
  assumes "withdraw env cwd i include_human reason True run = Inr (ids, run')"
    and "bt_wf (run_inputs run)"
    and "\<And>t r. env_withdrawal_parse env (env_withdrawal_json env t r) = Some (t, r)"
  shows "(\<forall>k \<in> set ids. withdrawal env run' k = Some (env_now_ms env, reason) \<and>
        (\<exists>inp. bt_get (run_inputs run) k = Some inp \<and>
           bt_get (run_inputs run') k = Some (inp\<lparr>inp_acknowledged := True\<rparr>) \<and>
           (include_human \<or> inp_origin inp = ''agent''))) \<and>
    (\<forall>k. k \<notin> set ids \<longrightarrow> bt_get (run_inputs run') k = bt_get (run_inputs run) k) \<and>
    run_parent_queue run' = filter (\<lambda>q. q_input_id q \<notin> set ids) (run_parent_queue run) \<and>
    run_works run' = run_works run"
proof -
  have ids: "ids = withdraw_selection env i include_human run"
    and run': "run' = withdraw_ids env reason ids run"
    using assms(1) by (auto simp: withdraw_def Let_def split: option.splits if_splits)
  have sel: "\<exists>inp. bt_get (run_inputs run) k = Some inp \<and> (include_human \<or> inp_origin inp = ''agent'')"
    if "k \<in> set ids" for k
    using that assms(2) by (auto simp: ids withdraw_selection_def bt_get_mem)
  show ?thesis
    using sel
    by (fastforce simp: run' withdraw_ids_def Let_def withdraw_fold [simplified] withdrawal_def assms(3))
qed

lemma apply_command_frame:
  fixes ctx phase fresh resuming i original run
  defines "run' \<equiv> apply_command ctx phase fresh resuming i original run"
  shows "run_phase run' = phase" "run_commands run' = run_commands run" "run_inputs run' = run_inputs run"
    "run_works run' = run_works run"
    "run_status run' = run_status run \<or> run_status run' = RunRunning"
    "phase = Implementation \<Longrightarrow> run_status run' = RunRunning \<and> run_coordinator run' \<and>
       run_execution_request run' = Some (display_text original)"
  unfolding run'_def
  by (simp_all add: apply_command_def Let_def keep_entrypoint_def reset_retries_def split: option.split)

text \<open>
  A leading command is admitted at most once: a command request that set the run's
  phase is refused when it comes again on its own under the same input id, an
  implementation command leaves the run running with its own text as the execution request,
  and a superseded run never accepts a command.
\<close>

lemma command_admitted_once:
  assumes "user_command_once ctx uuid original req False run = Inr (Some (phase, run'))"
  shows "run_status run \<noteq> RunSuperseded \<and> command req = Some phase \<and> run_phase run' = phase \<and>
    request_input_id uuid original \<in> run_commands run' \<and>
    (phase = Implementation \<longrightarrow> run_status run' = RunRunning \<and> run_coordinator run' \<and>
       run_execution_request run' = Some (display_text original)) \<and>
    user_command_once ctx uuid original req False run' =
      Inl (RunErr (ErrCommandReplayed (request_input_id uuid original)))"
proof -
  obtain lc where lc: "leading_command req = Some lc" "lc_phase lc = phase"
    using assms by (auto simp: user_command_once_def Let_def split: option.splits if_splits)
  obtain i run1 where rec: "record_input uuid original run = Inr (i, run1)"
    and st: "run_status run \<noteq> RunSuperseded" "\<not> (run_status run = RunDraining \<and> cc_draining ctx)"
    using assms lc by (auto simp: user_command_once_def Let_def split: if_splits)
  obtain run3 fresh resuming where
    run3: "run3 = run1\<lparr>run_commands := insert i (run_commands run1)\<rparr> \<or>
       install_policy ctx (run1\<lparr>run_commands := insert i (run_commands run1)\<rparr>) = Inr run3"
    and run': "run' = apply_command ctx phase fresh resuming i original run3"
    using assms lc rec st by (auto simp: user_command_once_def Let_def split: if_splits)
  note r = rec [unfolded record_input_Inr_iff] and a = apply_command_frame [where ctx = ctx and phase = phase and fresh = fresh and resuming = resuming
      and i = i and original = original and run = run3]
  have frame3: "run_inputs run3 = run_inputs run1" "run_commands run3 = insert i (run_commands run1)"
    "run_status run3 = run_status run1"
    using run3 by (auto simp: install_policy_def Let_def split: if_splits sum.splits)
  have i: "i = request_input_id uuid original" and s1: "run_status run1 = run_status run"
    using r by (auto simp: Let_def)
  have status: "run_status run' = run_status run \<or> run_status run' = RunRunning"
    using a frame3 s1 by (simp add: run')
  have "record_input uuid original run' = Inr (i, if human_prompt original then clear_human_hold run' else run')"
    using r frame3 a by (auto simp: run' record_input_Inr_iff Let_def new_receipt_def)
  then show ?thesis
    using st lc a frame3 i status
    by (auto simp: run' command_def user_command_once_def Let_def)
qed

definition sample_command_context :: command_context where
  "sample_command_context =
     \<lparr>cc_draining = False, cc_coordinator = False, cc_resolve = Inr sample_policy, cc_entrypoint = None\<rparr>"

lemma sample_request_command:
  "leading_command sample_request = Some \<lparr>lc_phase = Implementation, lc_block = 0, lc_args = ''now''\<rparr>"
  by code_simp

end
