(* ===== verification/Planner_Release.thy ===== *)
theory Planner_Release
  imports Planner_Input "HOL-Library.Product_Lexorder"
begin

text \<open>
  Release rounds (\<open>planner_release.rs\<close>): the exact revision a work is accepted and finished
  at, the repository host's attestation of a repair selection and its dependency closure,
  selecting a candidate, advancing it stage by stage, the batching rule, and the gate
  release rounds put on integration.
\<close>

section \<open>Accepted and finished revisions\<close>

definition accepted_revision :: "work \<Rightarrow> string \<Rightarrow> (planner_error, unit) result" where
  "accepted_revision w revision =
     (if \<not> is_some_and (work_review w) (\<lambda>r. rev_accepted r \<and> rev_revision r = revision) \<or>
         is_none_or (work_artifact w) (\<lambda>a. art_revision a \<noteq> revision)
      then Inl (WorkErr ErrNotAccepted) else Inr ())"

definition checks_pass :: "work_spec \<Rightarrow> artifact \<Rightarrow> bool" where
  "checks_pass spec a \<longleftrightarrow>
     list_all (\<lambda>c. is_some_and (bt_get (art_checks a) c) (\<lambda>r. r = ''pass'')) (spec_required_checks spec)"

definition finished_revision :: "work \<Rightarrow> string \<Rightarrow> bool" where
  "finished_revision w revision \<longleftrightarrow>
     (work_status w = Finished \<or>
      (work_status w = Watching \<and> is_some_and (work_reason w) (\<lambda>r. \<not> blank r))) \<and>
     is_some_and (work_finish w) (\<lambda>r. rcp_revision r = revision) \<and>
     is_ok (accepted_revision w revision) \<and> work_workspace w \<noteq> None \<and> attempt_done w \<and>
     is_some_and (work_artifact w) (\<lambda>a. art_unresolved a = [] \<and> checks_pass (work_spec w) a)"

definition integrated_at :: "planner_run \<Rightarrow> string \<Rightarrow> string \<Rightarrow> bool" where
  "integrated_at run i revision =
     is_some_and (bt_get (run_works run) i) (\<lambda>w. work_status w = Integrated \<and>
       is_some_and (work_integration w) (\<lambda>r. rcp_revision r = revision))"

lemma accepted_revision_Inr_iff:
  "accepted_revision w revision = Inr u \<longleftrightarrow>
     (\<exists>r a. work_review w = Some r \<and> rev_accepted r \<and> rev_revision r = revision \<and>
        work_artifact w = Some a \<and> art_revision a = revision)"
  by (auto simp: accepted_revision_def is_some_and_iff is_none_or_iff)

lemma finished_revision_accepted: "finished_revision w revision \<Longrightarrow> accepted_revision w revision = Inr ()"
  by (cases "accepted_revision w revision") (auto simp: finished_revision_def)

section \<open>Attested repair selections\<close>

fun attest_deps ::
  "(string, string) btree \<Rightarrow> (string, string) btree \<Rightarrow> string list \<Rightarrow>
   (planner_error, (string, string) btree \<times> string list) result" where
  "attest_deps [] closure pending = Inr (closure, pending)"
| "attest_deps ((dependency, revision) # deps) closure pending =
     (case bt_get closure dependency of
        Some existing \<Rightarrow>
          if existing \<noteq> revision then Inl (ReleaseErr ErrAttestedConflict) else attest_deps deps closure pending
      | None \<Rightarrow> attest_deps deps (bt_insert dependency revision closure) (dependency # pending))"

definition all_ready_deps :: "planner_run \<Rightarrow> string set" where
  "all_ready_deps run =
     (\<Union>w \<in> set (bt_values (run_works run)). set (bt_keys (spec_ready_dependencies (work_spec w))))"

lemma attest_deps_progress:
  "attest_deps deps closure pending = Inr (closure', pending') \<Longrightarrow>
     (closure' = closure \<and> pending' = pending) \<or>
     (set (bt_keys closure) \<subset> set (bt_keys closure') \<and>
      set (bt_keys closure') \<subseteq> set (bt_keys closure) \<union> set (bt_keys deps))"
proof (induction deps closure pending rule: attest_deps.induct)
  case (2 dependency revision deps closure pending)
  show ?case
  proof (cases "bt_get closure dependency")
    case None
    then have "dependency \<notin> set (bt_keys closure)" by (simp add: map_of_eq_None_iff)
    moreover have "closure' = bt_insert dependency revision closure \<or>
        (insert dependency (set (bt_keys closure)) \<subset> set (bt_keys closure') \<and>
         set (bt_keys closure') \<subseteq> insert dependency (set (bt_keys closure)) \<union> set (bt_keys deps))"
      using "2.IH"(1) [OF None] "2.prems" None unfolding set_keys_insert by auto
    moreover have "set (bt_keys ((dependency, revision) # deps)) = insert dependency (set (bt_keys deps))"
      by simp
    ultimately show ?thesis using set_keys_insert [of dependency revision closure] by blast
  next
    case (Some existing)
    with "2.IH"(2) [OF Some] "2.prems" show ?thesis by (auto split: if_splits)
  qed
qed simp

text \<open>
  The \<open>while let Some(work_id) = pending.pop()\<close> loop, the stack's top first. Every pending
  id is a key of the closure (\<open>attest_loop_inv\<close> below), so the index \<open>closure[&work_id]\<close>
  exists.
\<close>

function (sequential) attest_loop ::
  "planner_run \<Rightarrow> (string, string) btree \<Rightarrow> string list \<Rightarrow> (planner_error, (string, string) btree) result"
where
  "attest_loop run closure [] = Inr closure"
| "attest_loop run closure (work_id # pending) =
     (case bt_get (run_works run) work_id of
        None \<Rightarrow> Inl (ReleaseErr ErrAttestedUnknown)
      | Some w \<Rightarrow>
          if \<not> is_some_and (bt_get closure work_id) (finished_revision w) then Inl (ReleaseErr ErrAttestedUnfinished)
          else case attest_deps (spec_ready_dependencies (work_spec w)) closure pending of
            Inl e \<Rightarrow> Inl e
          | Inr (closure', pending') \<Rightarrow> attest_loop run closure' pending')"
  by pat_completeness auto
termination
proof (relation "measures [\<lambda>(run, closure, pending). card (all_ready_deps run - set (bt_keys closure)),
    \<lambda>(run, closure, pending). length pending]", goal_cases)
  case (2 run closure work_id pending w cp closure' pending')
  let ?D = "all_ready_deps run"
  have fin: "finite ?D" by (simp add: all_ready_deps_def)
  have sub: "set (bt_keys (spec_ready_dependencies (work_spec w))) \<subseteq> ?D"
    using 2(1) by (force simp: all_ready_deps_def dest: bt_mem_get)
  have eq: "attest_deps (spec_ready_dependencies (work_spec w)) closure pending = Inr (closure', pending')"
    using 2 by simp
  show ?case
  proof (cases "closure' = closure \<and> pending' = pending")
    case False
    with attest_deps_progress [OF eq]
    have "set (bt_keys closure) \<subset> set (bt_keys closure')"
      "set (bt_keys closure') \<subseteq> set (bt_keys closure) \<union> set (bt_keys (spec_ready_dependencies (work_spec w)))"
      by blast+
    with sub have "?D - set (bt_keys closure') \<subset> ?D - set (bt_keys closure)" by blast
    then have "card (?D - set (bt_keys closure')) < card (?D - set (bt_keys closure))"
      using fin by (meson finite_Diff psubset_card_mono)
    then show ?thesis by simp
  qed simp
qed simp

definition input_in_force :: "planner_env \<Rightarrow> planner_run \<Rightarrow> string \<Rightarrow> bool" where
  "input_in_force env run i \<longleftrightarrow> bt_has (run_inputs run) i \<and> withdrawal env run i = None"

definition validate_attestation ::
  "planner_env \<Rightarrow> planner_run \<Rightarrow> string \<Rightarrow> string \<Rightarrow> checkpoint \<Rightarrow> selection_attestation \<Rightarrow>
   (planner_error, unit) result" where
  "validate_attestation env run sid i cp a =
     (if sa_session_id a \<noteq> sid \<or> sa_run_revision a \<noteq> run_revision run \<or> sa_release_id a \<noteq> i \<or>
         sa_candidate a \<noteq> cp_revision cp \<or> cp_stage cp \<noteq> Selected \<or>
         bt_get (cp_evidence cp) ''repair-hold'' \<noteq> Some (sa_hold_input_id a) \<or>
         bt_get (cp_evidence cp) ''repair-authority'' \<noteq> Some (sa_human_input_id a) \<or>
         sa_repairs a = [] \<or> sa_allowed a \<noteq> cp_works cp
      then Inl (ReleaseErr ErrAttestationBinding)
      else if \<not> list_all (input_in_force env run) [sa_hold_input_id a, sa_human_input_id a]
      then Inl (ReleaseErr ErrAttestationInput)
      else if \<not> is_some_and (bt_get (run_inputs run) (sa_human_input_id a)) (\<lambda>x. inp_origin x = ''human'')
      then Inl (ReleaseErr ErrAttestationHuman)
      else rbind (attest_loop run (sa_repairs a) (rev (bt_keys (sa_repairs a)))) (\<lambda>closure.
        if closure \<noteq> sa_allowed a then Inl (ReleaseErr ErrAttestedClosure) else Inr ()))"


section \<open>Recording a checkpoint\<close>

fun evidence_key :: "stage \<Rightarrow> string" where
  "evidence_key Selected = ''selection''"
| "evidence_key CandidatePassed = ''candidate-build''"
| "evidence_key StagingDeployed = ''staging-rollout''"
| "evidence_key StagingPassed = ''staging-smoke''"
| "evidence_key ProductionMerged = ''production-pr''"
| "evidence_key ProductionDeployed = ''production-rollout''"
| "evidence_key ProductionPassed = ''production-smoke''"
| "evidence_key Disposed = ''disposition-commit''"
| "evidence_key Failed = ''failure''"
| "evidence_key Abandoned = ''abandonment''"

definition ROUND_LIMIT :: nat where
  "ROUND_LIMIT = 12"

definition waiting_heads :: "planner_run \<Rightarrow> checkpoint \<Rightarrow> string set \<Rightarrow> string list" where
  "waiting_heads run cp carried =
     (let replaced = Option.bind (cp_replaces cp)
            (\<lambda>i. map_option (\<lambda>r. (i, r)) (bt_get (run_releases run) i)) in
      if is_some_and replaced (\<lambda>(_, r). rel_checkpoints r = [] \<or>
           cp_replaces (hd (rel_checkpoints r)) = None)
      then []
      else
        let ready = (\<lambda>(i, revision). integrated_at run i revision \<or>
                       bt_get (cp_works cp) i = Some revision);
            waiting = filter (\<lambda>(i, w). is_some_and (work_finish w) (\<lambda>f.
              finished_revision w (rcp_revision f) \<and> rcp_revision f \<notin> carried \<and>
              \<not> bt_has (cp_works cp) i \<and> \<not> bt_has (cp_evidence cp) (''deferred:'' @ i) \<and>
              \<not> bt_any (\<lambda>other r. (release_active r \<or> is_some_and replaced (\<lambda>(k, _). k = other)) \<and>
                   bt_has (rel_works r) i) (run_releases run) \<and>
              list_all ready (spec_ready_dependencies (work_spec w)))) (run_works run) in
        map snd (sort (map (\<lambda>(i, w). (unwrap_or (work_ready_at_ms w) 0, i)) waiting)))"

definition failed_staging_abandonment :: "release \<Rightarrow> checkpoint \<Rightarrow> bool" where
  "failed_staging_abandonment r cp \<longleftrightarrow>
     release_stage r = Failed \<and> cp_stage cp = Abandoned \<and>
     \<not> list_ex (\<lambda>prior. cp_stage prior = ProductionMerged \<or> cp_stage prior = ProductionDeployed \<or>
          cp_stage prior = ProductionPassed) (rel_checkpoints r)"

text \<open>The only successor of a stage; \<open>None\<close> is the \<open>unreachable!()\<close> arm.\<close>

fun next_stage :: "stage \<Rightarrow> bool \<Rightarrow> stage option" where
  "next_stage Selected _ = Some CandidatePassed"
| "next_stage CandidatePassed _ = Some StagingDeployed"
| "next_stage StagingDeployed _ = Some StagingPassed"
| "next_stage StagingPassed _ = Some ProductionMerged"
| "next_stage ProductionMerged _ = Some ProductionDeployed"
| "next_stage ProductionDeployed _ = Some ProductionPassed"
| "next_stage ProductionPassed _ = Some Disposed"
| "next_stage Failed abandonment = (if abandonment then Some Abandoned else None)"
| "next_stage _ _ = None"

definition push_checkpoint :: "string \<Rightarrow> checkpoint \<Rightarrow> planner_run \<Rightarrow> planner_run" where
  "push_checkpoint i cp run =
     run\<lparr>run_releases := bt_modify i (\<lambda>r. r\<lparr>rel_checkpoints := rel_checkpoints r @ [cp]\<rparr>)
       (run_releases run)\<rparr>"

definition bound_hold :: "release \<Rightarrow> checkpoint \<Rightarrow> string option" where
  "bound_hold r cp =
     (if cp_stage cp = StagingPassed \<and> rel_checkpoints r \<noteq> []
      then bt_get (cp_evidence (hd (rel_checkpoints r))) ''repair-hold'' else None)"

definition lifted_reason :: "string \<Rightarrow> string \<Rightarrow> string" where
  "lifted_reason i revision =
     ''lifted: release '' @ i @ '' recorded STAGING FULL PASS at '' @ revision"

definition advance_release ::
  "planner_env \<Rightarrow> planner_run \<Rightarrow> string \<Rightarrow> checkpoint \<Rightarrow> release \<Rightarrow> (planner_error, planner_run) result"
where
  "advance_release env run i cp r =
     (if rel_checkpoints r \<noteq> [] \<and> last (rel_checkpoints r) = cp then Inr run
      else let abandonment = failed_staging_abandonment r cp in
      if rel_superseded_by r \<noteq> None \<or> release_stage r = Disposed \<or>
         (release_stage r = Failed \<and> \<not> abandonment) \<or> release_stage r = Abandoned
      then Inl (ReleaseErr ErrReleaseClosed)
      else if cp_works cp \<noteq> [] \<or> cp_replaces cp \<noteq> None then Inl (ReleaseErr ErrReleaseFrozen)
      else let abandoning = (cp_stage cp = Abandoned \<and> release_stage r < ProductionMerged) in
      if next_stage (release_stage r) abandonment \<noteq> Some (cp_stage cp) \<and> cp_stage cp \<noteq> Failed \<and>
         \<not> abandoning
      then Inl (ReleaseErr (ErrReleaseOrder
        (unwrap_or (next_stage (release_stage r) abandonment) (cp_stage cp))))
      else if cp_stage cp \<noteq> ProductionMerged \<and> cp_revision cp \<noteq> cp_revision (last (rel_checkpoints r))
      then Inl (ReleaseErr ErrReleaseRevision)
      else if cp_stage cp = ProductionMerged \<and>
         bt_any (\<lambda>other o1. other \<noteq> i \<and> release_active o1 \<and>
            (release_stage o1 = ProductionMerged \<or> release_stage o1 = ProductionDeployed \<or>
             release_stage o1 = Failed)) (run_releases run)
      then Inl (ReleaseErr ErrProductionBusy)
      else if cp_stage cp = Disposed \<and>
         bt_any (\<lambda>work_id revision. \<not> integrated_at run work_id revision) (rel_works r)
      then Inl (ReleaseErr ErrNotDisposable)
      else let run1 = push_checkpoint i cp run in
        Inr (case bound_hold r cp of
               None \<Rightarrow> run1
             | Some hold \<Rightarrow> snd (retire_lifted_hold env hold (lifted_reason i (cp_revision cp)) run1)))"

text \<open>The loop over the selected works; the first refusal in key order is the answer.\<close>

definition dependency_carried :: "planner_run \<Rightarrow> checkpoint \<Rightarrow> string \<Rightarrow> string \<Rightarrow> bool" where
  "dependency_carried run cp dependency source \<longleftrightarrow>
     bt_get (cp_works cp) dependency = Some source \<or> integrated_at run dependency source \<or>
     bt_any (\<lambda>_ o1. rel_superseded_by o1 = None \<and>
        (release_stage o1 = ProductionMerged \<or> release_stage o1 = ProductionDeployed \<or>
         release_stage o1 = ProductionPassed \<or> release_stage o1 = Disposed) \<and>
        bt_get (rel_works o1) dependency = Some source) (run_releases run)"

fun select_works ::
  "planner_run \<Rightarrow> checkpoint \<Rightarrow> (string, string) btree \<Rightarrow> (planner_error, unit) result" where
  "select_works run cp [] = Inr ()"
| "select_works run cp ((work_id, revision) # ws) =
     (if bt_any (\<lambda>other o1. release_active o1 \<and> cp_replaces cp \<noteq> Some other \<and>
           bt_get (rel_works o1) work_id = Some revision) (run_releases run)
      then Inl (ReleaseErr (ErrWorkSelected work_id))
      else case bt_get (run_works run) work_id of
        None \<Rightarrow> Inl (ReleaseErr ErrReleaseUnknownWork)
      | Some w \<Rightarrow>
          (case List.find (\<lambda>(d, source). \<not> dependency_carried run cp d source)
                  (spec_ready_dependencies (work_spec w)) of
             Some (d, source) \<Rightarrow> Inl (ReleaseErr (ErrMissingDependency d source))
           | None \<Rightarrow>
               if \<not> finished_revision w revision then Inl (ReleaseErr (ErrReleaseWorkNotFinished work_id))
               else select_works run cp ws))"

definition select_release ::
  "planner_run \<Rightarrow> string \<Rightarrow> checkpoint \<Rightarrow> string set \<Rightarrow> bool \<Rightarrow> (planner_error, planner_run) result" where
  "select_release run i cp carried held =
     (if cp_stage cp \<noteq> Selected \<or> cp_works cp = [] then Inl (ReleaseErr ErrEmptySelection)
      else if bt_any (\<lambda>other r. release_active r \<and>
             (release_stage r < ProductionMerged \<or> release_stage r = Failed) \<and>
             cp_replaces cp \<noteq> Some other) (run_releases run)
      then Inl (ReleaseErr ErrStagingBusy)
      else rbind (case cp_replaces cp of
             None \<Rightarrow> Inr ()
           | Some previous \<Rightarrow>
               (case bt_get (run_releases run) previous of
                  None \<Rightarrow> Inl (ReleaseErr ErrReplacedMissing)
                | Some r \<Rightarrow>
                    if release_stage r \<noteq> Failed \<or> rel_superseded_by r \<noteq> None
                    then Inl (ReleaseErr ErrReplacedNotFailed) else Inr ())) (\<lambda>_.
        rbind (select_works run cp (cp_works cp)) (\<lambda>_.
          let waiting = waiting_heads run cp carried in
          if \<not> held \<and> length (cp_works cp) < ROUND_LIMIT \<and> waiting \<noteq> []
          then Inl (ReleaseErr (ErrUnderBatched waiting))
          else let releases1 = (case cp_replaces cp of
                      None \<Rightarrow> run_releases run
                    | Some previous \<Rightarrow> bt_modify previous (\<lambda>r. r\<lparr>rel_superseded_by := Some i\<rparr>)
                        (run_releases run)) in
            Inr (run\<lparr>run_releases := bt_insert i
              \<lparr>rel_candidate = cp_revision cp, rel_works = cp_works cp, rel_checkpoints = [cp],
               rel_superseded_by = None\<rparr> releases1\<rparr>))))"

definition record_with_carried ::
  "planner_env \<Rightarrow> planner_run \<Rightarrow> string \<Rightarrow> checkpoint \<Rightarrow> string set \<Rightarrow> bool \<Rightarrow>
   (planner_error, planner_run) result" where
  "record_with_carried env run i cp carried held =
     (if blank i \<or> \<not> full_sha (cp_revision cp) then Inl (ReleaseErr ErrReleaseId)
      else if bt_any (\<lambda>_ v. \<not> valid_evidence v) (cp_evidence cp) \<or>
         \<not> is_some_and (bt_get (cp_evidence cp) (evidence_key (cp_stage cp))) valid_evidence
      then Inl (ReleaseErr (ErrReleaseEvidence (cp_stage cp)))
      else case bt_get (run_releases run) i of
        Some r \<Rightarrow> advance_release env run i cp r
      | None \<Rightarrow> select_release run i cp carried held)"

text \<open>Heads already on the remote staging branch, as the checkout shows them.\<close>

definition carried_heads :: "planner_env \<Rightarrow> planner_run \<Rightarrow> string list" where
  "carried_heads env run =
     (case opt_filter full_sha (env_staging_tip env) of
        None \<Rightarrow> []
      | Some tip \<Rightarrow>
          filter (\<lambda>revision. full_sha revision \<and> env_is_ancestor env revision tip)
            (map rcp_revision (List.map_filter (\<lambda>w. opt_filter (\<lambda>f. finished_revision w (rcp_revision f))
               (work_finish w)) (bt_values (run_works run)))))"

definition record_in_checkout_attested ::
  "planner_env \<Rightarrow> planner_run \<Rightarrow> string \<Rightarrow> checkpoint \<Rightarrow> (string \<times> selection_attestation) option \<Rightarrow>
   (planner_error, planner_run) result" where
  "record_in_checkout_attested env run i cp authority =
     rbind (case authority of
        Some (sid, a) \<Rightarrow> validate_attestation env run sid i cp a
      | None \<Rightarrow> if bt_has (cp_evidence cp) ''repair-hold'' \<and> \<not> bt_has (run_releases run) i
                then Inl (ReleaseErr ErrHoldNeedsAttestation) else Inr ()) (\<lambda>_.
       let carried = (if cp_stage cp = Selected \<and> \<not> bt_has (run_releases run) i
                      then set (carried_heads env run) else {}) in
       record_with_carried env run i cp carried (authority \<noteq> None))"

definition integration_allowed ::
  "planner_run \<Rightarrow> string \<Rightarrow> receipt \<Rightarrow> (planner_error, unit) result" where
  "integration_allowed run work_id receipt =
     (let selected = bt_any (\<lambda>_ r. bt_get (rel_works r) work_id = Some (rcp_revision receipt))
            (run_releases run) in
      case bt_get (rcp_evidence receipt) ''release-round'' of
        None \<Rightarrow> if selected then Inl (ReleaseErr ErrNeedsReleaseRound) else Inr ()
      | Some i \<Rightarrow>
          (case bt_get (run_releases run) i of
             None \<Rightarrow> if selected then Inl (ReleaseErr ErrBypassesRelease) else Inr ()
           | Some r \<Rightarrow>
               if rel_superseded_by r \<noteq> None \<or>
                  \<not> (release_stage r = ProductionPassed \<or> release_stage r = Disposed) \<or>
                  bt_get (rel_works r) work_id \<noteq> Some (rcp_revision receipt)
               then Inl (ReleaseErr ErrReleaseNotPassed) else Inr ()))"

section \<open>The release ledger invariant\<close>

definition stage_step :: "stage \<Rightarrow> stage \<Rightarrow> bool" where
  "stage_step a b \<longleftrightarrow>
     next_stage a False = Some b \<or>
     (b = Failed \<and> a \<noteq> Failed \<and> a \<noteq> Abandoned \<and> a \<noteq> Disposed) \<or>
     (b = Abandoned \<and> (a < ProductionMerged \<or> a = Failed))"

definition history_ok :: "release \<Rightarrow> bool" where
  "history_ok r \<longleftrightarrow>
     (\<exists>c cs. rel_checkpoints r = c # cs \<and> cp_stage c = Selected \<and> cp_works c = rel_works r \<and>
        cp_revision c = rel_candidate r) \<and>
     successively (\<lambda>a b. stage_step (cp_stage a) (cp_stage b) \<and>
        (cp_stage b = ProductionMerged \<or> cp_revision b = cp_revision a)) (rel_checkpoints r) \<and>
     (\<forall>c \<in> set (rel_checkpoints r). full_sha (cp_revision c) \<and>
        is_some_and (bt_get (cp_evidence c) (evidence_key (cp_stage c))) valid_evidence)"

text \<open>A lane holds at most one active release.\<close>

definition lane :: "(stage \<Rightarrow> bool) \<Rightarrow> (string, release) btree \<Rightarrow> bool" where
  "lane p rels \<longleftrightarrow>
     (\<forall>i j r s. bt_get rels i = Some r \<and> bt_get rels j = Some s \<and> release_active r \<and> release_active s \<and>
        p (release_stage r) \<and> p (release_stage s) \<longrightarrow> i = j)"

definition staging_stage :: "stage \<Rightarrow> bool" where
  "staging_stage s \<longleftrightarrow> s < ProductionMerged"

definition production_stage :: "stage \<Rightarrow> bool" where
  "production_stage s \<longleftrightarrow> s = ProductionMerged \<or> s = ProductionDeployed"

definition ledger_ok :: "(string, release) btree \<Rightarrow> bool" where
  "ledger_ok rels \<longleftrightarrow>
     bt_wf rels \<and> (\<forall>i r. bt_get rels i = Some r \<longrightarrow> history_ok r) \<and>
     lane staging_stage rels \<and> lane production_stage rels"

lemma next_stage_cases:
  "next_stage a b = Some c \<Longrightarrow> a \<noteq> Failed \<Longrightarrow> stage_index c = Suc (stage_index a) \<and> c \<noteq> Failed"
  by (cases a) auto

lemma next_stage_flag: "a \<noteq> Failed \<Longrightarrow> next_stage a b = next_stage a False"
  by (cases a) auto

lemma staging_stage_index: "staging_stage s \<longleftrightarrow> stage_index s < 4"
  by (simp add: staging_stage_def less_stage_def)

lemma release_stage_push: "release_stage (r\<lparr>rel_checkpoints := cps @ [cp]\<rparr>) = cp_stage cp"
  by (simp add: release_stage_def)

lemma withdraw_one_frame: "run_releases (withdraw_one env reason k run) = run_releases run"
  by (simp add: withdraw_one_def upd_input_def)

lemma retire_lifted_hold_frame:
  "run_releases (snd (retire_lifted_hold env hold reason run)) = run_releases run"
  "run_works (snd (retire_lifted_hold env hold reason run)) = run_works run"
proof -
  have "run_releases (fold (withdraw_one env reason) ids run) = run_releases run" for ids
    by (induction ids arbitrary: run) (simp_all add: withdraw_one_frame)
  then show "run_releases (snd (retire_lifted_hold env hold reason run)) = run_releases run"
    "run_works (snd (retire_lifted_hold env hold reason run)) = run_works run"
    by (simp_all add: retire_lifted_hold_def withdraw_ids_def Let_def withdraw_fold split: option.split)
qed

text \<open>What an accepted advance did to the ledger.\<close>

lemma advance_release_cases:
  assumes "advance_release env run i cp r = Inr run'"
  obtains (same) "run' = run" "last (rel_checkpoints r) = cp"
  | (pushed) "run_releases run' =
        bt_modify i (\<lambda>r. r\<lparr>rel_checkpoints := rel_checkpoints r @ [cp]\<rparr>) (run_releases run)"
      "run_works run' = run_works run"
      "rel_superseded_by r = None" "cp_works cp = []" "cp_replaces cp = None"
      "stage_step (release_stage r) (cp_stage cp)"
      "cp_stage cp = ProductionMerged \<or> cp_revision cp = cp_revision (last (rel_checkpoints r))"
      "cp_stage cp = ProductionMerged \<Longrightarrow> \<not> bt_any (\<lambda>other o1. other \<noteq> i \<and> release_active o1 \<and>
         (release_stage o1 = ProductionMerged \<or> release_stage o1 = ProductionDeployed \<or>
          release_stage o1 = Failed)) (run_releases run)"
      "cp_stage cp = Disposed \<Longrightarrow> \<not> bt_any (\<lambda>w v. \<not> integrated_at run w v) (rel_works r)"
proof (cases "rel_checkpoints r \<noteq> [] \<and> last (rel_checkpoints r) = cp")
  case True
  with assms same show ?thesis by (simp add: advance_release_def)
next
  case False
  define ab where "ab = failed_staging_abandonment r cp"
  note def = assms [unfolded advance_release_def Let_def ab_def [symmetric]]
  have guards: "rel_superseded_by r = None" "release_stage r \<noteq> Disposed"
    "release_stage r \<noteq> Abandoned" "release_stage r = Failed \<Longrightarrow> ab" "cp_works cp = []" "cp_replaces cp = None"
    "next_stage (release_stage r) ab = Some (cp_stage cp) \<or> cp_stage cp = Failed \<or>
       (cp_stage cp = Abandoned \<and> release_stage r < ProductionMerged)"
    "cp_stage cp = ProductionMerged \<or> cp_revision cp = cp_revision (last (rel_checkpoints r))"
    "cp_stage cp = ProductionMerged \<Longrightarrow> \<not> bt_any (\<lambda>other o1. other \<noteq> i \<and> release_active o1 \<and>
         (release_stage o1 = ProductionMerged \<or> release_stage o1 = ProductionDeployed \<or>
          release_stage o1 = Failed)) (run_releases run)"
    "cp_stage cp = Disposed \<Longrightarrow> \<not> bt_any (\<lambda>w v. \<not> integrated_at run w v) (rel_works r)"
    using def False by simp_all
  have run': "run' = push_checkpoint i cp run \<or>
      (\<exists>hold. run' = snd (retire_lifted_hold env hold (lifted_reason i (cp_revision cp)) (push_checkpoint i cp run)))"
    using def False by (cases "bound_hold r cp") auto
  have "stage_step (release_stage r) (cp_stage cp)"
  proof (cases "release_stage r = Failed")
    case True
    with guards(4) have "cp_stage cp = Abandoned" by (simp add: ab_def failed_staging_abandonment_def)
    with True show ?thesis by (simp add: stage_step_def)
  next
    case nf: False
    with guards(2,3,7) next_stage_flag [OF nf, of ab] show ?thesis by (auto simp: stage_step_def)
  qed
  with guards run' pushed show ?thesis
    by (auto simp: push_checkpoint_def retire_lifted_hold_frame)
qed

text \<open>What an accepted selection did to the ledger.\<close>

lemma select_release_cases:
  assumes "select_release run i cp carried held = Inr run'"
  shows "cp_stage cp = Selected \<and> cp_works cp \<noteq> [] \<and>
    \<not> bt_any (\<lambda>other r. release_active r \<and> (release_stage r < ProductionMerged \<or> release_stage r = Failed) \<and>
       cp_replaces cp \<noteq> Some other) (run_releases run) \<and>
    (\<forall>p. cp_replaces cp = Some p \<longrightarrow> (\<exists>r. bt_get (run_releases run) p = Some r \<and>
       release_stage r = Failed \<and> rel_superseded_by r = None)) \<and>
    select_works run cp (cp_works cp) = Inr () \<and>
    (held \<or> ROUND_LIMIT \<le> length (cp_works cp) \<or> waiting_heads run cp carried = []) \<and>
    run' = run\<lparr>run_releases := bt_insert i
      \<lparr>rel_candidate = cp_revision cp, rel_works = cp_works cp, rel_checkpoints = [cp],
       rel_superseded_by = None\<rparr>
      (case cp_replaces cp of None \<Rightarrow> run_releases run
       | Some p \<Rightarrow> bt_modify p (\<lambda>r. r\<lparr>rel_superseded_by := Some i\<rparr>) (run_releases run))\<rparr>"
  using assms
  by (cases "cp_replaces cp") (auto simp: select_release_def Let_def not_less split: option.splits)

lemma history_ok_push:
  assumes "history_ok r" and "stage_step (release_stage r) (cp_stage cp)"
    and "cp_stage cp = ProductionMerged \<or> cp_revision cp = cp_revision (last (rel_checkpoints r))"
    and "full_sha (cp_revision cp)"
    and "is_some_and (bt_get (cp_evidence cp) (evidence_key (cp_stage cp))) valid_evidence"
  shows "history_ok (r\<lparr>rel_checkpoints := rel_checkpoints r @ [cp]\<rparr>)"
  using assms
  by (auto simp: history_ok_def successively_append_iff release_stage_def)

lemma lane_replace:
  assumes "lane p rels" and "bt_get rels i = Some r"
    and "\<And>k. k \<noteq> i \<Longrightarrow> bt_get rels' k = bt_get rels k" and "bt_get rels' i = Some r'"
    and "release_active r' \<Longrightarrow> p (release_stage r') \<Longrightarrow>
      (release_active r \<and> p (release_stage r)) \<or>
      (\<forall>k s. k \<noteq> i \<longrightarrow> bt_get rels k = Some s \<longrightarrow> release_active s \<longrightarrow> \<not> p (release_stage s))"
  shows "lane p rels'"
  unfolding lane_def
proof (intro allI impI)
  fix a b x y
  assume h: "bt_get rels' a = Some x \<and> bt_get rels' b = Some y \<and> release_active x \<and> release_active y \<and>
    p (release_stage x) \<and> p (release_stage y)"
  show "a = b"
    using h assms unfolding lane_def by (metis option.inject)
qed

lemma ledger_ok_advance:
  assumes ok: "ledger_ok (run_releases run)" and r: "bt_get (run_releases run) i = Some r"
    and adv: "advance_release env run i cp r = Inr run'"
    and sha: "full_sha (cp_revision cp)"
      "is_some_and (bt_get (cp_evidence cp) (evidence_key (cp_stage cp))) valid_evidence"
  shows "ledger_ok (run_releases run')"
  using adv
proof (cases rule: advance_release_cases)
  case same
  then show ?thesis using ok by simp
next
  case pushed
  let ?r = "r\<lparr>rel_checkpoints := rel_checkpoints r @ [cp]\<rparr>"
  have wf: "bt_wf (run_releases run)" using ok by (simp add: ledger_ok_def)
  have act: "release_active r" if "release_active ?r"
    using that pushed(6) by (cases "release_stage r")
      (auto simp: release_active_def release_stage_push stage_step_def pushed(3) less_stage_def)
  have stage: "release_stage ?r = cp_stage cp" by (simp add: release_stage_push)
  have others: "bt_get (run_releases run') k = bt_get (run_releases run) k" if "k \<noteq> i" for k
    using that pushed(1) by simp
  have self: "bt_get (run_releases run') i = Some ?r" using pushed(1) r by simp
  have "lane staging_stage (run_releases run')"
  proof (rule lane_replace [OF _ r others self])
    show "lane staging_stage (run_releases run)" using ok by (simp add: ledger_ok_def)
    assume "release_active ?r" "staging_stage (release_stage ?r)"
    then have "release_active r \<and> staging_stage (release_stage r)"
      using act pushed(6) unfolding stage staging_stage_index stage_step_def
      by (cases "release_stage r"; cases "cp_stage cp") auto
    then show "(release_active r \<and> staging_stage (release_stage r)) \<or>
      (\<forall>k s. k \<noteq> i \<longrightarrow> bt_get (run_releases run) k = Some s \<longrightarrow> release_active s \<longrightarrow> \<not> staging_stage (release_stage s))" ..
  qed
  moreover have "lane production_stage (run_releases run')"
  proof (rule lane_replace [OF _ r others self])
    show "lane production_stage (run_releases run)" using ok by (simp add: ledger_ok_def)
    assume "release_active ?r" and p: "production_stage (release_stage ?r)"
    then have a: "release_active r" using act by blast
    show "(release_active r \<and> production_stage (release_stage r)) \<or>
      (\<forall>k s. k \<noteq> i \<longrightarrow> bt_get (run_releases run) k = Some s \<longrightarrow> release_active s \<longrightarrow> \<not> production_stage (release_stage s))"
    proof (cases "cp_stage cp = ProductionMerged")
      case True
      from pushed(8) [OF this] show ?thesis
        unfolding bt_any_iff [OF wf] by (auto simp: production_stage_def)
    next
      case False
      with p have "cp_stage cp = ProductionDeployed" by (simp add: stage production_stage_def)
      with pushed(6) have "release_stage r = ProductionMerged"
        by (cases "release_stage r") (auto simp: stage_step_def)
      with a show ?thesis by (simp add: production_stage_def)
    qed
  qed
  moreover have "history_ok x" if "bt_get (run_releases run') k = Some x" for k x
  proof (cases "k = i")
    case True
    with that self have x: "x = ?r" by simp
    show ?thesis unfolding x
      by (rule history_ok_push) (use ok r pushed sha in \<open>auto simp: ledger_ok_def\<close>)
  next
    case False
    with that others [OF False] ok show ?thesis by (auto simp: ledger_ok_def)
  qed
  moreover have "bt_wf (run_releases run')" using wf pushed(1) by simp
  ultimately show ?thesis by (simp add: ledger_ok_def)
qed

lemma ledger_ok_select:
  assumes ok: "ledger_ok (run_releases run)" and i: "bt_get (run_releases run) i = None"
    and sel: "select_release run i cp carried held = Inr run'"
    and sha: "full_sha (cp_revision cp)"
      "is_some_and (bt_get (cp_evidence cp) (evidence_key (cp_stage cp))) valid_evidence"
  shows "ledger_ok (run_releases run')"
proof -
  note c = select_release_cases [OF sel]
  have wf: "bt_wf (run_releases run)" using ok by (simp add: ledger_ok_def)
  define new where "new = \<lparr>rel_candidate = cp_revision cp, rel_works = cp_works cp, rel_checkpoints = [cp],
       rel_superseded_by = None\<rparr>"
  have new_stage: "release_stage new = Selected" using c by (simp add: new_def release_stage_def)
  have get: "bt_get (run_releases run') k = (if k = i then Some new
      else if cp_replaces cp = Some k
      then map_option (\<lambda>r. r\<lparr>rel_superseded_by := Some i\<rparr>) (bt_get (run_releases run) k)
      else bt_get (run_releases run) k)" for k
    using c by (auto simp: new_def split: option.splits)
  have old: "bt_get (run_releases run) k = Some x \<and> cp_replaces cp \<noteq> Some k"
    if "bt_get (run_releases run') k = Some x" "k \<noteq> i" "release_active x" for k x
    using that by (auto simp: get release_active_def split: if_splits)
  have free: "\<not> staging_stage (release_stage x)"
    if "bt_get (run_releases run') k = Some x" "k \<noteq> i" "release_active x" for k x
    using old [OF that] c that(3) unfolding bt_any_iff [OF wf] by (auto simp: staging_stage_def)
  have "lane staging_stage (run_releases run')"
    unfolding lane_def using free by blast
  moreover have "lane production_stage (run_releases run')"
  proof -
    have "\<not> production_stage (release_stage new)" by (simp add: new_stage production_stage_def)
    then have "k \<noteq> i" if "bt_get (run_releases run') k = Some x" "production_stage (release_stage x)" for k x
      using that by (auto simp: get)
    moreover have "lane production_stage (run_releases run)" using ok by (simp add: ledger_ok_def)
    ultimately show ?thesis unfolding lane_def using old by metis
  qed
  moreover have "history_ok x" if "bt_get (run_releases run') k = Some x" for k x
  proof -
    have "history_ok new" using c sha by (simp add: history_ok_def new_def)
    moreover have "history_ok (r\<lparr>rel_superseded_by := Some i\<rparr>) = history_ok r" for r
      by (simp add: history_ok_def)
    ultimately show ?thesis using that ok
      by (auto simp: get ledger_ok_def split: if_splits)
  qed
  moreover have "bt_wf (run_releases run')" using wf c by (auto split: option.splits)
  ultimately show ?thesis by (simp add: ledger_ok_def)
qed

lemma ledger_ok_record:
  assumes "record_in_checkout_attested env run i cp authority = Inr run'"
    and "ledger_ok (run_releases run)"
  shows "ledger_ok (run_releases run')"
proof -
  obtain carried held where rec: "record_with_carried env run i cp carried held = Inr run'"
    using assms(1) by (auto simp: record_in_checkout_attested_def Let_def)
  then have sha: "full_sha (cp_revision cp)"
    "is_some_and (bt_get (cp_evidence cp) (evidence_key (cp_stage cp))) valid_evidence"
    by (simp_all add: record_with_carried_def)
  show ?thesis
  proof (cases "bt_get (run_releases run) i")
    case None
    with rec have "select_release run i cp carried held = Inr run'" by (simp add: record_with_carried_def)
    from ledger_ok_select [OF assms(2) None this sha] show ?thesis .
  next
    case (Some r)
    with rec have "advance_release env run i cp r = Inr run'" by (simp add: record_with_carried_def)
    from ledger_ok_advance [OF assms(2) Some this sha] show ?thesis .
  qed
qed

text \<open>
  C4. Every accepted checkpoint keeps the release ledger sound: each release starts with
  its frozen selection, moves only along the allowed stages with a full revision and the
  stage's own evidence, changes revision only at the production merge; and at every moment
  at most one active release is in the staging lane and at most one is deploying to
  production.
\<close>

theorem release_ledger_invariant:
  assumes "record_in_checkout_attested env run i cp authority = Inr run'"
    and "ledger_ok (run_releases run)"
  shows "ledger_ok (run_releases run') \<and>
    (\<forall>a b r s. bt_get (run_releases run') a = Some r \<and> bt_get (run_releases run') b = Some s \<and>
       release_active r \<and> release_active s \<and> release_stage r < ProductionMerged \<and>
       release_stage s < ProductionMerged \<longrightarrow> a = b) \<and>
    (\<forall>a b r s. bt_get (run_releases run') a = Some r \<and> bt_get (run_releases run') b = Some s \<and>
       release_active r \<and> release_active s \<and>
       release_stage r \<in> {ProductionMerged, ProductionDeployed} \<and>
       release_stage s \<in> {ProductionMerged, ProductionDeployed} \<longrightarrow> a = b)"
  using ledger_ok_record [OF assms]
  by (auto simp: ledger_ok_def lane_def staging_stage_def production_stage_def)

definition sample_finished :: work where
  "sample_finished =
     (sample_work ''w1'')\<lparr>work_status := Finished, work_workspace := Some sample_workspace,
       work_attempt := Some (sample_attempt ''a1'' True),
       work_artifact := Some \<lparr>art_revision = sample_sha, art_changed_paths = [''f''],
         art_checks = [(''unit'', ''pass'')], art_evidence = [''log''], art_unresolved = [],
         art_integration_requirements = []\<rparr>,
       work_review := Some \<lparr>rev_revision = sample_sha, rev_accepted = True, rev_evidence = [''r''],
         rev_corrections = None\<rparr>,
       work_finish := Some \<lparr>rcp_revision = sample_sha, rcp_evidence = [(''build'', ''log'')]\<rparr>\<rparr>"

definition sample_selection :: checkpoint where
  "sample_selection =
     \<lparr>cp_stage = Selected, cp_revision = sample_sha, cp_works = [(''w1'', sample_sha)],
      cp_replaces = None, cp_evidence = [(''selection'', ''manifest'')]\<rparr>"

theorem release_ledger_invariant_witness:
  "\<exists>run'. record_in_checkout_attested sample_env (sample_run [(''w1'', sample_finished)]) ''r1''
      sample_selection None = Inr run' \<and> run_releases run' \<noteq> [] \<and> ledger_ok (run_releases run')"
proof -
  have "case record_in_checkout_attested sample_env (sample_run [(''w1'', sample_finished)]) ''r1''
      sample_selection None of Inl _ \<Rightarrow> False | Inr run' \<Rightarrow> run_releases run' \<noteq> []"
    by code_simp
  then obtain run' where r: "record_in_checkout_attested sample_env (sample_run [(''w1'', sample_finished)])
      ''r1'' sample_selection None = Inr run'" "run_releases run' \<noteq> []"
    by (auto split: sum.splits)
  have "ledger_ok (run_releases (sample_run [(''w1'', sample_finished)]))"
    by (simp add: sample_run_def ledger_ok_def lane_def)
  from release_ledger_invariant [OF r(1) this] r show ?thesis by blast
qed

definition release_path :: "stage list" where
  "release_path = [Selected, CandidatePassed, StagingDeployed, StagingPassed, ProductionMerged,
     ProductionDeployed, ProductionPassed, Disposed]"

lemma release_path_snoc:
  "stage_step a b \<Longrightarrow> b \<noteq> Failed \<Longrightarrow> b \<noteq> Abandoned \<Longrightarrow>
   take (Suc (stage_index b)) release_path = take (Suc (stage_index a)) release_path @ [b] \<and>
   a \<noteq> Failed \<and> a \<noteq> Abandoned"
  by (cases a; cases b) (simp_all add: stage_step_def release_path_def)

lemma history_path:
  assumes "cps \<noteq> []" and "cp_stage (hd cps) = Selected"
    and "successively (\<lambda>a b. stage_step (cp_stage a) (cp_stage b) \<and> Q a b) cps"
    and "cp_stage (last cps) \<noteq> Failed" and "cp_stage (last cps) \<noteq> Abandoned"
  shows "map cp_stage cps = take (Suc (stage_index (cp_stage (last cps)))) release_path"
  using assms
proof (induction cps rule: rev_induct)
  case (snoc c cs)
  show ?case
  proof (cases "cs = []")
    case True
    with snoc.prems show ?thesis by (simp add: release_path_def)
  next
    case False
    with snoc.prems have "stage_step (cp_stage (last cs)) (cp_stage c)"
      by (simp add: successively_append_iff)
    from release_path_snoc [OF this] snoc.prems False snoc.IH show ?thesis
      by (auto simp: successively_append_iff)
  qed
qed simp

text \<open>
  No stage is skipped on the way to production: the checkpoints of a release that is
  neither failed nor abandoned are exactly the prefix of the release path that ends at its
  stage, in order, each with a full revision and that stage's own valid evidence, and all
  checkpoints before the production merge carry the selected candidate's revision.
\<close>

lemma release_stages_in_order:
  assumes "ledger_ok rels" and "bt_get rels i = Some r"
    and "release_stage r \<noteq> Failed" and "release_stage r \<noteq> Abandoned"
  shows "map cp_stage (rel_checkpoints r) = take (Suc (stage_index (release_stage r))) release_path \<and>
    (\<forall>c \<in> set (rel_checkpoints r). full_sha (cp_revision c) \<and>
       is_some_and (bt_get (cp_evidence c) (evidence_key (cp_stage c))) valid_evidence) \<and>
    (\<forall>n < length (rel_checkpoints r). n < 4 \<longrightarrow> cp_revision (rel_checkpoints r ! n) = rel_candidate r)"
proof -
  have h: "history_ok r" using assms(1,2) by (auto simp: ledger_ok_def)
  then obtain c cs where cps: "rel_checkpoints r = c # cs" "cp_stage c = Selected" "cp_revision c = rel_candidate r"
    by (auto simp: history_ok_def)
  have step: "successively (\<lambda>a b. stage_step (cp_stage a) (cp_stage b) \<and>
        (cp_stage b = ProductionMerged \<or> cp_revision b = cp_revision a)) (rel_checkpoints r)"
    using h by (simp add: history_ok_def)
  have path: "map cp_stage (rel_checkpoints r) = take (Suc (stage_index (release_stage r))) release_path"
    using history_path [of "rel_checkpoints r"] step assms(3,4) cps
    by (simp add: release_stage_def)
  have rev: "cp_revision (rel_checkpoints r ! n) = rel_candidate r"
    if "n < length (rel_checkpoints r)" "n < 4" for n
    using that
  proof (induction n)
    case 0
    then show ?case using cps by simp
  next
    case (Suc n)
    have "cp_stage (rel_checkpoints r ! Suc n) = release_path ! Suc n"
      using path Suc.prems by (metis length_map length_take min_less_iff_conj nth_map nth_take)
    moreover have "Suc n = 1 \<or> Suc n = 2 \<or> Suc n = 3" using Suc.prems by linarith
    ultimately have "cp_stage (rel_checkpoints r ! Suc n) \<noteq> ProductionMerged"
      by (auto simp: release_path_def)
    then show ?case
      using step Suc by (auto simp: successively_conv_nth)
  qed
  with path h show ?thesis by (auto simp: history_ok_def)
qed

definition sample_release :: release where
  "sample_release = \<lparr>rel_candidate = sample_sha, rel_works = [(''w1'', sample_sha)],
     rel_checkpoints = [sample_selection], rel_superseded_by = None\<rparr>"

lemma sample_ledger: "ledger_ok [(''r1'', sample_release)]"
proof -
  have "full_sha sample_sha" "valid_evidence ''manifest''" by code_simp+
  then show ?thesis
    by (simp add: ledger_ok_def lane_def history_ok_def sample_release_def sample_selection_def bt_wf_def)
qed

text \<open>
  A selection is frozen: whatever checkpoint is recorded, an existing release keeps its
  works and its candidate and only appends to its checkpoints, no release disappears, and
  the works of the run do not change.
\<close>

lemma release_selection_frozen:
  assumes "record_in_checkout_attested env run i cp authority = Inr run'"
    and "bt_get (run_releases run) j = Some r"
  shows "run_works run' = run_works run \<and>
    (\<exists>r' tail. bt_get (run_releases run') j = Some r' \<and> rel_works r' = rel_works r \<and>
       rel_candidate r' = rel_candidate r \<and> rel_checkpoints r' = rel_checkpoints r @ tail)"
proof -
  obtain carried held where rec: "record_with_carried env run i cp carried held = Inr run'"
    using assms(1) by (auto simp: record_in_checkout_attested_def Let_def)
  show ?thesis
  proof (cases "bt_get (run_releases run) i")
    case None
    with rec have "select_release run i cp carried held = Inr run'" by (simp add: record_with_carried_def)
    note c = select_release_cases [OF this]
    have "j \<noteq> i" using None assms(2) by auto
    with c assms(2) show ?thesis by (auto split: option.splits)
  next
    case (Some q)
    with rec have "advance_release env run i cp q = Inr run'" by (simp add: record_with_carried_def)
    then show ?thesis
    proof (cases rule: advance_release_cases)
      case same
      then show ?thesis using assms(2) by simp
    next
      case pushed
      then show ?thesis using assms(2) by auto
    qed
  qed
qed

section \<open>Attested selections are dependency closures\<close>

text \<open>The reviewed sources a set of repairs needs, as a relation.\<close>

inductive needs :: "planner_run \<Rightarrow> (string, string) btree \<Rightarrow> string \<Rightarrow> string \<Rightarrow> bool"
  for run :: planner_run and repairs :: "(string, string) btree" where
  repair: "bt_get repairs i = Some revision \<Longrightarrow> needs run repairs i revision"
| dependency: "needs run repairs i revision \<Longrightarrow> bt_get (run_works run) i = Some w \<Longrightarrow>
     (d, source) \<in> set (spec_ready_dependencies (work_spec w)) \<Longrightarrow> needs run repairs d source"

definition settled :: "planner_run \<Rightarrow> (string, string) btree \<Rightarrow> string \<Rightarrow> bool" where
  "settled run closure i \<longleftrightarrow>
     (\<exists>w. bt_get (run_works run) i = Some w \<and> is_some_and (bt_get closure i) (finished_revision w) \<and>
        (\<forall>(d, source) \<in> set (spec_ready_dependencies (work_spec w)). bt_get closure d = Some source))"

definition attest_loop_inv ::
  "planner_run \<Rightarrow> (string, string) btree \<Rightarrow> (string, string) btree \<Rightarrow> string list \<Rightarrow> bool" where
  "attest_loop_inv run repairs closure pending \<longleftrightarrow>
     (\<forall>i v. bt_get repairs i = Some v \<longrightarrow> bt_get closure i = Some v) \<and>
     (\<forall>i v. bt_get closure i = Some v \<longrightarrow> needs run repairs i v) \<and>
     (\<forall>i \<in> set pending. bt_get closure i \<noteq> None) \<and>
     (\<forall>i. bt_get closure i \<noteq> None \<longrightarrow> i \<in> set pending \<or> settled run closure i)"

lemma attest_deps_result:
  assumes "attest_deps deps closure pending = Inr (closure', pending')"
  shows "(\<forall>i v. bt_get closure i = Some v \<longrightarrow> bt_get closure' i = Some v) \<and>
    (\<forall>(d, source) \<in> set deps. bt_get closure' d = Some source) \<and>
    (\<forall>i v. bt_get closure' i = Some v \<longrightarrow> bt_get closure i = Some v \<or> (i, v) \<in> set deps) \<and>
    set pending \<subseteq> set pending' \<and>
    (\<forall>i \<in> set pending'. i \<in> set pending \<or> bt_get closure' i \<noteq> None) \<and>
    (\<forall>i. bt_get closure' i \<noteq> None \<longrightarrow> bt_get closure i \<noteq> None \<or> i \<in> set pending')"
  using assms
proof (induction deps closure pending rule: attest_deps.induct)
  case (2 d source deps closure pending)
  show ?case
  proof (cases "bt_get closure d")
    case None
    note ih = "2.IH"(1) [OF None]
    have "attest_deps deps (bt_insert d source closure) (d # pending) = Inr (closure', pending')"
      using "2.prems" None by simp
    from ih [OF this] None show ?thesis
      by (auto split: if_splits) (metis option.distinct(1) option.inject)+
  next
    case (Some e)
    with "2.prems" have e: "e = source" and d: "attest_deps deps closure pending = Inr (closure', pending')"
      by simp_all
    from "2.IH"(2) [OF Some _ d] e Some show ?thesis by auto
  qed
qed simp

lemma attest_loop_result:
  assumes "attest_loop run closure pending = Inr result" and "attest_loop_inv run repairs closure pending"
  shows "attest_loop_inv run repairs result []"
  using assms
proof (induction run closure pending rule: attest_loop.induct)
  case (2 run closure i pending)
  obtain w where w: "bt_get (run_works run) i = Some w"
    and fin: "is_some_and (bt_get closure i) (finished_revision w)"
    using "2.prems"(1) by (auto split: option.splits)
  obtain closure' pending' where
    deps: "attest_deps (spec_ready_dependencies (work_spec w)) closure pending = Inr (closure', pending')"
    and rest: "attest_loop run closure' pending' = Inr result"
    using "2.prems"(1) w fin by (auto split: sum.splits)
  note res = attest_deps_result [OF deps] and inv = "2.prems"(2) [unfolded attest_loop_inv_def]
  obtain v where v: "bt_get closure i = Some v" using fin by (auto simp: is_some_and_iff)
  have mono: "settled run closure' k" if "settled run closure k" for k
    using that res by (fastforce simp: settled_def is_some_and_iff)
  have si: "settled run closure' i"
    using w v fin res by (auto simp: settled_def is_some_and_iff)
  have nd: "needs run repairs d source" if "(d, source) \<in> set (spec_ready_dependencies (work_spec w))" for d source
    using needs.dependency [OF _ w that] inv v by blast
  have "attest_loop_inv run repairs closure' pending'"
    unfolding attest_loop_inv_def
  proof (intro conjI allI impI ballI)
    show "bt_get closure' k = Some x" if "bt_get repairs k = Some x" for k x
      using that inv res by blast
    show "needs run repairs k x" if "bt_get closure' k = Some x" for k x
      using that inv res nd by blast
    show "bt_get closure' k \<noteq> None" if "k \<in> set pending'" for k
    proof -
      from that res have "k \<in> set pending \<or> bt_get closure' k \<noteq> None" by blast
      then show ?thesis using inv res by (metis list.set_intros(2) not_None_eq)
    qed
    show "k \<in> set pending' \<or> settled run closure' k" if "bt_get closure' k \<noteq> None" for k
    proof (cases "bt_get closure k = None")
      case True
      with that res show ?thesis by blast
    next
      case False
      with inv have "k \<in> set (i # pending) \<or> settled run closure k" by blast
      then show ?thesis using res mono si by auto
    qed
  qed
  from "2.IH" [OF w _ deps] fin rest this show ?case by simp
qed simp

text \<open>
  C24. An accepted repair attestation names exactly the reviewed dependency closure of its
  repairs: its allowed works are the pairs reachable from the repairs over the works'
  reviewed source dependencies, each one is finished at that exact revision, and it binds
  this run revision, this release, this candidate and a human input still in force. The
  closure loop always terminates.
\<close>

theorem attested_selection_is_closure:
  assumes "validate_attestation env run sid i cp a = Inr ()"
  shows "(\<forall>k v. bt_get (cp_works cp) k = Some v \<longleftrightarrow> needs run (sa_repairs a) k v) \<and>
    (\<forall>k v. bt_get (cp_works cp) k = Some v \<longrightarrow>
       (\<exists>w. bt_get (run_works run) k = Some w \<and> finished_revision w v)) \<and>
    sa_session_id a = sid \<and> sa_run_revision a = run_revision run \<and> sa_release_id a = i \<and>
    sa_candidate a = cp_revision cp \<and> cp_stage cp = Selected \<and>
    (\<exists>x. bt_get (run_inputs run) (sa_human_input_id a) = Some x \<and> inp_origin x = ''human'' \<and>
       withdrawal env run (sa_human_input_id a) = None)"
proof -
  note v = assms(1) [unfolded validate_attestation_def]
  have works: "cp_works cp = sa_allowed a" using v by simp
  have loop: "attest_loop run (sa_repairs a) (rev (bt_keys (sa_repairs a))) = Inr (cp_works cp)"
    using v by auto
  have "attest_loop_inv run (sa_repairs a) (sa_repairs a) (rev (bt_keys (sa_repairs a)))"
    by (auto simp: attest_loop_inv_def map_of_eq_None_iff intro: needs.repair)
  from attest_loop_result [OF loop this]
  have inv: "\<And>k v. bt_get (sa_repairs a) k = Some v \<Longrightarrow> bt_get (cp_works cp) k = Some v"
    "\<And>k v. bt_get (cp_works cp) k = Some v \<Longrightarrow> needs run (sa_repairs a) k v"
    "\<And>k. bt_get (cp_works cp) k \<noteq> None \<Longrightarrow> settled run (cp_works cp) k"
    by (auto simp: attest_loop_inv_def)
  have "bt_get (cp_works cp) k = Some x" if "needs run (sa_repairs a) k x" for k x
    using that
  proof induction
    case (dependency k x w d source)
    then have "settled run (cp_works cp) k" using inv(3) by auto
    with dependency show ?case by (auto simp: settled_def)
  qed (rule inv(1))
  moreover have "\<exists>w. bt_get (run_works run) k = Some w \<and> finished_revision w x"
    if "bt_get (cp_works cp) k = Some x" for k x
    using inv(3) [of k] that by (auto simp: settled_def)
  moreover have "sa_session_id a = sid \<and> sa_run_revision a = run_revision run \<and> sa_release_id a = i \<and>
    sa_candidate a = cp_revision cp \<and> cp_stage cp = Selected"
    using v by simp
  moreover have "input_in_force env run (sa_human_input_id a)"
    "is_some_and (bt_get (run_inputs run) (sa_human_input_id a)) (\<lambda>x. inp_origin x = ''human'')"
    using v by simp_all
  then have "\<exists>x. bt_get (run_inputs run) (sa_human_input_id a) = Some x \<and> inp_origin x = ''human'' \<and>
       withdrawal env run (sa_human_input_id a) = None"
    by (auto simp: input_in_force_def is_some_and_iff)
  ultimately show ?thesis using inv(2) by blast
qed

definition sample_attestation :: selection_attestation where
  "sample_attestation =
     \<lparr>sa_session_id = ''s'', sa_run_revision = 4, sa_release_id = ''r1'', sa_candidate = sample_sha,
      sa_hold_input_id = ''repair-hold:x:1'', sa_human_input_id = ''in-1'',
      sa_repairs = [(''w1'', sample_sha)], sa_allowed = [(''w1'', sample_sha)]\<rparr>"

definition sample_repair_run :: planner_run where
  "sample_repair_run =
     (sample_run [(''w1'', sample_finished)])\<lparr>run_inputs :=
       [(''in-1'', new_receipt sample_request), (''repair-hold:x:1'', new_receipt sample_request)]\<rparr>"

definition sample_repair :: checkpoint where
  "sample_repair =
     sample_selection\<lparr>cp_evidence := [(''repair-authority'', ''in-1''),
       (''repair-hold'', ''repair-hold:x:1''), (''selection'', ''manifest'')]\<rparr>"

theorem attested_selection_is_closure_witness:
  "validate_attestation sample_env sample_repair_run ''s'' ''r1'' sample_repair sample_attestation = Inr () \<and>
   needs sample_repair_run [(''w1'', sample_sha)] ''w1'' sample_sha"
proof -
  have "is_ok (validate_attestation sample_env sample_repair_run ''s'' ''r1'' sample_repair sample_attestation)"
    by code_simp
  then have v: "validate_attestation sample_env sample_repair_run ''s'' ''r1'' sample_repair sample_attestation = Inr ()"
    by (metis (full_types) is_ok.elims(2) old.unit.exhaust)
  have "bt_get (cp_works sample_repair) ''w1'' = Some sample_sha" "sa_repairs sample_attestation = [(''w1'', sample_sha)]"
    by (simp_all add: sample_attestation_def sample_repair_def sample_selection_def)
  with attested_selection_is_closure [OF v] v show ?thesis by metis
qed

section \<open>Selection and integration gates\<close>

lemma select_works_all:
  "select_works run cp ws = Inr u \<Longrightarrow> (k, v) \<in> set ws \<Longrightarrow>
     (\<exists>w. bt_get (run_works run) k = Some w \<and> finished_revision w v \<and>
        (\<forall>(d, source) \<in> set (spec_ready_dependencies (work_spec w)). dependency_carried run cp d source)) \<and>
     \<not> bt_any (\<lambda>other o1. release_active o1 \<and> cp_replaces cp \<noteq> Some other \<and>
         bt_get (rel_works o1) k = Some v) (run_releases run)"
  by (induction run cp ws rule: select_works.induct)
    (fastforce simp: find_None_iff split: option.splits)+

text \<open>
  What a new release selects is qualified: each selected work is accepted, finished,
  checked and no longer worked on at exactly the selected revision, every reviewed source it
  depends on is in the same selection, integrated, or ahead of it in production, no other
  active release holds the same head, the staging lane was free but for the failed release
  it replaces, and without an attestation a small round leaves no releasable head behind.
\<close>

lemma release_selection_qualified:
  assumes "record_in_checkout_attested env run i cp authority = Inr run'"
    and "bt_get (run_releases run) i = None" and "bt_wf (run_releases run)"
  shows "(\<forall>(k, v) \<in> set (cp_works cp).
      (\<exists>w. bt_get (run_works run) k = Some w \<and> finished_revision w v \<and>
         (\<forall>(d, source) \<in> set (spec_ready_dependencies (work_spec w)). dependency_carried run cp d source)) \<and>
      (\<forall>other r. bt_get (run_releases run) other = Some r \<and> release_active r \<and>
         cp_replaces cp \<noteq> Some other \<longrightarrow> bt_get (rel_works r) k \<noteq> Some v)) \<and>
    (\<forall>other r. bt_get (run_releases run) other = Some r \<and> release_active r \<and>
       (release_stage r < ProductionMerged \<or> release_stage r = Failed) \<longrightarrow>
       cp_replaces cp = Some other \<and> release_stage r = Failed) \<and>
    (authority = None \<and> length (cp_works cp) < 12 \<longrightarrow>
       waiting_heads run cp (set (carried_heads env run)) = [])"
proof -
  have rec: "record_with_carried env run i cp
      (if cp_stage cp = Selected then set (carried_heads env run) else {}) (authority \<noteq> None) = Inr run'"
    using assms(1,2) by (auto simp: record_in_checkout_attested_def Let_def)
  then have "select_release run i cp
      (if cp_stage cp = Selected then set (carried_heads env run) else {}) (authority \<noteq> None) = Inr run'"
    using assms(2) by (simp add: record_with_carried_def)
  note c = select_release_cases [OF this]
  have sel: "select_works run cp (cp_works cp) = Inr ()" using c by blast
  have lane: "cp_replaces cp = Some other \<and> release_stage r = Failed"
    if "bt_get (run_releases run) other = Some r \<and> release_active r \<and>
       (release_stage r < ProductionMerged \<or> release_stage r = Failed)" for other r
    using c that unfolding bt_any_iff [OF assms(3)] by fastforce
  have works: "(\<exists>w. bt_get (run_works run) k = Some w \<and> finished_revision w v \<and>
         (\<forall>(d, source) \<in> set (spec_ready_dependencies (work_spec w)). dependency_carried run cp d source)) \<and>
      (\<forall>other r. bt_get (run_releases run) other = Some r \<and> release_active r \<and>
         cp_replaces cp \<noteq> Some other \<longrightarrow> bt_get (rel_works r) k \<noteq> Some v)"
    if "(k, v) \<in> set (cp_works cp)" for k v
    using select_works_all [OF sel that] unfolding bt_any_iff [OF assms(3)] by blast
  have "waiting_heads run cp (set (carried_heads env run)) = []"
    if "authority = None" "length (cp_works cp) < 12"
    using c that by (auto simp: ROUND_LIMIT_def)
  with works lane show ?thesis by blast
qed

text \<open>
  Integration cannot bypass a release: once a work's revision was ever selected into a
  release, an integration receipt is allowed only if it names a release that selected this
  very revision, was not superseded and recorded its production pass.
\<close>

lemma integration_needs_production_pass:
  assumes "integration_allowed run work_id receipt = Inr ()" and "bt_wf (run_releases run)"
    and "bt_get (run_releases run) j = Some q" and "bt_get (rel_works q) work_id = Some (rcp_revision receipt)"
  shows "\<exists>i r. bt_get (rcp_evidence receipt) ''release-round'' = Some i \<and>
    bt_get (run_releases run) i = Some r \<and> bt_get (rel_works r) work_id = Some (rcp_revision receipt) \<and>
    rel_superseded_by r = None \<and> (release_stage r = ProductionPassed \<or> release_stage r = Disposed)"
proof -
  have "bt_any (\<lambda>_ r. bt_get (rel_works r) work_id = Some (rcp_revision receipt)) (run_releases run)"
    using assms(2-4) by (auto simp: bt_any_iff)
  with assms(1) show ?thesis
    by (auto simp: integration_allowed_def Let_def split: option.splits)
qed

end
