(* ===== verification/Planner_Workflow.thy ===== *)
theory Planner_Workflow
  imports Planner_Release
begin

text \<open>
  The planner tool (\<open>planner_workflow.rs\<close>, \<open>operate_once\<close>): one definition per operation,
  composed with the guards that stand before them, the idempotency receipts and the actor's
  authority. An operation takes the environment, the stored run and its arguments, and
  returns the refusal or the run to save with the role the parent plays next.
\<close>

section \<open>Guards\<close>

definition validate_work_spec :: "work_spec \<Rightarrow> (planner_error, unit) result" where
  "validate_work_spec spec =
     (if is_some_and (spec_completion_contract_version spec) (\<lambda>v. \<not> (v = 1 \<or> v = 2))
      then Inl (WorkErr (ErrContractVersion (spec_completion_contract_version spec))) else Inr ())"

definition require_worker ::
  "planner_env \<Rightarrow> planner_run \<Rightarrow> string \<Rightarrow> string \<Rightarrow> worker_identity option \<Rightarrow> (planner_error, work) result"
where
  "require_worker env run work_id attempt_id actor =
     rbind (ok_or actor (WorkErr ErrNotAssignedChild)) (\<lambda>a.
       if wi_work_id a \<noteq> work_id \<or> wi_attempt_id a \<noteq> attempt_id then Inl (WorkErr ErrWrongAssignment)
       else rbind (ok_or (bt_get (run_works run) work_id) (WorkErr ErrUnknownWork)) (\<lambda>w.
         rbind (ok_or (work_attempt w) (WorkErr ErrNoAttempt)) (\<lambda>att.
           if att_id att \<noteq> attempt_id \<or> att_ended att \<or>
              (att_router_pid att, att_router_started_at_ms att) \<noteq> env_identity env
           then Inl (WorkErr ErrAttemptFenced) else Inr w)))"

definition put_work :: "work \<Rightarrow> planner_run \<Rightarrow> planner_run" where
  "put_work w run = run\<lparr>run_works := bt_insert (spec_work_id (work_spec w)) w (run_works run)\<rparr>"

definition upd_work :: "string \<Rightarrow> (work \<Rightarrow> work) \<Rightarrow> planner_run \<Rightarrow> planner_run" where
  "upd_work i f run = run\<lparr>run_works := bt_modify i f (run_works run)\<rparr>"

definition drop_resume :: "string \<Rightarrow> planner_run \<Rightarrow> planner_run" where
  "drop_resume i run = upd_capacity (\<lambda>c. c\<lparr>cap_resumes := bt_remove i (cap_resumes c)\<rparr>) run"

definition no_evidence :: "(string, string) btree \<Rightarrow> bool" where
  "no_evidence ev \<longleftrightarrow> ev = [] \<or> bt_any (\<lambda>_ v. \<not> valid_evidence v) ev"

definition path_escapes :: "string \<Rightarrow> bool" where
  "path_escapes p \<longleftrightarrow> starts_with p ''/'' \<or> List.member (split_on (\<lambda>c. c = CHR ''/'') p) ''..''"

definition in_any_release :: "planner_run \<Rightarrow> string \<Rightarrow> bool" where
  "in_any_release run work_id = bt_any (\<lambda>_ r. bt_has (rel_works r) work_id) (run_releases run)"

definition depends_on_itself :: "work_spec \<Rightarrow> bool" where
  "depends_on_itself spec \<longleftrightarrow>
     List.member (spec_dependencies spec) (spec_work_id spec) \<or>
     bt_has (spec_ready_dependencies spec) (spec_work_id spec)"

section \<open>Retire and reconcile\<close>

definition op_retire ::
  "planner_env \<Rightarrow> operation \<Rightarrow> string \<Rightarrow> string \<Rightarrow> (string, string) btree \<Rightarrow> planner_run \<Rightarrow>
   (planner_error, planner_run) result" where
  "op_retire env op work_id reason evidence run =
     (if env_integrate_host env = None then Inl (WorkErr ErrRetireNoHost)
      else rbind (ok_or (bt_get (run_works run) work_id) (WorkErr ErrUnknownWork)) (\<lambda>w.
        if blank reason \<or> evidence = [] \<or> attempt_live w \<or>
           work_status w = Integrated \<or> work_status w = Finished \<or> in_any_release run work_id
        then Inl (WorkErr ErrRetireRefused)
        else rbind (integrate_check env (CheckAssignment op w)) (\<lambda>_.
          let run1 = drop_resume work_id (upd_work work_id (\<lambda>x. x\<lparr>work_status := Retired,
                work_reason := Some reason, work_paused := True,
                work_reconciliation := (work_reconciliation x)\<lparr>rc_required := False\<rparr>\<rparr>) run) in
          Inr (run1\<lparr>run_wakes := bt_map (\<lambda>_ wk. if wake_work_id wk = work_id
            then wk\<lparr>wake_acknowledged := True\<rparr> else wk) (run_wakes run1)\<rparr>))))"

definition terminal_correction :: "work \<Rightarrow> bool" where
  "terminal_correction existing \<longleftrightarrow>
     spec_completion_contract_version (work_spec existing) = Some 2 \<and>
     (work_status existing = Finished \<or> work_status existing = Integrated)"

definition check_reconcile ::
  "planner_env \<Rightarrow> planner_run \<Rightarrow> work_spec \<Rightarrow> string list \<Rightarrow> work \<Rightarrow> (planner_error, unit) result" where
  "check_reconcile env run spec evidence existing =
     (let correction = terminal_correction existing in
      if run_execution_request run = None \<or> spec_plan_id spec \<noteq> spec_plan_id (work_spec existing) \<or>
         blank (spec_scope spec) \<or> evidence = [] \<or> list_ex blank evidence
      then Inl (WorkErr ErrReconcileIncomplete)
      else if spec_completion_contract_version spec \<noteq>
              spec_completion_contract_version (work_spec existing)
      then Inl (WorkErr ErrReconcileContract)
      else if correction \<and> (spec_external_id spec \<noteq> spec_external_id (work_spec existing) \<or>
                 spec_scope spec = spec_scope (work_spec existing) \<or>
                 list_ex (\<lambda>e. \<not> valid_evidence e) evidence)
      then Inl (WorkErr ErrCorrectionScope)
      else if correction \<and> attempt_live existing then Inl (WorkErr ErrCorrectionLive)
      else if \<not> correction \<and>
              is_some_and (work_attempt existing) (\<lambda>a. \<not> att_ended a \<and> owner_alive env a)
      then Inl (WorkErr ErrReconcileLive)
      else if \<not> correction \<and>
              (work_status existing = Finished \<or> work_status existing = Integrated \<or>
               work_status existing = Watching \<or> work_status existing = Retired \<or>
               in_any_release run (spec_work_id spec))
      then Inl (WorkErr ErrReconcileFrozen)
      else if is_some_and (work_handoff existing) (\<lambda>h. ho_kind h = ''ownership_requested'' \<or>
                 ho_kind h = ''reassignment_required'') \<and> spec = work_spec existing
      then Inl (WorkErr ErrHandoffUnresolved)
      else if depends_on_itself spec then Inl (WorkErr ErrSelfDependency)
      else Inr ())"

definition reconcile_workspace ::
  "planner_env \<Rightarrow> planner_run \<Rightarrow> work_spec \<Rightarrow> work \<Rightarrow> (planner_error, workspace) result" where
  "reconcile_workspace env run spec existing =
     (case work_workspace existing of
        Some ws \<Rightarrow>
          if \<not> terminal_correction existing \<or> is_ok (workspace_available env ws) then Inr ws
          else allocate_workspace env (existing\<lparr>work_spec := spec\<rparr>) (run_policy run)
      | None \<Rightarrow> allocate_workspace env (existing\<lparr>work_spec := spec\<rparr>) (run_policy run))"

definition completion_of :: "work \<Rightarrow> completion_record" where
  "completion_of w =
     \<lparr>cr_spec = work_spec w, cr_status = work_status w, cr_artifact = work_artifact w,
      cr_review = work_review w, cr_finish = work_finish w, cr_integration = work_integration w\<rparr>"

definition reconciled_work ::
  "work_spec \<Rightarrow> string \<Rightarrow> string list \<Rightarrow> workspace \<Rightarrow> work \<Rightarrow> work" where
  "reconciled_work spec source_revision evidence ws existing =
     (let correction = terminal_correction existing;
          changed = (spec \<noteq> work_spec existing \<or>
            is_some_and (work_artifact existing) (\<lambda>a. art_revision a \<noteq> source_revision));
          rc0 = work_reconciliation existing;
          rc1 = (if correction
                 then rc0\<lparr>rc_prior_completions := rc_prior_completions rc0 @ [completion_of existing]\<rparr>
                 else rc0);
          rc2 = (if spec \<noteq> work_spec existing
                 then rc1\<lparr>rc_prior_specs := rc_prior_specs rc1 @ [work_spec existing]\<rparr> else rc1);
          w1 = existing\<lparr>work_spec := spec, work_workspace := Some ws,
                 work_reconciliation := rc2\<lparr>rc_required := False,
                   rc_source_revision := Some source_revision, rc_evidence := evidence\<rparr>,
                 work_attempt := None, work_handoff := None, work_reason := None,
                 work_paused := False\<rparr>;
          w2 = (if changed
                then w1\<lparr>work_artifact := None, work_review := None, work_finish := None,
                       work_integration := (if correction then None else work_integration w1)\<rparr>
                else w1) in
      w2\<lparr>work_status := (if is_some_and (work_review w2) rev_accepted then Accepted else Admitted)\<rparr>)"

definition op_reconcile ::
  "planner_env \<Rightarrow> work_spec \<Rightarrow> string \<Rightarrow> string list \<Rightarrow> planner_run \<Rightarrow> (planner_error, planner_run) result"
where
  "op_reconcile env spec source_revision evidence run =
     rbind (ok_or (bt_get (run_works run) (spec_work_id spec)) (WorkErr ErrUnknownReconciliationWork)) (\<lambda>existing.
       rbind (validate_work_spec spec) (\<lambda>_.
         rbind (check_reconcile env run spec evidence existing) (\<lambda>_.
           rbind (reconcile_workspace env run spec existing) (\<lambda>ws.
             rbind (verify_source_revision env (ws_path ws) source_revision) (\<lambda>_.
               Inr (ack_wake (''recovery:'' @ spec_work_id spec)
                 (drop_resume (spec_work_id spec)
                   (put_work (reconciled_work spec source_revision evidence ws existing) run))))))))"

section \<open>Admission\<close>

definition new_work :: "planner_env \<Rightarrow> string \<Rightarrow> work_spec \<Rightarrow> work" where
  "new_work env sid spec =
     \<lparr>work_reconciliation = reconciliation_default, work_spec = spec,
      work_child_id = ''child-'' @ take 24 (env_content_hash env (sid @ ''/'' @ spec_work_id spec)),
      work_status = Admitted, work_workspace = None, work_attempt = None, work_artifact = None,
      work_review = None, work_finish = None, work_integration = None, work_reason = None,
      work_last_output = None, work_paused = False, work_ready_at_ms = None, work_handoff = None\<rparr>"

definition same_guide :: "work_spec \<Rightarrow> work \<Rightarrow> bool" where
  "same_guide spec existing \<longleftrightarrow>
     spec_completion_contract_version (work_spec existing) = Some 2 \<and>
     spec_completion_contract_version spec = Some 2 \<and>
     (spec_plan_id (work_spec existing) = spec_plan_id spec \<or>
      (spec_external_id spec \<noteq> None \<and> spec_external_id (work_spec existing) = spec_external_id spec))"

definition op_admit ::
  "planner_env \<Rightarrow> string \<Rightarrow> work_spec \<Rightarrow> planner_run \<Rightarrow> (planner_error, planner_run) result" where
  "op_admit env sid spec run =
     rbind (validate_work_spec spec) (\<lambda>_.
       if run_execution_request run = None \<or> run_phase run \<noteq> Implementation
       then Inl (WorkErr ErrAdmissionUnauthorized)
       else if blank (spec_work_id spec) \<or> blank (spec_plan_id spec) \<or> blank (spec_scope spec)
       then Inl (WorkErr ErrAssignmentIncomplete)
       else case bt_get (run_works run) (spec_work_id spec) of
         Some existing \<Rightarrow> if work_spec existing \<noteq> spec then Inl (WorkErr ErrAssignmentDiffers) else Inr run
       | None \<Rightarrow>
           (case List.find (same_guide spec) (bt_values (run_works run)) of
              Some existing \<Rightarrow> Inl (WorkErr (ErrDuplicateGuide (spec_work_id (work_spec existing))))
            | None \<Rightarrow>
                if depends_on_itself spec then Inl (WorkErr ErrSelfDependency)
                else Inr (put_work (new_work env sid spec) run)))"


section \<open>Artifact, review, finish, integrate\<close>

definition op_artifact ::
  "planner_env \<Rightarrow> worker_identity option \<Rightarrow> string \<Rightarrow> string \<Rightarrow> artifact \<Rightarrow> planner_run \<Rightarrow>
   (planner_error, planner_role option \<times> planner_run) result" where
  "op_artifact env actor work_id attempt_id art run =
     rbind (require_worker env run work_id attempt_id actor) (\<lambda>w.
       rbind (ok_or (work_workspace w) (WorkErr ErrNoWorkspace)) (\<lambda>ws.
         rbind (verify_revision env (ws_path ws) (art_revision art)) (\<lambda>_.
           rbind (case rc_source_revision (work_reconciliation w) of
                    None \<Rightarrow> Inr ()
                  | Some source \<Rightarrow> verify_source_revision env (ws_path ws) source) (\<lambda>_.
             if art_evidence art = [] \<or> list_ex (\<lambda>v. \<not> valid_evidence v) (art_evidence art)
             then Inl (WorkErr ErrArtifactEvidence)
             else if bt_any (\<lambda>k recipe. blank k \<or> \<not> valid_evidence recipe) (art_integration_requirements art)
             then Inl (WorkErr ErrIntegrationRequirements)
             else if list_ex path_escapes (art_changed_paths art) then Inl (WorkErr ErrArtifactPaths)
             else case List.find (\<lambda>c. is_none_or (bt_get (art_checks art) c) (\<lambda>r. r \<noteq> ''pass''))
                         (spec_required_checks (work_spec w)) of
               Some c \<Rightarrow> Inl (WorkErr (ErrCheckNotPassed c))
             | None \<Rightarrow>
                 if work_artifact w = Some art then Inr (None, run)
                 else Inr (Some ReviewWork, upd_work work_id (\<lambda>x. x\<lparr>work_artifact := Some art,
                   work_review := None, work_ready_at_ms := None, work_finish := None,
                   work_integration := None, work_status := ReviewPending\<rparr>) run)))))"

definition op_review ::
  "planner_env \<Rightarrow> string \<Rightarrow> string \<Rightarrow> bool \<Rightarrow> string list \<Rightarrow> string option \<Rightarrow> planner_run \<Rightarrow>
   (planner_error, planner_role option \<times> planner_run) result" where
  "op_review env work_id revision accepted evidence corrections run =
     rbind (ok_or (bt_get (run_works run) work_id) (WorkErr ErrUnknownWork)) (\<lambda>w.
       rbind (ok_or (work_artifact w) (WorkErr ErrNoArtifact)) (\<lambda>art.
         if art_revision art \<noteq> revision \<or>
            \<not> (work_status w = ReviewPending \<or> work_status w = Accepted \<or> work_status w = Corrections)
         then Inl (WorkErr ErrStaleReview)
         else rbind (ok_or (work_workspace w) (WorkErr ErrNoWorkspace)) (\<lambda>ws.
           rbind (verify_revision env (ws_path ws) revision) (\<lambda>_.
             if evidence = [] \<or> list_ex (\<lambda>v. \<not> valid_evidence v) evidence then Inl (WorkErr ErrReviewEvidence)
             else if accepted \<and> art_unresolved art \<noteq> [] then Inl (WorkErr ErrUnresolved)
             else if \<not> accepted \<and> is_none_or corrections blank then Inl (WorkErr ErrNoCorrections)
             else Inr (Some (if accepted then FinishWork else ImplementWork),
               upd_work work_id (\<lambda>x. x\<lparr>work_review := Some \<lparr>rev_revision = revision,
                   rev_accepted = accepted, rev_evidence = evidence, rev_corrections = corrections\<rparr>,
                 work_finish := None, work_integration := None,
                 work_status := (if accepted then Accepted else Corrections)\<rparr>) run)))))"

definition finish_work :: "planner_env \<Rightarrow> receipt \<Rightarrow> work \<Rightarrow> work" where
  "finish_work env receipt w =
     w\<lparr>work_finish := Some receipt, work_status := Finished,
       work_ready_at_ms := Some (unwrap_or (work_ready_at_ms w) (env_now_ms env))\<rparr>"

definition op_finished ::
  "planner_env \<Rightarrow> worker_identity option \<Rightarrow> operation \<Rightarrow> string \<Rightarrow> string \<Rightarrow> receipt \<Rightarrow> planner_run \<Rightarrow>
   (planner_error, planner_role option \<times> planner_run) result" where
  "op_finished env actor op work_id attempt_id receipt run =
     rbind (require_worker env run work_id attempt_id actor) (\<lambda>w.
       rbind (accepted_revision w (rcp_revision receipt)) (\<lambda>_.
         rbind (ok_or (work_workspace w) (WorkErr ErrNoWorkspace)) (\<lambda>ws.
           rbind (verify_revision env (ws_path ws) (rcp_revision receipt)) (\<lambda>_.
             if no_evidence (rcp_evidence receipt) then Inl (WorkErr ErrFinishEvidence)
             else rbind (if spec_completion_contract_version (work_spec w) = Some 2 then
                           (if env_integrate_host env = None then Inl (WorkErr ErrNoFinishVerifier)
                            else integrate_check env (CheckAssignment op w))
                         else Inr ()) (\<lambda>_.
               Inr (Some IntegratePlan, upd_work work_id (finish_work env receipt) run))))))"

definition op_finalize ::
  "planner_env \<Rightarrow> operation \<Rightarrow> string \<Rightarrow> receipt \<Rightarrow> planner_run \<Rightarrow>
   (planner_error, planner_role option \<times> planner_run) result" where
  "op_finalize env op work_id receipt run =
     (if env_integrate_host env = None then Inl (WorkErr ErrNoFinalizeHost)
      else rbind (ok_or (bt_get (run_works run) work_id) (WorkErr ErrUnknownWork)) (\<lambda>w.
        rbind (accepted_revision w (rcp_revision receipt)) (\<lambda>_.
          if \<not> (work_status w = Accepted \<or> work_status w = Interrupted) \<or> attempt_live w
          then Inl (WorkErr ErrFinalizeState)
          else rbind (ok_or (work_workspace w) (WorkErr ErrNoWorkspace)) (\<lambda>ws.
            rbind (verify_revision env (ws_path ws) (rcp_revision receipt)) (\<lambda>_.
              if no_evidence (rcp_evidence receipt) then Inl (WorkErr ErrFinalizeEvidence)
              else rbind (integrate_check env (CheckAssignment op w)) (\<lambda>_.
                Inr (Some IntegratePlan, upd_work work_id (finish_work env receipt) run)))))))"

definition required_integration :: "work \<Rightarrow> string list" where
  "required_integration w =
     spec_required_integration_evidence (work_spec w) @
     (case work_artifact w of None \<Rightarrow> [] | Some a \<Rightarrow> bt_keys (art_integration_requirements a))"

definition op_integrate ::
  "planner_env \<Rightarrow> operation \<Rightarrow> string \<Rightarrow> receipt \<Rightarrow> planner_run \<Rightarrow>
   (planner_error, planner_role option \<times> planner_run) result" where
  "op_integrate env op work_id receipt run =
     rbind (integration_allowed run work_id receipt) (\<lambda>_.
       rbind (ok_or (bt_get (run_works run) work_id) (WorkErr ErrUnknownWork)) (\<lambda>w.
         rbind (accepted_revision w (rcp_revision receipt)) (\<lambda>_.
           if \<not> finished_revision w (rcp_revision receipt) then Inl (WorkErr ErrNotFinished)
           else if attempt_live w then Inl (WorkErr ErrIntegrateLive)
           else rbind (ok_or (work_workspace w) (WorkErr ErrNoWorkspace)) (\<lambda>ws.
             rbind (verify_revision env (ws_path ws) (rcp_revision receipt)) (\<lambda>_.
               if no_evidence (rcp_evidence receipt) then Inl (WorkErr ErrIntegrateEvidence)
               else case List.find (\<lambda>k. \<not> is_some_and (bt_get (rcp_evidence receipt) k) valid_evidence)
                           (required_integration w) of
                 Some k \<Rightarrow> Inl (WorkErr (ErrMissingIntegrationEvidence k))
               | None \<Rightarrow>
                   rbind (integrate_check env (CheckOperation op)) (\<lambda>_.
                     Inr (Some SelectPlan, upd_work work_id (\<lambda>x. x\<lparr>work_integration := Some receipt,
                       work_status := Integrated\<rparr>) run)))))))"

section \<open>Release checkpoints\<close>

definition release_plans :: "planner_run \<Rightarrow> release \<Rightarrow> (string, string) btree" where
  "release_plans run r =
     List.map_filter (\<lambda>i. Option.bind (bt_get (run_works run) i)
       (\<lambda>w. map_option (\<lambda>p. (i, p)) (spec_external_id (work_spec w)))) (bt_keys (rel_works r))"

definition release_sources :: "planner_run \<Rightarrow> release \<Rightarrow> (string, string) btree" where
  "release_sources run r =
     fold (\<lambda>i m. case bt_get (run_works run) i of
       None \<Rightarrow> m
     | Some w \<Rightarrow> fold (\<lambda>(d, source). bt_insert d source) (spec_ready_dependencies (work_spec w)) m)
       (bt_keys (rel_works r)) []"

definition op_release ::
  "planner_env \<Rightarrow> string \<Rightarrow> operation \<Rightarrow> string \<Rightarrow> checkpoint \<Rightarrow> planner_run \<Rightarrow>
   (planner_error, planner_run) result" where
  "op_release env sid op release_id cp run =
     (if env_integrate_host env = None then Inl (ReleaseErr ErrReleaseNoHost)
      else if env_cwd env = None then Inl (ReleaseErr ErrReleaseSession)
      else rbind (if cp_stage cp = Selected \<and> \<not> bt_has (run_releases run) release_id then
             rbind (integrate_reply env (CheckSelection sid run release_id cp)) (\<lambda>reply.
               case opt_filter (\<lambda>v. v \<noteq> JNull) (json_get reply ''selection_attestation'') of
                 None \<Rightarrow> Inr None
               | Some v \<Rightarrow>
                   (case env_attestation env v of
                      Inl e \<Rightarrow> Inl (ReleaseErr ErrAttestationFormat)
                    | Inr a \<Rightarrow> Inr (Some (sid, a))))
           else Inr None) (\<lambda>authority.
        rbind (record_in_checkout_attested env run release_id cp authority) (\<lambda>run1.
          rbind (ok_or (bt_get (run_releases run1) release_id) (ReleaseErr ErrReplacedMissing)) (\<lambda>r.
            rbind (integrate_check env (CheckRelease op r (release_plans run1 r) (release_sources run1 r)))
              (\<lambda>_. Inr run1)))))"

section \<open>Dispositions, acknowledgments, holds, completion\<close>

definition op_disposition ::
  "planner_env \<Rightarrow> operation \<Rightarrow> string \<Rightarrow> work_status \<Rightarrow> string \<Rightarrow> planner_run \<Rightarrow>
   (planner_error, planner_run) result" where
  "op_disposition env op work_id status reason run =
     (if \<not> (status = Blocked \<or> status = Watching) \<or> blank reason then Inl (WorkErr ErrDispositionReason)
      else rbind (ok_or (bt_get (run_works run) work_id) (WorkErr ErrUnknownWork)) (\<lambda>w.
        if attempt_live w then Inl (WorkErr ErrDispositionLive)
        else if work_status w = Integrated then Inl (WorkErr ErrDispositionIntegrated)
        else rbind (integrate_check env (CheckAssignment op w)) (\<lambda>_.
          Inr (upd_work work_id (\<lambda>x. x\<lparr>work_status := status, work_reason := Some reason\<rparr>) run))))"

definition op_acknowledge_wake ::
  "planner_env \<Rightarrow> string \<Rightarrow> string \<Rightarrow> planner_run \<Rightarrow> (planner_error, planner_run) result" where
  "op_acknowledge_wake env sid wake_id run =
     rbind (case strip_prefix ''input:'' wake_id of
              None \<Rightarrow> Inr run
            | Some i \<Rightarrow>
                rbind (ok_or (bt_get (run_inputs run) i) (InputErr ErrUnknownInput)) (\<lambda>inp.
                  acknowledge_input env sid i (inp_owner inp) run)) (\<lambda>run1.
       rbind (ok_or (bt_get (run_wakes run1) wake_id) (RunErr ErrUnknownWake)) (\<lambda>_.
         Inr (ack_wake wake_id run1)))"

definition op_hold ::
  "planner_env \<Rightarrow> string \<Rightarrow> string \<Rightarrow> string \<Rightarrow> planner_run \<Rightarrow> (planner_error, planner_run) result" where
  "op_hold env plan_id reason detail run =
     rbind (record_hold run plan_id reason detail (env_now_ms env)) (\<lambda>_.
       rbind (if reason \<noteq> AWAITING_HUMAN then verify_hold env run plan_id reason detail else Inr ())
         (\<lambda>_. record_hold run plan_id reason detail (env_now_ms env)))"

definition pending_works :: "planner_run \<Rightarrow> string list" where
  "pending_works run =
     map fst (filter (\<lambda>(_, w). \<not> (work_status w = Integrated \<or> work_status w = Retired) \<or> attempt_live w)
       (run_works run))"

definition op_complete :: "planner_env \<Rightarrow> string \<Rightarrow> planner_run \<Rightarrow> (planner_error, planner_run) result" where
  "op_complete env queue_evidence run =
     (if \<not> valid_evidence queue_evidence then Inl (RunErr ErrCompleteEvidence)
      else if bt_any (\<lambda>_ r. release_active r) (run_releases run) then Inl (RunErr ErrCompleteReleases)
      else if pending_works run \<noteq> [] \<or> bt_any (\<lambda>_ i. \<not> resolved i) (run_inputs run) \<or>
              bt_any (\<lambda>_ w. \<not> wake_acknowledged w) (run_wakes run)
      then Inl (RunErr (ErrCompletePending (pending_works run)))
      else rbind (completion_allowed env run) (\<lambda>_.
        rbind (completion_audit env run) (\<lambda>_. Inr (run\<lparr>run_status := RunComplete\<rparr>))))"

section \<open>The operation\<close>

datatype op_reply = ReplyStatus | Replayed | Recorded "planner_role option"

definition no_role :: "(planner_error, planner_run) result \<Rightarrow>
  (planner_error, planner_role option \<times> planner_run) result" where
  "no_role m = rbind m (\<lambda>run. Inr (None, run))"

text \<open>The \<open>match\<close> over the operation.\<close>

fun apply_operation ::
  "planner_env \<Rightarrow> string \<Rightarrow> worker_identity option \<Rightarrow> operation \<Rightarrow> planner_run \<Rightarrow>
   (planner_error, planner_role option \<times> planner_run) result" where
  "apply_operation env sid actor (OpStatus offset work_id) run = Inr (None, run)"
| "apply_operation env sid actor (OpAdmit k spec) run = no_role (op_admit env sid spec run)"
| "apply_operation env sid actor (OpReconcile k spec source evidence) run =
     no_role (op_reconcile env spec source evidence run)"
| "apply_operation env sid actor (OpRetire k work_id reason evidence) run =
     no_role (op_retire env (OpRetire k work_id reason evidence) work_id reason evidence run)"
| "apply_operation env sid actor (OpArtifact k work_id attempt_id art) run =
     op_artifact env actor work_id attempt_id art run"
| "apply_operation env sid actor (OpReview k work_id revision accepted evidence corrections) run =
     op_review env work_id revision accepted evidence corrections run"
| "apply_operation env sid actor (OpFinished k work_id attempt_id receipt) run =
     op_finished env actor (OpFinished k work_id attempt_id receipt) work_id attempt_id receipt run"
| "apply_operation env sid actor (OpFinalize k work_id receipt) run =
     op_finalize env (OpFinalize k work_id receipt) work_id receipt run"
| "apply_operation env sid actor (OpIntegrate k work_id receipt) run =
     op_integrate env (OpIntegrate k work_id receipt) work_id receipt run"
| "apply_operation env sid actor (OpRelease k release_id cp) run =
     no_role (op_release env sid (OpRelease k release_id cp) release_id cp run)"
| "apply_operation env sid actor (OpDisposition k work_id status reason) run =
     no_role (op_disposition env (OpDisposition k work_id status reason) work_id status reason run)"
| "apply_operation env sid actor (OpAcknowledgeInput k input_id owner) run =
     no_role (acknowledge_input env sid input_id owner run)"
| "apply_operation env sid actor (OpAcknowledgeWake k wake_id) run =
     no_role (op_acknowledge_wake env sid wake_id run)"
| "apply_operation env sid actor (OpHold k plan_id reason detail) run =
     no_role (op_hold env plan_id reason detail run)"
| "apply_operation env sid actor (OpComplete k queue_evidence) run =
     no_role (op_complete env queue_evidence run)"

definition worker_operation :: "operation \<Rightarrow> bool" where
  "worker_operation op = (case op of OpArtifact _ _ _ _ \<Rightarrow> True | OpFinished _ _ _ _ \<Rightarrow> True | _ \<Rightarrow> False)"

definition scope_operation :: "operation \<Rightarrow> bool" where
  "scope_operation op =
     (case op of OpAdmit _ _ \<Rightarrow> True | OpReconcile _ _ _ _ \<Rightarrow> True | OpHold _ _ _ _ \<Rightarrow> True
      | OpComplete _ _ \<Rightarrow> True | _ \<Rightarrow> False)"

definition ack_operation :: "operation \<Rightarrow> bool" where
  "ack_operation op =
     (case op of OpAcknowledgeInput _ _ _ \<Rightarrow> True | OpAcknowledgeWake _ _ \<Rightarrow> True | _ \<Rightarrow> False)"

definition is_status :: "operation \<Rightarrow> bool" where
  "is_status op = (case op of OpStatus _ _ \<Rightarrow> True | _ \<Rightarrow> False)"

definition is_admit :: "operation \<Rightarrow> bool" where
  "is_admit op = (case op of OpAdmit _ _ \<Rightarrow> True | _ \<Rightarrow> False)"

definition admission_refusal :: "planner_run \<Rightarrow> string \<Rightarrow> planner_error" where
  "admission_refusal run source =
     RunErr (ErrAdoptionPending source
       (map_option wake_reason (bt_get (run_wakes run) ''adoption:handoff'')))"

definition authorize ::
  "worker_identity option \<Rightarrow> operation \<Rightarrow> planner_run \<Rightarrow> (planner_error, unit) result" where
  "authorize actor op run =
     (case (cap_pending_adoption (run_capacity run), is_admit op) of
        (Some source, True) \<Rightarrow> Inl (admission_refusal run source)
      | _ \<Rightarrow>
          if actor \<noteq> None \<and> \<not> worker_operation op then Inl (RunErr ErrChildCannotCoordinate)
          else if run_status run = RunDraining \<and> scope_operation op then Inl (RunErr ErrShuttingDown)
          else if \<not> (run_status run = RunRunning \<or> run_status run = RunDraining) \<and> \<not> ack_operation op
          then Inl (RunErr (ErrRunSuspended (run_status run)))
          else Inr ())"

definition put_receipt :: "string \<Rightarrow> string \<Rightarrow> planner_run \<Rightarrow> planner_run" where
  "put_receipt key fingerprint run = run\<lparr>run_receipts := bt_insert key fingerprint (run_receipts run)\<rparr>"

definition operate_once ::
  "planner_env \<Rightarrow> string \<Rightarrow> worker_identity option \<Rightarrow> operation \<Rightarrow> planner_run \<Rightarrow>
   (planner_error, op_reply \<times> planner_run) result" where
  "operate_once env sid actor op run =
     (if run_status run = RunSuperseded \<and> \<not> is_status op
      then Inl (RunErr (ErrSuperseded (run_superseded_by run)))
      else if is_status op then Inr (ReplyStatus, run)
      else rbind (ok_or (opt_filter (\<lambda>k. \<not> blank k) (op_key op)) (RunErr ErrMissingKey)) (\<lambda>key.
        case bt_get (run_receipts run) key of
          Some previous \<Rightarrow>
            if previous \<noteq> env_fingerprint env op then Inl (RunErr ErrKeyReused) else Inr (Replayed, run)
        | None \<Rightarrow>
            rbind (authorize actor op run) (\<lambda>_.
              rbind (apply_operation env sid actor op run) (\<lambda>(role, run1).
                Inr (Recorded role, put_receipt key (env_fingerprint env op) run1)))))"

section \<open>The run invariant\<close>

text \<open>
  What the records of a work say together: an artifact passed the assignment's checks, a
  review judges the recorded artifact and accepts only resolved ones, a finish receipt is
  bound to the accepted revision, and a work is integrated exactly when it carries an
  integration receipt, at the finished revision and with its worker stopped.
\<close>

definition work_ok :: "work \<Rightarrow> bool" where
  "work_ok w \<longleftrightarrow>
     (\<forall>a. work_artifact w = Some a \<longrightarrow> checks_pass (work_spec w) a) \<and>
     (\<forall>r. work_review w = Some r \<longrightarrow>
        (\<exists>a. work_artifact w = Some a \<and> art_revision a = rev_revision r \<and>
           (rev_accepted r \<longrightarrow> art_unresolved a = []))) \<and>
     (\<forall>f. work_finish w = Some f \<longrightarrow> accepted_revision w (rcp_revision f) = Inr ()) \<and>
     (work_status w = Finished \<longrightarrow> work_finish w \<noteq> None) \<and>
     (work_integration w \<noteq> None \<longleftrightarrow> work_status w = Integrated) \<and>
     (work_status w = Integrated \<longrightarrow>
        (\<exists>f g. work_finish w = Some f \<and> work_integration w = Some g \<and> rcp_revision f = rcp_revision g) \<and>
        work_workspace w \<noteq> None \<and> attempt_done w)"

definition run_ok :: "planner_run \<Rightarrow> bool" where
  "run_ok run \<longleftrightarrow>
     run_wf run \<and> ledger_ok (run_releases run) \<and>
     (\<forall>k w. bt_get (run_works run) k = Some w \<longrightarrow> work_ok w)"

lemma run_okD:
  "run_ok run \<Longrightarrow> bt_get (run_works run) k = Some w \<Longrightarrow> work_ok w \<and> spec_work_id (work_spec w) = k"
  by (simp add: run_ok_def run_wf_def)

lemma run_ok_upd_work:
  assumes "run_ok run"
    and "\<And>w. bt_get (run_works run) i = Some w \<Longrightarrow>
      work_ok (f w) \<and> spec_work_id (work_spec (f w)) = spec_work_id (work_spec w)"
  shows "run_ok (upd_work i f run)"
proof -
  let ?run = "upd_work i f run"
  have works: "work_ok w \<and> spec_work_id (work_spec w) = k" if "bt_get (run_works ?run) k = Some w" for k w
    using that assms(2) run_okD [OF assms(1)] by (auto simp: upd_work_def split: if_splits)
  moreover have "bt_wf (run_works ?run)" "run_releases ?run = run_releases run"
    "run_observations ?run = run_observations run" "run_inputs ?run = run_inputs run"
    "run_wakes ?run = run_wakes run" "run_receipts ?run = run_receipts run"
    "run_capacity ?run = run_capacity run"
    using assms(1) by (simp_all add: upd_work_def run_ok_def run_wf_def)
  ultimately show ?thesis using assms(1) unfolding run_ok_def run_wf_def by simp
qed

lemma run_ok_put_work: "run_ok run \<Longrightarrow> work_ok w \<Longrightarrow> run_ok (put_work w run)"
  by (simp add: run_ok_def run_wf_def put_work_def)

lemma run_ok_drop_resume: "run_ok run \<Longrightarrow> run_ok (drop_resume i run)"
  by (simp add: run_ok_def run_wf_def drop_resume_def)

lemma run_ok_ack_wake: "run_ok run \<Longrightarrow> run_ok (ack_wake i run)"
  by (simp add: run_ok_def run_wf_def ack_wake_def)

lemma run_ok_put_receipt: "run_ok run \<Longrightarrow> run_ok (put_receipt k v run)"
  by (simp add: run_ok_def run_wf_def put_receipt_def)

lemma run_ok_acknowledge_input:
  "run_ok run \<Longrightarrow> acknowledge_input env sid i owner run = Inr run' \<Longrightarrow> run_ok run'"
  by (auto simp: acknowledge_input_def run_ok_def run_wf_def upd_input_def ack_wake_def split: if_splits)

lemma run_ok_record_hold:
  "run_ok run \<Longrightarrow> record_hold run p reason detail now = Inr run' \<Longrightarrow> run_ok run'"
  by (auto simp: record_hold_Inr_iff run_ok_def run_wf_def)

lemma run_wf_withdraw_one: "run_wf run \<Longrightarrow> run_wf (withdraw_one env reason k run)"
  by (simp add: run_wf_def withdraw_one_def upd_input_def)

lemma run_wf_withdraw:
  "run_wf run \<Longrightarrow> run_wf (fold (withdraw_one env reason) ids run)"
  by (induction ids arbitrary: run) (simp_all add: run_wf_withdraw_one)

lemma run_wf_retire_hold: "run_wf run \<Longrightarrow> run_wf (snd (retire_lifted_hold env hold reason run))"
proof -
  assume "run_wf run"
  then have "run_wf (withdraw_ids env reason ids run)" for ids
    using run_wf_withdraw [of run env reason ids] by (simp add: withdraw_ids_def Let_def run_wf_def)
  with \<open>run_wf run\<close> show ?thesis
    by (simp add: retire_lifted_hold_def Let_def split: option.split)
qed

lemma run_wf_record_release:
  assumes "record_in_checkout_attested env run i cp authority = Inr run'" and "run_wf run"
  shows "run_wf run'"
proof -
  obtain carried held where rec: "record_with_carried env run i cp carried held = Inr run'"
    using assms(1) by (auto simp: record_in_checkout_attested_def Let_def)
  show ?thesis
  proof (cases "bt_get (run_releases run) i")
    case None
    with rec have "select_release run i cp carried held = Inr run'" by (simp add: record_with_carried_def)
    from select_release_cases [OF this] assms(2) show ?thesis
      by (auto simp: run_wf_def split: option.splits)
  next
    case (Some r)
    have push: "run_wf (push_checkpoint i cp run)"
      using assms(2) by (simp add: run_wf_def push_checkpoint_def)
    from rec Some have "advance_release env run i cp r = Inr run'" by (simp add: record_with_carried_def)
    then have "run' = run \<or> run' = push_checkpoint i cp run \<or>
        (\<exists>hold reason. run' = snd (retire_lifted_hold env hold reason (push_checkpoint i cp run)))"
      by (cases "bound_hold r cp") (auto simp: advance_release_def Let_def split: if_splits)
    with push assms(2) run_wf_retire_hold show ?thesis by blast
  qed
qed

lemma require_worker_Inr_iff:
  "require_worker env run work_id attempt_id actor = Inr w \<longleftrightarrow>
     (\<exists>a att. actor = Some a \<and> wi_work_id a = work_id \<and> wi_attempt_id a = attempt_id \<and>
        bt_get (run_works run) work_id = Some w \<and> work_attempt w = Some att \<and> att_id att = attempt_id \<and>
        \<not> att_ended att \<and> (att_router_pid att, att_router_started_at_ms att) = env_identity env)"
  by (auto simp: require_worker_def)

lemma require_worker_live: "require_worker env run work_id attempt_id actor = Inr w \<Longrightarrow> attempt_live w"
  by (auto simp: require_worker_Inr_iff attempt_live_def)

lemma checks_find_None:
  "List.find (\<lambda>c. is_none_or (bt_get (art_checks art) c) (\<lambda>r. r \<noteq> ''pass'')) (spec_required_checks spec) = None \<longleftrightarrow>
     checks_pass spec art"
  by (auto simp: find_None_iff checks_pass_def list_all_iff is_some_and_iff is_none_or_iff)

lemma run_ok_artifact:
  assumes "run_ok run" and "op_artifact env actor work_id attempt_id art run = Inr (role, run')"
  shows "run_ok run'"
proof -
  obtain w where w: "require_worker env run work_id attempt_id actor = Inr w"
    and checks: "checks_pass (work_spec w) art"
    and run': "run' = run \<or> run' = upd_work work_id (\<lambda>x. x\<lparr>work_artifact := Some art,
       work_review := None, work_ready_at_ms := None, work_finish := None,
       work_integration := None, work_status := ReviewPending\<rparr>) run"
    using assms(2)
    by (auto simp: op_artifact_def checks_find_None [symmetric] split: option.splits if_splits)
  have "bt_get (run_works run) work_id = Some w" using w by (auto simp: require_worker_Inr_iff)
  with run' checks assms(1) show ?thesis
    by (auto intro!: run_ok_upd_work simp: work_ok_def)
qed

lemma run_ok_review:
  assumes "run_ok run"
    and "op_review env work_id revision accepted evidence corrections run = Inr (role, run')"
  shows "run_ok run'"
proof -
  obtain w art where w: "bt_get (run_works run) work_id = Some w" "work_artifact w = Some art"
    "art_revision art = revision" "accepted \<longrightarrow> art_unresolved art = []"
    and run': "run' = upd_work work_id (\<lambda>x. x\<lparr>work_review := Some \<lparr>rev_revision = revision,
         rev_accepted = accepted, rev_evidence = evidence, rev_corrections = corrections\<rparr>,
       work_finish := None, work_integration := None,
       work_status := (if accepted then Accepted else Corrections)\<rparr>) run"
    using assms(2) by (auto simp: op_review_def)
  have "work_ok w" using run_okD [OF assms(1) w(1)] by simp
  with w run' assms(1) show ?thesis
    by (auto intro!: run_ok_upd_work simp: work_ok_def)
qed

lemma finish_work_spec: "work_spec (finish_work env receipt w) = work_spec w"
  by (simp add: finish_work_def)

lemma work_ok_finish:
  assumes "work_ok w" and "accepted_revision w (rcp_revision receipt) = Inr ()"
    and "work_status w \<noteq> Integrated"
  shows "work_ok (finish_work env receipt w)"
proof -
  have "accepted_revision (finish_work env receipt w) r = accepted_revision w r" for r
    by (simp add: accepted_revision_def finish_work_def)
  with assms show ?thesis by (simp add: work_ok_def) (simp add: finish_work_def)
qed

lemma work_ok_live_not_integrated: "work_ok w \<Longrightarrow> attempt_live w \<Longrightarrow> work_status w \<noteq> Integrated"
  by (auto simp: work_ok_def attempt_done_iff)

lemma run_ok_finished:
  assumes "run_ok run" and "op_finished env actor op work_id attempt_id receipt run = Inr (role, run')"
  shows "run_ok run'"
proof -
  obtain w where w: "require_worker env run work_id attempt_id actor = Inr w"
    "accepted_revision w (rcp_revision receipt) = Inr ()"
    and run': "run' = upd_work work_id (finish_work env receipt) run"
    using assms(2) by (auto simp: op_finished_def)
  have get: "bt_get (run_works run) work_id = Some w" using w(1) by (auto simp: require_worker_Inr_iff)
  have "work_status w \<noteq> Integrated"
    using work_ok_live_not_integrated require_worker_live [OF w(1)] run_okD [OF assms(1) get] by blast
  with get run_okD [OF assms(1) get] w(2) show ?thesis
    unfolding run' by (intro run_ok_upd_work [OF assms(1)])
      (auto intro: work_ok_finish simp: finish_work_spec)
qed

lemma run_ok_finalize:
  assumes "run_ok run" and "op_finalize env op work_id receipt run = Inr (role, run')"
  shows "run_ok run'"
proof -
  obtain w where get: "bt_get (run_works run) work_id = Some w"
    and w: "accepted_revision w (rcp_revision receipt) = Inr ()"
      "work_status w = Accepted \<or> work_status w = Interrupted"
    and run': "run' = upd_work work_id (finish_work env receipt) run"
    using assms(2) by (auto simp: op_finalize_def)
  from get run_okD [OF assms(1) get] w show ?thesis
    unfolding run' by (intro run_ok_upd_work [OF assms(1)])
      (auto intro: work_ok_finish simp: finish_work_spec)
qed

lemma op_integrate_Inr:
  assumes "op_integrate env op work_id receipt run = Inr (role, run')"
  obtains w where "bt_get (run_works run) work_id = Some w" "finished_revision w (rcp_revision receipt)"
    "integration_allowed run work_id receipt = Inr ()"
    "\<forall>k \<in> set (required_integration w). is_some_and (bt_get (rcp_evidence receipt) k) valid_evidence"
    "integrate_check env (CheckOperation op) = Inr ()"
    "run' = upd_work work_id (\<lambda>x. x\<lparr>work_integration := Some receipt, work_status := Integrated\<rparr>) run"
  using assms
  by (auto simp: op_integrate_def find_None_iff split: option.splits)

lemma run_ok_integrate:
  assumes "run_ok run" and "op_integrate env op work_id receipt run = Inr (role, run')"
  shows "run_ok run'"
  using assms(2)
proof (cases rule: op_integrate_Inr)
  case (1 w)
  have "work_ok w" using run_okD [OF assms(1) 1(1)] by simp
  moreover obtain f where "work_finish w = Some f" "rcp_revision f = rcp_revision receipt"
    using 1(2) by (auto simp: finished_revision_def is_some_and_iff)
  moreover have "work_workspace w \<noteq> None" "attempt_done w"
    using 1(2) by (simp_all add: finished_revision_def)
  moreover have "accepted_revision (w\<lparr>work_integration := Some receipt, work_status := Integrated\<rparr>) r =
      accepted_revision w r" for r
    by (simp add: accepted_revision_def)
  ultimately have "work_ok (w\<lparr>work_integration := Some receipt, work_status := Integrated\<rparr>)"
    by (simp add: work_ok_def attempt_done_def)
  with 1(1) show ?thesis
    unfolding 1(6) by (intro run_ok_upd_work [OF assms(1)]) auto
qed

lemma run_ok_disposition:
  assumes "run_ok run" and "op_disposition env op work_id status reason run = Inr run'"
  shows "run_ok run'"
proof -
  obtain w where get: "bt_get (run_works run) work_id = Some w" and w: "work_status w \<noteq> Integrated"
    and st: "status = Blocked \<or> status = Watching"
    and run': "run' = upd_work work_id (\<lambda>x. x\<lparr>work_status := status, work_reason := Some reason\<rparr>) run"
    using assms(2) by (auto simp: op_disposition_def)
  have "work_ok w" using run_okD [OF assms(1) get] by simp
  moreover have "accepted_revision (w\<lparr>work_status := status, work_reason := Some reason\<rparr>) r =
      accepted_revision w r" for r
    by (simp add: accepted_revision_def)
  ultimately have "work_ok (w\<lparr>work_status := status, work_reason := Some reason\<rparr>)"
    using w st by (auto simp: work_ok_def)
  with get show ?thesis unfolding run' by (intro run_ok_upd_work [OF assms(1)]) auto
qed

lemma run_ok_wakes: "run_ok run \<Longrightarrow> run_ok (run\<lparr>run_wakes := bt_map f (run_wakes run)\<rparr>)"
  by (simp add: run_ok_def run_wf_def)

lemma run_ok_retire:
  assumes "run_ok run" and "op_retire env op work_id reason evidence run = Inr run'"
  shows "run_ok run'"
proof -
  let ?f = "\<lambda>x. x\<lparr>work_status := Retired, work_reason := Some reason, work_paused := True,
     work_reconciliation := (work_reconciliation x)\<lparr>rc_required := False\<rparr>\<rparr>"
  obtain w where get: "bt_get (run_works run) work_id = Some w" and w: "work_status w \<noteq> Integrated"
    and run': "\<exists>g. run' = (drop_resume work_id (upd_work work_id ?f run))
      \<lparr>run_wakes := bt_map g (run_wakes (drop_resume work_id (upd_work work_id ?f run)))\<rparr>"
    using assms(2) by (auto simp: op_retire_def Let_def)
  have "work_ok w" using run_okD [OF assms(1) get] by simp
  moreover have "accepted_revision (?f w) r = accepted_revision w r" for r
    by (simp add: accepted_revision_def)
  ultimately have "work_ok (?f w)" using w by (auto simp: work_ok_def)
  then have "run_ok (upd_work work_id ?f run)"
    using get by (intro run_ok_upd_work [OF assms(1)]) auto
  then show ?thesis using run' run_ok_drop_resume run_ok_wakes by blast
qed

lemma check_reconcile_Inr:
  assumes "check_reconcile env run spec evidence existing = Inr u"
  shows "(terminal_correction existing \<longrightarrow> spec_scope spec \<noteq> spec_scope (work_spec existing) \<and> attempt_done existing) \<and>
    (\<not> terminal_correction existing \<longrightarrow> work_status existing \<noteq> Finished \<and> work_status existing \<noteq> Integrated \<and>
       \<not> in_any_release run (spec_work_id spec)) \<and>
    spec_plan_id spec = spec_plan_id (work_spec existing) \<and>
    spec_completion_contract_version spec = spec_completion_contract_version (work_spec existing) \<and>
    \<not> depends_on_itself spec"
  using assms by (auto simp: check_reconcile_def Let_def attempt_done_iff)

lemma work_ok_fresh:
  "work_artifact w = None \<Longrightarrow> work_review w = None \<Longrightarrow> work_finish w = None \<Longrightarrow>
   work_integration w = None \<Longrightarrow> work_status w = Admitted \<Longrightarrow> work_ok w"
  by (simp add: work_ok_def)

lemma reconciled_work_ok:
  assumes "work_ok existing" and "check_reconcile env run spec evidence existing = Inr u"
  shows "work_ok (reconciled_work spec source evidence ws existing)"
proof -
  note c = check_reconcile_Inr [OF assms(2)]
  let ?w = "reconciled_work spec source evidence ws existing"
  define changed where "changed \<longleftrightarrow> spec \<noteq> work_spec existing \<or>
     is_some_and (work_artifact existing) (\<lambda>a. art_revision a \<noteq> source)"
  have int: "terminal_correction existing \<and> changed \<or> work_integration existing = None"
    using c assms(1) by (auto simp: changed_def work_ok_def)
  show ?thesis
  proof (cases changed)
    case True
    then show ?thesis using int
      by (intro work_ok_fresh) (auto simp: reconciled_work_def Let_def changed_def)
  next
    case False
    then have eq: "work_artifact ?w = work_artifact existing" "work_review ?w = work_review existing"
      "work_finish ?w = work_finish existing" "work_integration ?w = work_integration existing"
      "work_spec ?w = work_spec existing" "work_status ?w = Accepted \<or> work_status ?w = Admitted"
      by (auto simp: reconciled_work_def Let_def changed_def)
    have acc: "accepted_revision ?w r = accepted_revision existing r" for r
      by (simp add: accepted_revision_def eq)
    show ?thesis using assms(1) int False eq(6)
      by (auto simp: work_ok_def eq(1-5) acc)
  qed
qed

lemma reconciled_work_spec: "work_spec (reconciled_work spec source evidence ws existing) = spec"
  by (simp add: reconciled_work_def Let_def)

lemma run_ok_reconcile:
  assumes "run_ok run" and "op_reconcile env spec source evidence run = Inr run'"
  shows "run_ok run'"
proof -
  obtain existing ws where get: "bt_get (run_works run) (spec_work_id spec) = Some existing"
    and check: "check_reconcile env run spec evidence existing = Inr ()"
    and run': "run' = ack_wake (''recovery:'' @ spec_work_id spec)
      (drop_resume (spec_work_id spec) (put_work (reconciled_work spec source evidence ws existing) run))"
    using assms(2) by (auto simp: op_reconcile_def)
  have "work_ok existing" using run_okD [OF assms(1) get] by simp
  from reconciled_work_ok [OF this check] assms(1) show ?thesis
    unfolding run' by (intro run_ok_ack_wake run_ok_drop_resume run_ok_put_work)
qed

lemma run_ok_admit:
  "run_ok run \<Longrightarrow> op_admit env sid spec run = Inr run' \<Longrightarrow> run_ok run'"
  by (auto simp: op_admit_def new_work_def split: option.splits
      intro!: run_ok_put_work work_ok_fresh)

lemma op_release_Inr:
  assumes "op_release env sid op release_id cp run = Inr run'"
  obtains authority where "record_in_checkout_attested env run release_id cp authority = Inr run'"
  using assms by (auto simp: op_release_def)

lemma record_release_works:
  assumes "record_in_checkout_attested env run i cp authority = Inr run'"
  shows "run_works run' = run_works run"
proof -
  obtain carried held where rec: "record_with_carried env run i cp carried held = Inr run'"
    using assms by (auto simp: record_in_checkout_attested_def Let_def)
  show ?thesis
  proof (cases "bt_get (run_releases run) i")
    case None
    with rec have "select_release run i cp carried held = Inr run'" by (simp add: record_with_carried_def)
    from select_release_cases [OF this] show ?thesis by simp
  next
    case (Some r)
    with rec have "advance_release env run i cp r = Inr run'" by (simp add: record_with_carried_def)
    then show ?thesis by (cases rule: advance_release_cases) simp_all
  qed
qed

lemma run_ok_record_release:
  assumes "run_ok run" and "record_in_checkout_attested env run i cp authority = Inr run'"
  shows "run_ok run'"
  using assms(1) run_wf_record_release [OF assms(2)] ledger_ok_record [OF assms(2)]
    record_release_works [OF assms(2)]
  by (simp add: run_ok_def)

lemma run_ok_complete: "run_ok run \<Longrightarrow> op_complete env ev run = Inr run' \<Longrightarrow> run_ok run'"
  by (auto simp: op_complete_def run_ok_def run_wf_def)

lemma run_ok_acknowledge_wake:
  "run_ok run \<Longrightarrow> op_acknowledge_wake env sid wake_id run = Inr run' \<Longrightarrow> run_ok run'"
  by (auto simp: op_acknowledge_wake_def split: option.splits
      intro: run_ok_ack_wake run_ok_acknowledge_input)

lemma no_role_Inr_iff [simp]: "no_role m = Inr (role, run) \<longleftrightarrow> role = None \<and> m = Inr run"
  by (auto simp: no_role_def)

lemmas run_ok_operations =
  run_ok_admit run_ok_reconcile run_ok_retire run_ok_artifact run_ok_review run_ok_finished
  run_ok_finalize run_ok_integrate run_ok_record_release run_ok_disposition
  run_ok_acknowledge_input run_ok_acknowledge_wake run_ok_complete

lemma run_ok_apply_operation:
  assumes "run_ok run" and "apply_operation env sid actor op run = Inr (role, run')"
  shows "run_ok run'"
proof (cases op)
  case (OpRelease k release_id cp)
  with assms(2) have "op_release env sid op release_id cp run = Inr run'" by simp
  then show ?thesis by (rule op_release_Inr) (rule run_ok_record_release [OF assms(1)])
next
  case (OpHold k plan_id reason detail)
  with assms(2) show ?thesis by (auto simp: op_hold_def intro: run_ok_record_hold [OF assms(1)])
qed (use assms in \<open>auto intro: run_ok_operations\<close>)

lemma operate_once_cases:
  assumes "operate_once env sid actor op run = Inr (reply, run')"
  obtains (status) "is_status op" "reply = ReplyStatus" "run' = run"
  | (replayed) key where "op_key op = Some key" "bt_get (run_receipts run) key = Some (env_fingerprint env op)"
      "reply = Replayed" "run' = run"
  | (recorded) key role run1 where "op_key op = Some key" "\<not> blank key" "bt_get (run_receipts run) key = None"
      "run_status run \<noteq> RunSuperseded" "authorize actor op run = Inr ()"
      "apply_operation env sid actor op run = Inr (role, run1)"
      "reply = Recorded role" "run' = put_receipt key (env_fingerprint env op) run1"
proof (cases "is_status op")
  case True
  with assms status show ?thesis by (simp add: operate_once_def)
next
  case False
  with assms obtain key where key: "op_key op = Some key" "\<not> blank key" "run_status run \<noteq> RunSuperseded"
    by (simp add: operate_once_def opt_filter_Some_iff) blast
  show ?thesis
  proof (cases "bt_get (run_receipts run) key")
    case (Some previous)
    with assms False key have "previous = env_fingerprint env op" "reply = Replayed" "run' = run"
      by (simp_all add: operate_once_def)
    with Some key replayed show ?thesis by blast
  next
    case None
    with assms False key obtain role run1 where
      "authorize actor op run = Inr ()" "apply_operation env sid actor op run = Inr (role, run1)"
      "reply = Recorded role" "run' = put_receipt key (env_fingerprint env op) run1"
      by (auto simp: operate_once_def)
    with None key recorded show ?thesis by blast
  qed
qed

lemma run_ok_operate:
  assumes "run_ok run" and "operate_once env sid actor op run = Inr (reply, run')"
  shows "run_ok run'"
  using assms(2)
  by (cases rule: operate_once_cases)
    (use assms(1) in \<open>auto intro: run_ok_put_receipt run_ok_apply_operation\<close>)

section \<open>Authority\<close>

lemma authorize_worker:
  assumes "authorize (Some a) op run = Inr u"
  shows "worker_operation op"
  using assms by (auto simp: authorize_def split: option.splits bool.splits)

lemma authorize_running:
  assumes "authorize actor op run = Inr u" and "\<not> ack_operation op"
  shows "run_status run = RunRunning \<or> (run_status run = RunDraining \<and> \<not> scope_operation op)"
  using assms by (auto simp: authorize_def split: option.splits bool.splits)

text \<open>
  A mutation is applied once: repeating an operation on the run it produced only
  reports a replay and changes nothing, and the key it used is refused to any operation with
  another fingerprint, whatever that operation is and whoever sends it.
\<close>

lemma operation_replay:
  assumes "operate_once env sid actor op run = Inr (Recorded role, run')"
  shows "operate_once env sid actor' op run' = (if run_status run' = RunSuperseded
        then Inl (RunErr (ErrSuperseded (run_superseded_by run'))) else Inr (Replayed, run')) \<and>
    (\<forall>other actor'. op_key other = op_key op \<and> env_fingerprint env other \<noteq> env_fingerprint env op \<and>
       run_status run' \<noteq> RunSuperseded \<longrightarrow>
       operate_once env sid actor' other run' = Inl (RunErr ErrKeyReused))"
  using assms
proof (cases rule: operate_once_cases)
  case (recorded key role' run1)
  then have "\<not> is_status op" by (cases op) (simp_all add: is_status_def)
  moreover have "\<not> is_status other" if "op_key other = Some key" for other
    using that by (cases other) (simp_all add: is_status_def)
  ultimately show ?thesis
    using recorded(1,2) by (auto simp: operate_once_def recorded(8) put_receipt_def)
qed simp_all

lemma worker_operation_frame:
  assumes "apply_operation env sid (Some a) op run = Inr (role, run')" and "worker_operation op"
    and "bt_wf (run_works run)"
  shows "run' = run\<lparr>run_works := run_works run'\<rparr> \<and>
    (\<forall>k. k \<noteq> wi_work_id a \<longrightarrow> bt_get (run_works run') k = bt_get (run_works run) k) \<and>
    (\<exists>w w' att. bt_get (run_works run) (wi_work_id a) = Some w \<and> work_attempt w = Some att \<and>
       att_id att = wi_attempt_id a \<and> \<not> att_ended att \<and>
       (att_router_pid att, att_router_started_at_ms att) = env_identity env \<and>
       bt_get (run_works run') (wi_work_id a) = Some w' \<and>
       (w' = w \<or> work_status w' = ReviewPending \<or> work_status w' = Finished) \<and>
       work_spec w' = work_spec w \<and> work_workspace w' = work_workspace w \<and>
       work_attempt w' = work_attempt w)"
proof (cases op)
  case (OpArtifact k work_id attempt_id art)
  with assms(1) have "op_artifact env (Some a) work_id attempt_id art run = Inr (role, run')" by simp
  then obtain w where w: "require_worker env run work_id attempt_id (Some a) = Inr w"
    and run': "run' = run \<or> run' = upd_work work_id (\<lambda>x. x\<lparr>work_artifact := Some art,
       work_review := None, work_ready_at_ms := None, work_finish := None,
       work_integration := None, work_status := ReviewPending\<rparr>) run"
    by (auto simp: op_artifact_def split: option.splits if_splits)
  from w run' show ?thesis by (auto simp: require_worker_Inr_iff upd_work_def)
next
  case (OpFinished k work_id attempt_id receipt)
  with assms(1) have "op_finished env (Some a) op work_id attempt_id receipt run = Inr (role, run')" by simp
  then obtain w where w: "require_worker env run work_id attempt_id (Some a) = Inr w"
    and run': "run' = upd_work work_id (finish_work env receipt) run"
    by (auto simp: op_finished_def)
  from w run' show ?thesis by (auto simp: require_worker_Inr_iff upd_work_def finish_work_def)
qed (use assms(2) in \<open>simp_all add: worker_operation_def\<close>)

text \<open>
  C3. A worker's token reaches only its own assignment: an operation a worker gets accepted
  leaves the phase, status, commands, releases, inputs, wakes and capacity state of the run and
  every other work as they were; the one work it changes is its own, under the attempt that is
  live in this router process, and that work ends up awaiting review or finished, with its
  assignment, workspace and attempt untouched: never accepted or integrated by its own hand.
\<close>

theorem worker_authority:
  assumes "operate_once env sid (Some a) op run = Inr (Recorded role, run')" and "bt_wf (run_works run)"
  shows "run' = run\<lparr>run_works := run_works run', run_receipts := run_receipts run'\<rparr> \<and>
    (\<forall>k. k \<noteq> wi_work_id a \<longrightarrow> bt_get (run_works run') k = bt_get (run_works run) k) \<and>
    (\<exists>w w' att. bt_get (run_works run) (wi_work_id a) = Some w \<and> work_attempt w = Some att \<and>
       att_id att = wi_attempt_id a \<and> \<not> att_ended att \<and>
       (att_router_pid att, att_router_started_at_ms att) = env_identity env \<and>
       bt_get (run_works run') (wi_work_id a) = Some w' \<and>
       (w' = w \<or> work_status w' = ReviewPending \<or> work_status w' = Finished) \<and>
       work_spec w' = work_spec w \<and> work_workspace w' = work_workspace w \<and>
       work_attempt w' = work_attempt w)"
  using assms(1)
proof (cases rule: operate_once_cases)
  case (recorded key role' run1)
  have "run1 = run\<lparr>run_works := run_works run1\<rparr>"
    using worker_operation_frame [OF recorded(6) authorize_worker [OF recorded(5)] assms(2)] by blast
  then have "run' = run\<lparr>run_works := run_works run', run_receipts := run_receipts run'\<rparr>"
    by (cases run1, cases run) (simp add: recorded(8) put_receipt_def)
  moreover have "run_works run' = run_works run1" by (simp add: recorded(8) put_receipt_def)
  ultimately show ?thesis
    using worker_operation_frame [OF recorded(6) authorize_worker [OF recorded(5)] assms(2)] by simp
qed simp_all

definition sample_artifact :: artifact where
  "sample_artifact =
     \<lparr>art_revision = sample_sha, art_changed_paths = [''f''], art_checks = [(''unit'', ''pass'')],
      art_evidence = [''log''], art_unresolved = [], art_integration_requirements = []\<rparr>"

definition sample_running :: work where
  "sample_running =
     (sample_work ''w1'')\<lparr>work_status := Running, work_workspace := Some sample_workspace,
       work_attempt := Some (sample_attempt ''a1'' False)\<rparr>"

theorem worker_authority_witness:
  "\<exists>role run' w'. operate_once sample_env ''s'' (Some \<lparr>wi_work_id = ''w1'', wi_attempt_id = ''a1''\<rparr>)
       (OpArtifact ''k1'' ''w1'' ''a1'' sample_artifact) (sample_run [(''w1'', sample_running)])
       = Inr (Recorded role, run') \<and>
     bt_get (run_works run') ''w1'' = Some w' \<and> work_status w' \<noteq> Integrated"
proof -
  have "case operate_once sample_env ''s'' (Some \<lparr>wi_work_id = ''w1'', wi_attempt_id = ''a1''\<rparr>)
       (OpArtifact ''k1'' ''w1'' ''a1'' sample_artifact) (sample_run [(''w1'', sample_running)]) of
      Inr (Recorded _, _) \<Rightarrow> True | _ \<Rightarrow> False"
    by code_simp
  then obtain role run' where
    r: "operate_once sample_env ''s'' (Some \<lparr>wi_work_id = ''w1'', wi_attempt_id = ''a1''\<rparr>)
       (OpArtifact ''k1'' ''w1'' ''a1'' sample_artifact) (sample_run [(''w1'', sample_running)])
       = Inr (Recorded role, run')"
    by (auto split: sum.splits prod.splits op_reply.splits)
  have "bt_wf (run_works (sample_run [(''w1'', sample_running)]))" by (simp add: sample_run_def bt_wf_def)
  from worker_authority [OF r this] obtain w w' where
    "bt_get (run_works (sample_run [(''w1'', sample_running)])) ''w1'' = Some w"
    "bt_get (run_works run') ''w1'' = Some w'"
    "w' = w \<or> work_status w' = ReviewPending \<or> work_status w' = Finished" by auto
  then have "work_status w' \<noteq> Integrated" by (auto simp: sample_run_def sample_running_def)
  with r \<open>bt_get (run_works run') ''w1'' = Some w'\<close> show ?thesis by blast
qed

text \<open>
  Every mutation of the planner tool, by any actor and against any host, keeps the run
  invariant: ordered maps stay ordered, works stay filed under their own id, every work's
  artifact, review, finish and integration receipts stay bound to one another, and the
  release ledger stays sound.
\<close>

lemma operation_keeps_invariant:
  assumes "operate_once env sid actor op run = Inr (reply, run')" and "run_ok run"
  shows "run_ok run'"
  using run_ok_operate [OF assms(2,1)] .

lemma sample_run_ok: "run_ok (sample_run [])"
  by (simp add: run_ok_def run_wf_def sample_run_def ledger_ok_def lane_def capacity_default_def)

text \<open>
  C2. A work becomes integrated only with everything proven at one revision: the artifact
  with every required check passing and nothing unresolved, its acceptance, its finish
  receipt and the integration receipt all name the same revision, the workspace's clean HEAD
  is that revision, no attempt is live, every required piece of integration evidence is
  present and valid, the release rounds allow it, and the configured host accepted it.
\<close>

theorem integration_proven:
  assumes "operate_once env sid actor (OpIntegrate key work_id receipt) run = Inr (Recorded role, run')"
  shows "actor = None \<and> (\<exists>w art rev fin ws. bt_get (run_works run) work_id = Some w \<and>
    work_artifact w = Some art \<and> art_revision art = rcp_revision receipt \<and>
    checks_pass (work_spec w) art \<and> art_unresolved art = [] \<and>
    work_review w = Some rev \<and> rev_accepted rev \<and> rev_revision rev = rcp_revision receipt \<and>
    work_finish w = Some fin \<and> rcp_revision fin = rcp_revision receipt \<and>
    work_workspace w = Some ws \<and> env_git_head env (ws_path ws) = Inr (rcp_revision receipt) \<and>
    env_git_status env (ws_path ws) = Inr [] \<and> \<not> attempt_live w \<and>
    (\<forall>k \<in> set (spec_required_integration_evidence (work_spec w)) \<union> set (bt_keys (art_integration_requirements art)).
       is_some_and (bt_get (rcp_evidence receipt) k) valid_evidence) \<and>
    integration_allowed run work_id receipt = Inr () \<and>
    integrate_check env (CheckOperation (OpIntegrate key work_id receipt)) = Inr () \<and>
    (\<exists>w'. bt_get (run_works run') work_id = Some w' \<and> work_status w' = Integrated \<and>
       work_integration w' = Some receipt))"
  using assms
proof (cases rule: operate_once_cases)
  case (recorded key' role' run1)
  have act: "actor = None"
  proof (rule ccontr)
    assume "actor \<noteq> None"
    then obtain a where "actor = Some a" by auto
    with recorded(5) have "worker_operation (OpIntegrate key work_id receipt)"
      using authorize_worker by simp
    then show False by (simp add: worker_operation_def)
  qed
  have op: "op_integrate env (OpIntegrate key work_id receipt) work_id receipt run = Inr (role', run1)"
    using recorded(6) by simp
  then obtain ws w0 where ws: "bt_get (run_works run) work_id = Some w0" "work_workspace w0 = Some ws"
    "verify_revision env (ws_path ws) (rcp_revision receipt) = Inr ()" "\<not> attempt_live w0"
    by (auto simp: op_integrate_def)
  from op show ?thesis
  proof (cases rule: op_integrate_Inr)
    case (1 w)
    have w: "w0 = w" using 1(1) ws(1) by simp
    obtain rev art where acc: "work_review w = Some rev" "rev_accepted rev" "rev_revision rev = rcp_revision receipt"
      "work_artifact w = Some art" "art_revision art = rcp_revision receipt"
      using finished_revision_accepted [OF 1(2)] by (auto simp: accepted_revision_Inr_iff)
    obtain fin where fin: "work_finish w = Some fin" "rcp_revision fin = rcp_revision receipt"
      "art_unresolved art = []" "checks_pass (work_spec w) art"
      using 1(2) acc by (auto simp: finished_revision_def is_some_and_iff)
    have ev: "\<forall>k \<in> set (spec_required_integration_evidence (work_spec w)) \<union> set (bt_keys (art_integration_requirements art)).
       is_some_and (bt_get (rcp_evidence receipt) k) valid_evidence"
      using 1(4) acc by (auto simp: required_integration_def)
    have "\<exists>w'. bt_get (run_works run') work_id = Some w' \<and> work_status w' = Integrated \<and>
       work_integration w' = Some receipt"
      using 1(1,6) recorded(8) by (simp add: put_receipt_def upd_work_def)
    with act 1(1,3,5) ws acc fin ev show ?thesis by (auto simp: w verify_revision_Inr_iff)
  qed
qed simp_all

definition sample_integration :: receipt where
  "sample_integration = \<lparr>rcp_revision = sample_sha, rcp_evidence = [(''merge'', ''PR 12'')]\<rparr>"

theorem integration_proven_witness:
  "\<exists>role run' w'. operate_once sample_env ''s'' None (OpIntegrate ''k1'' ''w1'' sample_integration)
       (sample_run [(''w1'', sample_finished)]) = Inr (Recorded role, run') \<and>
     bt_get (run_works run') ''w1'' = Some w' \<and> work_status w' = Integrated"
proof -
  have "case operate_once sample_env ''s'' None (OpIntegrate ''k1'' ''w1'' sample_integration)
       (sample_run [(''w1'', sample_finished)]) of Inr (Recorded _, _) \<Rightarrow> True | _ \<Rightarrow> False"
    by code_simp
  then obtain role run' where
    r: "operate_once sample_env ''s'' None (OpIntegrate ''k1'' ''w1'' sample_integration)
       (sample_run [(''w1'', sample_finished)]) = Inr (Recorded role, run')"
    by (auto split: sum.splits prod.splits op_reply.splits)
  from integration_proven [OF r] r show ?thesis by blast
qed

text \<open>
  C25. A run completes only when nothing is left: completion records that every work is
  integrated or retired with no live attempt, no release is active, every input is resolved,
  every wake acknowledged, the capacity host lists nothing unheld and the auditor reports no
  defect; and it changes nothing but the run's status and its receipt.
\<close>

theorem completion_requires_everything:
  assumes "operate_once env sid actor (OpComplete key ev) run = Inr (Recorded role, run')"
    and "run_wf run"
  shows "actor = None \<and> run_status run = RunRunning \<and> run_status run' = RunComplete \<and>
    (\<forall>k w. bt_get (run_works run) k = Some w \<longrightarrow>
       (work_status w = Integrated \<or> work_status w = Retired) \<and> \<not> attempt_live w) \<and>
    (\<forall>k r. bt_get (run_releases run) k = Some r \<longrightarrow> \<not> release_active r) \<and>
    (\<forall>k i. bt_get (run_inputs run) k = Some i \<longrightarrow> inp_acknowledged i) \<and>
    (\<forall>k wk. bt_get (run_wakes run) k = Some wk \<longrightarrow> wake_acknowledged wk) \<and>
    completion_allowed env run = Inr () \<and> completion_audit env run = Inr () \<and> valid_evidence ev \<and>
    run_works run' = run_works run \<and> run_releases run' = run_releases run"
  using assms(1)
proof (cases rule: operate_once_cases)
  case (recorded key' role' run1)
  have op: "op_complete env ev run = Inr run1" using recorded(6) by simp
  then have c: "valid_evidence ev" "\<not> bt_any (\<lambda>_ r. release_active r) (run_releases run)" "pending_works run = []"
    "\<not> bt_any (\<lambda>_ i. \<not> resolved i) (run_inputs run)" "\<not> bt_any (\<lambda>_ w. \<not> wake_acknowledged w) (run_wakes run)"
    "completion_allowed env run = Inr ()" "completion_audit env run = Inr ()"
    "run1 = run\<lparr>run_status := RunComplete\<rparr>"
    by (auto simp: op_complete_def)
  have "run_status run = RunRunning"
    using authorize_running [OF recorded(5)] by (simp add: ack_operation_def scope_operation_def)
  moreover have "actor = None"
    using authorize_worker [of "the actor" "OpComplete key ev" run] recorded(5)
    by (cases actor) (auto simp: worker_operation_def)
  moreover have "(work_status w = Integrated \<or> work_status w = Retired) \<and> \<not> attempt_live w"
    if "bt_get (run_works run) k = Some w" for k w
    using c(3) bt_mem_get [OF that] by (auto simp: pending_works_def filter_empty_conv)
  ultimately show ?thesis
    using c assms(2) by (auto simp: run_wf_def bt_any_iff resolved_def recorded(8) put_receipt_def)
qed simp_all

theorem completion_requires_everything_witness:
  "\<exists>role run'. operate_once sample_env ''s'' None (OpComplete ''k9'' ''queue empty'') (sample_run [])
       = Inr (Recorded role, run') \<and> run_status run' = RunComplete"
proof -
  have "case operate_once sample_env ''s'' None (OpComplete ''k9'' ''queue empty'') (sample_run []) of
      Inr (Recorded _, _) \<Rightarrow> True | _ \<Rightarrow> False"
    by code_simp
  then obtain role run' where
    r: "operate_once sample_env ''s'' None (OpComplete ''k9'' ''queue empty'') (sample_run [])
       = Inr (Recorded role, run')"
    by (auto split: sum.splits prod.splits op_reply.splits)
  have "run_wf (sample_run [])" using sample_run_ok by (simp add: run_ok_def)
  from completion_requires_everything [OF r this] r show ?thesis by blast
qed

text \<open>
  Reconciling rewrites history nowhere: a work that some release selected, or that is
  finished or integrated, can be reconciled only as a version-2 correction, whose earlier
  completion (assignment, status, artifact, review and receipts) is appended to the work's
  history; any changed assignment is kept among the prior ones; and whenever the assignment
  or its source changed, the old artifact, review and finish receipt no longer count.
\<close>

lemma reconcile_preserves_history:
  assumes "operate_once env sid actor (OpReconcile key spec source evidence) run = Inr (Recorded role, run')"
    and "bt_get (run_works run) (spec_work_id spec) = Some w"
  shows "\<exists>w'. bt_get (run_works run') (spec_work_id spec) = Some w' \<and> work_spec w' = spec \<and>
    work_attempt w' = None \<and> (work_status w' = Admitted \<or> work_status w' = Accepted) \<and>
    (work_status w \<in> {Finished, Integrated} \<or> in_any_release run (spec_work_id spec) \<longrightarrow>
       terminal_correction w \<and> rc_prior_completions (work_reconciliation w') =
         rc_prior_completions (work_reconciliation w) @ [completion_of w]) \<and>
    (spec \<noteq> work_spec w \<longrightarrow> rc_prior_specs (work_reconciliation w') =
         rc_prior_specs (work_reconciliation w) @ [work_spec w]) \<and>
    (spec \<noteq> work_spec w \<or> is_some_and (work_artifact w) (\<lambda>a. art_revision a \<noteq> source) \<longrightarrow>
       work_artifact w' = None \<and> work_review w' = None \<and> work_finish w' = None)"
  using assms(1)
proof (cases rule: operate_once_cases)
  case (recorded key' role' run1)
  then obtain ws where check: "check_reconcile env run spec evidence w = Inr ()"
    and run1: "run1 = ack_wake (''recovery:'' @ spec_work_id spec)
      (drop_resume (spec_work_id spec) (put_work (reconciled_work spec source evidence ws w) run))"
    using assms(2) by (auto simp: op_reconcile_def)
  let ?w = "reconciled_work spec source evidence ws w"
  have "bt_get (run_works run') (spec_work_id spec) = Some ?w"
    by (simp add: recorded(8) run1 put_receipt_def ack_wake_def drop_resume_def put_work_def reconciled_work_spec)
  moreover have "work_attempt ?w = None" "work_status ?w = Admitted \<or> work_status ?w = Accepted"
    by (auto simp: reconciled_work_def Let_def)
  moreover have "terminal_correction w \<longrightarrow> rc_prior_completions (work_reconciliation ?w) =
      rc_prior_completions (work_reconciliation w) @ [completion_of w]"
    by (simp add: reconciled_work_def Let_def)
  moreover have "spec \<noteq> work_spec w \<longrightarrow> rc_prior_specs (work_reconciliation ?w) =
      rc_prior_specs (work_reconciliation w) @ [work_spec w]"
    by (simp add: reconciled_work_def Let_def)
  moreover have "spec \<noteq> work_spec w \<or> is_some_and (work_artifact w) (\<lambda>a. art_revision a \<noteq> source) \<longrightarrow>
      work_artifact ?w = None \<and> work_review ?w = None \<and> work_finish ?w = None"
    by (simp add: reconciled_work_def Let_def)
  ultimately show ?thesis
    using check_reconcile_Inr [OF check] reconciled_work_spec by blast
qed simp_all

end
