(* ===== verification/Planner_Store.thy ===== *)
theory Planner_Store
  imports Planner_Samples "HOL-Library.Multiset"
begin

text \<open>
  The durable store behind a planner run (\<open>state.rs\<close>, \<open>planner_workflow::save\<close> and
  \<open>mutate\<close>): the optimistic-concurrency save, the wake journal and hook outbox that survive a
  crash between the two database files, and the exclusive workspace claims. A table is a
  map or a list of rows; a stored document is the run itself. A fresh save id
  (\<open>Uuid::new_v4\<close>) is an argument.
\<close>

section \<open>Tables\<close>

record planner_wake_event =
  pwe_wake_id :: string
  pwe_parent_router_session_id :: string
  pwe_work_id :: string
  pwe_reason :: string
  pwe_revision :: nat
  pwe_attempt_id :: "string option"
  pwe_router :: "nat \<times> nat"

record work_finished_event =
  wfe_work_id :: string
  wfe_plan_id :: string
  wfe_external_id :: "string option"
  wfe_status :: work_status
  wfe_parent_router_session_id :: string
  wfe_worker_id :: string
  wfe_cwd :: "string option"
  wfe_lease :: "string option"
  wfe_attempt_id :: "string option"
  wfe_attempt_ended :: bool
  wfe_revision :: "string option"
  wfe_router :: "nat \<times> nat"

datatype hook_event = PlannerWake planner_wake_event | WorkFinished work_finished_event

record journal_row =
  jr_id :: nat
  jr_sid :: string
  jr_revision :: nat
  jr_save_id :: string
  jr_payload :: hook_event

record store =
  st_runs :: "string \<rightharpoonup> nat \<times> planner_run"
  st_commits :: "(string \<times> string) set"
  st_journal :: "journal_row list"
  st_next_id :: nat
  st_outbox :: "hook_event list"
  st_workspaces :: "string \<rightharpoonup> string \<times> string \<times> string"
  st_sessions :: "string set"
  st_cleanup :: "string list"

section \<open>Saving a run\<close>

definition save_planner_run_with_receipt ::
  "string \<Rightarrow> nat \<Rightarrow> planner_run \<Rightarrow> string \<Rightarrow> store \<Rightarrow> (planner_error, nat \<times> store) result" where
  "save_planner_run_with_receipt sid expected document save_id st =
     (let changed = (if expected = 0 then st_runs st sid = None
                     else is_some_and (st_runs st sid) (\<lambda>(revision, _). revision = expected)) in
      if \<not> changed then Inl (RunErr ErrConcurrent)
      else Inr (expected + 1,
        st\<lparr>st_runs := (st_runs st)(sid \<mapsto> (if expected = 0 then 1 else expected + 1, document)),
           st_commits := (if save_id = [] then st_commits st else insert (sid, save_id) (st_commits st))\<rparr>))"

fun prepare_rows :: "nat \<Rightarrow> string \<Rightarrow> nat \<Rightarrow> string \<Rightarrow> hook_event list \<Rightarrow> journal_row list" where
  "prepare_rows i sid revision save_id [] = []"
| "prepare_rows i sid revision save_id (payload # events) =
     \<lparr>jr_id = i, jr_sid = sid, jr_revision = revision, jr_save_id = save_id, jr_payload = payload\<rparr>
     # prepare_rows (i + 1) sid revision save_id events"

definition prepare_planner_wakes ::
  "string \<Rightarrow> nat \<Rightarrow> string \<Rightarrow> hook_event list \<Rightarrow> store \<Rightarrow> store" where
  "prepare_planner_wakes sid revision save_id events st =
     st\<lparr>st_journal := st_journal st @ prepare_rows (st_next_id st) sid revision save_id events,
        st_next_id := st_next_id st + length events\<rparr>"

definition discard_planner_wakes :: "string \<Rightarrow> string \<Rightarrow> store \<Rightarrow> store" where
  "discard_planner_wakes sid save_id st =
     st\<lparr>st_journal := filter (\<lambda>r. \<not> (jr_sid r = sid \<and> jr_save_id r = save_id)) (st_journal st)\<rparr>"

definition stored_revision :: "string \<Rightarrow> store \<Rightarrow> nat" where
  "stored_revision sid st = (case st_runs st sid of None \<Rightarrow> 0 | Some (revision, _) \<Rightarrow> revision)"

definition planner_wake_receipts :: "string \<Rightarrow> store \<Rightarrow> nat \<times> string set" where
  "planner_wake_receipts sid st = (stored_revision sid st, snd ` {x \<in> st_commits st. fst x = sid})"

definition remove_planner_wake_receipts :: "string \<Rightarrow> string set \<Rightarrow> store \<Rightarrow> store" where
  "remove_planner_wake_receipts sid receipts st =
     st\<lparr>st_commits := {x \<in> st_commits st. \<not> (fst x = sid \<and> snd x \<in> receipts)}\<rparr>"

text \<open>
  A journal row of the session is delivered when its save has a receipt, kept while its
  save may still commit (or predates save ids), and dropped otherwise.
\<close>

datatype row_fate = Deliver | Keep | Drop

definition row_fate :: "string \<Rightarrow> nat \<Rightarrow> string set \<Rightarrow> journal_row \<Rightarrow> row_fate" where
  "row_fate sid revision receipts r =
     (if jr_sid r \<noteq> sid then Keep
      else if jr_save_id r = [] then Keep
      else if jr_save_id r \<in> receipts then Deliver
      else if revision < jr_revision r then Keep
      else Drop)"

definition materialize_planner_wakes :: "string \<Rightarrow> nat \<Rightarrow> string set \<Rightarrow> store \<Rightarrow> store" where
  "materialize_planner_wakes sid revision receipts st =
     st\<lparr>st_outbox := st_outbox st @
          map jr_payload (filter (\<lambda>r. row_fate sid revision receipts r = Deliver) (st_journal st)),
        st_journal := filter (\<lambda>r. row_fate sid revision receipts r = Keep) (st_journal st)\<rparr>"

definition pending_planner_wakes :: "string \<Rightarrow> store \<Rightarrow> store" where
  "pending_planner_wakes sid st =
     (let (revision, receipts) = planner_wake_receipts sid st in
      remove_planner_wake_receipts sid receipts (materialize_planner_wakes sid revision receipts st))"

definition save_planner_run_with_wakes ::
  "string \<Rightarrow> string \<Rightarrow> nat \<Rightarrow> planner_run \<Rightarrow> hook_event list \<Rightarrow> store \<Rightarrow>
   (planner_error, nat) result \<times> store" where
  "save_planner_run_with_wakes save_id sid expected document events st =
     (let st1 = prepare_planner_wakes sid (expected + 1) save_id events st in
      case save_planner_run_with_receipt sid expected document (if events = [] then [] else save_id) st1 of
        Inl e \<Rightarrow> (Inl e, discard_planner_wakes sid save_id st1)
      | Inr (revision, st2) \<Rightarrow> (Inr revision, pending_planner_wakes sid st2))"

text \<open>
  \<open>planner_workflow::save\<close>: the events of a save, then the save. \<open>me\<close> is the identity of the
  saving router process, \<open>hooked\<close> whether a lifecycle hook is configured.
\<close>

definition wake_event :: "nat \<times> nat \<Rightarrow> string \<Rightarrow> planner_run \<Rightarrow> string \<Rightarrow> wake \<Rightarrow> hook_event" where
  "wake_event me sid run wake_id w =
     PlannerWake \<lparr>pwe_wake_id = wake_id, pwe_parent_router_session_id = sid,
       pwe_work_id = wake_work_id w, pwe_reason = wake_reason w, pwe_revision = run_revision run + 1,
       pwe_attempt_id = Option.bind (bt_get (run_works run) (wake_work_id w))
         (\<lambda>x. map_option att_id (work_attempt x)),
       pwe_router = me\<rparr>"

definition finished_event :: "nat \<times> nat \<Rightarrow> string \<Rightarrow> string \<Rightarrow> work \<Rightarrow> hook_event" where
  "finished_event me sid work_id w =
     WorkFinished \<lparr>wfe_work_id = work_id, wfe_plan_id = spec_plan_id (work_spec w),
       wfe_external_id = spec_external_id (work_spec w), wfe_status = work_status w,
       wfe_parent_router_session_id = sid, wfe_worker_id = work_child_id w,
       wfe_cwd = map_option ws_path (work_workspace w), wfe_lease = map_option ws_lease (work_workspace w),
       wfe_attempt_id = map_option att_id (work_attempt w),
       wfe_attempt_ended = (case work_attempt w of None \<Rightarrow> True | Some a \<Rightarrow> att_ended a),
       wfe_revision = map_option rcp_revision (work_integration w), wfe_router = me\<rparr>"

definition wake_events :: "nat \<times> nat \<Rightarrow> string \<Rightarrow> planner_run option \<Rightarrow> planner_run \<Rightarrow> hook_event list" where
  "wake_events me sid previous run =
     map (\<lambda>(i, w). wake_event me sid run i w)
       (filter (\<lambda>(i, _). \<not> is_some_and previous (\<lambda>p. bt_has (run_wakes p) i)) (run_wakes run))"

definition finished_events :: "nat \<times> nat \<Rightarrow> string \<Rightarrow> planner_run option \<Rightarrow> planner_run \<Rightarrow> hook_event list" where
  "finished_events me sid previous run =
     map (\<lambda>(i, w). finished_event me sid i w)
       (filter (\<lambda>(i, w). work_status w = Integrated \<and>
          \<not> is_some_and previous (\<lambda>p. is_some_and (bt_get (run_works p) i) (\<lambda>x. work_status x = Integrated)))
        (run_works run))"

definition save ::
  "nat \<times> nat \<Rightarrow> bool \<Rightarrow> string \<Rightarrow> string \<Rightarrow> planner_run \<Rightarrow> store \<Rightarrow>
   (planner_error, planner_run) result \<times> store" where
  "save me hooked save_id sid run st =
     (let previous = map_option snd (st_runs st sid);
          events = (if hooked then wake_events me sid previous run @ finished_events me sid previous run
                    else []) in
      case save_planner_run_with_wakes save_id sid (run_revision run) run events st of
        (Inl e, st1) \<Rightarrow> (Inl e, st1)
      | (Inr revision, st1) \<Rightarrow> (Inr (run\<lparr>run_revision := revision\<rparr>), st1))"

definition load :: "string \<Rightarrow> store \<Rightarrow> planner_run option" where
  "load sid st = map_option (\<lambda>(revision, run). run\<lparr>run_revision := revision\<rparr>) (st_runs st sid)"

text \<open>
  \<open>mutate\<close>: up to sixteen rounds of load, apply and save. \<open>intf n\<close> is what other processes
  do to the store between the load and the save of round \<open>n\<close>; \<open>save_id n\<close> names that round's
  save.
\<close>

fun mutate_loop ::
  "nat \<Rightarrow> (nat \<Rightarrow> store \<Rightarrow> store) \<Rightarrow> (nat \<Rightarrow> string) \<Rightarrow> nat \<times> nat \<Rightarrow> bool \<Rightarrow> string \<Rightarrow>
   (planner_run \<Rightarrow> (planner_error, planner_run) result) \<Rightarrow> store \<Rightarrow>
   (planner_error, planner_run) result \<times> store" where
  "mutate_loop 0 intf save_id me hooked sid f st = (Inl (RunErr ErrContended), st)"
| "mutate_loop (Suc n) intf save_id me hooked sid f st =
     (case load sid st of
        None \<Rightarrow> (Inl (RunErr ErrStateMissing), st)
      | Some run \<Rightarrow>
          (case f run of
             Inl e \<Rightarrow> (Inl e, st)
           | Inr run1 \<Rightarrow>
               (case save me hooked (save_id n) sid run1 (intf n st) of
                  (Inr run2, st1) \<Rightarrow> (Inr run2, st1)
                | (Inl e, st1) \<Rightarrow>
                    if e = (RunErr ErrConcurrent) then mutate_loop n intf save_id me hooked sid f st1
                    else (Inl e, st1))))"

definition mutate ::
  "(nat \<Rightarrow> store \<Rightarrow> store) \<Rightarrow> (nat \<Rightarrow> string) \<Rightarrow> nat \<times> nat \<Rightarrow> bool \<Rightarrow> string \<Rightarrow>
   (planner_run \<Rightarrow> (planner_error, planner_run) result) \<Rightarrow> store \<Rightarrow>
   (planner_error, planner_run) result \<times> store" where
  "mutate = mutate_loop 16"

section \<open>Workspace claims\<close>

definition claim_row :: "string \<Rightarrow> string \<Rightarrow> string \<Rightarrow> string \<Rightarrow> store \<Rightarrow> (planner_error, unit) result \<times> store"
where
  "claim_row path sid work_id lease st =
     (let st1 = (if st_workspaces st path = None
                 then st\<lparr>st_workspaces := (st_workspaces st)(path \<mapsto> (sid, work_id, lease))\<rparr> else st) in
      (if st_workspaces st1 path = Some (sid, work_id, lease) then Inr () else Inl (HostErr (ErrWorkspaceHeld path)),
       st1))"

definition planner_workspace_holder :: "string \<Rightarrow> store \<Rightarrow> (string \<times> string) option" where
  "planner_workspace_holder path st = map_option (\<lambda>(s, w, _). (s, w)) (st_workspaces st path)"

definition release_planner_workspace :: "string \<Rightarrow> string \<Rightarrow> string \<Rightarrow> store \<Rightarrow> store" where
  "release_planner_workspace path sid work_id st =
     (case st_workspaces st path of
        None \<Rightarrow> st
      | Some (s, w, _) \<Rightarrow>
          if s = sid \<and> w = work_id then st\<lparr>st_workspaces := (st_workspaces st)(path := None)\<rparr> else st)"

definition planner_claim_stale :: "planner_env \<Rightarrow> string \<Rightarrow> string \<Rightarrow> store \<Rightarrow> bool" where
  "planner_claim_stale env holder work_id st =
     (case st_runs st holder of
        None \<Rightarrow> False
      | Some (_, run) \<Rightarrow>
          if run_status run = RunSuperseded then True
          else case Option.bind (bt_get (run_works run) work_id) work_attempt of
            None \<Rightarrow>
              run_status run = RunPaused \<and>
              is_some_and (run_owner run) (\<lambda>o1. own_pid o1 \<noteq> 0 \<and> own_started_at_ms o1 \<noteq> 0 \<and>
                \<not> run_owner_alive env o1)
          | Some a \<Rightarrow> \<not> owner_alive env a \<or> (att_ended a \<and> run_status run \<noteq> RunRunning))"

text \<open>
  Removing a finished session: its run, its receipts and its session row go in one shard
  transaction, its claims and journal rows in another; a cleanup journal bridges the two.
\<close>

definition finish_planner_cleanup :: "string \<Rightarrow> store \<Rightarrow> store" where
  "finish_planner_cleanup sid st =
     st\<lparr>st_workspaces := (\<lambda>path. case st_workspaces st path of
            None \<Rightarrow> None | Some (s, w, l) \<Rightarrow> if s = sid then None else Some (s, w, l)),
        st_journal := filter (\<lambda>r. jr_sid r \<noteq> sid) (st_journal st),
        st_cleanup := filter (\<lambda>s. s \<noteq> sid) (st_cleanup st)\<rparr>"

definition prepare_planner_cleanup :: "string \<Rightarrow> store \<Rightarrow> store" where
  "prepare_planner_cleanup sid st =
     (if sid \<in> set (st_cleanup st) then st else st\<lparr>st_cleanup := st_cleanup st @ [sid]\<rparr>)"

definition remove_planner_row :: "string \<Rightarrow> nat \<Rightarrow> store \<Rightarrow> (planner_error, store) result" where
  "remove_planner_row sid revision st =
     (if \<not> is_some_and (st_runs st sid) (\<lambda>(r, _). r = revision) then Inl (RunErr ErrConcurrent)
      else Inr (st\<lparr>st_runs := (st_runs st)(sid := None),
        st_commits := {x \<in> st_commits st. fst x \<noteq> sid},
        st_sessions := st_sessions st - {sid}\<rparr>))"

definition remove_planner_session :: "string \<Rightarrow> nat \<Rightarrow> store \<Rightarrow> (planner_error, unit) result \<times> store" where
  "remove_planner_session sid revision st =
     (let st1 = prepare_planner_cleanup sid st in
      case remove_planner_row sid revision st1 of
        Inl e \<Rightarrow> (Inl e, st1)
      | Inr st2 \<Rightarrow> (Inr (), finish_planner_cleanup sid st2))"

text \<open>Delivering what other sessions left in the journals, session by session.\<close>

definition reconcile_cleanup :: "string \<Rightarrow> store \<Rightarrow> store" where
  "reconcile_cleanup sid st =
     (if st_runs st sid = None \<and> sid \<notin> st_sessions st then finish_planner_cleanup sid st else st)"

definition reconcile_planner_wakes :: "store \<Rightarrow> store" where
  "reconcile_planner_wakes st0 =
     (let st = fold pending_planner_wakes (sort (remdups (map jr_sid (st_journal st0)))) st0 in
      fold reconcile_cleanup (sort (st_cleanup st)) st)"

definition claim_planner_workspace ::
  "planner_env \<Rightarrow> string \<Rightarrow> string \<Rightarrow> string \<Rightarrow> string \<Rightarrow> store \<Rightarrow> (planner_error, unit) result \<times> store" where
  "claim_planner_workspace env path sid work_id lease st0 =
     (let (claimed, st) = claim_row path sid work_id lease (reconcile_planner_wakes st0) in
      if is_ok claimed then (claimed, st)
      else case planner_workspace_holder path st of
        None \<Rightarrow> (claimed, st)
      | Some (holder, holder_work) \<Rightarrow>
          if holder = sid \<or> \<not> planner_claim_stale env holder holder_work st then (claimed, st)
          else claim_row path sid work_id lease (release_planner_workspace path holder holder_work st))"

section \<open>No lost update\<close>

lemma save_receipt_Inr_iff:
  "save_planner_run_with_receipt sid expected document save_id st = Inr (revision, st') \<longleftrightarrow>
     (if expected = 0 then st_runs st sid = None else (\<exists>d. st_runs st sid = Some (expected, d))) \<and>
     revision = expected + 1 \<and>
     st' = st\<lparr>st_runs := (st_runs st)(sid \<mapsto> (expected + 1, document)),
       st_commits := (if save_id = [] then st_commits st else insert (sid, save_id) (st_commits st))\<rparr>"
  by (auto simp: save_planner_run_with_receipt_def Let_def is_some_and_iff)

lemma pending_wakes_runs [simp]: "st_runs (pending_planner_wakes sid st) = st_runs st"
  "st_workspaces (pending_planner_wakes sid st) = st_workspaces st"
  by (simp_all add: pending_planner_wakes_def Let_def planner_wake_receipts_def
      remove_planner_wake_receipts_def materialize_planner_wakes_def)

lemma reconcile_wakes_frame [simp]:
  "st_runs (reconcile_planner_wakes st) = st_runs st"
proof -
  have "st_runs (fold pending_planner_wakes ids st) = st_runs st" for ids st
    by (induction ids arbitrary: st) simp_all
  moreover have "st_runs (fold reconcile_cleanup ids st) = st_runs st" for ids st
    by (induction ids arbitrary: st) (simp_all add: reconcile_cleanup_def finish_planner_cleanup_def)
  ultimately show ?thesis by (simp add: reconcile_planner_wakes_def Let_def)
qed

lemma prepare_wakes_runs [simp]: "st_runs (prepare_planner_wakes sid revision save_id events st) = st_runs st"
  by (simp add: prepare_planner_wakes_def)

lemma discard_wakes_runs [simp]: "st_runs (discard_planner_wakes sid save_id st) = st_runs st"
  by (simp add: discard_planner_wakes_def)

lemma save_runs:
  "st_runs (snd (save me hooked save_id sid run st)) =
     (if is_ok (fst (save me hooked save_id sid run st))
      then (st_runs st)(sid \<mapsto> (run_revision run + 1, run)) else st_runs st)"
  by (auto simp: save_def Let_def save_planner_run_with_wakes_def save_planner_run_with_receipt_def)

lemma save_Inr:
  assumes "save me hooked save_id sid run st = (Inr run', st')"
  shows "run' = run\<lparr>run_revision := run_revision run + 1\<rparr> \<and>
    (if run_revision run = 0 then st_runs st sid = None else (\<exists>d. st_runs st sid = Some (run_revision run, d))) \<and>
    st_runs st' = (st_runs st)(sid \<mapsto> (run_revision run + 1, run))"
  using assms
  by (auto simp: save_def Let_def save_planner_run_with_wakes_def save_receipt_Inr_iff
      split: sum.splits if_splits)

lemma save_concurrent:
  assumes "save me hooked save_id sid run st = (Inl e, st')"
  shows "e = RunErr ErrConcurrent \<and> st_runs st' = st_runs st"
  using assms
  by (auto simp: save_def Let_def save_planner_run_with_wakes_def save_planner_run_with_receipt_def
      split: if_splits)

text \<open>
  What the planner relies on about everybody who writes the same store: a session's row
  changes only together with its revision, upwards. Whatever several writers do in
  sequence has the same property, so an unchanged revision means an unchanged document.
\<close>

locale cas_writer =
  fixes sid :: string and act :: "store \<Rightarrow> store"
  assumes act_step: "st_runs (act st) sid = st_runs st sid \<or> stored_revision sid st < stored_revision sid (act st)"
begin

lemma act_same: "stored_revision sid (act st) = stored_revision sid st \<Longrightarrow> st_runs (act st) sid = st_runs st sid"
  using act_step [of st] by auto

lemma act_mono: "stored_revision sid st \<le> stored_revision sid (act st)"
  using act_step [of st] by (auto simp: stored_revision_def)

lemma act_funpow: "st_runs ((act ^^ n) st) sid = st_runs st sid \<or>
    stored_revision sid st < stored_revision sid ((act ^^ n) st)"
proof (induction n)
  case (Suc n)
  show ?case
    using Suc act_step [of "(act ^^ n) st"] by (auto simp: stored_revision_def)
qed simp

end

interpretation saver: cas_writer sid "\<lambda>st. snd (save me hooked save_id other run st)"
  for sid me hooked save_id other run
proof
  fix st
  show "st_runs (snd (save me hooked save_id other run st)) sid = st_runs st sid \<or>
    stored_revision sid st < stored_revision sid (snd (save me hooked save_id other run st))"
  proof (cases "save me hooked save_id other run st")
    case (Pair res st')
    show ?thesis
    proof (cases res)
      case (Inl e)
      with Pair save_concurrent show ?thesis by fastforce
    next
      case (Inr run')
      with Pair save_Inr [of me hooked save_id other run st run' st'] show ?thesis
        by (cases "other = sid") (auto simp: stored_revision_def split: if_splits)
    qed
  qed
qed

interpretation reconciler: cas_writer sid reconcile_planner_wakes for sid
  by unfold_locales simp

lemma save_after_load:
  assumes "cas_writer sid act" and "load sid st = Some run0" and "run_revision run1 = run_revision run0"
    and "save me hooked save_id sid run1 (act st) = (Inr run', st')"
  shows "load sid (act st) = Some run0"
proof -
  have rev: "stored_revision sid st = run_revision run0" "st_runs st sid \<noteq> None"
    using assms(2) by (auto simp: load_def stored_revision_def)
  note s = save_Inr [OF assms(4)]
  have "stored_revision sid (act st) = run_revision run0"
    using s assms(3) by (auto simp: stored_revision_def split: if_splits)
  then have "st_runs (act st) sid = st_runs st sid"
    using cas_writer.act_same [OF assms(1)] rev by simp
  then show ?thesis using assms(2) by (simp add: load_def)
qed

text \<open>
  \<open>contended \<dots> n st st'\<close>: every round of \<open>mutate_loop\<close> started from \<open>st\<close> so far lost the race,
  \<open>n\<close> rounds are left and the store is \<open>st'\<close>.
\<close>

inductive contended ::
  "(nat \<Rightarrow> store \<Rightarrow> store) \<Rightarrow> (nat \<Rightarrow> string) \<Rightarrow> nat \<times> nat \<Rightarrow> bool \<Rightarrow> string \<Rightarrow>
   (planner_run \<Rightarrow> (planner_error, planner_run) result) \<Rightarrow> nat \<Rightarrow> store \<Rightarrow> nat \<Rightarrow> store \<Rightarrow> bool"
  for intf ids me hooked sid f k st where
  start: "contended intf ids me hooked sid f k st k st"
| lost: "contended intf ids me hooked sid f k st (Suc n) s \<Longrightarrow> load sid s = Some r \<Longrightarrow> f r = Inr r' \<Longrightarrow>
    save me hooked (ids n) sid r' (intf n s) = (Inl (RunErr ErrConcurrent), s') \<Longrightarrow>
    contended intf ids me hooked sid f k st n s'"

lemma mutate_loop_linear:
  assumes "\<And>n. cas_writer sid (intf n)"
    and "\<And>r r'. f r = Inr r' \<Longrightarrow> run_revision r' = run_revision r"
    and "mutate_loop n intf ids me hooked sid f s = (Inr run', st')"
    and "contended intf ids me hooked sid f k st n s"
  shows "\<exists>n s run0 run1. contended intf ids me hooked sid f k st (Suc n) s \<and>
    load sid (intf n s) = Some run0 \<and> f run0 = Inr run1 \<and>
    save me hooked (ids n) sid run1 (intf n s) = (Inr run', st') \<and>
    run' = run1\<lparr>run_revision := run_revision run0 + 1\<rparr> \<and>
    st_runs st' = (st_runs (intf n s))(sid \<mapsto> (run_revision run0 + 1, run1))"
  using assms(3,4)
proof (induction n arbitrary: s)
  case (Suc n)
  obtain run0 where l: "load sid s = Some run0" using Suc.prems by (auto split: option.splits)
  obtain run1 where f: "f run0 = Inr run1" using Suc.prems l by (auto split: sum.splits)
  obtain res st1 where sv: "save me hooked (ids n) sid run1 (intf n s) = (res, st1)"
    by (cases "save me hooked (ids n) sid run1 (intf n s)")
  show ?case
  proof (cases res)
    case (Inl e)
    with sv save_concurrent have e: "e = RunErr ErrConcurrent" by blast
    with Suc.prems l f sv Inl have "mutate_loop n intf ids me hooked sid f st1 = (Inr run', st')" by simp
    moreover have "contended intf ids me hooked sid f k st n st1"
      using contended.lost [of intf ids me hooked sid f k st n s, OF Suc.prems(2) l f] sv Inl e by simp
    ultimately show ?thesis by (rule Suc.IH)
  next
    case (Inr run2)
    then have eq: "run2 = run'" "st1 = st'" using Suc.prems l f sv by simp_all
    note sv' = sv [unfolded Inr eq]
    have rev: "run_revision run1 = run_revision run0" using assms(2) f by blast
    have "load sid (intf n s) = Some run0"
      using save_after_load [OF assms(1) l rev sv'] .
    moreover have "run' = run1\<lparr>run_revision := run_revision run0 + 1\<rparr>"
      "st_runs st' = (st_runs (intf n s))(sid \<mapsto> (run_revision run0 + 1, run1))"
      using save_Inr [OF sv'] rev by simp_all
    ultimately show ?thesis using f sv' Suc.prems(2) by blast
  qed
qed simp

text \<open>
  C6. No update is lost. Other processes may act between a mutation's load and its save, as
  long as they too change the session's row only with its revision. If the mutation
  returns, then in some round, after the earlier ones lost the race, the document it was
  applied to was the one stored at the moment of the save, the stored document is the
  result with the revision raised by one, and no other session's document changed.
\<close>

theorem mutate_no_lost_update:
  assumes "\<And>n. cas_writer sid (intf n)"
    and "\<And>r r'. f r = Inr r' \<Longrightarrow> run_revision r' = run_revision r"
    and "mutate intf ids me hooked sid f st = (Inr run', st')"
  shows "\<exists>n s run0 run1. contended intf ids me hooked sid f 16 st (Suc n) s \<and>
    load sid (intf n s) = Some run0 \<and> f run0 = Inr run1 \<and>
    save me hooked (ids n) sid run1 (intf n s) = (Inr run', st') \<and>
    run' = run1\<lparr>run_revision := stored_revision sid (intf n s) + 1\<rparr> \<and> load sid st' = Some run' \<and>
    (\<forall>other. other \<noteq> sid \<longrightarrow> st_runs st' other = st_runs (intf n s) other)"
proof -
  from mutate_loop_linear [OF assms(1,2) assms(3) [unfolded mutate_def] contended.start]
  obtain n s run0 run1 where r: "contended intf ids me hooked sid f 16 st (Suc n) s"
    "load sid (intf n s) = Some run0" "f run0 = Inr run1"
    "save me hooked (ids n) sid run1 (intf n s) = (Inr run', st')"
    "run' = run1\<lparr>run_revision := run_revision run0 + 1\<rparr>"
    "st_runs st' = (st_runs (intf n s))(sid \<mapsto> (run_revision run0 + 1, run1))"
    by blast
  have "stored_revision sid (intf n s) = run_revision run0"
    using r(2) by (auto simp: load_def stored_revision_def)
  moreover have "load sid st' = Some run'"
    using r by (simp add: load_def)
  ultimately show ?thesis using r
    by (intro exI [of _ n] exI [of _ s] exI [of _ run0] exI [of _ run1]) simp
qed

definition empty_store :: store where
  "empty_store = \<lparr>st_runs = Map.empty, st_commits = {}, st_journal = [], st_next_id = 0, st_outbox = [],
     st_workspaces = Map.empty, st_sessions = {}, st_cleanup = []\<rparr>"

lemma mutate_first_round:
  assumes "load sid st = Some run0" and "f run0 = Inr run1"
    and "save me hooked (ids 15) sid run1 (intf 15 st) = (Inr run2, st1)"
  shows "mutate intf ids me hooked sid f st = (Inr run2, st1)"
proof -
  have "mutate intf ids me hooked sid f st = mutate_loop (Suc 15) intf ids me hooked sid f st"
    by (simp add: mutate_def)
  also have "\<dots> = (Inr run2, st1)" unfolding mutate_loop.simps(2) assms(1) using assms(2,3) by simp
  finally show ?thesis .
qed

lemma save_fresh:
  assumes "st_runs st sid = Some (run_revision run, d)" and "run_revision run \<noteq> 0"
  shows "\<exists>st'. save me hooked save_id sid run st = (Inr (run\<lparr>run_revision := run_revision run + 1\<rparr>), st')"
  using assms
  by (simp add: save_def Let_def save_planner_run_with_wakes_def save_planner_run_with_receipt_def is_some_and_iff)

theorem mutate_no_lost_update_witness:
  "\<exists>run' st'. mutate (\<lambda>n st. snd (save (8, 80) True ''x'' ''other'' (sample_run []) st)) (\<lambda>n. ''save'')
       (7, 70) True ''s'' (\<lambda>r. Inr (r\<lparr>run_idle_heartbeats := 5\<rparr>))
       (empty_store\<lparr>st_runs := [''s'' \<mapsto> (4, sample_run [])]\<rparr>) = (Inr run', st') \<and> load ''s'' st' = Some run'"
proof -
  let ?intf = "\<lambda>(n::nat) st. snd (save (8, 80) True ''x'' ''other'' (sample_run []) st)"
  let ?f = "\<lambda>r. Inr (r\<lparr>run_idle_heartbeats := 5\<rparr>) :: (planner_error, planner_run) result"
  let ?st = "empty_store\<lparr>st_runs := [''s'' \<mapsto> (4, sample_run [])]\<rparr>"
  let ?run = "(sample_run [])\<lparr>run_revision := 4, run_idle_heartbeats := 5\<rparr>"
  have i: "st_runs (?intf 15 ?st) ''s'' = Some (4, sample_run [])"
    by (simp add: save_runs)
  obtain st' where s: "save (7, 70) True ''save'' ''s'' ?run (?intf 15 ?st) = (Inr (?run\<lparr>run_revision := 5\<rparr>), st')"
    using save_fresh [of "?intf 15 ?st" "''s''" ?run] i by fastforce
  have m: "mutate ?intf (\<lambda>n. ''save'') (7, 70) True ''s'' ?f ?st = (Inr (?run\<lparr>run_revision := 5\<rparr>), st')"
    using mutate_first_round [of "''s''" ?st "(sample_run [])\<lparr>run_revision := 4\<rparr>" ?f ?run "(7, 70)" True
        "\<lambda>n. ''save''" ?intf, OF _ _ s] by (simp add: load_def)
  from mutate_no_lost_update [OF saver.cas_writer_axioms _ m] m show ?thesis by auto
qed

section \<open>A mutation gets through\<close>

text \<open>A writer that leaves the session's row alone.\<close>

definition quiet :: "string \<Rightarrow> (store \<Rightarrow> store) \<Rightarrow> bool" where
  "quiet sid act \<longleftrightarrow> (\<forall>st. st_runs (act st) sid = st_runs st sid)"

lemma writer_keeps_run:
  assumes "cas_writer sid act" and "\<exists>r d. st_runs st sid = Some (r, d) \<and> 0 < r"
  shows "\<exists>r d. st_runs (act st) sid = Some (r, d) \<and> 0 < r"
  using cas_writer.act_step [OF assms(1), of st] assms(2)
  by (auto simp: stored_revision_def split: option.splits)

lemma load_positive: "\<exists>r d. st_runs st sid = Some (r, d) \<and> 0 < r \<Longrightarrow> \<exists>run. load sid st = Some run \<and> 0 < run_revision run"
  by (auto simp: load_def)

lemma mutate_loop_progress:
  assumes "\<And>n. cas_writer sid (intf n)" and "k < n" and "quiet sid (intf k)"
    and "\<And>r. \<exists>r'. f r = Inr r' \<and> run_revision r' = run_revision r"
    and "\<exists>r d. st_runs st sid = Some (r, d) \<and> 0 < r"
  shows "is_ok (fst (mutate_loop n intf ids me hooked sid f st))"
  using assms(2,5)
proof (induction n arbitrary: st)
  case (Suc n)
  obtain run0 where l: "load sid st = Some run0" "0 < run_revision run0"
    using load_positive [OF Suc.prems(2)] by blast
  obtain run1 where f: "f run0 = Inr run1" "run_revision run1 = run_revision run0" using assms(4) by blast
  obtain res st1 where sv: "save me hooked (ids n) sid run1 (intf n st) = (res, st1)" by fastforce
  show ?case
  proof (cases res)
    case (Inr run2)
    then show ?thesis using l f sv by simp
  next
    case (Inl e)
    have "n \<noteq> k"
    proof
      assume "n = k"
      then have "st_runs (intf n st) sid = st_runs st sid" using assms(3) by (simp add: quiet_def)
      then obtain d where "st_runs (intf n st) sid = Some (run_revision run1, d)"
        using l f by (auto simp: load_def)
      from save_fresh [OF this, of me hooked "ids n"] l f sv Inl show False by auto
    qed
    moreover have "st_runs st1 = st_runs (intf n st)" "e = RunErr ErrConcurrent"
      using save_concurrent sv Inl by blast+
    ultimately show ?thesis
      using Suc.IH [of st1] writer_keeps_run [OF assms(1) Suc.prems(2), of n] Suc.prems(1) l f sv Inl by simp
  qed
qed simp

text \<open>
  A mutation gets through: if the session has a run and the change applies to every
  document, then a mutation returns a result as soon as one of its sixteen rounds is not
  raced, whatever the revision-respecting writers of the other rounds do.
\<close>

lemma mutate_progress:
  assumes "\<And>n. cas_writer sid (intf n)" and "k < 16" and "quiet sid (intf k)"
    and "\<And>r. \<exists>r'. f r = Inr r' \<and> run_revision r' = run_revision r"
    and "st_runs st sid = Some (revision, document)" and "0 < revision"
  shows "\<exists>run' st'. mutate intf ids me hooked sid f st = (Inr run', st') \<and> load sid st' = Some run'"
proof -
  have "is_ok (fst (mutate intf ids me hooked sid f st))"
    unfolding mutate_def using assms by (intro mutate_loop_progress [of sid intf k]) auto
  then obtain run' st' where m: "mutate intf ids me hooked sid f st = (Inr run', st')"
    by (metis is_ok.elims(2) prod.collapse)
  have "\<And>r r'. f r = Inr r' \<Longrightarrow> run_revision r' = run_revision r"
    using assms(4) by (metis sum.inject(2))
  from mutate_loop_linear [OF assms(1) this m [unfolded mutate_def] contended.start]
  have "load sid st' = Some run'" by (auto simp: load_def)
  with m show ?thesis by blast
qed

section \<open>Workspace claims are exclusive\<close>

lemma reconcile_pending_frame:
  "st_workspaces (fold pending_planner_wakes ids st) = st_workspaces st"
  "st_runs (fold pending_planner_wakes ids st) = st_runs st"
  "st_sessions (fold pending_planner_wakes ids st) = st_sessions st"
  by (induction ids arbitrary: st) (simp_all add: pending_planner_wakes_def Let_def
      planner_wake_receipts_def remove_planner_wake_receipts_def materialize_planner_wakes_def)

lemma reconcile_cleanup_step:
  assumes "st_workspaces st path = Some (h, w, l)" and "st_runs st h \<noteq> None \<or> h \<in> st_sessions st"
  shows "st_workspaces (reconcile_cleanup s st) path = Some (h, w, l)"
    and "st_runs (reconcile_cleanup s st) h \<noteq> None \<or> h \<in> st_sessions (reconcile_cleanup s st)"
  using assms by (auto simp: reconcile_cleanup_def finish_planner_cleanup_def)

lemma reconcile_cleanup_claims:
  assumes "st_workspaces st path = Some (h, w, l)" and "st_runs st h \<noteq> None \<or> h \<in> st_sessions st"
  shows "st_workspaces (fold reconcile_cleanup ids st) path = Some (h, w, l)"
  using assms
proof (induction ids arbitrary: st)
  case (Cons s ids)
  from Cons.IH [OF reconcile_cleanup_step [OF Cons.prems]] show ?case by simp
qed simp

text \<open>Reconciliation frees the claims of removed sessions only.\<close>

lemma reconcile_claims:
  assumes "st_workspaces st path = Some (h, w, l)" and "st_runs st h \<noteq> None \<or> h \<in> st_sessions st"
  shows "st_workspaces (reconcile_planner_wakes st) path = Some (h, w, l)"
  unfolding reconcile_planner_wakes_def Let_def
  using assms by (intro reconcile_cleanup_claims) (simp_all add: reconcile_pending_frame)

lemma claim_stale_cong: "st_runs st = st_runs st' \<Longrightarrow> planner_claim_stale env h w st = planner_claim_stale env h w st'"
  by (simp add: planner_claim_stale_def)

text \<open>
  C26. A workspace is taken over safely. A successful claim of a path leaves it held by exactly
  this assignment and every other claim as reconciliation left it; before, the path was
  free, or held by this very assignment, or held by another session whose claim is stale:
  its run is superseded, or its attempt's owner is gone or ended in a run that is not
  running, or it never started an attempt and its paused coordinator is gone.
\<close>

theorem workspace_claim_exclusive:
  assumes "claim_planner_workspace env path sid work_id lease st = (Inr (), st')"
  shows "st_workspaces st' = (st_workspaces (reconcile_planner_wakes st))(path \<mapsto> (sid, work_id, lease)) \<and>
    st_runs st' = st_runs st \<and>
    (case st_workspaces (reconcile_planner_wakes st) path of
       None \<Rightarrow> True
     | Some (h, w, l) \<Rightarrow> (h, w, l) = (sid, work_id, lease) \<or> h \<noteq> sid \<and> planner_claim_stale env h w st)"
  using assms claim_stale_cong [of "reconcile_planner_wakes st" st env]
  by (auto simp: claim_planner_workspace_def claim_row_def Let_def planner_workspace_holder_def
      release_planner_workspace_def split: if_splits option.splits)

theorem workspace_claim_exclusive_witness:
  "\<exists>st'. claim_planner_workspace sample_env ''/w'' ''new'' ''a'' ''lease''
      (empty_store\<lparr>st_workspaces := [''/w'' \<mapsto> (''old'', ''a'', ''lease-0'')],
         st_runs := [''old'' \<mapsto> (4, (sample_run [])\<lparr>run_status := RunSuperseded\<rparr>)]\<rparr>) = (Inr (), st') \<and>
    st_workspaces st' ''/w'' = Some (''new'', ''a'', ''lease'')"
proof -
  let ?st = "empty_store\<lparr>st_workspaces := [''/w'' \<mapsto> (''old'', ''a'', ''lease-0'')],
     st_runs := [''old'' \<mapsto> (4, (sample_run [])\<lparr>run_status := RunSuperseded\<rparr>)]\<rparr>"
  have "reconcile_planner_wakes ?st = ?st" by (simp add: reconcile_planner_wakes_def empty_store_def Let_def)
  then have "fst (claim_planner_workspace sample_env ''/w'' ''new'' ''a'' ''lease'' ?st) = Inr ()"
    by (simp add: claim_planner_workspace_def claim_row_def planner_workspace_holder_def
        planner_claim_stale_def release_planner_workspace_def)
  then obtain st' where c: "claim_planner_workspace sample_env ''/w'' ''new'' ''a'' ''lease'' ?st = (Inr (), st')"
    by (metis prod.collapse)
  from workspace_claim_exclusive [OF c] c show ?thesis by auto
qed

text \<open>
  A live holder keeps its workspace: while its run is running and the process of its
  attempt is alive, every claim of the path by another assignment is refused and changes
  no claim to the path.
\<close>

lemma live_claim_kept:
  assumes "st_workspaces st path = Some (h, w, l)"
    and "st_runs st h = Some (revision, run)" and "run_status run = RunRunning"
    and "bt_get (run_works run) w = Some x" and "work_attempt x = Some a" and "owner_alive env a"
    and "(sid, work_id, lease) \<noteq> (h, w, l)"
  shows "fst (claim_planner_workspace env path sid work_id lease st) = Inl (HostErr (ErrWorkspaceHeld path)) \<and>
    st_workspaces (snd (claim_planner_workspace env path sid work_id lease st)) path = Some (h, w, l)"
proof -
  have "st_workspaces (reconcile_planner_wakes st) path = Some (h, w, l)"
    using assms(1,2) by (intro reconcile_claims) auto
  moreover have "\<not> planner_claim_stale env h w (reconcile_planner_wakes st)"
    using assms(2-6) by (simp add: planner_claim_stale_def)
  ultimately show ?thesis
    using assms(7) by (auto simp: claim_planner_workspace_def claim_row_def planner_workspace_holder_def)
qed

end
