(* ===== verification/Planner_Outbox.thy ===== *)
theory Planner_Outbox
  imports Planner_Store
begin

text \<open>
  The wake outbox as a protocol between processes that may stop at any point. A save with
  events is three transactions on two database files (prepare in the journal, commit with
  a receipt in the shard, discard after a failure); a delivery is three more (read the
  revision and the receipts, materialize, remove the receipts). Any process may run any of
  them at any time, and any process may stop between two of them. The theory states what
  the outbox holds in every reachable state and that the calls of \<open>state.rs\<close> are sequences
  of these steps.
\<close>

section \<open>Steps\<close>

datatype save_phase = Prepared | Committed | SaveFailed

record pending_save =
  ps_sid :: string
  ps_expected :: nat
  ps_events :: "hook_event list"
  ps_phase :: save_phase

record outbox_world =
  ow_store :: store
  ow_saves :: "string \<rightharpoonup> pending_save"
  ow_reads :: "(string \<times> nat \<times> string set) set"
  ow_done :: "(string \<times> nat \<times> string set) set"

text \<open>
  \<open>ow_saves\<close> remembers every save by its save id, \<open>ow_reads\<close> every answer of
  \<open>planner_wake_receipts\<close> some process may still act on, \<open>ow_done\<close> those already
  materialized. They are history: no step of the code reads them except its own entry.
\<close>

inductive outbox_step :: "outbox_world \<Rightarrow> outbox_world \<Rightarrow> bool" where
  prepare: "ow_saves w s = None \<Longrightarrow> s \<noteq> [] \<Longrightarrow> events \<noteq> [] \<Longrightarrow>
    outbox_step w (w\<lparr>ow_store := prepare_planner_wakes sid (expected + 1) s events (ow_store w),
      ow_saves := (ow_saves w)(s \<mapsto>
        \<lparr>ps_sid = sid, ps_expected = expected, ps_events = events, ps_phase = Prepared\<rparr>)\<rparr>)"
| commit: "ow_saves w s = Some p \<Longrightarrow> ps_phase p = Prepared \<Longrightarrow>
    save_planner_run_with_receipt (ps_sid p) (ps_expected p) document s (ow_store w) = Inr (revision, st) \<Longrightarrow>
    outbox_step w (w\<lparr>ow_store := st, ow_saves := (ow_saves w)(s \<mapsto> p\<lparr>ps_phase := Committed\<rparr>)\<rparr>)"
| commit_plain: "save_planner_run_with_receipt sid expected document [] (ow_store w) = Inr (revision, st) \<Longrightarrow>
    outbox_step w (w\<lparr>ow_store := st\<rparr>)"
| fail: "ow_saves w s = Some p \<Longrightarrow> ps_phase p = Prepared \<Longrightarrow>
    outbox_step w (w\<lparr>ow_saves := (ow_saves w)(s \<mapsto> p\<lparr>ps_phase := SaveFailed\<rparr>)\<rparr>)"
| discard: "ow_saves w s = Some p \<Longrightarrow> ps_phase p = SaveFailed \<Longrightarrow>
    outbox_step w (w\<lparr>ow_store := discard_planner_wakes (ps_sid p) s (ow_store w)\<rparr>)"
| read: "planner_wake_receipts sid (ow_store w) = (revision, receipts) \<Longrightarrow>
    outbox_step w (w\<lparr>ow_reads := insert (sid, revision, receipts) (ow_reads w)\<rparr>)"
| materialize: "(sid, revision, receipts) \<in> ow_reads w \<Longrightarrow>
    outbox_step w (w\<lparr>ow_store := materialize_planner_wakes sid revision receipts (ow_store w),
      ow_done := insert (sid, revision, receipts) (ow_done w)\<rparr>)"
| remove: "(sid, revision, receipts) \<in> ow_done w \<Longrightarrow>
    outbox_step w (w\<lparr>ow_store := remove_planner_wake_receipts sid receipts (ow_store w)\<rparr>)"

inductive_cases outbox_stepE: "outbox_step w w'"

definition outbox_start :: "store \<Rightarrow> outbox_world" where
  "outbox_start st = \<lparr>ow_store = st, ow_saves = Map.empty, ow_reads = {}, ow_done = {}\<rparr>"

section \<open>The abstract outbox\<close>

text \<open>
  Abstractly the journal is a list of saves whose events are waiting and the outbox a list
  of saves whose events were emitted.
\<close>

type_synonym saves = "string \<rightharpoonup> pending_save"

definition committed :: "saves \<Rightarrow> string \<Rightarrow> bool" where
  "committed sv s = is_some_and (sv s) (\<lambda>p. ps_phase p = Committed)"

definition events_of :: "saves \<Rightarrow> string \<Rightarrow> hook_event list" where
  "events_of sv s = (case sv s of None \<Rightarrow> [] | Some p \<Rightarrow> ps_events p)"

definition sid_of :: "saves \<Rightarrow> string \<Rightarrow> string" where
  "sid_of sv s = (case sv s of None \<Rightarrow> [] | Some p \<Rightarrow> ps_sid p)"

definition target_of :: "saves \<Rightarrow> string \<Rightarrow> nat" where
  "target_of sv s = (case sv s of None \<Rightarrow> 0 | Some p \<Rightarrow> ps_expected p + 1)"

definition row_key :: "journal_row \<Rightarrow> string \<times> nat \<times> string \<times> hook_event" where
  "row_key r = (jr_sid r, jr_revision r, jr_save_id r, jr_payload r)"

definition rows_of :: "saves \<Rightarrow> string \<Rightarrow> (string \<times> nat \<times> string \<times> hook_event) list" where
  "rows_of sv s = map (\<lambda>e. (sid_of sv s, target_of sv s, s, e)) (events_of sv s)"

definition outbox_rel :: "hook_event list \<Rightarrow> store \<Rightarrow> saves \<Rightarrow> string list \<Rightarrow> string list \<Rightarrow> bool" where
  "outbox_rel out0 st sv waiting emitted \<longleftrightarrow>
     map row_key (st_journal st) = concat (map (rows_of sv) waiting) \<and>
     st_outbox st = out0 @ concat (map (events_of sv) emitted) \<and>
     distinct (waiting @ emitted) \<and> set waiting \<subseteq> dom sv \<and> (\<forall>s\<in>set emitted. committed sv s)"

definition receipts_ok :: "store \<Rightarrow> saves \<Rightarrow> string list \<Rightarrow> string list \<Rightarrow> bool" where
  "receipts_ok st sv waiting emitted \<longleftrightarrow>
     (\<forall>s. committed sv s \<longrightarrow> target_of sv s \<le> stored_revision (sid_of sv s) st \<and>
        (s \<in> set emitted \<or> s \<in> set waiting \<and> (sid_of sv s, s) \<in> st_commits st)) \<and>
     (\<forall>a s. (a, s) \<in> st_commits st \<longrightarrow> committed sv s \<and> sid_of sv s = a) \<and>
     (\<forall>s p. sv s = Some p \<longrightarrow> s \<noteq> [] \<and>
        (ps_phase p = Prepared \<longrightarrow> s \<in> set waiting \<or> ps_expected p < stored_revision (ps_sid p) st)) \<and>
     (\<forall>a r d. st_runs st a = Some (r, d) \<longrightarrow> 0 < r)"

definition reads_ok ::
  "store \<Rightarrow> saves \<Rightarrow> (string \<times> nat \<times> string set) set \<Rightarrow> (string \<times> nat \<times> string set) set \<Rightarrow> string list \<Rightarrow> bool" where
  "reads_ok st sv reads done_reads emitted \<longleftrightarrow>
     (\<forall>a r rs. (a, r, rs) \<in> reads \<longrightarrow> r \<le> stored_revision a st \<and>
        (\<forall>s\<in>rs. committed sv s \<and> sid_of sv s = a) \<and>
        (\<forall>s. committed sv s \<and> sid_of sv s = a \<and> target_of sv s \<le> r \<longrightarrow> s \<in> rs \<or> s \<in> set emitted)) \<and>
     (\<forall>a r rs. (a, r, rs) \<in> done_reads \<longrightarrow> rs \<subseteq> set emitted)"

definition outbox_inv :: "hook_event list \<Rightarrow> outbox_world \<Rightarrow> bool" where
  "outbox_inv out0 w \<longleftrightarrow>
     (\<exists>waiting emitted. outbox_rel out0 (ow_store w) (ow_saves w) waiting emitted \<and>
        receipts_ok (ow_store w) (ow_saves w) waiting emitted \<and>
        reads_ok (ow_store w) (ow_saves w) (ow_reads w) (ow_done w) emitted)"

section \<open>Every step keeps the relation\<close>

lemma row_key_prepare_rows [simp]:
  "map row_key (prepare_rows i sid revision s events) = map (\<lambda>e. (sid, revision, s, e)) events"
  by (induction events arbitrary: i) (simp_all add: row_key_def)

lemma map_filter_key:
  "map row_key (filter (\<lambda>r. P (row_key r)) rows) = filter P (map row_key rows)"
  by (simp add: filter_map comp_def)

text \<open>A condition that looks at a row's save only selects whole saves.\<close>

lemma filter_groups:
  assumes "\<And>s e. s \<in> set ss \<Longrightarrow> P (sid_of sv s, target_of sv s, s, e) = Q s"
  shows "filter P (concat (map (rows_of sv) ss)) = concat (map (rows_of sv) (filter Q ss))"
  using assms by (induction ss) (auto simp: rows_of_def filter_map comp_def filter_empty_conv)

lemma payloads_of_groups:
  "map (\<lambda>(_, _, _, e). e) (concat (map (rows_of sv) ss)) = concat (map (events_of sv) ss)"
  by (induction ss) (simp_all add: rows_of_def comp_def)

lemma map_payload: "map jr_payload rows = map (\<lambda>(_, _, _, e). e) (map row_key rows)"
  by (simp add: row_key_def comp_def)

definition key_fate :: "string \<Rightarrow> nat \<Rightarrow> string set \<Rightarrow> string \<times> nat \<times> string \<times> hook_event \<Rightarrow> row_fate" where
  "key_fate sid revision receipts = (\<lambda>(a, v, s, _).
     if a \<noteq> sid then Keep else if s = [] then Keep else if s \<in> receipts then Deliver
     else if revision < v then Keep else Drop)"

lemma row_fate_key: "row_fate sid revision receipts r = key_fate sid revision receipts (row_key r)"
  by (simp add: row_fate_def row_key_def key_fate_def)

lemma filter_fate:
  assumes "map row_key rows = concat (map (rows_of sv) ss)"
    and "\<And>s e. s \<in> set ss \<Longrightarrow> (key_fate sid revision receipts (sid_of sv s, target_of sv s, s, e) = fate) = Q s"
  shows "map row_key (filter (\<lambda>r. row_fate sid revision receipts r = fate) rows) =
    concat (map (rows_of sv) (filter Q ss))"
  unfolding row_fate_key map_filter_key [where P = "\<lambda>k. key_fate sid revision receipts k = fate"] assms(1)
  using assms(2) by (rule filter_groups)

lemma committed_dom: "committed sv s \<Longrightarrow> \<exists>p. sv s = Some p \<and> ps_phase p = Committed"
  by (auto simp: committed_def is_some_and_iff)

lemma ghost_phase:
  assumes "sv s = Some p"
  shows "events_of (sv(s \<mapsto> p\<lparr>ps_phase := ph\<rparr>)) = events_of sv"
    and "sid_of (sv(s \<mapsto> p\<lparr>ps_phase := ph\<rparr>)) = sid_of sv"
    and "target_of (sv(s \<mapsto> p\<lparr>ps_phase := ph\<rparr>)) = target_of sv"
    and "rows_of (sv(s \<mapsto> p\<lparr>ps_phase := ph\<rparr>)) = rows_of sv"
    and "committed (sv(s \<mapsto> p\<lparr>ps_phase := ph\<rparr>)) t = (if t = s then ph = Committed else committed sv t)"
  using assms
  by (auto simp: fun_eq_iff committed_def events_of_def sid_of_def target_of_def rows_of_def)

lemma ghost_new:
  assumes "t \<noteq> s"
  shows "events_of (sv(s \<mapsto> p)) t = events_of sv t" and "sid_of (sv(s \<mapsto> p)) t = sid_of sv t"
    and "target_of (sv(s \<mapsto> p)) t = target_of sv t" and "rows_of (sv(s \<mapsto> p)) t = rows_of sv t"
    and "committed (sv(s \<mapsto> p)) t = committed sv t"
  using assms by (auto simp: committed_def events_of_def sid_of_def target_of_def rows_of_def)

lemma prepare_keeps:
  assumes inv: "outbox_rel out0 st sv waiting emitted" "receipts_ok st sv waiting emitted"
    "reads_ok st sv reads done_reads emitted"
    and p: "sv s = None" "s \<noteq> []" "ps_phase p = Prepared"
    and st': "st' = prepare_planner_wakes (ps_sid p) (ps_expected p + 1) s (ps_events p) st"
  shows "outbox_rel out0 st' (sv(s \<mapsto> p)) (waiting @ [s]) emitted"
    and "receipts_ok st' (sv(s \<mapsto> p)) (waiting @ [s]) emitted"
    and "reads_ok st' (sv(s \<mapsto> p)) reads done_reads emitted"
proof -
  have new: "s \<notin> set waiting" "s \<notin> set emitted" "\<not> committed sv s"
    using inv(1) p(1) committed_dom by (fastforce simp: outbox_rel_def)+
  have com: "committed (sv(s \<mapsto> p)) = committed sv"
    using p(3) new(3) by (auto simp: fun_eq_iff committed_def)
  have neq: "t \<noteq> s" if "committed sv t" for t using that new by auto
  have rows: "rows_of (sv(s \<mapsto> p)) s = map (\<lambda>e. (ps_sid p, ps_expected p + 1, s, e)) (ps_events p)"
    by (simp add: rows_of_def sid_of_def target_of_def events_of_def)
  have groups: "map (rows_of (sv(s \<mapsto> p))) waiting = map (rows_of sv) waiting"
    "map (events_of (sv(s \<mapsto> p))) emitted = map (events_of sv) emitted"
    using new by (auto intro!: map_cong ghost_new)
  have frame: "st_runs st' = st_runs st" "st_commits st' = st_commits st" "st_outbox st' = st_outbox st"
    "map row_key (st_journal st') = map row_key (st_journal st) @ rows_of (sv(s \<mapsto> p)) s"
    "stored_revision a st' = stored_revision a st" for a
    by (simp_all add: st' prepare_planner_wakes_def rows stored_revision_def)
  show "outbox_rel out0 st' (sv(s \<mapsto> p)) (waiting @ [s]) emitted"
    using inv(1) new by (auto simp: outbox_rel_def com groups frame)
  show "receipts_ok st' (sv(s \<mapsto> p)) (waiting @ [s]) emitted"
    unfolding receipts_ok_def com frame
  proof (intro conjI)
    show "\<forall>t. committed sv t \<longrightarrow> target_of (sv(s \<mapsto> p)) t \<le> stored_revision (sid_of (sv(s \<mapsto> p)) t) st \<and>
        (t \<in> set emitted \<or> t \<in> set (waiting @ [s]) \<and> (sid_of (sv(s \<mapsto> p)) t, t) \<in> st_commits st)"
      using inv(2) neq by (simp add: receipts_ok_def ghost_new)
    show "\<forall>a t. (a, t) \<in> st_commits st \<longrightarrow> committed sv t \<and> sid_of (sv(s \<mapsto> p)) t = a"
      using inv(2) neq by (simp add: receipts_ok_def ghost_new)
    show "\<forall>t q. (sv(s \<mapsto> p)) t = Some q \<longrightarrow> t \<noteq> [] \<and> (ps_phase q = Prepared \<longrightarrow>
        t \<in> set (waiting @ [s]) \<or> ps_expected q < stored_revision (ps_sid q) st)"
      using inv(2) p by (simp add: receipts_ok_def)
    show "\<forall>a r d. st_runs st a = Some (r, d) \<longrightarrow> 0 < r"
      using inv(2) by (simp add: receipts_ok_def)
  qed
  show "reads_ok st' (sv(s \<mapsto> p)) reads done_reads emitted"
    using inv(3) neq unfolding reads_ok_def com frame by (metis ghost_new(2,3))
qed

lemma save_store:
  assumes "save_planner_run_with_receipt sid expected document s st = Inr (revision, st')"
    and "\<forall>a r d. st_runs st a = Some (r, d) \<longrightarrow> 0 < r"
  shows "stored_revision sid st = expected" and "stored_revision sid st' = expected + 1"
    and "a \<noteq> sid \<Longrightarrow> stored_revision a st' = stored_revision a st"
    and "stored_revision a st \<le> stored_revision a st'"
    and "st_commits st' = (if s = [] then st_commits st else insert (sid, s) (st_commits st))"
    and "st_journal st' = st_journal st" and "st_outbox st' = st_outbox st"
    and "\<forall>a r d. st_runs st' a = Some (r, d) \<longrightarrow> 0 < r"
  using assms by (auto simp: save_receipt_Inr_iff stored_revision_def split: if_splits)

text \<open>A save of its own session raises the revision; nothing else of the relation moves.\<close>

lemma commit_plain_keeps:
  assumes inv: "outbox_rel out0 st sv waiting emitted" "receipts_ok st sv waiting emitted"
    "reads_ok st sv reads done_reads emitted"
    and c: "save_planner_run_with_receipt sid expected document [] st = Inr (revision, st')"
  shows "outbox_rel out0 st' sv waiting emitted" and "receipts_ok st' sv waiting emitted"
    and "reads_ok st' sv reads done_reads emitted"
proof -
  have pos: "\<forall>a r d. st_runs st a = Some (r, d) \<longrightarrow> 0 < r" using inv(2) by (simp add: receipts_ok_def)
  note s = save_store [OF c pos]
  have le: "n \<le> stored_revision a st \<Longrightarrow> n \<le> stored_revision a st'" for n a
    using s(4) [of a] by simp
  have less: "n < stored_revision a st \<Longrightarrow> n < stored_revision a st'" for n a
    using s(4) [of a] by (meson less_le_trans)
  show "outbox_rel out0 st' sv waiting emitted" using inv(1) s by (simp add: outbox_rel_def)
  show "receipts_ok st' sv waiting emitted" using inv(2) le less s(5,8) by (simp add: receipts_ok_def) blast
  show "reads_ok st' sv reads done_reads emitted" using inv(3) le unfolding reads_ok_def by blast
qed

text \<open>
  The save that commits is waiting: had another process taken its rows, the stored
  revision would have passed the one it expects. No earlier reader can have seen its
  revision.
\<close>

lemma commit_keeps:
  assumes inv: "outbox_rel out0 st sv waiting emitted" "receipts_ok st sv waiting emitted"
    "reads_ok st sv reads done_reads emitted"
    and p: "sv s = Some p" "ps_phase p = Prepared"
    and c: "save_planner_run_with_receipt (ps_sid p) (ps_expected p) document s st = Inr (revision, st')"
    and sv': "sv' = sv(s \<mapsto> p\<lparr>ps_phase := Committed\<rparr>)"
  shows "outbox_rel out0 st' sv' waiting emitted" and "receipts_ok st' sv' waiting emitted"
    and "reads_ok st' sv' reads done_reads emitted"
proof -
  have pos: "\<forall>a r d. st_runs st a = Some (r, d) \<longrightarrow> 0 < r" using inv(2) by (simp add: receipts_ok_def)
  note st' = save_store [OF c pos]
  note g = ghost_phase [of sv s p Committed, OF p(1), folded sv']
  have s: "s \<noteq> []" "s \<in> set waiting"
    using inv(2) [unfolded receipts_ok_def, THEN conjunct2, THEN conjunct2, THEN conjunct1, rule_format, OF p(1)]
      p(2) st'(1) by simp_all
  have dom: "dom sv' = dom sv" using p(1) by (auto simp: sv')
  have at: "sid_of sv s = ps_sid p" "target_of sv s = ps_expected p + 1"
    using p by (simp_all add: sid_of_def target_of_def)
  have le: "n \<le> stored_revision a st \<Longrightarrow> n \<le> stored_revision a st'" for n a
    using st'(4) [of a] by simp
  have less: "n < stored_revision a st \<Longrightarrow> n < stored_revision a st'" for n a
    using st'(4) [of a] by (meson less_le_trans)
  show "outbox_rel out0 st' sv' waiting emitted"
    using inv(1) st'(6,7) p(1) unfolding outbox_rel_def g dom by simp
  show "receipts_ok st' sv' waiting emitted" unfolding receipts_ok_def
  proof (intro conjI)
    show "\<forall>t. committed sv' t \<longrightarrow> target_of sv' t \<le> stored_revision (sid_of sv' t) st' \<and>
        (t \<in> set emitted \<or> t \<in> set waiting \<and> (sid_of sv' t, t) \<in> st_commits st')"
      using inv(2) le s at st'(2,5) by (auto simp: receipts_ok_def g)
    show "\<forall>a t. (a, t) \<in> st_commits st' \<longrightarrow> committed sv' t \<and> sid_of sv' t = a"
      using inv(2) s at st'(5) by (auto simp: receipts_ok_def g)
    show "\<forall>t q. sv' t = Some q \<longrightarrow> t \<noteq> [] \<and> (ps_phase q = Prepared \<longrightarrow>
        t \<in> set waiting \<or> ps_expected q < stored_revision (ps_sid q) st')"
      using inv(2) [unfolded receipts_ok_def, THEN conjunct2, THEN conjunct2, THEN conjunct1] s
      by (simp add: sv') (blast intro: less)
  qed (rule st'(8))
  have fresh: "\<not> target_of sv s \<le> r" if "(ps_sid p, r, rs) \<in> reads" for r rs
    using inv(3) that st'(1) at by (fastforce simp: reads_ok_def)
  show "reads_ok st' sv' reads done_reads emitted"
    using inv(3) le fresh at unfolding reads_ok_def g by (metis (full_types))
qed

lemma fail_keeps:
  assumes inv: "outbox_rel out0 st sv waiting emitted" "receipts_ok st sv waiting emitted"
    "reads_ok st sv reads done_reads emitted"
    and p: "sv s = Some p" "ps_phase p = Prepared" and sv': "sv' = sv(s \<mapsto> p\<lparr>ps_phase := SaveFailed\<rparr>)"
  shows "outbox_rel out0 st sv' waiting emitted" and "receipts_ok st sv' waiting emitted"
    and "reads_ok st sv' reads done_reads emitted"
proof -
  note g = ghost_phase [of sv s p SaveFailed, OF p(1), folded sv']
  have "\<not> committed sv s" using p committed_dom by fastforce
  then have com: "committed sv' = committed sv" by (auto simp: fun_eq_iff g)
  have dom: "dom sv' = dom sv" using p(1) by (auto simp: sv')
  show "outbox_rel out0 st sv' waiting emitted" using inv(1) by (simp add: outbox_rel_def com g dom)
  have "\<forall>t q. sv' t = Some q \<longrightarrow> t \<noteq> [] \<and> (ps_phase q = Prepared \<longrightarrow>
      t \<in> set waiting \<or> ps_expected q < stored_revision (ps_sid q) st)"
    using inv(2) p by (auto simp: receipts_ok_def sv')
  then show "receipts_ok st sv' waiting emitted" using inv(2) unfolding receipts_ok_def com g by blast
  show "reads_ok st sv' reads done_reads emitted" using inv(3) by (simp add: reads_ok_def com g)
qed

lemma discard_keeps:
  assumes inv: "outbox_rel out0 st sv waiting emitted" "receipts_ok st sv waiting emitted"
    "reads_ok st sv reads done_reads emitted"
    and p: "sv s = Some p" "ps_phase p = SaveFailed" and st': "st' = discard_planner_wakes (ps_sid p) s st"
  shows "outbox_rel out0 st' sv (filter (\<lambda>t. t \<noteq> s) waiting) emitted"
    and "receipts_ok st' sv (filter (\<lambda>t. t \<noteq> s) waiting) emitted"
    and "reads_ok st' sv reads done_reads emitted"
proof -
  have frame: "st_runs st' = st_runs st" "st_commits st' = st_commits st" "st_outbox st' = st_outbox st"
    "stored_revision a st' = stored_revision a st" for a
    by (simp_all add: st' discard_planner_wakes_def stored_revision_def)
  have "map row_key (st_journal st') =
      filter (\<lambda>(a, _, t, _). \<not> (a = ps_sid p \<and> t = s)) (map row_key (st_journal st))"
    unfolding map_filter_key [symmetric] by (simp add: st' discard_planner_wakes_def row_key_def)
  also have "\<dots> = concat (map (rows_of sv) (filter (\<lambda>t. t \<noteq> s) waiting))"
    using inv(1) p(1) unfolding outbox_rel_def
    by (auto intro!: filter_groups simp: sid_of_def)
  finally show "outbox_rel out0 st' sv (filter (\<lambda>t. t \<noteq> s) waiting) emitted"
    using inv(1) by (auto simp: outbox_rel_def frame)
  have ns: "\<not> committed sv s" using p committed_dom by fastforce
  have "\<forall>t q. sv t = Some q \<longrightarrow> t \<noteq> [] \<and> (ps_phase q = Prepared \<longrightarrow>
      t \<in> set (filter (\<lambda>t. t \<noteq> s) waiting) \<or> ps_expected q < stored_revision (ps_sid q) st)"
    using inv(2) p by (auto simp: receipts_ok_def)
  with inv(2) ns show "receipts_ok st' sv (filter (\<lambda>t. t \<noteq> s) waiting) emitted"
    unfolding receipts_ok_def frame by auto
  show "reads_ok st' sv reads done_reads emitted" using inv(3) by (simp add: reads_ok_def frame)
qed

lemma read_keeps:
  assumes inv: "outbox_rel out0 st sv waiting emitted" "receipts_ok st sv waiting emitted"
    "reads_ok st sv reads done_reads emitted"
    and r: "planner_wake_receipts sid st = (revision, receipts)"
  shows "reads_ok st sv (insert (sid, revision, receipts) reads) done_reads emitted"
proof -
  have r: "revision = stored_revision sid st" "receipts = {s. (sid, s) \<in> st_commits st}"
    using r by (auto simp: planner_wake_receipts_def image_iff)
  have "s \<in> receipts \<or> s \<in> set emitted" if "committed sv s" "sid_of sv s = sid" for s
    using inv(2) that r by (auto simp: receipts_ok_def)
  moreover have "\<forall>s\<in>receipts. committed sv s \<and> sid_of sv s = sid"
    using inv(2) r by (auto simp: receipts_ok_def)
  ultimately show ?thesis using inv(3) r(1) by (auto simp: reads_ok_def)
qed

text \<open>
  Materializing an answer emits exactly the waiting saves it names and drops only saves
  that did not commit and no longer can.
\<close>

lemma materialize_keeps:
  assumes inv: "outbox_rel out0 st sv waiting emitted" "receipts_ok st sv waiting emitted"
    "reads_ok st sv reads done_reads emitted"
    and r: "(sid, revision, receipts) \<in> reads"
    and st': "st' = materialize_planner_wakes sid revision receipts st"
  defines "now \<equiv> filter (\<lambda>s. s \<in> receipts) waiting"
    and "kept \<equiv> filter (\<lambda>s. s \<notin> receipts \<and> (sid_of sv s = sid \<longrightarrow> revision < target_of sv s)) waiting"
  shows "outbox_rel out0 st' sv kept (emitted @ now)" and "receipts_ok st' sv kept (emitted @ now)"
    and "reads_ok st' sv reads (insert (sid, revision, receipts) done_reads) (emitted @ now)"
proof -
  have frame: "st_runs st' = st_runs st" "st_commits st' = st_commits st"
    "stored_revision a st' = stored_revision a st" for a
    by (simp_all add: st' materialize_planner_wakes_def stored_revision_def)
  have rs: "committed sv s \<and> sid_of sv s = sid" if "s \<in> receipts" for s
    using inv(3) r that unfolding reads_ok_def by blast
  have w: "s \<noteq> []" if "s \<in> set waiting" for s
  proof -
    have "s \<in> dom sv" using inv(1) that unfolding outbox_rel_def by blast
    then show ?thesis using inv(2) unfolding receipts_ok_def by blast
  qed
  have j: "map row_key (st_journal st) = concat (map (rows_of sv) waiting)"
    using inv(1) by (simp add: outbox_rel_def)
  have "st_journal st' = filter (\<lambda>r. row_fate sid revision receipts r = Keep) (st_journal st)"
    by (simp add: st' materialize_planner_wakes_def)
  then have "map row_key (st_journal st') = concat (map (rows_of sv) kept)"
    unfolding kept_def by (elim ssubst, intro filter_fate [OF j]) (use w rs in \<open>auto simp: key_fate_def\<close>)
  moreover have "map row_key (filter (\<lambda>x. row_fate sid revision receipts x = Deliver) (st_journal st)) =
      concat (map (rows_of sv) now)"
    unfolding now_def by (rule filter_fate [OF j]) (use w rs in \<open>auto simp: key_fate_def\<close>)
  then have "st_outbox st' = st_outbox st @ concat (map (events_of sv) now)"
    unfolding st' materialize_planner_wakes_def map_payload by (simp add: payloads_of_groups del: map_map map_concat)
  ultimately show "outbox_rel out0 st' sv kept (emitted @ now)"
    using inv(1) rs by (auto simp: outbox_rel_def kept_def now_def)
  have seen: "s \<in> receipts \<or> s \<in> set emitted" if "committed sv s" "sid_of sv s = sid" "target_of sv s \<le> revision" for s
    using inv(3) r that unfolding reads_ok_def by blast
  have rev: "revision \<le> stored_revision sid st" using inv(3) r unfolding reads_ok_def by blast
  show "receipts_ok st' sv kept (emitted @ now)" unfolding receipts_ok_def frame
  proof (intro conjI)
    show "\<forall>s. committed sv s \<longrightarrow> target_of sv s \<le> stored_revision (sid_of sv s) st \<and>
        (s \<in> set (emitted @ now) \<or> s \<in> set kept \<and> (sid_of sv s, s) \<in> st_commits st)"
    proof (intro allI impI)
      fix s assume c: "committed sv s"
      have "target_of sv s \<le> stored_revision (sid_of sv s) st \<and>
          (s \<in> set emitted \<or> s \<in> set waiting \<and> (sid_of sv s, s) \<in> st_commits st)"
        using inv(2) c unfolding receipts_ok_def by blast
      then show "target_of sv s \<le> stored_revision (sid_of sv s) st \<and>
          (s \<in> set (emitted @ now) \<or> s \<in> set kept \<and> (sid_of sv s, s) \<in> st_commits st)"
        using seen [OF c] not_le [of "target_of sv s" revision] by (auto simp: kept_def now_def)
    qed
    show "\<forall>s p. sv s = Some p \<longrightarrow> s \<noteq> [] \<and> (ps_phase p = Prepared \<longrightarrow>
        s \<in> set kept \<or> ps_expected p < stored_revision (ps_sid p) st)"
    proof (intro allI impI)
      fix s p assume p: "sv s = Some p"
      have "s \<noteq> [] \<and> (ps_phase p = Prepared \<longrightarrow> s \<in> set waiting \<or> ps_expected p < stored_revision (ps_sid p) st)"
        using inv(2) p by (auto simp: receipts_ok_def)
      moreover have "s \<notin> receipts" if "ps_phase p = Prepared"
        using that p rs [of s] committed_dom [of sv s] by auto
      moreover have "sid_of sv s = ps_sid p" "target_of sv s = ps_expected p + 1"
        using p by (simp_all add: sid_of_def target_of_def)
      ultimately show "s \<noteq> [] \<and> (ps_phase p = Prepared \<longrightarrow>
          s \<in> set kept \<or> ps_expected p < stored_revision (ps_sid p) st)"
        using rev by (auto simp: kept_def)
    qed
  qed (use inv(2) in \<open>simp_all add: receipts_ok_def\<close>)
  have "s \<in> set (emitted @ now)" if "s \<in> receipts" for s
    using inv(2) rs [OF that] that unfolding receipts_ok_def now_def set_append set_filter by blast
  then have "receipts \<subseteq> set (emitted @ now)" by blast
  moreover have "\<forall>a r rs. (a, r, rs) \<in> done_reads \<longrightarrow> rs \<subseteq> set (emitted @ now)"
    using inv(3) unfolding reads_ok_def set_append by blast
  moreover have "reads_ok st' sv reads {} (emitted @ now)"
    using inv(3) unfolding reads_ok_def frame set_append by blast
  ultimately show "reads_ok st' sv reads (insert (sid, revision, receipts) done_reads) (emitted @ now)"
    unfolding reads_ok_def by blast
qed

lemma remove_keeps:
  assumes inv: "outbox_rel out0 st sv waiting emitted" "receipts_ok st sv waiting emitted"
    "reads_ok st sv reads done_reads emitted"
    and r: "(sid, revision, receipts) \<in> done_reads"
    and st': "st' = remove_planner_wake_receipts sid receipts st"
  shows "outbox_rel out0 st' sv waiting emitted" and "receipts_ok st' sv waiting emitted"
    and "reads_ok st' sv reads done_reads emitted"
proof -
  have frame: "st_runs st' = st_runs st" "st_journal st' = st_journal st" "st_outbox st' = st_outbox st"
    "stored_revision a st' = stored_revision a st" for a
    by (simp_all add: st' remove_planner_wake_receipts_def stored_revision_def)
  have "receipts \<subseteq> set emitted" using inv(3) r by (auto simp: reads_ok_def)
  then show "receipts_ok st' sv waiting emitted"
    using inv(2) unfolding receipts_ok_def frame by (auto simp: st' remove_planner_wake_receipts_def)
  show "outbox_rel out0 st' sv waiting emitted" using inv(1) by (simp add: outbox_rel_def frame)
  show "reads_ok st' sv reads done_reads emitted" using inv(3) by (simp add: reads_ok_def frame)
qed

lemma outbox_step_keeps:
  assumes "outbox_step w w'" and "outbox_inv out0 w"
  shows "outbox_inv out0 w'"
proof -
  from assms(2) obtain waiting emitted
    where inv: "outbox_rel out0 (ow_store w) (ow_saves w) waiting emitted"
      "receipts_ok (ow_store w) (ow_saves w) waiting emitted"
      "reads_ok (ow_store w) (ow_saves w) (ow_reads w) (ow_done w) emitted"
    unfolding outbox_inv_def by blast
  from assms(1) show ?thesis
  proof (cases rule: outbox_step.cases)
    case (prepare s events sid expected)
    then show ?thesis using prepare_keeps [OF inv prepare(2,3), of "\<lparr>ps_sid = sid, ps_expected = expected,
        ps_events = events, ps_phase = Prepared\<rparr>"] unfolding outbox_inv_def by auto
  next
    case (commit s p document revision st)
    then show ?thesis using commit_keeps [OF inv commit(2-4)] unfolding outbox_inv_def by auto
  next
    case (commit_plain sid expected document revision st)
    then show ?thesis using commit_plain_keeps [OF inv commit_plain(2)] unfolding outbox_inv_def by auto
  next
    case (fail s p)
    then show ?thesis using fail_keeps [OF inv fail(2,3)] unfolding outbox_inv_def by auto
  next
    case (discard s p)
    then show ?thesis using discard_keeps [OF inv discard(2,3)] unfolding outbox_inv_def by auto
  next
    case (read sid revision receipts)
    then show ?thesis using inv read_keeps [OF inv read(2)] unfolding outbox_inv_def by auto
  next
    case (materialize sid revision receipts)
    then show ?thesis using materialize_keeps [OF inv materialize(2)] unfolding outbox_inv_def by auto
  next
    case (remove sid revision receipts)
    then show ?thesis using remove_keeps [OF inv remove(2)] unfolding outbox_inv_def by auto
  qed
qed

interpretation outbox: step_invariant outbox_step "outbox_inv out0" for out0
  by unfold_locales (rule outbox_step_keeps)

section \<open>Delivery exactly once\<close>

definition outbox_clean :: "store \<Rightarrow> bool" where
  "outbox_clean st \<longleftrightarrow> st_journal st = [] \<and> st_commits st = {} \<and> (\<forall>a r d. st_runs st a = Some (r, d) \<longrightarrow> 0 < r)"

lemma outbox_start_inv: "outbox_clean st \<Longrightarrow> outbox_inv (st_outbox st) (outbox_start st)"
  unfolding outbox_inv_def
  by (rule exI [of _ "[]"], rule exI [of _ "[]"])
    (auto simp: outbox_clean_def outbox_start_def outbox_rel_def receipts_ok_def reads_ok_def committed_def)

text \<open>One uninterrupted delivery emits every committed save of the session still waiting.\<close>

lemma pending_emits:
  assumes inv: "outbox_rel out0 st sv waiting emitted" "receipts_ok st sv waiting emitted"
    "reads_ok st sv reads done_reads emitted"
  shows "\<exists>now. distinct now \<and> set now = {s. committed sv s \<and> sid_of sv s = sid \<and> s \<notin> set emitted} \<and>
    st_outbox (pending_planner_wakes sid st) = st_outbox st @ concat (map (events_of sv) now)"
proof -
  obtain r rs where r: "planner_wake_receipts sid st = (r, rs)" by fastforce
  note m = materialize_keeps [OF inv(1,2) read_keeps [OF inv r] _ refl, of sid r rs]
  let ?now = "filter (\<lambda>s. s \<in> rs) waiting"
  have "st_outbox (pending_planner_wakes sid st) = st_outbox st @ concat (map (events_of sv) ?now)"
    using m(1) inv(1) by (simp add: outbox_rel_def pending_planner_wakes_def r remove_planner_wake_receipts_def)
  moreover have "set ?now = {s. committed sv s \<and> sid_of sv s = sid \<and> s \<notin> set emitted}"
  proof -
    have rs: "s \<in> rs \<longleftrightarrow> (sid, s) \<in> st_commits st" for s
      using r by (auto simp: planner_wake_receipts_def image_iff)
    have "set waiting \<inter> set emitted = {}" using inv(1) by (simp add: outbox_rel_def)
    then show ?thesis using inv(2) unfolding receipts_ok_def set_filter rs by blast
  qed
  moreover have "distinct ?now" using inv(1) by (simp add: outbox_rel_def)
  ultimately show ?thesis by blast
qed

text \<open>
  C5. The outbox delivers exactly once. Start from an empty journal; let any processes
  prepare, commit, fail, discard, read, materialize and remove in any order, stopping
  wherever they like. Then the outbox is what it was followed by the events of distinct
  saves, all of them committed (an uncommitted save emits nothing, no save emits twice and
  each emits all its events together, in order); and the next delivery for a session emits
  exactly its committed saves that are still missing (none is lost).
\<close>

theorem outbox_exactly_once:
  assumes "outbox_clean st" and "outbox_step\<^sup>*\<^sup>* (outbox_start st) w"
  shows "\<exists>emitted. distinct emitted \<and> (\<forall>s\<in>set emitted. committed (ow_saves w) s) \<and>
    st_outbox (ow_store w) = st_outbox st @ concat (map (events_of (ow_saves w)) emitted) \<and>
    (\<forall>sid. \<exists>now. distinct now \<and>
       set now = {s. committed (ow_saves w) s \<and> sid_of (ow_saves w) s = sid \<and> s \<notin> set emitted} \<and>
       st_outbox (pending_planner_wakes sid (ow_store w)) =
         st_outbox (ow_store w) @ concat (map (events_of (ow_saves w)) now))"
proof -
  have "outbox_inv (st_outbox st) w"
    using outbox.reachable_keeps [OF assms(2) outbox_start_inv [OF assms(1)]] .
  then obtain waiting emitted
    where inv: "outbox_rel (st_outbox st) (ow_store w) (ow_saves w) waiting emitted"
      "receipts_ok (ow_store w) (ow_saves w) waiting emitted"
      "reads_ok (ow_store w) (ow_saves w) (ow_reads w) (ow_done w) emitted"
    unfolding outbox_inv_def by blast
  then show ?thesis using pending_emits [OF inv]
    by (intro exI [of _ emitted]) (simp add: outbox_rel_def)
qed

lemma one_save_waiting:
  defines "ev \<equiv> wake_event (7, 70) ''s'' (sample_run []) ''wake'' wake_default"
  shows "\<exists>w. outbox_step\<^sup>*\<^sup>* (outbox_start empty_store) w \<and> st_outbox (ow_store w) = [] \<and>
    ow_saves w = [''u'' \<mapsto> \<lparr>ps_sid = ''s'', ps_expected = 0, ps_events = [ev], ps_phase = Committed\<rparr>]"
proof -
  let ?p = "\<lparr>ps_sid = ''s'', ps_expected = 0, ps_events = [ev], ps_phase = Prepared\<rparr>"
  let ?st = "prepare_planner_wakes ''s'' 1 ''u'' [ev] empty_store"
  let ?w = "(outbox_start empty_store)\<lparr>ow_store := ?st, ow_saves := [''u'' \<mapsto> ?p]\<rparr>"
  have a: "outbox_step (outbox_start empty_store) ?w"
    using outbox_step.prepare [of "outbox_start empty_store" "''u''" "[ev]" "''s''" 0]
    by (simp add: outbox_start_def)
  obtain st' where c: "save_planner_run_with_receipt ''s'' 0 (sample_run []) ''u'' ?st = Inr (1, st')"
    and o: "st_outbox st' = []"
    by (simp add: save_planner_run_with_receipt_def prepare_planner_wakes_def empty_store_def)
  have "outbox_step ?w (?w\<lparr>ow_store := st', ow_saves := [''u'' \<mapsto> ?p\<lparr>ps_phase := Committed\<rparr>]\<rparr>)"
    using outbox_step.commit [of ?w "''u''" ?p "sample_run []" 1 st'] c by simp
  with a have "outbox_step\<^sup>*\<^sup>* (outbox_start empty_store)
      (?w\<lparr>ow_store := st', ow_saves := [''u'' \<mapsto> ?p\<lparr>ps_phase := Committed\<rparr>]\<rparr>)"
    by (meson r_into_rtranclp rtranclp.rtrancl_into_rtrancl)
  then show ?thesis using o by fastforce
qed

theorem outbox_exactly_once_witness:
  "\<exists>w. outbox_step\<^sup>*\<^sup>* (outbox_start empty_store) w \<and> st_outbox (ow_store w) = [] \<and>
     st_outbox (pending_planner_wakes ''s'' (ow_store w)) =
       [wake_event (7, 70) ''s'' (sample_run []) ''wake'' wake_default]"
proof -
  let ?ev = "wake_event (7, 70) ''s'' (sample_run []) ''wake'' wake_default"
  obtain w where w: "outbox_step\<^sup>*\<^sup>* (outbox_start empty_store) w" "st_outbox (ow_store w) = []"
    "ow_saves w = [''u'' \<mapsto> \<lparr>ps_sid = ''s'', ps_expected = 0, ps_events = [?ev], ps_phase = Committed\<rparr>]"
    using one_save_waiting by blast
  have clean: "outbox_clean empty_store" by (simp add: outbox_clean_def empty_store_def)
  have com: "committed (ow_saves w) s \<longleftrightarrow> s = ''u''" for s by (simp add: committed_def w(3))
  have ev: "events_of (ow_saves w) ''u'' = [?ev]" "sid_of (ow_saves w) ''u'' = ''s''"
    by (simp_all add: events_of_def sid_of_def w(3))
  from outbox_exactly_once [OF clean w(1)] obtain emitted
    where e: "\<forall>s\<in>set emitted. s = ''u''" "[] = st_outbox empty_store @ concat (map (events_of (ow_saves w)) emitted)"
      "\<forall>sid. \<exists>now. distinct now \<and> set now = {s. s = ''u'' \<and> sid_of (ow_saves w) s = sid \<and> s \<notin> set emitted} \<and>
         st_outbox (pending_planner_wakes sid (ow_store w)) = [] @ concat (map (events_of (ow_saves w)) now)"
    unfolding com w(2) by blast
  from e(1,2) ev(1) have "''u'' \<notin> set emitted" by auto
  with ev(2) have "{s. s = ''u'' \<and> sid_of (ow_saves w) s = ''s'' \<and> s \<notin> set emitted} = {''u''}" by auto
  with e(3) [rule_format, of "''s''"] obtain now where now: "distinct now" "set now = {''u''}"
    "st_outbox (pending_planner_wakes ''s'' (ow_store w)) = concat (map (events_of (ow_saves w)) now)"
    by auto
  then have "now = [''u'']" by (cases now; cases "tl now") auto
  with now(3) ev(1) w(1,2) show ?thesis by auto
qed

section \<open>The calls are sequences of steps\<close>

lemma pending_steps:
  "\<exists>w'. outbox_step\<^sup>*\<^sup>* w w' \<and> ow_store w' = pending_planner_wakes sid (ow_store w) \<and> ow_saves w' = ow_saves w"
proof -
  obtain r rs where r: "planner_wake_receipts sid (ow_store w) = (r, rs)" by fastforce
  let ?k = "(sid, r, rs)"
  let ?w1 = "w\<lparr>ow_reads := insert ?k (ow_reads w)\<rparr>"
  let ?w2 = "?w1\<lparr>ow_store := materialize_planner_wakes sid r rs (ow_store ?w1), ow_done := insert ?k (ow_done ?w1)\<rparr>"
  let ?w3 = "?w2\<lparr>ow_store := remove_planner_wake_receipts sid rs (ow_store ?w2)\<rparr>"
  have "outbox_step w ?w1" "outbox_step ?w1 ?w2" "outbox_step ?w2 ?w3"
    using outbox_step.read [OF r] outbox_step.materialize [of sid r rs ?w1] outbox_step.remove [of sid r rs ?w2]
    by simp_all
  then have "outbox_step\<^sup>*\<^sup>* w ?w3" by (meson r_into_rtranclp rtranclp.rtrancl_into_rtrancl)
  moreover have "ow_store ?w3 = pending_planner_wakes sid (ow_store w)"
    by (simp add: pending_planner_wakes_def r)
  ultimately show ?thesis by fastforce
qed

text \<open>
  \<open>save_planner_run_with_wakes\<close> is such a sequence of steps: with a new save id, the
  store it leaves, whether it commits or loses the race, is reached by steps of the
  protocol, so what holds of every reachable state holds around it.
\<close>

lemma save_with_wakes_refines:
  assumes "ow_saves w s = None" and "s \<noteq> []" and "\<forall>r\<in>set (st_journal (ow_store w)). jr_save_id r \<noteq> s"
  shows "\<exists>w'. outbox_step\<^sup>*\<^sup>* w w' \<and>
    ow_store w' = snd (save_planner_run_with_wakes s sid expected document events (ow_store w))"
proof (cases "events = []")
  case True
  have p: "prepare_planner_wakes sid n s [] (ow_store w) = ow_store w" for n
    by (simp add: prepare_planner_wakes_def)
  have d: "discard_planner_wakes sid s (ow_store w) = ow_store w"
    using assms(3) by (simp add: discard_planner_wakes_def)
  show ?thesis
  proof (cases "save_planner_run_with_receipt sid expected document [] (ow_store w)")
    case (Inl e)
    then have "ow_store w = snd (save_planner_run_with_wakes s sid expected document events (ow_store w))"
      by (simp add: save_planner_run_with_wakes_def True p d)
    then show ?thesis by blast
  next
    case (Inr x)
    obtain revision st where x: "x = (revision, st)" by fastforce
    have "outbox_step w (w\<lparr>ow_store := st\<rparr>)" using Inr x by (intro outbox_step.commit_plain) simp
    moreover obtain w' where "outbox_step\<^sup>*\<^sup>* (w\<lparr>ow_store := st\<rparr>) w'" "ow_store w' = pending_planner_wakes sid st"
      using pending_steps [of "w\<lparr>ow_store := st\<rparr>" sid] by auto
    ultimately show ?thesis using Inr x
      by (intro exI [of _ w']) (simp add: save_planner_run_with_wakes_def True p converse_rtranclp_into_rtranclp)
  qed
next
  case False
  let ?p = "\<lparr>ps_sid = sid, ps_expected = expected, ps_events = events, ps_phase = Prepared\<rparr>"
  let ?st = "prepare_planner_wakes sid (expected + 1) s events (ow_store w)"
  let ?w = "w\<lparr>ow_store := ?st, ow_saves := (ow_saves w)(s \<mapsto> ?p)\<rparr>"
  have a: "outbox_step w ?w" by (rule outbox_step.prepare [OF assms(1,2) False])
  show ?thesis
  proof (cases "save_planner_run_with_receipt sid expected document s ?st")
    case (Inl e)
    let ?f = "?w\<lparr>ow_saves := (ow_saves ?w)(s \<mapsto> ?p\<lparr>ps_phase := SaveFailed\<rparr>)\<rparr>"
    have "outbox_step ?w ?f" by (rule outbox_step.fail) simp_all
    moreover have "outbox_step ?f (?f\<lparr>ow_store := discard_planner_wakes sid s ?st\<rparr>)"
      using outbox_step.discard [of ?f s "?p\<lparr>ps_phase := SaveFailed\<rparr>"] by simp
    ultimately have "outbox_step\<^sup>*\<^sup>* w (?f\<lparr>ow_store := discard_planner_wakes sid s ?st\<rparr>)"
      using a by (meson r_into_rtranclp rtranclp.rtrancl_into_rtrancl)
    then show ?thesis using Inl False
      by (intro exI [of _ "?f\<lparr>ow_store := discard_planner_wakes sid s ?st\<rparr>"])
        (simp add: save_planner_run_with_wakes_def)
  next
    case (Inr x)
    obtain revision st where x: "x = (revision, st)" by fastforce
    let ?c = "?w\<lparr>ow_store := st, ow_saves := (ow_saves ?w)(s \<mapsto> ?p\<lparr>ps_phase := Committed\<rparr>)\<rparr>"
    have "outbox_step ?w ?c" using Inr x by (intro outbox_step.commit) simp_all
    moreover obtain w' where "outbox_step\<^sup>*\<^sup>* ?c w'" "ow_store w' = pending_planner_wakes sid st"
      using pending_steps [of ?c sid] by auto
    ultimately show ?thesis using a Inr x False
      by (intro exI [of _ w']) (simp add: save_planner_run_with_wakes_def converse_rtranclp_into_rtranclp)
  qed
qed

end
