(* ===== verification/Planner_Lifecycle.thy ===== *)
theory Planner_Lifecycle
  imports Planner_Workflow Planner_Outbox
begin

text \<open>
  The life of a worker attempt (\<open>begin_work\<close>, \<open>record_handoff\<close>, \<open>attempt_ended\<close>,
  \<open>begin_followup\<close> of \<open>planner_workflow.rs\<close>): claiming an assignment under a fresh attempt id,
  allocating its workspace without a database lock, committing the allocation behind an
  ownership fence, and ending or resuming the attempt. The run transitions are functions
  of the run; \<open>begin_work_once\<close> composes them on the store, with what other processes do in
  between as a parameter. The instruction text handed to the worker is not modelled.
\<close>

section \<open>Text\<close>

text \<open>\<open>chars().take(n)\<close> on UTF-8: at most \<open>n\<close> bytes that start a character, with their tails.\<close>

definition utf8_tail :: "char \<Rightarrow> bool" where
  "utf8_tail c \<longleftrightarrow> 128 \<le> byte c \<and> byte c < 192"

fun take_chars :: "nat \<Rightarrow> string \<Rightarrow> string" where
  "take_chars n [] = []"
| "take_chars n (c # cs) =
     (if utf8_tail c then c # take_chars n cs
      else case n of 0 \<Rightarrow> [] | Suc m \<Rightarrow> c # take_chars m cs)"

text \<open>The first line of a text that is not blank, trimmed, at most 300 characters of it.\<close>

definition first_text_line :: "string \<Rightarrow> string" where
  "first_text_line s =
     take_chars 300
       (case List.find (\<lambda>l. \<not> blank l) (split_on (\<lambda>c. c = CHR 10) s) of None \<Rightarrow> [] | Some l \<Rightarrow> trim l)"

fun status_debug :: "work_status \<Rightarrow> string" where
  "status_debug Retired = ''Retired''"
| "status_debug Admitted = ''Admitted''"
| "status_debug Allocating = ''Allocating''"
| "status_debug Running = ''Running''"
| "status_debug ReviewPending = ''ReviewPending''"
| "status_debug Corrections = ''Corrections''"
| "status_debug Accepted = ''Accepted''"
| "status_debug Finished = ''Finished''"
| "status_debug Integrated = ''Integrated''"
| "status_debug Blocked = ''Blocked''"
| "status_debug Watching = ''Watching''"
| "status_debug Interrupted = ''Interrupted''"

section \<open>Dispatch\<close>

definition continuation_role :: "work \<Rightarrow> planner_role" where
  "continuation_role w =
     (if (work_status w = Accepted \<or> work_status w = Interrupted) \<and>
         is_some_and (work_artifact w) (\<lambda>a.
           is_some_and (work_review w) (\<lambda>r. rev_accepted r \<and> rev_revision r = art_revision a))
      then FinishWork else ImplementWork)"

definition dispatch_refusal :: "planner_run \<Rightarrow> planner_error" where
  "dispatch_refusal run =
     (case cap_pending_adoption (run_capacity run) of
        None \<Rightarrow> DispatchErr (ErrNotAdmitted None None)
      | Some source \<Rightarrow> DispatchErr (ErrNotAdmitted (Some source)
          (map_option wake_reason (bt_get (run_wakes run) ''adoption:handoff''))))"

definition dispatchable :: "work_status \<Rightarrow> bool" where
  "dispatchable s \<longleftrightarrow>
     s = Admitted \<or> s = Allocating \<or> s = Corrections \<or> s = Interrupted \<or> s = Accepted \<or>
     s = Blocked \<or> s = Running"

definition check_source :: "planner_env \<Rightarrow> work \<Rightarrow> (planner_error, unit) result" where
  "check_source env w =
     (case work_workspace w of
        None \<Rightarrow> Inr ()
      | Some ws \<Rightarrow>
          rbind (workspace_available env ws) (\<lambda>_.
            case rc_source_revision (work_reconciliation w) of
              None \<Rightarrow> Inr ()
            | Some source \<Rightarrow> verify_source_revision env (ws_path ws) source))"

definition check_finish :: "planner_env \<Rightarrow> work \<Rightarrow> (planner_error, unit) result" where
  "check_finish env w =
     (if continuation_role w \<noteq> FinishWork then Inr ()
      else rbind (ok_or (work_artifact w) (WorkErr ErrNoArtifact)) (\<lambda>a.
        rbind (ok_or (work_workspace w) (WorkErr ErrNoWorkspace)) (\<lambda>ws.
          verify_revision env (ws_path ws) (art_revision a))))"

definition dispatch_check :: "planner_env \<Rightarrow> planner_run \<Rightarrow> string \<Rightarrow> (planner_error, work) result" where
  "dispatch_check env run work_id =
     (if run_status run \<noteq> RunRunning \<or> run_execution_request run = None \<or> run_phase run \<noteq> Implementation
      then Inl (DispatchErr ErrExecutionSuspended)
      else rbind (ok_or (bt_get (run_works run) work_id) (dispatch_refusal run)) (\<lambda>w.
        if rc_required (work_reconciliation w) then Inl (DispatchErr ErrReconciliationRequired)
        else if work_paused w then Inl (DispatchErr ErrAssignmentPaused)
        else rbind (dependencies_ready run w) (\<lambda>_.
          if is_some_and (work_attempt w) (\<lambda>a. \<not> att_ended a \<and> owner_alive env a)
          then Inl (DispatchErr ErrLiveAttempt)
          else if \<not> dispatchable (work_status w) then Inl (DispatchErr ErrAwaitingParent)
          else rbind (check_source env w) (\<lambda>_. rbind (check_finish env w) (\<lambda>_. Inr w)))))"

definition claim_attempt :: "planner_env \<Rightarrow> string \<Rightarrow> work \<Rightarrow> work" where
  "claim_attempt env attempt_id w =
     w\<lparr>work_attempt := Some \<lparr>att_id = attempt_id, att_router_pid = fst (env_identity env),
         att_router_started_at_ms = snd (env_identity env), att_delegate_id = None, att_ended = False\<rparr>,
       work_status := Allocating, work_reason := None, work_handoff := None\<rparr>"

definition allocation :: "planner_env \<Rightarrow> planner_run \<Rightarrow> work \<Rightarrow> (planner_error, workspace) result" where
  "allocation env run w =
     rbind
       (case work_workspace w of
          None \<Rightarrow> allocate_workspace env w (run_policy run)
        | Some previous \<Rightarrow>
            if pol_workspace (run_policy run) = None then Inr previous
            else rbind (allocate_workspace env w (run_policy run)) (\<lambda>refreshed.
              if ws_path refreshed \<noteq> ws_path previous \<or> ws_lease refreshed \<noteq> ws_lease previous
              then Inl (DispatchErr ErrLeaseChanged) else Inr refreshed))
       (\<lambda>ws. rbind (workspace_available env ws) (\<lambda>_. Inr ws))"

definition allocation_failed ::
  "string \<Rightarrow> string \<Rightarrow> string \<Rightarrow> planner_run \<Rightarrow> (planner_error, planner_run) result" where
  "allocation_failed work_id attempt_id error run =
     rbind (ok_or (bt_get (run_works run) work_id) (WorkErr ErrUnknownWork)) (\<lambda>w.
       Inr (case work_attempt w of
         None \<Rightarrow> run
       | Some a \<Rightarrow>
           if att_id a = attempt_id
           then upd_work work_id (\<lambda>w. w\<lparr>work_attempt := Some (a\<lparr>att_ended := True\<rparr>),
                  work_status := Interrupted, work_reason := Some error\<rparr>) run
           else run))"

text \<open>A successful resume or claim disposes of the stop notices of earlier attempts.\<close>

definition acknowledge_attempt_notifications :: "planner_env \<Rightarrow> string \<Rightarrow> planner_run \<Rightarrow> planner_run" where
  "acknowledge_attempt_notifications env work_id run =
     run\<lparr>run_wakes := bt_map (\<lambda>i w.
       if wake_work_id w = work_id \<and> starts_with (wake_reason w) ''child state: '' \<and>
          is_some_and (strip_prefix (work_id @ '':'') i) (env_is_uuid env)
       then w\<lparr>wake_acknowledged := True\<rparr> else w) (run_wakes run)\<rparr>"

definition suspended :: "planner_run \<Rightarrow> bool" where
  "suspended run \<longleftrightarrow> run_status run \<noteq> RunRunning \<or> run_phase run \<noteq> Implementation"

definition role_status :: "planner_role \<Rightarrow> work_status" where
  "role_status role = (if role = FinishWork then Accepted else Running)"

definition allocation_committed ::
  "planner_env \<Rightarrow> string \<Rightarrow> string \<Rightarrow> planner_role \<Rightarrow> workspace \<Rightarrow> planner_run \<Rightarrow>
   (planner_error, planner_run) result" where
  "allocation_committed env work_id attempt_id role ws run =
     rbind (ok_or (bt_get (run_works run) work_id) (WorkErr ErrUnknownWork)) (\<lambda>w.
       rbind (ok_or (work_attempt w) (WorkErr ErrNoAttempt)) (\<lambda>a.
         if att_id a \<noteq> attempt_id then Inl (DispatchErr ErrFenceLost)
         else Inr (if suspended run
           then upd_work work_id (\<lambda>w. w\<lparr>work_workspace := Some ws,
                  work_attempt := Some (a\<lparr>att_ended := True\<rparr>), work_status := Interrupted\<rparr>) run
           else acknowledge_attempt_notifications env work_id
                  (upd_work work_id (\<lambda>w. w\<lparr>work_workspace := Some ws, work_status := role_status role\<rparr>) run))))"

section \<open>Handoff, stop and follow-up\<close>

definition record_handoff :: "worker_identity \<Rightarrow> handoff \<Rightarrow> planner_run \<Rightarrow> planner_run" where
  "record_handoff actor h run =
     (case bt_get (run_works run) (wi_work_id actor) of
        None \<Rightarrow> run
      | Some w \<Rightarrow>
          if is_some_and (work_attempt w) (\<lambda>a. att_id a = wi_attempt_id actor \<and> \<not> att_ended a)
          then upd_work (wi_work_id actor) (\<lambda>w.
            (if ho_kind h = ''ownership_requested'' \<or> ho_kind h = ''reassignment_required''
             then mark_reconciliation_required else id) (w\<lparr>work_handoff := Some h\<rparr>)) run
          else run)"

definition stop_reason :: "work \<Rightarrow> string" where
  "stop_reason w =
     (case work_handoff w of
        Some h \<Rightarrow> ''handed off `'' @ ho_kind h @ ''`: '' @ first_text_line (ho_message h)
      | None \<Rightarrow> ''attempt stopped without a valid artifact/finishing receipt; reconcile before resuming'')"

definition failure_reason :: "string \<Rightarrow> string" where
  "failure_reason output =
     (if first_text_line output = []
      then ''child turn failed; preserve recorded evidence and reconcile before retry''
      else ''child turn failed: '' @ first_text_line output @
           ''; preserve recorded evidence and reconcile before retry'')"

definition stopped_work :: "attempt \<Rightarrow> string option \<Rightarrow> string \<Rightarrow> bool \<Rightarrow> work \<Rightarrow> work" where
  "stopped_work a delegate_id output failed w =
     (let w1 = w\<lparr>work_attempt := Some (a\<lparr>att_ended := True, att_delegate_id := delegate_id\<rparr>),
                 work_last_output := Some output\<rparr>;
          w2 = (if work_status w1 = Running \<or> work_status w1 = Allocating
                then w1\<lparr>work_status := Interrupted, work_reason := Some (stop_reason w1)\<rparr> else w1) in
      if failed then w2\<lparr>work_reason := Some (failure_reason output)\<rparr> else w2)"

definition stop_wake :: "string \<Rightarrow> work \<Rightarrow> bool \<Rightarrow> wake option \<Rightarrow> wake" where
  "stop_wake work_id w new_completion previous =
     (let reason = ''child state: '' @ status_debug (work_status w);
          k = (case previous of None \<Rightarrow> new_wake work_id reason | Some k \<Rightarrow> k) in
      if new_completion
      then k\<lparr>wake_reason := reason, wake_acknowledged := False, wake_deliveries := 0,
             wake_retry_after := 0, wake_claim_pid := 0, wake_claim_started_at_ms := 0\<rparr>
      else k)"

definition attempt_ended ::
  "worker_identity \<Rightarrow> string option \<Rightarrow> string \<Rightarrow> bool \<Rightarrow> planner_run \<Rightarrow> (planner_error, planner_run) result" where
  "attempt_ended actor delegate_id output failed run =
     rbind (ok_or (bt_get (run_works run) (wi_work_id actor)) (WorkErr ErrUnknownWork)) (\<lambda>w.
       rbind (ok_or (work_attempt w) (WorkErr ErrNoAttempt)) (\<lambda>a.
         if att_id a \<noteq> wi_attempt_id actor then Inl (DispatchErr ErrStaleStop)
         else
           let w' = stopped_work a delegate_id output failed w;
               wake_id = wi_work_id actor @ '':'' @ wi_attempt_id actor in
           Inr ((upd_work (wi_work_id actor) (\<lambda>_. w') run)
             \<lparr>run_wakes := bt_insert wake_id
                (stop_wake (wi_work_id actor) w' (\<not> att_ended a) (bt_get (run_wakes run) wake_id))
                (run_wakes run)\<rparr>)))"

definition begin_followup ::
  "planner_env \<Rightarrow> worker_identity \<Rightarrow> planner_run \<Rightarrow> (planner_error, planner_run) result" where
  "begin_followup env actor run =
     (if \<not> (run_status run = RunRunning \<or> run_status run = RunDraining) \<or> run_phase run \<noteq> Implementation
      then Inl (DispatchErr ErrExecutionSuspended)
      else rbind (ok_or (bt_get (run_works run) (wi_work_id actor)) (WorkErr ErrUnknownWork)) (\<lambda>w.
        rbind (dependencies_ready run w) (\<lambda>_.
          if rc_required (work_reconciliation w) then Inl (DispatchErr ErrReconciliationRequired)
          else rbind (case work_workspace w of None \<Rightarrow> Inr () | Some ws \<Rightarrow> workspace_available env ws) (\<lambda>_.
            rbind (ok_or (work_attempt w) (WorkErr ErrNoAttempt)) (\<lambda>a.
              if work_paused w then Inl (DispatchErr ErrAssignmentPaused)
              else if att_id a \<noteq> wi_attempt_id actor \<or> \<not> att_ended a then Inl (DispatchErr ErrAttemptBusy)
              else if \<not> (work_status w = Accepted \<or> work_status w = Corrections \<or> work_status w = Interrupted)
              then Inl (DispatchErr ErrReviewFirst)
              else Inr (acknowledge_attempt_notifications env (wi_work_id actor)
                (upd_work (wi_work_id actor) (\<lambda>_. w\<lparr>work_attempt := Some (a\<lparr>att_ended := False\<rparr>),
                   work_status := role_status (continuation_role w)\<rparr>) run)))))))"

section \<open>Starting a worker on the store\<close>

text \<open>
  What the surroundings do during one call: the identity and hook of the saving process,
  the session's policy if it still exists, what other processes do before the claim is
  saved, while the workspace is allocated and between the loads and saves of the final
  mutation, and the save ids.
\<close>

record surroundings =
  su_me :: "nat \<times> nat"
  su_hooked :: bool
  su_session :: "((string, resolved_planner) result \<times> bool) option"
  su_ensure :: "store \<Rightarrow> store"
  su_claim :: "store \<Rightarrow> store"
  su_allocate :: "store \<Rightarrow> store"
  su_rounds :: "nat \<Rightarrow> store \<Rightarrow> store"
  su_ids :: "nat \<Rightarrow> string"

definition ensure :: "planner_env \<Rightarrow> surroundings \<Rightarrow> string \<Rightarrow> store \<Rightarrow> (planner_error, planner_run) result \<times> store"
where
  "ensure env su sid st =
     (case load sid st of
        Some run \<Rightarrow> (Inr run, st)
      | None \<Rightarrow>
          (case su_session su of
             None \<Rightarrow> (Inl (RunErr ErrRunMissing), st)
           | Some (Inl e, _) \<Rightarrow> (Inl (RunErr (ErrPolicy e)), st)
           | Some (Inr policy, coordinator) \<Rightarrow>
               (case save (su_me su) (su_hooked su) (su_ids su 17) sid (initial_run env policy coordinator)
                       (su_ensure su st) of
                  (Inr run, st1) \<Rightarrow> (Inr run, st1)
                | (Inl e, st1) \<Rightarrow>
                    (if e = RunErr ErrConcurrent then ok_or (load sid st1) e else Inl e, st1))))"

definition claim_workspace ::
  "planner_env \<Rightarrow> planner_run \<Rightarrow> work \<Rightarrow> string \<Rightarrow> string \<Rightarrow> store \<Rightarrow> (planner_error, workspace) result \<times> store" where
  "claim_workspace env run w sid work_id st =
     (case allocation env run w of
        Inl e \<Rightarrow> (Inl e, st)
      | Inr ws \<Rightarrow>
          (case claim_planner_workspace env (ws_path ws) sid work_id (ws_lease ws) st of
             (Inl e, st1) \<Rightarrow> (Inl e, st1)
           | (Inr _, st1) \<Rightarrow> (Inr ws, st1)))"

definition finish_allocation ::
  "planner_env \<Rightarrow> surroundings \<Rightarrow> string \<Rightarrow> string \<Rightarrow> string \<Rightarrow> work \<Rightarrow> (planner_error, workspace) result \<Rightarrow> store \<Rightarrow>
   (planner_error, worker_identity \<times> workspace \<times> string) result \<times> store" where
  "finish_allocation env su sid work_id attempt_id w allocated st =
     (case allocated of
        Inl e \<Rightarrow>
          (case mutate (su_rounds su) (su_ids su) (su_me su) (su_hooked su) sid
                  (allocation_failed work_id attempt_id (env_error_text env e)) st of
             (Inl e', st1) \<Rightarrow> (Inl e', st1)
           | (Inr _, st1) \<Rightarrow> (Inl e, st1))
      | Inr ws \<Rightarrow>
          (case mutate (su_rounds su) (su_ids su) (su_me su) (su_hooked su) sid
                  (allocation_committed env work_id attempt_id (continuation_role w) ws) st of
             (Inl e', st1) \<Rightarrow> (Inl e', st1)
           | (Inr run, st1) \<Rightarrow>
               if suspended run then (Inl (DispatchErr ErrSuspendedDuringAllocation), st1)
               else (Inr (\<lparr>wi_work_id = work_id, wi_attempt_id = attempt_id\<rparr>, ws, work_child_id w), st1)))"

definition begin_work_once ::
  "planner_env \<Rightarrow> surroundings \<Rightarrow> string \<Rightarrow> string \<Rightarrow> string \<Rightarrow> store \<Rightarrow>
   (planner_error, worker_identity \<times> workspace \<times> string) result \<times> store" where
  "begin_work_once env su sid work_id attempt_id st =
     (case ensure env su sid st of
        (Inl e, st1) \<Rightarrow> (Inl e, st1)
      | (Inr run, st1) \<Rightarrow>
          (case dispatch_check env run work_id of
             Inl e \<Rightarrow> (Inl e, st1)
           | Inr w \<Rightarrow>
               (case save (su_me su) (su_hooked su) (su_ids su 16) sid
                       (upd_work work_id (claim_attempt env attempt_id) run) (su_claim su st1) of
                  (Inl e, st2) \<Rightarrow> (Inl e, st2)
                | (Inr run1, st2) \<Rightarrow>
                    (case claim_workspace env run1 w sid work_id (su_allocate su st2) of
                       (allocated, st3) \<Rightarrow> finish_allocation env su sid work_id attempt_id w allocated st3))))"

text \<open>\<open>begin_work\<close>: sixteen rounds; \<open>su n\<close> and \<open>attempts n\<close> are the surroundings and the fresh id of a round.\<close>

fun begin_work_loop ::
  "nat \<Rightarrow> planner_env \<Rightarrow> (nat \<Rightarrow> surroundings) \<Rightarrow> string \<Rightarrow> string \<Rightarrow> (nat \<Rightarrow> string) \<Rightarrow> store \<Rightarrow>
   (planner_error, worker_identity \<times> workspace \<times> string) result \<times> store" where
  "begin_work_loop 0 env su sid work_id attempts st = (Inl (RunErr ErrContended), st)"
| "begin_work_loop (Suc n) env su sid work_id attempts st =
     (case begin_work_once env (su n) sid work_id (attempts n) st of
        (Inl e, st1) \<Rightarrow>
          if e = RunErr ErrConcurrent then begin_work_loop n env su sid work_id attempts st1 else (Inl e, st1)
      | (Inr x, st1) \<Rightarrow> (Inr x, st1))"

definition begin_work ::
  "planner_env \<Rightarrow> (nat \<Rightarrow> surroundings) \<Rightarrow> string \<Rightarrow> string \<Rightarrow> (nat \<Rightarrow> string) \<Rightarrow> store \<Rightarrow>
   (planner_error, worker_identity \<times> workspace \<times> string) result \<times> store" where
  "begin_work = begin_work_loop 16"

section \<open>The transitions keep the run invariant\<close>

lemma run_ok_acknowledge_notifications:
  "run_ok run \<Longrightarrow> run_ok (acknowledge_attempt_notifications env i run)"
  by (simp add: acknowledge_attempt_notifications_def run_ok_def run_wf_def)

lemma dispatchable_not_integrated: "dispatchable s \<Longrightarrow> s \<noteq> Integrated \<and> s \<noteq> Finished"
  by (auto simp: dispatchable_def)

text \<open>
  What the attempt machinery touches is not evidence: a work that is not integrated may get
  any attempt, workspace, reason and open status.
\<close>

lemma work_ok_reopen:
  assumes "work_ok w" and "work_status w \<noteq> Integrated" and "work_status w' \<noteq> Integrated" and "work_status w' \<noteq> Finished"
    and "work_spec w' = work_spec w" "work_artifact w' = work_artifact w" "work_review w' = work_review w"
      "work_finish w' = work_finish w" "work_integration w' = work_integration w"
  shows "work_ok w'"
  using assms by (simp add: work_ok_def accepted_revision_def)

lemma live_not_integrated: "work_ok w \<Longrightarrow> attempt_live w \<Longrightarrow> work_status w \<noteq> Integrated"
  by (auto simp: work_ok_def attempt_done_iff)

lemma run_ok_reopen:
  assumes "run_ok run" and "bt_get (run_works run) i = Some w" and "work_status w \<noteq> Integrated"
    and "work_status (f w) \<noteq> Integrated" and "work_status (f w) \<noteq> Finished"
    and "work_spec (f w) = work_spec w" "work_artifact (f w) = work_artifact w" "work_review (f w) = work_review w"
      "work_finish (f w) = work_finish w" "work_integration (f w) = work_integration w"
  shows "run_ok (upd_work i f run)"
  using assms run_okD [OF assms(1,2)]
  by (intro run_ok_upd_work) (auto intro: work_ok_reopen [of w])

lemma dispatch_check_Inr_iff:
  "dispatch_check env run work_id = Inr w \<longleftrightarrow>
     run_status run = RunRunning \<and> run_execution_request run \<noteq> None \<and> run_phase run = Implementation \<and>
     bt_get (run_works run) work_id = Some w \<and> \<not> rc_required (work_reconciliation w) \<and> \<not> work_paused w \<and>
     dependencies_ready run w = Inr () \<and>
     \<not> is_some_and (work_attempt w) (\<lambda>a. \<not> att_ended a \<and> owner_alive env a) \<and>
     dispatchable (work_status w) \<and> check_source env w = Inr () \<and> check_finish env w = Inr ()"
  unfolding dispatch_check_def by auto

lemma claim_keeps:
  assumes "run_ok run" and "dispatch_check env run work_id = Inr w"
  shows "run_ok (upd_work work_id (claim_attempt env attempt_id) run)"
  using assms dispatchable_not_integrated
  by (intro run_ok_reopen [of run work_id w]) (simp_all add: dispatch_check_Inr_iff claim_attempt_def)

lemma allocation_failed_keeps:
  assumes "run_ok run" and "bt_get (run_works run) work_id = Some w" and "attempt_live w"
    and "allocation_failed work_id attempt_id error run = Inr run'"
  shows "run_ok run'"
proof -
  have "work_status w \<noteq> Integrated" using assms run_okD live_not_integrated by blast
  then show ?thesis using assms
    by (auto simp: allocation_failed_def split: option.splits if_splits intro!: run_ok_reopen)
qed

lemma allocation_committed_keeps:
  assumes "run_ok run" and "bt_get (run_works run) work_id = Some w" and "attempt_live w"
    and "allocation_committed env work_id attempt_id role ws run = Inr run'"
  shows "run_ok run'"
proof -
  have "work_status w \<noteq> Integrated" using assms run_okD live_not_integrated by blast
  then show ?thesis using assms
    by (auto simp: allocation_committed_def role_status_def split: if_splits
        intro!: run_ok_reopen run_ok_acknowledge_notifications)
qed

lemma record_handoff_keeps:
  assumes "run_ok run"
  shows "run_ok (record_handoff actor h run)"
proof -
  have "work_ok (mark_reconciliation_required (w\<lparr>work_handoff := Some h\<rparr>)) \<and>
      work_ok (w\<lparr>work_handoff := Some h\<rparr>)" if "work_ok w" for w
    using that by (simp add: work_ok_def mark_reconciliation_required_def accepted_revision_def attempt_done_def)
  then show ?thesis using assms run_okD [OF assms]
    by (auto simp: record_handoff_def mark_reconciliation_required_def split: option.splits
        intro!: run_ok_upd_work)
qed

lemma work_ok_stopped:
  assumes "work_ok w" and "work_attempt w = Some a"
  shows "work_ok (stopped_work a d out failed w) \<and> work_spec (stopped_work a d out failed w) = work_spec w"
proof (cases "work_status w = Integrated")
  case True
  then show ?thesis using assms
    by (auto simp: work_ok_def stopped_work_def Let_def accepted_revision_def attempt_done_def)
next
  case False
  then show ?thesis using assms
    by (auto simp: work_ok_def stopped_work_def Let_def accepted_revision_def)
qed

lemma run_ok_put_wakes: "run_ok run \<Longrightarrow> run_ok (run\<lparr>run_wakes := bt_insert i k (run_wakes run)\<rparr>)"
  by (simp add: run_ok_def run_wf_def)

lemma attempt_ended_keeps:
  assumes "run_ok run" and "attempt_ended actor d out failed run = Inr run'"
  shows "run_ok run'"
proof -
  obtain w a where w: "bt_get (run_works run) (wi_work_id actor) = Some w" "work_attempt w = Some a"
    and r: "run' = (upd_work (wi_work_id actor) (\<lambda>_. stopped_work a d out failed w) run)
      \<lparr>run_wakes := bt_insert (wi_work_id actor @ '':'' @ wi_attempt_id actor)
         (stop_wake (wi_work_id actor) (stopped_work a d out failed w) (\<not> att_ended a)
           (bt_get (run_wakes run) (wi_work_id actor @ '':'' @ wi_attempt_id actor))) (run_wakes run)\<rparr>"
    using assms(2) by (auto simp: attempt_ended_def Let_def)
  have "run_ok (upd_work (wi_work_id actor) (\<lambda>_. stopped_work a d out failed w) run)"
    using assms(1) w run_okD [OF assms(1) w(1)] work_ok_stopped [of w a]
    by (intro run_ok_upd_work) auto
  from run_ok_put_wakes [OF this] show ?thesis by (simp add: r upd_work_def)
qed

lemma begin_followup_keeps:
  assumes "run_ok run" and "begin_followup env actor run = Inr run'"
  shows "run_ok run'"
proof -
  obtain w a where w: "bt_get (run_works run) (wi_work_id actor) = Some w"
    "work_status w = Accepted \<or> work_status w = Corrections \<or> work_status w = Interrupted"
    and r: "run' = acknowledge_attempt_notifications env (wi_work_id actor)
      (upd_work (wi_work_id actor) (\<lambda>_. w\<lparr>work_attempt := Some (a\<lparr>att_ended := False\<rparr>),
         work_status := role_status (continuation_role w)\<rparr>) run)"
    using assms(2) by (auto simp: begin_followup_def)
  then show ?thesis unfolding r using assms(1)
    by (intro run_ok_acknowledge_notifications run_ok_reopen [OF assms(1) w(1)]) (auto simp: role_status_def)
qed

section \<open>Stale attempts are fenced\<close>

text \<open>
  A stale attempt is fenced off: while the work belongs to another attempt, the stop, the
  handoff, the follow-up and the late result of an allocation made under the old attempt
  id change nothing; they are refused or ignored.
\<close>

lemma attempt_fence:
  assumes "bt_get (run_works run) work_id = Some w" and "work_attempt w = Some a"
    and "att_id a \<noteq> old"
  shows "attempt_ended \<lparr>wi_work_id = work_id, wi_attempt_id = old\<rparr> d out failed run = Inl (DispatchErr ErrStaleStop) \<and>
    record_handoff \<lparr>wi_work_id = work_id, wi_attempt_id = old\<rparr> h run = run \<and>
    \<not> is_ok (begin_followup env \<lparr>wi_work_id = work_id, wi_attempt_id = old\<rparr> run) \<and>
    allocation_committed env work_id old role ws run = Inl (DispatchErr ErrFenceLost) \<and>
    allocation_failed work_id old e run = Inr run"
proof -
  have "begin_followup env \<lparr>wi_work_id = work_id, wi_attempt_id = old\<rparr> run \<noteq> Inr r" for r
    using assms by (auto simp: begin_followup_def)
  then have "\<not> is_ok (begin_followup env \<lparr>wi_work_id = work_id, wi_attempt_id = old\<rparr> run)"
    by (metis is_ok.elims(2))
  then show ?thesis using assms
    by (simp add: attempt_ended_def record_handoff_def allocation_committed_def allocation_failed_def)
qed

definition sample_busy :: "string \<Rightarrow> planner_run" where
  "sample_busy attempt_id =
     sample_run [(''a'', (sample_work ''a'')\<lparr>work_attempt := Some (sample_attempt attempt_id False),
       work_status := Running\<rparr>)]"

section \<open>A started worker\<close>

lemma run_revision_upd_work [simp]: "run_revision (upd_work i f run) = run_revision run"
  "run_status (upd_work i f run) = run_status run" "run_phase (upd_work i f run) = run_phase run"
  by (simp_all add: upd_work_def)

lemma ack_notifications_frame [simp]:
  "run_revision (acknowledge_attempt_notifications env i run) = run_revision run"
  "run_works (acknowledge_attempt_notifications env i run) = run_works run"
  "run_status (acknowledge_attempt_notifications env i run) = run_status run"
  "run_phase (acknowledge_attempt_notifications env i run) = run_phase run"
  by (simp_all add: acknowledge_attempt_notifications_def)

lemma allocation_committed_revision:
  "allocation_committed env i t role ws run = Inr run' \<Longrightarrow> run_revision run' = run_revision run"
  by (auto simp: allocation_committed_def split: if_splits)

lemma allocation_committed_result:
  assumes "allocation_committed env i t role ws run = Inr run'" and "\<not> suspended run'"
  shows "\<exists>w a. bt_get (run_works run') i = Some w \<and> work_workspace w = Some ws \<and>
    work_attempt w = Some a \<and> att_id a = t \<and> work_status w = role_status role \<and> \<not> suspended run"
proof -
  have "suspended run' = suspended run"
    using assms(1) by (auto simp: allocation_committed_def suspended_def split: if_splits)
  with assms have "\<not> suspended run" by simp
  with assms(1) show ?thesis
    by (auto simp: allocation_committed_def upd_work_def)
qed

lemma finish_allocation_Inr:
  assumes "\<And>n. cas_writer sid (su_rounds su n)"
    and "finish_allocation env su sid work_id attempt_id w allocated st = (Inr (actor, ws, child), st')"
  shows "allocated = Inr ws \<and> actor = \<lparr>wi_work_id = work_id, wi_attempt_id = attempt_id\<rparr> \<and>
    child = work_child_id w \<and>
    (\<exists>run w' a. load sid st' = Some run \<and> \<not> suspended run \<and> bt_get (run_works run) work_id = Some w' \<and>
       work_workspace w' = Some ws \<and> work_attempt w' = Some a \<and> att_id a = attempt_id \<and>
       work_status w' = role_status (continuation_role w))"
proof -
  obtain run where al: "allocated = Inr ws" and sus: "\<not> suspended run"
    and m: "mutate (su_rounds su) (su_ids su) (su_me su) (su_hooked su) sid
        (allocation_committed env work_id attempt_id (continuation_role w) ws) st = (Inr run, st')"
    and r: "actor = \<lparr>wi_work_id = work_id, wi_attempt_id = attempt_id\<rparr>" "child = work_child_id w"
    using assms(2) by (auto simp: finish_allocation_def split: sum.splits prod.splits if_splits)
  from mutate_loop_linear [OF assms(1) _ m [unfolded mutate_def] contended.start]
  obtain n s run0 run1 where c: "allocation_committed env work_id attempt_id (continuation_role w) ws run0 = Inr run1"
    "run = run1\<lparr>run_revision := run_revision run0 + 1\<rparr>"
    "st_runs st' = (st_runs (su_rounds su n s))(sid \<mapsto> (run_revision run0 + 1, run1))"
    using allocation_committed_revision by blast
  have "load sid st' = Some run" using c(2,3) by (simp add: load_def)
  moreover have "\<not> suspended run1" using sus c(2) by (simp add: suspended_def)
  ultimately show ?thesis
    using al r sus c(2) allocation_committed_result [OF c(1)] by fastforce
qed

lemma load_save: "save me hooked i sid run st = (Inr run', st') \<Longrightarrow> load sid st' = Some run'"
  using save_Inr [of me hooked i sid run st run' st'] by (simp add: load_def)

lemma ensure_load:
  assumes "ensure env su sid st = (Inr run, st1)"
  shows "load sid st1 = Some run"
proof (cases "load sid st")
  case None
  then obtain policy c where su: "su_session su = Some (Inr policy, c)"
    using assms by (auto simp: ensure_def split: option.splits sum.splits)
  obtain res s where sv: "save (su_me su) (su_hooked su) (su_ids su 17) sid (initial_run env policy c) (su_ensure su st) = (res, s)"
    by fastforce
  show ?thesis
  proof (cases res)
    case (Inl e)
    then show ?thesis using assms None su sv by (auto simp: ensure_def split: if_splits)
  next
    case (Inr r)
    then show ?thesis using assms None su sv load_save by (simp add: ensure_def)
  qed
qed (use assms in \<open>simp add: ensure_def\<close>)

lemma begin_work_once_Inr:
  assumes "\<And>n. cas_writer sid (su_rounds su n)" and "cas_writer sid (su_claim su)"
    and "begin_work_once env su sid work_id attempt_id st = (Inr (actor, ws, child), st')"
  shows "\<exists>run w st2. load sid (su_claim su (snd (ensure env su sid st))) = Some run \<and>
    dispatch_check env run work_id = Inr w \<and>
    st2 = snd (save (su_me su) (su_hooked su) (su_ids su 16) sid
      (upd_work work_id (claim_attempt env attempt_id) run) (su_claim su (snd (ensure env su sid st)))) \<and>
    (\<exists>st3. claim_planner_workspace env (ws_path ws) sid work_id (ws_lease ws) (su_allocate su st2) = (Inr (), st3)) \<and>
    actor = \<lparr>wi_work_id = work_id, wi_attempt_id = attempt_id\<rparr> \<and> child = work_child_id w \<and>
    (\<exists>run' w' a. load sid st' = Some run' \<and> \<not> suspended run' \<and> bt_get (run_works run') work_id = Some w' \<and>
       work_workspace w' = Some ws \<and> work_attempt w' = Some a \<and> att_id a = attempt_id \<and>
       work_status w' = role_status (continuation_role w))"
proof -
  obtain run st1 w run1 st2 allocated st3
    where e: "ensure env su sid st = (Inr run, st1)" and d: "dispatch_check env run work_id = Inr w"
      and s: "save (su_me su) (su_hooked su) (su_ids su 16) sid
        (upd_work work_id (claim_attempt env attempt_id) run) (su_claim su st1) = (Inr run1, st2)"
      and c: "claim_workspace env run1 w sid work_id (su_allocate su st2) = (allocated, st3)"
      and f: "finish_allocation env su sid work_id attempt_id w allocated st3 = (Inr (actor, ws, child), st')"
    using assms(3) by (auto simp: begin_work_once_def split: sum.splits prod.splits)
  note l = ensure_load [OF e]
  have l': "load sid (su_claim su st1) = Some run"
    using save_after_load [OF assms(2) l _ s] by simp
  note fin = finish_allocation_Inr [OF assms(1) f]
  have "\<exists>st4. claim_planner_workspace env (ws_path ws) sid work_id (ws_lease ws) (su_allocate su st2) = (Inr (), st4)"
    using c fin by (auto simp: claim_workspace_def split: sum.splits prod.splits)
  with l' d fin e s show ?thesis by auto
qed

lemma check_finish_Inr:
  assumes "check_finish env w = Inr ()" and "continuation_role w = FinishWork"
  shows "\<exists>a ws. work_artifact w = Some a \<and> work_workspace w = Some ws \<and>
    env_git_head env (ws_path ws) = Inr (art_revision a) \<and> env_git_status env (ws_path ws) = Inr []"
  using assms by (auto simp: check_finish_def verify_revision_Inr_iff)

text \<open>
  C27. A worker is started only on an assignment that may run. When \<open>begin_work_once\<close> hands out
  an identity, the document its claim replaced (the one stored at the moment of the claim)
  was running an authorized implementation; the work was not paused nor awaiting
  reconciliation, review or integration; every dependency was integrated and every source
  dependency accepted at the named revision; no attempt with a living owner existed; a
  finishing worker's workspace was clean at the accepted revision. The workspace was
  claimed for this work, and the document left behind is not suspended and names this
  attempt and workspace.
\<close>

theorem started_worker_guarded:
  assumes "\<And>n. cas_writer sid (su_rounds su n)" and "cas_writer sid (su_claim su)"
    and "begin_work_once env su sid work_id attempt_id st = (Inr (actor, ws, child), st')"
  shows "\<exists>run w. load sid (su_claim su (snd (ensure env su sid st))) = Some run \<and>
    bt_get (run_works run) work_id = Some w \<and> run_status run = RunRunning \<and> run_phase run = Implementation \<and>
    run_execution_request run \<noteq> None \<and> \<not> work_paused w \<and> \<not> rc_required (work_reconciliation w) \<and>
    (\<forall>i \<in> set (spec_dependencies (work_spec w)). dependency_integrated run i) \<and>
    (\<forall>(i, revision) \<in> set (spec_ready_dependencies (work_spec w)). source_ready run i revision) \<and>
    (\<forall>a. work_attempt w = Some a \<longrightarrow> att_ended a \<or> \<not> owner_alive env a) \<and>
    work_status w \<notin> {ReviewPending, Finished, Integrated, Retired, Watching} \<and>
    (continuation_role w = FinishWork \<longrightarrow> (\<exists>a old. work_artifact w = Some a \<and> work_workspace w = Some old \<and>
       env_git_head env (ws_path old) = Inr (art_revision a) \<and> env_git_status env (ws_path old) = Inr [])) \<and>
    (\<exists>st2 st3. claim_planner_workspace env (ws_path ws) sid work_id (ws_lease ws) st2 = (Inr (), st3) \<and>
       st2 = su_allocate su (snd (save (su_me su) (su_hooked su) (su_ids su 16) sid
         (upd_work work_id (claim_attempt env attempt_id) run) (su_claim su (snd (ensure env su sid st)))))) \<and>
    (\<exists>run' w' a. load sid st' = Some run' \<and> \<not> suspended run' \<and> bt_get (run_works run') work_id = Some w' \<and>
       work_workspace w' = Some ws \<and> work_attempt w' = Some a \<and> att_id a = wi_attempt_id actor \<and>
       work_status w' = role_status (continuation_role w))"
proof -
  obtain run w st2 where r: "load sid (su_claim su (snd (ensure env su sid st))) = Some run"
    "dispatch_check env run work_id = Inr w"
    "st2 = snd (save (su_me su) (su_hooked su) (su_ids su 16) sid
      (upd_work work_id (claim_attempt env attempt_id) run) (su_claim su (snd (ensure env su sid st))))"
    "\<exists>st3. claim_planner_workspace env (ws_path ws) sid work_id (ws_lease ws) (su_allocate su st2) = (Inr (), st3)"
    "actor = \<lparr>wi_work_id = work_id, wi_attempt_id = attempt_id\<rparr>"
    "\<exists>run' w' a. load sid st' = Some run' \<and> \<not> suspended run' \<and> bt_get (run_works run') work_id = Some w' \<and>
       work_workspace w' = Some ws \<and> work_attempt w' = Some a \<and> att_id a = attempt_id \<and>
       work_status w' = role_status (continuation_role w)"
    using begin_work_once_Inr [OF assms] by blast
  note d = r(2) [unfolded dispatch_check_Inr_iff dependencies_ready_iff]
  have "work_status w \<notin> {ReviewPending, Finished, Integrated, Retired, Watching}"
    using d by (auto simp: dispatchable_def)
  moreover have "\<forall>a. work_attempt w = Some a \<longrightarrow> att_ended a \<or> \<not> owner_alive env a"
    using d by auto
  moreover note check_finish_Inr [of env w]
  ultimately show ?thesis
    using r(1,3-6) d by (intro exI [of _ run] exI [of _ w]) simp
qed

definition sample_surroundings :: surroundings where
  "sample_surroundings = \<lparr>su_me = (7, 70), su_hooked = False, su_session = None, su_ensure = id,
     su_claim = reconcile_planner_wakes, su_allocate = id, su_rounds = (\<lambda>_. reconcile_planner_wakes),
     su_ids = (\<lambda>_. ''save'')\<rparr>"

definition sample_ready :: store where
  "sample_ready = empty_store\<lparr>st_runs := [''s'' \<mapsto> (4, sample_run [(''a'', sample_work ''a'')])]\<rparr>"

lemma reconcile_quiet:
  "st_journal st = [] \<Longrightarrow> st_cleanup st = [] \<Longrightarrow> reconcile_planner_wakes st = st"
  by (simp add: reconcile_planner_wakes_def Let_def)

lemma sample_started: "is_ok (fst (begin_work_once sample_env sample_surroundings ''s'' ''a'' ''t1'' sample_ready))"
  by code_simp

theorem started_worker_guarded_witness:
  "\<exists>actor ws child st'. begin_work_once sample_env sample_surroundings ''s'' ''a'' ''t1'' sample_ready =
       (Inr (actor, ws, child), st') \<and>
     (\<exists>run w a. load ''s'' st' = Some run \<and> bt_get (run_works run) ''a'' = Some w \<and>
        work_attempt w = Some a \<and> att_id a = wi_attempt_id actor)"
proof -
  obtain actor ws child st' where b: "begin_work_once sample_env sample_surroundings ''s'' ''a'' ''t1'' sample_ready =
      (Inr (actor, ws, child), st')"
    using sample_started by (metis is_ok.elims(2) prod.collapse)
  have "cas_writer ''s'' (su_rounds sample_surroundings n)" "cas_writer ''s'' (su_claim sample_surroundings)" for n
    by (simp_all add: sample_surroundings_def reconciler.cas_writer_axioms)
  from started_worker_guarded [OF this b] b show ?thesis by blast
qed

text \<open>\<open>begin_work\<close> returns what its first round that does not lose the race returns.\<close>

lemma begin_work_loop_returns:
  assumes "begin_work_loop k env su sid work_id attempts st = (res, st')" and "res \<noteq> Inl (RunErr ErrContended)"
  shows "\<exists>n<k. \<exists>s. begin_work_once env (su n) sid work_id (attempts n) s = (res, st')"
  using assms
proof (induction k arbitrary: st)
  case (Suc k)
  obtain r s where r: "begin_work_once env (su k) sid work_id (attempts k) st = (r, s)" by fastforce
  show ?case
  proof (cases "r = Inl (RunErr ErrConcurrent)")
    case True
    with Suc.prems r have "begin_work_loop k env su sid work_id attempts s = (res, st')" by simp
    from Suc.IH [OF this Suc.prems(2)] show ?thesis using less_Suc_eq by blast
  next
    case False
    with Suc.prems r have "(r, s) = (res, st')" by (auto split: sum.splits if_splits)
    with r show ?thesis by blast
  qed
qed simp

end
