(* ===== verification/Candidate.thy ===== *)
theory Candidate
  imports Prelude
begin

text \<open>
  Candidates and their scores (\<open>candidate.rs\<close>): identifiers and their text form, effort
  levels, task classes, coding tiers, the score table with its glob patterns, and the
  resolution of a requested effort level. An \<open>f64\<close> score is a real number; a \<open>HashMap\<close> that is
  only looked up is an association list.
\<close>

section \<open>Identifiers\<close>

record candidate_id =
  cid_agent :: string
  cid_model :: string

definition candidate_display :: "candidate_id \<Rightarrow> string" where
  "candidate_display c = cid_agent c @ ''/'' @ cid_model c"

definition candidate_parse :: "string \<Rightarrow> candidate_id option" where
  "candidate_parse s =
     (case split_once (CHR ''/'') s of
        None \<Rightarrow> None
      | Some (agent, model) \<Rightarrow>
          if agent = [] \<or> model = [] then None else Some \<lparr>cid_agent = agent, cid_model = model\<rparr>)"

definition candidate_ok :: "candidate_id \<Rightarrow> bool" where
  "candidate_ok c \<longleftrightarrow> cid_agent c \<noteq> [] \<and> cid_model c \<noteq> [] \<and> CHR ''/'' \<notin> set (cid_agent c)"

text \<open>Parsing and printing are inverse on well-formed identifiers, which are all that parse.\<close>

lemma candidate_parse_display: "candidate_ok c \<Longrightarrow> candidate_parse (candidate_display c) = Some c"
  by (simp add: candidate_parse_def candidate_ok_def candidate_display_def split_once_append)

lemma candidate_parse_iff: "candidate_parse s = Some c \<longleftrightarrow> candidate_ok c \<and> s = candidate_display c"
proof
  assume "candidate_parse s = Some c"
  then show "candidate_ok c \<and> s = candidate_display c"
    by (auto simp: candidate_parse_def candidate_ok_def candidate_display_def dest!: split_once_SomeD
        split: option.splits if_splits)
qed (auto simp: candidate_parse_display)

section \<open>Effort levels, task classes, tiers\<close>

datatype effort_level = EffortAuto | EffortLow | EffortMedium | EffortHigh | EffortXhigh | EffortMax

fun effort_rank :: "effort_level \<Rightarrow> nat" where
  "effort_rank EffortAuto = 0"
| "effort_rank EffortLow = 1"
| "effort_rank EffortMedium = 2"
| "effort_rank EffortHigh = 3"
| "effort_rank EffortXhigh = 4"
| "effort_rank EffortMax = 5"

lemma effort_rank_inject: "effort_rank a = effort_rank b \<longleftrightarrow> a = b"
  by (cases a; cases b) simp_all

instantiation effort_level :: linorder
begin

definition less_eq_effort_level :: "effort_level \<Rightarrow> effort_level \<Rightarrow> bool" where
  "a \<le> b \<longleftrightarrow> effort_rank a \<le> effort_rank b"

definition less_effort_level :: "effort_level \<Rightarrow> effort_level \<Rightarrow> bool" where
  "a < b \<longleftrightarrow> effort_rank a < effort_rank b"

instance
  by standard (auto simp: less_eq_effort_level_def less_effort_level_def effort_rank_inject)

end

definition effort_all :: "effort_level list" where
  "effort_all = [EffortAuto, EffortLow, EffortMedium, EffortHigh, EffortXhigh, EffortMax]"

fun effort_str :: "effort_level \<Rightarrow> string" where
  "effort_str EffortAuto = ''auto''"
| "effort_str EffortLow = ''low''"
| "effort_str EffortMedium = ''medium''"
| "effort_str EffortHigh = ''high''"
| "effort_str EffortXhigh = ''xhigh''"
| "effort_str EffortMax = ''max''"

definition effort_parse :: "string \<Rightarrow> effort_level option" where
  "effort_parse value = List.find (\<lambda>level. eq_ignore_ascii_case (effort_str level) value) effort_all"

datatype task_class =
    UiTweak | BugFix | Feature | Refactor | Algorithms | Architecture | Research | Writing | Ops | CodingGeneral

definition class_all :: "task_class list" where
  "class_all = [UiTweak, BugFix, Feature, Refactor, Algorithms, Architecture, Research, Writing, Ops, CodingGeneral]"

fun class_str :: "task_class \<Rightarrow> string" where
  "class_str UiTweak = ''UiTweak''"
| "class_str BugFix = ''BugFix''"
| "class_str Feature = ''Feature''"
| "class_str Refactor = ''Refactor''"
| "class_str Algorithms = ''Algorithms''"
| "class_str Architecture = ''Architecture''"
| "class_str Research = ''Research''"
| "class_str Writing = ''Writing''"
| "class_str Ops = ''Ops''"
| "class_str CodingGeneral = ''CodingGeneral''"

definition class_parse :: "string \<Rightarrow> task_class option" where
  "class_parse s = List.find (\<lambda>c. class_str c = s) class_all"

definition is_coding :: "task_class \<Rightarrow> bool" where
  "is_coding c \<longleftrightarrow> \<not> (c = Research \<or> c = Writing)"

datatype coding_tier = TierLow | TierMedium | TierHigh

fun tier_rank :: "coding_tier \<Rightarrow> nat" where
  "tier_rank TierLow = 0"
| "tier_rank TierMedium = 1"
| "tier_rank TierHigh = 2"

definition tier_from_min_score :: "real option \<Rightarrow> coding_tier" where
  "tier_from_min_score m =
     (case m of
        None \<Rightarrow> TierHigh
      | Some s \<Rightarrow> if 66 / 100 \<le> s then TierHigh else if 33 / 100 \<le> s then TierMedium else TierLow)"

fun tier_walk_order :: "coding_tier \<Rightarrow> coding_tier list" where
  "tier_walk_order TierHigh = [TierHigh, TierMedium, TierLow]"
| "tier_walk_order TierMedium = [TierMedium, TierHigh, TierLow]"
| "tier_walk_order TierLow = [TierLow, TierMedium, TierHigh]"

datatype strategy_kind = StaticStrategy | AutoStrategy | ParetoCode | Escalation | PlannerStrategy

fun strategy_str :: "strategy_kind \<Rightarrow> string" where
  "strategy_str StaticStrategy = ''static''"
| "strategy_str AutoStrategy = ''auto''"
| "strategy_str ParetoCode = ''pareto-code''"
| "strategy_str Escalation = ''escalation''"
| "strategy_str PlannerStrategy = ''planner''"

definition strategy_parse :: "string \<Rightarrow> strategy_kind option" where
  "strategy_parse s =
     (if s = ''static'' then Some StaticStrategy
      else if s = ''auto'' then Some AutoStrategy
      else if s = ''pareto-code'' then Some ParetoCode
      else if s = ''escalation'' then Some Escalation
      else if s = ''planner'' then Some PlannerStrategy
      else None)"

lemma effort_parse_str [simp]: "effort_parse (effort_str e) = Some e"
  by (cases e; hypsubst; code_simp)

lemma strategy_parse_str [simp]: "strategy_parse (strategy_str k) = Some k"
  by (cases k) (simp_all add: strategy_parse_def)

lemma class_parse_str [simp]: "class_parse (class_str c) = Some c"
  by (cases c; hypsubst; code_simp)

section \<open>Patterns\<close>

text \<open>\<open>eq_ignore_ascii_case\<close> of two bytes, and the glob with \<open>*\<close>.\<close>

definition byte_eq :: "char \<Rightarrow> char \<Rightarrow> bool" where
  "byte_eq a b \<longleftrightarrow> ascii_lower a = ascii_lower b"

text \<open>\<open>(0..=t.len()).any(|i| inner(rest, &t[i..]))\<close>: the tails of the text, longest first.\<close>

fun tails :: "string \<Rightarrow> string list" where
  "tails [] = [[]]"
| "tails (c # cs) = (c # cs) # tails cs"

fun glob_match :: "string \<Rightarrow> string \<Rightarrow> bool" where
  "glob_match [] t = (t = [])"
| "glob_match (c # rest) t =
     (if c = CHR ''*'' then list_ex (glob_match rest) (tails t)
      else case t of [] \<Rightarrow> False | tc # trest \<Rightarrow> byte_eq c tc \<and> glob_match rest trest)"

text \<open>What a pattern means: its letters in order, ignoring case, any text for each \<open>*\<close>.\<close>

inductive glob_spec :: "string \<Rightarrow> string \<Rightarrow> bool" where
  nil: "glob_spec [] []"
| letter: "c \<noteq> CHR ''*'' \<Longrightarrow> byte_eq c d \<Longrightarrow> glob_spec p t \<Longrightarrow> glob_spec (c # p) (d # t)"
| star: "glob_spec p t \<Longrightarrow> glob_spec (CHR ''*'' # p) (any @ t)"

lemma set_tails: "u \<in> set (tails t) \<longleftrightarrow> (\<exists>any. t = any @ u)"
proof (induction t)
  case (Cons c t)
  show ?case
  proof
    assume "\<exists>any. c # t = any @ u"
    then obtain any where "c # t = any @ u" ..
    then show "u \<in> set (tails (c # t))" using Cons by (cases any) auto
  qed (use Cons in \<open>auto intro: exI [of _ "[]"] exI [of _ "c # _"]\<close>)
qed simp

inductive_simps glob_spec_simps: "glob_spec (c # p) t" "glob_spec [] t"

lemma glob_match_iff: "glob_match p t \<longleftrightarrow> glob_spec p t"
proof (induction p t rule: glob_match.induct)
  case (1 t)
  show ?case by (auto simp: glob_spec_simps)
next
  case (2 c rest t)
  show ?case
  proof (cases "c = CHR ''*''")
    case True
    have "glob_match (c # rest) t \<longleftrightarrow> (\<exists>any u. t = any @ u \<and> glob_spec rest u)"
      using True "2.IH"(1) by (fastforce simp: list_ex_iff set_tails)
    also have "\<dots> \<longleftrightarrow> glob_spec (c # rest) t"
      using True by (auto simp: glob_spec_simps)
    finally show ?thesis .
  next
    case False
    then show ?thesis using "2.IH"(2)
      by (auto simp: glob_spec_simps split: list.splits)
  qed
qed

section \<open>Scores\<close>

text \<open>\<open>f64::clamp\<close> on numbers.\<close>

definition clamp :: "real \<Rightarrow> real \<Rightarrow> real \<Rightarrow> real" where
  "clamp lo hi x = (if x < lo then lo else if hi < x then hi else x)"

definition QUALITY_MIN :: real where "QUALITY_MIN = 1 / 2"
definition QUALITY_MAX :: real where "QUALITY_MAX = 7 / 2"

record score_entry_raw =
  raw_coding_tier :: "coding_tier option"
  raw_coding_percentile :: "real option"
  raw_context_window :: "nat option"
  raw_max_output_tokens :: "nat option"
  raw_adaptive_thinking :: "bool option"
  raw_effort :: "bool option"
  raw_system_turns :: "bool option"
  raw_effort_levels :: "effort_level list option"
  raw_effort_mapping :: "(effort_level, string) btree"
  raw_tags :: "string list"
  raw_quality :: "(string \<times> real) list"
  raw_default_quality :: "real option"

record resolved_scores =
  rsc_coding_tier :: coding_tier
  rsc_coding_percentile :: "real option"
  rsc_context_window :: "nat option"
  rsc_max_output_tokens :: "nat option"
  rsc_adaptive_thinking :: bool
  rsc_effort :: bool
  rsc_system_turns :: bool
  rsc_effort_levels :: "effort_level list"
  rsc_effort_mapping :: "(effort_level, string) btree"
  rsc_tags :: "string list"
  rsc_quality :: "(task_class \<times> real) list"
  rsc_default_quality :: real

definition scores_default :: resolved_scores where
  "scores_default =
     \<lparr>rsc_coding_tier = TierMedium, rsc_coding_percentile = None, rsc_context_window = None,
      rsc_max_output_tokens = None, rsc_adaptive_thinking = True, rsc_effort = True, rsc_system_turns = True,
      rsc_effort_levels = [], rsc_effort_mapping = [], rsc_tags = [], rsc_quality = [],
      rsc_default_quality = 1 / 2\<rparr>"

definition quality :: "resolved_scores \<Rightarrow> task_class \<Rightarrow> real" where
  "quality s c = unwrap_or (map_of (rsc_quality s) c) (rsc_default_quality s)"

record effort_resolution =
  er_requested :: effort_level
  er_resolved :: "effort_level option"
  er_provider_value :: "string option"
  er_confirmed :: bool

text \<open>\<open>Iterator::min_by_key\<close>: the first of the elements with the least key.\<close>

fun min_by_key :: "('a \<Rightarrow> nat) \<Rightarrow> 'a list \<Rightarrow> 'a option" where
  "min_by_key k [] = None"
| "min_by_key k (x # xs) =
     (case min_by_key k xs of None \<Rightarrow> Some x | Some y \<Rightarrow> if k x \<le> k y then Some x else Some y)"

definition supported :: "resolved_scores \<Rightarrow> effort_level \<Rightarrow> bool" where
  "supported s level \<longleftrightarrow> level \<noteq> EffortAuto \<and> bt_has (rsc_effort_mapping s) level"

definition distance :: "effort_level \<Rightarrow> effort_level \<Rightarrow> nat" where
  "distance a b = nat \<bar>int (effort_rank a) - int (effort_rank b)\<bar>"

definition effort_result :: "resolved_scores \<Rightarrow> effort_level \<Rightarrow> effort_level option \<Rightarrow> effort_resolution" where
  "effort_result s requested resolved =
     \<lparr>er_requested = requested, er_resolved = resolved,
      er_provider_value = Option.bind resolved (bt_get (rsc_effort_mapping s)), er_confirmed = False\<rparr>"

definition resolve_effort :: "resolved_scores \<Rightarrow> effort_level \<Rightarrow> effort_resolution" where
  "resolve_effort s requested =
     effort_result s requested (min_by_key (distance requested) (filter (supported s) (rsc_effort_levels s)))"

fun max_of :: "'a::linorder list \<Rightarrow> 'a option" where
  "max_of [] = None"
| "max_of (x # xs) = (case max_of xs of None \<Rightarrow> Some x | Some y \<Rightarrow> Some (max x y))"

definition resolve_automatic_effort :: "resolved_scores \<Rightarrow> effort_level \<Rightarrow> effort_resolution" where
  "resolve_automatic_effort s requested =
     effort_result s requested (max_of (filter (\<lambda>l. supported s l \<and> l \<le> requested) (rsc_effort_levels s)))"

definition quality_utility :: "real \<Rightarrow> real" where
  "quality_utility score =
     clamp 0 1 ((clamp QUALITY_MIN QUALITY_MAX score - QUALITY_MIN) / (QUALITY_MAX - QUALITY_MIN))"

definition class_base :: "task_class \<Rightarrow> real" where
  "class_base c =
     (if c = UiTweak \<or> c = Writing \<or> c = Ops then 1
      else if c = BugFix \<or> c = Feature \<or> c = Refactor \<or> c = CodingGeneral then 12 / 10 else 15 / 10)"

definition quality_demand :: "task_class \<Rightarrow> real \<Rightarrow> real" where
  "quality_demand c complexity = min (class_base c + 2 * clamp 0 1 complexity) 3"

definition quality_confidence :: "real \<Rightarrow> task_class \<Rightarrow> real \<Rightarrow> real" where
  "quality_confidence score c complexity =
     clamp 0 1 ((clamp QUALITY_MIN QUALITY_MAX score - QUALITY_MIN) / (quality_demand c complexity - QUALITY_MIN))"

section \<open>The score table\<close>

record score_table =
  tbl_entries :: "(string \<times> resolved_scores) list"
  tbl_pinned :: "(candidate_id \<times> candidate_id) list"

fun table_quality :: "(string \<times> real) list \<Rightarrow> (string, (task_class \<times> real) list) result" where
  "table_quality [] = Inr []"
| "table_quality ((name, score) # rest) =
     (case class_parse name of
        None \<Rightarrow> Inl name
      | Some c \<Rightarrow> rbind (table_quality rest) (\<lambda>q. Inr ((c, clamp QUALITY_MIN QUALITY_MAX score) # q)))"

definition table_entry :: "score_entry_raw \<Rightarrow> (string, resolved_scores) result" where
  "table_entry r =
     rbind (table_quality (raw_quality r)) (\<lambda>q. Inr
       \<lparr>rsc_coding_tier = unwrap_or (raw_coding_tier r) TierMedium,
        rsc_coding_percentile = raw_coding_percentile r, rsc_context_window = raw_context_window r,
        rsc_max_output_tokens = raw_max_output_tokens r,
        rsc_adaptive_thinking = unwrap_or (raw_adaptive_thinking r) True,
        rsc_effort = unwrap_or (raw_effort r) True, rsc_system_turns = unwrap_or (raw_system_turns r) True,
        rsc_effort_levels = unwrap_or (raw_effort_levels r) [], rsc_effort_mapping = raw_effort_mapping r,
        rsc_tags = raw_tags r, rsc_quality = q,
        rsc_default_quality = clamp QUALITY_MIN QUALITY_MAX (unwrap_or (raw_default_quality r) QUALITY_MIN)\<rparr>)"

text \<open>\<open>ScoreTable::from_yaml\<close> after the YAML is read; an unknown task class refuses the table.\<close>

fun table_entries ::
  "(string \<times> score_entry_raw) list \<Rightarrow> (string \<times> string, (string \<times> resolved_scores) list) result" where
  "table_entries [] = Inr []"
| "table_entries ((pattern, raw) # rest) =
     (case table_entry raw of
        Inl name \<Rightarrow> Inl (pattern, name)
      | Inr e \<Rightarrow> rbind (table_entries rest) (\<lambda>es. Inr ((pattern, e) # es)))"

definition lookup_exact :: "score_table \<Rightarrow> candidate_id \<Rightarrow> resolved_scores" where
  "lookup_exact t i =
     (let key = candidate_display i;
          base_key = map_option (\<lambda>(agent, _). candidate_display (i\<lparr>cid_agent := agent\<rparr>))
            (split_once (CHR ''@'') (cid_agent i)) in
      case List.find (\<lambda>(pattern, _). glob_match pattern key \<or> is_some_and base_key (glob_match pattern))
             (tbl_entries t) of
        None \<Rightarrow> scores_default | Some (_, e) \<Rightarrow> e)"

definition score_lookup :: "score_table \<Rightarrow> candidate_id \<Rightarrow> resolved_scores" where
  "score_lookup t i = lookup_exact t (unwrap_or (map_of (tbl_pinned t) i) i)"

section \<open>Effort resolution\<close>

lemma min_by_key_None: "min_by_key k xs = None \<longleftrightarrow> xs = []"
  by (cases xs) (auto split: option.splits)

lemma min_by_key_Some: "min_by_key k xs = Some x \<Longrightarrow> x \<in> set xs \<and> (\<forall>y\<in>set xs. k x \<le> k y)"
  by (induction xs arbitrary: x) (fastforce simp: min_by_key_None split: option.splits if_splits)+

lemma max_of_None: "max_of xs = None \<longleftrightarrow> xs = []"
  by (cases xs) (auto split: option.splits)

lemma max_of_Some: "max_of xs = Some x \<Longrightarrow> x \<in> set xs \<and> (\<forall>y\<in>set xs. y \<le> x)"
  by (induction xs arbitrary: x) (fastforce simp: max_of_None max_def split: option.splits if_splits)+

text \<open>
  Effort is resolved to what the provider offers. An explicit request gets the nearest
  level the candidate advertises and maps, never \<open>auto\<close>; an automatic recommendation gets the
  highest such level that does not exceed it; each with its provider value, and nothing
  exactly when the candidate offers no such level.
\<close>

lemma effort_resolved:
  fixes s :: resolved_scores and requested :: effort_level
  defines "offered \<equiv> {l \<in> set (rsc_effort_levels s). supported s l}"
  shows "(case er_resolved (resolve_effort s requested) of
       None \<Rightarrow> offered = {} \<and> er_provider_value (resolve_effort s requested) = None
     | Some l \<Rightarrow> l \<in> offered \<and> l \<noteq> EffortAuto \<and> (\<forall>m\<in>offered. distance requested l \<le> distance requested m) \<and>
         er_provider_value (resolve_effort s requested) = bt_get (rsc_effort_mapping s) l) \<and>
    (case er_resolved (resolve_automatic_effort s requested) of
       None \<Rightarrow> (\<forall>m\<in>offered. requested < m) \<and> er_provider_value (resolve_automatic_effort s requested) = None
     | Some l \<Rightarrow> l \<in> offered \<and> l \<le> requested \<and> (\<forall>m\<in>offered. m \<le> requested \<longrightarrow> m \<le> l) \<and>
         er_provider_value (resolve_automatic_effort s requested) = bt_get (rsc_effort_mapping s) l)"
proof
  show "case er_resolved (resolve_effort s requested) of
       None \<Rightarrow> offered = {} \<and> er_provider_value (resolve_effort s requested) = None
     | Some l \<Rightarrow> l \<in> offered \<and> l \<noteq> EffortAuto \<and> (\<forall>m\<in>offered. distance requested l \<le> distance requested m) \<and>
         er_provider_value (resolve_effort s requested) = bt_get (rsc_effort_mapping s) l"
    unfolding resolve_effort_def effort_result_def offered_def
    by (auto simp: min_by_key_None filter_empty_conv supported_def split: option.split dest!: min_by_key_Some)
  show "case er_resolved (resolve_automatic_effort s requested) of
       None \<Rightarrow> (\<forall>m\<in>offered. requested < m) \<and> er_provider_value (resolve_automatic_effort s requested) = None
     | Some l \<Rightarrow> l \<in> offered \<and> l \<le> requested \<and> (\<forall>m\<in>offered. m \<le> requested \<longrightarrow> m \<le> l) \<and>
         er_provider_value (resolve_automatic_effort s requested) = bt_get (rsc_effort_mapping s) l"
    unfolding resolve_automatic_effort_def effort_result_def offered_def
    by (auto simp: max_of_None filter_empty_conv not_le split: option.split dest!: max_of_Some)
qed

definition sample_scores :: resolved_scores where
  "sample_scores = scores_default\<lparr>rsc_effort_levels := [EffortMedium, EffortHigh, EffortMax],
     rsc_effort_mapping := [(EffortMedium, ''balanced''), (EffortHigh, ''intensive'')]\<rparr>"

section \<open>Bounds of the quality scale\<close>

lemma clamp_bounds: "lo \<le> hi \<Longrightarrow> lo \<le> clamp lo hi x \<and> clamp lo hi x \<le> hi"
  by (simp add: clamp_def)

lemma clamp_mono: "lo \<le> hi \<Longrightarrow> x \<le> y \<Longrightarrow> clamp lo hi x \<le> clamp lo hi y"
  by (simp add: clamp_def)

lemma quality_utility_bounds: "0 \<le> quality_utility s \<and> quality_utility s \<le> 1"
  using clamp_bounds [of 0 1] by (simp add: quality_utility_def)

lemma quality_utility_mono: "s \<le> t \<Longrightarrow> quality_utility s \<le> quality_utility t"
  unfolding quality_utility_def
  by (intro clamp_mono divide_right_mono diff_right_mono) (simp_all add: QUALITY_MIN_def QUALITY_MAX_def)

lemma quality_demand_bounds: "1 \<le> quality_demand c x \<and> quality_demand c x \<le> 3"
  using clamp_bounds [of 0 1 x] by (auto simp: quality_demand_def class_base_def)

text \<open>The score table keeps every quality on the scale.\<close>

lemma table_quality_bounds:
  "table_quality raw = Inr q \<Longrightarrow> (c, x) \<in> set q \<Longrightarrow> QUALITY_MIN \<le> x \<and> x \<le> QUALITY_MAX"
proof (induction raw arbitrary: q)
  case (Cons e raw)
  obtain n s where "e = (n, s)" by fastforce
  with Cons show ?case
    using clamp_bounds [of QUALITY_MIN QUALITY_MAX s]
    by (auto simp: QUALITY_MIN_def QUALITY_MAX_def split: option.splits)
qed simp

lemma lookup_quality_bounds:
  assumes "table_entries raw = Inr es"
  shows "QUALITY_MIN \<le> quality (lookup_exact \<lparr>tbl_entries = es, tbl_pinned = pins\<rparr> i) c \<and>
    quality (lookup_exact \<lparr>tbl_entries = es, tbl_pinned = pins\<rparr> i) c \<le> QUALITY_MAX"
proof -
  have entry: "QUALITY_MIN \<le> quality e c \<and> quality e c \<le> QUALITY_MAX" if "table_entry r = Inr e" for r e
  proof -
    from that obtain q where q: "table_quality (raw_quality r) = Inr q" and e: "rsc_quality e = q"
      "rsc_default_quality e = clamp QUALITY_MIN QUALITY_MAX (unwrap_or (raw_default_quality r) QUALITY_MIN)"
      by (auto simp: table_entry_def)
    show ?thesis
    proof (cases "map_of q c")
      case None
      then show ?thesis using e clamp_bounds [of QUALITY_MIN QUALITY_MAX]
        by (simp add: quality_def QUALITY_MIN_def QUALITY_MAX_def)
    next
      case (Some x)
      then show ?thesis using e table_quality_bounds [OF q map_of_SomeD [OF Some]] by (simp add: quality_def)
    qed
  qed
  have all: "\<exists>r. table_entry r = Inr e" if "table_entries raw = Inr es" "(p, e) \<in> set es" for raw es p e
    using that by (induction raw arbitrary: es) (auto split: sum.splits; blast)+
  have "lookup_exact \<lparr>tbl_entries = es, tbl_pinned = pins\<rparr> i = scores_default \<or>
      (\<exists>p. (p, lookup_exact \<lparr>tbl_entries = es, tbl_pinned = pins\<rparr> i) \<in> set es)"
    unfolding lookup_exact_def Let_def by (auto split: option.split dest!: find_Some_mem)
  then show ?thesis
  proof
    assume "\<exists>p. (p, lookup_exact \<lparr>tbl_entries = es, tbl_pinned = pins\<rparr> i) \<in> set es"
    then show ?thesis using all [OF assms] entry by blast
  qed (simp add: scores_default_def quality_def QUALITY_MIN_def QUALITY_MAX_def)
qed

end
