(* ===== verification/Prompt_Directives.thy ===== *)
theory Prompt_Directives
  imports Candidate Planner_Types
begin

text \<open>
  Routing directives in a prompt (\<open>session.rs\<close>, \<open>parse_prompt_directives\<close>): finding the first
  active \<open>[router: ...]\<close> tag outside quoted code and framed history, matching its brackets,
  reading its keys, stripping it, and merging every tag of the prompt. Positions are byte
  offsets. \<open>str::to_lowercase\<close> is taken on ASCII letters: no other character has a lower case
  that spells a key.
\<close>

section \<open>Finding a directive\<close>

definition NL :: char where "NL = CHR 0x0A"

definition is_ascii_punctuation :: "char \<Rightarrow> bool" where
  "is_ascii_punctuation c \<longleftrightarrow>
     (33 \<le> byte c \<and> byte c \<le> 47) \<or> (58 \<le> byte c \<and> byte c \<le> 64) \<or>
     (91 \<le> byte c \<and> byte c \<le> 96) \<or> (123 \<le> byte c \<and> byte c \<le> 126)"

definition is_ascii_whitespace :: "char \<Rightarrow> bool" where
  "is_ascii_whitespace c \<longleftrightarrow> byte c = 32 \<or> byte c = 9 \<or> byte c = 10 \<or> byte c = 12 \<or> byte c = 13"

text \<open>The framed histories, with their opening and closing tags.\<close>

datatype frame = ResumedContext | WorkHandoff | TurnContext

fun frame_open :: "frame \<Rightarrow> string" where
  "frame_open ResumedContext = ''<resumed-conversation-context>''"
| "frame_open WorkHandoff = ''<continued-work-handoff>''"
| "frame_open TurnContext = ''<turn-context>''"

fun frame_close :: "frame \<Rightarrow> string" where
  "frame_close ResumedContext = ''</resumed-conversation-context>''"
| "frame_close WorkHandoff = ''</continued-work-handoff>''"
| "frame_close TurnContext = ''</turn-context>''"

definition FRAMES :: "frame list" where
  "FRAMES = [ResumedContext, WorkHandoff, TurnContext]"

text \<open>
  What the scan carries from block to block: the open frames, innermost first, and the code
  span it is in (delimiter, length of the opening run, whether it is a fenced block).
\<close>

record scan_state =
  sn_frames :: "frame list"
  sn_code :: "(char \<times> nat \<times> bool) option"

definition run_of :: "char \<Rightarrow> string \<Rightarrow> nat" where
  "run_of d rest = length (takeWhile (\<lambda>c. c = d) rest)"

definition line_prefix :: "string \<Rightarrow> bool" where
  "line_prefix line \<longleftrightarrow> length line \<le> 3 \<and> list_all (\<lambda>c. byte c = 32 \<or> byte c = 9) line"

definition code_closes :: "string \<Rightarrow> string \<Rightarrow> nat \<Rightarrow> bool \<Rightarrow> nat \<Rightarrow> bool" where
  "code_closes line rest len fenced run =
     (if fenced
      then len \<le> run \<and> line_prefix line \<and>
        list_all is_ascii_whitespace (takeWhile (\<lambda>c. c \<noteq> NL) (drop run rest))
      else run = len)"

definition OPEN :: string where "OPEN = ''[router:''"

definition opens_directive :: "string \<Rightarrow> bool" where
  "opens_directive rest \<longleftrightarrow> 8 \<le> length rest \<and> eq_ignore_ascii_case (take 8 rest) OPEN"

text \<open>
  One turn of the scanning loop on the remaining bytes, \<open>line\<close> being the bytes since the line
  began: the next state and how far to move on, or nothing when a directive starts here.
\<close>

definition scan_step :: "scan_state \<Rightarrow> string \<Rightarrow> string \<Rightarrow> (scan_state \<times> nat) option" where
  "scan_step st line rest =
     (let c = hd rest in
      if c = NL then Some (st, 1)
      else case sn_code st of
        Some (delimiter, len, fenced) \<Rightarrow>
          (if c = delimiter
           then let run = run_of delimiter rest in
                Some (if code_closes line rest len fenced run then st\<lparr>sn_code := None\<rparr> else st, run)
           else Some (st, 1))
      | None \<Rightarrow>
          if c = CHR 0x5C \<and> 2 \<le> length rest \<and> is_ascii_punctuation (rest ! 1) then Some (st, 2)
          else if line_prefix line \<and> c = CHR ''>'' then Some (st, length (takeWhile (\<lambda>c. c \<noteq> NL) rest))
          else if c = CHR 0x60 \<or> c = CHR ''~''
          then let run = run_of c rest; fenced = (line_prefix line \<and> 3 \<le> run) in
               Some (if c = CHR 0x60 \<or> fenced then st\<lparr>sn_code := Some (c, run, fenced)\<rparr> else st, run)
          else if sn_frames st \<noteq> [] \<and> starts_with rest (frame_close (hd (sn_frames st)))
          then Some (st\<lparr>sn_frames := tl (sn_frames st)\<rparr>, length (frame_close (hd (sn_frames st))))
          else case List.find (\<lambda>f. starts_with rest (frame_open f)) FRAMES of
            Some f \<Rightarrow> Some (st\<lparr>sn_frames := f # sn_frames st\<rparr>, length (frame_open f))
          | None \<Rightarrow>
              if sn_frames st = [] \<and> opens_directive rest then None else Some (st, 1))"

datatype scan_result = Found nat | Ended scan_state

text \<open>Every turn moves on: a frame tag is never empty, and a run has at least one byte.\<close>

lemma frame_tags [simp]: "frame_open f \<noteq> []" "frame_close f \<noteq> []"
  by (cases f; simp)+

lemma run_of_pos [simp]: "rest \<noteq> [] \<Longrightarrow> hd rest = d \<Longrightarrow> 0 < run_of d rest"
  by (cases rest) (auto simp: run_of_def)

lemma scan_step_advances:
  assumes "scan_step st line rest = Some (st', n)" and "rest \<noteq> []"
  shows "0 < n"
proof -
  have "0 < length (takeWhile (\<lambda>c. c \<noteq> NL) rest)" if "hd rest \<noteq> NL" using assms(2) that by (cases rest) auto
  then show ?thesis
    using assms by (auto simp: scan_step_def Let_def split: if_splits option.splits)
qed

text \<open>\<open>find_prompt_directive\<close> on one text.\<close>

function scan_text :: "scan_state \<Rightarrow> nat \<Rightarrow> string \<Rightarrow> string \<Rightarrow> scan_result" where
  "scan_text st pos line rest =
     (if rest = [] then Ended st
      else case scan_step st line rest of
        None \<Rightarrow> Found pos
      | Some (st', n) \<Rightarrow>
          scan_text st' (pos + n) (if hd rest = NL then [] else line @ take n rest) (drop n rest))"
  by pat_completeness auto
termination
  by (relation "measure (\<lambda>(_, _, _, rest). length rest)") (auto dest: scan_step_advances)

declare scan_text.simps [simp del]

fun find_in_blocks :: "scan_state \<Rightarrow> nat \<Rightarrow> content_block list \<Rightarrow> (nat \<times> string \<times> nat) option" where
  "find_in_blocks st i [] = None"
| "find_in_blocks st i (TextBlock t # bs) =
     (case scan_text st 0 [] t of Found p \<Rightarrow> Some (i, t, p) | Ended st' \<Rightarrow> find_in_blocks st' (Suc i) bs)"
| "find_in_blocks st i (b # bs) = find_in_blocks st (Suc i) bs"

definition scan_start :: scan_state where
  "scan_start = \<lparr>sn_frames = [], sn_code = None\<rparr>"

definition find_prompt_directive :: "content_block list \<Rightarrow> (nat \<times> string \<times> nat) option" where
  "find_prompt_directive prompt = find_in_blocks scan_start 0 prompt"

section \<open>Reading a directive\<close>

record prompt_directives =
  pd_candidate :: "candidate_id option"
  pd_prefer :: "candidate_id option"
  pd_switch :: "candidate_id option"
  pd_strategy :: "strategy_kind option"
  pd_exclude :: "string list"
  pd_label :: "string option"
  pd_effort :: "effort_level option"
  pd_version :: "string option"
  pd_phase :: "planner_phase option"

definition directives_default :: prompt_directives where
  "directives_default =
     \<lparr>pd_candidate = None, pd_prefer = None, pd_switch = None, pd_strategy = None, pd_exclude = [],
      pd_label = None, pd_effort = None, pd_version = None, pd_phase = None\<rparr>"

datatype directive_error =
    MissingClose
  | NotKeyValue string
  | BadValue string string
  | UnknownKey string

text \<open>
  The position of the matching \<open>]\<close>. The scan starts on a \<open>[\<close>, so the depth is positive
  whenever a \<open>]\<close> is met and never underflows.
\<close>

fun bracket_end :: "nat \<Rightarrow> nat \<Rightarrow> string \<Rightarrow> nat option" where
  "bracket_end depth i [] = None"
| "bracket_end depth i (c # cs) =
     (if c = CHR ''['' then bracket_end (depth + 1) (i + 1) cs
      else if c = CHR '']'' then (if depth - 1 = 0 then Some i else bracket_end (depth - 1) (i + 1) cs)
      else bracket_end depth (i + 1) cs)"

definition parse_phase :: "string \<Rightarrow> planner_phase option" where
  "parse_phase v =
     (if v = ''planning'' then Some Planning else if v = ''implementation'' then Some Implementation else None)"

definition parse_key :: "string \<Rightarrow> string \<Rightarrow> prompt_directives \<Rightarrow> (directive_error, prompt_directives) result" where
  "parse_key key value d =
     (if key = ''candidate''
      then rbind (ok_or (candidate_parse value) (BadValue key value)) (\<lambda>c. Inr (d\<lparr>pd_candidate := Some c\<rparr>))
      else if key = ''prefer''
      then rbind (ok_or (candidate_parse value) (BadValue key value)) (\<lambda>c. Inr (d\<lparr>pd_prefer := Some c\<rparr>))
      else if key = ''switch''
      then rbind (ok_or (candidate_parse value) (BadValue key value)) (\<lambda>c. Inr (d\<lparr>pd_switch := Some c\<rparr>))
      else if key = ''strategy''
      then rbind (ok_or (strategy_parse value) (BadValue key value)) (\<lambda>k. Inr (d\<lparr>pd_strategy := Some k\<rparr>))
      else if key = ''exclude''
      then Inr (d\<lparr>pd_exclude := pd_exclude d @ filter (\<lambda>p. p \<noteq> []) (map trim (split_on (\<lambda>c. c = CHR ''|'') value))\<rparr>)
      else if key = ''label'' then Inr (if value = [] then d else d\<lparr>pd_label := Some value\<rparr>)
      else if key = ''effort''
      then rbind (ok_or (effort_parse value) (BadValue key value)) (\<lambda>e. Inr (d\<lparr>pd_effort := Some e\<rparr>))
      else if key = ''version''
      then (if value = [] then Inl (BadValue key value) else Inr (d\<lparr>pd_version := Some value\<rparr>))
      else if key = ''phase''
      then rbind (ok_or (parse_phase value) (BadValue key value)) (\<lambda>p. Inr (d\<lparr>pd_phase := Some p\<rparr>))
      else Inl (UnknownKey key))"

definition parse_pair :: "string \<Rightarrow> prompt_directives \<Rightarrow> (directive_error, prompt_directives) result" where
  "parse_pair raw d =
     (let pair = trim raw in
      if pair = [] then Inr d
      else case split_once (CHR ''='') pair of
        None \<Rightarrow> Inl (NotKeyValue pair)
      | Some (key, value) \<Rightarrow> parse_key (to_ascii_lowercase (trim key)) (trim value) d)"

fun parse_pairs :: "string list \<Rightarrow> prompt_directives \<Rightarrow> (directive_error, prompt_directives) result" where
  "parse_pairs [] d = Inr d"
| "parse_pairs (p # ps) d = rbind (parse_pair p d) (parse_pairs ps)"

definition strip_block :: "content_block list \<Rightarrow> nat \<Rightarrow> string \<Rightarrow> content_block list" where
  "strip_block prompt i remainder =
     (if remainder = [] then take i prompt @ drop (Suc i) prompt else prompt[i := TextBlock remainder])"

definition parse_one_prompt_directive ::
  "content_block list \<Rightarrow> (directive_error, (prompt_directives \<times> content_block list) option) result" where
  "parse_one_prompt_directive prompt =
     (case find_prompt_directive prompt of
        None \<Rightarrow> Inr None
      | Some (i, t, s) \<Rightarrow>
          (case bracket_end 0 s (drop s t) of
             None \<Rightarrow> Inl MissingClose
           | Some e \<Rightarrow>
               rbind (parse_pairs (split_on (\<lambda>c. c = CHR '','') (take (e - (s + length OPEN)) (drop (s + length OPEN) t)))
                 directives_default)
                 (\<lambda>d. Inr (Some (d, strip_block prompt i (trim (take s t @ drop (e + 1) t)))))))"

definition merge_directives :: "prompt_directives \<Rightarrow> prompt_directives \<Rightarrow> prompt_directives" where
  "merge_directives into nxt =
     \<lparr>pd_candidate = opt_or (pd_candidate nxt) (pd_candidate into),
      pd_prefer = opt_or (pd_prefer nxt) (pd_prefer into),
      pd_switch = opt_or (pd_switch nxt) (pd_switch into),
      pd_strategy = opt_or (pd_strategy nxt) (pd_strategy into),
      pd_exclude = pd_exclude into @ pd_exclude nxt,
      pd_label = opt_or (pd_label nxt) (pd_label into),
      pd_effort = opt_or (pd_effort nxt) (pd_effort into),
      pd_version = opt_or (pd_version nxt) (pd_version into),
      pd_phase = opt_or (pd_phase nxt) (pd_phase into)\<rparr>"

text \<open>The loop ends because every round removes a directive from a text of the prompt.\<close>

fun block_bytes :: "content_block \<Rightarrow> nat" where
  "block_bytes (TextBlock t) = length t"
| "block_bytes _ = 0"

definition prompt_bytes :: "content_block list \<Rightarrow> nat" where
  "prompt_bytes prompt = sum_list (map block_bytes prompt)"

lemma length_trim_start: "length (trim_start s) \<le> length s"
proof (induction s rule: length_induct)
  case (1 s)
  have IH: "length (trim_start u) \<le> length u" if "length u < length s" for u using 1 that by blast
  show ?case
  proof (cases s)
    case (Cons a xs)
    have "length (trim_start xs) \<le> length s" using IH [of xs] Cons by simp
    moreover have "length (trim_start ys) \<le> length s" if "xs = b # ys" for b ys using IH [of ys] Cons that by simp
    moreover have "length (trim_start zs) \<le> length s" if "xs = b # c # zs" for b c zs using IH [of zs] Cons that by simp
    ultimately show ?thesis unfolding Cons trim_start.simps(2) by (simp split: list.split)
  qed simp
qed

lemma length_trim_rev: "length (trim_rev s) \<le> length s"
proof (induction s rule: length_induct)
  case (1 s)
  have IH: "length (trim_rev u) \<le> length u" if "length u < length s" for u using 1 that by blast
  show ?case
  proof (cases s)
    case (Cons a xs)
    have "length (trim_rev xs) \<le> length s" using IH [of xs] Cons by simp
    moreover have "length (trim_rev ys) \<le> length s" if "xs = b # ys" for b ys using IH [of ys] Cons that by simp
    moreover have "length (trim_rev zs) \<le> length s" if "xs = b # c # zs" for b c zs using IH [of zs] Cons that by simp
    ultimately show ?thesis unfolding Cons trim_rev.simps(2) by (simp split: list.split)
  qed simp
qed

lemma length_trim: "length (trim s) \<le> length s"
  using length_trim_start [of s] length_trim_rev [of "rev (trim_start s)"]
  by (simp add: trim_def trim_end_def)

lemma bracket_end_bounds: "bracket_end d i s = Some e \<Longrightarrow> i \<le> e \<and> e < i + length s"
  by (induction d i s rule: bracket_end.induct) (fastforce split: if_splits)+

lemma find_in_blocks_Some:
  "find_in_blocks st i bs = Some (j, t, p) \<Longrightarrow> i \<le> j \<and> j - i < length bs \<and> bs ! (j - i) = TextBlock t"
proof (induction st i bs rule: find_in_blocks.induct)
  case (2 st i t' bs)
  then show ?case by (fastforce simp: nth_Cons' split: scan_result.splits)
qed (auto simp: nth_Cons')

lemma find_block: "find_prompt_directive prompt = Some (i, t, p) \<Longrightarrow> i < length prompt \<and> prompt ! i = TextBlock t"
  unfolding find_prompt_directive_def by (drule find_in_blocks_Some) simp

lemma prompt_bytes_split:
  assumes "i < length prompt" and "prompt ! i = TextBlock t"
  shows "prompt_bytes prompt = prompt_bytes (take i prompt) + length t + prompt_bytes (drop (Suc i) prompt)"
  using arg_cong [OF id_take_nth_drop [OF assms(1)], of prompt_bytes] assms(2) by (simp add: prompt_bytes_def)

lemma strip_block_bytes:
  assumes "i < length prompt" and "prompt ! i = TextBlock t"
  shows "prompt_bytes (strip_block prompt i r) + length t = prompt_bytes prompt + length r"
  using prompt_bytes_split [OF assms] assms(1)
  by (auto simp: strip_block_def prompt_bytes_def upd_conv_take_nth_drop)

lemma parse_one_shrinks:
  assumes "parse_one_prompt_directive prompt = Inr (Some (d, stripped))"
  shows "prompt_bytes stripped < prompt_bytes prompt"
proof -
  obtain i t s e where f: "find_prompt_directive prompt = Some (i, t, s)" and e: "bracket_end 0 s (drop s t) = Some e"
    and st: "stripped = strip_block prompt i (trim (take s t @ drop (e + 1) t))"
    using assms by (auto simp: parse_one_prompt_directive_def split: option.splits)
  have "length (trim (take s t @ drop (e + 1) t)) < length t"
    using bracket_end_bounds [OF e] length_trim [of "take s t @ drop (e + 1) t"] by auto
  then show ?thesis using strip_block_bytes [OF conjunct1 [OF find_block [OF f]] conjunct2 [OF find_block [OF f]]] st
    by (metis add_less_cancel_left nat_add_left_cancel_less add.commute)
qed

function directives_loop ::
  "prompt_directives option \<Rightarrow> content_block list \<Rightarrow> (directive_error, (prompt_directives \<times> content_block list) option) result" where
  "directives_loop merged remaining =
     (case parse_one_prompt_directive remaining of
        Inl e \<Rightarrow> Inl e
      | Inr None \<Rightarrow> Inr (map_option (\<lambda>d. (d, remaining)) merged)
      | Inr (Some (nxt, stripped)) \<Rightarrow>
          directives_loop (Some (merge_directives (unwrap_or merged directives_default) nxt)) stripped)"
  by pat_completeness auto
termination
  by (relation "measure (\<lambda>(_, prompt). prompt_bytes prompt)") (auto intro: parse_one_shrinks)

declare directives_loop.simps [simp del]

definition parse_prompt_directives ::
  "content_block list \<Rightarrow> (directive_error, (prompt_directives \<times> content_block list) option) result" where
  "parse_prompt_directives prompt = directives_loop None prompt"

section \<open>Every directive is consumed\<close>

lemma scan_text_Found:
  "scan_text st pos line rest = Found p \<Longrightarrow> pos \<le> p \<and> opens_directive (drop (p - pos) rest)"
proof (induction st pos line rest rule: scan_text.induct)
  case (1 st pos line rest)
  have ne: "rest \<noteq> []" using 1(2) by (auto simp: scan_text.simps)
  show ?case
  proof (cases "scan_step st line rest")
    case None
    then have "opens_directive rest" by (auto simp: scan_step_def Let_def split: if_splits option.splits)
    then show ?thesis using 1(2) None ne by (auto simp: scan_text.simps)
  next
    case (Some x)
    obtain st' n where x: "x = (st', n)" by fastforce
    have "scan_text st' (pos + n) (if hd rest = NL then [] else line @ take n rest) (drop n rest) = Found p"
      using 1(2) Some x ne by (subst (asm) scan_text.simps) simp
    from 1(1) [OF ne Some x [symmetric] this] show ?thesis
      by (auto simp: add.commute [of _ n])
  qed
qed

lemma find_in_blocks_opens: "find_in_blocks st i bs = Some (j, t, p) \<Longrightarrow> opens_directive (drop p t)"
  by (induction st i bs rule: find_in_blocks.induct) (auto dest: scan_text_Found split: scan_result.splits)

lemma find_opens: "find_prompt_directive prompt = Some (i, t, p) \<Longrightarrow> opens_directive (drop p t)"
  unfolding find_prompt_directive_def by (rule find_in_blocks_opens)

text \<open>The opening tag holds one bracket, its first byte.\<close>

lemma byte_ascii_lower: "byte (ascii_lower c) = (if 65 \<le> byte c \<and> byte c \<le> 90 then byte c + 32 else byte c)"
  by (simp add: ascii_lower_def take_bit_nat_eq_self)

lemma ascii_lower_bracket: "ascii_lower c = CHR ''['' \<longleftrightarrow> c = CHR ''[''" "ascii_lower (CHR '']'') = CHR '']''"
proof -
  have "byte (CHR ''['') = (91 :: nat)" by simp
  then have "ascii_lower c = CHR ''['' \<longleftrightarrow> byte (ascii_lower c) = (91 :: nat)" "c = CHR ''['' \<longleftrightarrow> byte c = (91 :: nat)"
    by (metis of_char_eq_iff)+
  then show "ascii_lower c = CHR ''['' \<longleftrightarrow> c = CHR ''[''" by (auto simp: byte_ascii_lower)
  show "ascii_lower (CHR '']'') = CHR '']''" by (simp add: ascii_lower_def)
qed

lemma opens_directive_split:
  assumes "opens_directive s"
  shows "\<exists>mid tail. s = CHR ''['' # mid @ tail \<and> length mid = 7 \<and> CHR ''['' \<notin> set mid \<and> CHR '']'' \<notin> set mid"
proof -
  have l: "8 \<le> length s" and m: "map ascii_lower (take 8 s) = map ascii_lower OPEN"
    using assms by (auto simp: opens_directive_def eq_ignore_ascii_case_def to_ascii_lowercase_def)
  then obtain c mid where t: "take 8 s = c # mid" by (cases "take 8 s") auto
  have "map ascii_lower OPEN = OPEN" by code_simp
  then have h: "ascii_lower c = CHR ''[''" and ms: "map ascii_lower mid = ''router:''" using m t by (simp_all add: OPEN_def)
  have "x \<notin> set mid" if "x = CHR ''['' \<or> x = CHR '']''" for x
  proof
    assume "x \<in> set mid"
    then have "ascii_lower x \<in> set ''router:''" using ms by (metis imageI set_map)
    moreover have "ascii_lower x = x" using that ascii_lower_bracket by auto
    ultimately show False using that by auto
  qed
  moreover have "s = CHR ''['' # mid @ drop 8 s"
    using t h append_take_drop_id [of 8 s] by (simp add: ascii_lower_bracket)
  moreover have "length mid = 7" using arg_cong [OF ms, of length] by simp
  ultimately show ?thesis by blast
qed

lemma bracket_end_skip:
  "CHR ''['' \<notin> set mid \<Longrightarrow> CHR '']'' \<notin> set mid \<Longrightarrow> bracket_end d i (mid @ s) = bracket_end d (i + length mid) s"
  by (induction mid arbitrary: i) auto

lemma bracket_end_open:
  assumes "opens_directive (drop s t)" and "bracket_end 0 s (drop s t) = Some e"
  shows "s + 8 \<le> e \<and> e < length t"
proof -
  obtain mid tail where m: "drop s t = CHR ''['' # mid @ tail" "length mid = 7" "CHR ''['' \<notin> set mid" "CHR '']'' \<notin> set mid"
    using opens_directive_split [OF assms(1)] by blast
  have "bracket_end 1 (s + 1 + length mid) tail = Some e"
    using assms(2) m by (simp add: bracket_end_skip)
  then have "s + 8 \<le> e \<and> e < s + 8 + length tail" using bracket_end_bounds m(2) by fastforce
  moreover have "length t = s + 8 + length tail"
    using arg_cong [OF m(1), of length] m(2) by (cases "s \<le> length t") auto
  ultimately show ?thesis by simp
qed

fun is_text :: "content_block \<Rightarrow> bool" where
  "is_text (TextBlock _) = True"
| "is_text _ = False"

lemma parse_one_round:
  assumes "parse_one_prompt_directive prompt = Inr (Some (d, stripped))"
  shows "find_prompt_directive prompt \<noteq> None \<and> prompt_bytes stripped + 9 \<le> prompt_bytes prompt \<and>
    filter (\<lambda>b. \<not> is_text b) stripped = filter (\<lambda>b. \<not> is_text b) prompt"
proof -
  obtain i t s e where f: "find_prompt_directive prompt = Some (i, t, s)" and e: "bracket_end 0 s (drop s t) = Some e"
    and st: "stripped = strip_block prompt i (trim (take s t @ drop (e + 1) t))"
    using assms by (auto simp: parse_one_prompt_directive_def split: option.splits)
  have i: "i < length prompt" "prompt ! i = TextBlock t" using find_block [OF f] by auto
  have "length (trim (take s t @ drop (e + 1) t)) + 9 \<le> length t"
    using bracket_end_open [OF find_opens [OF f] e] length_trim [of "take s t @ drop (e + 1) t"] by auto
  then have "prompt_bytes stripped + 9 \<le> prompt_bytes prompt" 
    using strip_block_bytes [OF i, of "trim (take s t @ drop (e + 1) t)"] unfolding st by arith
  moreover have "filter (\<lambda>b. \<not> is_text b) stripped = filter (\<lambda>b. \<not> is_text b) prompt"
    using i arg_cong [OF id_take_nth_drop [OF i(1)], of "filter (\<lambda>b. \<not> is_text b)"] unfolding st strip_block_def
    by (simp add: upd_conv_take_nth_drop)
  ultimately show ?thesis using f by simp
qed

lemma parse_one_None: "parse_one_prompt_directive prompt = Inr None \<longleftrightarrow> find_prompt_directive prompt = None"
  by (auto simp: parse_one_prompt_directive_def split: option.splits)

text \<open>
  A prompt read down to another in rounds: each round takes one directive off, at least its nine
  bytes, and keeps the blocks that are not text, in order.
\<close>

fun reads :: "prompt_directives list \<Rightarrow> content_block list \<Rightarrow> content_block list \<Rightarrow> bool" where
  "reads [] prompt remaining \<longleftrightarrow> prompt = remaining"
| "reads (d # ds) prompt remaining \<longleftrightarrow>
     (\<exists>stripped. parse_one_prompt_directive prompt = Inr (Some (d, stripped)) \<and>
        prompt_bytes stripped + 9 \<le> prompt_bytes prompt \<and>
        filter (\<lambda>b. \<not> is_text b) stripped = filter (\<lambda>b. \<not> is_text b) prompt \<and> reads ds stripped remaining)"

lemma reads_kept:
  "reads ds prompt remaining \<Longrightarrow> filter (\<lambda>b. \<not> is_text b) remaining = filter (\<lambda>b. \<not> is_text b) prompt \<and>
     prompt_bytes remaining + 9 * length ds \<le> prompt_bytes prompt"
  by (induction ds arbitrary: prompt) fastforce+

lemma directives_loop_reads:
  "directives_loop m prompt = Inr (Some (d, remaining)) \<Longrightarrow>
   find_prompt_directive remaining = None \<and>
   (\<exists>ds. reads ds prompt remaining \<and> d = foldl merge_directives (unwrap_or m directives_default) ds \<and> (m = None \<longrightarrow> ds \<noteq> []))"
proof (induction m prompt rule: directives_loop.induct)
  case (1 m prompt)
  show ?case
  proof (cases "parse_one_prompt_directive prompt")
    case (Inl e)
    then show ?thesis using 1(2) by (simp add: directives_loop.simps)
  next
    case (Inr r)
    show ?thesis
    proof (cases r)
      case None
      then have "m = Some d" "remaining = prompt" using 1(2) Inr by (auto simp: directives_loop.simps)
      then show ?thesis using None Inr parse_one_None by (auto intro!: exI [of _ "[]"])
    next
      case (Some x)
      obtain nxt stripped where x: "x = (nxt, stripped)" by fastforce
      have l: "directives_loop (Some (merge_directives (unwrap_or m directives_default) nxt)) stripped = Inr (Some (d, remaining))"
        using 1(2) Inr Some x by (subst (asm) directives_loop.simps) simp
      obtain ds where "reads ds stripped remaining" "find_prompt_directive remaining = None"
        "d = foldl merge_directives (merge_directives (unwrap_or m directives_default) nxt) ds"
        using 1(1) [OF Inr Some x [symmetric] l] by auto
      then show ?thesis using parse_one_round [of prompt nxt stripped] Inr Some x by (intro conjI exI [of _ "nxt # ds"]) auto
    qed
  qed
qed

lemma directives_loop_None: "directives_loop m prompt = Inr None \<Longrightarrow> m = None \<and> find_prompt_directive prompt = None"
proof (induction m prompt rule: directives_loop.induct)
  case (1 m prompt)
  show ?case
  proof (cases "\<exists>nxt stripped. parse_one_prompt_directive prompt = Inr (Some (nxt, stripped))")
    case True
    then obtain nxt stripped where p: "parse_one_prompt_directive prompt = Inr (Some (nxt, stripped))" by blast
    then have "directives_loop (Some (merge_directives (unwrap_or m directives_default) nxt)) stripped = Inr None"
      using 1(2) by (subst (asm) directives_loop.simps) simp
    from 1(1) [OF p refl refl this] show ?thesis by simp
  next
    case False
    then show ?thesis using 1(2) parse_one_None [of prompt]
      by (subst (asm) directives_loop.simps) (auto split: sum.splits option.splits)
  qed
qed

text \<open>
  C22. Reading the directives of a prompt always ends. A prompt it accepts has no active
  directive left. It was read in rounds, each taking one tag off whole, at least the nine bytes of
  its brackets and name, and keeping the blocks that are not text, in order; what is reported is
  the merge of the tags of the rounds, first to last; nothing is reported exactly
  when the prompt had no active directive.
\<close>

theorem directives_exhausted:
  assumes "parse_prompt_directives prompt = Inr r"
  shows "case r of
      None \<Rightarrow> find_prompt_directive prompt = None
    | Some (d, remaining) \<Rightarrow>
        find_prompt_directive prompt \<noteq> None \<and> find_prompt_directive remaining = None \<and>
        (\<exists>ds. ds \<noteq> [] \<and> reads ds prompt remaining \<and> d = foldl merge_directives directives_default ds \<and>
           prompt_bytes remaining + 9 * length ds \<le> prompt_bytes prompt) \<and>
        filter (\<lambda>b. \<not> is_text b) remaining = filter (\<lambda>b. \<not> is_text b) prompt"
proof (cases r)
  case None
  then show ?thesis using assms directives_loop_None by (auto simp: parse_prompt_directives_def)
next
  case (Some x)
  obtain d remaining where x: "x = (d, remaining)" by fastforce
  obtain ds where ds: "find_prompt_directive remaining = None" "reads ds prompt remaining" "ds \<noteq> []"
    "d = foldl merge_directives directives_default ds"
    using directives_loop_reads [of None prompt d remaining] assms Some x by (auto simp: parse_prompt_directives_def)
  then have "find_prompt_directive prompt \<noteq> None" using parse_one_None [of prompt] by (cases ds) auto
  then show ?thesis using ds reads_kept [OF ds(2)] Some x by auto
qed

theorem directives_exhausted_witness:
  "\<exists>d remaining ds. parse_prompt_directives [TextBlock ''a [router: effort=high] b [router: label=x]''] = Inr (Some (d, remaining)) \<and>
     reads ds [TextBlock ''a [router: effort=high] b [router: label=x]''] remaining \<and> ds \<noteq> [] \<and>
     d = foldl merge_directives directives_default ds \<and> find_prompt_directive remaining = None"
proof -
  have p: "parse_prompt_directives [TextBlock ''a [router: effort=high] b [router: label=x]''] =
      Inr (Some (directives_default\<lparr>pd_effort := Some EffortHigh, pd_label := Some ''x''\<rparr>, [TextBlock ''a  b'']))" by code_simp
  show ?thesis using directives_exhausted [OF p] p by auto
qed

section \<open>Quoted code and framed history are inert\<close>

text \<open>
  Where a quote may begin: the state the scan is in after the blocks before, and a text before the
  quote that is whole lines, with no directive found and no code left open, and then a segment of
  its line that opens nothing by itself.
\<close>

fun scan_blocks :: "scan_state \<Rightarrow> content_block list \<Rightarrow> scan_state option" where
  "scan_blocks st [] = Some st"
| "scan_blocks st (TextBlock t # bs) = (case scan_text st 0 [] t of Found _ \<Rightarrow> None | Ended st' \<Rightarrow> scan_blocks st' bs)"
| "scan_blocks st (b # bs) = scan_blocks st bs"

definition plain :: "char \<Rightarrow> bool" where
  "plain c \<longleftrightarrow> c \<noteq> NL \<and> c \<noteq> CHR 0x5C \<and> c \<noteq> CHR ''>'' \<and> c \<noteq> CHR 0x60 \<and> c \<noteq> CHR ''~'' \<and> c \<noteq> CHR ''<'' \<and> c \<noteq> CHR ''[''"

definition unquoted :: "content_block list \<Rightarrow> string \<Rightarrow> string \<Rightarrow> bool" where
  "unquoted bs0 ls seg \<longleftrightarrow>
     (case scan_blocks scan_start bs0 of
        None \<Rightarrow> False
      | Some st0 \<Rightarrow> (case scan_text st0 0 [] ls of Found _ \<Rightarrow> False | Ended st \<Rightarrow> sn_code st = None)) \<and>
     (ls = [] \<or> last ls = NL) \<and> list_all plain seg"

text \<open>No directive is found before the end of \<open>before\<close> in the block after \<open>bs0\<close>.\<close>

definition inert_until :: "content_block list \<Rightarrow> string \<Rightarrow> string \<Rightarrow> content_block list \<Rightarrow> bool" where
  "inert_until bs0 before after bs \<longleftrightarrow>
     (\<forall>i t p. find_prompt_directive (bs0 @ TextBlock (before @ after) # bs) = Some (i, t, p) \<longrightarrow>
        length bs0 < i \<or> i = length bs0 \<and> length before \<le> p)"

lemma find_after_blocks:
  "scan_blocks st bs0 = Some st' \<Longrightarrow> find_in_blocks st i (bs0 @ bs) = find_in_blocks st' (i + length bs0) bs"
  by (induction st bs0 arbitrary: i rule: scan_blocks.induct) (auto split: scan_result.splits)

text \<open>What the scan looks ahead to ends with the line.\<close>

lemma starts_with_line:
  assumes "NL \<in> set ls" "NL \<notin> set tag"
  shows "starts_with (ls @ q) tag = starts_with ls tag"
  using assms
proof (induction tag arbitrary: ls)
  case (Cons c tag)
  then show ?case by (cases ls) auto
qed simp

lemma starts_with_split: "starts_with s p \<Longrightarrow> \<exists>q. s = p @ q"
  by (induction s p rule: starts_with.induct) auto

lemma frame_tags_line: "NL \<notin> set (frame_open f)" "NL \<notin> set (frame_close f)"
  by (cases f; simp add: NL_def)+

lemma run_of_line: "NL \<in> set ls \<Longrightarrow> d \<noteq> NL \<Longrightarrow> run_of d (ls @ q) = run_of d ls"
  by (simp add: run_of_def takeWhile_append1 [of NL])

lemma opens_directive_line: "opens_directive s \<Longrightarrow> NL \<notin> set (take 8 s)"
proof
  assume o: "opens_directive s" and n: "NL \<in> set (take 8 s)"
  have "map ascii_lower (take 8 s) = map ascii_lower OPEN"
    using o by (auto simp: opens_directive_def eq_ignore_ascii_case_def to_ascii_lowercase_def)
  then have "ascii_lower NL \<in> ascii_lower ` set OPEN" using n by (metis image_set imageI)
  then show False by (auto simp: NL_def OPEN_def ascii_lower_def)
qed

lemma opens_directive_append:
  assumes "NL \<in> set ls"
  shows "opens_directive (ls @ q) = opens_directive ls"
proof (cases "8 \<le> length ls")
  case False
  then have "\<not> opens_directive (ls @ q)" using assms opens_directive_line [of "ls @ q"] by auto
  then show ?thesis using False by (simp add: opens_directive_def)
qed (simp add: opens_directive_def)

lemma run_of_less: "NL \<in> set ls \<Longrightarrow> d \<noteq> NL \<Longrightarrow> run_of d ls < length ls \<and> NL \<in> set (drop (run_of d ls) ls)"
proof (induction ls)
  case (Cons c ls)
  then show ?case by (auto simp: run_of_def)
qed simp

lemma code_closes_line:
  assumes "NL \<in> set ls" "d \<noteq> NL"
  shows "code_closes line (ls @ q) len fenced (run_of d ls) = code_closes line ls len fenced (run_of d ls)"
  using run_of_less [OF assms] by (simp add: code_closes_def takeWhile_append1 [of NL])

lemma scan_step_line:
  assumes "ls \<noteq> []" "last ls = NL"
  shows "scan_step st line (ls @ q) = scan_step st line ls"
proof (cases "hd ls = NL")
  case False
  have nl: "NL \<in> set ls" using assms by (metis last_in_set)
  have two: "hd (ls @ q) = hd ls" "(ls @ q) ! 1 = ls ! 1" "2 \<le> length (ls @ q) \<longleftrightarrow> 2 \<le> length ls"
    using assms False by (cases ls; cases "tl ls"; simp)+
  have tw: "takeWhile (\<lambda>c. c \<noteq> NL) (ls @ q) = takeWhile (\<lambda>c. c \<noteq> NL) ls" using nl by (simp add: takeWhile_append1 [of NL])
  have run: "run_of (hd ls) (ls @ q) = run_of (hd ls) ls" by (rule run_of_line [OF nl False])
  note line = starts_with_line [OF nl frame_tags_line(1)] starts_with_line [OF nl frame_tags_line(2)]
    opens_directive_append [OF nl] tw two run
  show ?thesis
  proof (cases "sn_code st")
    case None
    then show ?thesis unfolding scan_step_def by (simp only: option.case Let_def line)
  next
    case (Some code)
    obtain d len fenced where code: "code = (d, len, fenced)" using prod_cases3 by blast
    show ?thesis
    proof (cases "hd ls = d")
      case True
      have "code_closes line (ls @ q) len fenced (run_of d ls) = code_closes line ls len fenced (run_of d ls)"
        using code_closes_line [OF nl False] True by simp
      then show ?thesis using run True two(1) Some code by (simp add: scan_step_def Let_def)
    next
      case False
      then show ?thesis using two(1) Some code by (simp add: scan_step_def Let_def)
    qed
  qed
qed (use assms in \<open>simp add: scan_step_def\<close>)

text \<open>A step within a line that has an end stops before it.\<close>

lemma starts_with_before:
  assumes "NL \<in> set ls" "NL \<notin> set tag" "starts_with ls tag"
  shows "length tag < length ls"
proof -
  obtain q where "ls = tag @ q" using starts_with_split [OF assms(3)] by blast
  then show ?thesis using assms(1,2) by (cases q) auto
qed

lemma scan_step_moves:
  assumes "scan_step st line rest = Some (st', n)" "hd rest \<noteq> NL"
  shows "n = 1 \<or> n = run_of (hd rest) rest \<or> n = 2 \<and> is_ascii_punctuation (rest ! 1) \<or>
    n = length (takeWhile (\<lambda>c. c \<noteq> NL) rest) \<or>
    (\<exists>f. n = length (frame_close f) \<and> starts_with rest (frame_close f)) \<or>
    (\<exists>f. n = length (frame_open f) \<and> starts_with rest (frame_open f))"
proof (cases "sn_code st")
  case None
  have found: "starts_with rest (frame_open f)" if "List.find (\<lambda>f. starts_with rest (frame_open f)) FRAMES = Some f" for f
    using that by (auto simp: find_Some_iff)
  show ?thesis
    using assms None by (auto simp: scan_step_def Let_def dest: found split: if_splits option.splits)
next
  case (Some code)
  then show ?thesis using assms by (cases code) (auto simp: scan_step_def Let_def split: if_splits)
qed

lemma scan_step_before:
  assumes "scan_step st line ls = Some (st', n)" "ls \<noteq> []" "last ls = NL"
  shows "if hd ls = NL then n = 1 \<and> st' = st else n < length ls"
proof (cases "hd ls = NL")
  case False
  have nl: "NL \<in> set ls" using assms by (metis last_in_set)
  have two: "1 < length ls" using assms False by (cases ls; cases "tl ls") auto
  have esc: "2 < length ls" if "is_ascii_punctuation (ls ! 1)"
  proof (rule ccontr)
    assume "\<not> 2 < length ls"
    then have "length ls = 2" using two by linarith
    then have "ls ! 1 = NL" using assms(2,3) by (simp add: last_conv_nth)
    then show False using that by (simp add: is_ascii_punctuation_def NL_def)
  qed
  have tw: "length (takeWhile (\<lambda>c. c \<noteq> NL) ls) < length ls" using nl by (induction ls) auto
  have "n < length ls"
    using scan_step_moves [OF assms(1) False] run_of_less [OF nl False] esc two tw
      starts_with_before [OF nl frame_tags_line(1)] starts_with_before [OF nl frame_tags_line(2)] by blast
  then show ?thesis using False by simp
qed (use assms in \<open>simp add: scan_step_def\<close>)

lemma scan_text_lines:
  "scan_text st pos line ls = Ended st' \<Longrightarrow> ls \<noteq> [] \<Longrightarrow> last ls = NL \<Longrightarrow>
   scan_text st pos line (ls @ q) = scan_text st' (pos + length ls) [] q"
proof (induction st pos line ls rule: scan_text.induct)
  case (1 st pos line ls)
  obtain st1 n where s: "scan_step st line ls = Some (st1, n)"
    using 1(2,3) by (cases "scan_step st line ls") (auto simp: scan_text.simps)
  note b = scan_step_before [OF s 1(3,4)]
  have n: "n \<le> length ls" using b 1(3) by (cases ls) (auto split: if_splits)
  let ?line = "if hd ls = NL then [] else line @ take n ls"
  have e: "scan_text st1 (pos + n) ?line (drop n ls) = Ended st'"
    using 1(2,3) s by (subst (asm) scan_text.simps) simp
  have q: "scan_text st pos line (ls @ q) = scan_text st1 (pos + n) ?line (drop n ls @ q)"
    using 1(3) s n scan_step_line [OF 1(3,4), of st line q] by (subst scan_text.simps) simp
  show ?case
  proof (cases "drop n ls = []")
    case True
    then have "hd ls = NL" "n = length ls" using b n by (auto split: if_splits)
    then show ?thesis using q e True by (simp add: scan_text.simps [of _ _ _ "[]"])
  next
    case False
    then have "last (drop n ls) = NL" using 1(4) by (simp add: last_drop)
    from 1(1) [OF 1(3) s refl e False this] show ?thesis using q n by simp
  qed
qed

lemma scan_text_plain:
  "sn_code st = None \<Longrightarrow> list_all plain seg \<Longrightarrow> scan_text st pos line (seg @ q) = scan_text st (pos + length seg) (line @ seg) q"
proof (induction seg arbitrary: pos line)
  case (Cons c seg)
  have c: "plain c" using Cons.prems by simp
  have tags: "\<not> starts_with (c # x) (frame_open f)" "\<not> starts_with (c # x) (frame_close f)" for x f
    using c by (cases f; auto simp: plain_def)+
  then have "List.find (\<lambda>f. starts_with (c # x) (frame_open f)) FRAMES = None" for x by (simp add: find_None_iff)
  moreover have "\<not> opens_directive (c # x)" for x
    using opens_directive_split [of "c # x"] c by (auto simp: plain_def)
  ultimately have "scan_step st line (c # x) = Some (st, 1)" for x
    using c Cons.prems(1) tags by (simp add: scan_step_def Let_def plain_def)
  moreover have "c \<noteq> NL" using c by (simp add: plain_def)
  ultimately show ?case using Cons by (subst append_Cons, subst scan_text.simps) simp
qed simp

text \<open>The scan at the quote: outside code, on a line that holds the segment so far.\<close>

lemma unquoted_scan:
  assumes "unquoted bs0 ls seg"
  obtains st where "sn_code st = None" and
    "\<And>q bs. find_prompt_directive (bs0 @ TextBlock (ls @ seg @ q) # bs) =
       (case scan_text st (length (ls @ seg)) seg q of
          Found p \<Rightarrow> Some (length bs0, ls @ seg @ q, p)
        | Ended st' \<Rightarrow> find_in_blocks st' (Suc (length bs0)) bs)"
proof -
  obtain st0 st where st0: "scan_blocks scan_start bs0 = Some st0" and st: "scan_text st0 0 [] ls = Ended st" "sn_code st = None"
    and ls: "ls = [] \<or> last ls = NL" "list_all plain seg"
    using assms by (auto simp: unquoted_def split: option.splits scan_result.splits)
  have "scan_text st0 0 [] (ls @ x) = scan_text st (length ls) [] x" for x
  proof (cases "ls = []")
    case True
    then show ?thesis using st(1) by (simp add: scan_text.simps)
  next
    case False
    then show ?thesis using scan_text_lines [OF st(1) False] ls(1) by simp
  qed
  then have "scan_text st0 0 [] (ls @ seg @ q) = scan_text st (length (ls @ seg)) seg q" for q
    using scan_text_plain [OF st(2) ls(2), of "length ls" "[]" q] by simp
  then show thesis using that [OF st(2)] find_after_blocks [OF st0] by (simp add: find_prompt_directive_def)
qed

text \<open>Inside code nothing is found before the delimiter comes again.\<close>

lemma scan_in_code:
  "sn_code st = Some (d, n, fenced) \<Longrightarrow> d \<notin> set s \<Longrightarrow>
   \<exists>line'. scan_text st pos line (s @ tail) = scan_text st (pos + length s) line' tail"
proof (induction s arbitrary: pos line)
  case (Cons c s)
  have "scan_step st line (c # x) = Some (st, 1)" for x using Cons.prems by (auto simp: scan_step_def Let_def)
  then have "\<exists>l. scan_text st pos line ((c # s) @ tail) = scan_text st (Suc pos) l (s @ tail)"
    by (subst append_Cons, subst scan_text.simps) auto
  moreover have "\<exists>line'. scan_text st (Suc pos) l (s @ tail) = scan_text st (Suc pos + length s) line' tail" for l
    using Cons.IH [of "Suc pos" l] Cons.prems by simp
  ultimately show ?case by (metis add_Suc_shift length_Cons)
qed auto

lemma scan_inside_code:
  assumes "sn_code st = Some (d, n, fenced)" "d \<notin> set rest"
  shows "scan_text st pos line rest = Ended st"
  using scan_in_code [OF assms, of pos line "[]"] by (auto simp: scan_text.simps [of _ _ _ "[]"])

fun text_bytes :: "content_block \<Rightarrow> string" where
  "text_bytes (TextBlock t) = t"
| "text_bytes _ = []"

lemma find_inside_code:
  "sn_code st = Some (d, n, fenced) \<Longrightarrow> d \<notin> (\<Union>b \<in> set bs. set (text_bytes b)) \<Longrightarrow> find_in_blocks st i bs = None"
  by (induction st i bs rule: find_in_blocks.induct) (auto simp: scan_inside_code)

text \<open>Inside a frame nothing is found before its closing tag.\<close>

lemma contains_drop: "contains_str (drop n s) p \<Longrightarrow> contains_str s p"
proof (induction n arbitrary: s)
  case (Suc n)
  then show ?case by (cases s) auto
qed simp

lemma contains_start: "starts_with s p \<Longrightarrow> contains_str s p"
  by (cases s; cases p) auto

lemma not_contains: "\<not> contains_str s p \<Longrightarrow> \<not> starts_with (drop k s) p"
  using contains_start contains_drop by blast

lemma scan_step_in_frame:
  assumes "f \<in> set (sn_frames st)" and "\<not> starts_with rest (frame_close f)"
  shows "\<exists>st' n. scan_step st line rest = Some (st', n) \<and> f \<in> set (sn_frames st')"
proof -
  have "f \<in> set (tl (sn_frames st))" if "starts_with rest (frame_close (hd (sn_frames st)))"
    using that assms by (cases "sn_frames st") auto
  moreover have "sn_frames st \<noteq> []" using assms(1) by auto
  ultimately show ?thesis
    using assms(1) by (auto simp: scan_step_def Let_def split: option.splits)
qed

lemma scan_in_frame:
  "f \<in> set (sn_frames st) \<Longrightarrow> \<forall>k < m. \<not> starts_with (drop k rest) (frame_close f) \<Longrightarrow>
   scan_text st pos line rest = Found p \<Longrightarrow> pos + m \<le> p"
proof (induction st pos line rest arbitrary: m rule: scan_text.induct)
  case (1 st pos line rest)
  show ?case
  proof (cases "m = 0")
    case True
    then show ?thesis using scan_text_Found [OF 1(4)] by simp
  next
    case False
    have ne: "rest \<noteq> []" using 1(4) by (auto simp: scan_text.simps)
    have "\<not> starts_with rest (frame_close f)" using 1(3) False by (metis drop0 neq0_conv)
    then obtain st' n where s: "scan_step st line rest = Some (st', n)" "f \<in> set (sn_frames st')"
      using scan_step_in_frame [OF 1(2)] by blast
    let ?line = "if hd rest = NL then [] else line @ take n rest"
    have r: "scan_text st' (pos + n) ?line (drop n rest) = Found p"
      using 1(4) s ne by (subst (asm) scan_text.simps) simp
    have "\<forall>k < m - n. \<not> starts_with (drop k (drop n rest)) (frame_close f)"
      using 1(3) by (simp add: less_diff_conv)
    from 1(1) [OF ne s(1) refl s(2) this r] show ?thesis using scan_text_Found [OF r] by linarith
  qed
qed

lemma scan_inside_frame:
  "f \<in> set (sn_frames st) \<Longrightarrow> \<not> contains_str rest (frame_close f) \<Longrightarrow>
   \<exists>st'. scan_text st pos line rest = Ended st' \<and> f \<in> set (sn_frames st')"
proof (induction st pos line rest rule: scan_text.induct)
  case (1 st pos line rest)
  show ?case
  proof (cases "rest = []")
    case True
    then show ?thesis using 1(2) by (simp add: scan_text.simps)
  next
    case False
    obtain st' n where s: "scan_step st line rest = Some (st', n)" "f \<in> set (sn_frames st')"
      using scan_step_in_frame [OF 1(2)] 1(3) contains_start by blast
    have "\<not> contains_str (drop n rest) (frame_close f)" using 1(3) contains_drop by blast
    from 1(1) [OF False s(1) refl s(2) this] show ?thesis using s(1) False by (subst scan_text.simps) simp
  qed
qed

lemma find_inside_frame:
  "f \<in> set (sn_frames st) \<Longrightarrow> \<not> list_ex (\<lambda>b. contains_str (text_bytes b) (frame_close f)) bs \<Longrightarrow>
   find_in_blocks st i bs = None"
proof (induction st i bs rule: find_in_blocks.induct)
  case (2 st i t bs)
  then obtain st' where "scan_text st 0 [] t = Ended st'" "f \<in> set (sn_frames st')"
    using scan_inside_frame [of f st t 0 "[]"] by auto
  with 2 show ?case by simp
qed auto

text \<open>What opens a quote.\<close>

lemma run_of_replicate: "s = [] \<or> hd s \<noteq> d \<Longrightarrow> run_of d (replicate n d @ s) = n"
  by (induction n) (cases s; auto simp: run_of_def)+

lemma scan_opens_code:
  assumes "sn_code st = None" "0 < n" "s = [] \<or> hd s \<noteq> d" "d = CHR 0x60 \<or> d = CHR ''~'' \<and> 3 \<le> n \<and> line_prefix line"
  shows "\<exists>fenced line'. scan_text st pos line (replicate n d @ s) =
    scan_text (st\<lparr>sn_code := Some (d, n, fenced)\<rparr>) (pos + n) line' s"
proof -
  obtain m where n: "n = Suc m" using assms(2) by (cases n) auto
  have "scan_step st line (replicate n d @ s) = Some (st\<lparr>sn_code := Some (d, n, line_prefix line \<and> 3 \<le> n)\<rparr>, n)"
    using assms run_of_replicate [OF assms(3), of n] by (auto simp: scan_step_def Let_def NL_def n)
  then show ?thesis using n by (subst scan_text.simps) auto
qed

lemma scan_opens_frame:
  assumes "sn_code st = None"
  shows "\<exists>line'. scan_text st pos line (frame_open f @ s) =
    scan_text (st\<lparr>sn_frames := f # sn_frames st\<rparr>) (pos + length (frame_open f)) line' s"
proof -
  have "\<not> starts_with (frame_open f @ s) (frame_close g)" for g
    by (cases f; cases g) simp_all
  moreover have "List.find (\<lambda>g. starts_with (frame_open f @ s) (frame_open g)) FRAMES = Some f"
    by (cases f) (simp_all add: FRAMES_def)
  moreover have "hd (frame_open f @ s) = CHR ''<''" by (cases f) simp_all
  ultimately have "scan_step st line (frame_open f @ s) = Some (st\<lparr>sn_frames := f # sn_frames st\<rparr>, length (frame_open f))"
    using assms by (simp add: scan_step_def Let_def NL_def)
  moreover have "frame_open f @ s \<noteq> []" by simp
  ultimately show ?thesis by (subst scan_text.simps) auto
qed

text \<open>
  C20. Directives in quoted material are never acted on, wherever in a prompt it stands: after any
  blocks and any lines without an active directive that leave no code open, and plain characters
  before it on its line. Nothing is found from where a code span or, at the start of its line, a
  fence opens until its delimiter comes again; from the opening tag of a framed
  history until that frame's closing tag; and in a quoted line. When the delimiter or the tag does
  not come again in the block or in a later one, nothing is found at all.
\<close>

theorem quoted_directives_inert:
  assumes "unquoted bs0 ls seg"
  shows "(0 < n \<and> (d = CHR 0x60 \<or> d = CHR ''~'' \<and> 3 \<le> n \<and> line_prefix seg) \<and> d \<notin> set s \<and> (s = [] \<longrightarrow> tail = []) \<longrightarrow>
      inert_until bs0 (ls @ seg @ replicate n d @ s) tail bs \<and>
      (d \<notin> set tail \<union> (\<Union>b \<in> set bs. set (text_bytes b)) \<longrightarrow>
         find_prompt_directive (bs0 @ TextBlock (ls @ seg @ replicate n d @ s @ tail) # bs) = None)) \<and>
   ((\<forall>k < length s. \<not> starts_with (drop k (s @ tail)) (frame_close f)) \<longrightarrow>
      inert_until bs0 (ls @ seg @ frame_open f @ s) tail bs \<and>
      (\<not> contains_str (s @ tail) (frame_close f) \<and> \<not> list_ex (\<lambda>b. contains_str (text_bytes b) (frame_close f)) bs \<longrightarrow>
         find_prompt_directive (bs0 @ TextBlock (ls @ seg @ frame_open f @ s @ tail) # bs) = None)) \<and>
   (line_prefix seg \<and> NL \<notin> set s \<longrightarrow> inert_until bs0 (ls @ seg @ CHR ''>'' # s) tail bs)"
proof -
  obtain st where code: "sn_code st = None" and find: "\<And>q bs. find_prompt_directive (bs0 @ TextBlock (ls @ seg @ q) # bs) =
       (case scan_text st (length (ls @ seg)) seg q of
          Found p \<Rightarrow> Some (length bs0, ls @ seg @ q, p)
        | Ended st' \<Rightarrow> find_in_blocks st' (Suc (length bs0)) bs)"
    using unquoted_scan [OF assms] by blast
  have inert: "inert_until bs0 (ls @ seg @ q) tail bs"
    if "\<And>p. scan_text st (length (ls @ seg)) seg (q @ tail) = Found p \<Longrightarrow> length (ls @ seg @ q) \<le> p" for q
    using that find [of "q @ tail" bs]
    by (auto simp: inert_until_def Suc_le_eq split: scan_result.splits dest: find_in_blocks_Some)
  show ?thesis
  proof (intro conjI impI)
    assume a: "0 < n \<and> (d = CHR 0x60 \<or> d = CHR ''~'' \<and> 3 \<le> n \<and> line_prefix seg) \<and> d \<notin> set s \<and> (s = [] \<longrightarrow> tail = [])"
    then have "s @ tail = [] \<or> hd (s @ tail) \<noteq> d" by (cases s) auto
    then obtain fenced line1 where o: "scan_text st (length (ls @ seg)) seg (replicate n d @ s @ tail) =
        scan_text (st\<lparr>sn_code := Some (d, n, fenced)\<rparr>) (length (ls @ seg) + n) line1 (s @ tail)"
      using a code scan_opens_code [of st n "s @ tail" d seg "length (ls @ seg)"] by blast
    obtain line2 where i: "scan_text (st\<lparr>sn_code := Some (d, n, fenced)\<rparr>) (length (ls @ seg) + n) line1 (s @ tail) =
        scan_text (st\<lparr>sn_code := Some (d, n, fenced)\<rparr>) (length (ls @ seg) + n + length s) line2 tail"
      using a scan_in_code [of "st\<lparr>sn_code := Some (d, n, fenced)\<rparr>" d n fenced s "length (ls @ seg) + n" line1 tail] by auto
    show "inert_until bs0 (ls @ seg @ replicate n d @ s) tail bs"
      by (rule inert) (use o i scan_text_Found [of _ "length (ls @ seg) + n + length s" line2 tail] in \<open>simp add: add.assoc\<close>)
    assume "d \<notin> set tail \<union> (\<Union>b \<in> set bs. set (text_bytes b))"
    then show "find_prompt_directive (bs0 @ TextBlock (ls @ seg @ replicate n d @ s @ tail) # bs) = None"
      unfolding find o i using scan_inside_code [of "st\<lparr>sn_code := Some (d, n, fenced)\<rparr>" d n fenced tail]
      by (simp add: find_inside_code)
  next
    assume a: "\<forall>k < length s. \<not> starts_with (drop k (s @ tail)) (frame_close f)"
    obtain line1 where o: "scan_text st (length (ls @ seg)) seg (frame_open f @ s @ tail) =
        scan_text (st\<lparr>sn_frames := f # sn_frames st\<rparr>) (length (ls @ seg) + length (frame_open f)) line1 (s @ tail)"
      using scan_opens_frame [OF code] by blast
    show "inert_until bs0 (ls @ seg @ frame_open f @ s) tail bs"
    proof (rule inert)
      fix p assume "scan_text st (length (ls @ seg)) seg ((frame_open f @ s) @ tail) = Found p"
      then have "scan_text (st\<lparr>sn_frames := f # sn_frames st\<rparr>) (length (ls @ seg) + length (frame_open f)) line1 (s @ tail) = Found p"
        using o by simp
      from scan_in_frame [OF _ a this] show "length (ls @ seg @ frame_open f @ s) \<le> p" by simp
    qed
    assume "\<not> contains_str (s @ tail) (frame_close f) \<and> \<not> list_ex (\<lambda>b. contains_str (text_bytes b) (frame_close f)) bs"
    then show "find_prompt_directive (bs0 @ TextBlock (ls @ seg @ frame_open f @ s @ tail) # bs) = None"
      unfolding find o
      using scan_inside_frame [of f "st\<lparr>sn_frames := f # sn_frames st\<rparr>" "s @ tail" "length (ls @ seg) + length (frame_open f)" line1]
        find_inside_frame by auto
  next
    assume a: "line_prefix seg \<and> NL \<notin> set s"
    have w: "length s \<le> length (takeWhile (\<lambda>c. c \<noteq> NL) (s @ tail))" using a by (induction s) auto
    have "scan_step st seg (CHR ''>'' # s @ tail) = Some (st, Suc (length (takeWhile (\<lambda>c. c \<noteq> NL) (s @ tail))))"
      using a code by (simp add: scan_step_def Let_def NL_def)
    then have "scan_text st (length (ls @ seg)) seg ((CHR ''>'' # s) @ tail) = Found p \<Longrightarrow> length (ls @ seg @ CHR ''>'' # s) \<le> p" for p
      using w by (subst (asm) scan_text.simps) (auto simp: NL_def dest!: scan_text_Found)
    then show "inert_until bs0 (ls @ seg @ CHR ''>'' # s) tail bs" by (rule inert)
  qed
qed

text \<open>A code span in the middle of a line, a history framed on a later line, and a quoted line, each with a directive in it.\<close>

theorem quoted_directives_inert_witness:
  "find_prompt_directive [TextBlock (''Fix it'' @ [NL] @ ''Use '' @ CHR 0x60 # ''[router: effort=high]'')] = None \<and>
   find_prompt_directive [TextBlock (''Fix it'' @ [NL] @ ''Use '' @ frame_open TurnContext @ ''[router: effort=high]'')] = None \<and>
   inert_until [] (''Fix it'' @ [NL] @ CHR ''>'' # ''[router: effort=high]'') (NL # ''[router: effort=low]'') []"
proof -
  have u: "unquoted [] (''Fix it'' @ [NL]) ''Use ''" "unquoted [] (''Fix it'' @ [NL]) []" by code_simp+
  have c: "\<not> contains_str ''[router: effort=high]'' (frame_close TurnContext)" by code_simp
  then have k: "\<forall>k < length ''[router: effort=high]''. \<not> starts_with (drop k (''[router: effort=high]'' @ [])) (frame_close TurnContext)"
    using not_contains by (metis append_Nil2)
  have "CHR 0x60 \<notin> set ''[router: effort=high]''" "NL \<notin> set ''[router: effort=high]''" "line_prefix []"
    by (simp_all add: NL_def line_prefix_def)
  then show ?thesis
    using quoted_directives_inert [OF u(1), of 1 "CHR 0x60" "''[router: effort=high]''" "[]" "[]" TurnContext] c k
      quoted_directives_inert [OF u(2), of 1 "CHR 0x60" "''[router: effort=high]''" "NL # ''[router: effort=low]''" "[]" TurnContext]
    by (simp del: starts_with.simps)
qed

section \<open>Printing and reading back\<close>

definition graphic :: "char \<Rightarrow> bool" where
  "graphic c \<longleftrightarrow> 33 \<le> byte c \<and> byte c \<le> 126"

text \<open>A text that begins and ends on an ASCII graphic byte: trimming leaves it alone.\<close>

definition framed :: "string \<Rightarrow> bool" where
  "framed v \<longleftrightarrow> v \<noteq> [] \<and> graphic (hd v) \<and> graphic (last v)"

lemma trim_start_graphic: "graphic c \<Longrightarrow> trim_start (c # xs) = c # xs"
  unfolding trim_start.simps(2) by (auto simp: graphic_def split: list.split)

lemma trim_rev_graphic: "graphic c \<Longrightarrow> trim_rev (c # xs) = c # xs"
  unfolding trim_rev.simps(2) by (auto simp: graphic_def split: list.split)

lemma trim_framed: "framed v \<Longrightarrow> trim v = v"
proof -
  assume v: "framed v"
  then have "trim_start v = v" by (cases v) (auto simp: framed_def trim_start_graphic simp del: trim_start.simps)
  moreover have "trim_rev (rev v) = rev v"
    using v by (cases v rule: rev_cases) (auto simp: framed_def trim_rev_graphic simp del: trim_rev.simps)
  ultimately show ?thesis by (simp add: trim_def trim_end_def)
qed

lemma trim_ws: "ws1 (byte c) \<Longrightarrow> trim (c # s) = trim s"
  by (simp add: trim_def)

fun join_sep :: "char \<Rightarrow> string list \<Rightarrow> string" where
  "join_sep sep [] = []"
| "join_sep sep [x] = x"
| "join_sep sep (x # y # zs) = x @ sep # join_sep sep (y # zs)"

lemma split_on_acc_skip:
  "\<not> list_ex p x \<Longrightarrow> split_on_acc p acc (x @ s) = split_on_acc p (rev x @ acc) s"
  by (induction x arbitrary: acc) auto

lemma split_join: "xs \<noteq> [] \<Longrightarrow> \<forall>x \<in> set xs. sep \<notin> set x \<Longrightarrow> split_on (\<lambda>c. c = sep) (join_sep sep xs) = xs"
proof (induction sep xs rule: join_sep.induct)
  case (2 sep x)
  then show ?case using split_on_acc_skip [of "\<lambda>c. c = sep" x "[]" "[]"] by (auto simp: split_on_def list_ex_iff)
next
  case (3 sep x y zs)
  then show ?case using split_on_acc_skip [of "\<lambda>c. c = sep" x "[]" "sep # join_sep sep (y # zs)"]
    by (auto simp: split_on_def list_ex_iff)
qed simp

text \<open>A directive as text, one \<open>key=value\<close> per set field.\<close>

definition opt_pair :: "string \<Rightarrow> string option \<Rightarrow> (string \<times> string) list" where
  "opt_pair k v = (case v of None \<Rightarrow> [] | Some x \<Rightarrow> [(k, x)])"

definition phase_word :: "planner_phase \<Rightarrow> string" where
  "phase_word p = (if p = Planning then ''planning'' else ''implementation'')"

definition directive_pairs :: "prompt_directives \<Rightarrow> (string \<times> string) list" where
  "directive_pairs d =
     opt_pair ''candidate'' (map_option candidate_display (pd_candidate d)) @
     opt_pair ''prefer'' (map_option candidate_display (pd_prefer d)) @
     opt_pair ''switch'' (map_option candidate_display (pd_switch d)) @
     opt_pair ''strategy'' (map_option strategy_str (pd_strategy d)) @
     opt_pair ''exclude'' (if pd_exclude d = [] then None else Some (join_sep (CHR ''|'') (pd_exclude d))) @
     opt_pair ''label'' (pd_label d) @
     opt_pair ''effort'' (map_option effort_str (pd_effort d)) @
     opt_pair ''version'' (pd_version d) @
     opt_pair ''phase'' (map_option phase_word (pd_phase d))"

definition pair_text :: "string \<times> string \<Rightarrow> string" where
  "pair_text = (\<lambda>(k, v). CHR '' '' # k @ CHR ''='' # v)"

definition render_directive :: "prompt_directives \<Rightarrow> string" where
  "render_directive d = OPEN @ join_sep (CHR '','') (map pair_text (directive_pairs d)) @ '']''"

text \<open>Balanced brackets, \<open>d\<close> of them open.\<close>

fun nested :: "nat \<Rightarrow> string \<Rightarrow> bool" where
  "nested d [] \<longleftrightarrow> d = 0"
| "nested d (c # cs) \<longleftrightarrow>
     (if c = CHR ''['' then nested (Suc d) cs else if c = CHR '']'' then d \<noteq> 0 \<and> nested (d - 1) cs else nested d cs)"

lemma nested_append: "nested d a \<Longrightarrow> nested 0 b \<Longrightarrow> nested d (a @ b)"
  by (induction d a rule: nested.induct) auto

lemma nested_plain: "CHR ''['' \<notin> set s \<Longrightarrow> CHR '']'' \<notin> set s \<Longrightarrow> nested 0 s"
  by (induction s) auto

lemma bracket_end_nested:
  "nested k s \<Longrightarrow> bracket_end (Suc d + k) i (s @ t) = bracket_end (Suc d) (i + length s) t"
proof (induction k s arbitrary: i rule: nested.induct)
  case (2 k c cs)
  then show ?case by (cases k) auto
qed simp

text \<open>The values a tag can carry: framed, without comma, the brackets in them balanced.\<close>

definition value_ok :: "string \<Rightarrow> bool" where
  "value_ok v \<longleftrightarrow> framed v \<and> CHR '','' \<notin> set v \<and> nested 0 v"

definition id_ok :: "candidate_id \<Rightarrow> bool" where
  "id_ok c \<longleftrightarrow> candidate_ok c \<and> value_ok (candidate_display c)"

definition directives_ok :: "prompt_directives \<Rightarrow> bool" where
  "directives_ok d \<longleftrightarrow>
     is_none_or (pd_candidate d) id_ok \<and> is_none_or (pd_prefer d) id_ok \<and> is_none_or (pd_switch d) id_ok \<and>
     list_all (\<lambda>p. value_ok p \<and> CHR ''|'' \<notin> set p) (pd_exclude d) \<and>
     is_none_or (pd_label d) value_ok \<and> is_none_or (pd_version d) value_ok"

lemma parse_pairs_append: "parse_pairs (xs @ ys) d = rbind (parse_pairs xs d) (parse_pairs ys)"
  by (induction xs arbitrary: d) (auto simp: rbind_def split: sum.split)

lemma parse_pair_text:
  assumes "framed v" and "framed k" and "CHR ''='' \<notin> set k" and "to_ascii_lowercase k = k"
  shows "parse_pair (pair_text (k, v)) d = parse_key k v d"
proof -
  have "framed (k @ CHR ''='' # v)" using assms(1,2) by (auto simp: framed_def)
  then have "trim (pair_text (k, v)) = k @ CHR ''='' # v" by (simp add: pair_text_def trim_ws trim_framed)
  then show ?thesis using assms by (simp add: parse_pair_def split_once_append trim_framed)
qed

text \<open>Each field on its own is read back.\<close>

lemma keys_framed:
  "k \<in> {''candidate'', ''prefer'', ''switch'', ''strategy'', ''exclude'', ''label'', ''effort'', ''version'', ''phase''} \<Longrightarrow>
   framed k \<and> CHR ''='' \<notin> set k \<and> CHR '','' \<notin> set k \<and> CHR ''['' \<notin> set k \<and> CHR '']'' \<notin> set k \<and> to_ascii_lowercase k = k"
  by (auto simp: framed_def graphic_def to_ascii_lowercase_def ascii_lower_def)

definition read_field :: "string \<Rightarrow> string option \<Rightarrow> prompt_directives \<Rightarrow> (directive_error, prompt_directives) result" where
  "read_field k v d = (case v of None \<Rightarrow> Inr d | Some x \<Rightarrow> parse_key k x d)"

lemma parse_field:
  assumes "is_none_or v framed"
    and "k \<in> {''candidate'', ''prefer'', ''switch'', ''strategy'', ''exclude'', ''label'', ''effort'', ''version'', ''phase''}"
  shows "parse_pairs (map pair_text (opt_pair k v)) d = read_field k v d"
  using assms(1) keys_framed [OF assms(2)]
  by (cases v) (auto simp: opt_pair_def read_field_def parse_pair_text rbind_def split: sum.split)

lemma enum_values:
  "value_ok (strategy_str k)" "value_ok (effort_str e)" "value_ok (phase_word p)" "parse_phase (phase_word p) = Some p"
  by ((cases k; simp add: value_ok_def framed_def graphic_def), (cases e; simp add: value_ok_def framed_def graphic_def),
      (cases p; simp add: phase_word_def value_ok_def framed_def graphic_def), (cases p; simp add: phase_word_def parse_phase_def))

lemma join_mem: "c \<in> set (join_sep sep xs) \<Longrightarrow> c = sep \<or> (\<exists>x \<in> set xs. c \<in> set x)"
  by (induction sep xs rule: join_sep.induct) auto

lemma join_nested: "\<forall>x \<in> set xs. nested 0 x \<Longrightarrow> sep \<noteq> CHR ''['' \<Longrightarrow> sep \<noteq> CHR '']'' \<Longrightarrow> nested 0 (join_sep sep xs)"
  by (induction sep xs rule: join_sep.induct) (auto intro: nested_append)

lemma join_framed: "xs \<noteq> [] \<Longrightarrow> \<forall>x \<in> set xs. framed x \<Longrightarrow> framed (join_sep sep xs)"
proof (induction sep xs rule: join_sep.induct)
  case (3 sep x y zs)
  then have "framed x" "framed (join_sep sep (y # zs))" by auto
  then show ?case by (auto simp: framed_def)
qed auto

lemma exclude_value:
  assumes "list_all (\<lambda>p. value_ok p \<and> CHR ''|'' \<notin> set p) ps" and "ps \<noteq> []"
  shows "value_ok (join_sep (CHR ''|'') ps) \<and>
    filter (\<lambda>p. p \<noteq> []) (map trim (split_on (\<lambda>c. c = CHR ''|'') (join_sep (CHR ''|'') ps))) = ps"
proof -
  have ok: "\<forall>p \<in> set ps. value_ok p \<and> CHR ''|'' \<notin> set p" using assms(1) by (simp add: list_all_iff)
  have "map trim ps = ps" using ok by (intro map_idI) (auto simp: value_ok_def trim_framed)
  moreover have "filter (\<lambda>p. p \<noteq> []) ps = ps" using ok by (auto simp: value_ok_def framed_def intro: filter_True)
  moreover have "split_on (\<lambda>c. c = CHR ''|'') (join_sep (CHR ''|'') ps) = ps" using ok assms(2) by (intro split_join) auto
  moreover have "value_ok (join_sep (CHR ''|'') ps)"
    using ok assms(2) join_framed [of ps "CHR ''|''"] join_nested [of ps "CHR ''|''"] by (auto simp: value_ok_def dest!: join_mem)
  ultimately show ?thesis by simp
qed

abbreviation exclude_text :: "string list \<Rightarrow> string option" where
  "exclude_text ps \<equiv> (if ps = [] then None else Some (join_sep (CHR ''|'') ps))"

lemma opt_or_None: "opt_or x None = x"
  by (cases x) auto

lemma read_fields:
  "is_none_or c id_ok \<Longrightarrow> read_field ''candidate'' (map_option candidate_display c) d = Inr (d\<lparr>pd_candidate := opt_or c (pd_candidate d)\<rparr>)"
  "is_none_or c id_ok \<Longrightarrow> read_field ''prefer'' (map_option candidate_display c) d = Inr (d\<lparr>pd_prefer := opt_or c (pd_prefer d)\<rparr>)"
  "is_none_or c id_ok \<Longrightarrow> read_field ''switch'' (map_option candidate_display c) d = Inr (d\<lparr>pd_switch := opt_or c (pd_switch d)\<rparr>)"
  "read_field ''strategy'' (map_option strategy_str k) d = Inr (d\<lparr>pd_strategy := opt_or k (pd_strategy d)\<rparr>)"
  "list_all (\<lambda>p. value_ok p \<and> CHR ''|'' \<notin> set p) ps \<Longrightarrow>
   read_field ''exclude'' (exclude_text ps) d = Inr (d\<lparr>pd_exclude := pd_exclude d @ ps\<rparr>)"
  "is_none_or l value_ok \<Longrightarrow> read_field ''label'' l d = Inr (d\<lparr>pd_label := opt_or l (pd_label d)\<rparr>)"
  "read_field ''effort'' (map_option effort_str e) d = Inr (d\<lparr>pd_effort := opt_or e (pd_effort d)\<rparr>)"
  "is_none_or l value_ok \<Longrightarrow> read_field ''version'' l d = Inr (d\<lparr>pd_version := opt_or l (pd_version d)\<rparr>)"
  "read_field ''phase'' (map_option phase_word p) d = Inr (d\<lparr>pd_phase := opt_or p (pd_phase d)\<rparr>)"
          apply (cases c; simp add: read_field_def parse_key_def id_ok_def candidate_parse_display)
         apply (cases c; simp add: read_field_def parse_key_def id_ok_def candidate_parse_display)
        apply (cases c; simp add: read_field_def parse_key_def id_ok_def candidate_parse_display)
       apply (cases k; simp add: read_field_def parse_key_def)
      apply (cases "ps = []"; simp add: read_field_def parse_key_def exclude_value)
     apply (cases l; simp add: read_field_def parse_key_def value_ok_def framed_def)
    apply (cases e; simp add: read_field_def parse_key_def del: effort_str.simps)
   apply (cases l; simp add: read_field_def parse_key_def value_ok_def framed_def)
  apply (cases p; simp add: read_field_def parse_key_def enum_values)
  done

lemma option_values:
  "is_none_or c id_ok \<Longrightarrow> is_none_or (map_option candidate_display c) value_ok"
  "is_none_or (map_option strategy_str k) value_ok" "is_none_or (map_option effort_str e) value_ok"
  "is_none_or (map_option phase_word p) value_ok"
  "list_all (\<lambda>p. value_ok p \<and> CHR ''|'' \<notin> set p) ps \<Longrightarrow> is_none_or (exclude_text ps) value_ok"
  using exclude_value [of ps] by (cases c; cases k; cases e; cases p; auto simp: id_ok_def enum_values)+

lemma value_framed: "is_none_or v value_ok \<Longrightarrow> is_none_or v framed"
  by (cases v) (auto simp: value_ok_def)

lemma parse_rendered:
  assumes "directives_ok d"
  shows "parse_pairs (map pair_text (directive_pairs d)) directives_default = Inr d"
proof -
  have ok: "is_none_or (pd_candidate d) id_ok" "is_none_or (pd_prefer d) id_ok" "is_none_or (pd_switch d) id_ok"
     "list_all (\<lambda>p. value_ok p \<and> CHR ''|'' \<notin> set p) (pd_exclude d)"
     "is_none_or (pd_label d) value_ok" "is_none_or (pd_version d) value_ok"
    using assms by (auto simp: directives_ok_def)
  note fields = option_values(2-4) ok(5,6) option_values(1) [OF ok(1)] option_values(1) [OF ok(2)]
    option_values(1) [OF ok(3)] option_values(5) [OF ok(4)]
  note framed = fields [THEN value_framed]
  show ?thesis
    unfolding directive_pairs_def map_append parse_pairs_append
    by (simp only: parse_field framed insertI1 insertI2 read_fields ok rbind_simps)
      (simp add: directives_default_def opt_or_None)
qed

definition pair_ok :: "string \<times> string \<Rightarrow> bool" where
  "pair_ok = (\<lambda>(k, v). value_ok v \<and> CHR '','' \<notin> set k \<and> nested 0 k)"

lemma opt_pair_ok:
  assumes "is_none_or v value_ok"
    and "k \<in> {''candidate'', ''prefer'', ''switch'', ''strategy'', ''exclude'', ''label'', ''effort'', ''version'', ''phase''}"
  shows "list_all pair_ok (opt_pair k v)"
  using assms(1) keys_framed [OF assms(2)] nested_plain [of k] by (cases v) (auto simp: opt_pair_def pair_ok_def)

lemma pairs_ok:
  assumes "directives_ok d"
  shows "list_all pair_ok (directive_pairs d)"
proof -
  have ok: "is_none_or (pd_candidate d) id_ok" "is_none_or (pd_prefer d) id_ok" "is_none_or (pd_switch d) id_ok"
     "list_all (\<lambda>p. value_ok p \<and> CHR ''|'' \<notin> set p) (pd_exclude d)"
     "is_none_or (pd_label d) value_ok" "is_none_or (pd_version d) value_ok"
    using assms by (auto simp: directives_ok_def)
  show ?thesis
    unfolding directive_pairs_def list_all_append
    by (simp only: opt_pair_ok option_values ok insertI1 insertI2 simp_thms)
qed

definition directive_body :: "prompt_directives \<Rightarrow> string" where
  "directive_body d = join_sep (CHR '','') (map pair_text (directive_pairs d))"

lemma pair_text_ok:
  assumes "directives_ok d" and "x \<in> set (map pair_text (directive_pairs d))"
  shows "CHR '','' \<notin> set x \<and> nested 0 x"
proof -
  obtain k v where "(k, v) \<in> set (directive_pairs d)" "x = CHR '' '' # k @ CHR ''='' # v"
    using assms(2) by (auto simp: pair_text_def)
  then show ?thesis using pairs_ok [OF assms(1)] by (auto simp: value_ok_def pair_ok_def list_all_iff intro!: nested_append)
qed

lemma body_brackets: "directives_ok d \<Longrightarrow> nested 0 (directive_body d)"
  unfolding directive_body_def using pair_text_ok [of d] by (intro join_nested) auto

lemma parse_body:
  assumes "directives_ok d"
  shows "parse_pairs (split_on (\<lambda>c. c = CHR '','') (directive_body d)) directives_default = Inr d"
proof (cases "directive_pairs d = []")
  case True
  then have "directives_default = d" using parse_rendered [OF assms] by simp
  then show ?thesis using True by (simp add: directive_body_def split_on_def parse_pair_def trim_def trim_end_def)
next
  case False
  then have "split_on (\<lambda>c. c = CHR '','') (directive_body d) = map pair_text (directive_pairs d)"
    unfolding directive_body_def using pair_text_ok [OF assms] by (intro split_join) auto
  then show ?thesis using parse_rendered [OF assms] by simp
qed

lemma scan_finds_open: "scan_text scan_start 0 [] (OPEN @ s) = Found 0"
proof -
  have "opens_directive (OPEN @ s)" by (simp add: opens_directive_def OPEN_def eq_ignore_ascii_case_def)
  then have "scan_step scan_start [] (OPEN @ s) = None"
    by (simp add: scan_step_def scan_start_def Let_def NL_def FRAMES_def OPEN_def)
  then show ?thesis by (subst scan_text.simps) (simp add: OPEN_def)
qed

lemma parse_one_rendered:
  assumes "directives_ok d" and "framed task"
  shows "parse_one_prompt_directive [TextBlock (render_directive d @ NL # task)] = Inr (Some (d, [TextBlock task]))"
proof -
  let ?t = "render_directive d @ NL # task"
  have t: "?t = OPEN @ directive_body d @ CHR '']'' # NL # task" by (simp add: render_directive_def directive_body_def)
  have o: "length OPEN = 8" by (simp add: OPEN_def)
  have nl: "ws1 (byte NL)" by (simp add: NL_def)
  have b: "bracket_end 0 0 ?t = Some (8 + length (directive_body d))"
    using bracket_end_nested [OF body_brackets [OF assms(1)], of 0 8 "CHR '']'' # NL # task"]
    unfolding t by (simp add: OPEN_def numeral_eq_Suc)
  have "trim (drop (Suc (8 + length (directive_body d))) ?t) = task"
    unfolding t using trim_framed [OF assms(2)] o nl by (simp add: trim_ws del: ws1.simps)
  moreover have "task \<noteq> []" using assms(2) by (simp add: framed_def)
  moreover have "take (8 + length (directive_body d) - 8) (drop 8 ?t) = directive_body d" unfolding t by (simp add: OPEN_def)
  moreover have "find_prompt_directive [TextBlock ?t] = Some (0, ?t, 0)"
    using scan_finds_open [of "directive_body d @ CHR '']'' # NL # task"]
    unfolding t [symmetric] by (simp add: find_prompt_directive_def)
  ultimately show ?thesis
    using b parse_body [OF assms(1)]
    by (simp add: parse_one_prompt_directive_def strip_block_def o)
qed

text \<open>
  C23. A directive written out as a tag on a line before the task is read back as written,
  every field and its order included, and the task reaches the model unchanged. The values begin
  and end with a graphic ASCII character, hold no comma, and the brackets in them are balanced, as
  in the model \<open>opus[1m]\<close>; an exclusion holds no bar, a candidate is one the parser of candidates
  reads; and the task begins and ends with a graphic ASCII character and
  holds no active directive itself.
\<close>

theorem directive_round_trip:
  assumes "directives_ok d" and "framed task" and "find_prompt_directive [TextBlock task] = None"
  shows "parse_prompt_directives [TextBlock (render_directive d @ NL # task)] = Inr (Some (d, [TextBlock task]))"
proof -
  have m: "merge_directives directives_default d = d" by (simp add: merge_directives_def directives_default_def opt_or_None)
  have "directives_loop (Some d) [TextBlock task] = Inr (Some (d, [TextBlock task]))"
    using parse_one_None [of "[TextBlock task]"] assms(3) by (subst directives_loop.simps) simp
  then show ?thesis
    unfolding parse_prompt_directives_def
    by (subst directives_loop.simps) (simp add: parse_one_rendered [OF assms(1,2)] m)
qed

theorem directive_round_trip_witness:
  "parse_prompt_directives [TextBlock (render_directive
     (directives_default\<lparr>pd_candidate := Some \<lparr>cid_agent = ''claude'', cid_model = ''opus[1m]''\<rparr>, pd_effort := Some EffortHigh\<rparr>) @ NL # ''go'')] =
   Inr (Some (directives_default\<lparr>pd_candidate := Some \<lparr>cid_agent = ''claude'', cid_model = ''opus[1m]''\<rparr>, pd_effort := Some EffortHigh\<rparr>, [TextBlock ''go'']))"
proof (rule directive_round_trip)
  show "directives_ok (directives_default\<lparr>pd_candidate := Some \<lparr>cid_agent = ''claude'', cid_model = ''opus[1m]''\<rparr>, pd_effort := Some EffortHigh\<rparr>)"
    by code_simp
  show "framed ''go''" by code_simp
  show "find_prompt_directive [TextBlock ''go''] = None" by code_simp
qed

end
