(* ===== verification/Planner_Phase.thy ===== *)
theory Planner_Phase
  imports Planner_Input Prompt_Directives
begin

text \<open>
  Prompts that reach a planner run (\<open>planner_workflow.rs\<close>): the phase a person's
  \<open>[router: phase=...]\<close> directive or an attested approval asks for, the accepted-plan handoff
  that makes a session the durable parent, observing an input at its own turn
  (\<open>observe_input\<close>), queueing one that arrives during another turn
  (\<open>enqueue_parent_input\<close>), and the human request a run reports as its authority.
\<close>

section \<open>Explicit phases\<close>

definition directed_phase :: "prompt_request \<Rightarrow> planner_phase option" where
  "directed_phase req =
     (let human = human_prompt req in
      if \<not> human \<and> \<not> delegated_approval req then None
      else opt_filter (\<lambda>phase. human \<or> phase = Implementation)
        (case parse_prompt_directives (req_prompt req) of
           Inr (Some (d, _)) \<Rightarrow> pd_phase d
         | _ \<Rightarrow> None))"

definition PLANNER_HANDOFF_TAG :: string where "PLANNER_HANDOFF_TAG = ''[planner-handoff]''"

definition has_handoff_tag :: "string \<Rightarrow> bool" where
  "has_handoff_tag typed \<longleftrightarrow>
     (let s = trim_start typed in length PLANNER_HANDOFF_TAG \<le> length s \<and>
       eq_ignore_ascii_case (take (length PLANNER_HANDOFF_TAG) s) PLANNER_HANDOFF_TAG)"

text \<open>The first block that decides: text that is not blank, or anything that is not text.\<close>

fun handoff_block :: "content_block list \<Rightarrow> bool" where
  "handoff_block [] = False"
| "handoff_block (b # bs) =
     (case text_of b of
        None \<Rightarrow> False
      | Some t \<Rightarrow>
          (let typed = without_turn_context t in if blank typed then handoff_block bs else has_handoff_tag typed))"

definition parent_handoff :: "prompt_request \<Rightarrow> bool" where
  "parent_handoff req =
     (if \<not> human_prompt req \<or> directed_phase req \<noteq> Some Implementation then False
      else case parse_prompt_directives (req_prompt req) of
        Inr (Some (_, stripped)) \<Rightarrow> handoff_block stripped
      | _ \<Rightarrow> False)"

text \<open>\<open>PromptRequest::new\<close> with one text block.\<close>

definition replayed_request :: "string \<Rightarrow> string \<Rightarrow> prompt_request" where
  "replayed_request i t = \<lparr>req_session_id = i, req_prompt = [TextBlock t], req_meta = None\<rparr>"

definition parent_role :: "planner_run \<Rightarrow> bool" where
  "parent_role run \<longleftrightarrow>
     run_coordinator run \<or>
     (run_phase run = Implementation \<and>
      is_some_and (run_execution_input_id run) (\<lambda>i.
        i \<in> run_commands run \<or>
        is_some_and (bt_get (run_inputs run) i) (\<lambda>inp.
          inp_origin inp = ''human'' \<and> parent_handoff (replayed_request i (inp_text inp)))))"

datatype execution_authority =
    CommandAuthority string string
  | HandoffAuthority string string

definition execution_context :: "planner_env \<Rightarrow> planner_run \<Rightarrow> execution_authority option" where
  "execution_context env run =
     Option.bind (run_execution_input_id run) (\<lambda>i.
       Option.bind (bt_get (run_inputs run) i) (\<lambda>inp.
         if inp_origin inp \<noteq> ''human'' \<or> withdrawal env run i \<noteq> None then None
         else let request = replayed_request i (inp_text inp) in
           case opt_filter (\<lambda>c. lc_phase c = Implementation \<and> i \<in> run_commands run) (leading_command request) of
             Some c \<Rightarrow> Some (CommandAuthority i (lc_args c))
           | None \<Rightarrow> if parent_handoff request then Some (HandoffAuthority i (inp_text inp)) else None))"

section \<open>Observing an input\<close>

datatype phase_error =
    DirectiveErr directive_error
  | ErrNewScope
  | PlannerErr planner_error

definition lift_err :: "(planner_error, 'a) result \<Rightarrow> (phase_error, 'a) result" where
  "lift_err r = (case r of Inl e \<Rightarrow> Inl (PlannerErr e) | Inr a \<Rightarrow> Inr a)"

definition stale_drain :: "bool \<Rightarrow> run_status \<Rightarrow> bool" where
  "stale_drain draining status \<longleftrightarrow> status = RunDraining \<and> \<not> draining"

definition stopped_status :: "run_status \<Rightarrow> bool" where
  "stopped_status s \<longleftrightarrow> s \<in> {RunComplete, RunPaused, RunCancelled, RunDraining}"

text \<open>A person's prompt reopens a finished or paused run and lifts the hold that waits for them.\<close>

definition reopen_run :: "bool \<Rightarrow> bool \<Rightarrow> planner_run \<Rightarrow> planner_run" where
  "reopen_run draining human run =
     (let run1 = (if human then clear_human_hold run else run) in
      if human \<and> (run_status run1 = RunComplete \<or> run_status run1 = RunPaused \<or> stale_drain draining (run_status run1))
      then run1\<lparr>run_approval_waits := {}, run_status := RunRunning\<rparr> else run1)"

definition observed_id ::
  "string \<Rightarrow> prompt_request \<Rightarrow> planner_run \<Rightarrow> (planner_error, string option \<times> planner_run) result" where
  "observed_id uuid req run =
     (if Option.bind (router_meta req) (\<lambda>m. json_get m ''planner_input_id'') = None
      then rbind (record_input uuid req run) (\<lambda>(i, r). Inr (Some i, r))
      else Inr (prompt_input_id req, run))"

definition apply_directed ::
  "bool \<Rightarrow> prompt_request \<Rightarrow> planner_phase option \<Rightarrow> string option \<Rightarrow> planner_run \<Rightarrow> planner_run" where
  "apply_directed draining req directed i run =
     (case directed of
        None \<Rightarrow> run
      | Some phase \<Rightarrow>
          if run_status run = RunDraining \<and> draining then run
          else if phase = Implementation
          then run\<lparr>run_phase := phase,
                 run_approval_waits := (if stopped_status (run_status run) then {} else run_approval_waits run),
                 run_status := RunRunning, run_execution_request := Some (display_text req),
                 run_execution_input_id := i, run_coordinator := (run_coordinator run \<or> parent_handoff req)\<rparr>
          else run\<lparr>run_phase := phase\<rparr>)"

definition ack_observed_wake :: "prompt_request \<Rightarrow> planner_run \<Rightarrow> (planner_error, planner_run) result" where
  "ack_observed_wake req run =
     (case Option.bind (router_meta req) (\<lambda>m. meta_str m ''planner_wake_ack'') of
        None \<Rightarrow> Inr run
      | Some wake \<Rightarrow> if bt_has (run_wakes run) wake then Inr (ack_wake wake run) else Inl (RunErr ErrUnknownWake))"

text \<open>\<open>observe_input\<close>'s mutation; \<open>draining\<close> says whether this router is draining the session.\<close>

definition observe_input :: "bool \<Rightarrow> string \<Rightarrow> prompt_request \<Rightarrow> planner_run \<Rightarrow> (phase_error, planner_run) result" where
  "observe_input draining uuid req run =
     (let directed = directed_phase req; human = human_prompt req in
      if run_status run = RunComplete \<and> \<not> (human \<or> directed = Some Implementation) then Inl ErrNewScope
      else lift_err (rbind (observed_id uuid req (reopen_run draining human run)) (\<lambda>(i, run1).
        ack_observed_wake req (apply_directed draining req directed i run1))))"

text \<open>The phase it leaves on the session, which routes from that phase's pool only.\<close>

definition observed_explicit_phase :: "prompt_request \<Rightarrow> planner_phase option \<Rightarrow> planner_phase option" where
  "observed_explicit_phase req explicit = opt_or (directed_phase req) explicit"

section \<open>Queueing an input\<close>

definition enqueue_parent_input :: "string \<Rightarrow> string \<Rightarrow> prompt_request \<Rightarrow> planner_run \<Rightarrow> (phase_error, planner_run) result" where
  "enqueue_parent_input uuid sid req run =
     (case parse_prompt_directives (req_prompt req) of
        Inl e \<Rightarrow> Inl (DirectiveErr e)
      | Inr parsed \<Rightarrow>
          (let phase = command (case parsed of None \<Rightarrow> req | Some (_, stripped) \<Rightarrow> req\<lparr>req_prompt := stripped\<rparr>) in
           if run_status run = RunComplete \<and> phase = None \<and> directed_phase req \<noteq> Some Implementation \<and> \<not> human_prompt req
           then Inl ErrNewScope
           else let run1 = (if run_status run = RunComplete then run\<lparr>run_status := RunRunning\<rparr> else run) in
             lift_err (rbind (queue_parent_request uuid sid req run1) (\<lambda>(_, run2).
               Inr (if phase = Some Planning then run2\<lparr>run_phase := Planning\<rparr> else run2)))))"

section \<open>Agents have no authority over the run\<close>

lemma lift_err_Inr [simp]: "lift_err r = Inr a \<longleftrightarrow> r = Inr a"
  by (cases r) (auto simp: lift_err_def)

lemma directed_phase_authority:
  assumes "directed_phase req = Some p"
  shows "human_prompt req \<or> delegated_approval req \<and> p = Implementation"
  using assms by (auto simp: directed_phase_def Let_def opt_filter_Some_iff split: if_splits)

text \<open>The fields that say what a run may do and for whom.\<close>

definition authority :: "planner_run \<Rightarrow> planner_phase \<times> run_status \<times> bool \<times> string option \<times> string option" where
  "authority run = (run_phase run, run_status run, run_coordinator run, run_execution_request run, run_execution_input_id run)"

definition assets :: "planner_run \<Rightarrow> string set \<times> (string, work) btree \<times> (string, release) btree \<times> capacity_state \<times> string set" where
  "assets run = (run_commands run, run_works run, run_releases run, run_capacity run, run_approval_waits run)"

lemma agent_record_frame:
  assumes "record_input uuid req run = Inr (i, r)" and "\<not> human_prompt req"
  shows "authority r = authority run \<and> assets r = assets run"
  using assms by (auto simp: record_input_def authority_def assets_def Let_def split: option.splits if_splits)

lemma entry_wake_authority [simp]: "authority (entry_wake i w run) = authority run" "assets (entry_wake i w run) = assets run"
  by (auto simp: entry_wake_def put_wake_def authority_def assets_def)

lemma agent_observed_frame:
  assumes "observed_id uuid req run = Inr (i, r)" and "\<not> human_prompt req"
  shows "authority r = authority run \<and> assets r = assets run"
  using assms agent_record_frame unfolding observed_id_def by (auto split: if_splits)

lemma ack_observed_frame:
  assumes "ack_observed_wake req run = Inr r"
  shows "authority r = authority run \<and> assets r = assets run"
  using assms by (auto simp: ack_observed_wake_def ack_wake_def authority_def assets_def split: option.splits if_splits)

lemma agent_queue_frame:
  assumes "queue_parent_request uuid sid req run = Inr (i, r)" and "\<not> human_prompt req"
  shows "authority r = authority run \<and> assets r = assets run"
proof -
  obtain run1 where r1: "record_input uuid req run = Inr (i, run1)"
    and r: "r = run1 \<or> (\<exists>w q. r = entry_wake (''input:'' @ i) w (run1\<lparr>run_parent_queue := q\<rparr>)) \<or>
      (\<exists>w. r = entry_wake (''input:'' @ i) w run1)"
    using assms(1) by (auto simp: queue_parent_request_def Let_def split: if_splits)
  have "authority (run1\<lparr>run_parent_queue := q\<rparr>) = authority run1" "assets (run1\<lparr>run_parent_queue := q\<rparr>) = assets run1" for q
    by (simp_all add: authority_def assets_def)
  then show ?thesis using agent_record_frame [OF r1 assms(2)] r by auto
qed

lemma agent_command_None: "\<not> human_prompt req \<Longrightarrow> command req = None"
  by (simp add: command_def leading_command_def)

lemma human_prompt_stripped [simp]: "human_prompt (req\<lparr>req_prompt := p\<rparr>) = human_prompt req"
  by (simp add: human_prompt_def router_meta_def)

text \<open>
  C19. A message from an agent that carries no attested approval has no authority over a run,
  whether it is observed at its turn or queued for one: it reopens no finished run and
  leaves the phase, status, parent role, execution request, admitted commands, works,
  releases, holds and approval waits as they are, whatever directive or command it contains.
\<close>

theorem agent_input_no_authority:
  assumes "\<not> human_prompt req" and "\<not> delegated_approval req"
    and "observe_input draining uuid req run = Inr r \<or> enqueue_parent_input uuid sid req run = Inr r"
  shows "run_status run \<noteq> RunComplete \<and> authority r = authority run \<and> assets r = assets run"
proof -
  have d: "directed_phase req = None" using assms(1,2) by (simp add: directed_phase_def)
  show ?thesis
  proof (cases "observe_input draining uuid req run = Inr r")
    case True
    then obtain i run1 where "observed_id uuid req run = Inr (i, run1)" "ack_observed_wake req run1 = Inr r"
        "run_status run \<noteq> RunComplete"
      using d assms(1) by (auto simp: observe_input_def reopen_run_def apply_directed_def Let_def)
    then show ?thesis using agent_observed_frame [OF _ assms(1)] ack_observed_frame by auto
  next
    case False
    then have "enqueue_parent_input uuid sid req run = Inr r" using assms(3) by blast
    then obtain i where "queue_parent_request uuid sid req run = Inr (i, r)" "run_status run \<noteq> RunComplete"
      using d assms(1) agent_command_None
      by (auto simp: enqueue_parent_input_def Let_def split: sum.splits option.splits if_splits)
    then show ?thesis using agent_queue_frame [OF _ assms(1)] by auto
  qed
qed

definition agent_request :: prompt_request where
  "agent_request = \<lparr>req_session_id = ''s'', req_prompt = [TextBlock ''/implement [router: phase=implementation] now''],
     req_meta = Some (JObject [(''router_acp'', JObject [(''agent_origin'', JBool True), (''input_id'', JString ''i'')])])\<rparr>"

theorem agent_input_no_authority_witness:
  "\<exists>r. observe_input False ''u'' agent_request (sample_run []) = Inr r \<and> authority r = authority (sample_run [])"
proof -
  have "\<not> human_prompt agent_request" "\<not> delegated_approval agent_request" by code_simp+
  moreover have "is_ok (observe_input False ''u'' agent_request (sample_run []))" by code_simp
  then have "\<exists>r. observe_input False ''u'' agent_request (sample_run []) = Inr r"
    by (cases "observe_input False ''u'' agent_request (sample_run [])") auto
  ultimately show ?thesis using agent_input_no_authority [of agent_request False "''u''" "sample_run []"] by blast
qed

text \<open>What a directed implementation does.\<close>

lemma record_input_status: "record_input uuid req run = Inr (i, r) \<Longrightarrow> run_status r = run_status run"
  by (auto simp: record_input_def Let_def split: option.splits if_splits)

lemma record_input_coordinator: "record_input uuid req run = Inr (i, r) \<Longrightarrow> run_coordinator r = run_coordinator run"
  by (auto simp: record_input_def Let_def clear_human_hold_def upd_capacity_def split: option.splits if_splits)

lemma directed_implementation_runs:
  assumes "directed_phase req = Some Implementation"
    and "observe_input draining uuid req run = Inr r"
    and "\<not> (run_status run = RunDraining \<and> draining)"
  shows "run_phase r = Implementation \<and> run_status r = RunRunning \<and>
    run_execution_request r = Some (display_text req) \<and> (human_prompt req \<or> delegated_approval req) \<and>
    (run_coordinator r \<longleftrightarrow> run_coordinator run \<or> parent_handoff req)"
proof -
  obtain i run1 where o: "observed_id uuid req (reopen_run draining (human_prompt req) run) = Inr (i, run1)"
    and a: "ack_observed_wake req (apply_directed draining req (Some Implementation) i run1) = Inr r"
    using assms(1,2) by (auto simp: observe_input_def Let_def)
  have "run_status run1 = run_status (reopen_run draining (human_prompt req) run)"
      "run_coordinator run1 = run_coordinator (reopen_run draining (human_prompt req) run)"
    using o record_input_status record_input_coordinator by (auto simp: observed_id_def split: if_splits)
  then have st: "\<not> (run_status run1 = RunDraining \<and> draining)" and co: "run_coordinator run1 = run_coordinator run"
    using assms(3) by (auto simp: reopen_run_def Let_def stale_drain_def clear_human_hold_def upd_capacity_def split: if_splits)
  then show ?thesis
    using ack_observed_frame [OF a] directed_phase_authority [OF assms(1)]
    by (auto simp: apply_directed_def authority_def)
qed

end
