(* ===== verification/Planner_Adopt.thy ===== *)
theory Planner_Adopt
  imports Planner_Phase Planner_Store
begin

text \<open>
  Adopting a planner run whose router died (\<open>planner_adopt.rs\<close>): the ownership lease, when a
  run still has a live owner, moving a run's content into another session's run, the
  revision-checked phases of an adoption, and the retry of a pending handoff. The process
  table, session activity and the message texts come from the context record; the store
  and the writers that interfere between a load and a save are those of the planner store.
\<close>

section \<open>Context\<close>

datatype live_reason =
    LoadedHere
  | LegacyOwner nat
  | FreshLease nat int
  | ActiveSession nat int int
  | LiveAttemptOwner string nat
  | ClaimedWake string nat
  | LegacyQuiet int

datatype adopt_error =
    AdoptSelf
  | AdoptMissing string
  | AdoptInactive run_status
  | AdoptUnfinished
  | AdoptLive live_reason
  | AdoptReleaseConflict string
  | AdoptReleaseEvidence string
  | AdoptSupersededDestination
  | AdoptContended
  | AdoptStore planner_error

record adopt_report =
  rep_from :: string
  rep_into :: string
  rep_works :: "(string \<times> work_status) list"
  rep_conflicting_works :: "string list"
  rep_holds :: "string list"
  rep_releases :: "string list"
  rep_wakes :: "string list"
  rep_operator_inputs :: "string list"

definition report_start :: "string \<Rightarrow> string \<Rightarrow> adopt_report" where
  "report_start f i = \<lparr>rep_from = f, rep_into = i, rep_works = [], rep_conflicting_works = [], rep_holds = [],
     rep_releases = [], rep_wakes = [], rep_operator_inputs = []\<rparr>"

text \<open>What a handoff tells the destination's parent.\<close>

datatype handoff_notice =
    NoticeAwaiting string
  | NoticeWaitingError string adopt_error
  | NoticeWaitingOwner string live_reason
  | NoticeAbandonedMissing string
  | NoticeAbandoned string "string option" run_status
  | NoticeCompleted
  | NoticeAdopted adopt_report

record adopt_context =
  ad_env :: planner_env
  ad_hooked :: bool
  ad_save_id :: "nat \<Rightarrow> string"
  ad_loaded_here :: "string \<Rightarrow> bool"
  ad_last_activity :: "string \<Rightarrow> int option"
  ad_updated_at :: "string \<Rightarrow> nat option"
  ad_run_ids_beside :: "string \<Rightarrow> string list option"
  ad_notice :: "handoff_notice \<Rightarrow> string"
  ad_before :: "nat \<Rightarrow> store \<Rightarrow> store"
  ad_between :: "nat \<Rightarrow> store \<Rightarrow> store"

section \<open>Revision-checked rounds\<close>

text \<open>
  Every phase is a loop of sixteen rounds: read, decide, and save unless somebody else saved
  first. A round returns at once or writes one document. Other processes act before a round
  reads (\<open>ad_before\<close>) and between its read and its save (\<open>ad_between\<close>); where a round reads two
  documents it reads them from one state of the store.
\<close>

datatype 'a round = Return 'a | Write planner_run 'a

fun cas_loop ::
  "nat \<Rightarrow> adopt_context \<Rightarrow> string \<Rightarrow> (store \<Rightarrow> (adopt_error, 'a round) result) \<Rightarrow> store \<Rightarrow>
   (adopt_error, 'a) result \<times> store" where
  "cas_loop 0 ctx sid body st = (Inl AdoptContended, st)"
| "cas_loop (Suc n) ctx sid body st =
     (let st0 = ad_before ctx n st in
      case body st0 of
        Inl e \<Rightarrow> (Inl e, st0)
      | Inr (Return a) \<Rightarrow> (Inr a, st0)
      | Inr (Write run a) \<Rightarrow>
          (case save (env_identity (ad_env ctx)) (ad_hooked ctx) (ad_save_id ctx n) sid run (ad_between ctx n st0) of
             (Inr _, st1) \<Rightarrow> (Inr a, st1)
           | (Inl e, st1) \<Rightarrow>
               if e = RunErr ErrConcurrent then cas_loop n ctx sid body st1 else (Inl (AdoptStore e), st1)))"

definition RETRIES :: nat where "RETRIES = 16"

section \<open>The ownership lease\<close>

definition LEGACY_QUIET_SECS :: int where "LEGACY_QUIET_SECS = 600"
definition OWNER_HEARTBEAT_SECS :: int where "OWNER_HEARTBEAT_SECS = 30"
definition OWNER_STALE_SECS :: int where "OWNER_STALE_SECS = 180"

definition own_lease :: "adopt_context \<Rightarrow> run_owner" where
  "own_lease ctx = \<lparr>own_pid = fst (env_identity (ad_env ctx)), own_started_at_ms = snd (env_identity (ad_env ctx))\<rparr>"

definition heartbeat :: "adopt_context \<Rightarrow> string \<Rightarrow> planner_run \<Rightarrow> int \<Rightarrow> store \<Rightarrow> (adopt_error, unit) result \<times> store" where
  "heartbeat ctx sid run now st =
     (let me = own_lease ctx in
      if run_status run = RunSuperseded \<or>
         (run_owner run = Some me \<and> run_owner_heartbeat_at run \<noteq> 0 \<and>
          now - run_owner_heartbeat_at run < OWNER_HEARTBEAT_SECS)
      then (Inr (), st)
      else cas_loop RETRIES ctx sid (\<lambda>s. Inr (case load sid s of
          None \<Rightarrow> Return ()
        | Some r \<Rightarrow>
            if run_status r = RunSuperseded then Return ()
            else Write (r\<lparr>run_owner := Some me, run_owner_heartbeat_at := now\<rparr>) ())) st)"

definition release_lease :: "adopt_context \<Rightarrow> string \<Rightarrow> store \<Rightarrow> (adopt_error, unit) result \<times> store" where
  "release_lease ctx sid st =
     cas_loop RETRIES ctx sid (\<lambda>s. Inr (case load sid s of
         None \<Rightarrow> Return ()
       | Some r \<Rightarrow>
           if run_owner r \<noteq> Some (own_lease ctx) then Return ()
           else Write (r\<lparr>run_owner := None, run_owner_heartbeat_at := 0\<rparr>) ())) st"

definition lease_reason :: "adopt_context \<Rightarrow> string \<Rightarrow> planner_run \<Rightarrow> int \<Rightarrow> live_reason option" where
  "lease_reason ctx sid run now =
     Option.bind (opt_filter (run_owner_alive (ad_env ctx)) (run_owner run)) (\<lambda>owner.
       if run_owner_heartbeat_at run = 0 then Some (LegacyOwner (own_pid owner))
       else if now - run_owner_heartbeat_at run < OWNER_STALE_SECS
       then Some (FreshLease (own_pid owner) (now - run_owner_heartbeat_at run))
       else Option.bind (ad_last_activity ctx sid) (\<lambda>last.
         if now - last < OWNER_STALE_SECS
         then Some (ActiveSession (own_pid owner) (now - run_owner_heartbeat_at run) (now - last)) else None))"

definition live_attempt :: "adopt_context \<Rightarrow> work \<Rightarrow> bool" where
  "live_attempt ctx w \<longleftrightarrow> is_some_and (work_attempt w) (\<lambda>a. \<not> att_ended a \<and> owner_alive (ad_env ctx) a)"

definition live_claim :: "adopt_context \<Rightarrow> string \<Rightarrow> wake \<Rightarrow> bool" where
  "live_claim ctx i w \<longleftrightarrow> wake_claim_pid w \<noteq> 0 \<and>
     owner_alive (ad_env ctx) \<lparr>att_id = i, att_router_pid = wake_claim_pid w,
       att_router_started_at_ms = wake_claim_started_at_ms w, att_delegate_id = None, att_ended = False\<rparr>"

definition live_owner :: "adopt_context \<Rightarrow> string \<Rightarrow> planner_run \<Rightarrow> int \<Rightarrow> live_reason option" where
  "live_owner ctx sid run now =
     (if ad_loaded_here ctx sid then Some LoadedHere
      else case lease_reason ctx sid run now of
        Some r \<Rightarrow> Some r
      | None \<Rightarrow>
          (case List.find (\<lambda>(_, w). live_attempt ctx w) (run_works run) of
             Some (i, w) \<Rightarrow> Some (LiveAttemptOwner i (case work_attempt w of Some a \<Rightarrow> att_router_pid a | None \<Rightarrow> 0))
           | None \<Rightarrow>
               (case List.find (\<lambda>(i, w). live_claim ctx i w) (run_wakes run) of
                  Some (i, w) \<Rightarrow> Some (ClaimedWake i (wake_claim_pid w))
                | None \<Rightarrow>
                    if run_owner run = None
                    then Option.bind (ad_last_activity ctx sid) (\<lambda>last.
                      if now - last < LEGACY_QUIET_SECS then Some (LegacyQuiet last) else None)
                    else None)))"

definition adoptable_status :: "run_status \<Rightarrow> bool" where
  "adoptable_status s \<longleftrightarrow> s \<in> {RunRunning, RunDraining, RunPaused}"

definition adoptable :: "adopt_context \<Rightarrow> string \<Rightarrow> planner_run \<Rightarrow> int \<Rightarrow> (adopt_error, unit) result" where
  "adoptable ctx sid run now =
     (if \<not> adoptable_status (run_status run) then Inl (AdoptInactive (run_status run))
      else if run_status run = RunPaused \<and>
        list_ex (\<lambda>w. is_some_and (work_attempt w) (\<lambda>a. \<not> att_ended a)) (bt_values (run_works run))
      then Inl AdoptUnfinished
      else case live_owner ctx sid run now of Some r \<Rightarrow> Inl (AdoptLive r) | None \<Rightarrow> Inr ())"

section \<open>Moving the content\<close>

definition merge_policy :: "resolved_planner \<Rightarrow> planner_run \<Rightarrow> planner_run" where
  "merge_policy p into =
     (if pol_identity p \<noteq> pol_identity (run_policy into) \<and>
         \<not> list_ex (\<lambda>q. pol_identity q = pol_identity p) (run_prior_policies into)
      then into\<lparr>run_prior_policies := run_prior_policies into @ [p]\<rparr> else into)"

definition merge_header :: "planner_run \<Rightarrow> planner_run \<Rightarrow> planner_run" where
  "merge_header from into0 =
     (let into = fold merge_policy (run_prior_policies from @ [run_policy from]) into0 in
      into\<lparr>run_coordinator := run_coordinator into \<or> parent_role from,
        run_completed_guides_at_start := opt_or (run_completed_guides_at_start into) (run_completed_guides_at_start from)\<rparr>)"

definition same_assignment :: "work \<Rightarrow> work \<Rightarrow> bool" where
  "same_assignment existing w \<longleftrightarrow>
     work_child_id existing = work_child_id w \<and>
     (work_spec existing = work_spec w \<or> work_spec w \<in> set (rc_prior_specs (work_reconciliation existing)))"

definition merge_work :: "planner_run \<Rightarrow> string \<times> work \<Rightarrow> planner_run \<times> adopt_report \<Rightarrow> planner_run \<times> adopt_report" where
  "merge_work from = (\<lambda>(i, w) (into, report).
     case bt_get (run_works into) i of
       Some existing \<Rightarrow>
         if same_assignment existing w then (into, report\<lparr>rep_works := rep_works report @ [(i, work_status existing)]\<rparr>)
         else (into, report\<lparr>rep_conflicting_works := rep_conflicting_works report @ [i]\<rparr>)
     | None \<Rightarrow>
         (upd_capacity (\<lambda>c. case bt_get (cap_resumes (run_capacity from)) i of
             None \<Rightarrow> c | Some r \<Rightarrow> c\<lparr>cap_resumes := bt_insert i r (cap_resumes c)\<rparr>)
           (into\<lparr>run_works := bt_insert i (mark_reconciliation_required w) (run_works into)\<rparr>),
          report\<lparr>rep_works := rep_works report @ [(i, work_status w)]\<rparr>))"

definition merge_release ::
  "string \<times> release \<Rightarrow> planner_run \<times> adopt_report \<Rightarrow> (adopt_error, planner_run \<times> adopt_report) result" where
  "merge_release = (\<lambda>(i, rel) (into, report).
     if list_ex (\<lambda>w. w \<in> set (rep_conflicting_works report)) (bt_keys (rel_works rel)) then Inl (AdoptReleaseConflict i)
     else case bt_get (run_releases into) i of
       Some existing \<Rightarrow>
         if rel_candidate existing \<noteq> rel_candidate rel \<or> rel_works existing \<noteq> rel_works rel \<or>
            take (length (rel_checkpoints rel)) (rel_checkpoints existing) \<noteq> rel_checkpoints rel \<or>
            is_some_and (rel_superseded_by rel) (\<lambda>r. rel_superseded_by existing \<noteq> Some r)
         then Inl (AdoptReleaseEvidence i)
         else Inr (into, report\<lparr>rep_releases := rep_releases report @ [i]\<rparr>)
     | None \<Rightarrow>
         Inr (into\<lparr>run_releases := bt_insert i rel (run_releases into)\<rparr>, report\<lparr>rep_releases := rep_releases report @ [i]\<rparr>))"

fun merge_releases ::
  "(string \<times> release) list \<Rightarrow> planner_run \<times> adopt_report \<Rightarrow> (adopt_error, planner_run \<times> adopt_report) result" where
  "merge_releases [] s = Inr s"
| "merge_releases (r # rs) s = rbind (merge_release r s) (merge_releases rs)"

definition merge_hold :: "string \<times> hold \<Rightarrow> planner_run \<times> adopt_report \<Rightarrow> planner_run \<times> adopt_report" where
  "merge_hold = (\<lambda>(plan, h) (into, report).
     if bt_has (cap_holds (run_capacity into)) plan then (into, report)
     else (upd_capacity (\<lambda>c. c\<lparr>cap_holds := bt_insert plan h (cap_holds c)\<rparr>) into,
       report\<lparr>rep_holds := rep_holds report @ [plan]\<rparr>))"

definition merge_observation :: "string \<times> observation \<Rightarrow> planner_run \<Rightarrow> planner_run" where
  "merge_observation = (\<lambda>(i, obs) into.
     if bt_has (run_observations into) i then into else into\<lparr>run_observations := bt_insert i obs (run_observations into)\<rparr>)"

text \<open>Operator input the old parent received but never acknowledged.\<close>

definition historical :: "planner_run \<Rightarrow> string \<Rightarrow> string \<Rightarrow> input_receipt \<Rightarrow> bool" where
  "historical from from_sid i inp \<longleftrightarrow>
     \<not> resolved inp \<and> inp_origin inp = ''human'' \<and> i \<notin> run_commands from \<and>
     (\<not> list_ex (\<lambda>q. q_input_id q = i) (run_parent_queue from) \<or> from_sid \<in> inp_delivered_to inp)"

definition merge_input :: "planner_run \<Rightarrow> string \<Rightarrow> string \<times> input_receipt \<Rightarrow> planner_run \<Rightarrow> planner_run" where
  "merge_input from from_sid = (\<lambda>(i, inp) into.
     if bt_has (run_inputs into) i then into
     else let adopted = (if historical from from_sid i inp
                         then inp\<lparr>inp_replayed_from := opt_or (inp_replayed_from inp) (Some from_sid)\<rparr> else inp);
              key = ''input-withdrawal:'' @ i in
       (case bt_get (run_receipts from) key of
          None \<Rightarrow> into | Some r \<Rightarrow> into\<lparr>run_receipts := bt_insert key r (run_receipts into)\<rparr>)
         \<lparr>run_inputs := bt_insert i adopted (run_inputs into)\<rparr>)"

definition merge_historical ::
  "(string \<Rightarrow> string) \<Rightarrow> planner_run \<Rightarrow> string \<Rightarrow> string \<Rightarrow> string \<times> input_receipt \<Rightarrow>
   planner_run \<times> adopt_report \<Rightarrow> planner_run \<times> adopt_report" where
  "merge_historical prose from from_sid into_sid = (\<lambda>(i, inp) (into, report).
     let wid = ''input:'' @ i in
     if \<not> historical from from_sid i inp \<or>
        is_some_and (bt_get (run_wakes into) wid) (\<lambda>w. \<not> wake_acknowledged w)
     then (into, report)
     else (put_wake wid (wake_default\<lparr>wake_reason := prose from_sid, wake_work_id := into_sid\<rparr>) into,
       report\<lparr>rep_wakes := rep_wakes report @ [wid], rep_operator_inputs := rep_operator_inputs report @ [i]\<rparr>))"

text \<open>Queued operator input, in its order; the entries it puts in front of the new queue.\<close>

definition merge_queued ::
  "(string \<Rightarrow> string) \<Rightarrow> string \<Rightarrow> string \<Rightarrow> queued_parent_input \<Rightarrow>
   queued_parent_input list \<times> planner_run \<times> adopt_report \<Rightarrow> queued_parent_input list \<times> planner_run \<times> adopt_report" where
  "merge_queued prose from_sid into_sid q = (\<lambda>(front, into, report).
     if is_some_and (bt_get (run_inputs into) (q_input_id q)) (\<lambda>inp. resolved inp \<or> inp_replayed_from inp \<noteq> None) \<or>
        list_ex (\<lambda>p. q_input_id p = q_input_id q) (run_parent_queue into)
     then (front, into, report)
     else (front @ [q\<lparr>q_request := (q_request q)\<lparr>req_session_id := into_sid\<rparr>\<rparr>],
       entry_wake (''input:'' @ q_input_id q) (wake_default\<lparr>wake_reason := prose from_sid, wake_work_id := into_sid\<rparr>) into,
       report\<lparr>rep_operator_inputs := rep_operator_inputs report @ [q_input_id q]\<rparr>))"

definition merge_queue ::
  "(string \<Rightarrow> string) \<Rightarrow> planner_run \<Rightarrow> string \<Rightarrow> string \<Rightarrow> planner_run \<times> adopt_report \<Rightarrow> planner_run \<times> adopt_report" where
  "merge_queue prose from from_sid into_sid = (\<lambda>(into, report).
     case fold (merge_queued prose from_sid into_sid) (run_parent_queue from) ([], into, report) of
       (front, into1, report1) \<Rightarrow> (into1\<lparr>run_parent_queue := front @ run_parent_queue into1\<rparr>, report1))"

definition stale_wake :: "adopt_report \<Rightarrow> string \<Rightarrow> wake \<Rightarrow> bool" where
  "stale_wake report i w \<longleftrightarrow>
     wake_work_id w \<in> set (rep_conflicting_works report) \<or>
     is_some_and (split_once (CHR '':'') i) (\<lambda>(work, _). work \<in> set (rep_conflicting_works report))"

definition merge_wake ::
  "string \<Rightarrow> string \<Rightarrow> string \<times> wake \<Rightarrow> planner_run \<times> adopt_report \<Rightarrow> planner_run \<times> adopt_report" where
  "merge_wake from_sid into_sid = (\<lambda>(i, w) (into, report).
     if is_some_and (Option.bind (strip_prefix ''input:'' i) (bt_get (run_inputs into))) resolved \<or>
        wake_acknowledged w \<or> bt_has (run_wakes into) i \<or> stale_wake report i w
     then (into, report)
     else (put_wake i (wake_default\<lparr>wake_reason := wake_reason w,
             wake_work_id := (if wake_work_id w = from_sid then into_sid else wake_work_id w)\<rparr>) into,
       report\<lparr>rep_wakes := rep_wakes report @ [i]\<rparr>))"

text \<open>
  The wake texts name the source session: \<open>prose_historical\<close> for a replayed input,
  \<open>prose_queued\<close> for a queued one.
\<close>

definition prose_historical :: "string \<Rightarrow> string" where
  "prose_historical from_sid = ''HISTORICAL input adopted from '' @ from_sid @
     '': reconcile the earlier parent's missing acknowledgment in this turn. Do not answer or act on the old message again; it is not new operator input.''"

definition prose_queued :: "string \<Rightarrow> string" where
  "prose_queued from_sid = ''Original parent input awaits its own turn (adopted from '' @ from_sid @ '')''"

definition merge :: "planner_run \<Rightarrow> string \<Rightarrow> string \<Rightarrow> planner_run \<Rightarrow> (adopt_error, planner_run \<times> adopt_report) result" where
  "merge from from_sid into_sid into0 =
     rbind (merge_releases (run_releases from)
         (fold (merge_work from) (run_works from) (merge_header from into0, report_start from_sid into_sid)))
       (\<lambda>s1. let (into2, rep2) = fold merge_hold (cap_holds (run_capacity from)) s1;
             into3 = fold merge_observation (run_observations from) into2;
             into4 = fold (merge_input from from_sid) (run_inputs from) into3;
             s5 = fold (merge_historical prose_historical from from_sid into_sid) (run_inputs from) (into4, rep2);
             s6 = merge_queue prose_queued from from_sid into_sid s5;
             (into7, rep7) = fold (merge_wake from_sid into_sid) (run_wakes from) s6 in
         Inr (into7\<lparr>run_idle_heartbeats := 0\<rparr>, rep7))"

definition retire :: "adopt_report \<Rightarrow> planner_run \<Rightarrow> planner_run" where
  "retire report from =
     (let from1 = fold (\<lambda>(i, _) r. upd_capacity (\<lambda>c. c\<lparr>cap_resumes := bt_remove i (cap_resumes c)\<rparr>)
            (r\<lparr>run_works := bt_remove i (run_works r)\<rparr>)) (rep_works report) from;
          from2 = fold (\<lambda>i r. r\<lparr>run_releases := bt_remove i (run_releases r)\<rparr>) (rep_releases report) from1;
          from3 = fold (\<lambda>p. upd_capacity (\<lambda>c. c\<lparr>cap_holds := bt_remove p (cap_holds c)\<rparr>)) (rep_holds report) from2;
          from4 = fold ack_wake (rep_wakes report) from3;
          from5 = from4\<lparr>run_parent_queue := filter (\<lambda>q. q_input_id q \<notin> set (rep_operator_inputs report)) (run_parent_queue from4)\<rparr>;
          from6 = fold (\<lambda>i. ack_wake (''input:'' @ i)) (rep_operator_inputs report) from5 in
      from6\<lparr>run_status := RunSuperseded, run_superseded_by := Some (rep_into report)\<rparr>)"

section \<open>An adoption in three phases\<close>

definition require_run :: "string \<Rightarrow> store \<Rightarrow> (adopt_error, planner_run) result" where
  "require_run sid st = ok_or (load sid st) (AdoptMissing sid)"

definition claim_round ::
  "adopt_context \<Rightarrow> string \<Rightarrow> string \<Rightarrow> int \<Rightarrow> store \<Rightarrow> (adopt_error, planner_run round) result" where
  "claim_round ctx from_sid into_sid now st =
     rbind (require_run from_sid st) (\<lambda>from.
     rbind (require_run into_sid st) (\<lambda>into.
       if run_status into = RunSuperseded then Inl AdoptSupersededDestination
       else if run_status from = RunSuperseded \<and> run_superseded_by from = Some into_sid then Inr (Return from)
       else rbind (adoptable ctx from_sid from now) (\<lambda>_.
            rbind (merge from from_sid into_sid into) (\<lambda>_.
              let claimed = from\<lparr>run_status := RunSuperseded, run_superseded_by := Some into_sid\<rparr> in
              Inr (Write claimed (claimed\<lparr>run_revision := run_revision claimed + 1\<rparr>))))))"

definition merge_round ::
  "planner_run \<Rightarrow> string \<Rightarrow> string \<Rightarrow> store \<Rightarrow> (adopt_error, adopt_report round) result" where
  "merge_round from from_sid into_sid st =
     rbind (require_run into_sid st) (\<lambda>into.
       if run_status into = RunSuperseded then Inl AdoptSupersededDestination
       else rbind (merge from from_sid into_sid into) (\<lambda>(into1, report). Inr (Write into1 report)))"

definition retire_round :: "adopt_report \<Rightarrow> string \<Rightarrow> store \<Rightarrow> (adopt_error, unit round) result" where
  "retire_round report from_sid st = rbind (require_run from_sid st) (\<lambda>from. Inr (Write (retire report from) ()))"

definition adoption_pending ::
  "adopt_context \<Rightarrow> string \<Rightarrow> string option \<Rightarrow> handoff_notice \<Rightarrow> store \<Rightarrow> (adopt_error, unit) result \<times> store" where
  "adoption_pending ctx sid source notice st =
     (let reason = ad_notice ctx notice in
      cas_loop RETRIES ctx sid (\<lambda>s. rbind (require_run sid s) (\<lambda>run.
        if cap_pending_adoption (run_capacity run) = source \<and>
           is_some_and (bt_get (run_wakes run) ''adoption:handoff'') (\<lambda>w. wake_reason w = reason)
        then Inr (Return ())
        else Inr (Write (put_wake ''adoption:handoff'' (wake_default\<lparr>wake_work_id := sid, wake_reason := reason\<rparr>)
            (upd_capacity (\<lambda>c. c\<lparr>cap_pending_adoption := source\<rparr>) run)) ()))) st)"

text \<open>Sequencing the phases: an error ends the adoption with the store as it is.\<close>

definition andthen ::
  "(adopt_error, 'a) result \<times> store \<Rightarrow> ('a \<Rightarrow> store \<Rightarrow> (adopt_error, 'b) result \<times> store) \<Rightarrow> (adopt_error, 'b) result \<times> store" where
  "andthen r k = (case r of (Inl e, st) \<Rightarrow> (Inl e, st) | (Inr a, st) \<Rightarrow> k a st)"

definition adopt_at ::
  "adopt_context \<Rightarrow> string \<Rightarrow> string \<Rightarrow> int \<Rightarrow> store \<Rightarrow> (adopt_error, adopt_report) result \<times> store" where
  "adopt_at ctx from_sid into_sid now st =
     (if from_sid = into_sid then (Inl AdoptSelf, st)
      else andthen (cas_loop RETRIES ctx from_sid (claim_round ctx from_sid into_sid now) st) (\<lambda>from st1.
        andthen (cas_loop RETRIES ctx into_sid (merge_round from from_sid into_sid) st1) (\<lambda>report st2.
        andthen (cas_loop RETRIES ctx from_sid (retire_round report from_sid) st2) (\<lambda>_ st3.
        andthen (adoption_pending ctx into_sid None (NoticeAdopted report) st3) (\<lambda>_ st4.
          (Inr report, st4))))))"

section \<open>Handoffs of \<open>/implement\<close>\<close>

definition holds_claimed_content :: "planner_run \<Rightarrow> bool" where
  "holds_claimed_content from \<longleftrightarrow>
     run_works from \<noteq> [] \<or> run_releases from \<noteq> [] \<or> cap_holds (run_capacity from) \<noteq> [] \<or> run_parent_queue from \<noteq> []"

definition is_implement_run :: "planner_run \<Rightarrow> bool" where
  "is_implement_run run \<longleftrightarrow> run_execution_request run \<noteq> None \<or> run_works run \<noteq> [] \<or> run_releases run \<noteq> []"

definition retry_source ::
  "adopt_context \<Rightarrow> string \<Rightarrow> string \<Rightarrow> int \<Rightarrow> store \<Rightarrow> (adopt_error, adopt_report option) result \<times> store" where
  "retry_source ctx into_sid source now st =
     (case load into_sid st of
        None \<Rightarrow> (Inl (AdoptMissing into_sid), st)
      | Some into \<Rightarrow>
          if cap_pending_adoption (run_capacity into) \<noteq> Some source then (Inr None, st)
          else case (if source \<in> st_sessions st then load source st else None) of
            None \<Rightarrow> andthen (adoption_pending ctx into_sid None (NoticeAbandonedMissing source) st) (\<lambda>_ s. (Inr None, s))
          | Some from \<Rightarrow>
              if run_superseded_by from = Some into_sid
              then (if run_status from = RunSuperseded \<and> holds_claimed_content from
                    then andthen (adopt_at ctx source into_sid now st) (\<lambda>r s. (Inr (Some r), s))
                    else andthen (adoption_pending ctx into_sid None NoticeCompleted st)
                      (\<lambda>_ s. (Inr (Some (report_start source into_sid)), s)))
              else if run_superseded_by from \<noteq> None \<or> \<not> adoptable_status (run_status from)
              then andthen (adoption_pending ctx into_sid None (NoticeAbandoned source (run_superseded_by from) (run_status from)) st)
                (\<lambda>_ s. (Inr None, s))
              else case live_owner ctx source from now of
                Some reason \<Rightarrow>
                  andthen (adoption_pending ctx into_sid (Some source) (NoticeWaitingOwner source reason) st) (\<lambda>_ s. (Inr None, s))
              | None \<Rightarrow> andthen (adopt_at ctx source into_sid now st) (\<lambda>r s. (Inr (Some r), s)))"

text \<open>One round of claiming the retry: nothing is due, or the source to retry.\<close>

definition retry_round :: "string \<Rightarrow> int \<Rightarrow> store \<Rightarrow> (adopt_error, string option round) result" where
  "retry_round into_sid now st =
     rbind (require_run into_sid st) (\<lambda>into.
       let c = run_capacity into in
       if cap_pending_adoption c = None \<or> (cap_last_adoption_retry_at c \<noteq> 0 \<and> now - cap_last_adoption_retry_at c < 15)
       then Inr (Return None)
       else Inr (Write (upd_capacity (\<lambda>c. c\<lparr>cap_last_adoption_retry_at := now\<rparr>) into) (cap_pending_adoption c)))"

definition retry_pending_at ::
  "adopt_context \<Rightarrow> string \<Rightarrow> int \<Rightarrow> store \<Rightarrow> (adopt_error, adopt_report option) result \<times> store" where
  "retry_pending_at ctx into_sid now st =
     andthen (cas_loop RETRIES ctx into_sid (retry_round into_sid now) st) (\<lambda>due st1.
       case due of
         None \<Rightarrow> (Inr None, st1)
       | Some source \<Rightarrow>
           (case retry_source ctx into_sid source now st1 of
              (Inr report, st2) \<Rightarrow> (Inr report, st2)
            | (Inl e, st2) \<Rightarrow>
                andthen (adoption_pending ctx into_sid (Some source) (NoticeWaitingError source e) st2) (\<lambda>_ s. (Inl e, s))))"

text \<open>The latest implement run beside this session, by when its session was updated.\<close>

fun latest_implement :: "store \<Rightarrow> string list \<Rightarrow> (string \<times> planner_run) option" where
  "latest_implement st [] = None"
| "latest_implement st (i # is) =
     (case load i st of
        Some run \<Rightarrow> if is_implement_run run then Some (i, run) else latest_implement st is
      | None \<Rightarrow> latest_implement st is)"

definition adopt_on_implement ::
  "adopt_context \<Rightarrow> string \<Rightarrow> int \<Rightarrow> store \<Rightarrow> adopt_report option \<times> store" where
  "adopt_on_implement ctx into_sid now st =
     (case ad_run_ids_beside ctx into_sid of
        None \<Rightarrow> (None, st)
      | Some beside \<Rightarrow>
          (let ids = sort_key (\<lambda>i. - int (unwrap_or (ad_updated_at ctx i) 0))
                (filter (\<lambda>i. i \<noteq> into_sid \<and> \<not> contains_str i ''::'') beside) in
           case latest_implement st ids of
             None \<Rightarrow> (None, st)
           | Some (latest, run) \<Rightarrow>
               if run_superseded_by run \<noteq> None \<or> \<not> adoptable_status (run_status run) then (None, st)
               else case adoption_pending ctx into_sid (Some latest) (NoticeAwaiting latest) st of
                 (Inl _, st1) \<Rightarrow> (None, st1)
               | (Inr _, st1) \<Rightarrow>
                   (case retry_pending_at ctx into_sid now st1 of
                      (Inl _, st2) \<Rightarrow> (None, st2)
                    | (Inr report, st2) \<Rightarrow> (report, st2))))"

section \<open>An adoption loses nothing\<close>

lemma fold_keeps: "(\<And>x s. g (f x s) = g s) \<Longrightarrow> g (fold f xs s) = g s"
  by (induction xs arbitrary: s) auto

text \<open>What the parts of a merge leave alone.\<close>

lemma merge_policy_frame [simp]:
  "run_works (merge_policy p into) = run_works into" "run_inputs (merge_policy p into) = run_inputs into"
  "run_releases (merge_policy p into) = run_releases into" "run_parent_queue (merge_policy p into) = run_parent_queue into"
  by (simp_all add: merge_policy_def)

lemma header_frame:
  "run_works (merge_header from into) = run_works into" "run_inputs (merge_header from into) = run_inputs into"
  "run_releases (merge_header from into) = run_releases into" "run_parent_queue (merge_header from into) = run_parent_queue into"
  by (simp_all add: merge_header_def Let_def fold_keeps [of run_works] fold_keeps [of run_inputs]
      fold_keeps [of run_releases] fold_keeps [of run_parent_queue])

definition work_view :: "planner_run \<times> adopt_report \<Rightarrow> (string, work) btree \<times> (string \<times> work_status) list \<times> string list" where
  "work_view s = (run_works (fst s), rep_works (snd s), rep_conflicting_works (snd s))"

lemma merge_release_view: "merge_release r s = Inr s' \<Longrightarrow> work_view s' = work_view s"
  by (cases r; cases s) (auto simp: merge_release_def work_view_def split: option.splits if_splits)

lemma merge_releases_view: "merge_releases rs s = Inr s' \<Longrightarrow> work_view s' = work_view s"
  by (induction rs arbitrary: s) (auto dest: merge_release_view)

lemma merge_hold_view: "work_view (merge_hold h s) = work_view s"
  by (cases s; cases h) (simp add: merge_hold_def work_view_def upd_capacity_def)

lemma merge_historical_view: "work_view (merge_historical prose from fs is x s) = work_view s"
  by (cases s; cases x) (simp add: merge_historical_def work_view_def Let_def)

lemma merge_wake_view: "work_view (merge_wake fs is w s) = work_view s"
  by (cases s; cases w) (simp add: merge_wake_def work_view_def)

lemma merge_run_works:
  "run_works (merge_observation x into) = run_works into" "run_works (merge_input from fs y into) = run_works into"
  by (cases x; simp add: merge_observation_def) (cases y; auto simp: merge_input_def Let_def split: option.splits)

lemma merge_queued_view:
  "work_view (snd (merge_queued prose fs is q s)) = work_view (snd s)"
  by (cases s) (auto simp: merge_queued_def work_view_def entry_wake_def put_wake_def)

lemma merge_queue_view: "work_view (merge_queue prose from fs is s) = work_view s"
proof -
  obtain into report where s: "s = (into, report)" by fastforce
  have "work_view (snd (fold (merge_queued prose fs is) qs x)) = work_view (snd x)" for qs x
    using fold_keeps [of "\<lambda>x. work_view (snd x)" "merge_queued prose fs is"] merge_queued_view by blast
  from this [of "run_parent_queue from" "([], into, report)"] show ?thesis
    unfolding merge_queue_def s by (auto simp: work_view_def split: prod.split)
qed

lemma merge_view:
  assumes "merge from fs is into0 = Inr s"
  shows "work_view s = work_view (fold (merge_work from) (run_works from) (merge_header from into0, report_start fs is))"
proof -
  let ?s0 = "fold (merge_work from) (run_works from) (merge_header from into0, report_start fs is)"
  obtain s1 where s1: "merge_releases (run_releases from) ?s0 = Inr s1" using assms by (auto simp: merge_def)
  define s2 where "s2 = fold merge_hold (cap_holds (run_capacity from)) s1"
  define into4 where "into4 = fold (merge_input from fs) (run_inputs from) (fold merge_observation (run_observations from) (fst s2))"
  define s5 where "s5 = fold (merge_historical prose_historical from fs is) (run_inputs from) (into4, snd s2)"
  define s7 where "s7 = fold (merge_wake fs is) (run_wakes from) (merge_queue prose_queued from fs is s5)"
  have s: "s = ((fst s7)\<lparr>run_idle_heartbeats := 0\<rparr>, snd s7)"
    using assms s1 unfolding merge_def s7_def s5_def into4_def s2_def by (auto simp: Let_def case_prod_beta)
  have "work_view s2 = work_view ?s0"
    unfolding s2_def merge_releases_view [OF s1, symmetric] by (rule fold_keeps) (rule merge_hold_view)
  moreover have "run_works into4 = run_works (fst s2)"
    unfolding into4_def using fold_keeps [of run_works "merge_input from fs"] fold_keeps [of run_works merge_observation]
      merge_run_works by metis
  moreover have "work_view s5 = work_view (into4, snd s2)" unfolding s5_def by (rule fold_keeps) (rule merge_historical_view)
  moreover have "work_view s7 = work_view s5"
    unfolding s7_def using fold_keeps [of work_view "merge_wake fs is"] merge_wake_view merge_queue_view by metis
  ultimately show ?thesis unfolding s by (simp add: work_view_def)
qed

text \<open>The works: the destination's own are kept, the source's are added or reported.\<close>

lemma fold_merge_work:
  assumes "distinct (map fst ws)"
  defines "conflict \<equiv> \<lambda>into i. \<exists>w e. (i, w) \<in> set ws \<and> bt_get (run_works into) i = Some e \<and> \<not> same_assignment e w"
  shows "bt_get (run_works (fst (fold (merge_work from) ws (into, report)))) i =
      (case bt_get (run_works into) i of Some w \<Rightarrow> Some w | None \<Rightarrow> map_option mark_reconciliation_required (map_of ws i)) \<and>
    (i \<in> set (rep_conflicting_works (snd (fold (merge_work from) ws (into, report)))) \<longleftrightarrow>
      i \<in> set (rep_conflicting_works report) \<or> conflict into i) \<and>
    (i \<in> fst ` set (rep_works (snd (fold (merge_work from) ws (into, report)))) \<longleftrightarrow>
      i \<in> fst ` set (rep_works report) \<or> (i \<in> fst ` set ws \<and> \<not> conflict into i))"
  using assms(1) unfolding conflict_def
proof (induction ws arbitrary: into report)
  case (Cons x ws)
  obtain j w where x: "x = (j, w)" by fastforce
  obtain into1 rep1 where s: "merge_work from x (into, report) = (into1, rep1)" by fastforce
  have d: "distinct (map fst ws)" "j \<notin> fst ` set ws" using Cons.prems x by auto
  have g: "bt_get (run_works into1) k = (if k = j \<and> bt_get (run_works into) j = None
      then Some (mark_reconciliation_required w) else bt_get (run_works into) k)" for k
    using s by (auto simp: merge_work_def x upd_capacity_def split: option.splits if_splits)
  have c: "set (rep_conflicting_works rep1) = set (rep_conflicting_works report) \<union>
      {k. k = j \<and> (\<exists>e. bt_get (run_works into) j = Some e \<and> \<not> same_assignment e w)}"
    and r: "fst ` set (rep_works rep1) = fst ` set (rep_works report) \<union>
      {k. k = j \<and> \<not> (\<exists>e. bt_get (run_works into) j = Some e \<and> \<not> same_assignment e w)}"
    using s by (auto simp: merge_work_def x split: option.splits if_splits)
  have f: "fold (merge_work from) (x # ws) (into, report) = fold (merge_work from) ws (into1, rep1)" using s by simp
  note IH = Cons.IH [OF d(1), of into1 rep1]
  show ?case
  proof (cases "i = j")
    case True
    have n: "map_of ws j = None" "\<And>v. (j, v) \<notin> set ws" using d(2) by (force simp: map_of_eq_None_iff)+
    show ?thesis using IH unfolding f unfolding c r x True by (auto simp: n d(2) g split: option.split)
  next
    case False
    then have "bt_get (run_works into1) i = bt_get (run_works into) i" by (simp add: g)
    then show ?thesis using IH False unfolding f unfolding c r x by (simp split: option.split)
  qed
qed (simp split: option.split)

lemma retire_works:
  "bt_get (run_works (retire report from)) i =
     (if i \<in> fst ` set (rep_works report) then None else bt_get (run_works from) i)"
proof -
  have w: "bt_get (run_works (fold (\<lambda>(i, _) r. upd_capacity (\<lambda>c. c\<lparr>cap_resumes := bt_remove i (cap_resumes c)\<rparr>)
      (r\<lparr>run_works := bt_remove i (run_works r)\<rparr>)) ws r)) i =
      (if i \<in> fst ` set ws then None else bt_get (run_works r) i)" for ws r
    by (induction ws arbitrary: r) (auto simp: upd_capacity_def image_iff)
  have k: "run_works (fold (\<lambda>i r. r\<lparr>run_releases := bt_remove i (run_releases r)\<rparr>) xs r) = run_works r"
      "run_works (fold (\<lambda>p. upd_capacity (\<lambda>c. c\<lparr>cap_holds := bt_remove p (cap_holds c)\<rparr>)) xs r) = run_works r"
      "run_works (fold ack_wake xs r) = run_works r" "run_works (fold (\<lambda>i. ack_wake (f i)) xs r) = run_works r"
    for xs :: "string list" and f r
    by (rule fold_keeps, simp add: upd_capacity_def ack_wake_def)+
  show ?thesis unfolding retire_def Let_def by (simp add: k w)
qed

text \<open>
  C8. Adopting a run loses no work and overwrites none. The destination keeps every work it
  had; a source work under a new id is added, marked for reconciliation when it was in
  progress; and once the source is retired it holds exactly the works whose id the
  destination uses for another assignment, so every source work is in one of the two runs.
\<close>

theorem adoption_conserves_works:
  assumes "merge from from_sid into_sid into = Inr (into', report)" and "bt_wf (run_works from)"
  shows "bt_get (run_works into') i =
      (case bt_get (run_works into) i of Some w \<Rightarrow> Some w
       | None \<Rightarrow> map_option mark_reconciliation_required (bt_get (run_works from) i)) \<and>
    bt_get (run_works (retire report from)) i =
      (case (bt_get (run_works from) i, bt_get (run_works into) i) of
         (Some w, Some existing) \<Rightarrow> if same_assignment existing w then None else Some w
       | _ \<Rightarrow> None) \<and>
    (i \<in> set (rep_conflicting_works report) \<longleftrightarrow> bt_get (run_works (retire report from)) i \<noteq> None)"
proof -
  let ?s = "fold (merge_work from) (run_works from) (merge_header from into, report_start from_sid into_sid)"
  have v: "run_works into' = run_works (fst ?s)" "rep_works report = rep_works (snd ?s)"
     "rep_conflicting_works report = rep_conflicting_works (snd ?s)"
    using merge_view [OF assms(1)] by (simp_all add: work_view_def)
  have mem: "(i, w) \<in> set (run_works from) \<longleftrightarrow> bt_get (run_works from) i = Some w" for w
    using bt_get_mem [OF assms(2)] by blast
  have key: "i \<in> fst ` set (run_works from) \<longleftrightarrow> bt_get (run_works from) i \<noteq> None"
    by (metis map_of_eq_None_iff)
  show ?thesis
    using fold_merge_work [OF bt_wf_distinct [OF assms(2)], of "from" "merge_header from into" "report_start from_sid into_sid" i]
    unfolding v retire_works header_frame mem key
    by (auto simp: report_start_def split: option.splits)
qed

section \<open>A claim is made on the revision that was checked\<close>

text \<open>
  A loop that returns either returned what it read, or its save found the document it had
  read: nobody wrote the session in between.
\<close>

lemma cas_loop_linear:
  assumes "\<And>n. cas_writer sid (ad_between ctx n)"
    and "\<And>s run a. body s = Inr (Write run a) \<Longrightarrow> \<exists>r. load sid s = Some r \<and> run_revision run = run_revision r"
    and "cas_loop n ctx sid body st = (Inr a, st')"
  shows "body st' = Inr (Return a) \<or>
    (\<exists>k s r run. load sid s = Some r \<and> body s = Inr (Write run a) \<and> load sid (ad_between ctx k s) = Some r \<and>
       st_runs st' = (st_runs (ad_between ctx k s))(sid \<mapsto> (run_revision r + 1, run)))"
  using assms(3)
proof (induction n arbitrary: st)
  case (Suc n)
  let ?s = "ad_before ctx n st"
  obtain x where b: "body ?s = Inr x" using Suc.prems by (auto simp: Let_def split: sum.splits)
  show ?case
  proof (cases x)
    case (Return v)
    then show ?thesis using Suc.prems b by (auto simp: Let_def)
  next
    case (Write run v)
    obtain res st1 where sv: "save (env_identity (ad_env ctx)) (ad_hooked ctx) (ad_save_id ctx n) sid run (ad_between ctx n ?s) = (res, st1)"
      by fastforce
    obtain r where r: "load sid ?s = Some r" "run_revision run = run_revision r" using assms(2) b Write by blast
    show ?thesis
    proof (cases res)
      case (Inl e)
      then have "e = RunErr ErrConcurrent" using save_concurrent sv by blast
      then show ?thesis using Suc b Write sv Inl by (simp add: Let_def)
    next
      case (Inr run2)
      then have eq: "v = a" "st1 = st'" using Suc.prems b Write sv by (simp_all add: Let_def)
      note sv' = sv [unfolded Inr eq]
      have "load sid (ad_between ctx n ?s) = Some r" using save_after_load [OF assms(1) r sv'] .
      moreover have "st_runs st' = (st_runs (ad_between ctx n ?s))(sid \<mapsto> (run_revision r + 1, run))"
        using save_Inr [OF sv'] r(2) by simp
      ultimately show ?thesis using r b Write eq(1) by blast
    qed
  qed
qed simp

lemma claim_round_Write:
  assumes "claim_round ctx from_sid into_sid now s = Inr (Write run a)"
  shows "\<exists>from. load from_sid s = Some from \<and> adoptable ctx from_sid from now = Inr () \<and>
    run = from\<lparr>run_status := RunSuperseded, run_superseded_by := Some into_sid\<rparr> \<and>
    a = run\<lparr>run_revision := run_revision from + 1\<rparr>"
  using assms by (auto simp: claim_round_def require_run_def Let_def split: if_splits)

lemma claim_round_Return:
  assumes "claim_round ctx from_sid into_sid now s = Inr (Return a)"
  shows "load from_sid s = Some a \<and> run_status a = RunSuperseded \<and> run_superseded_by a = Some into_sid"
  using assms by (auto simp: claim_round_def require_run_def Let_def split: if_splits)

lemma adoptable_Inr:
  "adoptable ctx sid run now = Inr () \<longleftrightarrow> adoptable_status (run_status run) \<and> live_owner ctx sid run now = None \<and>
    \<not> (run_status run = RunPaused \<and> list_ex (\<lambda>w. is_some_and (work_attempt w) (\<lambda>a. \<not> att_ended a)) (bt_values (run_works run)))"
  by (auto simp: adoptable_def split: option.splits)

text \<open>No live owner: the lease, every attempt and every wake claim.\<close>

lemma live_owner_None:
  assumes "live_owner ctx sid run now = None"
  shows "\<not> ad_loaded_here ctx sid \<and>
    (\<forall>owner. run_owner run = Some owner \<and> run_owner_alive (ad_env ctx) owner \<longrightarrow>
       run_owner_heartbeat_at run \<noteq> 0 \<and> OWNER_STALE_SECS \<le> now - run_owner_heartbeat_at run) \<and>
    (\<forall>i w. (i, w) \<in> set (run_works run) \<longrightarrow> \<not> live_attempt ctx w) \<and>
    (\<forall>i w. (i, w) \<in> set (run_wakes run) \<longrightarrow> \<not> live_claim ctx i w)"
proof -
  have l: "lease_reason ctx sid run now = None" "List.find (\<lambda>(_, w). live_attempt ctx w) (run_works run) = None"
     "List.find (\<lambda>(i, w). live_claim ctx i w) (run_wakes run) = None" "\<not> ad_loaded_here ctx sid"
    using assms by (auto simp: live_owner_def split: option.splits if_splits)
  have "run_owner_heartbeat_at run \<noteq> 0 \<and> OWNER_STALE_SECS \<le> now - run_owner_heartbeat_at run"
    if "run_owner run = Some owner" "run_owner_alive (ad_env ctx) owner" for owner
    using l(1) that by (auto simp: lease_reason_def split: if_splits)
  then show ?thesis using l(2-4) by (auto simp: find_None_iff)
qed

text \<open>
  C7. An adoption never takes a run from a living coordinator, whatever other routers write
  meanwhile. When the claim succeeds, either this destination had claimed the run before,
  or the document replaced by the claim was running, draining or cleanly paused, its lease
  was gone or stale, none of its attempts or wake claims belonged to a live process, and
  the stored document differs from it only by being superseded, one revision on.
\<close>

theorem adoption_claim_fenced:
  assumes "\<And>n. cas_writer from_sid (ad_between ctx n)"
    and "cas_loop RETRIES ctx from_sid (claim_round ctx from_sid into_sid now) st = (Inr claimed, st')"
  shows "run_status claimed = RunSuperseded \<and> run_superseded_by claimed = Some into_sid \<and> load from_sid st' = Some claimed \<and>
    (claim_round ctx from_sid into_sid now st' = Inr (Return claimed) \<or>
     (\<exists>s from. load from_sid s = Some from \<and> adoptable_status (run_status from) \<and>
        \<not> ad_loaded_here ctx from_sid \<and>
        (\<forall>owner. run_owner from = Some owner \<and> run_owner_alive (ad_env ctx) owner \<longrightarrow>
           run_owner_heartbeat_at from \<noteq> 0 \<and> OWNER_STALE_SECS \<le> now - run_owner_heartbeat_at from) \<and>
        (\<forall>i w. (i, w) \<in> set (run_works from) \<longrightarrow> \<not> live_attempt ctx w) \<and>
        (\<forall>i w. (i, w) \<in> set (run_wakes from) \<longrightarrow> \<not> live_claim ctx i w) \<and>
        st_runs st' = (st_runs s)(from_sid \<mapsto> (run_revision from + 1,
          from\<lparr>run_status := RunSuperseded, run_superseded_by := Some into_sid\<rparr>))))"
proof -
  let ?b = "claim_round ctx from_sid into_sid now"
  have w: "\<exists>r. load from_sid s = Some r \<and> run_revision run = run_revision r" if "?b s = Inr (Write run a)" for s run a
    using claim_round_Write [OF that] by auto
  have "?b st' = Inr (Return claimed) \<or> (\<exists>k s r run. load from_sid s = Some r \<and> ?b s = Inr (Write run claimed) \<and>
      load from_sid (ad_between ctx k s) = Some r \<and>
      st_runs st' = (st_runs (ad_between ctx k s))(from_sid \<mapsto> (run_revision r + 1, run)))"
    by (rule cas_loop_linear [OF assms(1) _ assms(2)]) (rule w)
  then consider "?b st' = Inr (Return claimed)"
    | k s r run where "load from_sid s = Some r" "?b s = Inr (Write run claimed)" "load from_sid (ad_between ctx k s) = Some r"
      "st_runs st' = (st_runs (ad_between ctx k s))(from_sid \<mapsto> (run_revision r + 1, run))" by blast
  then show ?thesis
  proof cases
    case 1
    then show ?thesis using claim_round_Return by blast
  next
    case (2 k s r run)
    from claim_round_Write [OF 2(2)] 2(1) have c: "adoptable ctx from_sid r now = Inr ()"
      "run = r\<lparr>run_status := RunSuperseded, run_superseded_by := Some into_sid\<rparr>"
      "claimed = run\<lparr>run_revision := run_revision r + 1\<rparr>" by auto
    have "load from_sid st' = Some claimed" using 2(4) c(3) by (simp add: load_def)
    moreover have "run_status claimed = RunSuperseded" "run_superseded_by claimed = Some into_sid" using c by auto
    moreover have "adoptable_status (run_status r)" "live_owner ctx from_sid r now = None"
      using c(1) unfolding adoptable_Inr by auto
    ultimately show ?thesis using 2(3,4) live_owner_None unfolding c(2) by blast
  qed
qed

section \<open>An adoption of a sample run\<close>

text \<open>Two sessions of one checkout: \<open>old\<close> left two works behind, \<open>new\<close> uses the id of one of them.\<close>

definition old_run :: planner_run where
  "old_run = sample_run [(''a'', sample_work ''a''), (''b'', sample_work ''b'')]"

definition new_run :: planner_run where
  "new_run = sample_run [(''b'', (sample_work ''b'')\<lparr>work_child_id := ''other''\<rparr>)]"

definition two_runs :: store where
  "two_runs = empty_store\<lparr>st_runs := [''old'' \<mapsto> (4, old_run), ''new'' \<mapsto> (4, new_run)]\<rparr>"

definition quiet_context :: adopt_context where
  "quiet_context = \<lparr>ad_env = sample_env, ad_hooked = False, ad_save_id = (\<lambda>_. ''s''), ad_loaded_here = (\<lambda>_. False),
     ad_last_activity = (\<lambda>_. None), ad_updated_at = (\<lambda>_. None), ad_run_ids_beside = (\<lambda>_. None),
     ad_notice = (\<lambda>_. ''notice''), ad_before = (\<lambda>_ st. st), ad_between = (\<lambda>_ st. st)\<rparr>"

lemma old_into_new:
  "\<exists>into' report. merge old_run ''old'' ''new'' new_run = Inr (into', report)"
proof -
  have "is_ok (merge old_run ''old'' ''new'' new_run)" by code_simp
  then show ?thesis by (cases "merge old_run ''old'' ''new'' new_run") auto
qed

theorem adoption_conserves_works_witness:
  "\<exists>into' report. merge old_run ''old'' ''new'' new_run = Inr (into', report) \<and>
     bt_get (run_works into') ''a'' = Some (sample_work ''a'') \<and>
     bt_get (run_works (retire report old_run)) ''a'' = None \<and>
     bt_get (run_works (retire report old_run)) ''b'' = Some (sample_work ''b'') \<and>
     ''b'' \<in> set (rep_conflicting_works report)"
proof -
  obtain into' report where m: "merge old_run ''old'' ''new'' new_run = Inr (into', report)" using old_into_new by blast
  have "bt_wf (run_works old_run)" by code_simp
  from adoption_conserves_works [OF m this, of "''a''"] adoption_conserves_works [OF m this, of "''b''"] m
  show ?thesis
    by (auto simp: old_run_def new_run_def sample_run_def same_assignment_def mark_reconciliation_required_def sample_work_def)
qed

theorem adoption_claim_fenced_witness:
  "\<exists>claimed st'. cas_loop RETRIES quiet_context ''old'' (claim_round quiet_context ''old'' ''new'' 1000) two_runs = (Inr claimed, st') \<and>
     run_status claimed = RunSuperseded \<and> load ''old'' st' = Some claimed"
proof -
  let ?r = "cas_loop RETRIES quiet_context ''old'' (claim_round quiet_context ''old'' ''new'' 1000) two_runs"
  have "is_ok (fst ?r)" by code_simp
  then obtain claimed st' where c: "?r = (Inr claimed, st')" by (cases ?r; cases "fst ?r") auto
  have "cas_writer ''old'' (ad_between quiet_context n)" for n by unfold_locales (simp add: quiet_context_def)
  from adoption_claim_fenced [OF this c] c show ?thesis by auto
qed

end
