(* ===== verification/Planner_Keeps.thy ===== *)
theory Planner_Keeps
  imports Planner_Lifecycle Planner_Adopt
begin

text \<open>
  Everything else that changes a run keeps the run invariant: recording, queueing, delivering
  and withdrawing inputs, commands, observed prompts, the ownership lease, and both sides of
  an adoption. The operations of the planner tool and the worker lifecycle have their
  lemmas in their own theories.
\<close>

section \<open>Inputs and commands\<close>

lemma run_ok_clear_human_hold: "run_ok run \<Longrightarrow> run_ok (clear_human_hold run)"
  by (simp add: run_ok_def run_wf_def clear_human_hold_def upd_capacity_def)

lemma run_ok_put_input: "run_ok run \<Longrightarrow> run_ok (run\<lparr>run_inputs := bt_insert i inp (run_inputs run)\<rparr>)"
  by (simp add: run_ok_def run_wf_def)

lemma run_ok_upd_input: "run_ok run \<Longrightarrow> run_ok (upd_input i f run)"
  by (simp add: run_ok_def run_wf_def upd_input_def)

lemma run_ok_entry_wake: "run_ok run \<Longrightarrow> run_ok (entry_wake i w run)"
  by (simp add: run_ok_def run_wf_def entry_wake_def put_wake_def)

lemma run_ok_put_wake: "run_ok run \<Longrightarrow> run_ok (put_wake i w run)"
  by (simp add: run_ok_def run_wf_def put_wake_def)

lemma run_ok_record_input: "run_ok run \<Longrightarrow> record_input uuid req run = Inr (i, run') \<Longrightarrow> run_ok run'"
  by (auto simp: record_input_def Let_def split: option.splits if_splits
      intro: run_ok_clear_human_hold run_ok_put_input)

lemma run_ok_set_queue: "run_ok run \<Longrightarrow> run_ok (run\<lparr>run_parent_queue := q\<rparr>)"
  by (simp add: run_ok_def run_wf_def)

lemma run_ok_queue: "run_ok run \<Longrightarrow> queue_parent_request uuid sid req run = Inr (i, run') \<Longrightarrow> run_ok run'"
  by (auto simp: queue_parent_request_def Let_def split: if_splits
      intro: run_ok_entry_wake run_ok_set_queue run_ok_record_input)

lemma run_ok_delivered: "run_ok run \<Longrightarrow> mark_input_delivered sid i owner run = Inr run' \<Longrightarrow> run_ok run'"
  by (auto simp: mark_input_delivered_def intro: run_ok_upd_input)

lemma run_ok_steered: "run_ok run \<Longrightarrow> record_steered_input uuid sid req run = Inr run' \<Longrightarrow> run_ok run'"
  by (auto simp: record_steered_input_def intro: run_ok_upd_input run_ok_record_input)

lemma work_ok_mark: "work_ok (mark_reconciliation_required w) = work_ok w"
  by (simp add: work_ok_def mark_reconciliation_required_def accepted_revision_def attempt_done_def)

lemma mark_spec [simp]: "work_spec (mark_reconciliation_required w) = work_spec w"
  by (simp add: mark_reconciliation_required_def)

text \<open>Fields the invariant does not read.\<close>

lemma run_ok_fields [simp]:
  "run_ok (run\<lparr>run_phase := p\<rparr>) = run_ok run" "run_ok (run\<lparr>run_status := s\<rparr>) = run_ok run"
  "run_ok (run\<lparr>run_coordinator := c\<rparr>) = run_ok run" "run_ok (run\<lparr>run_approval_waits := a\<rparr>) = run_ok run"
  "run_ok (run\<lparr>run_execution_request := e\<rparr>) = run_ok run" "run_ok (run\<lparr>run_execution_input_id := i\<rparr>) = run_ok run"
  "run_ok (run\<lparr>run_commands := k\<rparr>) = run_ok run" "run_ok (run\<lparr>run_policy := pol\<rparr>) = run_ok run"
  "run_ok (run\<lparr>run_prior_policies := pp\<rparr>) = run_ok run" "run_ok (run\<lparr>run_revision := rv\<rparr>) = run_ok run"
  "run_ok (run\<lparr>run_owner := ow\<rparr>) = run_ok run" "run_ok (run\<lparr>run_owner_heartbeat_at := hb\<rparr>) = run_ok run"
  "run_ok (run\<lparr>run_superseded_by := sb\<rparr>) = run_ok run" "run_ok (run\<lparr>run_idle_heartbeats := ih\<rparr>) = run_ok run"
  "run_ok (run\<lparr>run_completed_guides_at_start := g\<rparr>) = run_ok run" "run_ok (run\<lparr>run_parent_queue := q\<rparr>) = run_ok run"
  by (simp_all add: run_ok_def run_wf_def)

lemma run_ok_map_works: "run_ok run \<Longrightarrow> run_ok (run\<lparr>run_works := bt_map (\<lambda>_. mark_reconciliation_required) (run_works run)\<rparr>)"
  by (auto simp: run_ok_def run_wf_def work_ok_mark)

lemma run_ok_install_policy: "run_ok run \<Longrightarrow> install_policy ctx run = Inr run' \<Longrightarrow> run_ok run'"
  unfolding install_policy_def by (auto simp: Let_def intro!: run_ok_map_works split: sum.splits)

lemma run_ok_reset_retries: "run_ok run \<Longrightarrow> run_ok (reset_retries run)"
  by (simp add: run_ok_def run_wf_def reset_retries_def)

lemma run_ok_keep_entrypoint: "run_ok run \<Longrightarrow> run_ok (keep_entrypoint ctx phase i run)"
  by (simp add: run_ok_def run_wf_def keep_entrypoint_def split: option.split prod.split)

lemma run_ok_apply_command: "run_ok run \<Longrightarrow> run_ok (apply_command ctx phase fresh resuming i original run)"
  unfolding apply_command_def Let_def by (intro run_ok_keep_entrypoint) (simp add: run_ok_reset_retries)

lemma run_ok_user_command:
  assumes "run_ok run" and "user_command_once ctx uuid original req queued run = Inr (Some (phase, run'))"
  shows "run_ok run'"
proof -
  obtain lc where lc: "leading_command req = Some lc"
    using assms(2) by (cases "leading_command req") (auto simp: user_command_once_def)
  obtain i run1 where r1: "record_input uuid original run = Inr (i, run1)"
    using assms(2) by (cases "record_input uuid original run") (auto simp: user_command_once_def lc Let_def)
  let ?run2 = "run1\<lparr>run_commands := insert i (run_commands run1)\<rparr>"
  have ok2: "run_ok ?run2" using run_ok_record_input [OF assms(1) r1] by simp
  have "\<exists>c run3 fresh resuming. (if c then install_policy ctx ?run2 else Inr ?run2) = Inr run3 \<and>
      run' = apply_command ctx (lc_phase lc) fresh resuming i original run3"
    using assms(2) unfolding user_command_once_def lc r1 Let_def
    by (simp only: option.case guard_Inr_iff rbind_simps case_prod_conv rbind_Inr_iff sum.inject option.inject prod.inject) blast
  then show ?thesis using ok2 run_ok_install_policy [OF ok2] by (auto intro!: run_ok_apply_command split: if_splits)
qed

lemma run_ok_observe:
  assumes "run_ok run" and "observe_input draining uuid req run = Inr run'"
  shows "run_ok run'"
proof -
  obtain i run1 where o: "observed_id uuid req (reopen_run draining (human_prompt req) run) = Inr (i, run1)"
    and a: "ack_observed_wake req (apply_directed draining req (directed_phase req) i run1) = Inr run'"
    using assms(2) by (auto simp: observe_input_def Let_def)
  have "run_ok (reopen_run draining (human_prompt req) run)"
    using assms(1) by (simp add: reopen_run_def Let_def run_ok_clear_human_hold)
  then have "run_ok run1" using o run_ok_record_input by (auto simp: observed_id_def split: if_splits)
  then have "run_ok (apply_directed draining req (directed_phase req) i run1)"
    by (simp add: apply_directed_def split: option.split)
  then show ?thesis using a by (auto simp: ack_observed_wake_def intro: run_ok_ack_wake split: option.splits if_splits)
qed

lemma run_ok_enqueue:
  assumes "run_ok run" and "enqueue_parent_input uuid sid req run = Inr run'"
  shows "run_ok run'"
proof -
  obtain run1 i run2 where r1: "run1 = run \<or> run1 = run\<lparr>run_status := RunRunning\<rparr>"
    and q: "queue_parent_request uuid sid req run1 = Inr (i, run2)" and r: "run' = run2 \<or> run' = run2\<lparr>run_phase := Planning\<rparr>"
    using assms(2) by (auto simp: enqueue_parent_input_def Let_def split: sum.splits if_splits)
  have "run_ok run1" using r1 assms(1) by auto
  then have "run_ok run2" using q run_ok_queue by blast
  then show ?thesis using r by auto
qed

section \<open>Adoption\<close>

lemma fold_inv: "(\<And>x s. x \<in> set xs \<Longrightarrow> P s \<Longrightarrow> P (f x s)) \<Longrightarrow> P s \<Longrightarrow> P (fold f xs s)"
  by (induction xs arbitrary: s) auto

lemma bt_memD: "bt_wf m \<Longrightarrow> (k, v) \<in> set m \<Longrightarrow> bt_get m k = Some v"
  by (simp add: bt_get_mem)

lemma run_ok_header: "run_ok into \<Longrightarrow> run_ok (merge_header from into)"
proof -
  assume ok: "run_ok into"
  have "run_ok (fold merge_policy (run_prior_policies from @ [run_policy from]) into)"
    by (rule fold_inv [of _ run_ok, OF _ ok]) (simp add: merge_policy_def)
  then show ?thesis by (simp add: merge_header_def Let_def)
qed

lemma run_ok_capacity:
  "run_ok run \<Longrightarrow> bt_wf (cap_holds c) \<Longrightarrow> bt_wf (cap_resumes c) \<Longrightarrow> run_ok (run\<lparr>run_capacity := c\<rparr>)"
  by (simp add: run_ok_def run_wf_def)

lemma run_ok_caps: "run_ok run \<Longrightarrow> bt_wf (cap_holds (run_capacity run)) \<and> bt_wf (cap_resumes (run_capacity run))"
  by (simp add: run_ok_def run_wf_def)

lemma run_ok_merge_work:
  assumes "run_ok (fst s)" and "work_ok w" and "spec_work_id (work_spec w) = i"
  shows "run_ok (fst (merge_work from (i, w) s))"
proof -
  obtain into report where s: "s = (into, report)" by fastforce
  have ok: "run_ok (into\<lparr>run_works := bt_insert i (mark_reconciliation_required w) (run_works into)\<rparr>)"
    using run_ok_put_work [of into "mark_reconciliation_required w"] assms unfolding s put_work_def by (simp add: work_ok_mark)
  then have "run_ok (into\<lparr>run_works := bt_insert i (mark_reconciliation_required w) (run_works into),
      run_capacity := (run_capacity into)\<lparr>cap_resumes := bt_insert i r (cap_resumes (run_capacity into))\<rparr>\<rparr>)" for r
    using run_ok_capacity [OF ok] run_ok_caps [OF ok] by simp
  then show ?thesis using ok assms(1) unfolding s
    by (simp add: merge_work_def upd_capacity_def split: option.split)
qed

lemma run_ok_merge_works:
  assumes "run_ok from" and "run_ok (fst s)"
  shows "run_ok (fst (fold (merge_work from) (run_works from) s))"
proof (rule fold_inv [of "run_works from" "\<lambda>s. run_ok (fst s)", OF _ assms(2)])
  fix x and t :: "planner_run \<times> adopt_report" assume x: "x \<in> set (run_works from)" and t: "run_ok (fst t)"
  obtain i w where iw: "x = (i, w)" by fastforce
  have "bt_wf (run_works from)" using assms(1) by (simp add: run_ok_def run_wf_def)
  then have "bt_get (run_works from) i = Some w" using x unfolding iw by (rule bt_memD)
  then show "run_ok (fst (merge_work from x t))" using run_okD [OF assms(1)] run_ok_merge_work [OF t] unfolding iw by blast
qed

lemma ledger_insert_inactive:
  assumes "ledger_ok rels" and "history_ok r" and "\<not> release_active r"
  shows "ledger_ok (bt_insert i r rels)"
  using assms unfolding ledger_ok_def lane_def by (auto split: if_splits)

lemma run_ok_merge_release:
  assumes "run_ok (fst s)" and "history_ok r" and "\<not> release_active r" and "merge_release (i, r) s = Inr s'"
  shows "run_ok (fst s')"
proof -
  have "run_ok (into\<lparr>run_releases := bt_insert i r (run_releases into)\<rparr>)" if "run_ok into" for into
    using that ledger_insert_inactive [OF _ assms(2,3)] by (simp add: run_ok_def run_wf_def)
  then show ?thesis using assms(1,4) by (cases s) (auto simp: merge_release_def split: option.splits if_splits)
qed

lemma run_ok_merge_releases:
  assumes "\<forall>i r. (i, r) \<in> set rs \<longrightarrow> history_ok r \<and> \<not> release_active r" and "run_ok (fst s)" and "merge_releases rs s = Inr s'"
  shows "run_ok (fst s')"
  using assms
proof (induction rs arbitrary: s)
  case (Cons x rs)
  obtain i r where x: "x = (i, r)" by fastforce
  obtain t where t: "merge_release x s = Inr t" "merge_releases rs t = Inr s'" using Cons.prems(3) by auto
  have "run_ok (fst t)" using run_ok_merge_release [of s r i t] Cons.prems t(1) x by auto
  then show ?case using Cons.IH [of t] Cons.prems(1) t(2) by auto
qed simp

lemma run_ok_merge_hold: "run_ok (fst s) \<Longrightarrow> run_ok (fst (merge_hold x s))"
  by (cases s; cases x) (simp add: merge_hold_def run_ok_def run_wf_def upd_capacity_def)

lemma run_ok_merge_observation: "run_ok into \<Longrightarrow> run_ok (merge_observation x into)"
  by (cases x) (simp add: merge_observation_def run_ok_def run_wf_def)

lemma run_ok_merge_input: "run_ok into \<Longrightarrow> run_ok (merge_input from fs x into)"
  by (cases x) (simp add: merge_input_def run_ok_def run_wf_def Let_def split: option.split)

lemma run_ok_merge_historical: "run_ok (fst s) \<Longrightarrow> run_ok (fst (merge_historical prose from fs is x s))"
  by (cases s; cases x) (simp add: merge_historical_def Let_def run_ok_put_wake)

lemma run_ok_merge_wake: "run_ok (fst s) \<Longrightarrow> run_ok (fst (merge_wake fs is x s))"
  by (cases s; cases x) (simp add: merge_wake_def run_ok_put_wake)

lemma run_ok_merge_queue:
  assumes "run_ok (fst s)"
  shows "run_ok (fst (merge_queue prose from fs is s))"
proof -
  obtain into report where s: "s = (into, report)" by fastforce
  have step: "run_ok (fst (snd (merge_queued prose fs is q t)))" if "run_ok (fst (snd t))" for q t
    using that by (cases t) (simp add: merge_queued_def run_ok_entry_wake)
  have "run_ok (fst (snd (fold (merge_queued prose fs is) (run_parent_queue from) ([], into, report))))"
    by (rule fold_inv [of _ "\<lambda>t. run_ok (fst (snd t))"]) (use assms step s in auto)
  then show ?thesis unfolding merge_queue_def s by (auto split: prod.split)
qed

text \<open>
  The destination stays sound when the source brings no active release: an adoption does not
  compare the release lanes of the two runs.
\<close>

lemma run_ok_merge:
  assumes "merge from fs is into = Inr (into', report)" and "run_ok from" and "run_ok into"
    and "\<forall>i r. bt_get (run_releases from) i = Some r \<longrightarrow> \<not> release_active r"
  shows "run_ok into'"
proof -
  obtain s1 where s1: "merge_releases (run_releases from)
      (fold (merge_work from) (run_works from) (merge_header from into, report_start fs is)) = Inr s1"
    using assms(1) by (auto simp: merge_def)
  have rel: "\<forall>i r. (i, r) \<in> set (run_releases from) \<longrightarrow> history_ok r \<and> \<not> release_active r"
  proof (intro allI impI)
    fix i r assume m: "(i, r) \<in> set (run_releases from)"
    have l: "ledger_ok (run_releases from)" using assms(2) by (simp add: run_ok_def)
    then have "bt_wf (run_releases from)" by (simp add: ledger_ok_def)
    then have "bt_get (run_releases from) i = Some r" using m by (rule bt_memD)
    then show "history_ok r \<and> \<not> release_active r" using l assms(4) unfolding ledger_ok_def by blast
  qed
  have ok1: "run_ok (fst s1)"
    using run_ok_merge_releases [OF rel _ s1] run_ok_merge_works [OF assms(2)] run_ok_header [OF assms(3)] by simp
  define s2 where "s2 = fold merge_hold (cap_holds (run_capacity from)) s1"
  define into4 where "into4 = fold (merge_input from fs) (run_inputs from) (fold merge_observation (run_observations from) (fst s2))"
  define s5 where "s5 = fold (merge_historical prose_historical from fs is) (run_inputs from) (into4, snd s2)"
  define s7 where "s7 = fold (merge_wake fs is) (run_wakes from) (merge_queue prose_queued from fs is s5)"
  have ok2: "run_ok (fst s2)" unfolding s2_def by (rule fold_inv [of _ "\<lambda>s. run_ok (fst s)"]) (use ok1 run_ok_merge_hold in auto)
  have ok4: "run_ok into4" unfolding into4_def
    by (rule fold_inv [of _ run_ok], rule run_ok_merge_input, assumption, rule fold_inv [of _ run_ok],
        rule run_ok_merge_observation, assumption, rule ok2)
  have ok5: "run_ok (fst s5)" unfolding s5_def
    by (rule fold_inv [of _ "\<lambda>s. run_ok (fst s)"]) (use ok4 run_ok_merge_historical in auto)
  have "run_ok (fst s7)" unfolding s7_def
    by (rule fold_inv [of _ "\<lambda>s. run_ok (fst s)"]) (use run_ok_merge_queue [OF ok5] run_ok_merge_wake in auto)
  moreover have "into' = (fst s7)\<lparr>run_idle_heartbeats := 0\<rparr>"
    using assms(1) s1 unfolding merge_def s7_def s5_def into4_def s2_def by (auto simp: Let_def case_prod_beta)
  ultimately show ?thesis by simp
qed

lemma run_ok_works:
  "run_ok run \<Longrightarrow> bt_wf ws \<Longrightarrow> (\<And>k w. bt_get ws k = Some w \<Longrightarrow> work_ok w \<and> spec_work_id (work_spec w) = k) \<Longrightarrow>
   run_ok (run\<lparr>run_works := ws\<rparr>)"
  by (simp add: run_ok_def run_wf_def)

lemma run_ok_drop_work:
  assumes "run_ok run"
  shows "run_ok (upd_capacity (\<lambda>c. c\<lparr>cap_resumes := bt_remove i (cap_resumes c)\<rparr>)
     (run\<lparr>run_works := bt_remove i (run_works run)\<rparr>))"
proof -
  have "bt_wf (run_works run)" using assms by (simp add: run_ok_def run_wf_def)
  then have ok: "run_ok (run\<lparr>run_works := bt_remove i (run_works run)\<rparr>)"
    by (intro run_ok_works [OF assms]) (auto dest: run_okD [OF assms] split: if_splits)
  then show ?thesis using run_ok_capacity [OF ok] run_ok_caps [OF ok] by (simp add: upd_capacity_def)
qed

lemma ledger_remove:
  assumes "ledger_ok rels"
  shows "ledger_ok (bt_remove i rels)"
proof -
  have "bt_get (bt_remove i rels) k = Some r \<Longrightarrow> bt_get rels k = Some r" for k r by (simp split: if_splits)
  moreover have "bt_wf (bt_remove i rels)" using assms by (simp add: ledger_ok_def)
  ultimately show ?thesis using assms unfolding ledger_ok_def lane_def by blast
qed

lemma run_ok_drop_release: "run_ok run \<Longrightarrow> run_ok (run\<lparr>run_releases := bt_remove i (run_releases run)\<rparr>)"
  using ledger_remove [of "run_releases run" i] by (simp add: run_ok_def run_wf_def)

lemma run_ok_drop_hold: "run_ok run \<Longrightarrow> run_ok (upd_capacity (\<lambda>c. c\<lparr>cap_holds := bt_remove p (cap_holds c)\<rparr>) run)"
  by (simp add: run_ok_def run_wf_def upd_capacity_def)

lemma run_ok_retire_source: "run_ok from \<Longrightarrow> run_ok (retire report from)"
  unfolding retire_def Let_def
  by (simp only: run_ok_fields)
    (intro fold_inv [of _ run_ok] run_ok_ack_wake run_ok_drop_hold run_ok_drop_release | 
     simp only: run_ok_fields | (simp only: case_prod_beta, rule run_ok_drop_work, assumption) | assumption)+

end
