(* ===== verification/Planner_Wake.thy ===== *)
theory Planner_Wake
  imports Planner_Keeps
begin

text \<open>
  How pending wakes and queued inputs reach the parent of a run (\<open>planner_wake.rs\<close>,
  \<open>planner_preempt.rs\<close>) and which wakes the audit and the turn-end gate add
  (\<open>planner_guard.rs\<close>): priorities, the bounded batch a delivery claims, what its end leaves,
  queued input one at a time, steering into a running turn, the heartbeat and the notice of a
  parked run. Times are seconds; the texts handed to the parent are constructors or arguments.
\<close>

section \<open>Priorities and roles\<close>

definition environment_wake :: "string \<Rightarrow> bool" where
  "environment_wake i \<longleftrightarrow>
     i \<in> {''observation:ci:staging'', ''observation:ci:production'', ''observation:ci-job-failures:staging'',
          ''observation:ci-job-failures:production'', ''observation:smoke:staging'', ''observation:smoke:production''}"

definition failed_environment :: "(string, observation) btree \<Rightarrow> bool" where
  "failed_environment observations \<longleftrightarrow>
     list_ex (\<lambda>environment. is_some_and (bt_get observations (''ci:'' @ environment))
        (\<lambda>o1. obs_reference o1 = environment \<and> obs_state o1 = ObsFailed)) [''staging'', ''production'']"

definition integration_pending :: "(string, observation) btree \<Rightarrow> work_status list \<Rightarrow> string list \<Rightarrow> bool" where
  "integration_pending observations work_states ids \<longleftrightarrow>
     Finished \<in> set work_states \<or> list_ex environment_wake ids \<or> failed_environment observations"

definition wake_priority :: "string \<Rightarrow> nat" where
  "wake_priority i =
     (if starts_with i ''input:'' then 0
      else if starts_with i ''release:'' \<or> starts_with i ''audit:release:'' \<or> environment_wake i then 1
      else if starts_with i ''observation:'' then 2
      else if starts_with i ''recovery:'' then 3
      else if starts_with i ''capacity:'' \<or> starts_with i ''inflight:'' \<or> starts_with i ''gate:'' \<or> starts_with i ''audit:'' then 5
      else 4)"

definition delivery_priority :: "string \<Rightarrow> work_status option \<Rightarrow> nat" where
  "delivery_priority i status =
     (if starts_with i ''recovery:'' \<and> (status = Some Accepted \<or> status = Some Finished) then 9 else wake_priority i * 2)"

definition wake_role :: "planner_phase \<Rightarrow> bool \<Rightarrow> release list \<Rightarrow> bool \<Rightarrow> planner_role" where
  "wake_role phase explicit_command releases environment_changed =
     (if phase = Implementation \<and> (environment_changed \<or> list_ex release_active releases) then IntegratePlan
      else if explicit_command then (case phase of Planning \<Rightarrow> CreatePlan | Implementation \<Rightarrow> SelectPlan)
      else ReviewWork)"

definition delivery_role :: "planner_run \<Rightarrow> bool \<Rightarrow> string list \<Rightarrow> planner_role" where
  "delivery_role run explicit_command ids =
     wake_role (run_phase run) explicit_command (bt_values (run_releases run))
       (integration_pending (run_observations run) (map work_status (bt_values (run_works run))) ids)"

section \<open>Delivering wakes\<close>

definition claim_attempt_of :: "string \<Rightarrow> wake \<Rightarrow> attempt" where
  "claim_attempt_of i w =
     \<lparr>att_id = i, att_router_pid = wake_claim_pid w, att_router_started_at_ms = wake_claim_started_at_ms w,
      att_delegate_id = None, att_ended = False\<rparr>"

definition wake_claimed :: "planner_env \<Rightarrow> string \<Rightarrow> wake \<Rightarrow> bool" where
  "wake_claimed env i w \<longleftrightarrow> wake_claim_pid w \<noteq> 0 \<and> owner_alive env (claim_attempt_of i w)"

definition claim_wake :: "planner_env \<Rightarrow> int \<Rightarrow> wake \<Rightarrow> wake" where
  "claim_wake env now w =
     w\<lparr>wake_claim_pid := fst (env_identity env), wake_claim_started_at_ms := snd (env_identity env),
       wake_deliveries := wake_deliveries w + 1, wake_retry_after := now + wake_retry_secs (wake_deliveries w + 1)\<rparr>"

definition deliverable :: "planner_env \<Rightarrow> int \<Rightarrow> string \<Rightarrow> wake \<Rightarrow> bool" where
  "deliverable env now i w \<longleftrightarrow> \<not> (wake_acknowledged w \<or> now < wake_retry_after w) \<and> \<not> wake_claimed env i w"

definition BATCH :: nat where "BATCH = 32"

fun claim_wakes :: "planner_env \<Rightarrow> int \<Rightarrow> string list \<Rightarrow> string list \<Rightarrow> (string, wake) btree \<Rightarrow> string list \<times> (string, wake) btree" where
  "claim_wakes env now [] ids wakes = (ids, wakes)"
| "claim_wakes env now (i # rest) ids wakes =
     (if \<not> is_some_and (bt_get wakes i) (deliverable env now i) then claim_wakes env now rest ids wakes
      else let wakes' = bt_modify i (claim_wake env now) wakes; ids' = ids @ [i]
           in if length ids' = BATCH then (ids', wakes') else claim_wakes env now rest ids' wakes')"

definition delivery_key :: "planner_run \<Rightarrow> string \<Rightarrow> nat" where
  "delivery_key run i =
     delivery_priority i (Option.bind (bt_get (run_wakes run) i) (\<lambda>w. map_option work_status (bt_get (run_works run) (wake_work_id w))))"

definition claim_delivery :: "planner_env \<Rightarrow> int \<Rightarrow> planner_run \<Rightarrow> string list \<times> planner_run" where
  "claim_delivery env now run =
     (if run_status run \<noteq> RunRunning \<or> run_approval_waits run \<noteq> {} then ([], run)
      else let (ids, wakes) = claim_wakes env now (sort_key (delivery_key run) (bt_keys (run_wakes run))) [] (run_wakes run)
           in (ids, run\<lparr>run_wakes := wakes\<rparr>))"

text \<open>The end of the turn: each wake this process still claims is released.\<close>

definition release_wake :: "planner_env \<Rightarrow> bool \<Rightarrow> string \<Rightarrow> wake \<Rightarrow> wake" where
  "release_wake env preempted i w =
     (if wake_claim_pid w = fst (env_identity env) \<and> wake_claim_started_at_ms w = snd (env_identity env)
      then let w1 = w\<lparr>wake_claim_pid := 0\<rparr>
           in if preempted then w1\<lparr>wake_retry_after := 0\<rparr>
              else if list_ex (starts_with i) ROUTER_WAKE_PREFIXES then w1\<lparr>wake_acknowledged := True\<rparr>
              else w1
      else w)"

definition settle_delivery :: "planner_env \<Rightarrow> bool \<Rightarrow> string list \<Rightarrow> planner_run \<Rightarrow> planner_run" where
  "settle_delivery env preempted ids run =
     run\<lparr>run_wakes := fold (\<lambda>i. bt_modify i (release_wake env preempted i)) ids (run_wakes run)\<rparr>"

definition inert_after :: "bool \<Rightarrow> bool \<Rightarrow> bool \<Rightarrow> nat \<Rightarrow> nat" where
  "inert_after preempted acted failed inert = (if preempted then inert else if \<not> acted \<and> failed then inert + 1 else 0)"

section \<open>Delivering a queued input\<close>

datatype queued_error = QueuedResolved | QueuedNotFirst | QueuedWakeMissing | QueuedOwned

definition input_wake :: "string \<Rightarrow> string" where "input_wake i = ''input:'' @ i"

definition claim_queued_input :: "planner_env \<Rightarrow> int \<Rightarrow> queued_parent_input \<Rightarrow> planner_run \<Rightarrow> queued_error + planner_run" where
  "claim_queued_input env now q run =
     (let i = input_wake (q_input_id q) in
      if is_some_and (bt_get (run_inputs run) (q_input_id q)) resolved then Inl QueuedResolved
      else if \<not> (case run_parent_queue run of [] \<Rightarrow> False | f # _ \<Rightarrow> q_input_id f = q_input_id q) then Inl QueuedNotFirst
      else case bt_get (run_wakes run) i of
             None \<Rightarrow> Inl QueuedWakeMissing
           | Some w \<Rightarrow>
               if wake_claimed env i w then Inl QueuedOwned
               else Inr (run\<lparr>run_wakes := bt_insert i
                      ((claim_wake env now w)\<lparr>wake_announced := wake_announced w \<or> \<not> human_prompt (q_request q)\<rparr>) (run_wakes run)\<rparr>))"

definition delivery_interrupted :: "queued_parent_input \<Rightarrow> bool \<Rightarrow> bool \<Rightarrow> bool \<Rightarrow> bool" where
  "delivery_interrupted q preempted stalled cancelled \<longleftrightarrow> \<not> human_prompt (q_request q) \<and> (preempted \<or> stalled \<or> cancelled)"

definition settle_queued_input :: "planner_env \<Rightarrow> queued_parent_input \<Rightarrow> bool \<Rightarrow> bool \<Rightarrow> planner_run \<Rightarrow> planner_run" where
  "settle_queued_input env q interrupted turn_ok run =
     (let i = input_wake (q_input_id q) in
      case bt_get (run_wakes run) i of
        None \<Rightarrow> run
      | Some w \<Rightarrow>
          if \<not> (wake_claim_pid w = fst (env_identity env) \<and> wake_claim_started_at_ms w = snd (env_identity env)) then run
          else let run1 = run\<lparr>run_wakes := bt_insert i (if interrupted then w\<lparr>wake_claim_pid := 0, wake_retry_after := 0\<rparr>
                                                      else w\<lparr>wake_claim_pid := 0\<rparr>) (run_wakes run)\<rparr>
               in if \<not> interrupted \<and> turn_ok \<and> (case run_parent_queue run of [] \<Rightarrow> False | f # _ \<Rightarrow> q_input_id f = q_input_id q)
                  then run1\<lparr>run_parent_queue := tl (run_parent_queue run)\<rparr> else run1)"

text \<open>When the tick delivers, and whether the turn it starts is the router's own.\<close>

definition queued_input_due :: "int \<Rightarrow> planner_run \<Rightarrow> bool" where
  "queued_input_due now run \<longleftrightarrow>
     (case run_parent_queue run of [] \<Rightarrow> False
      | q # _ \<Rightarrow> is_some_and (bt_get (run_wakes run) (input_wake (q_input_id q))) (\<lambda>w. wake_retry_after w \<le> now))"

definition tick_delivers :: "int \<Rightarrow> planner_run \<Rightarrow> bool" where
  "tick_delivers now run \<longleftrightarrow>
     run_status run \<noteq> RunSuperseded \<and> \<not> (run_parent_queue run \<noteq> [] \<and> \<not> queued_input_due now run) \<and>
     \<not> (run_approval_waits run \<noteq> {} \<or>
        \<not> queued_input_due now run \<and> (run_status run \<noteq> RunRunning \<or> \<not> bt_any (\<lambda>_ w. \<not> wake_acknowledged w) (run_wakes run)))"


definition approval_started :: "string \<Rightarrow> planner_run \<Rightarrow> planner_run" where
  "approval_started i run = run\<lparr>run_approval_waits := insert i (run_approval_waits run)\<rparr>"

definition approval_answered :: "string \<Rightarrow> planner_run \<Rightarrow> planner_run" where
  "approval_answered i run = run\<lparr>run_approval_waits := run_approval_waits run - {i}\<rparr>"

section \<open>Steering into a running turn\<close>











record session_runtime =
  rt_router_turn :: bool
  rt_command_turn :: bool
  rt_preempted :: bool
  rt_stalled :: bool
  rt_steered :: "string set"
  rt_steering :: bool
  rt_last_steer :: "int option"
  rt_turn_ends :: nat
  rt_turn_ended_at :: int
  rt_gate_seen :: nat



definition begin_router_turn :: "session_runtime \<Rightarrow> session_runtime" where
  "begin_router_turn rt = rt\<lparr>rt_router_turn := True, rt_preempted := False\<rparr>"

definition end_router_turn :: "session_runtime \<Rightarrow> session_runtime" where
  "end_router_turn rt = rt\<lparr>rt_router_turn := False, rt_preempted := False, rt_steered := {}\<rparr>"

definition parent_turn_ended :: "int \<Rightarrow> session_runtime \<Rightarrow> session_runtime" where
  "parent_turn_ended now rt =
     (let rt1 = rt\<lparr>rt_turn_ends := rt_turn_ends rt + 1, rt_turn_ended_at := now\<rparr>
      in if rt_command_turn rt1 then rt1\<lparr>rt_command_turn := False, rt_steered := {}\<rparr> else rt1)"

definition take_stalled :: "session_runtime \<Rightarrow> bool \<times> session_runtime" where
  "take_stalled rt = (rt_stalled rt, rt\<lparr>rt_stalled := False\<rparr>)"




definition steer_finished :: "bool \<Rightarrow> string \<Rightarrow> session_runtime \<Rightarrow> session_runtime" where
  "steer_finished injected key rt =
     (let rt1 = rt\<lparr>rt_steering := False\<rparr>
      in if injected \<and> (rt_router_turn rt1 \<or> rt_command_turn rt1) then rt1\<lparr>rt_steered := insert key (rt_steered rt1)\<rparr> else rt1)"

definition steer_abandoned :: "session_runtime \<Rightarrow> session_runtime" where
  "steer_abandoned rt = rt\<lparr>rt_steering := False, rt_last_steer := None\<rparr>"

section \<open>Heartbeat and parked runs\<close>

definition audit_findings :: "planner_run \<Rightarrow> (string \<times> string) list" where
  "audit_findings run =
     (case cap_audit (run_capacity run) of
        None \<Rightarrow> []
      | Some a \<Rightarrow> if \<not> au_ok a then [(''audit host UNAVAILABLE'', unwrap_or (au_error a) ''no answer'')]
                  else map (\<lambda>d. (df_code d, df_detail d)) (au_defects a))"

definition audit_open :: "planner_run \<Rightarrow> bool" where
  "audit_open run \<longleftrightarrow> audit_findings run \<noteq> []"

definition HEARTBEAT_SECS :: int where "HEARTBEAT_SECS = 20 * 60"

definition heartbeat_wake :: "string \<Rightarrow> string \<Rightarrow> planner_run \<Rightarrow> planner_run" where
  "heartbeat_wake uuid reason run =
     (if bt_any (\<lambda>_ w. \<not> wake_acknowledged w) (run_wakes run) then run
      else put_wake (''heartbeat:'' @ uuid) (wake_default\<lparr>wake_reason := reason\<rparr>) (run\<lparr>run_idle_heartbeats := run_idle_heartbeats run + 1\<rparr>))"

definition parent_heartbeat :: "planner_env \<Rightarrow> string \<Rightarrow> string \<Rightarrow> bool \<Rightarrow> int option \<Rightarrow> int \<Rightarrow> planner_run \<Rightarrow> planner_run" where
  "parent_heartbeat env uuid reason busy last_activity now run =
     (if run_status run \<noteq> RunRunning \<or> run_phase run \<noteq> Implementation \<or> human_hold run \<noteq> None \<or> run_approval_waits run \<noteq> {} \<or>
         run_parent_queue run \<noteq> [] \<or> bt_any (\<lambda>_ w. \<not> wake_acknowledged w) (run_wakes run) \<or> supersedes_heartbeat env run (now * 1000)
      then run
      else if env_delegate_limit env \<le> live_workers run \<and> \<not> audit_open run then run\<lparr>run_idle_heartbeats := 0\<rparr>
      else if busy then run
      else case last_activity of
             None \<Rightarrow> run
           | Some at0 \<Rightarrow> if now - at0 < HEARTBEAT_SECS then run else heartbeat_wake uuid reason run)"

datatype parked_reason = HumanHold string string | ApprovalWaits nat "string list" | UndeliveredInput string

definition parked_reason_of :: "planner_run \<Rightarrow> parked_reason option" where
  "parked_reason_of run =
     (if run_status run \<noteq> RunRunning \<or> run_phase run \<noteq> Implementation then None
      else case human_hold run of
             Some h \<Rightarrow> Some (HumanHold (hold_plan_id h) (hold_detail h))
           | None \<Rightarrow> if run_approval_waits run \<noteq> {} then Some (ApprovalWaits (card (run_approval_waits run)) (take 3 (sorted_list_of_set (run_approval_waits run))))
                     else case run_parent_queue run of q # _ \<Rightarrow> Some (UndeliveredInput (q_input_id q)) | [] \<Rightarrow> None)"

record parked =
  pk_reason :: parked_reason
  pk_since :: int
  pk_last_notice :: int

definition PARKED_NOTICE_SECS :: int where "PARKED_NOTICE_SECS = 10 * 60"
definition PARKED_REPEAT_SECS :: int where "PARKED_REPEAT_SECS = 30 * 60"

text \<open>The state of the notice, and the notice to give now. The argument \<open>idle_since\<close> is None for a busy or unloaded parent.\<close>

definition parked_notice :: "planner_run \<Rightarrow> int option \<Rightarrow> int \<Rightarrow> parked option \<Rightarrow> parked option \<times> parked option" where
  "parked_notice run idle_since now state =
     (case parked_reason_of run of
        None \<Rightarrow> (None, None)
      | Some reason \<Rightarrow>
          (case idle_since of
             None \<Rightarrow> (state, None)
           | Some last_at \<Rightarrow>
               (let fresh = (if now - last_at < PARKED_NOTICE_SECS then (state, None)
                             else let p = \<lparr>pk_reason = reason, pk_since = last_at, pk_last_notice = now\<rparr> in (Some p, Some p))
                in case state of
                     Some p \<Rightarrow>
                       if pk_reason p = reason
                       then (if now - pk_last_notice p < PARKED_REPEAT_SECS then (state, None)
                             else let p1 = p\<lparr>pk_last_notice := now\<rparr> in (Some p1, Some p1))
                       else fresh
                   | None \<Rightarrow> fresh)))"

section \<open>Audit wakes and the turn-end gate\<close>

definition GATE_BACKOFF_SECS :: "int list" where "GATE_BACKOFF_SECS = [0, 30, 120, 300]"

definition session_wake :: "string \<Rightarrow> string \<Rightarrow> string \<Rightarrow> string \<Rightarrow> planner_run \<Rightarrow> planner_run" where
  "session_wake prefix uuid sid reason run = put_wake (prefix @ uuid) (wake_default\<lparr>wake_reason := reason, wake_work_id := sid\<rparr>) run"

definition audit_due :: "int \<Rightarrow> int \<Rightarrow> int \<Rightarrow> planner_run \<Rightarrow> bool" where
  "audit_due interval_secs now ended_at run \<longleftrightarrow>
     is_none_or (cap_audit (run_capacity run)) (\<lambda>a. interval_secs * 1000 \<le> now * 1000 - au_at_ms a \<or> au_at_ms a < ended_at * 1000)"

definition record_audit :: "string \<Rightarrow> (string \<Rightarrow> observation \<Rightarrow> string) \<Rightarrow> int \<Rightarrow> (string, audit_reply) result \<Rightarrow> planner_run \<Rightarrow> planner_run" where
  "record_audit sid prose now answer run =
     (let observations = (case answer of Inr reply \<Rightarrow> ar_observations reply | Inl _ \<Rightarrow> []);
          snapshot = (case answer of
              Inr reply \<Rightarrow> \<lparr>au_at_ms = now * 1000, au_ok = True, au_error = None, au_defects = ar_defects reply,
                            au_observed = set (bt_keys (ar_observations reply)), au_completed_guides = ar_completed_guides reply\<rparr>
            | Inl e \<Rightarrow> \<lparr>au_at_ms = now * 1000, au_ok = False, au_error = Some e, au_defects = [], au_observed = {}, au_completed_guides = None\<rparr>);
          run1 = record_observations sid prose observations run;
          run2 = (if run_completed_guides_at_start run1 = None
                  then run1\<lparr>run_completed_guides_at_start := au_completed_guides snapshot\<rparr> else run1)
      in upd_capacity (\<lambda>c. c\<lparr>cap_audit := Some snapshot\<rparr>) run2)"

definition audit_wake ::
  "planner_env \<Rightarrow> string \<Rightarrow> string \<Rightarrow> (planner_run \<Rightarrow> string) \<Rightarrow> int \<Rightarrow> bool \<Rightarrow> int \<Rightarrow> int \<Rightarrow> planner_run \<Rightarrow> planner_run" where
  "audit_wake env sid uuid prose wait busy now last_at run =
     (if env_audit_host env = None then run
      else let release_audit = failed_environment (run_observations run);
               run1 = (if \<not> release_audit \<and> pending_wake run ''audit:release:''
                       then run\<lparr>run_wakes := bt_map (\<lambda>i w. if starts_with i ''audit:release:'' then w\<lparr>wake_acknowledged := True\<rparr> else w) (run_wakes run)\<rparr>
                       else run)
           in if audit_findings run = [] then (if pending_wake run ''audit:'' then ack_router_wakes ''audit:'' run1 else run1)
              else let prefix = (if release_audit then ''audit:release:'' else ''audit:'');
                       since = (if release_audit then cap_last_audit_wake_at (run_capacity run)
                                else max last_at (cap_last_audit_wake_at (run_capacity run)))
                   in if pending_wake run prefix \<or> \<not> release_audit \<and> pending_wake run ''gate:'' \<or> now - since < wait then run1
                      else if release_audit \<and> busy \<and> bt_any (\<lambda>i w. starts_with i prefix \<and> wake_reason w = prose run) (run_wakes run) then run1
                      else if pending_wake run1 prefix then run1
                      else session_wake prefix uuid sid (prose run)
                             (upd_capacity (\<lambda>c. c\<lparr>cap_last_audit_wake_at := now\<rparr>) run1))"

definition gate_unheld :: "planner_env \<Rightarrow> planner_run \<Rightarrow> int \<Rightarrow> candidate_work list" where
  "gate_unheld env run now =
     (if 0 < snd (snd (slots env run)) \<and> cap_pending_adoption (run_capacity run) = None \<and> human_hold run = None
      then unheld_candidates run (now * 1000) else [])"

definition gate_tick ::
  "planner_env \<Rightarrow> string \<Rightarrow> string \<Rightarrow> (planner_run \<Rightarrow> string) \<Rightarrow> int \<Rightarrow> session_runtime \<Rightarrow> planner_run \<Rightarrow> session_runtime \<times> planner_run" where
  "gate_tick env sid uuid prose now rt run =
     (if rt_turn_ends rt = 0 \<or> rt_turn_ends rt \<le> rt_gate_seen rt then (rt, run)
      else if env_audit_host env \<noteq> None \<and> is_none_or (cap_audit (run_capacity run)) (\<lambda>a. au_at_ms a < rt_turn_ended_at rt * 1000) then (rt, run)
      else let judged = rt\<lparr>rt_gate_seen := rt_turn_ends rt\<rparr>;
               count = gate_count (cap_gate (run_capacity run));
               pause = GATE_BACKOFF_SECS ! min count (length GATE_BACKOFF_SECS - 1)
           in if audit_findings run = [] \<and> gate_unheld env run now = []
              then (judged, if count \<noteq> 0 then upd_capacity (\<lambda>c. c\<lparr>cap_gate := (cap_gate c)\<lparr>gate_count := 0\<rparr>\<rparr>) run else run)
              else if now < rt_turn_ended_at rt + pause \<or> pending_wake run ''gate:'' then (rt, run)
              else (judged, session_wake ''gate:'' uuid sid (prose run)
                      (upd_capacity (\<lambda>c. c\<lparr>cap_gate := \<lparr>gate_count = count + 1, gate_last_at = now\<rparr>\<rparr>) run)))"

section \<open>The batch of a delivery\<close>

abbreviation due_in :: "planner_env \<Rightarrow> int \<Rightarrow> (string, wake) btree \<Rightarrow> string \<Rightarrow> bool" where
  "due_in env now wakes i \<equiv> is_some_and (bt_get wakes i) (deliverable env now i)"

lemma claim_wakes_exact:
  assumes "claim_wakes env now js ids wakes = (ids', wakes')" and "distinct js" and "length ids < BATCH"
  shows "ids' = ids @ take (BATCH - length ids) (filter (due_in env now wakes) js) \<and>
    (\<forall>i. bt_get wakes' i = (if i \<in> set (take (BATCH - length ids) (filter (due_in env now wakes) js))
       then map_option (claim_wake env now) (bt_get wakes i) else bt_get wakes i)) \<and> bt_keys wakes' = bt_keys wakes"
  using assms
proof (induction env now js ids wakes rule: claim_wakes.induct)
  case (2 env now i rest ids wakes)
  show ?case
  proof (cases "due_in env now wakes i")
    case False
    then show ?thesis using 2 by simp
  next
    case True
    let ?w = "bt_modify i (claim_wake env now) wakes"
    have rest: "filter (due_in env now ?w) rest = filter (due_in env now wakes) rest"
      by (rule filter_cong [OF refl]) (use 2(4) in auto)
    obtain n where n: "BATCH - length ids = Suc n" using 2(5) by (cases "BATCH - length ids") auto
    show ?thesis
    proof (cases "length ids + 1 = BATCH")
      case last: True
      then have "n = 0" using n by simp
      then show ?thesis using 2(3) True last n by auto
    next
      case more: False
      have c: "claim_wakes env now rest (ids @ [i]) ?w = (ids', wakes')" using 2(3) True more by (simp add: Let_def)
      have n': "BATCH - length (ids @ [i]) = n" using n by simp
      have len: "length (ids @ [i]) < BATCH" using more 2(5) by simp
      have "ids' = (ids @ [i]) @ take (BATCH - length (ids @ [i])) (filter (due_in env now ?w) rest) \<and>
          (\<forall>j. bt_get wakes' j = (if j \<in> set (take (BATCH - length (ids @ [i])) (filter (due_in env now ?w) rest))
             then map_option (claim_wake env now) (bt_get ?w j) else bt_get ?w j)) \<and> bt_keys wakes' = bt_keys ?w"
        by (rule 2(2) [OF _ refl refl _ c _ len]) (use True more 2(4) in simp_all)
      note ih = this [unfolded rest n']
      have "i \<notin> set (take n (filter (due_in env now wakes) rest))" using 2(4) by (auto dest: in_set_takeD)
      then show ?thesis using ih True n by auto
    qed
  qed
qed simp

definition delivery_open :: "planner_run \<Rightarrow> bool" where
  "delivery_open run \<longleftrightarrow> run_status run = RunRunning \<and> run_approval_waits run = {}"

lemma take_sorted_least:
  assumes "sorted_wrt (\<lambda>a b. f a \<le> f b) xs" and "a \<in> set (take n xs)" and "b \<in> set xs" and "b \<notin> set (take n xs)"
  shows "(f a :: nat) \<le> f b"
proof -
  have "b \<in> set (drop n xs)" using assms(3,4) by (metis Un_iff append_take_drop_id set_append)
  moreover have "sorted_wrt (\<lambda>a b. f a \<le> f b) (take n xs @ drop n xs)" using assms(1) by simp
  ultimately show ?thesis using assms(2) unfolding sorted_wrt_append by blast
qed

lemma claim_delivery_exact:
  assumes "claim_delivery env now run = (ids, run')" and "bt_wf (run_wakes run)"
  shows "\<exists>wakes'. run' = run\<lparr>run_wakes := wakes'\<rparr>" and "\<not> delivery_open run \<Longrightarrow> ids = [] \<and> run' = run"
    and "delivery_open run \<Longrightarrow> ids = take 32 (filter (due_in env now (run_wakes run)) (sort_key (delivery_key run) (bt_keys (run_wakes run))))"
    and "distinct ids" and "i \<in> set ids \<Longrightarrow> due_in env now (run_wakes run) i"
    and "bt_get (run_wakes run') i = (if i \<in> set ids then map_option (claim_wake env now) (bt_get (run_wakes run) i) else bt_get (run_wakes run) i)"
proof -
  let ?js = "sort_key (delivery_key run) (bt_keys (run_wakes run))" let ?due = "filter (due_in env now (run_wakes run)) ?js"
  have dist: "distinct ?js" using assms(2) by (simp add: bt_wf_def strict_sorted_iff)
  have closed: "ids = [] \<and> run' = run" if "\<not> delivery_open run" using assms(1) that by (auto simp: claim_delivery_def delivery_open_def)
  have opened: "\<exists>wakes'. run' = run\<lparr>run_wakes := wakes'\<rparr> \<and> ids = take 32 ?due \<and>
      (\<forall>i. bt_get wakes' i = (if i \<in> set ids then map_option (claim_wake env now) (bt_get (run_wakes run) i) else bt_get (run_wakes run) i))"
    if d: "delivery_open run"
  proof -
    obtain wakes' where c: "claim_wakes env now ?js [] (run_wakes run) = (ids, wakes')" and run': "run' = run\<lparr>run_wakes := wakes'\<rparr>"
      using assms(1) d by (auto simp: claim_delivery_def delivery_open_def split: prod.splits)
    from claim_wakes_exact [OF c dist] show ?thesis by (intro exI [of _ wakes'] conjI run') (simp_all add: BATCH_def)
  qed
  show "\<exists>wakes'. run' = run\<lparr>run_wakes := wakes'\<rparr>"
  proof (cases "delivery_open run")
    case True
    then show ?thesis using opened by blast
  next
    case False
    then have "run' = run" using closed by blast
    then show ?thesis by (intro exI [of _ "run_wakes run"]) simp
  qed
  show "\<not> delivery_open run \<Longrightarrow> ids = [] \<and> run' = run" by (rule closed)
  show opn: "delivery_open run \<Longrightarrow> ids = take 32 ?due" using opened by blast
  show "distinct ids"
  proof (cases "delivery_open run")
    case True
    show ?thesis unfolding opn [OF True] using dist by (intro distinct_take distinct_filter)
  qed (use closed in simp)
  show "due_in env now (run_wakes run) i" if "i \<in> set ids"
  proof (cases "delivery_open run")
    case True
    have "i \<in> set ?due" using that unfolding opn [OF True] by (rule in_set_takeD)
    then show ?thesis by simp
  qed (use closed that in simp)
  show "bt_get (run_wakes run') i = (if i \<in> set ids then map_option (claim_wake env now) (bt_get (run_wakes run) i) else bt_get (run_wakes run) i)"
  proof (cases "delivery_open run")
    case True
    from opened [OF True] show ?thesis by (elim exE conjE) simp
  qed (use closed in simp)
qed

text \<open>
  C14. The batch of a delivery. It claims nothing unless the run is running and no approval is
  awaited. Then it takes at most thirty-two distinct wakes, in the order of their priority, each
  unacknowledged, due and not claimed by a living process; it marks exactly these as claimed by
  this process, counts the delivery and sets the retry; a wake that could be delivered is left out
  only by a full batch of wakes that do not come after it. Nothing else of the run changes.
\<close>
theorem wake_batch_sound:
  assumes "claim_delivery env now run = (ids, run')" and "bt_wf (run_wakes run)"
  shows "(\<exists>wakes'. run' = run\<lparr>run_wakes := wakes'\<rparr>) \<and> (\<not> delivery_open run \<longrightarrow> ids = [] \<and> run' = run) \<and>
    distinct ids \<and> length ids \<le> 32 \<and> sorted (map (delivery_key run) ids) \<and>
    (\<forall>i w. bt_get (run_wakes run) i = Some w \<longrightarrow>
       (if i \<in> set ids then deliverable env now i w \<and> bt_get (run_wakes run') i = Some (claim_wake env now w)
        else bt_get (run_wakes run') i = Some w \<and>
          (delivery_open run \<and> deliverable env now i w \<longrightarrow> length ids = 32 \<and> (\<forall>j \<in> set ids. delivery_key run j \<le> delivery_key run i))))"
proof -
  let ?due = "filter (due_in env now (run_wakes run)) (sort_key (delivery_key run) (bt_keys (run_wakes run)))"
  note exact = claim_delivery_exact [OF assms]
  have sorted: "sorted_wrt (\<lambda>a b. delivery_key run a \<le> delivery_key run b) ?due"
    by (rule sorted_wrt_filter) (use sorted_sort_key [of "delivery_key run"] in \<open>simp add: sorted_wrt_map\<close>)
  have "length ids \<le> 32 \<and> sorted (map (delivery_key run) ids)"
  proof (cases "delivery_open run")
    case True
    show ?thesis unfolding exact(3) [OF True] using sorted by (simp add: sorted_wrt_map sorted_wrt_take)
  qed (use exact(2) in simp)
  moreover have "deliverable env now i w" if "bt_get (run_wakes run) i = Some w" "i \<in> set ids" for i w
    using exact(5) [OF that(2)] that(1) by (simp add: is_some_and_iff)
  moreover have "length ids = 32 \<and> (\<forall>j \<in> set ids. delivery_key run j \<le> delivery_key run i)"
    if w: "bt_get (run_wakes run) i = Some w" "i \<notin> set ids" "deliverable env now i w" "delivery_open run" for i w
  proof -
    have ids: "ids = take 32 ?due" by (rule exact(3) [OF w(4)])
    have "i \<in> set (bt_keys (run_wakes run))" using bt_mem_get [OF w(1)] by (force simp: image_iff)
    then have i: "i \<in> set ?due" using w(1,3) by (simp add: is_some_and_iff)
    have out: "i \<notin> set (take 32 ?due)" using w(2) unfolding ids .
    then have "32 < length ?due" using i by (metis linorder_not_less take_all)
    then have "length ids = 32" unfolding ids by simp
    moreover have "\<forall>j \<in> set ids. delivery_key run j \<le> delivery_key run i"
      unfolding ids by (intro ballI take_sorted_least [OF sorted _ i out])
    ultimately show ?thesis ..
  qed
  ultimately show ?thesis using exact(1,2,4) exact(6) by simp
qed

section \<open>Wakes are delivered again until acknowledged\<close>

lemma retry_bounds: "30 \<le> wake_retry_secs n \<and> wake_retry_secs n \<le> 300"
proof -
  have "min (n - 1) 2 = 0 \<or> min (n - 1) 2 = 1 \<or> min (n - 1) 2 = 2" by auto
  then show ?thesis by (auto simp: wake_retry_secs_def)
qed

lemma release_wake_idem: "release_wake env preempted i (release_wake env preempted i (claim_wake env t w)) = release_wake env preempted i (claim_wake env t w)"
  by (auto simp: release_wake_def claim_wake_def Let_def)

lemma fold_modify_get:
  "distinct ids \<Longrightarrow> bt_get (fold (\<lambda>i. bt_modify i (f i)) ids m) j = (if j \<in> set ids then map_option (f j) (bt_get m j) else bt_get m j)"
proof (induction ids arbitrary: m)
  case (Cons i ids)
  then show ?case by (cases "j = i") auto
qed simp

text \<open>
  C36. Wakes are never dropped by a delivery. Let the batch be claimed, and let the run change in
  any way while the turn works on it, the parent acknowledging wakes and others taking claims
  over included. The end of the turn leaves every wake outside the batch, and one whose claim is
  no longer this process's, as it is by then. Any other wake of the batch is released, with its
  deliveries as they are: it is
  acknowledged when it was by then, or when the router recreates such wakes itself and the turn was
  not cancelled, and otherwise it stays open. An open one is due at once when the turn was
  cancelled for operator input or by the watchdog; and else, unless its retry time was changed
  meanwhile, it is deliverable within five minutes of its delivery and not before half a minute.
\<close>
theorem wake_redelivered:
  assumes "claim_delivery env now run = (ids, run')" and "bt_wf (run_wakes run)" and "bt_get (run_wakes run) i = Some w"
    and "bt_get (run_wakes run2) i = Some w1"
  shows "\<exists>w2. bt_get (run_wakes (settle_delivery env preempted ids run2)) i = Some w2 \<and>
    (i \<in> set ids \<longrightarrow> bt_get (run_wakes run') i = Some (claim_wake env now w)) \<and>
    (if i \<in> set ids \<and> wake_claim_pid w1 = fst (env_identity env) \<and> wake_claim_started_at_ms w1 = snd (env_identity env)
     then wake_claim_pid w2 = 0 \<and> wake_deliveries w2 = wake_deliveries w1 \<and>
       wake_acknowledged w2 = (wake_acknowledged w1 \<or> \<not> preempted \<and> list_ex (starts_with i) ROUTER_WAKE_PREFIXES) \<and>
       (\<not> wake_acknowledged w2 \<longrightarrow>
          (if preempted then \<forall>later \<ge> 0. deliverable env later i w2
           else wake_retry_after w1 = wake_retry_after (claim_wake env now w) \<longrightarrow>
             (\<forall>later \<ge> now + 300. deliverable env later i w2) \<and> (\<forall>early < now + 30. \<not> deliverable env early i w2)))
     else w2 = w1)"
proof -
  note exact = claim_delivery_exact [OF assms(1,2)]
  define w2 where "w2 = (if i \<in> set ids then release_wake env preempted i w1 else w1)"
  have claimed: "i \<in> set ids \<longrightarrow> bt_get (run_wakes run') i = Some (claim_wake env now w)" using exact(6) [of i] assms(3) by simp
  have get: "bt_get (run_wakes (settle_delivery env preempted ids run2)) i = Some w2"
    by (simp add: settle_delivery_def fold_modify_get [OF exact(4)] assms(4) w2_def)
  have retry: "wake_retry_after (claim_wake env now w) = now + wake_retry_secs (wake_deliveries w + 1)"
    by (simp add: claim_wake_def)
  have "if i \<in> set ids \<and> wake_claim_pid w1 = fst (env_identity env) \<and> wake_claim_started_at_ms w1 = snd (env_identity env)
     then wake_claim_pid w2 = 0 \<and> wake_deliveries w2 = wake_deliveries w1 \<and>
       wake_acknowledged w2 = (wake_acknowledged w1 \<or> \<not> preempted \<and> list_ex (starts_with i) ROUTER_WAKE_PREFIXES) \<and>
       (preempted \<longrightarrow> wake_retry_after w2 = 0) \<and> (\<not> preempted \<longrightarrow> wake_retry_after w2 = wake_retry_after w1)
     else w2 = w1"
    by (auto simp: w2_def release_wake_def Let_def)
  then show ?thesis
    using get claimed retry retry_bounds [of "wake_deliveries w + 1"]
    by (intro exI [of _ w2]) (auto simp: deliverable_def wake_claimed_def)
qed

section \<open>Queued inputs go first and in order\<close>

lemma queued_claimed:
  assumes "claim_queued_input env now q run = Inr run'"
  obtains w where "bt_get (run_wakes run) (input_wake (q_input_id q)) = Some w" "\<not> wake_claimed env (input_wake (q_input_id q)) w"
    "run' = run\<lparr>run_wakes := bt_insert (input_wake (q_input_id q))
       ((claim_wake env now w)\<lparr>wake_announced := wake_announced w \<or> \<not> human_prompt (q_request q)\<rparr>) (run_wakes run)\<rparr>"
    "\<not> is_some_and (bt_get (run_inputs run) (q_input_id q)) resolved"
    "\<exists>f rest. run_parent_queue run = f # rest \<and> q_input_id f = q_input_id q"
  using assms by (auto simp: claim_queued_input_def Let_def split: if_splits option.splits list.splits)

text \<open>
  C16. Queued inputs are delivered one at a time and in order. A delivery claims the input only when
  it is first in the queue, not resolved, and its wake is there and not claimed by a living process,
  and a second
  delivery is then refused to every process that sees this one alive. Claiming leaves the queue as
  it is. The end of the delivery removes exactly the first entry, this input, and only when the turn
  gave no error, the claim is still this process's and, for an agent's message, the turn was not
  preempted, stalled or cancelled; an operator's prompt leaves the queue when its turn is cancelled,
  too. In every other case it leaves the queue as it is by then.
\<close>
theorem queued_input_in_order:
  assumes "claim_queued_input env now q run = Inr run1"
  shows "(\<exists>f rest. run_parent_queue run = f # rest \<and> q_input_id f = q_input_id q) \<and> run_parent_queue run1 = run_parent_queue run \<and>
    \<not> is_some_and (bt_get (run_inputs run) (q_input_id q)) resolved \<and>
    (\<exists>w. bt_get (run_wakes run) (input_wake (q_input_id q)) = Some w \<and> \<not> wake_claimed env (input_wake (q_input_id q)) w) \<and>
    (\<forall>env2 now2 q2. q_input_id q2 = q_input_id q \<and> fst (env_identity env) \<noteq> 0 \<and>
       (\<forall>a. att_router_pid a = fst (env_identity env) \<and> att_router_started_at_ms a = snd (env_identity env) \<longrightarrow> owner_alive env2 a) \<longrightarrow>
       claim_queued_input env2 now2 q2 run1 = Inl QueuedOwned) \<and>
    (\<forall>run2 preempted stalled cancelled turn_ok.
       run_parent_queue (settle_queued_input env q (delivery_interrupted q preempted stalled cancelled) turn_ok run2) =
       (if turn_ok \<and> (human_prompt (q_request q) \<or> \<not> preempted \<and> \<not> stalled \<and> \<not> cancelled) \<and>
          (\<exists>f rest. run_parent_queue run2 = f # rest \<and> q_input_id f = q_input_id q) \<and>
          (\<exists>w. bt_get (run_wakes run2) (input_wake (q_input_id q)) = Some w \<and>
             wake_claim_pid w = fst (env_identity env) \<and> wake_claim_started_at_ms w = snd (env_identity env))
        then tl (run_parent_queue run2) else run_parent_queue run2))"
proof -
  obtain w where w: "bt_get (run_wakes run) (input_wake (q_input_id q)) = Some w"
    and free: "\<not> wake_claimed env (input_wake (q_input_id q)) w"
    and run1: "run1 = run\<lparr>run_wakes := bt_insert (input_wake (q_input_id q))
       ((claim_wake env now w)\<lparr>wake_announced := wake_announced w \<or> \<not> human_prompt (q_request q)\<rparr>) (run_wakes run)\<rparr>"
    and open_input: "\<not> is_some_and (bt_get (run_inputs run) (q_input_id q)) resolved"
    and first: "\<exists>f rest. run_parent_queue run = f # rest \<and> q_input_id f = q_input_id q"
    using queued_claimed [OF assms] by metis
  have second: "claim_queued_input env2 now2 q2 run1 = Inl QueuedOwned"
    if "q_input_id q2 = q_input_id q" "fst (env_identity env) \<noteq> 0"
      "\<forall>a. att_router_pid a = fst (env_identity env) \<and> att_router_started_at_ms a = snd (env_identity env) \<longrightarrow> owner_alive env2 a" for env2 now2 q2
    using that first open_input by (auto simp: claim_queued_input_def run1 wake_claimed_def claim_wake_def claim_attempt_of_def Let_def)
  have settle: "run_parent_queue (settle_queued_input env q (delivery_interrupted q preempted stalled cancelled) turn_ok run2) =
       (if turn_ok \<and> (human_prompt (q_request q) \<or> \<not> preempted \<and> \<not> stalled \<and> \<not> cancelled) \<and> (\<exists>f rest. run_parent_queue run2 = f # rest \<and> q_input_id f = q_input_id q) \<and>
          (\<exists>w. bt_get (run_wakes run2) (input_wake (q_input_id q)) = Some w \<and>
             wake_claim_pid w = fst (env_identity env) \<and> wake_claim_started_at_ms w = snd (env_identity env))
        then tl (run_parent_queue run2) else run_parent_queue run2)" for run2 preempted stalled cancelled turn_ok
    by (cases "bt_get (run_wakes run2) (input_wake (q_input_id q))"; cases "run_parent_queue run2")
      (auto simp: settle_queued_input_def delivery_interrupted_def Let_def)
  show ?thesis
  proof (intro conjI)
    show "\<exists>w. bt_get (run_wakes run) (input_wake (q_input_id q)) = Some w \<and> \<not> wake_claimed env (input_wake (q_input_id q)) w"
      using w free by blast
  qed (use first open_input second settle in \<open>simp_all add: run1\<close>)
qed

section \<open>What is steered, and when\<close>





section \<open>A parked run is visible\<close>

text \<open>
  No silent stop. A running implementation that holds an undelivered wake and that the tick
  does not deliver to has a reason that waits on a person, and so does one the heartbeat passes over
  for a hold, an approval or a queued prompt. While it has one and the parent is idle, the operator
  is told: a tick that says nothing comes within ten minutes of the last activity or within thirty
  minutes of telling the same reason.
\<close>
lemma parked_run_visible:
  assumes "run_status run = RunRunning" and "run_phase run = Implementation"
  shows "(bt_any (\<lambda>_ w. \<not> wake_acknowledged w) (run_wakes run) \<and> \<not> tick_delivers now run \<longrightarrow> parked_reason_of run \<noteq> None) \<and>
    (human_hold run \<noteq> None \<or> run_approval_waits run \<noteq> {} \<or> run_parent_queue run \<noteq> [] \<longleftrightarrow> parked_reason_of run \<noteq> None) \<and>
    (parked_reason_of run \<noteq> None \<and> snd (parked_notice run (Some last_at) now state) = None \<longrightarrow>
       now < last_at + 600 \<or> (\<exists>p. state = Some p \<and> Some (pk_reason p) = parked_reason_of run \<and> now < pk_last_notice p + 1800)) \<and>
    (\<forall>p. snd (parked_notice run (Some last_at) now state) = Some p \<longrightarrow>
       Some (pk_reason p) = parked_reason_of run \<and> pk_last_notice p = now \<and> fst (parked_notice run (Some last_at) now state) = Some p)"
proof -
  have waits: "human_hold run \<noteq> None \<or> run_approval_waits run \<noteq> {} \<or> run_parent_queue run \<noteq> [] \<longleftrightarrow> parked_reason_of run \<noteq> None"
    using assms by (auto simp: parked_reason_of_def split: option.split list.split)
  have "parked_reason_of run \<noteq> None" if "bt_any (\<lambda>_ w. \<not> wake_acknowledged w) (run_wakes run)" "\<not> tick_delivers now run"
    using that assms(1) unfolding waits [symmetric] by (auto simp: tick_delivers_def)
  moreover have "now < last_at + 600 \<or> (\<exists>p. state = Some p \<and> Some (pk_reason p) = parked_reason_of run \<and> now < pk_last_notice p + 1800)"
    if "parked_reason_of run = Some r" "snd (parked_notice run (Some last_at) now state) = None" for r
    using that by (cases state) (auto simp: parked_notice_def PARKED_NOTICE_SECS_def PARKED_REPEAT_SECS_def Let_def split: if_splits)
  moreover have "Some (pk_reason p) = parked_reason_of run \<and> pk_last_notice p = now \<and> fst (parked_notice run (Some last_at) now state) = Some p"
    if "snd (parked_notice run (Some last_at) now state) = Some p" for p
    using that by (cases state; cases "parked_reason_of run") (auto simp: parked_notice_def Let_def split: if_splits)
  ultimately show ?thesis using waits by blast
qed

section \<open>The invariant of the run\<close>

lemma run_ok_set_wakes: "run_ok run \<Longrightarrow> bt_keys wakes = bt_keys (run_wakes run) \<Longrightarrow> run_ok (run\<lparr>run_wakes := wakes\<rparr>)"
  by (simp add: run_ok_def run_wf_def bt_wf_def)

lemma claim_wakes_keys: "bt_keys (snd (claim_wakes env now js ids wakes)) = bt_keys wakes"
  by (induction env now js ids wakes rule: claim_wakes.induct) (simp_all add: Let_def)

lemma fold_modify_keys: "bt_keys (fold (\<lambda>i. bt_modify i (f i)) ids m) = bt_keys m"
  by (induction ids arbitrary: m) simp_all

lemma claim_delivery_keeps: "run_ok run \<Longrightarrow> run_ok (snd (claim_delivery env now run))"
  using claim_wakes_keys [of env now _ "[]" "run_wakes run"] by (simp add: claim_delivery_def run_ok_set_wakes split_beta Let_def)

lemma settle_delivery_keeps: "run_ok run \<Longrightarrow> run_ok (settle_delivery env preempted ids run)"
  by (simp add: settle_delivery_def run_ok_set_wakes fold_modify_keys)

lemma run_ok_insert_wake: "run_ok run \<Longrightarrow> run_ok (run\<lparr>run_wakes := bt_insert i w (run_wakes run)\<rparr>)"
  using run_ok_put_wake by (simp add: put_wake_def)

lemma claim_queued_keeps: "run_ok run \<Longrightarrow> claim_queued_input env now q run = Inr run' \<Longrightarrow> run_ok run'"
  by (auto elim!: queued_claimed intro: run_ok_insert_wake)

lemma settle_queued_keeps: "run_ok run \<Longrightarrow> run_ok (settle_queued_input env q interrupted turn_ok run)"
  by (auto simp: settle_queued_input_def Let_def intro: run_ok_insert_wake split: option.split)

lemma approvals_keep: "run_ok run \<Longrightarrow> run_ok (approval_started i run)" "run_ok run \<Longrightarrow> run_ok (approval_answered i run)"
  by (simp_all add: approval_started_def approval_answered_def)

lemma heartbeat_keeps: "run_ok run \<Longrightarrow> run_ok (parent_heartbeat env uuid reason busy last_activity now run)"
  by (auto simp: parent_heartbeat_def heartbeat_wake_def run_ok_put_wake split: option.split)

lemma run_ok_upd_capacity:
  "run_ok run \<Longrightarrow> cap_holds (f (run_capacity run)) = cap_holds (run_capacity run) \<Longrightarrow>
   cap_resumes (f (run_capacity run)) = cap_resumes (run_capacity run) \<Longrightarrow> run_ok (upd_capacity f run)"
  by (simp add: run_ok_def run_wf_def upd_capacity_def)

lemma session_wake_keeps:
  "run_ok run \<Longrightarrow> cap_holds (f (run_capacity run)) = cap_holds (run_capacity run) \<Longrightarrow>
   cap_resumes (f (run_capacity run)) = cap_resumes (run_capacity run) \<Longrightarrow> run_ok (session_wake prefix uuid sid reason (upd_capacity f run))"
  by (simp add: session_wake_def run_ok_put_wake run_ok_upd_capacity)

lemma audit_wake_keeps: "run_ok run \<Longrightarrow> run_ok (audit_wake env sid uuid prose wait busy now last_at run)"
  by (simp add: audit_wake_def Let_def ack_router_wakes_def run_ok_set_wakes bt_keys_map session_wake_keeps)

lemma gate_tick_keeps: "run_ok run \<Longrightarrow> run_ok (snd (gate_tick env sid uuid prose now rt run))"
  by (simp add: gate_tick_def Let_def session_wake_keeps run_ok_upd_capacity)

section \<open>Witnesses\<close>

definition agent_request :: prompt_request where
  "agent_request = \<lparr>req_session_id = ''s'', req_prompt = [TextBlock ''fix it''],
     req_meta = Some (JObject [(''router_acp'', JObject [(''agent_origin'', JBool True)])])\<rparr>"

definition waking_run :: planner_run where
  "waking_run = (sample_run [])\<lparr>run_wakes := [(''capacity:1'', wake_default), (''release:r'', wake_default)]\<rparr>"

definition queueing_run :: planner_run where
  "queueing_run = (sample_run [])\<lparr>run_wakes := [(''input:a'', wake_default)], run_parent_queue := [\<lparr>q_input_id = ''a'', q_request = agent_request\<rparr>]\<rparr>"


lemma waking_batch: "fst (claim_delivery sample_env 100 waking_run) = [''release:r'', ''capacity:1'']"
  by code_simp

lemma waking_wakes: "bt_wf (run_wakes waking_run)" "bt_get (run_wakes waking_run) ''release:r'' = Some wake_default"
  by code_simp+

theorem wake_batch_sound_witness:
  "\<exists>run'. claim_delivery sample_env 100 waking_run = ([''release:r'', ''capacity:1''], run') \<and>
     deliverable sample_env 100 ''release:r'' wake_default \<and> bt_get (run_wakes run') ''release:r'' = Some (claim_wake sample_env 100 wake_default)"
proof -
  obtain run' where c: "claim_delivery sample_env 100 waking_run = ([''release:r'', ''capacity:1''], run')"
    using waking_batch by (cases "claim_delivery sample_env 100 waking_run") auto
  have "\<forall>i w. bt_get (run_wakes waking_run) i = Some w \<longrightarrow> i \<in> set [''release:r'', ''capacity:1''] \<longrightarrow>
      deliverable sample_env 100 i w \<and> bt_get (run_wakes run') i = Some (claim_wake sample_env 100 w)"
    using wake_batch_sound [OF c waking_wakes(1)] by presburger
  then show ?thesis using c waking_wakes(2) by simp
qed

text \<open>The parent acknowledged one wake of the batch during its turn, and not the other.\<close>

definition worked_run :: planner_run where
  "worked_run = (sample_run [])\<lparr>run_wakes :=
     [(''capacity:1'', (claim_wake sample_env 100 wake_default)\<lparr>wake_acknowledged := True\<rparr>),
      (''release:r'', claim_wake sample_env 100 wake_default)]\<rparr>"

theorem wake_redelivered_witness:
  "\<exists>run' w2. claim_delivery sample_env 100 waking_run = ([''release:r'', ''capacity:1''], run') \<and>
     bt_get (run_wakes (settle_delivery sample_env False [''release:r'', ''capacity:1''] worked_run)) ''release:r'' = Some w2 \<and>
     deliverable sample_env 400 ''release:r'' w2 \<and> \<not> deliverable sample_env 120 ''release:r'' w2"
proof -
  obtain run' where c: "claim_delivery sample_env 100 waking_run = ([''release:r'', ''capacity:1''], run')"
    using waking_batch by (cases "claim_delivery sample_env 100 waking_run") auto
  have w: "bt_get (run_wakes worked_run) ''release:r'' = Some (claim_wake sample_env 100 wake_default)" by code_simp
  have p: "\<not> list_ex (starts_with ''release:r'') ROUTER_WAKE_PREFIXES" by code_simp
  have "\<not> wake_acknowledged (claim_wake sample_env 100 wake_default)"
    "wake_claim_pid (claim_wake sample_env 100 wake_default) = fst (env_identity sample_env)"
    "wake_claim_started_at_ms (claim_wake sample_env 100 wake_default) = snd (env_identity sample_env)" by code_simp+
  then show ?thesis
    using wake_redelivered [OF c waking_wakes w, of False] c p by auto
qed

theorem queued_input_in_order_witness:
  "\<exists>run1. claim_queued_input sample_env 100 \<lparr>q_input_id = ''a'', q_request = agent_request\<rparr> queueing_run = Inr run1 \<and>
     run_parent_queue (settle_queued_input sample_env \<lparr>q_input_id = ''a'', q_request = agent_request\<rparr>
       (delivery_interrupted \<lparr>q_input_id = ''a'', q_request = agent_request\<rparr> False False True) True run1) = run_parent_queue queueing_run"
proof -
  let ?q = "\<lparr>q_input_id = ''a'', q_request = agent_request\<rparr>"
  have "map_sum (\<lambda>_. ()) (\<lambda>_. ()) (claim_queued_input sample_env 100 ?q queueing_run) = Inr ()"
    by code_simp
  then obtain run1 where c: "claim_queued_input sample_env 100 ?q queueing_run = Inr run1"
    by (cases "claim_queued_input sample_env 100 ?q queueing_run") auto
  have "\<not> human_prompt (q_request ?q)" by code_simp
  then have "run_parent_queue (settle_queued_input sample_env ?q (delivery_interrupted ?q False False True) True run1) = run_parent_queue run1"
    using queued_input_in_order [OF c] by simp
  then show ?thesis using queued_input_in_order [OF c] c by auto
qed


end
