(* ===== verification/Planner_Shutdown.thy ===== *)
theory Planner_Shutdown
  imports Planner_Wake
begin

text \<open>
  The graceful drain of a run (\<open>planner_shutdown.rs\<close>): how it enters and leaves the draining status,
  the poll of each live worker until it has stopped or is cancelled, the shutdown message a worker
  gets at a turn end or as a follow-up, and whether a child takes another turn
  (\<open>planner_guard.rs\<close>). Times are milliseconds for the drain and seconds for a child; saving the
  resume state, the parent's last turn and the notices are not modelled.
\<close>

section \<open>Entering and leaving the drain\<close>

text \<open>The drain of one run in this process: workers to be told at their next turn end, told there, and cancelled.\<close>

record drain =
  dr_pending :: "string set"
  dr_injected :: "string set"
  dr_cancelled :: "string set"

definition drain_new :: drain where
  "drain_new = \<lparr>dr_pending = {}, dr_injected = {}, dr_cancelled = {}\<rparr>"

text \<open>A request is accepted when the session has a run; it starts a drain unless one is active.\<close>

definition drain_request :: "planner_run option \<Rightarrow> drain option \<Rightarrow> (unit, bool \<times> drain option) result" where
  "drain_request stored active =
     (if stored = None then Inl ()
      else case active of Some _ \<Rightarrow> Inr (False, active) | None \<Rightarrow> Inr (True, Some drain_new))"

definition drain_begun :: "planner_run \<Rightarrow> run_status \<times> planner_run" where
  "drain_begun run = (run_status run, run\<lparr>run_status := RunDraining\<rparr>)"

definition prompts_parent :: "run_status \<Rightarrow> bool" where
  "prompts_parent prior \<longleftrightarrow> prior = RunRunning \<or> prior = RunDraining"

definition drain_end_status :: "run_status \<Rightarrow> run_status" where
  "drain_end_status prior = (if prior = RunComplete \<or> prior = RunCancelled then prior else RunPaused)"

definition drain_ended :: "run_status \<Rightarrow> planner_run \<Rightarrow> planner_run" where
  "drain_ended prior run = run\<lparr>run_status := drain_end_status prior\<rparr>"

text \<open>The works whose worker can still act; the argument tells the open sub-session of an attempt.\<close>

definition drain_workers :: "(string \<Rightarrow> string \<Rightarrow> string option) \<Rightarrow> planner_run \<Rightarrow> string list" where
  "drain_workers open_delegate run =
     map fst (filter (\<lambda>(i, w).
        \<not> (work_status w = Finished \<or> work_status w = Integrated \<or> work_status w = Blocked \<or> work_status w = Watching) \<and>
        is_some_and (work_attempt w) (\<lambda>a. \<not> att_ended a \<or> open_delegate i (att_id a) \<noteq> None)) (run_works run))"

section \<open>Draining one worker\<close>

definition take_injection :: "string \<Rightarrow> drain \<Rightarrow> bool \<times> drain" where
  "take_injection w d =
     (if w \<in> dr_pending d then (True, d\<lparr>dr_pending := dr_pending d - {w}, dr_injected := insert w (dr_injected d)\<rparr>)
      else (False, d))"

definition set_pending :: "string \<Rightarrow> bool \<Rightarrow> drain \<Rightarrow> bool \<times> drain" where
  "set_pending w pending d =
     (let injected = (w \<in> dr_injected d)
      in (injected, if pending \<and> \<not> injected then d\<lparr>dr_pending := insert w (dr_pending d)\<rparr>
                    else d\<lparr>dr_pending := dr_pending d - {w}\<rparr>))"

definition cancel_worker :: "string \<Rightarrow> drain \<Rightarrow> drain" where
  "cancel_worker w d = d\<lparr>dr_cancelled := insert w (dr_cancelled d), dr_pending := dr_pending d - {w}\<rparr>"

definition is_cancelled :: "string \<Rightarrow> drain option \<Rightarrow> bool" where
  "is_cancelled w active = is_some_and active (\<lambda>d. w \<in> dr_cancelled d)"

datatype worker_status = WorkerRunning | WorkerNotified | WorkerStopped | WorkerCancelled

text \<open>What a poll meets: the clock, the stored attempt, the open sub-session, and whether its follow-up turn outlasts the bound.\<close>

record drain_poll =
  dp_now :: nat
  dp_attempt :: "attempt option"
  dp_open :: bool
  dp_followup_late :: bool

text \<open>One poll: the last status it reports, whether a follow-up with the message was sent, and the drain.\<close>

definition poll_worker :: "nat \<Rightarrow> string \<Rightarrow> drain_poll \<Rightarrow> drain \<Rightarrow> worker_status \<times> bool \<times> drain" where
  "poll_worker deadline w p d =
     (if deadline \<le> dp_now p then (WorkerCancelled, False, cancel_worker w d)
      else case dp_attempt p of
             None \<Rightarrow> (WorkerStopped, False, d)
           | Some a \<Rightarrow>
               if \<not> att_ended a
               then let (injected, d1) = set_pending w True d in (if injected then WorkerNotified else WorkerRunning, False, d1)
               else let (injected, d1) = set_pending w False d
                    in if injected \<or> \<not> dp_open p then (WorkerStopped, False, d1)
                       else if dp_followup_late p then (WorkerCancelled, True, cancel_worker w d1)
                       else (WorkerStopped, True, d1))"

definition finished_status :: "worker_status \<Rightarrow> bool" where
  "finished_status s \<longleftrightarrow> s = WorkerStopped \<or> s = WorkerCancelled"

text \<open>Polls until one finishes; between two polls the rest of the router may use the drain.\<close>

fun drain_worker :: "nat \<Rightarrow> nat \<Rightarrow> string \<Rightarrow> (nat \<Rightarrow> drain_poll) \<Rightarrow> (nat \<Rightarrow> drain \<Rightarrow> drain) \<Rightarrow> nat \<Rightarrow> drain \<Rightarrow> (worker_status \<times> drain) option" where
  "drain_worker 0 deadline w polls between n d = None"
| "drain_worker (Suc fuel) deadline w polls between n d =
     (case poll_worker deadline w (polls n) d of
        (s, _, d1) \<Rightarrow> if finished_status s then Some (s, d1) else drain_worker fuel deadline w polls between (Suc n) (between n d1))"

text \<open>
  The drain of all workers as a protocol: what this process keeps, the workers whose drain has
  ended, and every shutdown message sent, in order.
\<close>

record drain_state =
  ds_drain :: drain
  ds_ended :: "string set"
  ds_messages :: "string list"

inductive drain_step :: "nat \<Rightarrow> drain_state \<Rightarrow> drain_state \<Rightarrow> bool" for deadline where
  polled: "w \<notin> ds_ended s \<Longrightarrow> poll_worker deadline w p (ds_drain s) = (st, followup, d) \<Longrightarrow>
    drain_step deadline s (s\<lparr>ds_drain := d, ds_ended := (if finished_status st then insert w (ds_ended s) else ds_ended s),
      ds_messages := ds_messages s @ (if followup then [w] else [])\<rparr>)"
| turn_ended: "take_injection w (ds_drain s) = (True, d) \<Longrightarrow>
    drain_step deadline s (s\<lparr>ds_drain := d, ds_messages := ds_messages s @ [w]\<rparr>)"

definition drain_start :: drain_state where
  "drain_start = \<lparr>ds_drain = drain_new, ds_ended = {}, ds_messages = []\<rparr>"

section \<open>Turns of a child\<close>

definition CHILD_CONTINUE_BACKOFF_SECS :: "nat list" where "CHILD_CONTINUE_BACKOFF_SECS = [0, 30, 120, 300]"

definition child_may_continue :: "string \<Rightarrow> string \<Rightarrow> drain option \<Rightarrow> planner_run option \<Rightarrow> bool" where
  "child_may_continue w attempt_id active stored \<longleftrightarrow>
     \<not> is_cancelled w active \<and>
     is_some_and stored (\<lambda>run. (run_status run = RunRunning \<or> run_status run = RunDraining) \<and>
       is_some_and (bt_get (run_works run) w) (\<lambda>work. \<not> work_paused work \<and>
         is_some_and (work_attempt work) (\<lambda>a. att_id a = attempt_id \<and> \<not> att_ended a)))"

definition continue_pause :: "nat \<Rightarrow> nat" where
  "continue_pause continued = CHILD_CONTINUE_BACKOFF_SECS ! min continued (length CHILD_CONTINUE_BACKOFF_SECS - 1)"

record child_round =
  ch_now :: nat
  ch_stored :: "planner_run option"
  ch_drain :: "drain option"

datatype child_turn = ChildStops | ChildTold | ChildContinues

definition child_round_turn :: "string \<Rightarrow> string \<Rightarrow> nat \<Rightarrow> child_round \<Rightarrow> child_turn option" where
  "child_round_turn w attempt_id until rd =
     (if \<not> child_may_continue w attempt_id (ch_drain rd) (ch_stored rd) then Some ChildStops
      else if is_some_and (ch_drain rd) (\<lambda>d. fst (take_injection w d)) then Some ChildTold
      else if until \<le> ch_now rd then Some ChildContinues else None)"

fun child_continuation :: "nat \<Rightarrow> string \<Rightarrow> string \<Rightarrow> nat \<Rightarrow> (nat \<Rightarrow> child_round) \<Rightarrow> nat \<Rightarrow> child_turn option" where
  "child_continuation 0 w attempt_id until rounds n = None"
| "child_continuation (Suc fuel) w attempt_id until rounds n =
     (case child_round_turn w attempt_id until (rounds n) of
        Some turn \<Rightarrow> Some turn
      | None \<Rightarrow> child_continuation fuel w attempt_id until rounds (Suc n))"

section \<open>A draining run starts nothing\<close>

lemma run_ok_status: "run_ok run \<Longrightarrow> run_ok (run\<lparr>run_status := s\<rparr>)"
  by (simp add: run_ok_def run_wf_def)

lemma drain_keeps: "run_ok run \<Longrightarrow> run_ok (snd (drain_begun run))" "run_ok run \<Longrightarrow> run_ok (drain_ended prior run)"
  by (simp_all add: drain_begun_def drain_ended_def run_ok_status)

text \<open>
  While a run drains it takes on nothing. No work is admitted, reconciled or held and the run is
  not completed; no worker starts; no wake is claimed, no heartbeat is added and no resumption is
  claimed. When the drain ends the run is paused, unless it had ended before, and everything else of
  it is as it was.
\<close>
lemma drain_quiesces:
  assumes "drain_begun run0 = (prior, run)"
  shows "(\<forall>actor op u. scope_operation op \<longrightarrow> authorize actor op run \<noteq> Inr u) \<and>
    (\<forall>env i. dispatch_check env run i = Inl (DispatchErr ErrExecutionSuspended)) \<and>
    (\<forall>env now. claim_delivery env now run = ([], run)) \<and>
    (\<forall>env uuid reason busy last_activity now. parent_heartbeat env uuid reason busy last_activity now run = run) \<and>
    (\<forall>env i a f followup now. claim_resume env i a f followup now run = None) \<and>
    drain_ended prior run = run0\<lparr>run_status := (if run_status run0 = RunComplete \<or> run_status run0 = RunCancelled then run_status run0 else RunPaused)\<rparr>"
proof -
  have run: "run = run0\<lparr>run_status := RunDraining\<rparr>" and prior: "prior = run_status run0" using assms by (auto simp: drain_begun_def)
  have "authorize actor op run \<noteq> Inr u" if "scope_operation op" for actor op u
    using authorize_running [of actor op run u] that by (auto simp: run scope_operation_def ack_operation_def split: operation.splits)
  moreover have "claim_resume env i a f followup now run = None" for env i a f followup now
    by (simp add: claim_resume_def run split: option.split)
  ultimately show ?thesis
    by (simp add: dispatch_check_def claim_delivery_def parent_heartbeat_def drain_ended_def drain_end_status_def run prior)
qed

section \<open>Every worker ends\<close>

lemma poll_finishes_late: "deadline \<le> dp_now p \<Longrightarrow> poll_worker deadline w p d = (WorkerCancelled, False, cancel_worker w d)"
  by (simp add: poll_worker_def)

text \<open>
  C39. The drain of a worker ends. With polls at least half a second apart it is over by the poll
  after the deadline, whatever the worker and the rest of the router do: the worker has stopped, or it
  is cancelled, is marked so for its own turn loop, and waits for no message.
\<close>
theorem drain_worker_ends:
  assumes "\<And>k. dp_now (polls k) + 500 \<le> dp_now (polls (Suc k))" and "deadline \<le> dp_now (polls n) + 500 * m" and "m < fuel"
  shows "\<exists>s d'. drain_worker fuel deadline w polls between n d = Some (s, d') \<and> finished_status s \<and>
    (s = WorkerCancelled \<longrightarrow> w \<in> dr_cancelled d' \<and> w \<notin> dr_pending d')"
  using assms(2,3)
proof (induction fuel arbitrary: n d m)
  case (Suc fuel)
  obtain s f d1 where p: "poll_worker deadline w (polls n) d = (s, f, d1)" by (metis prod_cases3)
  show ?case
  proof (cases "finished_status s")
    case True
    have "s = WorkerCancelled \<longrightarrow> w \<in> dr_cancelled d1 \<and> w \<notin> dr_pending d1"
      using p by (auto simp: poll_worker_def cancel_worker_def set_pending_def Let_def split: if_splits option.splits)
    then show ?thesis using p True by simp
  next
    case False
    have "\<not> deadline \<le> dp_now (polls n)"
    proof
      assume "deadline \<le> dp_now (polls n)"
      from poll_finishes_late [OF this, of w d] False p show False by (simp add: finished_status_def)
    qed
    then obtain m' where m: "m = Suc m'" using Suc.prems(1) by (cases m) auto
    have "deadline \<le> dp_now (polls (Suc n)) + 500 * m'" using Suc.prems(1) assms(1) [of n] by (simp add: m)
    moreover have "m' < fuel" using Suc.prems(2) m by simp
    ultimately show ?thesis using Suc.IH [of "Suc n" m' "between n d1"] p False by simp
  qed
qed simp

text \<open>A child waits out its pause: with rounds a second apart its next turn is decided by the round after it.\<close>

lemma child_continuation_ends:
  assumes "\<And>k. ch_now (rounds k) + 1 \<le> ch_now (rounds (Suc k))" and "until \<le> ch_now (rounds n) + m" and "m < fuel"
  shows "\<exists>turn k. child_continuation fuel w attempt_id until rounds n = Some turn \<and> child_round_turn w attempt_id until (rounds k) = Some turn"
  using assms(2,3)
proof (induction fuel arbitrary: n m)
  case (Suc fuel)
  show ?case
  proof (cases "child_round_turn w attempt_id until (rounds n)")
    case None
    then have "\<not> until \<le> ch_now (rounds n)" by (auto simp: child_round_turn_def split: if_splits)
    then obtain m' where m: "m = Suc m'" using Suc.prems(1) by (cases m) auto
    have "until \<le> ch_now (rounds (Suc n)) + m'" using Suc.prems(1) assms(1) [of n] by (simp add: m)
    moreover have "m' < fuel" using Suc.prems(2) m by simp
    ultimately show ?thesis using Suc.IH [of "Suc n" m'] None by simp
  qed auto
qed simp

lemma cancelled_child_stops: "is_cancelled w (ch_drain rd) \<Longrightarrow> child_round_turn w attempt_id until rd = Some ChildStops"
  by (simp add: child_round_turn_def child_may_continue_def)

section \<open>One message to a worker\<close>

definition drain_ok :: "drain_state \<Rightarrow> bool" where
  "drain_ok s \<longleftrightarrow>
     distinct (ds_messages s) \<and> dr_injected (ds_drain s) \<subseteq> set (ds_messages s) \<and>
     set (ds_messages s) \<inter> dr_pending (ds_drain s) = {} \<and> set (ds_messages s) \<subseteq> dr_injected (ds_drain s) \<union> ds_ended s"

lemma poll_effect:
  assumes "poll_worker deadline w p d = (st, followup, d')" and "\<not> (w \<in> dr_pending d \<and> w \<in> dr_injected d)"
  shows "dr_injected d' = dr_injected d" and "followup \<Longrightarrow> w \<notin> dr_injected d \<and> w \<notin> dr_pending d' \<and> finished_status st"
    and "dr_pending d' \<subseteq> insert w (dr_pending d)" and "w \<in> dr_pending d' \<Longrightarrow> w \<notin> dr_injected d"
  using assms
  by (auto simp: poll_worker_def set_pending_def cancel_worker_def finished_status_def Let_def split: if_splits option.splits)

lemma drain_step_keeps: "drain_step deadline s s' \<Longrightarrow> drain_ok s \<Longrightarrow> drain_ok s'"
proof (induction rule: drain_step.induct)
  case (polled w s p st followup d)
  have apart: "\<not> (w \<in> dr_pending (ds_drain s) \<and> w \<in> dr_injected (ds_drain s))" using polled(3) by (auto simp: drain_ok_def)
  note e = poll_effect [OF polled(2) apart]
  have untold: "w \<notin> set (ds_messages s)" if "w \<notin> dr_injected (ds_drain s)" using polled(1,3) that by (auto simp: drain_ok_def)
  show ?case
  proof (cases followup)
    case True
    then have f: "w \<notin> dr_injected (ds_drain s)" "w \<notin> dr_pending d" "finished_status st" using e(2) by simp_all
    then show ?thesis using polled(3) untold [OF f(1)] e(1,3) True by (auto simp: drain_ok_def)
  next
    case False
    have "set (ds_messages s) \<inter> dr_pending d = {}" using polled(3) e(3,4) untold by (auto simp: drain_ok_def)
    then show ?thesis using polled(3) e(1) False by (auto simp: drain_ok_def)
  qed
next
  case (turn_ended w s d)
  then show ?case by (auto simp: drain_ok_def take_injection_def split: if_splits)
qed

interpretation draining: step_invariant "drain_step deadline" drain_ok for deadline
  by unfold_locales (rule drain_step_keeps)

text \<open>
  C40. A worker is told once. Whatever the order of polls, turn ends and follow-ups of a drain, the
  shutdown message is sent to each worker at most once: one that was told at a turn end, or by a
  follow-up turn, is in no later message; and a message goes at a turn end only while the worker
  waits for it.
\<close>
theorem drain_tells_once:
  assumes "(drain_step deadline)\<^sup>*\<^sup>* drain_start s"
  shows "distinct (ds_messages s) \<and> dr_injected (ds_drain s) \<subseteq> set (ds_messages s) \<and>
    (\<forall>w \<in> set (ds_messages s). \<not> fst (take_injection w (ds_drain s)) \<and>
       (w \<notin> ds_ended s \<longrightarrow> w \<in> dr_injected (ds_drain s) \<and> (\<forall>p. \<not> fst (snd (poll_worker deadline w p (ds_drain s))))))"
proof -
  have ok: "drain_ok s"
    by (rule draining.reachable_keeps [OF assms]) (simp add: drain_ok_def drain_start_def drain_new_def)
  have quiet: "\<not> fst (snd (poll_worker deadline w p (ds_drain s)))" if "w \<in> dr_injected (ds_drain s)" for w p
  proof
    assume "fst (snd (poll_worker deadline w p (ds_drain s)))"
    then obtain st d where "poll_worker deadline w p (ds_drain s) = (st, True, d)" by (metis prod.collapse)
    moreover have "\<not> (w \<in> dr_pending (ds_drain s) \<and> w \<in> dr_injected (ds_drain s))" using ok by (auto simp: drain_ok_def)
    ultimately show False using poll_effect(2) that by blast
  qed
  show ?thesis using ok quiet by (auto simp: drain_ok_def take_injection_def)
qed

section \<open>A superseded run\<close>

text \<open>The drain does not look at a superseded run: it ends paused, though another session adopted it, and the next command resumes it.\<close>

lemma drain_revives_superseded:
  assumes "run_status run = RunSuperseded" and "drain_begun run = (prior, run1)"
  shows "run_status (drain_ended prior run1) = RunPaused \<and> run_superseded_by (drain_ended prior run1) = run_superseded_by run"
  using assms by (auto simp: drain_begun_def drain_ended_def drain_end_status_def)

section \<open>Witnesses\<close>

theorem drain_worker_ends_witness:
  "\<exists>s d'. drain_worker 4 1000 ''w'' (\<lambda>k. \<lparr>dp_now = 500 * k, dp_attempt = Some \<lparr>att_id = ''a'', att_router_pid = 1, att_router_started_at_ms = 0,
      att_delegate_id = None, att_ended = False\<rparr>, dp_open = True, dp_followup_late = False\<rparr>) (\<lambda>_. id) 0 drain_new = Some (s, d') \<and> finished_status s"
  by (rule exE [OF drain_worker_ends [where m = 2 and n = 0 and fuel = 4 and deadline = 1000 and w = "''w''" and between = "\<lambda>_. id" and d = drain_new
      and polls = "\<lambda>k. \<lparr>dp_now = 500 * k, dp_attempt = Some \<lparr>att_id = ''a'', att_router_pid = 1, att_router_started_at_ms = 0,
        att_delegate_id = None, att_ended = False\<rparr>, dp_open = True, dp_followup_late = False\<rparr>"]]) auto

theorem drain_tells_once_witness:
  "\<exists>s. (drain_step 1000)\<^sup>*\<^sup>* drain_start s \<and> ds_messages s = [''w''] \<and> \<not> fst (take_injection ''w'' (ds_drain s))"
proof -
  let ?a = "\<lparr>att_id = ''a'', att_router_pid = 1, att_router_started_at_ms = 0, att_delegate_id = None, att_ended = False\<rparr> :: attempt"
  let ?p = "\<lparr>dp_now = 0, dp_attempt = Some ?a, dp_open = True, dp_followup_late = False\<rparr>"
  let ?d1 = "drain_new\<lparr>dr_pending := {''w''}\<rparr>" let ?d2 = "drain_new\<lparr>dr_injected := {''w''}\<rparr>"
  let ?s1 = "drain_start\<lparr>ds_drain := ?d1\<rparr>" let ?s2 = "drain_start\<lparr>ds_drain := ?d2, ds_messages := [''w'']\<rparr>"
  have "drain_step 1000 drain_start ?s1"
    using drain_step.polled [of "''w''" drain_start 1000 ?p WorkerRunning False ?d1]
    by (simp add: drain_start_def poll_worker_def set_pending_def drain_new_def finished_status_def)
  moreover have "drain_step 1000 ?s1 ?s2"
    using drain_step.turn_ended [of "''w''" ?s1 ?d2 1000] by (simp add: drain_start_def take_injection_def drain_new_def)
  ultimately have run: "(drain_step 1000)\<^sup>*\<^sup>* drain_start ?s2" by (meson converse_rtranclp_into_rtranclp r_into_rtranclp)
  have "''w'' \<in> set (ds_messages ?s2)" by simp
  then have "\<not> fst (take_injection ''w'' (ds_drain ?s2))" using drain_tells_once [OF run] by blast
  with run show ?thesis by (intro exI [of _ ?s2]) simp
qed

end
