(* ===== verification/Failure_Limits.thy ===== *)
theory Failure_Limits
  imports Prelude
begin

text \<open>
  Failure classification and reset times (\<open>limits.rs\<close>, and \<open>epoch_to_rfc3339\<close> of \<open>usage.rs\<close>):
  which downstream failures are limits, outages, overflows or a full model, how long a
  limit lasts, and the calendar arithmetic behind absolute reset times. The captures of
  the regular expressions and Unicode lowercasing are fields of \<open>text_env\<close>. Durations and
  epochs are seconds.
\<close>

section \<open>Decimal numbers\<close>

definition digit_char :: "nat \<Rightarrow> char" where
  "digit_char d = char_of (48 + d)"

fun show_nat :: "nat \<Rightarrow> string" where
  "show_nat n = (if n < 10 then [digit_char n] else show_nat (n div 10) @ [digit_char (n mod 10)])"

declare show_nat.simps [simp del]

text \<open>A minimum width with leading zeros, as \<open>{:02}\<close>.\<close>

definition show_pad :: "nat \<Rightarrow> nat \<Rightarrow> string" where
  "show_pad w n = replicate (w - length (show_nat n)) (CHR ''0'') @ show_nat n"

definition digit_val :: "char \<Rightarrow> nat" where
  "digit_val c = of_char c - 48"

definition digits_val :: "string \<Rightarrow> nat" where
  "digits_val s = foldl (\<lambda>acc c. 10 * acc + digit_val c) 0 s"

definition strip_plus :: "string \<Rightarrow> string" where
  "strip_plus s = (case s of c # t \<Rightarrow> if c = CHR ''+'' then t else s | [] \<Rightarrow> s)"

text \<open>\<open>str::parse\<close> of an unsigned 64-bit and of a signed 64-bit number.\<close>

definition parse_u64 :: "string \<Rightarrow> nat option" where
  "parse_u64 s =
     (let t = strip_plus s in
      if t \<noteq> [] \<and> list_all is_ascii_digit t \<and> digits_val t < 2 ^ 64 then Some (digits_val t) else None)"

definition parse_i64 :: "string \<Rightarrow> int option" where
  "parse_i64 s =
     (case s of
        [] \<Rightarrow> None
      | c # t \<Rightarrow>
          if c = CHR ''-''
          then (if t \<noteq> [] \<and> list_all is_ascii_digit t \<and> digits_val t \<le> 2 ^ 63 then Some (- int (digits_val t)) else None)
          else (let u = strip_plus s in
                if u \<noteq> [] \<and> list_all is_ascii_digit u \<and> digits_val u < 2 ^ 63 then Some (int (digits_val u)) else None))"

lemma digits_val_append: "digits_val (s @ [c]) = 10 * digits_val s + digit_val c"
  by (simp add: digits_val_def)

lemma of_char_digit: "d < 10 \<Longrightarrow> of_char (digit_char d) = 48 + d"
  by (simp add: digit_char_def)

lemma digit_chars:
  "digit_char 0 = CHR ''0''" "digit_char (Suc 0) = CHR ''1''" "digit_char 1 = CHR ''1''" "digit_char 2 = CHR ''2''" "digit_char 3 = CHR ''3''"
  "digit_char 4 = CHR ''4''" "digit_char 5 = CHR ''5''" "digit_char 6 = CHR ''6''" "digit_char 7 = CHR ''7''"
  "digit_char 8 = CHR ''8''" "digit_char 9 = CHR ''9''"
  by code_simp+

lemma digit_round: "d < 10 \<Longrightarrow> is_ascii_digit (digit_char d) \<and> digit_val (digit_char d) = d"
  by (simp add: is_ascii_digit_def digit_val_def of_char_digit)

lemma show_nat_digits: "show_nat n \<noteq> [] \<and> list_all is_ascii_digit (show_nat n) \<and> digits_val (show_nat n) = n"
proof (induction n rule: show_nat.induct)
  case (1 n)
  show ?case
    using 1 digit_round [of n] digit_round [of "n mod 10"]
    by (subst (1 2 3) show_nat.simps) (auto simp: digits_val_append digits_val_def)
qed

lemma digits_val_zeros: "digits_val (replicate k (CHR ''0'') @ s) = digits_val s"
  by (induction k) (simp_all add: digits_val_def digit_val_def)

lemma show_pad_digits:
  "show_pad w n \<noteq> [] \<and> list_all is_ascii_digit (show_pad w n) \<and> digits_val (show_pad w n) = n"
  using show_nat_digits [of n]
  by (auto simp: show_pad_def digits_val_zeros list_all_iff is_ascii_digit_def)

lemma digit_not_sign:
  assumes "s \<noteq> []" "list_all is_ascii_digit s"
  shows "strip_plus s = s" "hd s \<noteq> CHR ''-''"
  using assms by (cases s; auto simp: strip_plus_def is_ascii_digit_def)+

lemma parse_pad:
  assumes "n < 2 ^ 63"
  shows "parse_u64 (show_pad w n) = Some n" "parse_i64 (show_pad w n) = Some (int n)"
proof -
  have ok: "show_pad w n \<noteq> []" "list_all is_ascii_digit (show_pad w n)" "digits_val (show_pad w n) = n"
    using show_pad_digits by simp_all
  note sign = digit_not_sign [OF ok(1,2)]
  show "parse_u64 (show_pad w n) = Some n"
    using assms ok sign by (simp add: parse_u64_def)
  obtain c t where s: "show_pad w n = c # t" using ok(1) by (cases "show_pad w n") auto
  then have "c \<noteq> CHR ''-''" using sign(2) by simp
  then show "parse_i64 (show_pad w n) = Some (int n)"
    using assms ok sign(1) unfolding parse_i64_def s by simp
qed

lemma length_show_nat: "n < 10 ^ k \<Longrightarrow> 0 < k \<Longrightarrow> length (show_nat n) \<le> k"
proof (induction k arbitrary: n)
  case (Suc k)
  then show ?case
  proof (cases "n < 10")
    case False
    then have "0 < k" using Suc.prems by (cases k) auto
    moreover have "n div 10 < 10 ^ k" using Suc.prems by (simp add: less_mult_imp_div_less mult.commute)
    ultimately show ?thesis using Suc.IH [of "n div 10"] False by (subst show_nat.simps) simp
  qed (subst show_nat.simps, simp)
qed simp

lemma length_show_pad: "n < 10 ^ w \<Longrightarrow> 0 < w \<Longrightarrow> length (show_pad w n) = w"
  using length_show_nat [of n w] by (simp add: show_pad_def)

section \<open>Calendar arithmetic\<close>

text \<open>
  \<open>days_from_civil\<close> and its inverse, as the two functions of the source write them. Rust's
  division truncates; every dividend here is nonnegative but for the era of a year before
  0, where the correction makes it exact, so it agrees with \<open>div\<close>.
\<close>

definition days_from_civil :: "int \<Rightarrow> int \<Rightarrow> int \<Rightarrow> int" where
  "days_from_civil year month day =
     (let y = (if month \<le> 2 then year - 1 else year);
          era = (if 0 \<le> y then y else y - 399) div 400;
          yoe = y - era * 400;
          mp = (month + 9) mod 12;
          doy = (153 * mp + 2) div 5 + day - 1;
          doe = yoe * 365 + yoe div 4 - yoe div 100 + doy
      in era * 146097 + doe - 719468)"

text \<open>Year, month and day of a day number.\<close>

definition civil_from_days :: "int \<Rightarrow> int \<times> int \<times> int" where
  "civil_from_days days =
     (let z = days + 719468;
          era = (if 0 \<le> z then z else z - 146096) div 146097;
          doe = z - era * 146097;
          yoe = (doe - doe div 1460 + doe div 36524 - doe div 146096) div 365;
          y = yoe + era * 400;
          doy = doe - (365 * yoe + yoe div 4 - yoe div 100);
          mp = (5 * doy + 2) div 153;
          d = doy - (153 * mp + 2) div 5 + 1;
          month = (if mp < 10 then mp + 3 else mp - 9);
          year = y + (if month \<le> 2 then 1 else 0)
      in (year, month, d))"

lemma div_bounds: "0 < (d :: int) \<Longrightarrow> d * (x div d) \<le> x \<and> x < d * (x div d) + d"
  using mult_div_mod_eq [of d x] pos_mod_sign [of d x] pos_mod_bound [of d x] by linarith

text \<open>A century and a quarter cycle: the year of a day within a century.\<close>

lemma century_year:
  fixes r :: int
  assumes "0 \<le> r" "r < 36524" "0 \<le> c" "c \<le> 72" "s = (r - (c + r) div 1460) div 365"
  shows "0 \<le> s" "s \<le> 99" "0 \<le> r - (365 * s + s div 4)" "r - (365 * s + s div 4) \<le> 365"
proof -
  define a where "a = (c + r) div 1460"
  have a: "1460 * a \<le> c + r" "c + r < 1460 * a + 1460"
    using div_bounds [of 1460 "c + r"] by (auto simp: a_def)
  have s: "365 * s \<le> r - a" "r - a < 365 * s + 365"
    using div_bounds [of 365 "r - a"] assms(5) by (auto simp: a_def)
  define q where "q = s div 4"
  have q: "4 * q \<le> s" "s < 4 * q + 4" using div_bounds [of 4 s] by (auto simp: q_def)
  show pos: "0 \<le> s" "s \<le> 99" using a s assms(1-4) by linarith+
  show "0 \<le> r - (365 * s + s div 4)" "r - (365 * s + s div 4) \<le> 365"
    using pos a s q assms(1-4) unfolding q_def [symmetric] by linarith+
qed

text \<open>The year of the era and the day of the year of a day within an era of 400 years.\<close>

lemma era_year:
  fixes doe :: int
  assumes "0 \<le> doe" "doe < 146097" and yoe: "yoe = (doe - doe div 1460 + doe div 36524 - doe div 146096) div 365"
  shows "0 \<le> yoe \<and> yoe < 400 \<and> 0 \<le> doe - (365 * yoe + yoe div 4 - yoe div 100) \<and>
         doe - (365 * yoe + yoe div 4 - yoe div 100) \<le> 365"
proof (cases "doe = 146096")
  case True
  then show ?thesis using yoe by simp
next
  case False
  define b where "b = doe div 36524"
  define r where "r = doe - 36524 * b"
  have r: "0 \<le> r" "r < 36524" and doe: "doe = 36524 * b + r"
    using div_bounds [of 36524 doe] by (auto simp: b_def r_def)
  have b: "0 \<le> b" "b \<le> 3" using assms(1,2) False doe r by linarith+
  have "doe div 1460 = 25 * b + (24 * b + r) div 1460"
    using div_mult_self1 [of 1460 "24 * b + r" "25 * b"] doe by (simp add: algebra_simps)
  moreover have "doe div 146096 = 0" using assms False by simp
  ultimately have n: "doe - doe div 1460 + doe div 36524 - doe div 146096 = 365 * (100 * b) + (r - (24 * b + r) div 1460)"
    using doe b_def by linarith
  have y: "yoe = 100 * b + (r - (24 * b + r) div 1460) div 365"
    unfolding yoe n by (subst add.commute, subst div_mult_self2) simp_all
  define s where "s = (r - (24 * b + r) div 1460) div 365"
  have b24: "0 \<le> 24 * b" "24 * b \<le> 72" using b by linarith+
  note s = century_year [OF r b24 s_def]
  have ys: "yoe = 100 * b + s" using y by (simp only: s_def)
  have q4: "(100 * b + s) div 4 = 25 * b + s div 4"
    using div_mult_self2 [of 4 s "25 * b"] by (simp add: algebra_simps)
  have q100: "(100 * b + s) div 100 = b" using s(1,2) by simp
  have "doe - (365 * yoe + yoe div 4 - yoe div 100) = r - (365 * s + s div 4)"
    unfolding ys q4 q100 doe by simp
  then show ?thesis using s b ys by simp
qed

lemma civil_round_trip:
  assumes "civil_from_days days = (year, month, d)" "0 \<le> days"
  shows "days_from_civil year month d = days" "1 \<le> month" "month \<le> 12" "1 \<le> d" "d \<le> 31"
    and "1969 \<le> year" "days < 2932897 \<Longrightarrow> year \<le> 9999"
proof -
  define z where "z = days + 719468"
  define era where "era = z div 146097"
  define doe where "doe = z - era * 146097"
  define yoe where "yoe = (doe - doe div 1460 + doe div 36524 - doe div 146096) div 365"
  define doy where "doy = doe - (365 * yoe + yoe div 4 - yoe div 100)"
  define mp where "mp = (5 * doy + 2) div 153"
  have doe: "0 \<le> doe" "doe < 146097" using div_bounds [of 146097 z] by (auto simp: doe_def era_def)
  have y: "0 \<le> yoe" "yoe < 400" "0 \<le> doy" "doy \<le> 365"
    using era_year [OF doe yoe_def] by (auto simp: doy_def)
  have mp: "153 * mp \<le> 5 * doy + 2" "5 * doy + 2 < 153 * mp + 153"
    using div_bounds [of 153 "5 * doy + 2"] by (auto simp: mp_def)
  then have mp': "0 \<le> mp" "mp \<le> 11" using y by linarith+
  have "0 \<le> days + 719468" using assms(2) by simp
  then have "civil_from_days days =
      (yoe + era * 400 + (if (if mp < 10 then mp + 3 else mp - 9) \<le> 2 then 1 else 0),
       if mp < 10 then mp + 3 else mp - 9, doy - (153 * mp + 2) div 5 + 1)"
    unfolding civil_from_days_def Let_def mp_def doy_def yoe_def doe_def era_def z_def by (simp only: if_True)
  then have res: "month = (if mp < 10 then mp + 3 else mp - 9)" "d = doy - (153 * mp + 2) div 5 + 1"
    "year = yoe + era * 400 + (if month \<le> 2 then 1 else 0)"
    using assms(1) by simp_all
  have e: "4 \<le> era" using assms(2) div_bounds [of 146097 z] by (simp add: era_def z_def)
  have era': "(yoe + era * 400) div 400 = era" using y by simp
  have month: "(month + 9) mod 12 = mp" "month \<le> 2 \<longleftrightarrow> 10 \<le> mp" using res(1) mp' by (auto split: if_splits)
  show "1 \<le> month" "month \<le> 12" using res(1) mp' by (auto split: if_splits)
  have f: "5 * ((153 * mp + 2) div 5) \<le> 153 * mp + 2" "153 * mp + 2 < 5 * ((153 * mp + 2) div 5) + 5"
    using div_bounds [of 5 "153 * mp + 2"] by auto
  show "1 \<le> d" "d \<le> 31" using res(2) mp f by linarith+
  have y': "(if month \<le> 2 then year - 1 else year) = yoe + era * 400" using res(3) by simp
  show "days_from_civil year month d = days"
    unfolding days_from_civil_def Let_def y' month(1)
    using e y era' res(2) by (simp add: doy_def doe_def z_def algebra_simps)
  show "1969 \<le> year"
  proof -
    have "era = 4 \<Longrightarrow> 369 \<le> yoe"
    proof -
      assume "era = 4"
      then have d: "135080 \<le> doe" using assms(2) by (simp add: doe_def z_def)
      have "doe = doy + 365 * yoe + yoe div 4 - yoe div 100" by (simp add: doy_def)
      then show "369 \<le> yoe" using y d div_bounds [of 4 yoe] div_bounds [of 100 yoe] by linarith
    qed
    then show ?thesis using res(3) e y by (cases "era = 4") auto
  qed
  show "days < 2932897 \<Longrightarrow> year \<le> 9999"
  proof -
    assume "days < 2932897"
    then have z: "z < 146097 * 25 - 60" by (simp add: z_def)
    then have "era \<le> 24" using div_bounds [of 146097 z] by (simp add: era_def)
    moreover have "era = 24 \<Longrightarrow> yoe = 399 \<Longrightarrow> mp < 10"
    proof -
      assume a: "era = 24" "yoe = 399"
      then have "doy < 306" using z by (simp add: doy_def doe_def)
      then show "mp < 10" using mp by linarith
    qed
    ultimately show "year \<le> 9999" using res(3) y month(2) by (cases "era = 24"; cases "yoe = 399") auto
  qed
qed

section \<open>Timestamps\<close>

text \<open>\<open>epoch_to_rfc3339\<close>: seconds since 1970 as an RFC 3339 text.\<close>

definition epoch_to_rfc3339 :: "nat \<Rightarrow> string" where
  "epoch_to_rfc3339 secs =
     (let days = int (secs div 86400);
          rem = secs mod 86400;
          h = rem div 3600; m = (rem mod 3600) div 60; s = rem mod 60;
          (year, month, d) = civil_from_days days
      in show_pad 4 (nat year) @ ''-'' @ show_pad 2 (nat month) @ ''-'' @ show_pad 2 (nat d) @ ''T''
         @ show_pad 2 h @ '':'' @ show_pad 2 m @ '':'' @ show_pad 2 s @ ''Z'')"

text \<open>The groups of the \<open>iso\<close> expression; seconds and zone may be absent.\<close>

record iso_captures =
  iso_year :: string
  iso_month :: string
  iso_day :: string
  iso_hour :: string
  iso_minute :: string
  iso_second :: "string option"
  iso_zone :: "string option"

definition zone_offset :: "string \<Rightarrow> int option" where
  "zone_offset z =
     (if z = ''z'' \<or> z = ''Z'' then Some 0
      else let sign = (if starts_with z ''-'' then - 1 else 1 :: int);
               digits = filter is_ascii_digit z
           in if length digits = 4
              then (case (parse_i64 (take 2 digits), parse_i64 (drop 2 digits)) of
                      (Some oh, Some om) \<Rightarrow> Some (sign * (oh * 3600 + om * 60))
                    | _ \<Rightarrow> None)
              else Some 0)"

definition iso_to_epoch :: "iso_captures \<Rightarrow> nat option" where
  "iso_to_epoch cap =
     (case (parse_i64 (iso_year cap), parse_i64 (iso_month cap), parse_i64 (iso_day cap),
            parse_i64 (iso_hour cap), parse_i64 (iso_minute cap)) of
        (Some year, Some month, Some day, Some hour, Some minute) \<Rightarrow>
          (let second = unwrap_or (Option.bind (iso_second cap) parse_i64) 0;
               local = days_from_civil year month day * 86400 + hour * 3600 + minute * 60 + second
           in case (case iso_zone cap of None \<Rightarrow> Some 0 | Some z \<Rightarrow> zone_offset z) of
                None \<Rightarrow> None
              | Some offset \<Rightarrow> if 0 \<le> local - offset then Some (nat (local - offset)) else None)
      | _ \<Rightarrow> None)"

section \<open>Reset delays\<close>

text \<open>The captures of the six reset expressions on a lowercased text, and lowercasing itself.\<close>

record text_env =
  te_lowercase :: "string \<Rightarrow> string"
  te_epoch_marked :: "string \<Rightarrow> string option"
  te_epoch_pipe :: "string \<Rightarrow> string option"
  te_retry_after_secs :: "string \<Rightarrow> string option"
  te_duration_phrase :: "string \<Rightarrow> (string option \<times> string option \<times> string option \<times> string option) list"
  te_iso :: "string \<Rightarrow> iso_captures option"
  te_utc_clock :: "string \<Rightarrow> (string \<times> string option \<times> string) option"

definition parse_reset_timestamp :: "text_env \<Rightarrow> string \<Rightarrow> nat option" where
  "parse_reset_timestamp te text = Option.bind (te_iso te (te_lowercase te text)) iso_to_epoch"

definition reset_from_epoch :: "nat \<Rightarrow> string \<Rightarrow> nat option" where
  "reset_from_epoch now raw =
     map_option (\<lambda>v. max ((if length raw = 13 then v div 1000 else v) - now) 30) (parse_u64 raw)"

text \<open>The sum of a phrase's parts on 64-bit numbers; an unreadable part counts nothing.\<close>

definition phrase_total :: "string option \<times> string option \<times> string option \<times> string option \<Rightarrow> nat" where
  "phrase_total = (\<lambda>(d, h, m, s).
     let part = (\<lambda>c. unwrap_or (Option.bind c parse_u64) 0)
     in (part d * 86400 + part h * 3600 + part m * 60 + part s) mod 2 ^ 64)"

text \<open>The next time the UTC clock reads a second of the day: later today, else tomorrow.\<close>

definition next_clock :: "nat \<Rightarrow> nat \<Rightarrow> nat" where
  "next_clock now target = (target + 86400 - now mod 86400) mod 86400"

definition clock_delay :: "nat \<Rightarrow> string \<times> string option \<times> string \<Rightarrow> nat option" where
  "clock_delay now = (\<lambda>(h, m, ampm).
     case (parse_u64 h, case m of None \<Rightarrow> Some 0 | Some t \<Rightarrow> parse_u64 t) of
       (Some hour, Some minute) \<Rightarrow>
         if \<not> (1 \<le> hour \<and> hour \<le> 12) \<or> 59 < minute then None
         else let hour24 = hour mod 12 + (if ampm = ''pm'' then 12 else 0);
                  target = hour24 * 3600 + minute * 60
              in Some (max (next_clock now target) 30)
     | _ \<Rightarrow> None)"

definition parse_reset_delay_at :: "text_env \<Rightarrow> string \<Rightarrow> nat \<Rightarrow> nat option" where
  "parse_reset_delay_at te lower now =
     (case te_epoch_pipe te lower of
        Some raw \<Rightarrow> reset_from_epoch now raw
      | None \<Rightarrow>
     case te_epoch_marked te lower of
        Some raw \<Rightarrow> reset_from_epoch now raw
      | None \<Rightarrow>
     case te_retry_after_secs te lower of
        Some raw \<Rightarrow> map_option (\<lambda>secs. max secs 30) (parse_u64 raw)
      | None \<Rightarrow>
     case List.find (\<lambda>c. 0 < phrase_total c) (te_duration_phrase te lower) of
        Some c \<Rightarrow> Some (max (phrase_total c) 30)
      | None \<Rightarrow>
     case Option.bind (te_iso te lower) iso_to_epoch of
        Some epoch \<Rightarrow> Some (max (epoch - now) 30)
      | None \<Rightarrow>
     case te_utc_clock te lower of
        Some cap \<Rightarrow> clock_delay now cap
      | None \<Rightarrow> None)"

text \<open>\<open>humanize\<close>.\<close>

definition humanize :: "nat \<Rightarrow> string" where
  "humanize secs =
     (if 86400 \<le> secs then ''~'' @ show_nat (secs div 86400) @ ''d'' @ show_pad 2 ((secs mod 86400) div 3600) @ ''h''
      else if 3600 \<le> secs then ''~'' @ show_nat (secs div 3600) @ ''h'' @ show_pad 2 ((secs mod 3600) div 60) @ ''m''
      else if 60 \<le> secs then ''~'' @ show_nat (secs div 60) @ ''m''
      else ''~'' @ show_nat secs @ ''s'')"

section \<open>Classification\<close>

datatype failure_class =
    RateLimited "nat option" bool
  | Outage
  | ContextOverflow
  | ModelAtCapacity
  | OtherFailure

abbreviation any_of :: "string list \<Rightarrow> string \<Rightarrow> bool" where
  "any_of ps s \<equiv> list_ex (contains_str s) ps"

definition is_model_capacity_text :: "string \<Rightarrow> bool" where
  "is_model_capacity_text lower \<longleftrightarrow> contains_str lower ''model is at capacity''"

definition is_spend_limit_text :: "string \<Rightarrow> bool" where
  "is_spend_limit_text =
     any_of [''spend limit'', ''spend cap'', ''spending limit'', ''monthly limit'', ''credit limit'', ''credit balance'']"

definition is_rate_limit_text :: "string \<Rightarrow> bool" where
  "is_rate_limit_text lower \<longleftrightarrow>
     any_of [''rate limit'', ''rate-limit'', ''ratelimit'', ''usage limit'', ''quota'', ''429'', ''too many requests'',
       ''limit reached'', ''out of credits'', ''credits_exhausted'', ''payment required'', ''balance exhausted'',
       ''usagelimitexceeded'', ''session limit'', ''rate_limit''] lower \<or> is_spend_limit_text lower"

definition is_context_overflow_text :: "string \<Rightarrow> bool" where
  "is_context_overflow_text =
     any_of [''prompt is too long'', ''input is too long'', ''conversation is too long'', ''context length'',
       ''context_length_exceeded'', ''context window'', ''exceed context limit'', ''compacting failed'',
       ''too_few_groups'', ''input exceeds the maximum length'']"

definition is_local_adapter_failure :: "string \<Rightarrow> bool" where
  "is_local_adapter_failure =
     any_of [''process exited'', ''connection closed'', ''never received'', ''peer disconnected'', ''broken pipe'']"

definition is_provider_terms_gate_text :: "string \<Rightarrow> bool" where
  "is_provider_terms_gate_text lower \<longleftrightarrow>
     (contains_str lower ''consumer terms'' \<and> contains_str lower ''privacy policy'' \<and> contains_str lower ''accept'')
     \<or> contains_str lower ''accept them in claude.ai''"

definition is_outage_text :: "string \<Rightarrow> bool" where
  "is_outage_text lower \<longleftrightarrow>
     any_of [''process exited'', ''connection closed'', ''connection failed'', ''never received'', ''timed out'', ''timeout'',
       ''overloaded'', ''unavailable'', ''peer disconnected'', ''broken pipe'', ''econnreset'', ''500'', ''502'', ''503'',
       ''529'', ''internal server error'', ''service is temporarily'', ''upgrade required'', ''status 426''] lower
     \<or> is_provider_terms_gate_text lower"

text \<open>\<open>classify_failure\<close> on the error's message and data text.\<close>

definition classify_failure :: "text_env \<Rightarrow> nat \<Rightarrow> string \<Rightarrow> failure_class" where
  "classify_failure te now error_text =
     (let text = te_lowercase te error_text in
      if is_context_overflow_text text then ContextOverflow
      else if is_model_capacity_text text then ModelAtCapacity
      else if is_rate_limit_text text then RateLimited (parse_reset_delay_at te text now) (is_spend_limit_text text)
      else if is_outage_text text then Outage
      else OtherFailure)"

text \<open>Notices an adapter prints as ordinary reply text.\<close>

definition trim_end_chars :: "char list \<Rightarrow> string \<Rightarrow> string" where
  "trim_end_chars cs s = rev (dropWhile (\<lambda>c. c \<in> set cs) (rev s))"

definition response_is_model_capacity :: "string \<Rightarrow> bool" where
  "response_is_model_capacity text \<longleftrightarrow>
     eq_ignore_ascii_case (trim_end_chars [CHR ''.''] (trim text))
       ''Selected model is at capacity. Please try a different model''"

fun rfind_str :: "string \<Rightarrow> string \<Rightarrow> nat option" where
  "rfind_str p [] = (if p = [] then Some 0 else None)"
| "rfind_str p (c # cs) =
     (case rfind_str p cs of
        Some n \<Rightarrow> Some (Suc n)
      | None \<Rightarrow> if starts_with (c # cs) p then Some 0 else None)"

definition LF :: char where "LF = CHR 0x0A"

definition response_transport_outage :: "string \<Rightarrow> nat option \<Rightarrow> nat option" where
  "response_transport_outage text status =
     (case opt_filter (\<lambda>n. 500 \<le> n \<and> n < 600) status of
        None \<Rightarrow> None
      | Some code \<Rightarrow>
          (case rfind_str (''unexpected status '' @ show_nat code @ '' '') text of
             None \<Rightarrow> None
           | Some start \<Rightarrow>
               if start \<noteq> 0 \<and> \<not> starts_with (rev (take start text)) [LF, LF] then None
               else let error = trim (drop start text) in
                    if contains_str error '': upstream connect error or disconnect/reset before headers.''
                       \<and> LF \<notin> set error \<and> contains_str error ''url: '' \<and> contains_str error ''cf-ray: ''
                    then Some start else None))"

definition is_transport_error_start :: "string \<Rightarrow> bool" where
  "is_transport_error_start text \<longleftrightarrow> starts_with (trim_start text) ''unexpected status 5''"

section \<open>Correctness\<close>

text \<open>
  What is used of lowercasing and of the \<open>iso\<close> expression: ASCII text is lowercased byte by
  byte, and a text that is exactly a UTC timestamp of two- and four-digit groups is
  captured group by group.
\<close>

definition lowercase_law :: "text_env \<Rightarrow> bool" where
  "lowercase_law te \<longleftrightarrow> (\<forall>s. list_all (\<lambda>c. byte c < 128) s \<longrightarrow> te_lowercase te s = to_ascii_lowercase s)"

definition digits_of :: "nat \<Rightarrow> string \<Rightarrow> bool" where
  "digits_of n s \<longleftrightarrow> length s = n \<and> list_all is_ascii_digit s"

definition iso_law :: "text_env \<Rightarrow> bool" where
  "iso_law te \<longleftrightarrow> (\<forall>y mo d h mi s.
     digits_of 4 y \<longrightarrow> digits_of 2 mo \<longrightarrow> digits_of 2 d \<longrightarrow> digits_of 2 h \<longrightarrow> digits_of 2 mi \<longrightarrow> digits_of 2 s \<longrightarrow>
     te_iso te (y @ ''-'' @ mo @ ''-'' @ d @ ''t'' @ h @ '':'' @ mi @ '':'' @ s @ ''z'')
       = Some \<lparr>iso_year = y, iso_month = mo, iso_day = d, iso_hour = h, iso_minute = mi,
               iso_second = Some s, iso_zone = Some ''z''\<rparr>)"

lemma digits_lower: "digits_of n s \<Longrightarrow> to_ascii_lowercase s = s \<and> list_all (\<lambda>c. byte c < 128) s"
  by (auto simp: digits_of_def to_ascii_lowercase_def ascii_lower_def is_ascii_digit_def list_all_iff
      intro!: map_idI)

lemma ascii_lower_marks:
  "ascii_lower (CHR ''T'') = CHR ''t''" "ascii_lower (CHR ''Z'') = CHR ''z''"
  "ascii_lower (CHR ''-'') = CHR ''-''" "ascii_lower (CHR '':'') = CHR '':''"
  by code_simp+

lemma day_split:
  "int (n div 86400) * 86400 + int (n mod 86400 div 3600) * 3600 + int (n mod 86400 mod 3600 div 60) * 60
     + int (n mod 86400 mod 60) = int n"
proof -
  have "n mod 86400 mod 60 = n mod 86400 mod 3600 mod 60" by (simp add: mod_mod_cancel)
  moreover have "n div 86400 * 86400 + n mod 86400 = n" "n mod 86400 div 3600 * 3600 + n mod 86400 mod 3600 = n mod 86400"
    "n mod 86400 mod 3600 div 60 * 60 + n mod 86400 mod 3600 mod 60 = n mod 86400 mod 3600"
    by (rule div_mult_mod_eq)+
  ultimately have "n div 86400 * 86400 + n mod 86400 div 3600 * 3600 + n mod 86400 mod 3600 div 60 * 60
     + n mod 86400 mod 60 = n" by (simp only: add.assoc)
  then have "int (n div 86400 * 86400 + n mod 86400 div 3600 * 3600 + n mod 86400 mod 3600 div 60 * 60
     + n mod 86400 mod 60) = int n" by (rule arg_cong)
  then show ?thesis by (simp only: of_nat_add of_nat_mult of_nat_numeral)
qed

lemma pad_digits_of: "n < 10 ^ w \<Longrightarrow> 0 < w \<Longrightarrow> digits_of w (show_pad w n)"
  using show_pad_digits [of w n] by (simp add: digits_of_def length_show_pad)

text \<open>
  C28. A reset time survives its text form: for every second before the year 10000, the RFC
  3339 text the router writes is read back as that second, through the era, year, day and
  month arithmetic of both directions, the padding and the number parsing.
\<close>
theorem reset_time_round_trip:
  assumes "secs < 253402300800" and "lowercase_law te" and "iso_law te"
  shows "parse_reset_timestamp te (epoch_to_rfc3339 secs) = Some secs"
proof -
  define day where "day = int (secs div 86400)"
  define h m s where "h = secs mod 86400 div 3600" and "m = secs mod 86400 mod 3600 div 60"
    and "s = secs mod 86400 mod 60"
  obtain year month d where c: "civil_from_days day = (year, month, d)" by (cases "civil_from_days day") auto
  have "day < 2932897" using assms(1) by (simp add: day_def)
  then have b: "0 \<le> year" "year \<le> 9999" "1 \<le> month" "month \<le> 12" "1 \<le> d" "d \<le> 31"
    and days: "days_from_civil year month d = day"
    using civil_round_trip [OF c] by (auto simp: day_def)
  have hms: "h < 24" "m < 60" "s < 60" by (auto simp: h_def m_def s_def)
  have dg: "digits_of 4 (show_pad 4 (nat year))" "digits_of 2 (show_pad 2 (nat month))" "digits_of 2 (show_pad 2 (nat d))"
    "digits_of 2 (show_pad 2 h)" "digits_of 2 (show_pad 2 m)" "digits_of 2 (show_pad 2 s)"
    using b hms by (auto intro!: pad_digits_of)
  let ?t = "epoch_to_rfc3339 secs"
  have t: "?t = show_pad 4 (nat year) @ ''-'' @ show_pad 2 (nat month) @ ''-'' @ show_pad 2 (nat d) @ ''T''
       @ show_pad 2 h @ '':'' @ show_pad 2 m @ '':'' @ show_pad 2 s @ ''Z''"
    using c by (simp add: epoch_to_rfc3339_def Let_def day_def h_def m_def s_def)
  have "list_all (\<lambda>c. byte c < 128) ?t"
    unfolding t list_all_append using dg digits_lower by (simp add: list_all_def [symmetric])
  then have "te_lowercase te ?t = to_ascii_lowercase ?t" using assms(2) by (simp add: lowercase_law_def)
  also have "\<dots> = show_pad 4 (nat year) @ ''-'' @ show_pad 2 (nat month) @ ''-'' @ show_pad 2 (nat d) @ ''t''
       @ show_pad 2 h @ '':'' @ show_pad 2 m @ '':'' @ show_pad 2 s @ ''z''"
    unfolding t using dg [THEN digits_lower] by (simp add: to_ascii_lowercase_def ascii_lower_marks)
  finally have "te_iso te (te_lowercase te ?t) = Some \<lparr>iso_year = show_pad 4 (nat year), iso_month = show_pad 2 (nat month),
      iso_day = show_pad 2 (nat d), iso_hour = show_pad 2 h, iso_minute = show_pad 2 m,
      iso_second = Some (show_pad 2 s), iso_zone = Some ''z''\<rparr>"
    using assms(3) dg by (simp add: iso_law_def)
  moreover have "day * 86400 + int h * 3600 + int m * 60 + int s = int secs"
    using day_split [of secs] by (simp add: day_def h_def m_def s_def)
  ultimately show ?thesis
    using b hms days by (simp add: parse_reset_timestamp_def iso_to_epoch_def parse_pad zone_offset_def)
qed

text \<open>A reading of the expressions that finds exactly the fixed-width timestamps.\<close>

definition fixed_iso :: "string \<Rightarrow> iso_captures option" where
  "fixed_iso t =
     (if length t = 20
      then Some \<lparr>iso_year = take 4 t, iso_month = take 2 (drop 5 t), iso_day = take 2 (drop 8 t),
             iso_hour = take 2 (drop 11 t), iso_minute = take 2 (drop 14 t),
             iso_second = Some (take 2 (drop 17 t)), iso_zone = Some (drop 19 t)\<rparr>
      else None)"

definition sample_text_env :: text_env where
  "sample_text_env = \<lparr>te_lowercase = to_ascii_lowercase, te_epoch_marked = (\<lambda>_. None), te_epoch_pipe = (\<lambda>_. None),
     te_retry_after_secs = (\<lambda>_. None), te_duration_phrase = (\<lambda>_. []), te_iso = fixed_iso,
     te_utc_clock = (\<lambda>s. if s = ''resets 7:40pm (utc)'' then Some (''7'', Some ''40'', ''pm'') else None)\<rparr>"

lemma sample_text_laws: "lowercase_law sample_text_env" "iso_law sample_text_env"
  by (auto simp: lowercase_law_def iso_law_def sample_text_env_def fixed_iso_def digits_of_def)

theorem reset_time_round_trip_witness:
  "epoch_to_rfc3339 1000000000 = ''2001-09-09T01:46:40Z'' \<and>
   parse_reset_timestamp sample_text_env (epoch_to_rfc3339 1000000000) = Some 1000000000"
proof -
  have "parse_reset_timestamp sample_text_env (epoch_to_rfc3339 1000000000) = Some 1000000000"
    by (rule reset_time_round_trip) (simp_all add: sample_text_laws)
  moreover have "civil_from_days 11574 = (2001, 9, 9)" by code_simp
  then have "epoch_to_rfc3339 1000000000 = ''2001-09-09T01:46:40Z''"
    by (simp add: epoch_to_rfc3339_def Let_def show_pad_def show_nat.simps digit_chars)
  ultimately show ?thesis by simp
qed

lemma clock_wait:
  assumes "target < 86400"
  shows "(now + next_clock now target) mod 86400 = target"
proof -
  have "now mod 86400 < 86400" by simp
  then have "now + (target + 86400 - now mod 86400) = target + 86400 + 86400 * (now div 86400)"
    using mult_div_mod_eq [of 86400 now] by linarith
  also have "\<dots> = target + 86400 * (1 + now div 86400)" by simp
  finally have "(now + (target + 86400 - now mod 86400)) mod 86400 = (target + 86400 * (1 + now div 86400)) mod 86400"
    by (simp only:)
  also have "\<dots> = target" using assms by (simp only: mod_mult_self2 mod_less)
  finally show ?thesis by (simp only: next_clock_def mod_add_right_eq)
qed

lemma delay_sources:
  "reset_from_epoch now raw = Some d \<Longrightarrow> 30 \<le> d" "clock_delay now cap = Some d \<Longrightarrow> 30 \<le> d"
  by (auto simp: reset_from_epoch_def clock_delay_def Let_def split: option.splits if_splits prod.splits)

text \<open>
  Every reset delay read from an error text is at least thirty seconds, so a limit is
  never retried at once, whatever the expressions captured. A delay read from an epoch is
  the remaining time. A delay read from a UTC clock time is within a day and ends
  when the clock next reads that hour and minute, unless that is under thirty seconds away.
\<close>
lemma reset_delay_bounds:
  "(\<forall>lower now d. parse_reset_delay_at te lower now = Some d \<longrightarrow> 30 \<le> d) \<and>
   (\<forall>raw now v. parse_u64 raw = Some v \<longrightarrow> length raw < 13 \<longrightarrow> now + 30 \<le> v \<longrightarrow> reset_from_epoch now raw = Some (v - now)) \<and>
   (\<forall>h m ampm now d hour. clock_delay now (h, m, ampm) = Some d \<longrightarrow> parse_u64 h = Some hour \<longrightarrow>
      d \<le> 86400 \<and> (30 < d \<longrightarrow> (now + d) mod 86400 div 3600 = hour mod 12 + (if ampm = ''pm'' then 12 else 0)))"
proof (intro conjI allI impI)
  show "30 \<le> d" if "parse_reset_delay_at te lower now = Some d" for lower now d
    using that by (auto simp: parse_reset_delay_at_def dest: delay_sources split: option.splits)
  show "reset_from_epoch now raw = Some (v - now)" if "parse_u64 raw = Some v" "length raw < 13" "now + 30 \<le> v" for raw now v
    using that by (auto simp: reset_from_epoch_def)
next
  fix h m ampm and now d hour :: nat
  assume c: "clock_delay now (h, m, ampm) = Some d" and hour: "parse_u64 h = Some hour"
  define hh where "hh = hour mod 12 + (if ampm = ''pm'' then 12 else 0 :: nat)"
  obtain minute where mi: "(case m of None \<Rightarrow> Some 0 | Some t \<Rightarrow> parse_u64 t) = Some minute"
    using c hour by (cases "case m of None \<Rightarrow> Some 0 | Some t \<Rightarrow> parse_u64 t") (auto simp: clock_delay_def)
  have d: "d = max (next_clock now (hh * 3600 + minute * 60)) 30" "minute \<le> 59"
    using c by (auto simp: clock_delay_def hour mi Let_def hh_def split: if_splits)
  have h24: "hh < 24" by (auto simp: hh_def)
  then have t: "hh * 3600 + minute * 60 < 86400" using d(2) by linarith
  have "next_clock now (hh * 3600 + minute * 60) < 86400" by (simp add: next_clock_def)
  then show "d \<le> 86400" using d(1) by simp
  assume "30 < d"
  then have "(now + d) mod 86400 = hh * 3600 + minute * 60"
    using clock_wait [OF t, of now] d(1) by (simp add: max_def split: if_splits)
  moreover have "(hh * 3600 + minute * 60) div 3600 = hh" using d(2) by simp
  ultimately show "(now + d) mod 86400 div 3600 = hour mod 12 + (if ampm = ''pm'' then 12 else 0)"
    by (simp only: hh_def)
qed

text \<open>Whole days are multiplied on 64-bit numbers: an absurd count of days wraps to hours.\<close>

lemma duration_phrase_wraps: "phrase_total (Some ''213503982334602'', None, None, None) = 61184"
  by (simp add: phrase_total_def parse_u64_def strip_plus_def is_ascii_digit_def digits_val_def digit_val_def Let_def)

end
