(* ===== verification/Headroom.thy ===== *)
theory Headroom
  imports Candidate Failure_Limits
begin

text \<open>
  The headroom tracker (\<open>headroom.rs\<close>): sliding windows of prompts and failures per agent,
  quarantine of failing candidates, hard cordons per agent, candidate and provider model,
  graded seat availability from the usage poll and from client hints, and consent to paid
  usage. A clock reading is a natural number of nanoseconds; \<open>duration_since\<close> saturates as
  subtraction on naturals does. Hash maps are partial functions. \<open>f64\<close> is real.
\<close>

section \<open>State\<close>

type_synonym instant = nat

record usage_cordon =
  uc_reason :: string
  uc_resets_at :: instant
  uc_rfc3339 :: string
  uc_soft :: bool

record seat_availability =
  sa_plan_headroom :: real
  sa_plan_remaining_dollars :: "real option"
  sa_on_overage :: bool
  sa_overage_headroom :: "real option"
  sa_overage_remaining_dollars :: "real option"
  sa_source :: string

record agent_window =
  aw_prompts :: "instant list"
  aw_sessions :: "instant list"
  aw_rate_limit_failures :: "instant list"
  aw_exhausted_at :: "instant option"

definition agent_window_default :: agent_window where
  "agent_window_default = \<lparr>aw_prompts = [], aw_sessions = [], aw_rate_limit_failures = [], aw_exhausted_at = None\<rparr>"

record candidate_failures =
  cf_pre_prompt_failures :: "instant list"
  cf_quarantined_until :: "instant option"

definition candidate_failures_default :: candidate_failures where
  "candidate_failures_default = \<lparr>cf_pre_prompt_failures = [], cf_quarantined_until = None\<rparr>"

record tracker =
  tr_window :: nat
  tr_quarantine_failures :: nat
  tr_quarantine_cooloff :: nat
  tr_cordon_default :: nat
  tr_budgets :: "string \<rightharpoonup> nat"
  tr_agents :: "string \<rightharpoonup> agent_window"
  tr_candidates :: "candidate_id \<rightharpoonup> candidate_failures"
  tr_cordons :: "string \<rightharpoonup> instant \<times> string"
  tr_usage_cordons :: "candidate_id \<rightharpoonup> usage_cordon"
  tr_candidate_cordons :: "candidate_id \<rightharpoonup> usage_cordon"
  tr_model_outages :: "string \<times> string \<rightharpoonup> usage_cordon"
  tr_availability_poll :: "candidate_id \<rightharpoonup> seat_availability"
  tr_availability_hints :: "string \<rightharpoonup> (candidate_id \<rightharpoonup> seat_availability) \<times> instant"
  tr_overage_permissions :: "string \<rightharpoonup> instant option"

record headroom_config =
  hc_window_secs :: nat
  hc_quarantine_failures :: nat
  hc_quarantine_cooloff_secs :: nat
  hc_cordon_default_secs :: nat

definition NANOS :: nat where "NANOS = 1000000000"

definition tracker_new :: "headroom_config \<Rightarrow> (string \<rightharpoonup> nat) \<Rightarrow> tracker" where
  "tracker_new cfg budgets =
     \<lparr>tr_window = hc_window_secs cfg * NANOS, tr_quarantine_failures = hc_quarantine_failures cfg,
      tr_quarantine_cooloff = hc_quarantine_cooloff_secs cfg * NANOS,
      tr_cordon_default = hc_cordon_default_secs cfg * NANOS, tr_budgets = budgets,
      tr_agents = Map.empty, tr_candidates = Map.empty, tr_cordons = Map.empty, tr_usage_cordons = Map.empty,
      tr_candidate_cordons = Map.empty, tr_model_outages = Map.empty, tr_availability_poll = Map.empty,
      tr_availability_hints = Map.empty, tr_overage_permissions = Map.empty\<rparr>"

section \<open>Seat availability\<close>

definition PLAN_HEADROOM_EPSILON :: real where "PLAN_HEADROOM_EPSILON = 1 / 10 ^ 9"
definition DEFAULT_OVERAGE_BUDGET_WEIGHT :: real where "DEFAULT_OVERAGE_BUDGET_WEIGHT = 1 / 5"
definition MIN_POSITIVE :: real where "MIN_POSITIVE = 1 / 2 ^ 1022"

definition plan_exhausted :: "seat_availability \<Rightarrow> bool" where
  "plan_exhausted a \<longleftrightarrow> sa_plan_headroom a \<le> PLAN_HEADROOM_EPSILON \<and> \<not> sa_on_overage a"

definition overage_signal :: "real \<Rightarrow> seat_availability \<Rightarrow> real" where
  "overage_signal scale a =
     clamp 0 1 (unwrap_or (opt_or (map_option (\<lambda>d. min (max d 0 / scale) 1) (sa_overage_remaining_dollars a))
                                  (sa_overage_headroom a)) 0)"

definition seat_budget_with_overage_weight :: "seat_availability \<Rightarrow> real \<Rightarrow> real \<Rightarrow> real" where
  "seat_budget_with_overage_weight a scale_dollars overage_weight =
     (let scale = max scale_dollars MIN_POSITIVE;
          plan = clamp 0 1 (sa_plan_headroom a)
      in if PLAN_HEADROOM_EPSILON < plan
         then min (plan + clamp 0 1 overage_weight * overage_signal scale a) 1
         else overage_signal scale a)"

definition seat_budget :: "seat_availability \<Rightarrow> real \<Rightarrow> real" where
  "seat_budget a scale_dollars = seat_budget_with_overage_weight a scale_dollars DEFAULT_OVERAGE_BUDGET_WEIGHT"

section \<open>Cordons\<close>

definition set_usage_cordons :: "(candidate_id \<rightharpoonup> usage_cordon) \<Rightarrow> tracker \<Rightarrow> tracker" where
  "set_usage_cordons cordons t = t\<lparr>tr_usage_cordons := cordons\<rparr>"

definition register_agent :: "string \<Rightarrow> nat \<Rightarrow> tracker \<Rightarrow> tracker" where
  "register_agent agent budget t = t\<lparr>tr_budgets := (tr_budgets t)(agent \<mapsto> budget)\<rparr>"

definition reconcile_usage_cordons ::
  "(candidate_id \<rightharpoonup> usage_cordon) \<Rightarrow> string list \<Rightarrow> instant \<Rightarrow> tracker \<Rightarrow> tracker" where
  "reconcile_usage_cordons cordons observed now t =
     t\<lparr>tr_usage_cordons :=
         (\<lambda>cid. opt_filter (\<lambda>c. now < uc_resets_at c \<and> cid_agent cid \<notin> set observed) (tr_usage_cordons t cid)) ++ cordons\<rparr>"

text \<open>Both reactive cordons: kept when the present one ends no earlier, else replaced.\<close>

definition reactive_cordon :: "string \<Rightarrow> instant \<Rightarrow> usage_cordon option \<Rightarrow> usage_cordon" where
  "reactive_cordon reason resets_at present =
     (case opt_filter (\<lambda>c. resets_at \<le> uc_resets_at c) present of
        Some c \<Rightarrow> c
      | None \<Rightarrow> \<lparr>uc_reason = reason, uc_resets_at = resets_at,
                 uc_rfc3339 = epoch_to_rfc3339 (resets_at div NANOS), uc_soft = False\<rparr>)"

definition cordon_candidate :: "candidate_id \<Rightarrow> string \<Rightarrow> instant \<Rightarrow> tracker \<Rightarrow> tracker" where
  "cordon_candidate cid reason resets_at t =
     t\<lparr>tr_candidate_cordons :=
         (tr_candidate_cordons t)(cid \<mapsto> reactive_cordon reason resets_at (tr_candidate_cordons t cid))\<rparr>"

definition cordon_model_outage :: "string \<Rightarrow> string \<Rightarrow> string \<Rightarrow> instant \<Rightarrow> tracker \<Rightarrow> tracker" where
  "cordon_model_outage lineage model reason resets_at t =
     t\<lparr>tr_model_outages :=
         (tr_model_outages t)((lineage, model) \<mapsto> reactive_cordon reason resets_at (tr_model_outages t (lineage, model)))\<rparr>"

definition model_outage :: "string \<Rightarrow> string \<Rightarrow> instant \<Rightarrow> tracker \<Rightarrow> usage_cordon option" where
  "model_outage lineage model now t = opt_filter (\<lambda>c. now < uc_resets_at c) (tr_model_outages t (lineage, model))"

definition usage_cordon_at :: "candidate_id \<Rightarrow> instant \<Rightarrow> tracker \<Rightarrow> usage_cordon option" where
  "usage_cordon_at cid now t =
     (case (opt_filter (\<lambda>c. now < uc_resets_at c) (tr_usage_cordons t cid),
            opt_filter (\<lambda>c. now < uc_resets_at c) (tr_candidate_cordons t cid)) of
        (Some polled, Some reactive) \<Rightarrow>
          if uc_soft polled \<noteq> uc_soft reactive then Some (if uc_soft polled then reactive else polled)
          else Some (if uc_resets_at polled < uc_resets_at reactive then reactive else polled)
      | (polled, reactive) \<Rightarrow> opt_or polled reactive)"

definition cordon_at :: "string \<Rightarrow> nat option \<Rightarrow> string \<Rightarrow> instant \<Rightarrow> tracker \<Rightarrow> nat \<times> tracker" where
  "cordon_at agent duration reason now t =
     (let duration = unwrap_or duration (tr_cordon_default t);
          until = now + duration;
          entry = unwrap_or (tr_cordons t agent) (until, reason);
          entry' = (if fst entry < until then (until, reason) else entry)
      in (duration, t\<lparr>tr_cordons := (tr_cordons t)(agent \<mapsto> entry')\<rparr>))"

definition cordon_active_at :: "string \<Rightarrow> instant \<Rightarrow> tracker \<Rightarrow> (nat \<times> string) option \<times> tracker" where
  "cordon_active_at agent now t =
     (case tr_cordons t agent of
        Some (until, reason) \<Rightarrow>
          if now < until then (Some (until - now, reason), t)
          else (None, t\<lparr>tr_cordons := (tr_cordons t)(agent := None)\<rparr>)
      | None \<Rightarrow> (None, t))"

text \<open>\<open>active_cordons\<close> drops the expired ones; the list it returns is a view of the rest.\<close>

definition retain_cordons :: "instant \<Rightarrow> tracker \<Rightarrow> tracker" where
  "retain_cordons now t = t\<lparr>tr_cordons := (\<lambda>a. opt_filter (\<lambda>(until, _). now < until) (tr_cordons t a))\<rparr>"

section \<open>Availability\<close>

definition set_polled_availability :: "(candidate_id \<rightharpoonup> seat_availability) \<Rightarrow> tracker \<Rightarrow> tracker" where
  "set_polled_availability a t = t\<lparr>tr_availability_poll := a\<rparr>"

definition set_hinted_availability ::
  "string \<Rightarrow> (candidate_id \<rightharpoonup> seat_availability) \<Rightarrow> instant \<Rightarrow> tracker \<Rightarrow> tracker" where
  "set_hinted_availability agent a expires_at t =
     t\<lparr>tr_availability_hints := (tr_availability_hints t)(agent \<mapsto> (a, expires_at))\<rparr>"

definition set_overage_permission :: "string \<Rightarrow> instant option \<Rightarrow> tracker \<Rightarrow> tracker" where
  "set_overage_permission agent expires_at t =
     t\<lparr>tr_overage_permissions := (tr_overage_permissions t)(agent \<mapsto> expires_at)\<rparr>"

definition clear_overage_permission :: "string \<Rightarrow> tracker \<Rightarrow> tracker" where
  "clear_overage_permission agent t = t\<lparr>tr_overage_permissions := (tr_overage_permissions t)(agent := None)\<rparr>"

definition overage_denied :: "string \<Rightarrow> instant \<Rightarrow> tracker \<Rightarrow> bool" where
  "overage_denied agent now t \<longleftrightarrow>
     is_some_and (tr_overage_permissions t agent) (\<lambda>deadline. is_none_or deadline (\<lambda>expires_at. expires_at \<le> now))"

definition availability_at :: "candidate_id \<Rightarrow> instant \<Rightarrow> tracker \<Rightarrow> seat_availability option" where
  "availability_at cid now t =
     (let hinted = (case tr_availability_hints t (cid_agent cid) of
                      Some (m, expires_at) \<Rightarrow> if now < expires_at then m cid else None
                    | None \<Rightarrow> None)
      in map_option (\<lambda>a. if overage_denied (cid_agent cid) now t
                     then a\<lparr>sa_on_overage := False, sa_overage_headroom := None, sa_overage_remaining_dollars := None\<rparr>
                     else a)
           (opt_or hinted (tr_availability_poll t cid)))"

definition seat_exhausted_at :: "candidate_id \<Rightarrow> instant \<Rightarrow> tracker \<Rightarrow> bool" where
  "seat_exhausted_at cid now t \<longleftrightarrow> is_some_and (availability_at cid now t) plan_exhausted"

section \<open>Windows and quarantine\<close>

fun trim_window :: "nat \<Rightarrow> instant \<Rightarrow> instant list \<Rightarrow> instant list" where
  "trim_window window now [] = []"
| "trim_window window now (front # rest) =
     (if window < now - front then trim_window window now rest else front # rest)"

definition agent_mut :: "string \<Rightarrow> (agent_window \<Rightarrow> agent_window) \<Rightarrow> tracker \<Rightarrow> tracker" where
  "agent_mut agent f t =
     t\<lparr>tr_agents := (tr_agents t)(agent \<mapsto> f (unwrap_or (tr_agents t agent) agent_window_default))\<rparr>"

definition record_prompt_at :: "string \<Rightarrow> instant \<Rightarrow> tracker \<Rightarrow> tracker" where
  "record_prompt_at agent now = agent_mut agent (\<lambda>w. w\<lparr>aw_prompts := aw_prompts w @ [now]\<rparr>)"

definition record_session :: "string \<Rightarrow> instant \<Rightarrow> tracker \<Rightarrow> tracker" where
  "record_session agent now = agent_mut agent (\<lambda>w. w\<lparr>aw_sessions := aw_sessions w @ [now]\<rparr>)"

definition record_exhausted_at :: "string \<Rightarrow> instant \<Rightarrow> tracker \<Rightarrow> tracker" where
  "record_exhausted_at agent now =
     agent_mut agent (\<lambda>w. w\<lparr>aw_rate_limit_failures := aw_rate_limit_failures w @ [now], aw_exhausted_at := Some now\<rparr>)"

definition headroom_at :: "string \<Rightarrow> instant \<Rightarrow> tracker \<Rightarrow> real \<times> tracker" where
  "headroom_at agent now t =
     (let budget = max (unwrap_or (tr_budgets t agent) 400) 1;
          (active, t1) = cordon_active_at agent now t
      in if active \<noteq> None then (0, t1)
         else let w = unwrap_or (tr_agents t1 agent) agent_window_default;
                  w1 = w\<lparr>aw_prompts := trim_window (tr_window t) now (aw_prompts w),
                         aw_rate_limit_failures := trim_window (tr_window t) now (aw_rate_limit_failures w)\<rparr>
              in if is_some_and (aw_exhausted_at w1) (\<lambda>since. now - since \<le> tr_window t)
                 then (0, t1\<lparr>tr_agents := (tr_agents t1)(agent \<mapsto> w1)\<rparr>)
                 else (clamp 0 1 (1 - real (length (aw_prompts w1)) / real budget),
                       t1\<lparr>tr_agents := (tr_agents t1)(agent \<mapsto> w1\<lparr>aw_exhausted_at := None\<rparr>)\<rparr>))"

fun snapshot :: "string list \<Rightarrow> instant \<Rightarrow> tracker \<Rightarrow> (string \<times> real) list \<times> tracker" where
  "snapshot [] now t = ([], t)"
| "snapshot (a # as) now t =
     (let (h, t1) = headroom_at a now t; (hs, t2) = snapshot as now t1 in ((a, h) # hs, t2))"

text \<open>The failure count is compared as an unsigned 32-bit number.\<close>

definition record_pre_prompt_failure_at :: "candidate_id \<Rightarrow> instant \<Rightarrow> tracker \<Rightarrow> tracker" where
  "record_pre_prompt_failure_at cid now t =
     (let c = unwrap_or (tr_candidates t cid) candidate_failures_default;
          failures = trim_window (tr_window t) now (cf_pre_prompt_failures c @ [now]);
          c1 = c\<lparr>cf_pre_prompt_failures := failures\<rparr>;
          c2 = (if tr_quarantine_failures t \<le> length failures mod 2 ^ 32
                then c1\<lparr>cf_quarantined_until := Some (now + tr_quarantine_cooloff t)\<rparr> else c1)
      in t\<lparr>tr_candidates := (tr_candidates t)(cid \<mapsto> c2)\<rparr>)"

definition is_quarantined_at :: "candidate_id \<Rightarrow> instant \<Rightarrow> tracker \<Rightarrow> bool \<times> tracker" where
  "is_quarantined_at cid now t =
     (case tr_candidates t cid of
        None \<Rightarrow> (False, t)
      | Some c \<Rightarrow>
          (case cf_quarantined_until c of
             Some until \<Rightarrow>
               if now < until then (True, t)
               else (False, t\<lparr>tr_candidates := (tr_candidates t)(cid \<mapsto> c\<lparr>cf_quarantined_until := None,
                                                                     cf_pre_prompt_failures := []\<rparr>)\<rparr>)
           | None \<Rightarrow> (False, t)))"

section \<open>Histories\<close>

text \<open>Everything that changes a tracker, with the clock reading it happens at.\<close>

datatype tracker_op =
    CordonAgent string "nat option" string
  | ReadCordon string
  | ListCordons
  | CordonCandidate candidate_id string instant
  | CordonModel string string string instant
  | SetUsageCordons "candidate_id \<rightharpoonup> usage_cordon"
  | ReconcileUsageCordons "candidate_id \<rightharpoonup> usage_cordon" "string list"
  | SetPolled "candidate_id \<rightharpoonup> seat_availability"
  | SetHinted string "candidate_id \<rightharpoonup> seat_availability" instant
  | SetPermission string "instant option"
  | ClearPermission string
  | RegisterAgent string nat
  | RecordPrompt string
  | RecordSession string
  | RecordExhausted string
  | ReadHeadroom string
  | RecordFailure candidate_id
  | ReadQuarantine candidate_id

fun tracker_op_at :: "instant \<Rightarrow> tracker_op \<Rightarrow> tracker \<Rightarrow> tracker" where
  "tracker_op_at now (CordonAgent a d r) = snd \<circ> cordon_at a d r now"
| "tracker_op_at now (ReadCordon a) = snd \<circ> cordon_active_at a now"
| "tracker_op_at now ListCordons = retain_cordons now"
| "tracker_op_at now (CordonCandidate i r e) = cordon_candidate i r e"
| "tracker_op_at now (CordonModel l m r e) = cordon_model_outage l m r e"
| "tracker_op_at now (SetUsageCordons m) = set_usage_cordons m"
| "tracker_op_at now (ReconcileUsageCordons m obs) = reconcile_usage_cordons m obs now"
| "tracker_op_at now (SetPolled m) = set_polled_availability m"
| "tracker_op_at now (SetHinted a m e) = set_hinted_availability a m e"
| "tracker_op_at now (SetPermission a e) = set_overage_permission a e"
| "tracker_op_at now (ClearPermission a) = clear_overage_permission a"
| "tracker_op_at now (RegisterAgent a b) = register_agent a b"
| "tracker_op_at now (RecordPrompt a) = record_prompt_at a now"
| "tracker_op_at now (RecordSession a) = record_session a now"
| "tracker_op_at now (RecordExhausted a) = record_exhausted_at a now"
| "tracker_op_at now (ReadHeadroom a) = snd \<circ> headroom_at a now"
| "tracker_op_at now (RecordFailure i) = record_pre_prompt_failure_at i now"
| "tracker_op_at now (ReadQuarantine i) = snd \<circ> is_quarantined_at i now"

definition tracker_run :: "(instant \<times> tracker_op) list \<Rightarrow> tracker \<Rightarrow> tracker" where
  "tracker_run ops t = fold (\<lambda>(now, op). tracker_op_at now op) ops t"

lemma tracker_run_simps [simp]:
  "tracker_run [] t = t"
  "tracker_run ((now, op) # ops) t = tracker_run ops (tracker_op_at now op t)"
  "tracker_run (ops @ [(now, op)]) t = tracker_op_at now op (tracker_run ops t)"
  by (simp_all add: tracker_run_def)

lemmas tracker_defs = cordon_at_def cordon_active_at_def retain_cordons_def cordon_candidate_def
  cordon_model_outage_def set_usage_cordons_def reconcile_usage_cordons_def set_polled_availability_def
  set_hinted_availability_def set_overage_permission_def clear_overage_permission_def register_agent_def
  record_prompt_at_def record_session_def record_exhausted_at_def headroom_at_def agent_mut_def
  record_pre_prompt_failure_at_def is_quarantined_at_def Let_def

subsection \<open>Cordons only grow\<close>

lemma reactive_cordon_grows:
  "uc_resets_at (reactive_cordon r e p) \<ge> e" "p = Some c \<Longrightarrow> uc_resets_at c \<le> uc_resets_at (reactive_cordon r e p)"
  by (auto simp: reactive_cordon_def opt_filter_Some_iff split: option.splits if_splits)

lemma op_agent_cordon:
  assumes "tr_cordons t a = Some (until, r)" and "now < until"
  shows "\<exists>u r'. tr_cordons (tracker_op_at now op t) a = Some (u, r') \<and> until \<le> u"
  using assms by (cases op) (auto simp: tracker_defs split: option.splits)

lemma op_candidate_cordon:
  assumes "tr_candidate_cordons t i = Some c"
  shows "\<exists>c'. tr_candidate_cordons (tracker_op_at now op t) i = Some c' \<and> uc_resets_at c \<le> uc_resets_at c'"
  using assms reactive_cordon_grows(2) by (cases op) (auto simp: tracker_defs split: option.splits)

lemma op_model_outage:
  assumes "tr_model_outages t k = Some c"
  shows "\<exists>c'. tr_model_outages (tracker_op_at now op t) k = Some c' \<and> uc_resets_at c \<le> uc_resets_at c'"
  using assms reactive_cordon_grows(2) by (cases op; cases k) (auto simp: tracker_defs split: option.splits)

lemma run_agent_cordon:
  "tr_cordons t a = Some (until, r) \<Longrightarrow> \<forall>(now, op) \<in> set ops. now < until \<Longrightarrow>
   \<exists>u r'. tr_cordons (tracker_run ops t) a = Some (u, r') \<and> until \<le> u"
proof (induction ops arbitrary: t until r)
  case (Cons x ops)
  obtain now op where x: "x = (now, op)" by (cases x)
  obtain u r' where u: "tr_cordons (tracker_op_at now op t) a = Some (u, r')" "until \<le> u"
    using op_agent_cordon [OF Cons.prems(1), of now op] Cons.prems(2) x by auto
  have "\<forall>(now, op) \<in> set ops. now < u" using Cons.prems(2) u(2) by fastforce
  from Cons.IH [OF u(1) this] show ?case using u(2) x by (auto intro: order_trans)
qed simp

lemma run_candidate_cordon:
  "tr_candidate_cordons t i = Some c \<Longrightarrow>
   \<exists>c'. tr_candidate_cordons (tracker_run ops t) i = Some c' \<and> uc_resets_at c \<le> uc_resets_at c'"
proof (induction ops arbitrary: t c)
  case (Cons x ops)
  then show ?case using op_candidate_cordon [of t i c "fst x" "snd x"] by (cases x) (fastforce intro: order_trans)
qed simp

lemma run_model_outage:
  "tr_model_outages t k = Some c \<Longrightarrow>
   \<exists>c'. tr_model_outages (tracker_run ops t) k = Some c' \<and> uc_resets_at c \<le> uc_resets_at c'"
proof (induction ops arbitrary: t c)
  case (Cons x ops)
  then show ?case using op_model_outage [of t k c "fst x" "snd x"] by (cases x) (fastforce intro: order_trans)
qed simp

subsection \<open>The sliding window and the history\<close>

definition window_of :: "string \<Rightarrow> tracker \<Rightarrow> agent_window" where
  "window_of a t = unwrap_or (tr_agents t a) agent_window_default"

fun is_prompt :: "string \<Rightarrow> tracker_op \<Rightarrow> bool" where
  "is_prompt a (RecordPrompt b) = (a = b)"
| "is_prompt a _ = False"

fun is_exhaustion :: "string \<Rightarrow> tracker_op \<Rightarrow> bool" where
  "is_exhaustion a (RecordExhausted b) = (a = b)"
| "is_exhaustion a _ = False"

definition times_of :: "(tracker_op \<Rightarrow> bool) \<Rightarrow> (instant \<times> tracker_op) list \<Rightarrow> instant list" where
  "times_of p ops = map fst (filter (\<lambda>(_, op). p op) ops)"

abbreviation in_window :: "nat \<Rightarrow> instant \<Rightarrow> instant \<Rightarrow> bool" where
  "in_window w now x \<equiv> now - x \<le> w"

lemma times_of_snoc [simp]: "times_of p (ops @ [(now, op)]) = times_of p ops @ (if p op then [now] else [])"
  by (simp add: times_of_def)

lemma times_of_bounded: "sorted (map fst ops @ [now]) \<Longrightarrow> x \<in> set (times_of p ops) \<Longrightarrow> x \<le> now"
  by (auto simp: times_of_def sorted_append)

lemma tr_window_op [simp]: "tr_window (tracker_op_at now op t) = tr_window t"
  by (cases op) (auto simp: tracker_defs split: option.splits prod.splits)

lemma tr_window_run [simp]: "tr_window (tracker_run ops t) = tr_window t"
  by (induction ops arbitrary: t) (auto simp: tracker_run_def)

lemma trim_sorted: "sorted xs \<Longrightarrow> trim_window w now xs = filter (in_window w now) xs"
proof (induction xs)
  case (Cons x xs)
  then show ?case by (fastforce simp: filter_id_conv intro!: filter_True [symmetric])
qed simp

lemma op_prompts:
  "aw_prompts (window_of a (tracker_op_at now op t)) =
     (if is_prompt a op then aw_prompts (window_of a t) @ [now]
      else if op = ReadHeadroom a \<and> fst (cordon_active_at a now t) = None
      then trim_window (tr_window t) now (aw_prompts (window_of a t))
      else aw_prompts (window_of a t))"
  by (cases op) (auto simp: tracker_defs window_of_def split: option.splits prod.splits)

lemma op_exhausted:
  "aw_exhausted_at (window_of a (tracker_op_at now op t)) =
     (if is_exhaustion a op then Some now
      else if op = ReadHeadroom a \<and> fst (cordon_active_at a now t) = None
      then opt_filter (in_window (tr_window t) now) (aw_exhausted_at (window_of a t))
      else aw_exhausted_at (window_of a t))"
  by (cases op; cases "aw_exhausted_at (window_of a t)")
    (auto simp: tracker_defs window_of_def split: option.splits prod.splits)

lemma window_history:
  fixes cfg budgets
  assumes "sorted (map fst ops @ [n])"
  defines "t \<equiv> tracker_run ops (tracker_new cfg budgets)"
  shows "sorted (aw_prompts (window_of a t)) \<and> (\<forall>x \<in> set (aw_prompts (window_of a t)). x \<le> n) \<and>
         filter (in_window (tr_window t) n) (aw_prompts (window_of a t))
           = filter (in_window (tr_window t) n) (times_of (is_prompt a) ops) \<and>
         (is_some_and (aw_exhausted_at (window_of a t)) (in_window (tr_window t) n) \<longleftrightarrow>
          (\<exists>x \<in> set (times_of (is_exhaustion a) ops). in_window (tr_window t) n x))"
  using assms(1) unfolding t_def
proof (induction ops arbitrary: n rule: rev_induct)
  case Nil
  then show ?case by (simp add: window_of_def tracker_new_def agent_window_default_def times_of_def)
next
  case (snoc x ops)
  obtain now op where x: "x = (now, op)" by (cases x)
  let ?t = "tracker_run ops (tracker_new cfg budgets)" and ?w = "tr_window (tracker_new cfg budgets)"
  have now: "now \<le> n" and so: "sorted (map fst ops @ [now])" "sorted (map fst ops @ [n])"
    using snoc.prems x by (auto simp: sorted_append)
  let ?p = "aw_prompts (window_of a ?t)"
  have p: "sorted ?p" "\<forall>y \<in> set ?p. y \<le> now"
    using snoc.IH [OF so(1)] by auto
  have h: "filter (in_window ?w n) ?p = filter (in_window ?w n) (times_of (is_prompt a) ops)"
    and ex: "is_some_and (aw_exhausted_at (window_of a ?t)) (in_window ?w n) \<longleftrightarrow>
             (\<exists>y \<in> set (times_of (is_exhaustion a) ops). in_window ?w n y)"
    using snoc.IH [OF so(2)] by auto
  have mono: "in_window ?w now y" if "in_window ?w n y" for y using that now by linarith
  have trim: "trim_window ?w now ?p = filter (in_window ?w now) ?p" by (rule trim_sorted [OF p(1)])
  have ff: "filter (in_window ?w n) (filter (in_window ?w now) ys) = filter (in_window ?w n) ys" for ys
    using mono by (auto simp: filter_filter intro!: filter_cong)
  have ge: "in_window ?w n now" if "y \<in> set (times_of (is_exhaustion a) ops)" "in_window ?w n y" for y
    using times_of_bounded [OF so(1) that(1)] that(2) by linarith
  have e: "is_some_and (opt_filter (in_window ?w now) z) (in_window ?w n) = is_some_and z (in_window ?w n)" for z
    using mono by (cases z) auto
  have "sorted (aw_prompts (window_of a (tracker_op_at now op ?t)))"
    using p by (simp add: op_prompts trim sorted_append sorted_wrt_filter)
  moreover have "\<forall>y \<in> set (aw_prompts (window_of a (tracker_op_at now op ?t))). y \<le> n"
    using p(2) now by (auto simp: op_prompts trim)
  moreover have "filter (in_window ?w n) (aw_prompts (window_of a (tracker_op_at now op ?t)))
           = filter (in_window ?w n) (times_of (is_prompt a) (ops @ [(now, op)]))"
    using ff [of ?p] by (simp add: op_prompts trim h del: filter_filter)
  moreover have "is_some_and (aw_exhausted_at (window_of a (tracker_op_at now op ?t))) (in_window ?w n) \<longleftrightarrow>
          (\<exists>y \<in> set (times_of (is_exhaustion a) (ops @ [(now, op)])). in_window ?w n y)"
    using ex ge by (auto simp: op_exhausted e)
  ultimately show ?case by (simp add: x)
qed

section \<open>Correctness\<close>

text \<open>
  A cordon is never shortened. Whatever the tracker records, reads, polls or reconciles in
  between: an agent cordoned until some instant stays cordoned, with headroom 0, at every
  earlier instant; a candidate cordoned for its own failure and a model cordoned for a
  provider outage are reported as unusable until at least the reset time once recorded.
\<close>
lemma cordons_never_shortened:
  fixes ops t
  defines "t' \<equiv> tracker_run ops t"
  shows "(tr_cordons t a = Some (until, r) \<and> (\<forall>(seen, op) \<in> set ops. seen < until) \<and> now < until \<longrightarrow>
            fst (cordon_active_at a now t') \<noteq> None \<and> fst (headroom_at a now t') = 0) \<and>
         (tr_candidate_cordons t i = Some c \<and> now < uc_resets_at c \<longrightarrow> usage_cordon_at i now t' \<noteq> None) \<and>
         (tr_model_outages t (lineage, model) = Some d \<and> now < uc_resets_at d \<longrightarrow> model_outage lineage model now t' \<noteq> None)"
proof (intro conjI impI; elim conjE)
  assume "tr_cordons t a = Some (until, r)" "\<forall>(seen, op) \<in> set ops. seen < until" and now: "now < until"
  from run_agent_cordon [OF this(1,2)] obtain u r' where "tr_cordons t' a = Some (u, r')" "until \<le> u"
    by (auto simp: t'_def)
  then show "fst (cordon_active_at a now t') \<noteq> None" "fst (headroom_at a now t') = 0"
    using now by (auto simp: cordon_active_at_def headroom_at_def Let_def)
next
  assume c: "tr_candidate_cordons t i = Some c" "now < uc_resets_at c"
  obtain c' where "tr_candidate_cordons t' i = Some c'" "now < uc_resets_at c'"
    using run_candidate_cordon [OF c(1), of ops] c(2) by (auto simp: t'_def)
  then show "usage_cordon_at i now t' \<noteq> None" by (auto simp: usage_cordon_at_def split: option.splits)
next
  assume d: "tr_model_outages t (lineage, model) = Some d" "now < uc_resets_at d"
  then show "model_outage lineage model now t' \<noteq> None"
    using run_model_outage [OF d(1), of ops] d(2) by (auto simp: t'_def model_outage_def)
qed

lemma headroom_at_value:
  "fst (headroom_at a now t) =
     (if fst (cordon_active_at a now t) \<noteq> None
         \<or> is_some_and (aw_exhausted_at (window_of a t)) (in_window (tr_window t) now) then 0
      else clamp 0 1 (1 - real (length (trim_window (tr_window t) now (aw_prompts (window_of a t))))
                          / real (max (unwrap_or (tr_budgets t a) 400) 1)))"
  by (auto simp: headroom_at_def window_of_def cordon_active_at_def Let_def split: option.splits prod.splits)

lemma clamp_share: "clamp 0 1 (1 - real n / real m) = max 0 (1 - real n / real m)"
  by (auto simp: clamp_def max_def divide_less_0_iff)

text \<open>
  C29. The headroom of an agent is its sliding-window budget. After any history of operations in
  clock order on a new tracker, it is 0 while the agent is cordoned or reported exhaustion
  within the window, and otherwise the unspent share of the budget: one minus the number
  of prompts recorded within the window over the budget, not below 0; trimming
  the recorded times as they expire loses nothing that still counts.
\<close>
theorem headroom_is_window_share:
  fixes cfg budgets
  assumes "sorted (map fst ops @ [now])"
  defines "t \<equiv> tracker_run ops (tracker_new cfg budgets)" and "window \<equiv> hc_window_secs cfg * NANOS"
  shows "fst (headroom_at a now t) =
     (if fst (cordon_active_at a now t) \<noteq> None \<or> (\<exists>x \<in> set (times_of (is_exhaustion a) ops). now - x \<le> window) then 0
      else max 0 (1 - real (length (filter (\<lambda>x. now - x \<le> window) (times_of (is_prompt a) ops)))
                      / real (max (unwrap_or (tr_budgets t a) 400) 1)))"
proof -
  have w: "tr_window t = window" by (simp add: t_def window_def tracker_new_def)
  note h = window_history [OF assms(1), of a cfg budgets, folded t_def, unfolded w]
  have "trim_window window now (aw_prompts (window_of a t)) = filter (\<lambda>x. now - x \<le> window) (times_of (is_prompt a) ops)"
    using h by (simp add: trim_sorted)
  then show ?thesis using h by (simp add: headroom_at_value w clamp_share)
qed

text \<open>
  A hard cordon outranks a soft one and the later of two equal ones governs: a candidate has
  a usage cordon exactly while the poll or a failure of its own holds one, what is reported
  is one of the two, and it is hard whenever either is hard.
\<close>
lemma usage_cordon_governs:
  defines "active \<equiv> \<lambda>c now. c \<noteq> None \<and> now < uc_resets_at (the c)"
  shows "(usage_cordon_at i now t = None \<longleftrightarrow>
            \<not> active (tr_usage_cordons t i) now \<and> \<not> active (tr_candidate_cordons t i) now) \<and>
         (\<forall>c. usage_cordon_at i now t = Some c \<longrightarrow>
            now < uc_resets_at c \<and> (tr_usage_cordons t i = Some c \<or> tr_candidate_cordons t i = Some c) \<and>
            (\<forall>d. (tr_usage_cordons t i = Some d \<or> tr_candidate_cordons t i = Some d) \<longrightarrow> now < uc_resets_at d \<longrightarrow>
               (uc_soft c \<longrightarrow> uc_soft d) \<and> (uc_soft c = uc_soft d \<longrightarrow> uc_resets_at d \<le> uc_resets_at c)))"
  unfolding active_def
  by (cases "tr_usage_cordons t i"; cases "tr_candidate_cordons t i") (auto simp: usage_cordon_at_def)

text \<open>
  Quarantine is a bounded cool-off with a clean slate: the failure that brings a candidate to
  the threshold within the window makes it quarantined at every instant before the cool-off
  ends; at the first look after that it is released with its strikes cleared, so a
  single later failure does not put it back unless the threshold is one. A failure below
  the threshold quarantines nobody.
\<close>
lemma quarantine_cycle:
  fixes i now t
  defines "t' \<equiv> record_pre_prompt_failure_at i now t"
    and "strikes \<equiv> length (trim_window (tr_window t) now
           (cf_pre_prompt_failures (unwrap_or (tr_candidates t i) candidate_failures_default) @ [now]))"
  assumes "strikes < 2 ^ 32"
  shows "(tr_quarantine_failures t \<le> strikes \<longrightarrow>
            (\<forall>later. later < now + tr_quarantine_cooloff t \<longrightarrow> fst (is_quarantined_at i later t')) \<and>
            (\<forall>later again. now + tr_quarantine_cooloff t \<le> later \<longrightarrow>
               \<not> fst (is_quarantined_at i later t') \<and>
               (1 < tr_quarantine_failures t \<longrightarrow> \<not> fst (is_quarantined_at i again
                  (record_pre_prompt_failure_at i again (snd (is_quarantined_at i later t'))))))) \<and>
         (strikes < tr_quarantine_failures t \<and> (\<forall>c. tr_candidates t i = Some c \<longrightarrow> cf_quarantined_until c = None) \<longrightarrow>
            (\<forall>later. \<not> fst (is_quarantined_at i later t')))"
proof -
  define c where "c = unwrap_or (tr_candidates t i) candidate_failures_default"
  define fs where "fs = trim_window (tr_window t) now (cf_pre_prompt_failures c @ [now])"
  have "strikes = length fs" by (simp add: strikes_def fs_def c_def)
  then have "length fs mod 2 ^ 32 = strikes" using assms(3) by simp
  then have t': "tr_candidates t' i = Some \<lparr>cf_pre_prompt_failures = fs, cf_quarantined_until =
       (if tr_quarantine_failures t \<le> strikes then Some (now + tr_quarantine_cooloff t) else cf_quarantined_until c)\<rparr>"
    "tr_quarantine_failures t' = tr_quarantine_failures t"
    by (simp_all add: t'_def record_pre_prompt_failure_at_def Let_def flip: c_def fs_def)
  have "\<forall>c. tr_candidates t i = Some c \<longrightarrow> cf_quarantined_until c = None \<Longrightarrow> cf_quarantined_until c = None"
    by (cases "tr_candidates t i") (auto simp: c_def candidate_failures_default_def)
  then show ?thesis
    using t' by (auto simp: is_quarantined_at_def record_pre_prompt_failure_at_def Let_def)
qed

text \<open>The usable budget of a seat is a fraction, and more money never lowers it.\<close>

lemma overage_signal_bounds: "0 \<le> overage_signal scale a \<and> overage_signal scale a \<le> 1"
  by (simp add: overage_signal_def clamp_bounds)

lemma seat_budget_bounds:
  "0 \<le> seat_budget_with_overage_weight a scale w \<and> seat_budget_with_overage_weight a scale w \<le> 1"
proof -
  have "0 \<le> clamp 0 1 w * overage_signal (max scale MIN_POSITIVE) a"
    using overage_signal_bounds [of "max scale MIN_POSITIVE" a] clamp_bounds [of 0 1 w] by simp
  then show ?thesis
    using overage_signal_bounds [of "max scale MIN_POSITIVE" a] clamp_bounds [of 0 1 "sa_plan_headroom a"]
    by (auto simp: seat_budget_with_overage_weight_def Let_def)
qed

text \<open>
  The budget alone does not put plan before overage: a seat whose plan is gone and whose
  overage pool is full has a larger budget than one with a tenth of its plan free.
\<close>

definition sample_seat :: "real \<Rightarrow> real option \<Rightarrow> seat_availability" where
  "sample_seat plan dollars = \<lparr>sa_plan_headroom = plan, sa_plan_remaining_dollars = None, sa_on_overage = dollars \<noteq> None,
     sa_overage_headroom = None, sa_overage_remaining_dollars = dollars, sa_source = ''poll''\<rparr>"

lemma overage_budget_exceeds_plan:
  "seat_budget (sample_seat (1 / 10) None) 200 = 1 / 10" "seat_budget (sample_seat 0 (Some 200)) 200 = 1"
proof -
  have "max 200 MIN_POSITIVE = (200 :: real)" by (simp add: MIN_POSITIVE_def)
  then show "seat_budget (sample_seat (1 / 10) None) 200 = 1 / 10" "seat_budget (sample_seat 0 (Some 200)) 200 = 1"
    by (simp_all add: seat_budget_def seat_budget_with_overage_weight_def overage_signal_def sample_seat_def
        clamp_def PLAN_HEADROOM_EPSILON_def)
qed

section \<open>Witnesses\<close>

definition sample_headroom_config :: headroom_config where
  "sample_headroom_config = \<lparr>hc_window_secs = 100, hc_quarantine_failures = 2, hc_quarantine_cooloff_secs = 10,
     hc_cordon_default_secs = 60\<rparr>"

definition sample_tracker :: tracker where
  "sample_tracker = tracker_new sample_headroom_config [''claude'' \<mapsto> 4]"

definition sample_model :: candidate_id where
  "sample_model = \<lparr>cid_agent = ''claude'', cid_model = ''opus''\<rparr>"

theorem headroom_is_window_share_witness:
  "fst (headroom_at ''claude'' (103 * NANOS) (tracker_run [(0, RecordPrompt ''claude''), (NANOS, ReadHeadroom ''claude''),
      (102 * NANOS, RecordPrompt ''claude'')] (tracker_new sample_headroom_config [''claude'' \<mapsto> 4]))) = 3 / 4"
  by (subst headroom_is_window_share)
    (simp_all add: NANOS_def times_of_def sample_headroom_config_def tracker_new_def tracker_defs
      agent_window_default_def max_def)

end
