(* ===== verification/Usage_Limits.thy ===== *)
theory Usage_Limits
  imports Headroom
begin

text \<open>
  What the router decides from provider usage readings (\<open>usage.rs\<close>): usage cordons with the
  configured reserves, seat availability per candidate from plan windows and the paid pool,
  for both providers, and the client's availability hints. The payloads are JSON values; the
  spend lookup of the database, the printing and parsing of floating point numbers and the
  text captures are arguments. Numbers of a payload are real and unbounded.
\<close>

section \<open>Numbers of a payload\<close>

record usage_env =
  ue_text :: text_env
  ue_show_f64 :: "real \<Rightarrow> string"
  ue_parse_f64 :: "string \<Rightarrow> real option"

fun as_f64 :: "json \<Rightarrow> real option" where
  "as_f64 (JInt n) = Some (real_of_int n)"
| "as_f64 (JFloat r) = Some r"
| "as_f64 _ = None"

fun as_u64 :: "json \<Rightarrow> nat option" where
  "as_u64 (JInt n) = (if 0 \<le> n then Some (nat n) else None)"
| "as_u64 _ = None"

definition not_null :: "json \<Rightarrow> bool" where
  "not_null v \<longleftrightarrow> v \<noteq> JNull"

definition get_f64 :: "json \<Rightarrow> string \<Rightarrow> real option" where
  "get_f64 v k = Option.bind (json_get v k) as_f64"

definition get_str :: "json \<Rightarrow> string \<Rightarrow> string option" where
  "get_str v k = Option.bind (json_get v k) as_str"

definition get_bool :: "json \<Rightarrow> string \<Rightarrow> bool option" where
  "get_bool v k = Option.bind (json_get v k) as_bool"

definition field :: "json \<Rightarrow> string \<Rightarrow> string \<Rightarrow> json option" where
  "field v snake camel = opt_or (opt_filter not_null (json_get v snake)) (opt_filter not_null (json_get v camel))"

definition field_f64 :: "json \<Rightarrow> string \<Rightarrow> string \<Rightarrow> real option" where
  "field_f64 v snake camel = Option.bind (field v snake camel) as_f64"

definition field_u64 :: "json \<Rightarrow> string \<Rightarrow> string \<Rightarrow> nat option" where
  "field_u64 v snake camel = Option.bind (field v snake camel) as_u64"

definition field_bool :: "json \<Rightarrow> string \<Rightarrow> string \<Rightarrow> bool option" where
  "field_bool v snake camel = Option.bind (field v snake camel) as_bool"

section \<open>Cordons\<close>

record reserve_capacity =
  res_weekly :: real
  res_session :: real

type_synonym cordon_map = "candidate_id \<rightharpoonup> usage_cordon"
type_synonym avail_map = "candidate_id \<rightharpoonup> seat_availability"
type_synonym named_candidates = "(candidate_id \<times> string) list"

definition model_matches :: "usage_env \<Rightarrow> string \<Rightarrow> candidate_id \<Rightarrow> string \<Rightarrow> bool" where
  "model_matches ue api_name cid display =
     (let n = te_lowercase (ue_text ue) api_name in
      n \<noteq> [] \<and> (contains_str (te_lowercase (ue_text ue) (cid_model cid)) n
                 \<or> contains_str (te_lowercase (ue_text ue) display) n))"

definition upsert_latest :: "candidate_id \<Rightarrow> usage_cordon \<Rightarrow> cordon_map \<Rightarrow> cordon_map" where
  "upsert_latest cid new m =
     (if is_none_or (m cid) (\<lambda>c. if uc_soft c \<noteq> uc_soft new then uc_soft c else uc_resets_at c < uc_resets_at new)
      then m(cid \<mapsto> new) else m)"

definition reserve_reset :: "instant option \<Rightarrow> real \<Rightarrow> instant \<Rightarrow> instant option" where
  "reserve_reset reported reserved now =
     (case reported of
        Some t \<Rightarrow> if now < t then Some t else None
      | None \<Rightarrow> if 0 < reserved then Some (now + 900 * NANOS) else None)"

definition overage_has_headroom :: "json \<Rightarrow> bool" where
  "overage_has_headroom payload \<longleftrightarrow>
     is_some_and (json_get payload ''extra_usage'')
       (\<lambda>eu. get_bool eu ''is_enabled'' = Some True \<and> unwrap_or (get_f64 eu ''utilization'') 100 < 100)
     \<or> is_some_and (json_get payload ''spend'')
       (\<lambda>sp. get_bool sp ''enabled'' = Some True \<and> unwrap_or (get_f64 sp ''percent'') 100 < 100)"

definition epoch_time :: "nat \<Rightarrow> instant" where
  "epoch_time secs = secs * NANOS"

definition scope_model :: "json \<Rightarrow> string option" where
  "scope_model lm =
     Option.bind (Option.bind (json_get lm ''scope'') (\<lambda>s. json_get s ''model''))
       (\<lambda>m. opt_or (opt_filter (\<lambda>s. s \<noteq> []) (get_str m ''display_name'')) (get_str m ''id''))"

definition limit_kind :: "json \<Rightarrow> string" where
  "limit_kind lm = unwrap_or (get_str lm ''kind'') []"

definition limit_reserve :: "reserve_capacity \<Rightarrow> json \<Rightarrow> real" where
  "limit_reserve reserve lm =
     (if limit_kind lm = ''session'' then res_session reserve
      else if starts_with (limit_kind lm) ''weekly'' then res_weekly reserve else 0)"

definition limit_reset :: "usage_env \<Rightarrow> json \<Rightarrow> instant option" where
  "limit_reset ue lm =
     map_option epoch_time (Option.bind (get_str lm ''resets_at'') (parse_reset_timestamp (ue_text ue)))"

definition reserve_notes :: "usage_env \<Rightarrow> real \<Rightarrow> instant option \<Rightarrow> string" where
  "reserve_notes ue reserved timestamp =
     (if 0 < reserved then '' ('' @ ue_show_f64 ue reserved @ ''% capacity reserved)'' else [])
     @ (if timestamp = None then ''; provider reset unknown, temporary cordon'' else [])"

text \<open>What one reported limit cordons: nothing, or the candidates it covers with the cordon.\<close>

definition limit_reason :: "usage_env \<Rightarrow> reserve_capacity \<Rightarrow> json \<Rightarrow> string" where
  "limit_reason ue reserve lm =
     (case opt_filter (\<lambda>m. m \<noteq> []) (scope_model lm) of
        Some model \<Rightarrow> ''Weekly '' @ model @ '' limit reached''
      | None \<Rightarrow> if limit_kind lm = ''session'' then ''5-hour usage limit reached'' else ''Weekly usage limit reached'')
     @ reserve_notes ue (limit_reserve reserve lm) (limit_reset ue lm)"

definition limit_covers :: "usage_env \<Rightarrow> json \<Rightarrow> candidate_id \<Rightarrow> string \<Rightarrow> bool" where
  "limit_covers ue lm cid display =
     (case opt_filter (\<lambda>m. m \<noteq> []) (scope_model lm) of
        Some model \<Rightarrow> model_matches ue model cid display
      | None \<Rightarrow> True)"

definition limit_cordon :: "usage_env \<Rightarrow> bool \<Rightarrow> reserve_capacity \<Rightarrow> instant \<Rightarrow> json \<Rightarrow> usage_cordon option" where
  "limit_cordon ue overage reserve now lm =
     (let reserved = limit_reserve reserve lm; timestamp = limit_reset ue lm in
      case get_f64 lm ''percent'' of
        None \<Rightarrow> None
      | Some percent \<Rightarrow>
          if percent < 100 - reserved \<or> reserved = 0 \<and> overage then None
          else map_option (\<lambda>resets_at.
                 \<lparr>uc_reason = limit_reason ue reserve lm, uc_resets_at = resets_at,
                  uc_rfc3339 = unwrap_or (Option.bind timestamp (\<lambda>_. get_str lm ''resets_at''))
                                 (epoch_to_rfc3339 (resets_at div NANOS)),
                  uc_soft = (0 < reserved \<and> (percent < 100 \<or> overage))\<rparr>)
               (reserve_reset timestamp reserved now))"

definition cordon_all :: "(candidate_id \<Rightarrow> string \<Rightarrow> bool) \<Rightarrow> named_candidates \<Rightarrow> usage_cordon \<Rightarrow> cordon_map \<Rightarrow> cordon_map" where
  "cordon_all covers candidates c m =
     fold (\<lambda>(cid, display) m. if covers cid display then upsert_latest cid c m else m) candidates m"

definition anthropic_cordons_with_reserve ::
  "usage_env \<Rightarrow> json \<Rightarrow> named_candidates \<Rightarrow> reserve_capacity \<Rightarrow> instant \<Rightarrow> cordon_map" where
  "anthropic_cordons_with_reserve ue payload candidates reserve now =
     (case Option.bind (json_get payload ''limits'') as_array of
        None \<Rightarrow> Map.empty
      | Some limits \<Rightarrow>
          fold (\<lambda>lm m. case limit_cordon ue (overage_has_headroom payload) reserve now lm of
                          None \<Rightarrow> m
                        | Some c \<Rightarrow> cordon_all (limit_covers ue lm) candidates c m) limits Map.empty)"

section \<open>Availability from windows\<close>

record avail_window =
  win_percent :: real
  win_scope :: "string option"
  win_saturated :: bool
  win_remaining_dollars :: "real option"

definition min_option :: "real option \<Rightarrow> real option \<Rightarrow> real option" where
  "min_option a b = (case (a, b) of (Some x, Some y) \<Rightarrow> Some (min x y) | _ \<Rightarrow> opt_or a b)"

definition window_covers :: "usage_env \<Rightarrow> candidate_id \<Rightarrow> string \<Rightarrow> avail_window \<Rightarrow> bool" where
  "window_covers ue cid display w \<longleftrightarrow> is_none_or (win_scope w) (\<lambda>scope. model_matches ue scope cid display)"

definition free_share :: "real \<Rightarrow> real" where
  "free_share percent = clamp 0 1 (1 - percent / 100)"

definition seat_from_windows ::
  "usage_env \<Rightarrow> avail_window list \<Rightarrow> bool \<Rightarrow> real option \<Rightarrow> real option \<Rightarrow> string \<Rightarrow> candidate_id \<Rightarrow> string \<Rightarrow> seat_availability option" where
  "seat_from_windows ue windows overage_available overage_headroom overage_dollars source cid display =
     (let covering = filter (window_covers ue cid display) windows in
      case fold (\<lambda>w h. Some (case h of None \<Rightarrow> free_share (win_percent w) | Some x \<Rightarrow> min x (free_share (win_percent w)))) covering None of
        None \<Rightarrow> None
      | Some plan \<Rightarrow> Some
          \<lparr>sa_plan_headroom = plan,
           sa_plan_remaining_dollars = fold (\<lambda>w d. min_option d (win_remaining_dollars w)) covering None,
           sa_on_overage = (list_ex win_saturated covering \<and> overage_available),
           sa_overage_headroom = overage_headroom, sa_overage_remaining_dollars = overage_dollars, sa_source = source\<rparr>)"

definition availability_from_windows ::
  "usage_env \<Rightarrow> avail_window list \<Rightarrow> bool \<Rightarrow> real option \<Rightarrow> real option \<Rightarrow> named_candidates \<Rightarrow> string \<Rightarrow> avail_map" where
  "availability_from_windows ue windows overage_available overage_headroom overage_dollars candidates source =
     fold (\<lambda>(cid, display) m.
             case seat_from_windows ue windows overage_available overage_headroom overage_dollars source cid display of
               None \<Rightarrow> m | Some a \<Rightarrow> m(cid \<mapsto> a)) candidates Map.empty"

definition worst_seat :: "seat_availability \<Rightarrow> seat_availability \<Rightarrow> seat_availability" where
  "worst_seat e a =
     e\<lparr>sa_plan_headroom := min (sa_plan_headroom e) (sa_plan_headroom a),
       sa_plan_remaining_dollars := min_option (sa_plan_remaining_dollars e) (sa_plan_remaining_dollars a),
       sa_on_overage := (sa_on_overage e \<or> sa_on_overage a),
       sa_overage_headroom := min_option (sa_overage_headroom e) (sa_overage_headroom a),
       sa_overage_remaining_dollars := min_option (sa_overage_remaining_dollars e) (sa_overage_remaining_dollars a)\<rparr>"

definition merge_worst :: "avail_map \<Rightarrow> avail_map \<Rightarrow> avail_map" where
  "merge_worst into new =
     (\<lambda>cid. case new cid of
        None \<Rightarrow> into cid
      | Some a \<Rightarrow> Some (case into cid of None \<Rightarrow> a | Some e \<Rightarrow> worst_seat e a))"

section \<open>Spend estimates\<close>

definition MIN_ESTIMATE_PERCENT :: real where "MIN_ESTIMATE_PERCENT = 15"
definition MIN_ESTIMATE_SPENT_DOLLARS :: real where "MIN_ESTIMATE_SPENT_DOLLARS = 1 / 2"

definition window_remaining_dollars :: "real \<Rightarrow> real \<Rightarrow> real option" where
  "window_remaining_dollars spent percent =
     (if percent < MIN_ESTIMATE_PERCENT \<or> spent < MIN_ESTIMATE_SPENT_DOLLARS then None
      else Some (spent * max (100 - percent) 0 / percent))"

type_synonym spend_lookup = "string list option \<Rightarrow> instant \<Rightarrow> real option"

definition window_scope_models :: "usage_env \<Rightarrow> string option \<Rightarrow> named_candidates \<Rightarrow> string list option" where
  "window_scope_models ue scope candidates =
     map_option (\<lambda>s. map (\<lambda>(cid, _). candidate_display cid) (filter (\<lambda>(cid, display). model_matches ue s cid display) candidates)) scope"

definition estimate_plan_window_dollars ::
  "usage_env \<Rightarrow> spend_lookup option \<Rightarrow> named_candidates \<Rightarrow> string option \<Rightarrow> instant \<Rightarrow> nat \<Rightarrow> real \<Rightarrow> real option" where
  "estimate_plan_window_dollars ue spend candidates scope resets_at duration percent =
     (case spend of
        None \<Rightarrow> None
      | Some lookup \<Rightarrow>
          if resets_at < duration then None
          else Option.bind (lookup (window_scope_models ue scope candidates) (resets_at - duration))
                 (\<lambda>spent. window_remaining_dollars spent percent))"

section \<open>Anthropic\<close>

definition anthropic_window_duration :: "string \<Rightarrow> nat option" where
  "anthropic_window_duration kind =
     (if kind = ''session'' then Some (5 * 3600 * NANOS)
      else if kind = ''weekly_all'' \<or> kind = ''weekly_scoped'' then Some (7 * 86400 * NANOS) else None)"

definition anthropic_overage_headroom :: "json \<Rightarrow> real option" where
  "anthropic_overage_headroom payload =
     opt_or
       (Option.bind (opt_filter (\<lambda>eu. get_bool eu ''is_enabled'' = Some True) (json_get payload ''extra_usage''))
          (\<lambda>eu. map_option free_share (get_f64 eu ''utilization'')))
       (Option.bind (opt_filter (\<lambda>sp. get_bool sp ''enabled'' = Some True) (json_get payload ''spend''))
          (\<lambda>sp. map_option free_share (get_f64 sp ''percent'')))"

definition dollars_left :: "real option \<Rightarrow> real option \<Rightarrow> nat \<Rightarrow> real option" where
  "dollars_left limit used places =
     Option.bind limit (\<lambda>l. map_option (\<lambda>u. max ((l - u) / 10 ^ places) 0) used)"

definition anthropic_overage_dollars :: "json \<Rightarrow> real option" where
  "anthropic_overage_dollars payload =
     opt_or
       (Option.bind (opt_filter (\<lambda>sp. get_bool sp ''enabled'' = Some True) (json_get payload ''spend''))
          (\<lambda>sp. dollars_left (Option.bind (json_get sp ''limit'') (\<lambda>l. get_f64 l ''amount_minor''))
                  (Option.bind (json_get sp ''used'') (\<lambda>u. get_f64 u ''amount_minor''))
                  (unwrap_or (Option.bind (Option.bind (json_get sp ''limit'') (\<lambda>l. json_get l ''exponent'')) as_u64) 2)))
       (Option.bind (opt_filter (\<lambda>eu. get_bool eu ''is_enabled'' = Some True) (json_get payload ''extra_usage''))
          (\<lambda>eu. dollars_left (get_f64 eu ''monthly_limit'') (get_f64 eu ''used_credits'')
                  (unwrap_or (Option.bind (json_get eu ''decimal_places'') as_u64) 2)))"

definition anthropic_window ::
  "usage_env \<Rightarrow> named_candidates \<Rightarrow> spend_lookup option \<Rightarrow> instant \<Rightarrow> json \<Rightarrow> avail_window option" where
  "anthropic_window ue candidates spend now lm =
     (if is_some_and (limit_reset ue lm) (\<lambda>reset. reset \<le> now) then None
      else map_option (\<lambda>percent.
        \<lparr>win_percent = percent, win_scope = scope_model lm, win_saturated = (100 \<le> percent),
         win_remaining_dollars =
           Option.bind (Option.bind (get_str lm ''kind'') anthropic_window_duration) (\<lambda>duration.
             Option.bind (Option.bind (get_str lm ''resets_at'')
                 (\<lambda>s. parse_reset_delay_at (ue_text ue) (te_lowercase (ue_text ue) s) (now div NANOS)))
               (\<lambda>delay. estimate_plan_window_dollars ue spend candidates (scope_model lm) (now + delay * NANOS) duration percent))\<rparr>)
        (get_f64 lm ''percent''))"

definition anthropic_availability_with_spend ::
  "usage_env \<Rightarrow> json \<Rightarrow> named_candidates \<Rightarrow> spend_lookup option \<Rightarrow> instant \<Rightarrow> avail_map" where
  "anthropic_availability_with_spend ue payload candidates spend now =
     (case Option.bind (json_get payload ''limits'') as_array of
        None \<Rightarrow> Map.empty
      | Some limits \<Rightarrow>
          availability_from_windows ue (List.map_filter (anthropic_window ue candidates spend now) limits)
            (overage_has_headroom payload) (anthropic_overage_headroom payload) (anthropic_overage_dollars payload)
            candidates ''poll'')"

section \<open>Codex\<close>

definition as_dollar_amount :: "usage_env \<Rightarrow> json \<Rightarrow> real option" where
  "as_dollar_amount ue v = opt_or (as_f64 v) (Option.bind (as_str v) (ue_parse_f64 ue))"

definition codex_windows :: "json \<Rightarrow> (string \<times> json) list" where
  "codex_windows pool =
     List.map_filter (\<lambda>key. map_option (\<lambda>w. (key, w)) (opt_filter not_null (json_get pool key))) [''primary'', ''secondary'']"

definition window_reset :: "json \<Rightarrow> instant option" where
  "window_reset win = map_option epoch_time (field_u64 win ''resets_at'' ''resetsAt'')"

definition window_used :: "json \<Rightarrow> real option" where
  "window_used win = field_f64 win ''used_percent'' ''usedPercent''"

definition codex_plan_has_headroom :: "json \<Rightarrow> instant \<Rightarrow> bool" where
  "codex_plan_has_headroom pool now \<longleftrightarrow>
     list_all (\<lambda>(_, win). is_some_and (window_reset win) (\<lambda>t. t \<le> now) \<or> unwrap_or (window_used win) 0 < 100) (codex_windows pool)"

definition individual_limit :: "json \<Rightarrow> json option" where
  "individual_limit pool = field pool ''individual_limit'' ''individualLimit''"

definition remaining_percent :: "json \<Rightarrow> real option" where
  "remaining_percent il = field_f64 il ''remaining_percent'' ''remainingPercent''"

definition spend_control_reached :: "json \<Rightarrow> bool" where
  "spend_control_reached pool \<longleftrightarrow> field_bool pool ''spend_control_reached'' ''spendControlReached'' = Some True"

definition codex_overage_usable :: "json \<Rightarrow> bool" where
  "codex_overage_usable pool =
     (if spend_control_reached pool then False
      else case Option.bind (individual_limit pool) remaining_percent of
        Some remaining \<Rightarrow> 0 < remaining
      | None \<Rightarrow>
          (case opt_filter not_null (json_get pool ''credits'') of
             None \<Rightarrow> False
           | Some credits \<Rightarrow>
               get_bool credits ''unlimited'' = Some True
               \<or> field_bool credits ''has_credits'' ''hasCredits'' = Some True
                 \<and> is_some_and (get_f64 credits ''balance'') (\<lambda>b. 0 < b)))"

definition codex_overage_headroom :: "json \<Rightarrow> real option" where
  "codex_overage_headroom pool =
     (if spend_control_reached pool then Some 0
      else case Option.bind (individual_limit pool) remaining_percent of
        Some remaining \<Rightarrow> Some (clamp 0 1 (remaining / 100))
      | None \<Rightarrow>
          Option.bind (opt_filter not_null (json_get pool ''credits''))
            (\<lambda>credits. if get_bool credits ''unlimited'' = Some True then Some 1 else None))"

definition member_dollars :: "usage_env \<Rightarrow> json \<Rightarrow> real option" where
  "member_dollars ue il =
     Option.bind (Option.bind (json_get il ''limit'') (as_dollar_amount ue))
       (\<lambda>limit. map_option (\<lambda>used. max (limit - used) 0) (Option.bind (json_get il ''used'') (as_dollar_amount ue)))"

definition codex_overage_dollars :: "usage_env \<Rightarrow> json \<Rightarrow> real option" where
  "codex_overage_dollars ue pool =
     (if spend_control_reached pool then Some 0
      else case Option.bind (individual_limit pool) (member_dollars ue) of
        Some d \<Rightarrow> Some d
      | None \<Rightarrow>
          Option.bind (opt_filter not_null (json_get pool ''credits''))
            (\<lambda>credits. Option.bind (json_get credits ''balance'') (as_dollar_amount ue)))"

definition codex_window ::
  "usage_env \<Rightarrow> named_candidates \<Rightarrow> spend_lookup option \<Rightarrow> instant \<Rightarrow> json \<Rightarrow> avail_window option" where
  "codex_window ue candidates spend now win =
     (case window_used win of
        None \<Rightarrow> None
      | Some used \<Rightarrow>
          if is_some_and (window_reset win) (\<lambda>t. t \<le> now) then None
          else Some
            \<lparr>win_percent = used, win_scope = None, win_saturated = (100 \<le> used),
             win_remaining_dollars =
               Option.bind (window_reset win) (\<lambda>resets_at.
                 Option.bind (field_u64 win ''window_minutes'' ''windowDurationMins'') (\<lambda>mins.
                   estimate_plan_window_dollars ue spend candidates None resets_at (mins * 60 * NANOS) used))\<rparr>)"

definition member_window :: "usage_env \<Rightarrow> instant \<Rightarrow> json \<Rightarrow> avail_window option" where
  "member_window ue now pool =
     (if codex_plan_has_headroom pool now then None
      else Option.bind (individual_limit pool) (\<lambda>il.
        Option.bind (remaining_percent il) (\<lambda>remaining.
          if is_none_or (window_reset il) (\<lambda>t. now < t)
          then Some \<lparr>win_percent = clamp 0 100 (100 - remaining), win_scope = None, win_saturated = (remaining \<le> 0),
                     win_remaining_dollars = member_dollars ue il\<rparr>
          else None)))"

definition pool_windows :: "usage_env \<Rightarrow> named_candidates \<Rightarrow> spend_lookup option \<Rightarrow> instant \<Rightarrow> json \<Rightarrow> avail_window list" where
  "pool_windows ue candidates spend now pool =
     List.map_filter (\<lambda>(_, win). codex_window ue candidates spend now win) (codex_windows pool)
     @ (case member_window ue now pool of None \<Rightarrow> [] | Some w \<Rightarrow> [w])"

definition codex_availability_with_spend ::
  "usage_env \<Rightarrow> json list \<Rightarrow> named_candidates \<Rightarrow> spend_lookup option \<Rightarrow> instant \<Rightarrow> avail_map" where
  "codex_availability_with_spend ue rate_limits candidates spend now =
     fold (\<lambda>pool m. merge_worst m
             (availability_from_windows ue (pool_windows ue candidates spend now pool) (codex_overage_usable pool)
               (codex_overage_headroom pool) (codex_overage_dollars ue pool) candidates ''poll'')) rate_limits Map.empty"

definition member_cordon :: "instant \<Rightarrow> json \<Rightarrow> usage_cordon option" where
  "member_cordon now pool =
     (if codex_plan_has_headroom pool now then None
      else Option.bind (individual_limit pool) (\<lambda>il.
        if is_some_and (remaining_percent il) (\<lambda>r. r \<le> 0)
        then Option.bind (field_u64 il ''resets_at'' ''resetsAt'') (\<lambda>epoch.
               if now < epoch_time epoch
               then Some \<lparr>uc_reason = ''Codex member usage limit reached'', uc_resets_at = epoch_time epoch,
                          uc_rfc3339 = epoch_to_rfc3339 epoch, uc_soft = False\<rparr>
               else None)
        else None))"

definition window_minutes :: "string \<Rightarrow> json \<Rightarrow> nat" where
  "window_minutes key win =
     unwrap_or (field_u64 win ''window_minutes'' ''windowDurationMins'') (if key = ''secondary'' then 10080 else 300)"

definition window_cordon ::
  "usage_env \<Rightarrow> bool \<Rightarrow> reserve_capacity \<Rightarrow> instant \<Rightarrow> string \<times> json \<Rightarrow> usage_cordon option" where
  "window_cordon ue overage reserve now = (\<lambda>(key, win).
     let weekly = 1440 \<le> window_minutes key win;
         reserved = (if weekly then res_weekly reserve else res_session reserve)
     in case window_used win of
          None \<Rightarrow> None
        | Some used \<Rightarrow>
            if used < 100 - reserved \<or> reserved = 0 \<and> overage then None
            else map_option (\<lambda>resets_at.
                   \<lparr>uc_reason = (if weekly then ''Codex weekly usage limit reached'' else ''Codex 5-hour usage limit reached'')
                       @ reserve_notes ue reserved (window_reset win),
                    uc_resets_at = resets_at, uc_rfc3339 = epoch_to_rfc3339 (resets_at div NANOS),
                    uc_soft = (0 < reserved \<and> (used < 100 \<or> overage))\<rparr>)
                 (reserve_reset (window_reset win) reserved now))"

definition pool_cordons :: "usage_env \<Rightarrow> reserve_capacity \<Rightarrow> instant \<Rightarrow> json \<Rightarrow> usage_cordon list" where
  "pool_cordons ue reserve now pool =
     (case member_cordon now pool of None \<Rightarrow> [] | Some c \<Rightarrow> [c])
     @ List.map_filter (window_cordon ue (codex_overage_usable pool) reserve now) (codex_windows pool)"

definition codex_cordons_with_reserve ::
  "usage_env \<Rightarrow> json list \<Rightarrow> named_candidates \<Rightarrow> reserve_capacity \<Rightarrow> instant \<Rightarrow> cordon_map" where
  "codex_cordons_with_reserve ue rate_limits candidates reserve now =
     fold (\<lambda>pool m. fold (cordon_all (\<lambda>_ _. True) candidates) (pool_cordons ue reserve now pool) m) rate_limits Map.empty"

definition codex_pools_from_payload :: "json \<Rightarrow> json list" where
  "codex_pools_from_payload payload =
     (let pools = (case json_get payload ''rateLimitsByLimitId'' of
                     Some (JObject m) \<Rightarrow> filter not_null (map snd m)
                   | _ \<Rightarrow> [])
      in if pools = []
         then (case opt_filter not_null (json_get payload ''rateLimits'') of None \<Rightarrow> [] | Some rl \<Rightarrow> [rl])
         else pools)"

section \<open>Client hints\<close>

definition hint_window :: "json \<Rightarrow> avail_window option" where
  "hint_window w =
     Option.bind (get_f64 w ''percent'') (\<lambda>percent.
       if 100 \<le> percent \<and> get_bool w ''active'' = Some False then None
       else Some \<lparr>win_percent = percent, win_scope = opt_filter (\<lambda>s. s \<noteq> []) (get_str w ''scope''),
                  win_saturated = (100 \<le> percent \<or> unwrap_or (get_bool w ''active'') False),
                  win_remaining_dollars = get_f64 w ''remaining_dollars''\<rparr>)"

definition hint_agent_availability :: "usage_env \<Rightarrow> json \<Rightarrow> named_candidates \<Rightarrow> avail_map" where
  "hint_agent_availability ue entry candidates =
     (let windows = List.map_filter hint_window (unwrap_or (Option.bind (json_get entry ''windows'') as_array) []);
          overage_entry = opt_filter (\<lambda>ov. get_bool ov ''enabled'' = Some True) (json_get entry ''overage'');
          overage_percent = unwrap_or (Option.bind overage_entry (\<lambda>ov. get_f64 ov ''percent'')) 100
      in availability_from_windows ue windows (overage_entry \<noteq> None \<and> overage_percent < 100)
           (map_option (\<lambda>_. free_share overage_percent) overage_entry)
           (Option.bind overage_entry (\<lambda>ov. get_f64 ov ''remaining_dollars'')) candidates ''hint'')"

definition overage_permission_expiry :: "usage_env \<Rightarrow> json \<Rightarrow> instant \<Rightarrow> nat \<Rightarrow> instant option" where
  "overage_permission_expiry ue entry now hint_ttl =
     (case json_get entry ''overage_expires_at'' of
        None \<Rightarrow> Some (now + hint_ttl)
      | Some (JString expires) \<Rightarrow> map_option epoch_time (parse_reset_timestamp (ue_text ue) expires)
      | Some _ \<Rightarrow> None)"

text \<open>One agent entry of a hint, for the candidates of that agent.\<close>

definition apply_hint_entry ::
  "usage_env \<Rightarrow> bool \<Rightarrow> (string \<Rightarrow> named_candidates) \<Rightarrow> nat \<Rightarrow> instant \<Rightarrow> json \<Rightarrow> tracker \<Rightarrow> tracker" where
  "apply_hint_entry ue enabled agent_candidates ttl now entry t =
     (case get_str entry ''agent'' of
        None \<Rightarrow> t
      | Some agent \<Rightarrow>
          if agent_candidates agent = [] then t
          else let t1 = (case json_get entry ''overage_allowed'' of
                           Some JNull \<Rightarrow> clear_overage_permission agent t
                         | Some (JBool False) \<Rightarrow> set_overage_permission agent None t
                         | Some (JBool True) \<Rightarrow>
                             set_overage_permission agent (overage_permission_expiry ue entry now (ttl * NANOS)) t
                         | _ \<Rightarrow> t)
               in if \<not> enabled \<or> json_get entry ''windows'' = None then t1
                  else set_hinted_availability agent (hint_agent_availability ue entry (agent_candidates agent))
                         (now + ttl * NANOS) t1)"

definition apply_availability_hint ::
  "usage_env \<Rightarrow> bool \<Rightarrow> (string \<Rightarrow> named_candidates) \<Rightarrow> nat \<Rightarrow> instant \<Rightarrow> json \<Rightarrow> tracker \<Rightarrow> tracker" where
  "apply_availability_hint ue enabled agent_candidates default_ttl now params t =
     (case Option.bind (json_get params ''agents'') as_array of
        None \<Rightarrow> t
      | Some agents \<Rightarrow>
          (let ttl = unwrap_or (Option.bind (opt_or (json_get params ''ttl_secs'') (json_get params ''ttlSecs'')) as_u64) default_ttl
           in fold (apply_hint_entry ue enabled agent_candidates ttl now) agents t))"

section \<open>Which cordon governs\<close>

text \<open>Every reading folds the cordons that apply to a candidate with the rule of \<open>upsert_latest\<close>.\<close>

definition upsert_one :: "usage_cordon \<Rightarrow> usage_cordon option \<Rightarrow> usage_cordon option" where
  "upsert_one new old =
     (if is_none_or old (\<lambda>c. if uc_soft c \<noteq> uc_soft new then uc_soft c else uc_resets_at c < uc_resets_at new)
      then Some new else old)"

lemma upsert_latest_one: "upsert_latest cid new m = m(cid := upsert_one new (m cid))"
  by (auto simp: upsert_latest_def upsert_one_def)

lemma upsert_one_some [simp]: "upsert_one new old \<noteq> None"
  by (cases old) (auto simp: upsert_one_def)

lemma upsert_one_idem [simp]: "upsert_one new (upsert_one new old) = upsert_one new old"
  by (cases old) (auto simp: upsert_one_def)

definition governs :: "usage_cordon \<Rightarrow> usage_cordon \<Rightarrow> bool" where
  "governs c d \<longleftrightarrow> (uc_soft c \<longrightarrow> uc_soft d) \<and> (uc_soft c = uc_soft d \<longrightarrow> uc_resets_at d \<le> uc_resets_at c)"

lemma governs_refl [simp]: "governs c c"
  by (simp add: governs_def)

lemma governs_trans: "governs a b \<Longrightarrow> governs b c \<Longrightarrow> governs a c"
  by (cases "uc_soft a"; cases "uc_soft b"; cases "uc_soft c") (auto simp: governs_def)

lemma upsert_one_governs:
  "upsert_one new old = Some c \<Longrightarrow> governs c new \<and> (\<forall>d. old = Some d \<longrightarrow> governs c d) \<and> (c = new \<or> old = Some c)"
  by (cases old) (auto simp: upsert_one_def governs_def split: if_splits)

lemma fold_upsert:
  "fold upsert_one cs old = None \<longleftrightarrow> cs = [] \<and> old = None"
  "fold upsert_one cs old = Some c \<Longrightarrow>
     (c \<in> set cs \<or> old = Some c) \<and> (\<forall>d. d \<in> set cs \<or> old = Some d \<longrightarrow> governs c d)"
proof (induction cs arbitrary: old)
  case (Cons new cs)
  { case 1 then show ?case using Cons.IH(1) by simp }
  { case 2
    then have f: "fold upsert_one cs (upsert_one new old) = Some c" by simp
    obtain e where e: "upsert_one new old = Some e" using upsert_one_some by blast
    from Cons.IH(2) [OF f] upsert_one_governs [OF e] e show ?case
      by (auto intro: governs_trans) }
qed auto

locale usage_reading =
  fixes cordons :: "'p \<Rightarrow> candidate_id \<Rightarrow> usage_cordon option" and breaches :: "'p \<Rightarrow> candidate_id \<Rightarrow> usage_cordon list"
  assumes folded: "cordons p i = fold upsert_one (breaches p i) None"
begin

lemma cordoned_iff: "cordons p i = None \<longleftrightarrow> breaches p i = []"
  by (simp add: folded fold_upsert)

lemma cordon_governs: "cordons p i = Some c \<Longrightarrow> c \<in> set (breaches p i) \<and> (\<forall>d \<in> set (breaches p i). governs c d)"
  using fold_upsert(2) [of "breaches p i" None c] by (auto simp: folded)

lemma hard_cordon: "cordons p i = Some c \<Longrightarrow> \<not> uc_soft c \<longleftrightarrow> (\<exists>d \<in> set (breaches p i). \<not> uc_soft d)"
  using cordon_governs [of p i c] by (auto simp: governs_def)

end

definition covered :: "(candidate_id \<Rightarrow> string \<Rightarrow> bool) \<Rightarrow> named_candidates \<Rightarrow> candidate_id \<Rightarrow> bool" where
  "covered covers candidates i \<longleftrightarrow> (\<exists>display. (i, display) \<in> set candidates \<and> covers i display)"

lemma cordon_all_at: "cordon_all covers candidates c m i = (if covered covers candidates i then upsert_one c (m i) else m i)"
  unfolding cordon_all_def covered_def
proof (induction candidates arbitrary: m)
  case (Cons x xs)
  then show ?case by (cases x) (auto simp: upsert_latest_one)
qed simp

record anthropic_reading =
  ar_env :: usage_env
  ar_payload :: json
  ar_candidates :: named_candidates
  ar_reserve :: reserve_capacity
  ar_now :: instant

definition reported_limits :: "json \<Rightarrow> json list" where
  "reported_limits payload = unwrap_or (Option.bind (json_get payload ''limits'') as_array) []"

definition anthropic_cordons_of :: "anthropic_reading \<Rightarrow> cordon_map" where
  "anthropic_cordons_of r = anthropic_cordons_with_reserve (ar_env r) (ar_payload r) (ar_candidates r) (ar_reserve r) (ar_now r)"

definition limit_breach :: "anthropic_reading \<Rightarrow> json \<Rightarrow> usage_cordon option" where
  "limit_breach r = limit_cordon (ar_env r) (overage_has_headroom (ar_payload r)) (ar_reserve r) (ar_now r)"

definition anthropic_breaches :: "anthropic_reading \<Rightarrow> candidate_id \<Rightarrow> usage_cordon list" where
  "anthropic_breaches r i =
     List.map_filter (\<lambda>lm. if covered (limit_covers (ar_env r) lm) (ar_candidates r) i then limit_breach r lm else None)
       (reported_limits (ar_payload r))"

lemma fold_cordons_at:
  "fold (\<lambda>x m. case f x of None \<Rightarrow> m | Some c \<Rightarrow> cordon_all (g x) candidates c m) xs m i =
   fold upsert_one (List.map_filter (\<lambda>x. if covered (g x) candidates i then f x else None) xs) (m i)"
  by (induction xs arbitrary: m) (auto simp: map_filter_simps cordon_all_at split: option.splits)

interpretation anthropic: usage_reading anthropic_cordons_of anthropic_breaches
proof
  fix r i
  show "anthropic_cordons_of r i = fold upsert_one (anthropic_breaches r i) None"
    using fold_cordons_at [where m = Map.empty and f = "limit_breach r" and g = "limit_covers (ar_env r)" and candidates = "ar_candidates r" and i = i]
    by (simp add: anthropic_cordons_of_def anthropic_cordons_with_reserve_def anthropic_breaches_def reported_limits_def
        limit_breach_def map_filter_simps split: option.splits)
qed

definition codex_cordons_of :: "usage_env \<times> json list \<times> named_candidates \<times> reserve_capacity \<times> instant \<Rightarrow> cordon_map" where
  "codex_cordons_of = (\<lambda>(ue, pools, candidates, reserve, now). codex_cordons_with_reserve ue pools candidates reserve now)"

definition codex_breaches :: "usage_env \<times> json list \<times> named_candidates \<times> reserve_capacity \<times> instant \<Rightarrow> candidate_id \<Rightarrow> usage_cordon list" where
  "codex_breaches = (\<lambda>(ue, pools, candidates, reserve, now) i.
     if i \<in> fst ` set candidates then concat (map (pool_cordons ue reserve now) pools) else [])"

lemma fold_pool_at:
  "fold (cordon_all (\<lambda>_ _. True) candidates) cs m i = (if i \<in> fst ` set candidates then fold upsert_one cs (m i) else m i)"
  by (induction cs arbitrary: m) (auto simp: cordon_all_at covered_def image_iff)

lemma fold_pools_at:
  "fold (\<lambda>pool. fold (cordon_all (\<lambda>_ _. True) candidates) (f pool)) pools m i =
   (if i \<in> fst ` set candidates then fold upsert_one (concat (map f pools)) (m i) else m i)"
  by (induction pools arbitrary: m) (auto simp: fold_pool_at)

interpretation codex: usage_reading codex_cordons_of codex_breaches
proof
  fix p i
  show "codex_cordons_of p i = fold upsert_one (codex_breaches p i) None"
    by (cases p) (simp add: codex_cordons_of_def codex_breaches_def codex_cordons_with_reserve_def fold_pools_at)
qed

text \<open>When one reported limit is a breach, and when it is a hard one.\<close>

lemma limit_breach_iff:
  "limit_breach r lm \<noteq> None \<longleftrightarrow>
     (\<exists>p. get_f64 lm ''percent'' = Some p \<and> 100 - limit_reserve (ar_reserve r) lm \<le> p) \<and>
     \<not> (limit_reserve (ar_reserve r) lm = 0 \<and> overage_has_headroom (ar_payload r)) \<and>
     (case limit_reset (ar_env r) lm of Some t \<Rightarrow> ar_now r < t | None \<Rightarrow> 0 < limit_reserve (ar_reserve r) lm)"
  by (auto simp: limit_breach_def limit_cordon_def Let_def reserve_reset_def not_less not_le split: option.splits if_splits)

lemma hard_breach:
  assumes "limit_breach r lm = Some c" "\<not> uc_soft c" "0 \<le> limit_reserve (ar_reserve r) lm"
  shows "\<exists>p. get_f64 lm ''percent'' = Some p \<and> 100 \<le> p" and "\<not> overage_has_headroom (ar_payload r)"
    and "\<not> is_some_and (limit_reset (ar_env r) lm) (\<lambda>t. t \<le> ar_now r)"
  using assms by (auto simp: limit_breach_def limit_cordon_def Let_def reserve_reset_def split: option.splits if_splits)

section \<open>Availability\<close>

lemma free_share_bounds: "0 \<le> free_share p" "free_share p \<le> 1"
  by (simp_all add: free_share_def clamp_def)

lemma free_share_full: "100 \<le> p \<Longrightarrow> free_share p = 0"
  by (simp add: free_share_def clamp_def)

definition least_share :: "avail_window list \<Rightarrow> real option \<Rightarrow> real option" where
  "least_share ws h = fold (\<lambda>w h. Some (case h of None \<Rightarrow> free_share (win_percent w) | Some x \<Rightarrow> min x (free_share (win_percent w)))) ws h"

lemma least_share:
  "least_share ws h = None \<longleftrightarrow> ws = [] \<and> h = None"
  "least_share ws h = Some x \<Longrightarrow>
     (x \<in> free_share ` win_percent ` set ws \<or> h = Some x) \<and> (\<forall>w \<in> set ws. x \<le> free_share (win_percent w)) \<and> (\<forall>y. h = Some y \<longrightarrow> x \<le> y)"
proof (induction ws arbitrary: h)
  case (Cons w ws)
  { case 1 then show ?case using Cons.IH(1) by (simp add: least_share_def) }
  { case 2
    then have "least_share ws (Some (case h of None \<Rightarrow> free_share (win_percent w) | Some x \<Rightarrow> min x (free_share (win_percent w)))) = Some x"
      by (simp add: least_share_def)
    from Cons.IH(2) [OF this] show ?case by (auto simp: min_def split: option.splits if_splits) }
qed (simp_all add: least_share_def)

lemma seat_from_windows_iff:
  "seat_from_windows ue ws av oh od src i d = Some a \<longleftrightarrow>
     (let cov = filter (window_covers ue i d) ws in
      least_share cov None = Some (sa_plan_headroom a) \<and>
      a = \<lparr>sa_plan_headroom = sa_plan_headroom a,
           sa_plan_remaining_dollars = fold (\<lambda>w d. min_option d (win_remaining_dollars w)) cov None,
           sa_on_overage = (list_ex win_saturated cov \<and> av),
           sa_overage_headroom = oh, sa_overage_remaining_dollars = od, sa_source = src\<rparr>)"
  by (auto simp: seat_from_windows_def least_share_def Let_def split: option.splits)

lemma availability_at_windows:
  "availability_from_windows ue ws av oh od cands src i = Some a \<Longrightarrow>
   \<exists>d. (i, d) \<in> set cands \<and> seat_from_windows ue ws av oh od src i d = Some a"
proof -
  have "fold (\<lambda>(cid, display) m. case f cid display of None \<Rightarrow> m | Some a \<Rightarrow> m(cid \<mapsto> a)) xs m i = Some a \<Longrightarrow>
      m i = Some a \<or> (\<exists>d. (i, d) \<in> set xs \<and> f i d = Some a)" for f xs and m :: avail_map
    by (induction xs arbitrary: m) (fastforce split: option.splits if_splits)+
  then show "availability_from_windows ue ws av oh od cands src i = Some a \<Longrightarrow> ?thesis"
    unfolding availability_from_windows_def by fastforce
qed

text \<open>A reading that reports paid usage only on a spent plan.\<close>

definition spent_on_overage :: "seat_availability \<Rightarrow> bool" where
  "spent_on_overage a \<longleftrightarrow> 0 \<le> sa_plan_headroom a \<and> sa_plan_headroom a \<le> 1 \<and> (sa_on_overage a \<longrightarrow> sa_plan_headroom a = 0)"

definition full_when_saturated :: "avail_window \<Rightarrow> bool" where
  "full_when_saturated w \<longleftrightarrow> (win_saturated w \<longrightarrow> 100 \<le> win_percent w)"

lemma windows_spent_on_overage:
  assumes "availability_from_windows ue ws av oh od cands src i = Some a" "\<forall>w \<in> set ws. full_when_saturated w"
  shows "spent_on_overage a"
proof -
  obtain d where "seat_from_windows ue ws av oh od src i d = Some a" using availability_at_windows [OF assms(1)] by blast
  then have s: "least_share (filter (window_covers ue i d) ws) None = Some (sa_plan_headroom a)"
    "sa_on_overage a \<longrightarrow> list_ex win_saturated (filter (window_covers ue i d) ws)"
    by (auto simp: seat_from_windows_iff Let_def) (metis seat_availability.select_convs(3))+
  have b: "0 \<le> sa_plan_headroom a" "sa_plan_headroom a \<le> 1"
    using least_share(2) [OF s(1)] free_share_bounds by auto
  moreover have "sa_plan_headroom a \<le> 0" if ov: "sa_on_overage a"
  proof -
    obtain w where w: "w \<in> set (filter (window_covers ue i d) ws)" "win_saturated w"
      using s(2) ov by (auto simp: list_ex_iff)
    then have "100 \<le> win_percent w" using assms(2) by (auto simp: full_when_saturated_def)
    then show ?thesis using least_share(2) [OF s(1)] w free_share_full by fastforce
  qed
  ultimately show ?thesis by (auto simp: spent_on_overage_def)
qed

lemma merge_spent:
  assumes "merge_worst m n i = Some a" "\<And>b. m i = Some b \<Longrightarrow> spent_on_overage b" "\<And>b. n i = Some b \<Longrightarrow> spent_on_overage b"
  shows "spent_on_overage a"
  using assms by (fastforce simp: merge_worst_def worst_seat_def spent_on_overage_def min_def split: option.splits)

lemma anthropic_window_full: "anthropic_window ue c sp now lm = Some w \<Longrightarrow> full_when_saturated w"
  by (auto simp: anthropic_window_def full_when_saturated_def split: if_splits)

lemma pool_windows_full: "w \<in> set (pool_windows ue c sp now pool) \<Longrightarrow> full_when_saturated w"
  by (auto simp: pool_windows_def List.map_filter_def codex_window_def member_window_def full_when_saturated_def clamp_def
      split: option.splits if_splits bind_splits)

lemma codex_fold_spent:
  "(\<And>b. m i = Some b \<Longrightarrow> spent_on_overage b) \<Longrightarrow>
   fold (\<lambda>pool m. merge_worst m (availability_from_windows ue (pool_windows ue c sp now pool) (codex_overage_usable pool)
               (codex_overage_headroom pool) (codex_overage_dollars ue pool) c ''poll'')) pools m i = Some a \<Longrightarrow> spent_on_overage a"
proof (induction pools arbitrary: m)
  case (Cons pool pools)
  let ?n = "availability_from_windows ue (pool_windows ue c sp now pool) (codex_overage_usable pool)
               (codex_overage_headroom pool) (codex_overage_dollars ue pool) c ''poll''"
  have "spent_on_overage b" if "merge_worst m ?n i = Some b" for b
    by (rule merge_spent [OF that Cons.prems(1)]) (auto intro: windows_spent_on_overage pool_windows_full)
  from Cons.IH [OF this] Cons.prems(2) show ?case by simp
qed simp

lemma fold_seats_other:
  "i \<notin> fst ` set xs \<Longrightarrow>
   fold (\<lambda>(cid, display) m. case f cid display of None \<Rightarrow> m | Some a \<Rightarrow> m(cid \<mapsto> a)) xs m i = m i"
  by (induction xs arbitrary: m) (auto split: option.splits)

lemma fold_seats_at:
  "distinct (map fst xs) \<Longrightarrow> (i, d) \<in> set xs \<Longrightarrow> m i = None \<Longrightarrow>
   fold (\<lambda>(cid, display) m. case f cid display of None \<Rightarrow> m | Some a \<Rightarrow> m(cid \<mapsto> a)) xs m i = f i d"
proof (induction xs arbitrary: m)
  case (Cons x xs)
  show ?case
  proof (cases "fst x = i")
    case True
    then have "x = (i, d)" "i \<notin> fst ` set xs" using Cons.prems(1,2) by (auto simp: image_iff)
    then show ?thesis using Cons.prems(3) by (simp add: fold_seats_other split: option.splits)
  next
    case False
    then have "(i, d) \<in> set xs" "distinct (map fst xs)" using Cons.prems by auto
    then show ?thesis using False Cons.prems(3) by (cases x) (simp add: Cons.IH split: option.splits)
  qed
qed simp

lemma availability_of_seat:
  "distinct (map fst cands) \<Longrightarrow> (i, d) \<in> set cands \<Longrightarrow>
   availability_from_windows ue ws av oh od cands src i = seat_from_windows ue ws av oh od src i d"
  unfolding availability_from_windows_def by (simp add: fold_seats_at)

lemma set_map_filter: "y \<in> set (List.map_filter f xs) \<longleftrightarrow> (\<exists>x \<in> set xs. f x = Some y)"
  by (force simp: List.map_filter_def)

section \<open>What a reading means for a seat\<close>

text \<open>
  C35. A usage reading cordons exactly the candidates it should. A candidate is cordoned iff
  a reported limit that covers it has reached what the reserve leaves of it, is not absorbed
  by paid usage (unless a reserve is set), and resets in the future or, with a reserve set,
  at a time the provider did not report. Of several cordons a hard one governs, then the
  latest, and its reset is in the future.
\<close>
theorem usage_cordons_exact:
  fixes ue payload cands reserve now i
  defines "cordons \<equiv> anthropic_cordons_with_reserve ue payload cands reserve now"
    and "overage \<equiv> overage_has_headroom payload"
    and "applies \<equiv> \<lambda>lm. lm \<in> set (reported_limits payload) \<and> covered (limit_covers ue lm) cands i"
  shows "(cordons i \<noteq> None \<longleftrightarrow>
      (\<exists>lm p. applies lm \<and> get_f64 lm ''percent'' = Some p \<and> 100 - limit_reserve reserve lm \<le> p \<and>
         \<not> (limit_reserve reserve lm = 0 \<and> overage) \<and>
         (case limit_reset ue lm of Some t \<Rightarrow> now < t | None \<Rightarrow> 0 < limit_reserve reserve lm))) \<and>
    (\<forall>c. cordons i = Some c \<longrightarrow> now < uc_resets_at c \<and>
       (\<exists>lm. applies lm \<and> limit_cordon ue overage reserve now lm = Some c) \<and>
       (\<forall>lm d. applies lm \<longrightarrow> limit_cordon ue overage reserve now lm = Some d \<longrightarrow> governs c d))"
proof -
  define r where "r = \<lparr>ar_env = ue, ar_payload = payload, ar_candidates = cands, ar_reserve = reserve, ar_now = now\<rparr>"
  have sel: "ar_env r = ue" "ar_payload r = payload" "ar_reserve r = reserve" "ar_now r = now" by (simp_all add: r_def)
  have c: "cordons = anthropic_cordons_of r" by (simp add: cordons_def anthropic_cordons_of_def r_def)
  have b: "limit_breach r = limit_cordon ue overage reserve now" by (simp add: limit_breach_def r_def overage_def)
  have bs: "set (anthropic_breaches r i) = {d. \<exists>lm. applies lm \<and> limit_breach r lm = Some d}"
    by (force simp: anthropic_breaches_def set_map_filter applies_def r_def split: if_splits)
  have "cordons i \<noteq> None \<longleftrightarrow> (\<exists>lm. applies lm \<and> limit_breach r lm \<noteq> None)"
    unfolding c anthropic.cordoned_iff set_empty [symmetric] bs by auto
  also have "\<dots> \<longleftrightarrow> (\<exists>lm p. applies lm \<and> get_f64 lm ''percent'' = Some p \<and> 100 - limit_reserve reserve lm \<le> p \<and>
         \<not> (limit_reserve reserve lm = 0 \<and> overage) \<and>
         (case limit_reset ue lm of Some t \<Rightarrow> now < t | None \<Rightarrow> 0 < limit_reserve reserve lm))"
    unfolding limit_breach_iff sel overage_def by blast
  finally have 1: "cordons i \<noteq> None \<longleftrightarrow> \<dots>" .
  have future: "now < uc_resets_at d" if "limit_breach r lm = Some d" for lm d
    using that by (auto simp: b limit_cordon_def Let_def reserve_reset_def NANOS_def split: option.splits if_splits)
  show ?thesis
    using 1 anthropic.cordon_governs [of r i] future unfolding c [symmetric] bs b by blast
qed

text \<open>
  A hard cordon and the seat reading agree: when a reading cordons a candidate hard, the
  availability computed from the same reading says its plan is exhausted with no paid usage
  to absorb more, so the candidate stays out of routing even before the cordon is installed.
\<close>
lemma hard_cordon_exhausts_seat:
  assumes "anthropic_cordons_with_reserve ue payload cands reserve now i = Some c" and "\<not> uc_soft c"
    and "0 \<le> res_weekly reserve" and "0 \<le> res_session reserve" and "distinct (map fst cands)"
    and "\<forall>lm \<in> set (reported_limits payload). scope_model lm \<noteq> Some []"
  shows "\<exists>a. anthropic_availability_with_spend ue payload cands spend now i = Some a \<and> plan_exhausted a"
proof -
  define r where "r = \<lparr>ar_env = ue, ar_payload = payload, ar_candidates = cands, ar_reserve = reserve, ar_now = now\<rparr>"
  have "anthropic_cordons_of r i = Some c" using assms(1) by (simp add: anthropic_cordons_of_def r_def)
  then have "c \<in> set (anthropic_breaches r i)" using anthropic.cordon_governs by blast
  then obtain lm d where lm: "lm \<in> set (reported_limits payload)" "(i, d) \<in> set cands" "limit_covers ue lm i d" "limit_breach r lm = Some c"
    by (auto simp: anthropic_breaches_def set_map_filter covered_def r_def split: if_splits)
  have "0 \<le> limit_reserve (ar_reserve r) lm" using assms(3,4) by (simp add: limit_reserve_def r_def)
  note hard = hard_breach [OF lm(4) assms(2) this]
  obtain w where w: "anthropic_window ue cands spend now lm = Some w" "100 \<le> win_percent w" "win_scope w = scope_model lm"
    using hard(1,3) by (auto simp: anthropic_window_def r_def)
  define ws where "ws = List.map_filter (anthropic_window ue cands spend now) (reported_limits payload)"
  have w_in: "w \<in> set ws" using lm(1) w(1) by (auto simp: ws_def set_map_filter)
  have cov: "window_covers ue i d w"
    using lm(1,3) assms(6) w(3) by (cases "scope_model lm") (auto simp: window_covers_def limit_covers_def)
  obtain x where x: "least_share (filter (window_covers ue i d) ws) None = Some x"
    using least_share(1) [of "filter (window_covers ue i d) ws" None] w_in cov by (auto simp: filter_empty_conv)
  have "x \<le> 0" using least_share(2) [OF x] w_in cov free_share_full [OF w(2)] by fastforce
  moreover have "anthropic_availability_with_spend ue payload cands spend now i =
      seat_from_windows ue ws False (anthropic_overage_headroom payload) (anthropic_overage_dollars payload) ''poll'' i d"
    using lm(1) hard(2) availability_of_seat [OF assms(5) lm(2)]
    by (auto simp: anthropic_availability_with_spend_def ws_def reported_limits_def r_def split: option.splits)
  ultimately show ?thesis
    using x by (simp add: seat_from_windows_def least_share_def Let_def plan_exhausted_def PLAN_HEADROOM_EPSILON_def)
qed

text \<open>
  A seat pays for overage only on a spent plan. In every polled reading, of either provider,
  the free share of the plan is between 0 and 1 and a seat reported on overage has none left,
  whatever windows, pools and member limits were reported and however they are merged.
\<close>
lemma overage_only_when_spent:
  "(anthropic_availability_with_spend ue payload cands spend now i = Some a \<longrightarrow>
      0 \<le> sa_plan_headroom a \<and> sa_plan_headroom a \<le> 1 \<and> (sa_on_overage a \<longrightarrow> sa_plan_headroom a = 0)) \<and>
   (codex_availability_with_spend ue pools cands spend now i = Some b \<longrightarrow>
      0 \<le> sa_plan_headroom b \<and> sa_plan_headroom b \<le> 1 \<and> (sa_on_overage b \<longrightarrow> sa_plan_headroom b = 0))"
proof -
  have "spent_on_overage a" if "anthropic_availability_with_spend ue payload cands spend now i = Some a"
    using that windows_spent_on_overage anthropic_window_full unfolding anthropic_availability_with_spend_def
    by (fastforce split: option.splits simp: set_map_filter)
  moreover have "spent_on_overage b" if "codex_availability_with_spend ue pools cands spend now i = Some b"
    using that unfolding codex_availability_with_spend_def by (rule codex_fold_spent [rotated]) simp
  ultimately show ?thesis by (simp add: spent_on_overage_def)
qed

section \<open>Readings on concrete payloads\<close>

definition sample_usage_env :: usage_env where
  "sample_usage_env = \<lparr>ue_text = sample_text_env, ue_show_f64 = (\<lambda>_. ''10''), ue_parse_f64 = (\<lambda>_. None)\<rparr>"

definition sample_seat_id :: candidate_id where
  "sample_seat_id = \<lparr>cid_agent = ''claude@a'', cid_model = ''opus''\<rparr>"

definition full_session :: json where
  "full_session = JObject [(''kind'', JString ''session''), (''percent'', JInt 100)]"

definition full_payload :: json where
  "full_payload = JObject [(''limits'', JArray [full_session])]"

definition tenth_reserved :: reserve_capacity where
  "tenth_reserved = \<lparr>res_weekly = 10, res_session = 10\<rparr>"

lemmas sample_usage_defs = full_payload_def full_session_def reported_limits_def scope_model_def get_f64_def get_str_def get_bool_def
  limit_reserve_def limit_kind_def limit_reset_def tenth_reserved_def limit_covers_def covered_def overage_has_headroom_def

theorem usage_cordons_exact_witness:
  "anthropic_cordons_with_reserve sample_usage_env full_payload [(sample_seat_id, ''Opus'')] tenth_reserved 7 sample_seat_id \<noteq> None"
proof -
  have "full_session \<in> set (reported_limits full_payload) \<and>
      covered (limit_covers sample_usage_env full_session) [(sample_seat_id, ''Opus'')] sample_seat_id"
    by (simp add: sample_usage_defs)
  moreover have "get_f64 full_session ''percent'' = Some 100" "100 - limit_reserve tenth_reserved full_session \<le> 100"
    "limit_reserve tenth_reserved full_session = 10" "limit_reset sample_usage_env full_session = None"
    by (simp_all add: sample_usage_defs)
  ultimately show ?thesis
    by (intro iffD2 [OF conjunct1 [OF usage_cordons_exact]] exI [of _ full_session] exI [of _ 100]) simp
qed

definition overage_pool :: json where
  "overage_pool = JObject [(''primary'', JObject [(''used_percent'', JInt 100)]),
     (''individual_limit'', JObject [(''remaining_percent'', JInt 50)])]"

text \<open>
  A client hint can report what no poll does: a window below its cap that it calls active makes
  the seat count as on overage while part of its plan is free.
\<close>

definition active_hint :: json where
  "active_hint = JObject [(''windows'', JArray [JObject [(''percent'', JInt 72), (''active'', JBool True)]]),
     (''overage'', JObject [(''enabled'', JBool True), (''percent'', JInt 40)])]"

lemma hint_overage_with_free_plan:
  "\<exists>a. hint_agent_availability ue active_hint [(i, d)] i = Some a \<and> sa_on_overage a \<and> sa_plan_headroom a = 28 / 100"
  by (simp add: hint_agent_availability_def active_hint_def hint_window_def get_f64_def get_bool_def get_str_def map_filter_simps
      availability_from_windows_def seat_from_windows_def window_covers_def free_share_def clamp_def Let_def)

end
