(* ===== verification/Strategies.thy ===== *)
theory Strategies
  imports Candidate Planner_Types "HOL-Library.Product_Lexorder" "HOL-Library.Multiset"
begin

text \<open>
  The routing strategies (\<open>strategies/\<close>): \<open>static\<close>, \<open>auto\<close>, \<open>pareto-code\<close>, \<open>escalation\<close> and \<open>planner\<close>,
  the shared ordering and the headroom caps. Each strategy ranks a pool of eligible
  candidates into a fallback chain. Scores are real numbers; the disclosure texts and
  weights of a ranked candidate are not modelled, its note is kept as data.
\<close>

section \<open>Views and rankings\<close>

record candidate_view =
  cv_id :: candidate_id
  cv_cost_rank :: nat
  cv_config_index :: nat
  cv_quality :: real
  cv_coding_tier :: coding_tier
  cv_headroom :: real
  cv_plan_headroom :: "real option"
  cv_on_overage :: bool
  cv_preference :: real

datatype planner_difficulty = Easy | Hard

record route_context =
  rt_class :: task_class
  rt_complexity :: real
  rt_explicit_candidate :: "candidate_id option"
  rt_planner_phase :: "planner_phase option"
  rt_planner_difficulty :: "planner_difficulty option"
  rt_planner_explicit :: bool

datatype route_note =
    GateNote
  | TierFallback coding_tier coding_tier
  | StaticFallback candidate_id
  | Delegated "strategy_kind option" "route_note option"
  | Preferred "route_note option"

record ranked_candidate =
  rk_candidate :: candidate_id
  rk_score :: real
  rk_note :: "route_note option"

datatype route_error =
    NoAllowedCandidates
  | NoStaticCandidate
  | StaticNotRouteable candidate_id
  | NoFallback candidate_id
  | NoTier
  | NoEscalationCandidates

section \<open>Headroom caps\<close>

definition FREE_PLAN_EPSILON :: real where "FREE_PLAN_EPSILON = 1 / 10 ^ 9"

definition max_free_metered_plan :: "candidate_view list \<Rightarrow> real option" where
  "max_free_metered_plan views =
     fold (\<lambda>p acc. Some (case acc of None \<Rightarrow> p | Some a \<Rightarrow> max a p))
       (filter (\<lambda>p. FREE_PLAN_EPSILON < p)
         (List.map_filter cv_plan_headroom (filter (\<lambda>v. \<not> cv_on_overage v) views)))
       None"

definition cap_unmetered_headroom :: "candidate_view list \<Rightarrow> candidate_view list" where
  "cap_unmetered_headroom views =
     (case max_free_metered_plan views of
        None \<Rightarrow> views
      | Some cap \<Rightarrow>
          map (\<lambda>v. if cv_plan_headroom v = None then v\<lparr>cv_headroom := min (cv_headroom v) cap\<rparr> else v) views)"

definition cap_overage_headroom :: "real \<Rightarrow> candidate_view list \<Rightarrow> candidate_view list" where
  "cap_overage_headroom overage_budget_weight views =
     (case max_free_metered_plan views of
        None \<Rightarrow> views
      | Some cap \<Rightarrow>
          (let weight = clamp 0 1 overage_budget_weight in
           map (\<lambda>v. if cv_on_overage v
                 then v\<lparr>cv_headroom := min (cv_headroom v * weight) cap, cv_preference := cv_preference v * weight\<rparr>
                 else v) views))"

section \<open>Shared ordering\<close>

definition effective_cost :: "candidate_view \<Rightarrow> real" where
  "effective_cost v = real (cv_cost_rank v) / max (cv_headroom v) (1 / 100)"

text \<open>\<open>sort_ranked\<close>: a stable sort by score down, effective cost up, config order up.\<close>

definition rank_key :: "real \<times> candidate_view \<times> route_note option \<Rightarrow> real \<times> real \<times> nat" where
  "rank_key = (\<lambda>(score, v, _). (- score, effective_cost v, cv_config_index v))"

definition sort_ranked ::
  "(real \<times> candidate_view \<times> route_note option) list \<Rightarrow> (real \<times> candidate_view \<times> route_note option) list" where
  "sort_ranked pool = sort_key rank_key pool"

definition to_ranked :: "(real \<times> candidate_view \<times> route_note option) list \<Rightarrow> ranked_candidate list" where
  "to_ranked = map (\<lambda>(score, v, note). \<lparr>rk_candidate = cv_id v, rk_score = score, rk_note = note\<rparr>)"

text \<open>The cheapest-first order of \<open>pareto-code\<close> and \<open>escalation\<close>.\<close>

definition cheap_key :: "candidate_view \<Rightarrow> real \<times> real \<times> nat" where
  "cheap_key v = (effective_cost v, - cv_preference v, cv_config_index v)"

definition cost_score :: "candidate_view \<Rightarrow> real" where
  "cost_score v = 1 / (1 + effective_cost v)"

section \<open>\<open>static\<close>\<close>

record static_config =
  sc_candidate :: "string option"
  sc_allow_fallback :: bool

definition static_chosen :: "static_config \<Rightarrow> route_context \<Rightarrow> candidate_id option" where
  "static_chosen cfg ctx =
     opt_or (rt_explicit_candidate ctx) (Option.bind (sc_candidate cfg) candidate_parse)"

definition static_rank ::
  "static_config \<Rightarrow> route_context \<Rightarrow> candidate_view list \<Rightarrow> (route_error, ranked_candidate list) result" where
  "static_rank cfg ctx candidates =
     (case static_chosen cfg ctx of
        None \<Rightarrow> Inl NoStaticCandidate
      | Some chosen \<Rightarrow>
          (let found = List.find (\<lambda>c. cv_id c = chosen) candidates;
               first = (case found of None \<Rightarrow> []
                        | Some v \<Rightarrow> [\<lparr>rk_candidate = cv_id v, rk_score = 1, rk_note = None\<rparr>]);
               rest = (if sc_allow_fallback cfg
                       then map (\<lambda>c. \<lparr>rk_candidate = cv_id c, rk_score = 0, rk_note = Some (StaticFallback chosen)\<rparr>)
                              (sort_key cv_config_index (filter (\<lambda>c. cv_id c \<noteq> chosen) candidates))
                       else []) in
           if found = None \<and> \<not> sc_allow_fallback cfg then Inl (StaticNotRouteable chosen)
           else if first @ rest = [] then Inl (NoFallback chosen)
           else Inr (first @ rest)))"

section \<open>\<open>auto\<close>\<close>

record auto_config =
  ac_cost_quality_tradeoff :: real
  ac_complexity_floor :: real
  ac_allowed_candidates :: "string list"
  ac_complexity_scales_tradeoff :: bool
  ac_min_cost_weight :: real
  ac_apex_complexity :: real

definition matches_any :: "candidate_view \<Rightarrow> string list \<Rightarrow> bool" where
  "matches_any v patterns = list_ex (\<lambda>p. glob_match p (candidate_display (cv_id v))) patterns"

text \<open>The 75th percentile by nearest rank.\<close>

definition quality_p75 :: "candidate_view list \<Rightarrow> real" where
  "quality_p75 pool =
     (let scores = sort (map cv_quality pool); n = length scores in
      if scores = [] then 0
      else scores ! (min (max (nat \<lceil>3 / 4 * real n\<rceil>) 1) n - 1))"

definition task_fit_quality :: "real \<Rightarrow> real \<Rightarrow> real" where
  "task_fit_quality score demand = quality_utility (min score demand)"

definition auto_gate :: "auto_config \<Rightarrow> route_context \<Rightarrow> candidate_view list \<Rightarrow> candidate_view list \<times> route_note option" where
  "auto_gate cfg ctx pool =
     (if ac_complexity_floor cfg \<le> rt_complexity ctx \<and> 1 < length pool
      then let p75 = quality_p75 pool;
               comparing_paid_overage = list_ex cv_on_overage pool;
               gated = filter (\<lambda>c. p75 \<le> cv_quality c \<or> (comparing_paid_overage \<and> \<not> cv_on_overage c)) pool in
           if gated = [] then (pool, None)
           else (gated, if length gated \<noteq> length pool then Some GateNote else None)
      else (pool, None))"

definition auto_tradeoff :: "auto_config \<Rightarrow> route_context \<Rightarrow> real" where
  "auto_tradeoff cfg ctx =
     (let base = clamp 0 10 (ac_cost_quality_tradeoff cfg); complexity = clamp 0 1 (rt_complexity ctx) in
      if ac_apex_complexity cfg \<le> complexity then 0
      else if ac_complexity_scales_tradeoff cfg
      then max (base * (1 - complexity)) (min (clamp 0 1 (ac_min_cost_weight cfg) * 10) base)
      else base)"

text \<open>\<open>f64::EPSILON\<close>.\<close>

definition F64_EPSILON :: real where "F64_EPSILON = 1 / 2 ^ 52"

definition auto_demand :: "auto_config \<Rightarrow> route_context \<Rightarrow> real" where
  "auto_demand cfg ctx =
     (if auto_tradeoff cfg ctx / 10 \<le> F64_EPSILON then QUALITY_MAX
      else quality_demand (rt_class ctx) (rt_complexity ctx))"

definition normalized_cost_rank :: "candidate_view list \<Rightarrow> candidate_view \<Rightarrow> real" where
  "normalized_cost_rank pool c =
     (let costs = map (\<lambda>c. real (cv_cost_rank c)) pool;
          lo = (if costs = [] then 1 else Min (set costs)); hi = (if costs = [] then 1 else Max (set costs)) in
      if lo < hi then (real (cv_cost_rank c) - lo) / (hi - lo) else 0)"

definition auto_utility ::
  "auto_config \<Rightarrow> real \<Rightarrow> route_context \<Rightarrow> candidate_view list \<Rightarrow> candidate_view \<Rightarrow> real" where
  "auto_utility cfg cost_aversion ctx pool c =
     (let tradeoff = auto_tradeoff cfg ctx;
          quota_score = cv_headroom c * (1 - 1 / 2 * normalized_cost_rank pool c);
          surcharge = (if cv_on_overage c then cost_aversion * (1 - clamp 0 1 (rt_complexity ctx)) else 0) in
      (1 - tradeoff / 10) * task_fit_quality (cv_quality c) (auto_demand cfg ctx) +
      tradeoff / 10 * quota_score + cv_preference c - surcharge)"

definition auto_rank ::
  "auto_config \<Rightarrow> real \<Rightarrow> route_context \<Rightarrow> candidate_view list \<Rightarrow> (route_error, ranked_candidate list) result" where
  "auto_rank cfg cost_aversion ctx candidates =
     (let pool = filter (\<lambda>c. matches_any c (ac_allowed_candidates cfg)) candidates in
      if pool = [] then Inl NoAllowedCandidates
      else let (gated, note) = auto_gate cfg ctx pool in
           Inr (to_ranked (sort_ranked (map (\<lambda>c. (auto_utility cfg cost_aversion ctx gated c, c, note)) gated))))"

section \<open>\<open>pareto-code\<close>\<close>

definition tier_pool :: "coding_tier list \<Rightarrow> candidate_view list \<Rightarrow> (coding_tier \<times> candidate_view list) option" where
  "tier_pool order candidates =
     List.find (\<lambda>(_, pool). pool \<noteq> [])
       (map (\<lambda>tier. (tier, filter (\<lambda>c. cv_coding_tier c = tier) candidates)) order)"

definition pareto_rank ::
  "real option \<Rightarrow> route_context \<Rightarrow> candidate_view list \<Rightarrow> (route_error, ranked_candidate list) result" where
  "pareto_rank min_coding_score ctx candidates =
     (let requested = tier_from_min_score min_coding_score in
      case tier_pool (tier_walk_order requested) candidates of
        None \<Rightarrow> Inl NoTier
      | Some (tier_used, pool) \<Rightarrow>
          (let note = (if tier_used \<noteq> requested then Some (TierFallback requested tier_used) else None) in
           Inr (map (\<lambda>c. \<lparr>rk_candidate = cv_id c, rk_score = cost_score c, rk_note = note\<rparr>)
             (take 3 (sort_key cheap_key pool)))))"

section \<open>\<open>escalation\<close>\<close>

record escalation_config =
  ec_min_start_score :: real
  ec_initial_router :: "strategy_kind option"

type_synonym strategy = "route_context \<Rightarrow> candidate_view list \<Rightarrow> (route_error, ranked_candidate list) result"

definition escalation_rank :: "escalation_config \<Rightarrow> strategy option \<Rightarrow> strategy" where
  "escalation_rank cfg initial ctx candidates =
     (if candidates = [] then Inl NoEscalationCandidates
      else case initial of
        Some rank \<Rightarrow>
          rbind (rank ctx candidates) (\<lambda>ranked. Inr (case ranked of
            [] \<Rightarrow> []
          | first # rest \<Rightarrow> first\<lparr>rk_note := Some (Delegated (ec_initial_router cfg) (rk_note first))\<rparr> # rest))
      | None \<Rightarrow>
          (let floored = filter (\<lambda>c. ec_min_start_score cfg \<le> cv_quality c) candidates;
               pool = (if floored = [] then candidates else floored) in
           Inr (map (\<lambda>c. \<lparr>rk_candidate = cv_id c, rk_score = cost_score c, rk_note = None\<rparr>)
             (sort_key cheap_key pool))))"

section \<open>\<open>planner\<close>\<close>

record model_boost =
  mb_pattern :: string
  mb_planning :: real
  mb_implementation :: real

record planner_config =
  plc_planning_candidates :: "string list"
  plc_implementation_candidates :: "string list"
  plc_easy_planning_candidates :: "string list"
  plc_hard_planning_candidates :: "string list"
  plc_model_boosts :: "model_boost list"
  plc_apex_complexity :: real
  plc_floor_complexity :: real

definition planner_pool_patterns :: "planner_config \<Rightarrow> route_context \<Rightarrow> planner_phase \<Rightarrow> string list \<times> bool" where
  "planner_pool_patterns cfg ctx phase =
     (let complexity = clamp 0 1 (rt_complexity ctx) in
      if phase = Planning
      then (case rt_planner_difficulty ctx of
              Some Easy \<Rightarrow> (plc_easy_planning_candidates cfg, False)
            | Some Hard \<Rightarrow> (plc_hard_planning_candidates cfg, False)
            | None \<Rightarrow>
                if rt_planner_explicit ctx then (plc_planning_candidates cfg, False)
                else (plc_planning_candidates cfg, complexity \<le> plc_floor_complexity cfg))
      else if rt_planner_explicit ctx then (plc_implementation_candidates cfg, False)
      else (plc_implementation_candidates cfg, plc_apex_complexity cfg \<le> complexity))"

definition planner_pool :: "planner_config \<Rightarrow> route_context \<Rightarrow> planner_phase \<Rightarrow> candidate_view list \<Rightarrow> candidate_view list" where
  "planner_pool cfg ctx phase candidates =
     (let (primary, crossover_ok) = planner_pool_patterns cfg ctx phase;
          secondary = (if phase = Planning then plc_implementation_candidates cfg else plc_planning_candidates cfg);
          pool = filter (\<lambda>c. matches_any c primary \<or> (crossover_ok \<and> matches_any c secondary)) candidates in
      if pool = [] \<and> phase = Planning \<and> rt_planner_difficulty ctx \<noteq> None
      then filter (\<lambda>c. matches_any c (plc_planning_candidates cfg)) candidates else pool)"

definition boosted :: "planner_config \<Rightarrow> planner_phase \<Rightarrow> candidate_view \<Rightarrow> candidate_view" where
  "boosted cfg phase v =
     fold (\<lambda>b v. if glob_match (mb_pattern b) (candidate_display (cv_id v))
                 then v\<lparr>cv_preference := cv_preference v +
                   (if phase = Planning then mb_planning b else mb_implementation b)\<rparr> else v)
       (plc_model_boosts cfg) v"

definition planner_rank :: "planner_config \<Rightarrow> auto_config \<Rightarrow> real \<Rightarrow> strategy" where
  "planner_rank cfg acfg cost_aversion ctx candidates =
     (let phase = unwrap_or (rt_planner_phase ctx) Planning;
          pool = map (boosted cfg phase) (planner_pool cfg ctx phase candidates) in
      if pool = [] then auto_rank acfg cost_aversion ctx candidates else auto_rank acfg cost_aversion ctx pool)"

section \<open>Choosing the strategy\<close>

record routers_config =
  rc_static :: static_config
  rc_auto :: auto_config
  rc_min_coding_score :: "real option"
  rc_escalation :: escalation_config
  rc_planner :: planner_config
  rc_cost_aversion :: real

definition simple_strategy :: "routers_config \<Rightarrow> strategy_kind \<Rightarrow> strategy" where
  "simple_strategy cfg kind =
     (case kind of
        StaticStrategy \<Rightarrow> static_rank (rc_static cfg)
      | AutoStrategy \<Rightarrow> auto_rank (rc_auto cfg) (clamp 0 1 (rc_cost_aversion cfg))
      | ParetoCode \<Rightarrow> pareto_rank (rc_min_coding_score cfg)
      | Escalation \<Rightarrow> escalation_rank (rc_escalation cfg) None
      | PlannerStrategy \<Rightarrow> planner_rank (rc_planner cfg) (rc_auto cfg) (clamp 0 1 (rc_cost_aversion cfg)))"

text \<open>\<open>make_strategy\<close>: escalation may delegate its start to any strategy but itself.\<close>

definition make_strategy :: "routers_config \<Rightarrow> strategy_kind \<Rightarrow> strategy" where
  "make_strategy cfg kind =
     (if kind = Escalation
      then (case ec_initial_router (rc_escalation cfg) of
              Some k \<Rightarrow> if k \<noteq> Escalation then escalation_rank (rc_escalation cfg) (Some (simple_strategy cfg k))
                         else escalation_rank (rc_escalation cfg) None
            | None \<Rightarrow> escalation_rank (rc_escalation cfg) None)
      else simple_strategy cfg kind)"

section \<open>What a strategy promises\<close>

text \<open>
  \<open>RouterStrategy\<close>: a ranking is a nonempty fallback chain of candidates of the pool, no
  candidate more often than the pool has it, best score first.
\<close>

locale router_strategy =
  fixes rank :: "route_context \<Rightarrow> candidate_view list \<Rightarrow> (route_error, ranked_candidate list) result"
  assumes ranked_pool: "rank ctx cs = Inr rs \<Longrightarrow> mset (map rk_candidate rs) \<subseteq># mset (map cv_id cs)"
    and ranked_nonempty: "rank ctx cs = Inr rs \<Longrightarrow> rs \<noteq> []"
    and ranked_descending: "rank ctx cs = Inr rs \<Longrightarrow> sorted_wrt (\<lambda>a b. rk_score b \<le> rk_score a) rs"
begin

lemma ranked_subset: "rank ctx cs = Inr rs \<Longrightarrow> rk_candidate ` set rs \<subseteq> cv_id ` set cs"
  using ranked_pool [THEN set_mset_mono] by fastforce

lemma ranked_distinct:
  assumes "rank ctx cs = Inr rs" and "distinct (map cv_id cs)"
  shows "distinct (map rk_candidate rs)"
proof -
  have "count (mset (map rk_candidate rs)) x \<le> 1" for x
    using mset_subset_eq_count [OF ranked_pool [OF assms(1)], of x] assms(2)
    by (metis (no_types) distinct_count_atmost_1 le_trans of_bool_def zero_neq_one le_numeral_extra(4) linorder_not_less less_one not_gr_zero zero_le)
  then show ?thesis
    by (metis distinct_count_atmost_1 count_mset_0_iff le_antisym less_one linorder_not_less set_mset_mset)
qed

lemma first_is_best:
  assumes "rank ctx cs = Inr rs" and "r \<in> set rs"
  shows "rk_score r \<le> rk_score (hd rs)"
  using ranked_descending [OF assms(1)] assms(2) by (cases rs) auto

end

lemma effective_cost_nonneg: "0 \<le> effective_cost v"
  by (simp add: effective_cost_def)

lemma cost_score_antimono: "effective_cost a \<le> effective_cost b \<Longrightarrow> cost_score b \<le> cost_score a"
  unfolding cost_score_def using effective_cost_nonneg [of a] by (simp add: frac_le)

lemma sorted_wrt_key: "sorted_wrt (\<lambda>a b. f a \<le> f b) (sort_key f xs)"
  using sorted_sort_key [of f xs] by (simp add: sorted_wrt_map)

lemma cheapest_first: "sorted_wrt (\<lambda>a b. effective_cost a \<le> effective_cost b) (sort_key cheap_key xs)"
  using sorted_wrt_key [of cheap_key xs]
  by (rule sorted_wrt_mono_rel [rotated]) (auto simp: cheap_key_def)

text \<open>Each strategy keeps the promise.\<close>

lemma find_id:
  assumes "List.find (\<lambda>c. cv_id c = chosen) cs = Some v"
  shows "cv_id v = chosen \<and> {#chosen#} \<subseteq># mset (map cv_id (filter (\<lambda>c. cv_id c = chosen) cs))"
proof -
  have "v \<in> set (filter (\<lambda>c. cv_id c = chosen) cs)" "cv_id v = chosen"
    using find_Some_mem [OF assms] by auto
  then show ?thesis by (force simp: image_iff)
qed

lemma static_first:
  assumes "List.find (\<lambda>c. cv_id c = chosen) cs = Some v"
  shows "add_mset chosen (mset (map cv_id (filter (\<lambda>c. cv_id c \<noteq> chosen) cs))) \<subseteq># mset (map cv_id cs)"
proof -
  have "mset (map cv_id cs) = mset (map cv_id (filter (\<lambda>c. cv_id c = chosen) cs)) +
      mset (map cv_id (filter (\<lambda>c. cv_id c \<noteq> chosen) cs))"
    by (induction cs) auto
  then show ?thesis using find_id [OF assms] by (simp add: subset_mset.add_mono)
qed

lemma mset_filter_ids: "mset (map cv_id (filter P cs)) \<subseteq># mset (map cv_id cs)"
  by (simp add: image_mset_subseteq_mono)

lemma sort_key_Nil_iff [simp]: "sort_key f xs = [] \<longleftrightarrow> xs = []"
  by (metis length_0_conv length_sort)

lemma image_rank [simp]:
  "image_mset rk_candidate (image_mset (\<lambda>c. \<lparr>rk_candidate = cv_id c, rk_score = s c, rk_note = n c\<rparr>) M) = image_mset cv_id M"
  by (simp add: image_mset.compositionality comp_def)

interpretation static_strategy: router_strategy "static_rank cfg" for cfg
proof
  fix ctx cs rs
  assume r: "static_rank cfg ctx cs = Inr rs"
  then obtain chosen where c: "static_chosen cfg ctx = Some chosen" by (auto simp: static_rank_def split: option.splits)
  let ?rest = "map (\<lambda>c. \<lparr>rk_candidate = cv_id c, rk_score = 0, rk_note = Some (StaticFallback chosen)\<rparr>)
     (sort_key cv_config_index (filter (\<lambda>c. cv_id c \<noteq> chosen) cs))"
  show "mset (map rk_candidate rs) \<subseteq># mset (map cv_id cs)"
  proof (cases "List.find (\<lambda>c. cv_id c = chosen) cs")
    case None
    then show ?thesis using r c
      by (auto simp: static_rank_def Let_def image_mset_subseteq_mono split: if_splits)
  next
    case (Some v)
    have "chosen \<in># mset (map cv_id cs)"
      using static_first [OF Some] by (meson mset_subset_eqD union_single_eq_member)
    with Some r c static_first [OF Some] find_id [OF Some] show ?thesis
      by (auto simp: static_rank_def Let_def split: if_splits)
  qed
  show "rs \<noteq> []" using r c by (auto simp: static_rank_def Let_def split: if_splits)
  have "sorted_wrt (\<lambda>a b. rk_score b \<le> rk_score a) ?rest" by (simp add: sorted_wrt_map sorted_wrt_iff_nth_less)
  then show "sorted_wrt (\<lambda>a b. rk_score b \<le> rk_score a) rs"
    using r c by (auto simp: static_rank_def Let_def sorted_wrt_append split: if_splits option.splits)
qed

lemma mset_auto_gate: "mset (map cv_id (fst (auto_gate cfg ctx pool))) \<subseteq># mset (map cv_id pool)"
  by (auto simp: auto_gate_def Let_def image_mset_subseteq_mono)

lemma auto_gate_nonempty: "pool \<noteq> [] \<Longrightarrow> fst (auto_gate cfg ctx pool) \<noteq> []"
  by (auto simp: auto_gate_def Let_def)

abbreviation auto_pool :: "auto_config \<Rightarrow> route_context \<Rightarrow> candidate_view list \<Rightarrow> candidate_view list" where
  "auto_pool cfg ctx cs \<equiv> fst (auto_gate cfg ctx (filter (\<lambda>c. matches_any c (ac_allowed_candidates cfg)) cs))"

abbreviation auto_note :: "auto_config \<Rightarrow> route_context \<Rightarrow> candidate_view list \<Rightarrow> route_note option" where
  "auto_note cfg ctx cs \<equiv> snd (auto_gate cfg ctx (filter (\<lambda>c. matches_any c (ac_allowed_candidates cfg)) cs))"

lemma auto_rank_Inr:
  "auto_rank cfg aversion ctx cs = Inr rs \<longleftrightarrow>
     list_ex (\<lambda>c. matches_any c (ac_allowed_candidates cfg)) cs \<and>
     rs = to_ranked (sort_ranked (map (\<lambda>c. (auto_utility cfg aversion ctx (auto_pool cfg ctx cs) c, c, auto_note cfg ctx cs))
       (auto_pool cfg ctx cs)))"
  by (auto simp: auto_rank_def Let_def case_prod_beta list_ex_iff filter_empty_conv)

lemma auto_pool_nonempty: "list_ex (\<lambda>c. matches_any c (ac_allowed_candidates cfg)) cs \<Longrightarrow> auto_pool cfg ctx cs \<noteq> []"
  by (rule auto_gate_nonempty) (auto simp: list_ex_iff filter_empty_conv)

lemma mset_auto_pool: "mset (map cv_id (auto_pool cfg ctx cs)) \<subseteq># mset (map cv_id cs)"
  by (rule subset_mset.order_trans [OF mset_auto_gate mset_filter_ids])

lemma mset_to_ranked:
  "mset (map rk_candidate (to_ranked (sort_ranked xs))) = mset (map (\<lambda>x. cv_id (fst (snd x))) xs)"
  by (simp add: to_ranked_def sort_ranked_def comp_def case_prod_beta image_mset.compositionality)

lemma to_ranked_descending: "sorted_wrt (\<lambda>a b. rk_score b \<le> rk_score a) (to_ranked (sort_ranked xs))"
proof -
  have "sorted_wrt (\<lambda>a b. fst b \<le> fst a) (sort_key rank_key xs)"
    using sorted_wrt_key [of rank_key xs]
    by (rule sorted_wrt_mono_rel [rotated]) (auto simp: rank_key_def)
  then show ?thesis
    by (simp add: to_ranked_def sort_ranked_def sorted_wrt_map case_prod_beta)
qed

interpretation auto_strategy: router_strategy "auto_rank cfg aversion" for cfg aversion
proof
  fix ctx cs rs
  assume r: "auto_rank cfg aversion ctx cs = Inr rs"
  show "mset (map rk_candidate rs) \<subseteq># mset (map cv_id cs)"
    using r mset_auto_pool [of cfg ctx cs] unfolding auto_rank_Inr
    by (auto simp only: mset_to_ranked map_map comp_def fst_conv snd_conv)
  show "rs \<noteq> []"
    using r auto_pool_nonempty [of cfg cs ctx] unfolding auto_rank_Inr to_ranked_def sort_ranked_def by auto
  show "sorted_wrt (\<lambda>a b. rk_score b \<le> rk_score a) rs"
    using r to_ranked_descending unfolding auto_rank_Inr by blast
qed

lemma tier_pool_Some: "tier_pool order cs = Some (t, pool) \<Longrightarrow>
  t \<in> set order \<and> pool = filter (\<lambda>c. cv_coding_tier c = t) cs \<and> pool \<noteq> []"
  by (auto simp: tier_pool_def dest!: find_Some_mem)

lemma mset_take_subseteq: "mset (take n xs) \<subseteq># mset xs"
  by (metis append_take_drop_id mset_append mset_subset_eq_add_left)

text \<open>A chain read off a cheapest-first order of part of the pool.\<close>

lemma cheap_chain_pool:
  assumes "mset xs \<subseteq># mset cs"
  shows "mset (map rk_candidate (map (\<lambda>c. \<lparr>rk_candidate = cv_id c, rk_score = cost_score c, rk_note = n\<rparr>)
    (take k (sort_key cheap_key xs)))) \<subseteq># mset (map cv_id cs)"
proof -
  have "mset (take k (sort_key cheap_key xs)) \<subseteq># mset cs"
    using mset_take_subseteq [of k "sort_key cheap_key xs"] assms by (auto intro: subset_mset.order_trans)
  then show ?thesis by (simp add: comp_def image_mset_subseteq_mono)
qed

lemma cheap_chain_descending:
  "sorted_wrt (\<lambda>a b. rk_score b \<le> rk_score a)
    (map (\<lambda>c. \<lparr>rk_candidate = cv_id c, rk_score = cost_score c, rk_note = n\<rparr>) (take k (sort_key cheap_key xs)))"
proof -
  have "sorted_wrt (\<lambda>a b. effective_cost a \<le> effective_cost b) (take k (sort_key cheap_key xs))"
    using cheapest_first by (rule sorted_wrt_take)
  then show ?thesis
    by (auto simp: sorted_wrt_map intro: cost_score_antimono elim: sorted_wrt_mono_rel [rotated])
qed

interpretation pareto_strategy: router_strategy "pareto_rank min_score" for min_score
proof
  fix ctx cs rs
  assume r: "pareto_rank min_score ctx cs = Inr rs"
  then obtain t pool n where p: "tier_pool (tier_walk_order (tier_from_min_score min_score)) cs = Some (t, pool)"
    and rs: "rs = map (\<lambda>c. \<lparr>rk_candidate = cv_id c, rk_score = cost_score c, rk_note = n\<rparr>) (take 3 (sort_key cheap_key pool))"
    by (auto simp: pareto_rank_def Let_def split: option.splits prod.splits)
  note pool = tier_pool_Some [OF p]
  show "mset (map rk_candidate rs) \<subseteq># mset (map cv_id cs)"
    unfolding rs by (rule cheap_chain_pool) (simp add: pool)
  show "rs \<noteq> []" using pool unfolding rs by auto
  show "sorted_wrt (\<lambda>a b. rk_score b \<le> rk_score a) rs" unfolding rs by (rule cheap_chain_descending)
qed

abbreviation escalation_pool :: "escalation_config \<Rightarrow> candidate_view list \<Rightarrow> candidate_view list" where
  "escalation_pool cfg cs \<equiv> (let floored = filter (\<lambda>c. ec_min_start_score cfg \<le> cv_quality c) cs in
     if floored = [] then cs else floored)"

interpretation escalation_strategy: router_strategy "escalation_rank cfg None" for cfg
proof
  fix ctx cs rs
  assume r: "escalation_rank cfg None ctx cs = Inr rs"
  then have ne: "cs \<noteq> []" and rs: "rs = map (\<lambda>c. \<lparr>rk_candidate = cv_id c, rk_score = cost_score c, rk_note = None\<rparr>)
      (take (length (escalation_pool cfg cs)) (sort_key cheap_key (escalation_pool cfg cs)))"
    by (auto simp: escalation_rank_def Let_def)
  show "mset (map rk_candidate rs) \<subseteq># mset (map cv_id cs)"
    unfolding rs by (rule cheap_chain_pool) (simp add: Let_def)
  have "escalation_pool cfg cs \<noteq> []" using ne by (auto simp: Let_def)
  then show "rs \<noteq> []" unfolding rs by (simp add: Let_def split: if_splits)
  show "sorted_wrt (\<lambda>a b. rk_score b \<le> rk_score a) rs" unfolding rs by (rule cheap_chain_descending)
qed

text \<open>Delegating the start to another strategy keeps its promise.\<close>

lemma escalation_delegates:
  assumes "router_strategy rank"
  shows "router_strategy (escalation_rank cfg (Some rank))"
proof
  fix ctx cs rs
  assume "escalation_rank cfg (Some rank) ctx cs = Inr rs"
  then obtain rs0 where r: "rank ctx cs = Inr rs0"
    and rs: "rs = (case rs0 of [] \<Rightarrow> [] | f # rest \<Rightarrow>
      f\<lparr>rk_note := Some (Delegated (ec_initial_router cfg) (rk_note f))\<rparr> # rest)"
    by (auto simp: escalation_rank_def)
  show "mset (map rk_candidate rs) \<subseteq># mset (map cv_id cs)"
    using router_strategy.ranked_pool [OF assms r] unfolding rs by (auto split: list.splits)
  show "rs \<noteq> []" using router_strategy.ranked_nonempty [OF assms r] unfolding rs by (auto split: list.splits)
  show "sorted_wrt (\<lambda>a b. rk_score b \<le> rk_score a) rs"
    using router_strategy.ranked_descending [OF assms r] unfolding rs by (auto split: list.splits)
qed

lemma boosted_id [simp]: "cv_id (boosted cfg phase v) = cv_id v"
proof -
  have "cv_id (fold (\<lambda>b v. if glob_match (mb_pattern b) (candidate_display (cv_id v))
      then v\<lparr>cv_preference := cv_preference v + (if phase = Planning then mb_planning b else mb_implementation b)\<rparr>
      else v) bs v) = cv_id v" for bs
    by (induction bs arbitrary: v) auto
  then show ?thesis by (simp add: boosted_def)
qed

lemma mset_planner_pool: "mset (planner_pool cfg ctx phase cs) \<subseteq># mset cs"
  by (simp add: planner_pool_def Let_def case_prod_beta)

lemma mset_boosted_pool:
  "mset (map cv_id (map (boosted cfg phase) (planner_pool cfg ctx phase cs))) \<subseteq># mset (map cv_id cs)"
  using image_mset_subseteq_mono [OF mset_planner_pool, of cv_id]
  by (simp add: image_mset.compositionality comp_def)

interpretation planner_strategy: router_strategy "planner_rank cfg acfg aversion" for cfg acfg aversion
proof
  fix ctx cs rs
  assume r: "planner_rank cfg acfg aversion ctx cs = Inr rs"
  then obtain pool where pool: "mset (map cv_id pool) \<subseteq># mset (map cv_id cs)" and a: "auto_rank acfg aversion ctx pool = Inr rs"
    using mset_boosted_pool unfolding planner_rank_def Let_def
    by (metis subset_mset.order_refl)
  show "mset (map rk_candidate rs) \<subseteq># mset (map cv_id cs)"
    by (rule subset_mset.order_trans [OF auto_strategy.ranked_pool [OF a] pool])
  show "rs \<noteq> []" by (rule auto_strategy.ranked_nonempty [OF a])
  show "sorted_wrt (\<lambda>a b. rk_score b \<le> rk_score a) rs" by (rule auto_strategy.ranked_descending [OF a])
qed

lemma simple_strategy_promise: "router_strategy (simple_strategy cfg kind)"
  by (cases kind) (simp_all add: simple_strategy_def static_strategy.router_strategy_axioms
    auto_strategy.router_strategy_axioms pareto_strategy.router_strategy_axioms
    escalation_strategy.router_strategy_axioms planner_strategy.router_strategy_axioms)

interpretation chosen_strategy: router_strategy "make_strategy cfg kind" for cfg kind
  by (auto simp: make_strategy_def simple_strategy_promise escalation_strategy.router_strategy_axioms
      intro: escalation_delegates split: option.split)

section \<open>Properties of the rankings\<close>

text \<open>Two candidates: a metered subscription and an unmetered one.\<close>

definition sample_view :: "string \<Rightarrow> string \<Rightarrow> nat \<Rightarrow> real \<Rightarrow> real option \<Rightarrow> candidate_view" where
  "sample_view agent model i q plan = \<lparr>cv_id = \<lparr>cid_agent = agent, cid_model = model\<rparr>, cv_cost_rank = 2, cv_config_index = i,
     cv_quality = q, cv_coding_tier = TierHigh, cv_headroom = 1, cv_plan_headroom = plan, cv_on_overage = False,
     cv_preference = 0\<rparr>"

definition sample_views :: "candidate_view list" where
  "sample_views = [sample_view ''a'' ''x'' 0 3 (Some (1 / 2)), sample_view ''b'' ''y'' 1 2 None]"

definition sample_context :: route_context where
  "sample_context = \<lparr>rt_class = hd class_all, rt_complexity = 0, rt_explicit_candidate = Some \<lparr>cid_agent = ''b'', cid_model = ''y''\<rparr>,
     rt_planner_phase = None, rt_planner_difficulty = None, rt_planner_explicit = False\<rparr>"

definition sample_auto :: auto_config where
  "sample_auto = \<lparr>ac_cost_quality_tradeoff = 5, ac_complexity_floor = 1 / 2, ac_allowed_candidates = [''*''],
     ac_complexity_scales_tradeoff = True, ac_min_cost_weight = 1 / 5, ac_apex_complexity = 1\<rparr>"

definition sample_routers :: routers_config where
  "sample_routers = \<lparr>rc_static = \<lparr>sc_candidate = None, sc_allow_fallback = True\<rparr>, rc_auto = sample_auto,
     rc_min_coding_score = None, rc_escalation = \<lparr>ec_min_start_score = 1, ec_initial_router = Some StaticStrategy\<rparr>,
     rc_planner = \<lparr>plc_planning_candidates = [], plc_implementation_candidates = [], plc_easy_planning_candidates = [],
       plc_hard_planning_candidates = [], plc_model_boosts = [], plc_apex_complexity = 1, plc_floor_complexity = 0\<rparr>,
     rc_cost_aversion = 1 / 4\<rparr>"

text \<open>
  Whatever strategy is configured (escalation delegating its start included), a
  ranking it returns is a nonempty fallback chain of distinct candidates of the pool with
  the best score first.
\<close>

lemma strategy_ranking_sound:
  assumes "make_strategy cfg kind ctx cs = Inr rs" and "distinct (map cv_id cs)"
  shows "rs \<noteq> [] \<and> distinct (map rk_candidate rs) \<and> rk_candidate ` set rs \<subseteq> cv_id ` set cs \<and>
    (\<forall>i j. i < j \<and> j < length rs \<longrightarrow> rk_score (rs ! j) \<le> rk_score (rs ! i))"
  using chosen_strategy.ranked_nonempty [OF assms(1)] chosen_strategy.ranked_distinct [OF assms]
    chosen_strategy.ranked_subset [OF assms(1)] chosen_strategy.ranked_descending [OF assms(1)]
  by (simp add: sorted_wrt_iff_nth_less)

lemma hd_sort_key_least:
  assumes "xs \<noteq> []"
  shows "hd (sort_key f xs) \<in> set xs \<and> (\<forall>x \<in> set xs. f (hd (sort_key f xs)) \<le> f x)"
proof -
  obtain y ys where s: "sort_key f xs = y # ys" using assms by (cases "sort_key f xs") auto
  have "\<forall>x \<in> set (y # ys). f y \<le> f x" using sorted_wrt_key [of f xs] unfolding s by auto
  then show ?thesis using set_sort [of f xs] unfolding s by auto
qed

text \<open>
  C21. The \<open>auto\<close> strategy ranks exactly the candidates that pass the allow list and the
  complexity gate, and its first choice is one whose utility no other has, ties going to the
  lower effective cost and then to the earlier configured candidate.
\<close>

theorem auto_rank_optimal:
  assumes r: "auto_rank cfg aversion ctx cs = Inr rs"
  shows "\<exists>gated nt. (gated, nt) = auto_gate cfg ctx (filter (\<lambda>c. matches_any c (ac_allowed_candidates cfg)) cs) \<and>
    mset (map rk_candidate rs) = mset (map cv_id gated) \<and>
    (\<exists>v \<in> set gated. rk_candidate (hd rs) = cv_id v \<and> rk_score (hd rs) = auto_utility cfg aversion ctx gated v \<and>
      (\<forall>w \<in> set gated. auto_utility cfg aversion ctx gated w < auto_utility cfg aversion ctx gated v \<or>
         auto_utility cfg aversion ctx gated w = auto_utility cfg aversion ctx gated v \<and>
         (effective_cost v < effective_cost w \<or>
          effective_cost v = effective_cost w \<and> cv_config_index v \<le> cv_config_index w)))"
proof -
  let ?g = "auto_pool cfg ctx cs" and ?n = "auto_note cfg ctx cs"
  let ?xs = "map (\<lambda>c. (auto_utility cfg aversion ctx ?g c, c, ?n)) ?g"
  have rs: "rs = to_ranked (sort_ranked ?xs)" and ne: "?xs \<noteq> []"
    using r auto_pool_nonempty unfolding auto_rank_Inr by auto
  have ms: "mset (map rk_candidate rs) = mset (map cv_id ?g)"
    unfolding rs mset_to_ranked by (simp add: comp_def)
  obtain v where v: "v \<in> set ?g" "hd (sort_key rank_key ?xs) = (auto_utility cfg aversion ctx ?g v, v, ?n)"
    using hd_sort_key_least [OF ne, of rank_key] by auto
  have "hd rs = \<lparr>rk_candidate = cv_id v, rk_score = auto_utility cfg aversion ctx ?g v, rk_note = ?n\<rparr>"
    unfolding rs to_ranked_def sort_ranked_def using ne v(2) by (simp add: hd_map)
  moreover have "rank_key (auto_utility cfg aversion ctx ?g v, v, ?n) \<le> rank_key (auto_utility cfg aversion ctx ?g w, w, ?n)"
    if "w \<in> set ?g" for w
    using hd_sort_key_least [OF ne, of rank_key] that unfolding v(2) by auto
  ultimately show ?thesis using v(1) ms
    by (intro exI [of _ ?g] exI [of _ ?n]) (fastforce simp: rank_key_def)
qed

theorem auto_rank_optimal_witness:
  "\<exists>rs. auto_rank sample_auto (1 / 4) sample_context sample_views = Inr rs \<and>
     mset (map rk_candidate rs) = mset (map cv_id sample_views)"
proof -
  have m: "filter (\<lambda>c. matches_any c (ac_allowed_candidates sample_auto)) sample_views = sample_views"
    by (simp add: sample_views_def sample_view_def sample_auto_def matches_any_def candidate_display_def)
  have g: "auto_gate sample_auto sample_context sample_views = (sample_views, None)"
    by (simp add: auto_gate_def sample_auto_def sample_context_def)
  have "\<exists>rs. auto_rank sample_auto (1 / 4) sample_context sample_views = Inr rs"
    by (simp add: auto_rank_def m g) (simp add: sample_views_def)
  then show ?thesis using auto_rank_optimal [of sample_auto "1 / 4" sample_context sample_views] unfolding m g by auto
qed

lemma fold_max_Some:
  "fold (\<lambda>p acc. Some (case acc of None \<Rightarrow> p | Some a \<Rightarrow> max a p)) ps (Some (a :: real)) = Some m \<Longrightarrow>
   m \<in> insert a (set ps) \<and> a \<le> m \<and> (\<forall>p \<in> set ps. p \<le> m)"
proof (induction ps arbitrary: a)
  case (Cons p ps)
  then have "m \<in> insert (max a p) (set ps) \<and> max a p \<le> m \<and> (\<forall>p \<in> set ps. p \<le> m)"
    by (simp del: max.bounded_iff)
  then show ?case by (auto simp: max_def split: if_splits)
qed simp

lemma max_free_metered_plan_Some:
  assumes "max_free_metered_plan views = Some cap"
  shows "(\<exists>v \<in> set views. \<not> cv_on_overage v \<and> cv_plan_headroom v = Some cap \<and> FREE_PLAN_EPSILON < cap) \<and>
    (\<forall>v \<in> set views. \<forall>p. \<not> cv_on_overage v \<and> cv_plan_headroom v = Some p \<and> FREE_PLAN_EPSILON < p \<longrightarrow> p \<le> cap)"
proof -
  let ?ps = "filter (\<lambda>p. FREE_PLAN_EPSILON < p) (List.map_filter cv_plan_headroom (filter (\<lambda>v. \<not> cv_on_overage v) views))"
  have mem: "p \<in> set ?ps \<longleftrightarrow> (\<exists>v \<in> set views. \<not> cv_on_overage v \<and> cv_plan_headroom v = Some p \<and> FREE_PLAN_EPSILON < p)" for p
    by (force simp: List.map_filter_def image_iff)
  have "cap \<in> set ?ps \<and> (\<forall>p \<in> set ?ps. p \<le> cap)"
    using assms fold_max_Some [of "tl ?ps" "hd ?ps" cap] unfolding max_free_metered_plan_def
    by (cases ?ps) auto
  then show ?thesis unfolding mem [symmetric] using mem by blast
qed

text \<open>
  While some subscription has measured free quota, no candidate without a meter and no
  candidate spending overage is given more headroom than the largest such quota, and
  candidates with free quota are left as they are.
\<close>

lemma headroom_capped:
  assumes "max_free_metered_plan views = Some cap" and "v \<in> set (cap_overage_headroom w (cap_unmetered_headroom views))"
  shows "(cv_plan_headroom v = None \<or> cv_on_overage v \<longrightarrow> cv_headroom v \<le> cap) \<and>
    (cv_plan_headroom v \<noteq> None \<and> \<not> cv_on_overage v \<longrightarrow> v \<in> set views) \<and>
    (\<exists>u \<in> set views. \<not> cv_on_overage u \<and> cv_plan_headroom u = Some cap \<and> FREE_PLAN_EPSILON < cap)"
proof -
  let ?f = "\<lambda>v. if cv_plan_headroom v = None then v\<lparr>cv_headroom := min (cv_headroom v) cap\<rparr> else v"
  have "List.map_filter cv_plan_headroom (filter (\<lambda>v. \<not> cv_on_overage v) (map ?f views)) =
      List.map_filter cv_plan_headroom (filter (\<lambda>v. \<not> cv_on_overage v) views)"
    by (induction views) (auto simp: List.map_filter_simps)
  then have cap: "max_free_metered_plan (map ?f views) = Some cap"
    using assms(1) by (simp add: max_free_metered_plan_def)
  have views: "cap_unmetered_headroom views = map ?f views" using assms(1) by (simp add: cap_unmetered_headroom_def)
  have "v \<in> (\<lambda>u. if cv_on_overage u
      then u\<lparr>cv_headroom := min (cv_headroom u * clamp 0 1 w) cap, cv_preference := cv_preference u * clamp 0 1 w\<rparr>
      else u) ` ?f ` set views"
    using assms(2) cap unfolding views cap_overage_headroom_def by (simp only: option.case set_map Let_def)
  then show ?thesis using max_free_metered_plan_Some [OF assms(1)] by (auto split: if_splits)
qed

end
