(* ===== verification/Routing_Pool.thy ===== *)
theory Routing_Pool
  imports Usage_Limits Strategies
begin

text \<open>
  The pool a prompt is routed from (\<open>session.rs\<close>, \<open>accounts.rs\<close>, \<open>config.rs\<close>): which configured
  candidates may serve now, the strategy view of each, the order of accounts, and what a
  failure does to the pool. The tracker is read and changed as the code does; one pass over
  the candidates reads both clocks once. Connections, credentials and the sets of accounts
  that are signing in are fields of the router's state.
\<close>

section \<open>Configuration\<close>

datatype usage_source = AnthropicOauth | CodexRollout

record model_version =
  mv_api_model :: string

record model_config =
  mc_id :: string
  mc_api_model :: "string option"
  mc_versions :: "model_version list"
  mc_auto_eligible :: bool

record agent_config =
  ac_name :: string
  ac_command :: string
  ac_models :: "model_config list"
  ac_preference :: real
  ac_usage_source :: "usage_source option"
  ac_reserve :: reserve_capacity
  ac_account_priority :: "nat option"
  ac_account_disabled :: bool
  ac_lineage :: "string option"

definition find_agent :: "agent_config list \<Rightarrow> string \<Rightarrow> agent_config option" where
  "find_agent agents name = List.find (\<lambda>a. ac_name a = name) agents"

definition lineage_of :: "agent_config list \<Rightarrow> string \<Rightarrow> string" where
  "lineage_of agents agent = unwrap_or (Option.bind (find_agent agents agent) ac_lineage) agent"

definition find_model :: "agent_config list \<Rightarrow> candidate_id \<Rightarrow> model_config option" where
  "find_model agents cid =
     Option.bind (find_agent agents (cid_agent cid)) (\<lambda>a. List.find (\<lambda>m. mc_id m = cid_model cid) (ac_models a))"

definition declared_version :: "agent_config list \<Rightarrow> candidate_id \<Rightarrow> string \<Rightarrow> model_version option" where
  "declared_version agents cid api =
     Option.bind (find_model agents cid) (\<lambda>m. List.find (\<lambda>v. mv_api_model v = api) (mc_versions m))"

definition pinned_version :: "agent_config list \<Rightarrow> (string \<rightharpoonup> string) \<Rightarrow> candidate_id \<Rightarrow> model_version option" where
  "pinned_version agents pinned cid = Option.bind (pinned (candidate_display cid)) (declared_version agents cid)"

definition resolve_version ::
  "agent_config list \<Rightarrow> (string \<rightharpoonup> string) \<Rightarrow> candidate_id \<Rightarrow> string option \<Rightarrow> model_version option" where
  "resolve_version agents pinned cid requested =
     (case requested of
        None \<Rightarrow> pinned_version agents pinned cid
      | Some v \<Rightarrow> if v = ''default'' then None
                  else opt_or (declared_version agents cid v) (pinned_version agents pinned cid))"

section \<open>Accounts\<close>

definition PROVIDERS :: "string list" where
  "PROVIDERS = [''claude'', ''codex'', ''grok'', ''kimi'']"

text \<open>\<open>Path::file_name\<close> of a command, and the part of an agent name before the account.\<close>

definition file_name :: "string \<Rightarrow> string option" where
  "file_name path =
     (case rev (filter (\<lambda>c. c \<noteq> [] \<and> c \<noteq> ''.'') (split_on (\<lambda>c. c = CHR ''/'') path)) of
        [] \<Rightarrow> None
      | c # _ \<Rightarrow> if c = ''..'' then None else Some c)"

definition agent_base :: "string \<Rightarrow> string" where
  "agent_base name = takeWhile (\<lambda>c. c \<noteq> CHR ''@'') name"

definition provider :: "agent_config \<Rightarrow> string option" where
  "provider a =
     (case ac_usage_source a of
        Some AnthropicOauth \<Rightarrow> Some ''claude''
      | Some CodexRollout \<Rightarrow> Some ''codex''
      | None \<Rightarrow>
          opt_or (List.find (\<lambda>p. agent_base (ac_name a) = p) PROVIDERS)
            (Option.bind (file_name (ac_command a)) (\<lambda>f.
               if f = ''claude-agent-acp'' \<or> f = ''claude-acp'' then Some ''claude''
               else if f = ''codex-acp'' then Some ''codex''
               else if f = ''grok'' then Some ''grok''
               else if f = ''kimi'' then Some ''kimi'' else None)))"

definition routing_disabled :: "agent_config \<Rightarrow> bool" where
  "routing_disabled a \<longleftrightarrow> ac_account_disabled a \<or> 100 \<le> res_weekly (ac_reserve a) \<or> 100 \<le> res_session (ac_reserve a)"

definition account_group :: "agent_config \<Rightarrow> string" where
  "account_group a = unwrap_or (provider a) (agent_base (ac_name a))"

definition view_group :: "agent_config list \<Rightarrow> candidate_view \<Rightarrow> string option" where
  "view_group agents v = map_option account_group (find_agent agents (cid_agent (cv_id v)))"

definition included_groups :: "agent_config list \<Rightarrow> candidate_view list \<Rightarrow> string list" where
  "included_groups agents views =
     List.map_filter (view_group agents) (filter (\<lambda>v. is_some_and (cv_plan_headroom v) (\<lambda>p. 0 < p)) views)"

fun min_of :: "nat list \<Rightarrow> nat option" where
  "min_of [] = None"
| "min_of (x # xs) = (case min_of xs of None \<Rightarrow> Some x | Some y \<Rightarrow> Some (min x y))"

text \<open>The best priority of a group among the accounts that still have a view.\<close>

definition first_priority :: "agent_config list \<Rightarrow> candidate_view list \<Rightarrow> string \<Rightarrow> nat option" where
  "first_priority agents views g =
     min_of (List.map_filter (\<lambda>a. if account_group a = g \<and> list_ex (\<lambda>v. cid_agent (cv_id v) = ac_name a) views
                                 then ac_account_priority a else None) agents)"

definition keep_included :: "agent_config list \<Rightarrow> candidate_id option \<Rightarrow> candidate_view list \<Rightarrow> candidate_view list" where
  "keep_included agents admit views =
     filter (\<lambda>v. admit = Some (cv_id v) \<or> \<not> cv_on_overage v
               \<or> \<not> is_some_and (view_group agents v) (\<lambda>g. g \<in> set (included_groups agents views))) views"

definition keep_first :: "agent_config list \<Rightarrow> candidate_id option \<Rightarrow> candidate_view list \<Rightarrow> candidate_view list" where
  "keep_first agents admit views =
     filter (\<lambda>v. admit = Some (cv_id v)
               \<or> is_none_or (find_agent agents (cid_agent (cv_id v)))
                   (\<lambda>a. is_none_or (ac_account_priority a) (\<lambda>p. first_priority agents views (account_group a) = Some p))) views"

definition prioritize :: "agent_config list \<Rightarrow> candidate_id option \<Rightarrow> candidate_view list \<Rightarrow> candidate_view list" where
  "prioritize agents admit views = keep_first agents admit (keep_included agents admit views)"

section \<open>The router's state\<close>

record prompt_caps =
  pc_image :: bool
  pc_audio :: bool
  pc_embedded_context :: bool

definition caps_default :: prompt_caps where
  "caps_default = \<lparr>pc_image = False, pc_audio = False, pc_embedded_context = False\<rparr>"

definition satisfied_by :: "prompt_caps \<Rightarrow> prompt_caps \<Rightarrow> bool" where
  "satisfied_by required caps \<longleftrightarrow>
     (pc_image required \<longrightarrow> pc_image caps) \<and> (pc_audio required \<longrightarrow> pc_audio caps)
     \<and> (pc_embedded_context required \<longrightarrow> pc_embedded_context caps)"

datatype candidate_status = Unverified | Routeable | AuthPending | InvalidCandidate string | Down string

record candidate_runtime =
  cr_id :: candidate_id
  cr_cost_rank :: nat
  cr_config_index :: nat
  cr_process_key :: string
  cr_status :: candidate_status
  cr_auto_eligible :: bool

record target_runtime =
  tg_connected :: bool
  tg_caps :: "prompt_caps option"
  tg_dead :: bool

record availability_preference =
  ap_enabled :: bool
  ap_headroom_scale_dollars :: real
  ap_overage_budget_weight :: real

record failover_config =
  fo_on_model_capacity :: bool
  fo_capacity_cordon_secs :: nat
  fo_outage_cordon_secs :: nat
  fo_max_wait_secs :: nat

record shared_state =
  sh_agents :: "agent_config list"
  sh_pinned_versions :: "string \<rightharpoonup> string"
  sh_candidates :: "candidate_runtime list"
  sh_targets :: "string \<rightharpoonup> target_runtime"
  sh_logging_in :: "string list"
  sh_auth_unavailable :: "string \<rightharpoonup> string"
  sh_scores :: score_table
  sh_preference :: availability_preference
  sh_failover :: failover_config
  sh_cordon_default_secs :: nat

definition auth_rejection :: "shared_state \<Rightarrow> string \<Rightarrow> string option" where
  "auth_rejection sh name = Option.bind (find_agent (sh_agents sh) name) (\<lambda>_. sh_auth_unavailable sh name)"

definition routeable_candidates_inner :: "shared_state \<Rightarrow> bool \<Rightarrow> candidate_runtime list" where
  "routeable_candidates_inner sh include_down =
     filter (\<lambda>c. cr_status c = Routeable \<or> include_down \<and> (case cr_status c of Down _ \<Rightarrow> True | _ \<Rightarrow> False)) (sh_candidates sh)"

definition candidate_matches :: "string \<Rightarrow> candidate_id \<Rightarrow> bool" where
  "candidate_matches pattern cid \<longleftrightarrow>
     eq_ignore_ascii_case pattern (cid_agent cid) \<or> glob_match pattern (candidate_display cid)"

definition is_excluded :: "candidate_id \<Rightarrow> string list \<Rightarrow> bool" where
  "is_excluded cid patterns \<longleftrightarrow> list_ex (\<lambda>p. candidate_matches p cid) patterns"

section \<open>Eligible candidates\<close>

text \<open>A request for a pool: what the prompt needs and who asks.\<close>

record pool_request =
  pr_required :: prompt_caps
  pr_class :: task_class
  pr_admit :: "candidate_id option"
  pr_explicit_pick :: bool
  pr_excluded :: "string list"
  pr_serving :: "candidate_id option"
  pr_now :: instant
  pr_wall :: instant

text \<open>The gates before the tracker is asked.\<close>

definition static_gates :: "shared_state \<Rightarrow> pool_request \<Rightarrow> candidate_runtime \<Rightarrow> bool" where
  "static_gates sh pr c \<longleftrightarrow>
     \<not> is_excluded (cr_id c) (pr_excluded pr)
     \<and> cid_agent (cr_id c) \<notin> set (sh_logging_in sh)
     \<and> \<not> list_ex (\<lambda>a. ac_name a = cid_agent (cr_id c) \<and> routing_disabled a) (sh_agents sh)
     \<and> (cr_auto_eligible c \<or> pr_admit pr = Some (cr_id c))
     \<and> is_some_and (sh_targets sh (cr_process_key c)) (\<lambda>target.
          (tg_connected target \<or> pr_explicit_pick pr \<and> tg_dead target)
          \<and> auth_rejection sh (cid_agent (cr_id c)) = None
          \<and> is_some_and (tg_caps target) (satisfied_by (pr_required pr)))"

definition tracker_gates :: "shared_state \<Rightarrow> pool_request \<Rightarrow> candidate_id \<Rightarrow> tracker \<Rightarrow> bool \<times> tracker" where
  "tracker_gates sh pr cid t =
     (let (quarantined, t1) = (if pr_explicit_pick pr then (False, t) else is_quarantined_at cid (pr_now pr) t) in
      if quarantined then (False, t1)
      else let (cordon, t2) = cordon_active_at (cid_agent cid) (pr_now pr) t1 in
           if cordon \<noteq> None then (False, t2)
           else (usage_cordon_at cid (pr_wall pr) t2 = None
                 \<and> (pr_serving pr = Some cid \<or> model_outage (lineage_of (sh_agents sh) (cid_agent cid)) (cid_model cid) (pr_wall pr) t2 = None)
                 \<and> \<not> seat_exhausted_at cid (pr_wall pr) t2, t2))"

definition candidate_scores :: "shared_state \<Rightarrow> candidate_id \<Rightarrow> resolved_scores" where
  "candidate_scores sh cid =
     (case resolve_version (sh_agents sh) (sh_pinned_versions sh) cid None of
        Some v \<Rightarrow> lookup_exact (sh_scores sh) \<lparr>cid_agent = cid_agent cid, cid_model = mv_api_model v\<rparr>
      | None \<Rightarrow> score_lookup (sh_scores sh) cid)"

definition make_view :: "shared_state \<Rightarrow> pool_request \<Rightarrow> candidate_runtime \<Rightarrow> tracker \<Rightarrow> candidate_view \<times> tracker" where
  "make_view sh pr c t =
     (let cid = cr_id c; ap = sh_preference sh; scores = candidate_scores sh cid;
          static_preference = (case find_agent (sh_agents sh) (cid_agent cid) of Some a \<Rightarrow> ac_preference a | None \<Rightarrow> 0);
          availability = availability_at cid (pr_wall pr) t;
          budget = map_option (\<lambda>a. clamp 0 1 (seat_budget_with_overage_weight a (ap_headroom_scale_dollars ap) (ap_overage_budget_weight ap))) availability;
          (local_headroom, t1) = headroom_at (cid_agent cid) (pr_now pr) t
      in (\<lparr>cv_id = cid, cv_cost_rank = cr_cost_rank c, cv_config_index = cr_config_index c,
           cv_quality = quality scores (pr_class pr), cv_coding_tier = rsc_coding_tier scores,
           cv_headroom = (case budget of Some b \<Rightarrow> if ap_enabled ap then min local_headroom b else local_headroom
                                       | None \<Rightarrow> local_headroom),
           cv_plan_headroom = map_option (\<lambda>a. clamp 0 1 (sa_plan_headroom a)) availability,
           cv_on_overage = is_some_and availability sa_on_overage,
           cv_preference = (case budget of Some b \<Rightarrow> if ap_enabled ap then static_preference * b else static_preference
                                         | None \<Rightarrow> static_preference)\<rparr>, t1))"

fun pool_views :: "shared_state \<Rightarrow> pool_request \<Rightarrow> candidate_runtime list \<Rightarrow> tracker \<Rightarrow> candidate_view list \<times> tracker" where
  "pool_views sh pr [] t = ([], t)"
| "pool_views sh pr (c # cs) t =
     (if \<not> static_gates sh pr c then pool_views sh pr cs t
      else let (open_now, t1) = tracker_gates sh pr (cr_id c) t in
           if \<not> open_now then pool_views sh pr cs t1
           else let (v, t2) = make_view sh pr c t1; (vs, t3) = pool_views sh pr cs t2 in (v # vs, t3))"

definition hide_plan :: "availability_preference \<Rightarrow> candidate_view list \<Rightarrow> candidate_view list" where
  "hide_plan ap views =
     (if ap_enabled ap then views else map (\<lambda>v. v\<lparr>cv_plan_headroom := None, cv_on_overage := False\<rparr>) views)"

definition eligible_views_core ::
  "shared_state \<Rightarrow> pool_request \<Rightarrow> (candidate_view \<Rightarrow> bool) \<Rightarrow> tracker \<Rightarrow> candidate_view list \<times> tracker" where
  "eligible_views_core sh pr matches t =
     (let (views, t1) = pool_views sh pr (routeable_candidates_inner sh (pr_explicit_pick pr)) t;
          ordered = prioritize (sh_agents sh) (pr_admit pr) (filter matches views)
      in (cap_overage_headroom (ap_overage_budget_weight (sh_preference sh))
            (cap_unmetered_headroom (hide_plan (sh_preference sh) ordered)), t1))"

definition pool_request_default :: "prompt_caps \<Rightarrow> task_class \<Rightarrow> instant \<Rightarrow> instant \<Rightarrow> pool_request" where
  "pool_request_default required cls now wall =
     \<lparr>pr_required = required, pr_class = cls, pr_admit = None, pr_explicit_pick = False, pr_excluded = [],
      pr_serving = None, pr_now = now, pr_wall = wall\<rparr>"

definition eligible_views :: "shared_state \<Rightarrow> prompt_caps \<Rightarrow> task_class \<Rightarrow> instant \<Rightarrow> instant \<Rightarrow> tracker \<Rightarrow> candidate_view list \<times> tracker" where
  "eligible_views sh required cls now wall = eligible_views_core sh (pool_request_default required cls now wall) (\<lambda>_. True)"

definition eligible_views_revivable ::
  "shared_state \<Rightarrow> prompt_caps \<Rightarrow> task_class \<Rightarrow> instant \<Rightarrow> instant \<Rightarrow> tracker \<Rightarrow> candidate_view list \<times> tracker" where
  "eligible_views_revivable sh required cls now wall =
     eligible_views_core sh ((pool_request_default required cls now wall)\<lparr>pr_explicit_pick := True\<rparr>) (\<lambda>_. True)"

definition find_view :: "candidate_id \<Rightarrow> candidate_view list \<times> tracker \<Rightarrow> candidate_view option \<times> tracker" where
  "find_view cid = (\<lambda>(views, t). (List.find (\<lambda>v. cv_id v = cid) views, t))"

definition candidate_view_revivable ::
  "shared_state \<Rightarrow> candidate_id \<Rightarrow> prompt_caps \<Rightarrow> task_class \<Rightarrow> instant \<Rightarrow> instant \<Rightarrow> tracker \<Rightarrow> candidate_view option \<times> tracker" where
  "candidate_view_revivable sh cid required cls now wall t =
     find_view cid (eligible_views_core sh
       ((pool_request_default required cls now wall)\<lparr>pr_admit := Some cid, pr_explicit_pick := True\<rparr>) (\<lambda>_. True) t)"

definition view_for ::
  "shared_state \<Rightarrow> candidate_id \<Rightarrow> prompt_caps \<Rightarrow> task_class \<Rightarrow> instant \<Rightarrow> instant \<Rightarrow> tracker \<Rightarrow> candidate_view option \<times> tracker" where
  "view_for sh cid required cls now wall t =
     find_view cid (eligible_views_core sh ((pool_request_default required cls now wall)\<lparr>pr_admit := Some cid\<rparr>) (\<lambda>_. True) t)"

definition candidate_view_serving ::
  "shared_state \<Rightarrow> candidate_id \<Rightarrow> task_class \<Rightarrow> instant \<Rightarrow> instant \<Rightarrow> tracker \<Rightarrow> candidate_view option \<times> tracker" where
  "candidate_view_serving sh cid cls now wall t =
     find_view cid (eligible_views_core sh
       ((pool_request_default caps_default cls now wall)\<lparr>pr_admit := Some cid, pr_serving := Some cid\<rparr>) (\<lambda>_. True) t)"

section \<open>The seat a reference names\<close>

definition seat_for :: "shared_state \<Rightarrow> candidate_id \<Rightarrow> instant \<Rightarrow> instant \<Rightarrow> tracker \<Rightarrow> candidate_id \<times> tracker" where
  "seat_for sh reference now wall t =
     (if CHR ''@'' \<in> set (cid_agent reference) then (reference, t)
      else let (own, t1) = candidate_view_revivable sh reference caps_default CodingGeneral now wall t in
           if own \<noteq> None then (reference, t1)
           else let (views, t2) = eligible_views_revivable sh caps_default CodingGeneral now wall t1 in
                ((case min_by_key cv_config_index
                     (filter (\<lambda>v. agent_base (cid_agent (cv_id v)) = cid_agent reference \<and> cid_model (cv_id v) = cid_model reference) views) of
                    Some v \<Rightarrow> cv_id v
                  | None \<Rightarrow> reference), t2))"

text \<open>The account a persisted candidate without one resolves to, by priority, when none is routeable.\<close>

definition account_seats :: "agent_config list \<Rightarrow> candidate_id \<Rightarrow> (nat \<times> agent_config) list" where
  "account_seats agents reference =
     filter (\<lambda>(_, a). map_option fst (split_once (CHR ''@'') (ac_name a)) = Some (cid_agent reference)
               \<and> list_ex (\<lambda>m. mc_id m = cid_model reference) (ac_models a)) (enumerate 0 agents)"

definition seat_rank :: "nat \<times> agent_config \<Rightarrow> nat \<times> nat" where
  "seat_rank = (\<lambda>(index, a). (unwrap_or (ac_account_priority a) (2 ^ 32 - 1), index))"

fun first_min :: "('a \<Rightarrow> 'k::linorder) \<Rightarrow> 'a list \<Rightarrow> 'a option" where
  "first_min k [] = None"
| "first_min k (x # xs) = (case first_min k xs of None \<Rightarrow> Some x | Some y \<Rightarrow> if k x \<le> k y then Some x else Some y)"

definition restored_seat :: "shared_state \<Rightarrow> candidate_id \<Rightarrow> instant \<Rightarrow> instant \<Rightarrow> tracker \<Rightarrow> candidate_id \<times> tracker" where
  "restored_seat sh reference now wall t =
     (if list_ex (\<lambda>a. ac_name a = cid_agent reference) (sh_agents sh) then (reference, t)
      else let (seat, t1) = seat_for sh reference now wall t in
           if seat \<noteq> reference then (seat, t1)
           else ((case first_min seat_rank (account_seats (sh_agents sh) reference) of
                    Some (_, a) \<Rightarrow> \<lparr>cid_agent = ac_name a, cid_model = cid_model reference\<rparr>
                  | None \<Rightarrow> reference), t1))"

section \<open>Failures\<close>

text \<open>\<open>String::truncate\<close>, which panics (\<open>None\<close>) inside a character.\<close>

definition truncate_str :: "nat \<Rightarrow> string \<Rightarrow> string option" where
  "truncate_str n s =
     (if length s \<le> n then Some s
      else if 128 \<le> byte (s ! n) \<and> byte (s ! n) < 192 then None else Some (take n s))"

text \<open>A failure as it reaches the router: whether it asks for authentication, its text and its class.\<close>

record router_failure =
  rf_auth_required :: bool
  rf_text :: string
  rf_class :: failure_class

definition model_outage_cordon :: "shared_state \<Rightarrow> candidate_id \<Rightarrow> string \<Rightarrow> instant \<Rightarrow> tracker \<Rightarrow> tracker" where
  "model_outage_cordon sh cid reason wall t =
     (let secs = fo_outage_cordon_secs (sh_failover sh) in
      if secs = 0 then t
      else cordon_model_outage (lineage_of (sh_agents sh) (cid_agent cid)) (cid_model cid) reason (wall + secs * NANOS) t)"

text \<open>The reason shown to the user (\<open>None\<close> when \<open>truncate\<close> panics) and the tracker after the failure.\<close>

definition apply_failure ::
  "text_env \<Rightarrow> shared_state \<Rightarrow> candidate_id \<Rightarrow> router_failure \<Rightarrow> instant \<Rightarrow> instant \<Rightarrow> tracker \<Rightarrow> string option \<times> tracker" where
  "apply_failure te sh cid f now wall t =
     (if rf_auth_required f
      then (Some (unwrap_or (auth_rejection sh (cid_agent cid)) ''authentication status unavailable''), t)
      else case rf_class f of
        RateLimited retry_after spend_scoped \<Rightarrow>
          (let effective = unwrap_or retry_after (sh_cordon_default_secs sh);
               kind = (if spend_scoped then ''spend limit'' else ''token/usage limit'');
               reason = (if retry_after \<noteq> None then kind @ '' (model reports reset in '' @ humanize effective @ '')''
                         else kind @ '' (no reset time reported; retrying in '' @ humanize effective @ '')'')
           in (Some reason,
               if spend_scoped then cordon_candidate cid reason (wall + effective * NANOS) t
               else snd (cordon_at (cid_agent cid) (Some (effective * NANOS)) reason now t)))
      | Outage \<Rightarrow>
          if is_provider_terms_gate_text (te_lowercase te (rf_text f))
          then (let reason = ''provider requires accepting updated terms in claude.ai''
                in (Some reason, snd (cordon_at (cid_agent cid) None reason now t)))
          else let t1 = record_pre_prompt_failure_at cid now t in
               (case truncate_str 160 (rf_text f) of
                  None \<Rightarrow> (None, t1)
                | Some msg \<Rightarrow>
                    (Some (''outage ('' @ msg @ '')''),
                     if is_local_adapter_failure (te_lowercase te msg) then t1
                     else model_outage_cordon sh cid (''provider outage ('' @ msg @ '')'') wall t1))
      | ModelAtCapacity \<Rightarrow>
          if fo_on_model_capacity (sh_failover sh)
          then (let secs = fo_capacity_cordon_secs (sh_failover sh);
                    reason = ''model at capacity (retrying in '' @ humanize secs @ '')''
                in (Some reason, cordon_candidate cid reason (wall + secs * NANOS) t))
          else (Some ''model at capacity'', record_pre_prompt_failure_at cid now t)
      | ContextOverflow \<Rightarrow> (map_option (\<lambda>msg. ''context overflow ('' @ msg @ '')'') (truncate_str 160 (rf_text f)), t)
      | OtherFailure \<Rightarrow> (truncate_str 160 (rf_text f), t))"

fun latest :: "instant option list \<Rightarrow> instant option" where
  "latest [] = None"
| "latest (x # xs) = (case (x, latest xs) of (Some a, Some b) \<Rightarrow> Some (max a b) | (a, b) \<Rightarrow> opt_or a b)"

definition retry_wait_until :: "shared_state \<Rightarrow> candidate_id \<Rightarrow> instant \<Rightarrow> instant \<Rightarrow> tracker \<Rightarrow> instant option \<times> tracker" where
  "retry_wait_until sh cid now wall t =
     (let (cordon, t1) = cordon_active_at (cid_agent cid) now t;
          ends = latest [map_option uc_resets_at (model_outage (lineage_of (sh_agents sh) (cid_agent cid)) (cid_model cid) wall t),
                         map_option uc_resets_at (opt_filter (\<lambda>c. \<not> uc_soft c) (usage_cordon_at cid wall t)),
                         map_option (\<lambda>(remaining, _). wall + remaining) cordon]
      in (Option.bind ends (\<lambda>until. if until - wall \<le> fo_max_wait_secs (sh_failover sh) * NANOS then Some until else None), t1))"

section \<open>Reading the tracker changes no answer\<close>

text \<open>Everything the gates read from a tracker at one instant.\<close>

definition gate_view :: "instant \<Rightarrow> tracker \<Rightarrow>
  (candidate_id \<Rightarrow> bool) \<times> (string \<Rightarrow> (nat \<times> string) option) \<times> (candidate_id \<rightharpoonup> usage_cordon) \<times> (candidate_id \<rightharpoonup> usage_cordon) \<times>
  (string \<times> string \<rightharpoonup> usage_cordon) \<times> avail_map \<times> (string \<rightharpoonup> avail_map \<times> instant) \<times> (string \<rightharpoonup> instant option)" where
  "gate_view now t =
     ((\<lambda>i. fst (is_quarantined_at i now t)), (\<lambda>a. fst (cordon_active_at a now t)), tr_usage_cordons t, tr_candidate_cordons t,
      tr_model_outages t, tr_availability_poll t, tr_availability_hints t, tr_overage_permissions t)"

lemma gate_view_quarantine [simp]: "gate_view now (snd (is_quarantined_at i now t)) = gate_view now t"
  by (auto simp: gate_view_def is_quarantined_at_def cordon_active_at_def fun_eq_iff split: option.splits)

lemma gate_view_cordon [simp]: "gate_view now (snd (cordon_active_at a now t)) = gate_view now t"
  by (auto simp: gate_view_def is_quarantined_at_def cordon_active_at_def fun_eq_iff split: option.splits)

lemma gate_view_agents [simp]: "gate_view now (t\<lparr>tr_agents := m\<rparr>) = gate_view now t"
  by (auto simp: gate_view_def is_quarantined_at_def cordon_active_at_def fun_eq_iff split: option.splits)

lemma gate_view_headroom [simp]: "gate_view now (snd (headroom_at a now t)) = gate_view now t"
proof -
  obtain c t1 where c: "cordon_active_at a now t = (c, t1)" by (cases "cordon_active_at a now t")
  have "gate_view now t1 = gate_view now t" using gate_view_cordon [of now a t] by (simp add: c)
  then show ?thesis by (simp add: headroom_at_def Let_def c)
qed

definition tracker_open :: "shared_state \<Rightarrow> pool_request \<Rightarrow> candidate_id \<Rightarrow> tracker \<Rightarrow> bool" where
  "tracker_open sh pr i t \<longleftrightarrow>
     (pr_explicit_pick pr \<or> \<not> fst (is_quarantined_at i (pr_now pr) t))
     \<and> fst (cordon_active_at (cid_agent i) (pr_now pr) t) = None \<and> usage_cordon_at i (pr_wall pr) t = None
     \<and> (pr_serving pr = Some i \<or> model_outage (lineage_of (sh_agents sh) (cid_agent i)) (cid_model i) (pr_wall pr) t = None)
     \<and> \<not> seat_exhausted_at i (pr_wall pr) t"

lemma gate_view_eq:
  assumes "gate_view now t = gate_view now t'"
  shows "fst (is_quarantined_at i now t) = fst (is_quarantined_at i now t')"
    "fst (cordon_active_at a now t) = fst (cordon_active_at a now t')"
    "usage_cordon_at i wall t = usage_cordon_at i wall t'" "model_outage l m wall t = model_outage l m wall t'"
    "availability_at i wall t = availability_at i wall t'" "seat_exhausted_at i wall t = seat_exhausted_at i wall t'"
  using assms by (auto simp: gate_view_def fun_eq_iff usage_cordon_at_def model_outage_def availability_at_def overage_denied_def
      seat_exhausted_at_def)

lemma tracker_open_view:
  assumes "gate_view (pr_now pr) t = gate_view (pr_now pr) t'"
  shows "tracker_open sh pr i t = tracker_open sh pr i t'"
  unfolding tracker_open_def gate_view_eq [OF assms] ..

lemma tracker_gates_open:
  "fst (tracker_gates sh pr i t) = tracker_open sh pr i t" "gate_view (pr_now pr) (snd (tracker_gates sh pr i t)) = gate_view (pr_now pr) t"
proof -
  let ?n = "pr_now pr"
  define t1 where "t1 = (if pr_explicit_pick pr then t else snd (is_quarantined_at i ?n t))"
  define t2 where "t2 = snd (cordon_active_at (cid_agent i) ?n t1)"
  have 1: "gate_view ?n t1 = gate_view ?n t" by (simp add: t1_def)
  then have 2: "gate_view ?n t2 = gate_view ?n t" by (simp add: t2_def)
  have g: "tracker_gates sh pr i t =
     (if \<not> pr_explicit_pick pr \<and> fst (is_quarantined_at i ?n t) then (False, t1)
      else if fst (cordon_active_at (cid_agent i) ?n t1) \<noteq> None then (False, t2)
      else (usage_cordon_at i (pr_wall pr) t2 = None
            \<and> (pr_serving pr = Some i \<or> model_outage (lineage_of (sh_agents sh) (cid_agent i)) (cid_model i) (pr_wall pr) t2 = None)
            \<and> \<not> seat_exhausted_at i (pr_wall pr) t2, t2))"
    by (simp add: tracker_gates_def t1_def t2_def split_beta Let_def)
  show "fst (tracker_gates sh pr i t) = tracker_open sh pr i t"
    unfolding g tracker_open_def by (auto simp: gate_view_eq [OF 1] gate_view_eq [OF 2] simp del: not_None_eq split_paired_All)
  show "gate_view ?n (snd (tracker_gates sh pr i t)) = gate_view ?n t" using 1 2 by (simp add: g)
qed

lemma make_view_facts:
  "cv_id (fst (make_view sh pr c t)) = cr_id c" "gate_view (pr_now pr) (snd (make_view sh pr c t)) = gate_view (pr_now pr) t"
  "cv_plan_headroom (fst (make_view sh pr c t)) = map_option (\<lambda>a. clamp 0 1 (sa_plan_headroom a)) (availability_at (cr_id c) (pr_wall pr) t)"
  "cv_on_overage (fst (make_view sh pr c t)) = is_some_and (availability_at (cr_id c) (pr_wall pr) t) sa_on_overage"
  by (simp_all add: make_view_def Let_def split_beta)

text \<open>The views made from the candidates are those of the candidates that pass, in configuration order.\<close>

definition passes :: "shared_state \<Rightarrow> pool_request \<Rightarrow> tracker \<Rightarrow> candidate_runtime \<Rightarrow> bool" where
  "passes sh pr t c \<longleftrightarrow> static_gates sh pr c \<and> tracker_open sh pr (cr_id c) t"

definition seat_view :: "pool_request \<Rightarrow> tracker \<Rightarrow> candidate_view \<Rightarrow> bool" where
  "seat_view pr t v \<longleftrightarrow>
     cv_plan_headroom v = map_option (\<lambda>a. clamp 0 1 (sa_plan_headroom a)) (availability_at (cv_id v) (pr_wall pr) t)
     \<and> cv_on_overage v = is_some_and (availability_at (cv_id v) (pr_wall pr) t) sa_on_overage"

lemma seat_view_view:
  assumes "gate_view now t = gate_view now t'"
  shows "seat_view pr t = seat_view pr t'"
  unfolding seat_view_def gate_view_eq(5) [OF assms] ..

lemma pool_views_exact:
  "map cv_id (fst (pool_views sh pr cs t)) = map cr_id (filter (passes sh pr t) cs) \<and>
   list_all (seat_view pr t) (fst (pool_views sh pr cs t))"
proof (induction cs arbitrary: t)
  case (Cons c cs)
  obtain b t1 where g: "tracker_gates sh pr (cr_id c) t = (b, t1)" by (cases "tracker_gates sh pr (cr_id c) t")
  obtain v t2 where v: "make_view sh pr c t1 = (v, t2)" by (cases "make_view sh pr c t1")
  have b: "b = tracker_open sh pr (cr_id c) t" and 1: "gate_view (pr_now pr) t1 = gate_view (pr_now pr) t"
    using tracker_gates_open(1) [of sh pr "cr_id c" t] tracker_gates_open(2) [of pr sh "cr_id c" t] by (simp_all add: g)
  have 2: "gate_view (pr_now pr) t2 = gate_view (pr_now pr) t" and id: "cv_id v = cr_id c"
    using make_view_facts(1) [of sh pr c t1] make_view_facts(2) [of pr sh c t1] 1 by (simp_all add: v)
  have sv: "seat_view pr t v"
    using make_view_facts(1,3,4) [of sh pr c t1] unfolding seat_view_view [OF 1, of pr, symmetric] by (simp add: v seat_view_def)
  have p: "passes sh pr t1 = passes sh pr t" "passes sh pr t2 = passes sh pr t"
    using tracker_open_view [OF 1] tracker_open_view [OF 2] by (auto simp: passes_def fun_eq_iff)
  note s = seat_view_view [OF 1, of pr] seat_view_view [OF 2, of pr]
  show ?case
    using Cons.IH [of t] Cons.IH [of t1] Cons.IH [of t2] sv
    by (simp add: g v id p s split_beta Let_def) (simp add: b passes_def)
qed simp

lemma pool_views_gate_view: "gate_view (pr_now pr) (snd (pool_views sh pr cs t)) = gate_view (pr_now pr) t"
proof (induction cs arbitrary: t)
  case (Cons c cs)
  then show ?case using tracker_gates_open(2) [of pr sh] make_view_facts(2) [of pr sh c]
    by (simp add: split_beta Let_def)
qed simp

section \<open>The order of accounts\<close>

lemma min_of_Some: "min_of xs = Some x \<Longrightarrow> x \<in> set xs"
  by (induction xs arbitrary: x) (auto simp: min_def split: option.splits if_splits)

lemma min_of_None [simp]: "min_of xs = None \<longleftrightarrow> xs = []"
  by (induction xs) (auto split: option.splits)

lemma find_agent_eq: "distinct (map ac_name agents) \<Longrightarrow> a \<in> set agents \<Longrightarrow> find_agent agents (ac_name a) = Some a"
  unfolding find_agent_def by (induction agents) (auto simp: image_iff)

lemma find_agent_name: "find_agent agents n = Some a \<Longrightarrow> ac_name a = n \<and> a \<in> set agents"
  by (auto simp: find_agent_def find_Some_iff)

lemma keep_included_nonempty:
  assumes "views \<noteq> []" "\<forall>v \<in> set views. cv_on_overage v \<longrightarrow> \<not> is_some_and (cv_plan_headroom v) (\<lambda>p. 0 < p)"
  shows "keep_included agents admit views \<noteq> []"
proof
  assume e: "keep_included agents admit views = []"
  obtain v where v: "v \<in> set views" using assms(1) by (cases views) auto
  with e obtain g where "g \<in> set (included_groups agents views)"
    by (auto simp: keep_included_def filter_empty_conv is_some_and_iff)
  then obtain u where "u \<in> set views" "is_some_and (cv_plan_headroom u) (\<lambda>p. 0 < p)"
    by (auto simp: included_groups_def set_map_filter)
  with assms(2) e show False by (auto simp: keep_included_def filter_empty_conv)
qed

lemma keep_first_nonempty:
  assumes "views \<noteq> []" and "distinct (map ac_name agents)"
  shows "keep_first agents admit views \<noteq> []"
proof
  assume e: "keep_first agents admit views = []"
  obtain v where v: "v \<in> set views" using assms(1) by (cases views) auto
  with e obtain a where a: "find_agent agents (cid_agent (cv_id v)) = Some a" "ac_account_priority a \<noteq> None"
    by (fastforce simp: keep_first_def filter_empty_conv is_none_or_iff)
  let ?g = "account_group a"
  obtain q where q: "ac_account_priority a = Some q" using a(2) by blast
  have "list_ex (\<lambda>v. cid_agent (cv_id v) = ac_name a) views"
    using v find_agent_name [OF a(1)] by (auto simp: list_ex_iff)
  then have "q \<in> set (List.map_filter (\<lambda>b. if account_group b = ?g \<and> list_ex (\<lambda>v. cid_agent (cv_id v) = ac_name b) views
      then ac_account_priority b else None) agents)"
    unfolding set_map_filter using q find_agent_name [OF a(1)] by (intro bexI [of _ a]) simp_all
  then have "first_priority agents views ?g \<noteq> None" unfolding first_priority_def min_of_None by auto
  then obtain p where p: "first_priority agents views ?g = Some p" by blast
  then obtain b u where b: "b \<in> set agents" "account_group b = ?g" "u \<in> set views" "cid_agent (cv_id u) = ac_name b" "ac_account_priority b = Some p"
    using min_of_Some by (fastforce simp: first_priority_def set_map_filter list_ex_iff split: if_splits)
  have "find_agent agents (cid_agent (cv_id u)) = Some b" using find_agent_eq [OF assms(2) b(1)] b(4) by simp
  with e b p show False by (auto simp: keep_first_def filter_empty_conv)
qed

lemma prioritize_nonempty:
  assumes "views \<noteq> []" and "distinct (map ac_name agents)"
    and "\<forall>v \<in> set views. cv_on_overage v \<longrightarrow> \<not> is_some_and (cv_plan_headroom v) (\<lambda>p. 0 < p)"
  shows "prioritize agents admit views \<noteq> []"
  unfolding prioritize_def by (rule keep_first_nonempty [OF keep_included_nonempty [OF assms(1,3)] assms(2)])

lemma set_prioritize: "set (prioritize agents admit views) \<subseteq> set views"
  by (auto simp: prioritize_def keep_first_def keep_included_def)

lemma caps_keep_ids [simp]:
  "map cv_id (cap_unmetered_headroom vs) = map cv_id vs" "map cv_id (cap_overage_headroom w vs) = map cv_id vs"
  "map cv_id (hide_plan ap vs) = map cv_id vs"
  by (auto simp: cap_unmetered_headroom_def cap_overage_headroom_def hide_plan_def Let_def split: option.splits)

lemma eligible_ids:
  "map cv_id (fst (eligible_views_core sh pr m t)) =
   map cv_id (prioritize (sh_agents sh) (pr_admit pr)
     (filter m (fst (pool_views sh pr (routeable_candidates_inner sh (pr_explicit_pick pr)) t))))"
  by (simp add: eligible_views_core_def split_beta Let_def)

lemma eligible_passes:
  assumes "v \<in> set (fst (eligible_views_core sh pr m t))"
  shows "\<exists>c \<in> set (routeable_candidates_inner sh (pr_explicit_pick pr)). cv_id v = cr_id c \<and> passes sh pr t c"
proof -
  have "cv_id v \<in> set (map cv_id (fst (eligible_views_core sh pr m t)))" using assms by auto
  then have "cv_id v \<in> set (map cv_id (fst (pool_views sh pr (routeable_candidates_inner sh (pr_explicit_pick pr)) t)))"
    unfolding eligible_ids using set_prioritize by fastforce
  then show ?thesis unfolding pool_views_exact [THEN conjunct1] by auto
qed

lemma eligible_gate_view: "gate_view (pr_now pr) (snd (eligible_views_core sh pr m t)) = gate_view (pr_now pr) t"
  by (simp add: eligible_views_core_def split_beta Let_def pool_views_gate_view)

lemma eligible_open: "v \<in> set (fst (eligible_views_core sh pr m t)) \<Longrightarrow> tracker_open sh pr (cv_id v) t"
  using eligible_passes [of v sh pr m t] by (auto simp: passes_def)

lemma hinted_seat_dropped:
  "prioritize agents None [v] = []"
  if "cv_on_overage v" "cv_plan_headroom v = Some p" "0 < p" "find_agent agents (cid_agent (cv_id v)) \<noteq> None"
  using that by (auto simp: prioritize_def keep_first_def keep_included_def included_groups_def view_group_def map_filter_simps)

section \<open>The pool of a prompt\<close>

text \<open>
  C9. Whatever is in the routing pool may serve the prompt now: it is a configured candidate that is
  routeable (or down, for an explicit pick), not excluded, of an account that is enabled, signed
  in and not signing in, with a connection that accepts the prompt's content, not
  quarantined unless picked explicitly, not cordoned by account, usage or provider outage
  (the last unless it is already serving) and with quota left; candidates kept out of automatic
  routing are there only when named. And for a pool without a further filter, with distinct
  accounts and no seat on overage that still has free plan (\<open>hinted_seat_unroutable\<close> has one), the
  order of accounts never loses the last candidate: the pool is empty only if nobody passes.
\<close>
theorem eligible_pool_exact:
  fixes sh pr m t
  defines "pool \<equiv> fst (eligible_views_core sh pr m t)"
  shows "(\<forall>v \<in> set pool. \<exists>c \<in> set (sh_candidates sh). \<exists>target. let i = cr_id c; a = cid_agent i in cv_id v = i \<and>
      (cr_status c = Routeable \<or> pr_explicit_pick pr \<and> (\<exists>why. cr_status c = Down why)) \<and> \<not> is_excluded i (pr_excluded pr) \<and>
      a \<notin> set (sh_logging_in sh) \<and> (\<forall>ac \<in> set (sh_agents sh). ac_name ac = a \<longrightarrow> \<not> routing_disabled ac) \<and>
      (cr_auto_eligible c \<or> pr_admit pr = Some i) \<and> auth_rejection sh a = None \<and>
      sh_targets sh (cr_process_key c) = Some target \<and> (tg_connected target \<or> pr_explicit_pick pr \<and> tg_dead target) \<and>
      (\<exists>caps. tg_caps target = Some caps \<and> satisfied_by (pr_required pr) caps) \<and>
      (pr_explicit_pick pr \<or> \<not> fst (is_quarantined_at i (pr_now pr) t)) \<and> fst (cordon_active_at a (pr_now pr) t) = None \<and>
      usage_cordon_at i (pr_wall pr) t = None \<and> \<not> seat_exhausted_at i (pr_wall pr) t \<and>
      (pr_serving pr = Some i \<or> model_outage (lineage_of (sh_agents sh) a) (cid_model i) (pr_wall pr) t = None)) \<and>
    (distinct (map ac_name (sh_agents sh)) \<longrightarrow> m = (\<lambda>_. True) \<longrightarrow>
     (\<forall>i a. availability_at i (pr_wall pr) t = Some a \<longrightarrow> sa_on_overage a \<longrightarrow> sa_plan_headroom a \<le> 0) \<longrightarrow>
     pool = [] \<longrightarrow> (\<forall>c \<in> set (routeable_candidates_inner sh (pr_explicit_pick pr)). \<not> passes sh pr t c))"
proof (intro conjI ballI impI allI)
  fix v assume "v \<in> set pool"
  then obtain c where c: "c \<in> set (routeable_candidates_inner sh (pr_explicit_pick pr))" "cv_id v = cr_id c" "passes sh pr t c"
    using eligible_passes unfolding pool_def by blast
  then obtain target where "sh_targets sh (cr_process_key c) = Some target"
    by (auto simp: passes_def static_gates_def is_some_and_iff)
  with c show "\<exists>c \<in> set (sh_candidates sh). \<exists>target. let i = cr_id c; a = cid_agent i in cv_id v = i \<and>
      (cr_status c = Routeable \<or> pr_explicit_pick pr \<and> (\<exists>why. cr_status c = Down why)) \<and> \<not> is_excluded i (pr_excluded pr) \<and>
      a \<notin> set (sh_logging_in sh) \<and> (\<forall>ac \<in> set (sh_agents sh). ac_name ac = a \<longrightarrow> \<not> routing_disabled ac) \<and>
      (cr_auto_eligible c \<or> pr_admit pr = Some i) \<and> auth_rejection sh a = None \<and>
      sh_targets sh (cr_process_key c) = Some target \<and> (tg_connected target \<or> pr_explicit_pick pr \<and> tg_dead target) \<and>
      (\<exists>caps. tg_caps target = Some caps \<and> satisfied_by (pr_required pr) caps) \<and>
      (pr_explicit_pick pr \<or> \<not> fst (is_quarantined_at i (pr_now pr) t)) \<and> fst (cordon_active_at a (pr_now pr) t) = None \<and>
      usage_cordon_at i (pr_wall pr) t = None \<and> \<not> seat_exhausted_at i (pr_wall pr) t \<and>
      (pr_serving pr = Some i \<or> model_outage (lineage_of (sh_agents sh) a) (cid_model i) (pr_wall pr) t = None)"
    unfolding Let_def routeable_candidates_inner_def
    by (intro bexI [of _ c] exI [of _ target])
      (auto simp: passes_def static_gates_def tracker_open_def is_some_and_iff list_ex_iff split: candidate_status.splits)
next
  fix c assume d: "distinct (map ac_name (sh_agents sh))" and m: "m = (\<lambda>_. True)" and e: "pool = []"
    and ov: "\<forall>i a. availability_at i (pr_wall pr) t = Some a \<longrightarrow> sa_on_overage a \<longrightarrow> sa_plan_headroom a \<le> 0"
    and c: "c \<in> set (routeable_candidates_inner sh (pr_explicit_pick pr))"
  let ?vs = "fst (pool_views sh pr (routeable_candidates_inner sh (pr_explicit_pick pr)) t)"
  have sv: "seat_view pr t v" if "v \<in> set ?vs" for v
    using pool_views_exact [of sh pr "routeable_candidates_inner sh (pr_explicit_pick pr)" t] that by (auto simp: list_all_iff)
  have "\<not> is_some_and (cv_plan_headroom v) (\<lambda>p. 0 < p)" if v: "v \<in> set ?vs" "cv_on_overage v" for v
  proof -
    obtain a where "availability_at (cv_id v) (pr_wall pr) t = Some a" "sa_on_overage a"
      using sv [OF v(1)] v(2) by (auto simp: seat_view_def is_some_and_iff)
    moreover from this have "sa_plan_headroom a \<le> 0" using ov by blast
    ultimately show ?thesis using sv [OF v(1)] by (simp add: seat_view_def clamp_def)
  qed
  moreover have "prioritize (sh_agents sh) (pr_admit pr) ?vs = []"
    using e eligible_ids [of sh pr m t] by (simp add: pool_def m)
  ultimately have "?vs = []" using prioritize_nonempty [OF _ d] by blast
  then show "\<not> passes sh pr t c"
    using pool_views_exact [of sh pr "routeable_candidates_inner sh (pr_explicit_pick pr)" t] c
    by (auto simp: filter_empty_conv)
qed

section \<open>Failures and the pool\<close>

lemma cordon_at_until: "\<exists>u r'. tr_cordons (snd (cordon_at a (Some d) r now t)) a = Some (u, r') \<and> now + d \<le> u"
  by (cases "tr_cordons t a") (auto simp: cordon_at_def Let_def)

lemma agent_cordon_holds:
  assumes "tr_cordons t a = Some (u, r)" and "\<forall>(n, op) \<in> set ops. n < u" and "pr_now pr < u"
    and "v \<in> set (fst (eligible_views_core sh pr m (tracker_run ops t)))"
  shows "cid_agent (cv_id v) \<noteq> a"
proof
  assume "cid_agent (cv_id v) = a"
  with eligible_open [OF assms(4)] have "fst (cordon_active_at a (pr_now pr) (tracker_run ops t)) = None"
    by (simp add: tracker_open_def)
  with run_agent_cordon [OF assms(1,2)] assms(3) show False by (auto simp: cordon_active_at_def)
qed

lemma candidate_cordon_holds:
  assumes "tr_candidate_cordons t i = Some c" and "pr_wall pr < uc_resets_at c"
    and "v \<in> set (fst (eligible_views_core sh pr m (tracker_run ops t)))"
  shows "cv_id v \<noteq> i"
proof
  assume "cv_id v = i"
  with eligible_open [OF assms(3)] have "usage_cordon_at i (pr_wall pr) (tracker_run ops t) = None"
    by (simp add: tracker_open_def)
  with run_candidate_cordon [OF assms(1), of ops] assms(2) show False
    by (auto simp: usage_cordon_at_def split: option.splits if_splits)
qed

lemma model_outage_holds:
  assumes "tr_model_outages t (lineage_of (sh_agents sh) (cid_agent (cv_id v)), cid_model (cv_id v)) = Some c"
    and "pr_wall pr < uc_resets_at c" and "v \<in> set (fst (eligible_views_core sh pr m (tracker_run ops t)))"
  shows "pr_serving pr = Some (cv_id v)"
  using eligible_open [OF assms(3)] run_model_outage [OF assms(1), of ops] assms(2)
  by (auto simp: tracker_open_def model_outage_def)

lemma cordon_candidate_until: "\<exists>c. tr_candidate_cordons (cordon_candidate i r e t) i = Some c \<and> e \<le> uc_resets_at c"
  using reactive_cordon_grows(1) by (simp add: cordon_candidate_def)

lemma cordon_model_until: "\<exists>c. tr_model_outages (cordon_model_outage l m r e t) (l, m) = Some c \<and> e \<le> uc_resets_at c"
  using reactive_cordon_grows(1) by (simp add: cordon_model_outage_def)

text \<open>
  C10. A failed candidate sits out, and only what failed does. After a failure is applied, whatever
  the router then records, reads, polls or reconciles: a token or usage limit keeps every
  candidate of the account out of the pool until the reset it reported (or the configured
  default); a spend limit or a model at capacity keeps out that candidate; a provider outage
  keeps the model out on every account of the lineage, except for a session it is already
  serving; an overflowing context or any other error changes nothing for anybody.
\<close>
theorem failed_candidate_sits_out:
  fixes te sh i f now wall t ops pr m
  assumes "\<not> rf_auth_required f"
  defines "t' \<equiv> snd (apply_failure te sh i f now wall t)"
  defines "pool \<equiv> fst (eligible_views_core sh pr m (tracker_run ops t'))"
    and "delay \<equiv> \<lambda>r. unwrap_or r (sh_cordon_default_secs sh) * NANOS"
  shows "(\<forall>r. rf_class f = RateLimited r False \<longrightarrow> pr_now pr < now + delay r \<longrightarrow> (\<forall>(n, op) \<in> set ops. n < now + delay r) \<longrightarrow>
            (\<forall>v \<in> set pool. cid_agent (cv_id v) \<noteq> cid_agent i)) \<and>
         (\<forall>r. rf_class f = RateLimited r True \<longrightarrow> pr_wall pr < wall + delay r \<longrightarrow> i \<notin> cv_id ` set pool) \<and>
         (rf_class f = ModelAtCapacity \<longrightarrow> fo_on_model_capacity (sh_failover sh) \<longrightarrow>
            pr_wall pr < wall + fo_capacity_cordon_secs (sh_failover sh) * NANOS \<longrightarrow> i \<notin> cv_id ` set pool) \<and>
         (rf_class f = Outage \<longrightarrow> \<not> is_provider_terms_gate_text (te_lowercase te (rf_text f)) \<longrightarrow>
            (\<exists>msg. truncate_str 160 (rf_text f) = Some msg \<and> \<not> is_local_adapter_failure (te_lowercase te msg)) \<longrightarrow>
            0 < fo_outage_cordon_secs (sh_failover sh) \<longrightarrow> pr_wall pr < wall + fo_outage_cordon_secs (sh_failover sh) * NANOS \<longrightarrow>
            (\<forall>v \<in> set pool. cid_model (cv_id v) = cid_model i \<longrightarrow>
               lineage_of (sh_agents sh) (cid_agent (cv_id v)) = lineage_of (sh_agents sh) (cid_agent i) \<longrightarrow>
               pr_serving pr = Some (cv_id v))) \<and>
         (rf_class f = ContextOverflow \<or> rf_class f = OtherFailure \<longrightarrow> t' = t)"
proof (intro conjI allI impI ballI)
  fix r v assume k: "rf_class f = RateLimited r False" and n: "pr_now pr < now + delay r" "\<forall>(n, op) \<in> set ops. n < now + delay r"
    and v: "v \<in> set pool"
  obtain reason where "t' = snd (cordon_at (cid_agent i) (Some (delay r)) reason now t)"
    using k assms(1) unfolding t'_def apply_failure_def delay_def by (simp add: Let_def)
  then obtain u r' where u: "tr_cordons t' (cid_agent i) = Some (u, r')" "now + delay r \<le> u"
    using cordon_at_until by blast
  show "cid_agent (cv_id v) \<noteq> cid_agent i"
    by (rule agent_cordon_holds [OF u(1) _ _ v [unfolded pool_def]]) (use n u(2) in fastforce)+
next
  fix r assume "rf_class f = RateLimited r True" and w: "pr_wall pr < wall + delay r"
  then obtain c where c: "tr_candidate_cordons t' i = Some c" "wall + delay r \<le> uc_resets_at c"
    using cordon_candidate_until assms(1) unfolding t'_def apply_failure_def delay_def by (simp add: Let_def) blast
  then show "i \<notin> cv_id ` set pool"
    using candidate_cordon_holds [OF c(1) less_le_trans [OF w c(2)]] unfolding pool_def by blast
next
  assume "rf_class f = ModelAtCapacity" "fo_on_model_capacity (sh_failover sh)"
    and w: "pr_wall pr < wall + fo_capacity_cordon_secs (sh_failover sh) * NANOS"
  then obtain c where c: "tr_candidate_cordons t' i = Some c" "wall + fo_capacity_cordon_secs (sh_failover sh) * NANOS \<le> uc_resets_at c"
    using cordon_candidate_until assms(1) unfolding t'_def apply_failure_def by (simp add: Let_def) blast
  then show "i \<notin> cv_id ` set pool"
    using candidate_cordon_holds [OF c(1) less_le_trans [OF w c(2)]] unfolding pool_def by blast
next
  fix v assume o: "rf_class f = Outage" "\<not> is_provider_terms_gate_text (te_lowercase te (rf_text f))"
      "\<exists>msg. truncate_str 160 (rf_text f) = Some msg \<and> \<not> is_local_adapter_failure (te_lowercase te msg)"
    and pos: "0 < fo_outage_cordon_secs (sh_failover sh)"
    and w: "pr_wall pr < wall + fo_outage_cordon_secs (sh_failover sh) * NANOS" and v: "v \<in> set pool"
    and same: "cid_model (cv_id v) = cid_model i" "lineage_of (sh_agents sh) (cid_agent (cv_id v)) = lineage_of (sh_agents sh) (cid_agent i)"
  obtain reason s where "t' = cordon_model_outage (lineage_of (sh_agents sh) (cid_agent i)) (cid_model i) reason
      (wall + fo_outage_cordon_secs (sh_failover sh) * NANOS) s"
    using o pos assms(1) unfolding t'_def apply_failure_def by (auto simp: Let_def model_outage_cordon_def)
  then obtain c where c: "tr_model_outages t' (lineage_of (sh_agents sh) (cid_agent i), cid_model i) = Some c"
      "wall + fo_outage_cordon_secs (sh_failover sh) * NANOS \<le> uc_resets_at c"
    using cordon_model_until by blast
  show "pr_serving pr = Some (cv_id v)"
    by (rule model_outage_holds [OF _ _ v [unfolded pool_def]]) (use c w same in auto)
next
  assume "rf_class f = ContextOverflow \<or> rf_class f = OtherFailure"
  then show "t' = t" using assms(1) unfolding t'_def apply_failure_def by auto
qed

lemma latest_None: "latest xs = None \<longleftrightarrow> set xs \<subseteq> {None}"
  by (induction xs) (auto split: option.splits)

lemma latest_upper: "latest xs = Some u \<Longrightarrow> Some x \<in> set xs \<Longrightarrow> x \<le> u"
  by (induction xs arbitrary: u) (auto simp: latest_None split: option.splits)

lemma latest_mem: "latest xs = Some u \<Longrightarrow> Some u \<in> set xs"
  by (induction xs arbitrary: u) (auto simp: max_def split: option.splits if_splits)

lemma model_outage_iff:
  "model_outage l m w t = Some c \<longleftrightarrow> tr_model_outages t (l, m) = Some c \<and> w < uc_resets_at c"
  by (simp add: model_outage_def opt_filter_Some_iff)

lemma cordon_active_iff:
  "fst (cordon_active_at a now t) = Some (d, r) \<longleftrightarrow> (\<exists>u. tr_cordons t a = Some (u, r) \<and> now < u \<and> d = u - now)"
  by (auto simp: cordon_active_at_def split: option.splits)

lemma usage_cordon_Some:
  assumes "usage_cordon_at i w t = Some c"
  shows "w < uc_resets_at c \<and> (tr_usage_cordons t i = Some c \<or> tr_candidate_cordons t i = Some c)"
  using usage_cordon_governs [of i w t] assms by blast

lemma usage_cordon_hard:
  assumes "tr_usage_cordons t i = Some c \<or> tr_candidate_cordons t i = Some c" "w < uc_resets_at c" "\<not> uc_soft c"
  shows "\<exists>d. usage_cordon_at i w t = Some d \<and> \<not> uc_soft d \<and> uc_resets_at c \<le> uc_resets_at d"
proof -
  have "usage_cordon_at i w t \<noteq> None" using assms(1,2) unfolding usage_cordon_governs [of i w t, THEN conjunct1] by auto
  then obtain d where "usage_cordon_at i w t = Some d" by blast
  with usage_cordon_governs [of i w t] assms show ?thesis by blast
qed

text \<open>
  Waiting for a retry ends. When the router decides to keep a prompt open for a candidate, the
  time it waits for is in the future and within the configured limit, and once it has come, on both
  clocks, no account cordon, no provider outage and no hard usage cordon known at the decision
  keeps the candidate out any more.
\<close>
lemma retry_wait_ends:
  assumes "fst (retry_wait_until sh i now wall t) = Some until"
  shows "wall < until \<and> until \<le> wall + fo_max_wait_secs (sh_failover sh) * NANOS \<and>
    (\<forall>now' wall'. until \<le> wall' \<longrightarrow> now + (until - wall) \<le> now' \<longrightarrow>
       fst (cordon_active_at (cid_agent i) now' t) = None \<and>
       model_outage (lineage_of (sh_agents sh) (cid_agent i)) (cid_model i) wall' t = None \<and>
       (\<forall>c. usage_cordon_at i wall' t = Some c \<longrightarrow> uc_soft c))"
proof -
  let ?l = "lineage_of (sh_agents sh) (cid_agent i)"
  define ends where "ends = [map_option uc_resets_at (model_outage ?l (cid_model i) wall t),
      map_option uc_resets_at (opt_filter (\<lambda>c. \<not> uc_soft c) (usage_cordon_at i wall t)),
      map_option (\<lambda>(remaining, _). wall + remaining) (fst (cordon_active_at (cid_agent i) now t))]"
  have l: "latest ends = Some until" and w: "until - wall \<le> fo_max_wait_secs (sh_failover sh) * NANOS"
    using assms by (auto simp: retry_wait_until_def ends_def split_beta Let_def split: if_splits bind_splits)
  have fut: "wall < until"
    using latest_mem [OF l] usage_cordon_Some [of i wall t] by (auto simp: ends_def eq_commute [of "Some until"] model_outage_iff cordon_active_iff opt_filter_Some_iff)
  have up: "x \<le> until" if "Some x \<in> set ends" for x using latest_upper [OF l that] .
  have a: "fst (cordon_active_at (cid_agent i) now' t) = None" if n: "now + (until - wall) \<le> now'" for now'
  proof (rule ccontr)
    assume "fst (cordon_active_at (cid_agent i) now' t) \<noteq> None"
    then obtain u r where u: "tr_cordons t (cid_agent i) = Some (u, r)" "now' < u" by (auto simp: cordon_active_iff)
    have "fst (cordon_active_at (cid_agent i) now t) = Some (u - now, r)" using u n by (simp add: cordon_active_iff)
    then have "wall + (u - now) \<le> until" by (intro up) (simp add: ends_def)
    then show False using u(2) n by linarith
  qed
  have o: "model_outage ?l (cid_model i) wall' t = None" if n: "until \<le> wall'" for wall'
  proof (rule ccontr)
    assume "model_outage ?l (cid_model i) wall' t \<noteq> None"
    then obtain c where c: "tr_model_outages t (?l, cid_model i) = Some c" "wall' < uc_resets_at c" by (auto simp: model_outage_iff)
    then have "model_outage ?l (cid_model i) wall t = Some c" using n fut by (simp add: model_outage_iff)
    then show False using up [of "uc_resets_at c"] c(2) n by (simp add: ends_def)
  qed
  have u: "uc_soft c" if n: "until \<le> wall'" "usage_cordon_at i wall' t = Some c" for wall' c
  proof (rule ccontr)
    assume h: "\<not> uc_soft c"
    note c = usage_cordon_Some [OF n(2)]
    then have "wall < uc_resets_at c" using n(1) fut by simp
    then obtain d where "usage_cordon_at i wall t = Some d" "\<not> uc_soft d" "uc_resets_at c \<le> uc_resets_at d"
      using usage_cordon_hard c h by blast
    then have "uc_resets_at c \<le> until" using up [of "uc_resets_at d"] by (simp add: ends_def)
    then show False using c n(1) by simp
  qed
  show ?thesis using fut w a o u by auto
qed

section \<open>A sample router\<close>

definition sample_agent :: agent_config where
  "sample_agent = \<lparr>ac_name = ''claude@a'', ac_command = ''claude-agent-acp'', ac_models = [], ac_preference = 0,
     ac_usage_source = Some AnthropicOauth, ac_reserve = \<lparr>res_weekly = 0, res_session = 0\<rparr>, ac_account_priority = Some 1,
     ac_account_disabled = False, ac_lineage = Some ''anthropic''\<rparr>"

definition sample_runtime :: candidate_runtime where
  "sample_runtime = \<lparr>cr_id = sample_seat_id, cr_cost_rank = 1, cr_config_index = 0, cr_process_key = ''p'',
     cr_status = Routeable, cr_auto_eligible = True\<rparr>"

definition sample_shared :: shared_state where
  "sample_shared = \<lparr>sh_agents = [sample_agent], sh_pinned_versions = Map.empty, sh_candidates = [sample_runtime],
     sh_targets = [''p'' \<mapsto> \<lparr>tg_connected = True, tg_caps = Some caps_default, tg_dead = False\<rparr>], sh_logging_in = [],
     sh_auth_unavailable = Map.empty, sh_scores = \<lparr>tbl_entries = [], tbl_pinned = []\<rparr>,
     sh_preference = \<lparr>ap_enabled = True, ap_headroom_scale_dollars = 200, ap_overage_budget_weight = 1 / 5\<rparr>,
     sh_failover = \<lparr>fo_on_model_capacity = True, fo_capacity_cordon_secs = 60, fo_outage_cordon_secs = 300, fo_max_wait_secs = 1800\<rparr>,
     sh_cordon_default_secs = 600\<rparr>"

definition sample_request_at :: "instant \<Rightarrow> pool_request" where
  "sample_request_at now = pool_request_default caps_default CodingGeneral now now"

definition fresh_tracker :: tracker where
  "fresh_tracker = tracker_new \<lparr>hc_window_secs = 18000, hc_quarantine_failures = 3, hc_quarantine_cooloff_secs = 600,
     hc_cordon_default_secs = 600\<rparr> Map.empty"

lemmas sample_router_defs = sample_agent_def sample_runtime_def sample_shared_def sample_request_at_def pool_request_default_def
  fresh_tracker_def tracker_new_def caps_default_def sample_seat_id_def

lemma sample_passes: "passes sample_shared (sample_request_at now) fresh_tracker sample_runtime"
  by (simp add: passes_def static_gates_def tracker_open_def is_excluded_def routing_disabled_def auth_rejection_def find_agent_def
      satisfied_by_def is_quarantined_at_def cordon_active_at_def usage_cordon_at_def model_outage_def seat_exhausted_at_def
      availability_at_def sample_router_defs)

theorem eligible_pool_exact_witness:
  "fst (eligible_views_core sample_shared (sample_request_at 5) (\<lambda>_. True) fresh_tracker) \<noteq> []"
proof
  assume e: "fst (eligible_views_core sample_shared (sample_request_at 5) (\<lambda>_. True) fresh_tracker) = []"
  have "availability_at i w fresh_tracker = None" for i w
    by (simp add: availability_at_def fresh_tracker_def tracker_new_def)
  moreover have "distinct (map ac_name (sh_agents sample_shared))"
    "sample_runtime \<in> set (routeable_candidates_inner sample_shared (pr_explicit_pick (sample_request_at 5)))"
    by (simp_all add: routeable_candidates_inner_def sample_router_defs)
  ultimately show False
    using eligible_pool_exact [of sample_shared "sample_request_at 5" "\<lambda>_. True" fresh_tracker] sample_passes [of 5] e by simp
qed

lemma not_image: "\<forall>v \<in> S. f (g v) \<noteq> f i \<Longrightarrow> i \<notin> g ` S"
  by blast

definition sample_limit :: router_failure where
  "sample_limit = \<lparr>rf_auth_required = False, rf_text = ''usage limit reached'', rf_class = RateLimited (Some 60) False\<rparr>"

theorem failed_candidate_sits_out_witness:
  "sample_seat_id \<notin> cv_id ` set (fst (eligible_views_core sample_shared (sample_request_at 5) (\<lambda>_. True)
     (tracker_run [(7, ReadHeadroom ''claude@a'')]
        (snd (apply_failure sample_text_env sample_shared sample_seat_id sample_limit 1 1 fresh_tracker)))))"
proof -
  have f: "\<not> rf_auth_required sample_limit" "rf_class sample_limit = RateLimited (Some 60) False" by (simp_all add: sample_limit_def)
  have n: "pr_now (sample_request_at 5) < 1 + unwrap_or (Some 60) (sh_cordon_default_secs sample_shared) * NANOS"
    "\<forall>(n, op) \<in> set [(7, ReadHeadroom ''claude@a'')]. n < 1 + unwrap_or (Some 60) (sh_cordon_default_secs sample_shared) * NANOS"
    by (simp_all add: sample_router_defs NANOS_def)
  note sits_out = failed_candidate_sits_out [OF f(1), THEN conjunct1, THEN spec, THEN mp, OF f(2), THEN mp, OF n(1), THEN mp, OF n(2)]
  show ?thesis by (rule not_image [where f = cid_agent and g = cv_id], rule sits_out)
qed

definition cordoned_tracker :: tracker where
  "cordoned_tracker = fresh_tracker\<lparr>tr_cordons := [''claude@a'' \<mapsto> (60 * NANOS + 1, ''limit'')]\<rparr>"

section \<open>Limits of the pool\<close>

text \<open>
  A client hint that calls a window active below its cap removes the account it describes: the
  seat counts as on overage and its own free plan as the included capacity to spend first.
\<close>

lemma hinted_seat_unroutable:
  "fst (eligible_views_core sample_shared (sample_request_at 5) (\<lambda>_. True)
     (set_hinted_availability ''claude@a'' (hint_agent_availability ue active_hint [(sample_seat_id, ''Opus'')]) 100 fresh_tracker)) = []"
proof -
  define t where "t = set_hinted_availability ''claude@a'' (hint_agent_availability ue active_hint [(sample_seat_id, ''Opus'')]) 100 fresh_tracker"
  obtain a where a: "hint_agent_availability ue active_hint [(sample_seat_id, ''Opus'')] sample_seat_id = Some a"
      "sa_on_overage a" "sa_plan_headroom a = 28 / 100"
    using hint_overage_with_free_plan by blast
  have av: "availability_at sample_seat_id 5 t = Some a"
    using a(1) by (simp add: availability_at_def t_def set_hinted_availability_def overage_denied_def sample_router_defs)
  let ?vs = "fst (pool_views sample_shared (sample_request_at 5) [sample_runtime] t)"
  have p: "map cv_id ?vs = map cr_id (filter (passes sample_shared (sample_request_at 5) t) [sample_runtime])"
    "list_all (seat_view (sample_request_at 5) t) ?vs"
    using pool_views_exact by blast+
  have "prioritize [sample_agent] None ?vs = []"
  proof (cases ?vs)
    case (Cons v vs)
    then have v: "vs = []" "cv_id v = sample_seat_id" "seat_view (sample_request_at 5) t v"
      using p by (auto simp: sample_runtime_def split: if_splits)
    then have "cv_on_overage v" "cv_plan_headroom v = Some (28 / 100)"
      using av a by (simp_all add: seat_view_def sample_request_at_def pool_request_default_def clamp_def)
    then show ?thesis using Cons v hinted_seat_dropped [of v "28 / 100" "[sample_agent]"]
      by (simp add: find_agent_def sample_agent_def sample_seat_id_def)
  qed (simp add: prioritize_def keep_first_def keep_included_def)
  then have "map cv_id (fst (eligible_views_core sample_shared (sample_request_at 5) (\<lambda>_. True) t)) = []"
    unfolding eligible_ids by (simp add: routeable_candidates_inner_def sample_shared_def sample_request_at_def
        pool_request_default_def sample_runtime_def)
  then show ?thesis by (simp add: t_def)
qed

text \<open>An error text whose 160th byte is inside a character makes applying the failure panic.\<close>

lemma truncate_panics: "truncate_str 160 (replicate 159 (CHR ''a'') @ [CHR 0xC3, CHR 0xA9]) = None"
  by (simp add: truncate_str_def nth_append)

end
