(* ===== verification/Session_Routing.thy ===== *)
theory Session_Routing
  imports Routing_Pool
begin

text \<open>
  The routing decision of a session (\<open>session.rs\<close>): which override a prompt keeps, the pool it
  may choose from, the ranked fallback chain (\<open>plan_route\<close>), skill routes, the substitute for a
  model at capacity, and the escape off a cordoned pin with the return from it. A session is
  an argument, so the reply for an unknown session id is left out; message texts that only
  list what excluded each candidate are not modelled.
\<close>

section \<open>Sessions\<close>

datatype override_source = UserPick | SkillOverride string

datatype handoff_style = FullHandoff | TerseHandoff

record switch_request =
  sw_target :: candidate_id
  sw_reason :: string
  sw_handoff :: handoff_style
  sw_user_pick :: bool

datatype route_selection = BestQuality | FirstMatch

record skill_route =
  sr_pattern :: string
  sr_candidates :: "string list"
  sr_selection :: route_selection

datatype escalation_path = Ladder | Leap

record escalation_triggers =
  et_path :: escalation_path
  et_before_side_effects :: bool
  et_after_reads :: nat
  et_after_tool_calls :: nat
  et_after_tool_failures :: nat
  et_on_max_tokens :: bool
  et_on_refusal :: bool
  et_max_escalations :: nat

record session_config =
  sg_routers :: routers_config
  sg_triggers :: escalation_triggers
  sg_auto_upgrade :: bool
  sg_confidence_threshold :: real
  sg_after_quiet_turns :: nat
  sg_skill_routing :: "skill_route list"
  sg_forbid_native_subagents :: bool

record router_session =
  rs_strategy :: strategy_kind
  rs_override :: "candidate_id option"
  rs_override_source :: "override_source option"
  rs_effort_request :: "effort_level option"
  rs_version_request :: "string option"
  rs_preferred :: "candidate_id option"
  rs_excluded :: "string list"
  rs_coordinator :: bool
  rs_planner_phase :: "planner_phase option"
  rs_planner_explicit_phase :: "planner_phase option"
  rs_planner_difficulty :: "planner_difficulty option"
  rs_task_class :: "task_class option"
  rs_task_complexity :: real
  rs_preclass_profile :: "(task_class \<times> real) option"
  rs_pin :: "candidate_id option"
  rs_pin_user_pick :: bool
  rs_pinned_quality :: real
  rs_struggle :: real
  rs_elevation :: "string option"
  rs_elevation_skill :: "string option"
  rs_quiet_turns :: nat
  rs_escalations_done :: nat
  rs_pending_switch :: "switch_request option"
  rs_escalation_requested :: "switch_request option"
  rs_usage_recovery_target :: "candidate_id option"
  rs_capturing_summary :: bool
  rs_turn_reads :: nat
  rs_turn_side_effect :: bool
  rs_turn_tool_calls :: nat
  rs_turn_tool_failures :: nat
  rs_turn_counted_tools :: "string list"
  rs_turn_failed_tools :: "string list"
  rs_delegation_directive_active :: bool
  rs_turn_native_subagent_warned :: bool
  rs_native_subagents :: nat

definition session_class :: "router_session \<Rightarrow> task_class" where
  "session_class s = unwrap_or (rs_task_class s) CodingGeneral"

definition in_planning_pool :: "session_config \<Rightarrow> candidate_id \<Rightarrow> bool" where
  "in_planning_pool cfg target \<longleftrightarrow>
     list_ex (\<lambda>p. glob_match p (candidate_display target)) (plc_planning_candidates (rc_planner (sg_routers cfg)))"

definition coordinator_blocks :: "session_config \<Rightarrow> router_session \<Rightarrow> candidate_id \<Rightarrow> bool" where
  "coordinator_blocks cfg s target \<longleftrightarrow> rs_coordinator s \<and> \<not> in_planning_pool cfg target"

definition refuse_coordinator_switch :: "session_config \<Rightarrow> router_session \<Rightarrow> switch_request \<Rightarrow> bool" where
  "refuse_coordinator_switch cfg s sw \<longleftrightarrow> \<not> (sw_user_pick sw \<or> \<not> coordinator_blocks cfg s (sw_target sw))"

definition version_for :: "shared_state \<Rightarrow> router_session \<Rightarrow> candidate_id \<Rightarrow> model_version option" where
  "version_for sh s cid = resolve_version (sh_agents sh) (sh_pinned_versions sh) cid (rs_version_request s)"

definition scores_for :: "shared_state \<Rightarrow> router_session \<Rightarrow> candidate_id \<Rightarrow> resolved_scores" where
  "scores_for sh s cid =
     (case version_for sh s cid of
        Some v \<Rightarrow> lookup_exact (sh_scores sh) \<lparr>cid_agent = cid_agent cid, cid_model = mv_api_model v\<rparr>
      | None \<Rightarrow> lookup_exact (sh_scores sh) cid)"

definition prefer_larger_context :: "shared_state \<Rightarrow> router_session \<Rightarrow> candidate_view list \<Rightarrow> nat \<Rightarrow> candidate_view list" where
  "prefer_larger_context sh s pool least =
     (let roomier = filter (\<lambda>v. is_some_and (rsc_context_window (scores_for sh s (cv_id v))) (\<lambda>window. least < window)) pool
      in if roomier = [] then pool else roomier)"

section \<open>The routing decision\<close>

datatype plan_error =
    NoPlanningCandidate
  | EffortUnsupported effort_level
  | AuthenticateFirst
  | AllCordoned
  | UsageLimitsReached
  | CapabilitiesUnsupported
  | PlanBudgetsSpent
  | NoneRouteable
  | StaticAuthRequired candidate_id string
  | RankFailed route_error

record route_plan =
  rp_ranked :: "ranked_candidate list"
  rp_strategy :: strategy_kind
  rp_picked :: "candidate_id option"
  rp_cordon_redirect :: "(candidate_id \<times> string \<times> string option) option"

text \<open>What a routing decision is asked: the profile, the capabilities, whom to leave out, and when.\<close>

record route_request =
  rq_class :: task_class
  rq_complexity :: real
  rq_required :: prompt_caps
  rq_exclude :: "candidate_id list"
  rq_larger_than :: "nat option"
  rq_now :: instant
  rq_wall :: instant

definition user_pick :: "router_session \<Rightarrow> bool" where
  "user_pick s \<longleftrightarrow> rs_override_source s = Some UserPick"

text \<open>An override that has no quota left is dropped and disclosed.\<close>

definition unavailable_reason :: "candidate_id \<Rightarrow> instant \<Rightarrow> tracker \<Rightarrow> (string \<times> string option) option" where
  "unavailable_reason cid wall t =
     (case usage_cordon_at cid wall t of
        Some c \<Rightarrow> Some (uc_reason c, Some (uc_rfc3339 c))
      | None \<Rightarrow> if seat_exhausted_at cid wall t then Some (''account plan exhausted with no usable overage'', None) else None)"

definition available_override ::
  "router_session \<Rightarrow> candidate_id list \<Rightarrow> instant \<Rightarrow> tracker \<Rightarrow> candidate_id option \<times> (candidate_id \<times> string \<times> string option) option" where
  "available_override s exclude wall t =
     (case opt_filter (\<lambda>x. x \<notin> set exclude) (rs_override s) of
        None \<Rightarrow> (None, None)
      | Some cand \<Rightarrow>
          (case unavailable_reason cand wall t of
             Some (reason, resets) \<Rightarrow> (None, Some (cand, reason, resets))
           | None \<Rightarrow> (Some cand, None)))"

definition kept_override :: "session_config \<Rightarrow> router_session \<Rightarrow> candidate_id option \<Rightarrow> candidate_id option" where
  "kept_override cfg s = opt_filter (\<lambda>cand. \<not> rs_coordinator s \<or> user_pick s \<or> in_planning_pool cfg cand)"

definition provider_of :: "shared_state \<Rightarrow> candidate_id \<Rightarrow> string option" where
  "provider_of sh cid = Option.bind (find_agent (sh_agents sh) (cid_agent cid)) provider"

definition offers_effort :: "resolved_scores \<Rightarrow> effort_level \<Rightarrow> bool" where
  "offers_effort scores effort \<longleftrightarrow> effort \<in> set (rsc_effort_levels scores) \<and> bt_has (rsc_effort_mapping scores) effort"

text \<open>Who may enter the pool, for the override that was kept.\<close>

definition route_admits ::
  "session_config \<Rightarrow> shared_state \<Rightarrow> router_session \<Rightarrow> candidate_id option \<Rightarrow> candidate_view \<Rightarrow> bool" where
  "route_admits cfg sh s over view \<longleftrightarrow>
     (\<not> rs_coordinator s \<or> in_planning_pool cfg (cv_id view) \<or> user_pick s \<and> over = Some (cv_id view))
     \<and> (over = None \<longrightarrow> is_none_or (rs_effort_request s) (offers_effort (scores_for sh s (cv_id view))))
     \<and> is_none_or (Option.bind (opt_filter (\<lambda>_. \<not> user_pick s) over) (provider_of sh)) (\<lambda>group.
          provider_of sh (cv_id view) \<noteq> Some group \<or> is_some_and over (\<lambda>cand. cid_model cand = cid_model (cv_id view)))"

definition any_auth_pending :: "shared_state \<Rightarrow> bool" where
  "any_auth_pending sh \<longleftrightarrow> list_ex (\<lambda>c. cr_status c = AuthPending) (sh_candidates sh)"

definition caps_empty :: "prompt_caps \<Rightarrow> bool" where
  "caps_empty caps \<longleftrightarrow> caps = caps_default"

text \<open>The reply when nobody is left; the last cases ask whether any seat is cordoned or spent.\<close>

definition empty_pool_error ::
  "session_config \<Rightarrow> shared_state \<Rightarrow> router_session \<Rightarrow> candidate_id option \<Rightarrow> route_request \<Rightarrow> tracker \<Rightarrow> plan_error" where
  "empty_pool_error cfg sh s over rq t =
     (if rs_coordinator s then NoPlanningCandidate
      else if over = None \<and> rs_effort_request s \<noteq> None then EffortUnsupported (the (rs_effort_request s))
      else if any_auth_pending sh then AuthenticateFirst
      else if \<exists>a. tr_cordons (retain_cordons (rq_now rq) t) a \<noteq> None then AllCordoned
      else if \<exists>i. usage_cordon_at i (rq_wall rq) t \<noteq> None then UsageLimitsReached
      else if \<not> caps_empty (rq_required rq) then CapabilitiesUnsupported
      else if \<exists>i. is_some_and (availability_at i (rq_wall rq) t) plan_exhausted then PlanBudgetsSpent
      else NoneRouteable)"

text \<open>An override the router itself made follows the account order.\<close>

definition ordered_override ::
  "shared_state \<Rightarrow> router_session \<Rightarrow> candidate_view list \<Rightarrow> candidate_id \<Rightarrow> candidate_id" where
  "ordered_override sh s pool cand =
     (if user_pick s \<or> list_ex (\<lambda>v. cv_id v = cand) pool then cand
      else case List.find (\<lambda>v. cid_model (cv_id v) = cid_model cand \<and> provider_of sh cand \<noteq> None
                              \<and> provider_of sh (cv_id v) = provider_of sh cand) pool of
             Some v \<Rightarrow> cv_id v
           | None \<Rightarrow> cand)"

definition static_auth_error :: "session_config \<Rightarrow> shared_state \<Rightarrow> strategy_kind \<Rightarrow> candidate_id option \<Rightarrow> plan_error option" where
  "static_auth_error cfg sh kind over =
     (let st = rc_static (sg_routers cfg) in
      if kind = StaticStrategy \<and> \<not> sc_allow_fallback st
      then Option.bind (opt_or over (Option.bind (sc_candidate st) candidate_parse))
             (\<lambda>cand. map_option (StaticAuthRequired cand) (auth_rejection sh (cid_agent cand)))
      else None)"

definition prefer_front :: "candidate_id option \<Rightarrow> ranked_candidate list \<Rightarrow> ranked_candidate list" where
  "prefer_front preferred ranked =
     (case preferred of
        None \<Rightarrow> ranked
      | Some pref \<Rightarrow>
          (case dropWhile (\<lambda>r. rk_candidate r \<noteq> pref) ranked of
             [] \<Rightarrow> ranked
           | rc # rest \<Rightarrow> rc\<lparr>rk_note := Some (Preferred (rk_note rc))\<rparr> # takeWhile (\<lambda>r. rk_candidate r \<noteq> pref) ranked @ rest))"

definition session_context :: "router_session \<Rightarrow> route_request \<Rightarrow> candidate_id option \<Rightarrow> route_context" where
  "session_context s rq over =
     \<lparr>rt_class = rq_class rq, rt_complexity = rq_complexity rq, rt_explicit_candidate = over,
      rt_planner_phase = (if rs_coordinator s then Some Planning else rs_planner_phase s),
      rt_planner_difficulty = rs_planner_difficulty s,
      rt_planner_explicit = (\<not> rs_coordinator s \<and> rs_planner_phase s \<noteq> None \<and> rs_planner_explicit_phase s = rs_planner_phase s)\<rparr>"

definition plan_pool ::
  "session_config \<Rightarrow> shared_state \<Rightarrow> router_session \<Rightarrow> candidate_id option \<Rightarrow> route_request \<Rightarrow> tracker \<Rightarrow> candidate_view list \<times> tracker" where
  "plan_pool cfg sh s over rq t =
     (let (pool, t1) = eligible_views_core sh
            \<lparr>pr_required = rq_required rq, pr_class = rq_class rq, pr_admit = opt_filter (\<lambda>_. user_pick s) over,
             pr_explicit_pick = False, pr_excluded = rs_excluded s @ map candidate_display (rq_exclude rq),
             pr_serving = None, pr_now = rq_now rq, pr_wall = rq_wall rq\<rparr>
            (route_admits cfg sh s over) (retain_cordons (rq_now rq) t)
      in (case rq_larger_than rq of None \<Rightarrow> pool | Some least \<Rightarrow> prefer_larger_context sh s pool least, t1))"

definition plan_route ::
  "session_config \<Rightarrow> shared_state \<Rightarrow> router_session \<Rightarrow> route_request \<Rightarrow> tracker \<Rightarrow> (plan_error, route_plan) result \<times> tracker" where
  "plan_route cfg sh s rq t =
     (let (available, redirect) = available_override s (rq_exclude rq) (rq_wall rq) t;
          over = kept_override cfg s available;
          (pool, t1) = plan_pool cfg sh s over rq t
      in if pool = [] then (Inl (empty_pool_error cfg sh s over rq t1), t1)
         else let over1 = map_option (ordered_override sh s pool) over;
                  kind = (if over1 \<noteq> None then StaticStrategy else rs_strategy s)
              in (case static_auth_error cfg sh kind over1 of
                    Some e \<Rightarrow> Inl e
                  | None \<Rightarrow>
                      (case make_strategy (sg_routers cfg) kind (session_context s rq over1) pool of
                         Inl e \<Rightarrow> Inl (RankFailed e)
                       | Inr ranked \<Rightarrow> Inr
                           \<lparr>rp_ranked = prefer_front (rs_preferred s) ranked, rp_strategy = kind,
                            rp_picked = opt_filter (\<lambda>_. user_pick s) over, rp_cordon_redirect = redirect\<rparr>), t1))"

section \<open>Skill routes and substitutes\<close>

text \<open>\<open>Iterator::max_by\<close>: the last of the elements with the greatest key.\<close>

fun last_max :: "('a \<Rightarrow> 'k::linorder) \<Rightarrow> 'a list \<Rightarrow> 'a option" where
  "last_max k [] = None"
| "last_max k (x # xs) = (case last_max k xs of None \<Rightarrow> Some x | Some y \<Rightarrow> if k y < k x then Some x else Some y)"

fun position :: "('a \<Rightarrow> bool) \<Rightarrow> 'a list \<Rightarrow> nat option" where
  "position p [] = None"
| "position p (x # xs) = (if p x then Some 0 else map_option Suc (position p xs))"

definition pattern_views ::
  "shared_state \<Rightarrow> string list \<Rightarrow> task_class \<Rightarrow> string list \<Rightarrow> instant \<Rightarrow> instant \<Rightarrow> tracker \<Rightarrow> candidate_view list \<times> tracker" where
  "pattern_views sh patterns cls excluded now wall t =
     eligible_views_core sh ((pool_request_default caps_default cls now wall)\<lparr>pr_excluded := excluded\<rparr>)
       (\<lambda>v. list_ex (\<lambda>p. candidate_matches p (cv_id v)) patterns) t"

definition first_eligible_candidate ::
  "shared_state \<Rightarrow> string list \<Rightarrow> task_class \<Rightarrow> string list \<Rightarrow> instant \<Rightarrow> instant \<Rightarrow> tracker \<Rightarrow> candidate_id option \<times> tracker" where
  "first_eligible_candidate sh patterns cls excluded now wall t =
     (let (views, t1) = pattern_views sh patterns cls excluded now wall t;
          placed = List.map_filter (\<lambda>v. map_option (\<lambda>i. (v, i)) (position (\<lambda>p. candidate_matches p (cv_id v)) patterns)) views
      in (map_option (\<lambda>(v, _). cv_id v)
            (last_max (\<lambda>(v, i). (cv_quality v + cv_preference v, - int i, - int (cv_config_index v))) placed), t1))"

definition first_matching_pattern_candidate ::
  "shared_state \<Rightarrow> string list \<Rightarrow> task_class \<Rightarrow> string list \<Rightarrow> instant \<Rightarrow> instant \<Rightarrow> tracker \<Rightarrow> candidate_id option \<times> tracker" where
  "first_matching_pattern_candidate sh patterns cls excluded now wall t =
     (let (views, t1) = pattern_views sh patterns cls excluded now wall t;
          best = (\<lambda>p. last_max (\<lambda>v. (cv_quality v + cv_preference v, - int (cv_config_index v)))
                        (filter (\<lambda>v. candidate_matches p (cv_id v)) views))
      in (Option.bind (List.find (\<lambda>p. best p \<noteq> None) patterns) (\<lambda>p. map_option cv_id (best p)), t1))"

definition select_route_target ::
  "shared_state \<Rightarrow> skill_route \<Rightarrow> task_class \<Rightarrow> string list \<Rightarrow> instant \<Rightarrow> instant \<Rightarrow> tracker \<Rightarrow> candidate_id option \<times> tracker" where
  "select_route_target sh route =
     (case sr_selection route of
        BestQuality \<Rightarrow> first_eligible_candidate sh (sr_candidates route)
      | FirstMatch \<Rightarrow> first_matching_pattern_candidate sh (sr_candidates route))"

definition elevation_route :: "session_config \<Rightarrow> router_session \<Rightarrow> skill_route option" where
  "elevation_route cfg s = Option.bind (rs_elevation_skill s) (\<lambda>pattern. List.find (\<lambda>r. sr_pattern r = pattern) (sg_skill_routing cfg))"

definition human_pick :: "router_session \<Rightarrow> candidate_id \<Rightarrow> bool" where
  "human_pick s cand = (case rs_override s of Some pick \<Rightarrow> pick = cand \<and> user_pick s | None \<Rightarrow> rs_pin_user_pick s)"

definition adopt_capacity_substitute ::
  "session_config \<Rightarrow> shared_state \<Rightarrow> candidate_id \<Rightarrow> instant \<Rightarrow> instant \<Rightarrow> router_session \<Rightarrow> tracker \<Rightarrow> router_session \<times> tracker" where
  "adopt_capacity_substitute cfg sh failed now wall s t =
     (if \<not> human_pick s failed then (s, t)
      else let target = quality (scores_for sh s failed) (session_class s);
               (views, t1) = eligible_views_core sh
                 ((pool_request_default caps_default (session_class s) now wall)
                    \<lparr>pr_excluded := rs_excluded s @ [candidate_display failed]\<rparr>)
                 (\<lambda>v. \<not> rs_coordinator s \<or> in_planning_pool cfg (cv_id v)) t
           in (case first_min (\<lambda>v. (\<bar>cv_quality v - target\<bar>, - cv_quality v, cv_config_index v)) views of
                 None \<Rightarrow> s
               | Some v \<Rightarrow> s\<lparr>rs_override := Some (cv_id v), rs_override_source := Some UserPick\<rparr>, t1))"

section \<open>Leaving a cordoned pin and returning\<close>

definition EM_DASH :: string where "EM_DASH = [CHR 0x20, CHR 0xE2, CHR 0x80, CHR 0x94, CHR 0x20]"

definition cordon_escape_target ::
  "session_config \<Rightarrow> shared_state \<Rightarrow> router_session \<Rightarrow> candidate_id \<Rightarrow> instant \<Rightarrow> instant \<Rightarrow> tracker \<Rightarrow> candidate_id option \<times> tracker" where
  "cordon_escape_target cfg sh s current now wall t =
     (case elevation_route cfg s of
        Some route \<Rightarrow> select_route_target sh route (session_class s) (rs_excluded s @ [candidate_display current]) now wall t
      | None \<Rightarrow>
          (let (cls, complexity) = unwrap_or (rs_preclass_profile s) (session_class s, rs_task_complexity s);
               (plan, t1) = plan_route cfg sh s
                 \<lparr>rq_class = cls, rq_complexity = complexity, rq_required = caps_default, rq_exclude = [current],
                  rq_larger_than = None, rq_now = now, rq_wall = wall\<rparr> t
           in (case plan of
                 Inl _ \<Rightarrow> None
               | Inr p \<Rightarrow> List.find (\<lambda>c. c \<noteq> current) (map rk_candidate (rp_ranked p)), t1)))"

definition switch_pending :: "router_session \<Rightarrow> bool" where
  "switch_pending s \<longleftrightarrow> rs_pending_switch s \<noteq> None \<or> rs_escalation_requested s \<noteq> None"

definition cordon_switch :: "usage_cordon \<Rightarrow> candidate_id \<Rightarrow> candidate_id \<Rightarrow> switch_request" where
  "cordon_switch c cur target =
     \<lparr>sw_target = target,
      sw_reason = ''usage cordon: '' @ uc_reason c @ '' (resets '' @ uc_rfc3339 c @ '')'' @ EM_DASH @ ''switching off '' @ candidate_display cur,
      sw_handoff = FullHandoff, sw_user_pick = False\<rparr>"

definition queue_usage_cordon_escape ::
  "session_config \<Rightarrow> shared_state \<Rightarrow> instant \<Rightarrow> instant \<Rightarrow> router_session \<Rightarrow> tracker \<Rightarrow> router_session \<times> tracker" where
  "queue_usage_cordon_escape cfg sh now wall s t =
     (case opt_filter (\<lambda>_. \<not> switch_pending s) (rs_pin s) of
        None \<Rightarrow> (s, t)
      | Some cur \<Rightarrow>
          (case usage_cordon_at cur wall t of
             None \<Rightarrow> (s, t)
           | Some c \<Rightarrow>
               (let (target, t1) = cordon_escape_target cfg sh s cur now wall t in
                (case target of
                   None \<Rightarrow> s
                 | Some target \<Rightarrow>
                     s\<lparr>rs_pending_switch := Some (cordon_switch c cur target), rs_usage_recovery_target := Some cur, rs_quiet_turns := 0\<rparr>, t1))))"

definition queue_usage_cordon_recovery ::
  "shared_state \<Rightarrow> instant \<Rightarrow> instant \<Rightarrow> router_session \<Rightarrow> tracker \<Rightarrow> router_session \<times> tracker" where
  "queue_usage_cordon_recovery sh now wall s t =
     (case opt_filter (\<lambda>_. \<not> switch_pending s) (rs_usage_recovery_target s) of
        None \<Rightarrow> (s, t)
      | Some target \<Rightarrow>
          if rs_pin s = Some target \<or> rs_pin_user_pick s then (s\<lparr>rs_usage_recovery_target := None\<rparr>, t)
          else let (view, t1) = candidate_view_revivable sh target caps_default (session_class s) now wall t in
               (if view = None then s
                else s\<lparr>rs_pending_switch := Some
                         \<lparr>sw_target = target,
                          sw_reason = ''usage cordon cleared'' @ EM_DASH @ ''returning to '' @ candidate_display target @ '' after temporary fallback'',
                          sw_handoff = FullHandoff, sw_user_pick = False\<rparr>\<rparr>, t1))"

section \<open>What a decision may choose\<close>

lemma glob_match_refl: "glob_match p p"
  unfolding glob_match_iff
proof (induction p)
  case (Cons c p)
  show ?case
  proof (cases "c = CHR ''*''")
    case True
    then show ?thesis using glob_spec.star [OF Cons.IH, of "[c]"] by simp
  next
    case False
    then show ?thesis using Cons.IH by (intro glob_spec.letter) (simp_all add: byte_eq_def)
  qed
qed (rule glob_spec.nil)

lemma is_excluded_append: "is_excluded i (ps @ qs) \<longleftrightarrow> is_excluded i ps \<or> is_excluded i qs"
  by (simp add: is_excluded_def)

lemma is_excluded_self: "i \<in> set xs \<Longrightarrow> is_excluded i (map candidate_display xs)"
  using glob_match_refl by (auto simp: is_excluded_def candidate_matches_def list_ex_iff)

lemma retain_cordons_view [simp]: "gate_view now (retain_cordons now t) = gate_view now t"
  by (auto simp: gate_view_def retain_cordons_def is_quarantined_at_def cordon_active_at_def fun_eq_iff opt_filter_Some_iff
      split: option.splits)

text \<open>A filter that looks at ids only holds of every view of the pool.\<close>

lemma eligible_matches:
  assumes "v \<in> set (fst (eligible_views_core sh pr m t))" and "\<And>u w. cv_id u = cv_id w \<Longrightarrow> m u = m w"
  shows "m v"
proof -
  have "cv_id v \<in> set (map cv_id (fst (eligible_views_core sh pr m t)))" using assms(1) by auto
  then obtain u where "m u" "cv_id u = cv_id v" unfolding eligible_ids using set_prioritize by fastforce
  then show ?thesis using assms(2) by blast
qed

lemma prefer_larger_subset: "set (prefer_larger_context sh s pool least) \<subseteq> set pool"
  by (auto simp: prefer_larger_context_def Let_def)

lemma prefer_larger_empty [simp]: "prefer_larger_context sh s pool least = [] \<longleftrightarrow> pool = []"
  by (auto simp: prefer_larger_context_def Let_def)

abbreviation plan_request :: "router_session \<Rightarrow> candidate_id option \<Rightarrow> route_request \<Rightarrow> pool_request" where
  "plan_request s over rq \<equiv>
     \<lparr>pr_required = rq_required rq, pr_class = rq_class rq, pr_admit = opt_filter (\<lambda>_. user_pick s) over,
      pr_explicit_pick = False, pr_excluded = rs_excluded s @ map candidate_display (rq_exclude rq),
      pr_serving = None, pr_now = rq_now rq, pr_wall = rq_wall rq\<rparr>"

lemma plan_pool_member:
  assumes "v \<in> set (fst (plan_pool cfg sh s over rq t))"
  shows "route_admits cfg sh s over v \<and>
    (\<exists>c \<in> set (sh_candidates sh). cr_id c = cv_id v \<and> cr_status c = Routeable \<and> passes sh (plan_request s over rq) t c)"
proof -
  let ?e = "eligible_views_core sh (plan_request s over rq) (route_admits cfg sh s over) (retain_cordons (rq_now rq) t)"
  have v: "v \<in> set (fst ?e)"
    using assms prefer_larger_subset by (fastforce simp: plan_pool_def split_beta Let_def split: option.splits)
  have "passes sh (plan_request s over rq) (retain_cordons (rq_now rq) t) = passes sh (plan_request s over rq) t"
    using tracker_open_view [of "plan_request s over rq" "retain_cordons (rq_now rq) t" t] by (auto simp: passes_def fun_eq_iff)
  moreover have "route_admits cfg sh s over v"
    by (rule eligible_matches [OF v]) (simp add: route_admits_def)
  ultimately show ?thesis using eligible_passes [OF v] by (auto simp: routeable_candidates_inner_def)
qed

lemma prefer_front_set: "rk_candidate ` set (prefer_front pref rs) = rk_candidate ` set rs"
proof (cases pref)
  case (Some p)
  show ?thesis
  proof (cases "dropWhile (\<lambda>r. rk_candidate r \<noteq> p) rs")
    case (Cons r rest)
    have "set rs = set (takeWhile (\<lambda>r. rk_candidate r \<noteq> p) rs) \<union> set (r # rest)"
      by (metis Cons set_append takeWhile_dropWhile_id)
    then show ?thesis using Some Cons by (auto simp: prefer_front_def)
  next
    case Nil
    show ?thesis unfolding prefer_front_def Some option.case Nil list.case ..
  qed
qed (simp add: prefer_front_def)

lemma prefer_front_first:
  assumes "p \<in> rk_candidate ` set rs"
  shows "rk_candidate (hd (prefer_front (Some p) rs)) = p"
proof (cases "dropWhile (\<lambda>r. rk_candidate r \<noteq> p) rs")
  case Nil
  then show ?thesis using assms by (auto simp: dropWhile_eq_Nil_conv)
next
  case (Cons r rest)
  then show ?thesis using hd_dropWhile [of "\<lambda>r. rk_candidate r \<noteq> p" rs] by (simp add: prefer_front_def)
qed

lemma plan_route_Inr:
  assumes "plan_route cfg sh s rq t = (Inr p, t')"
  obtains over ranked where "over = kept_override cfg s (fst (available_override s (rq_exclude rq) (rq_wall rq) t))"
    and "fst (plan_pool cfg sh s over rq t) \<noteq> []"
    and "make_strategy (sg_routers cfg) (rp_strategy p)
      (session_context s rq (map_option (ordered_override sh s (fst (plan_pool cfg sh s over rq t))) over))
      (fst (plan_pool cfg sh s over rq t)) = Inr ranked"
    and "rp_strategy p = (if over \<noteq> None then StaticStrategy else rs_strategy s)"
    and "rp_ranked p = prefer_front (rs_preferred s) ranked" and "rp_picked p = opt_filter (\<lambda>_. user_pick s) over"
  using assms unfolding plan_route_def Let_def
  by (auto simp: split_beta split: if_splits option.splits sum.splits)

lemma kept_override_Some:
  assumes "kept_override cfg s (fst (available_override s exclude wall t)) = Some i"
  shows "rs_override s = Some i" "i \<notin> set exclude" "usage_cordon_at i wall t = None" "\<not> seat_exhausted_at i wall t"
    "rs_coordinator s \<Longrightarrow> user_pick s \<or> in_planning_pool cfg i"
  using assms by (auto simp: kept_override_def available_override_def unavailable_reason_def opt_filter_Some_iff
      split: option.splits if_splits)

lemma static_choice:
  assumes "make_strategy routers StaticStrategy ctx pool = Inr ranked" and "rt_explicit_candidate ctx = Some i"
  shows "i \<in> rk_candidate ` set ranked \<Longrightarrow> rk_candidate (hd ranked) = i"
    and "\<not> sc_allow_fallback (rc_static routers) \<Longrightarrow> map rk_candidate ranked = [i]"
proof -
  have r: "static_rank (rc_static routers) ctx pool = Inr ranked" "static_chosen (rc_static routers) ctx = Some i"
    using assms by (simp_all add: make_strategy_def simple_strategy_def static_chosen_def)
  show "\<not> sc_allow_fallback (rc_static routers) \<Longrightarrow> map rk_candidate ranked = [i]"
    using r by (auto simp: static_rank_def Let_def find_Some_iff split: option.splits if_splits)
  show "rk_candidate (hd ranked) = i" if "i \<in> rk_candidate ` set ranked"
  proof (cases "List.find (\<lambda>c. cv_id c = i) pool")
    case None
    then have "rk_candidate ` set ranked \<subseteq> cv_id ` {v \<in> set pool. cv_id v \<noteq> i}"
      using r by (auto simp: static_rank_def Let_def split: if_splits)
    then show ?thesis using that by auto
  next
    case (Some v)
    then have "cv_id v = i" by (auto simp: find_Some_iff)
    with Some show ?thesis using r by (auto simp: static_rank_def Let_def split: if_splits)
  qed
qed

lemma prefer_front_single: "map rk_candidate rs = [i] \<Longrightarrow> map rk_candidate (prefer_front pref rs) = [i]"
  by (cases pref) (auto simp: prefer_front_def)

definition may_serve :: "session_config \<Rightarrow> shared_state \<Rightarrow> router_session \<Rightarrow> route_request \<Rightarrow> route_plan \<Rightarrow> tracker \<Rightarrow> candidate_runtime \<Rightarrow> bool" where
  "may_serve cfg sh s rq p t c \<longleftrightarrow>
     (let i = cr_id c in cr_status c = Routeable \<and>
       \<not> is_excluded i (rs_excluded s) \<and> i \<notin> set (rq_exclude rq) \<and> (cr_auto_eligible c \<or> rp_picked p = Some i) \<and>
       \<not> fst (is_quarantined_at i (rq_now rq) t) \<and> fst (cordon_active_at (cid_agent i) (rq_now rq) t) = None \<and>
       usage_cordon_at i (rq_wall rq) t = None \<and> \<not> seat_exhausted_at i (rq_wall rq) t \<and>
       model_outage (lineage_of (sh_agents sh) (cid_agent i)) (cid_model i) (rq_wall rq) t = None \<and>
       (rs_coordinator s \<longrightarrow> in_planning_pool cfg i \<or> rp_picked p = Some i) \<and>
       (rs_override s = None \<longrightarrow> (\<forall>e. rs_effort_request s = Some e \<longrightarrow> offers_effort (scores_for sh s i) e)))"

lemma ranked_may_serve:
  assumes "plan_route cfg sh s rq t = (Inr p, t')" and "i \<in> rk_candidate ` set (rp_ranked p)"
  shows "\<exists>c \<in> set (sh_candidates sh). cr_id c = i \<and> may_serve cfg sh s rq p t c"
proof -
  obtain over ranked where over: "over = kept_override cfg s (fst (available_override s (rq_exclude rq) (rq_wall rq) t))"
    and rank: "make_strategy (sg_routers cfg) (rp_strategy p)
      (session_context s rq (map_option (ordered_override sh s (fst (plan_pool cfg sh s over rq t))) over))
      (fst (plan_pool cfg sh s over rq t)) = Inr ranked"
    and ranked: "rp_ranked p = prefer_front (rs_preferred s) ranked" and picked: "rp_picked p = opt_filter (\<lambda>_. user_pick s) over"
    using plan_route_Inr [OF assms(1)] by metis
  have "i \<in> cv_id ` set (fst (plan_pool cfg sh s over rq t))"
    using assms(2) chosen_strategy.ranked_subset [OF rank] unfolding ranked prefer_front_set by blast
  then obtain v where v: "v \<in> set (fst (plan_pool cfg sh s over rq t))" "cv_id v = i" by auto
  have none: "rs_override s = None \<Longrightarrow> over = None"
    using kept_override_Some(1) [of cfg s "rq_exclude rq" "rq_wall rq" t, folded over] by (cases over) auto
  from plan_pool_member [OF v(1)] obtain c where c: "c \<in> set (sh_candidates sh)" "cr_id c = cv_id v" "cr_status c = Routeable"
    "passes sh (plan_request s over rq) t c" and admits: "route_admits cfg sh s over v" by blast
  have "i \<notin> set (rq_exclude rq)"
    using c(2,4) v(2) is_excluded_self by (fastforce simp: passes_def static_gates_def is_excluded_append)
  with c admits none v(2) show ?thesis
    unfolding Let_def may_serve_def
    by (intro bexI [of _ c])
      (auto simp: passes_def static_gates_def tracker_open_def is_excluded_append route_admits_def picked opt_filter_Some_iff is_none_or_iff)
qed

text \<open>
  C11. A routing decision chooses only what the session may use. Every candidate of the fallback
  chain of an accepted plan is configured and routeable, matches no exclusion of the session
  and is not one of the candidates the caller ruled out (the failed or cordoned pin), has
  neither cordon, quarantine nor outage and quota left; it is picked by a human or eligible for
  automatic routing, and for a coordinator it is a planning candidate or the human's pick;
  when the session has no override it offers the requested effort (a concrete pick, of a human or
  a client, is not held to it). The chain is never empty. A human's pick
  makes routing static, leads the chain when it is routeable and no softer preference is set, and
  is the whole chain unless fallback is allowed; a preferred candidate of the chain leads it.
\<close>
theorem planned_route_sound:
  assumes "plan_route cfg sh s rq t = (Inr p, t')"
  shows "rp_ranked p \<noteq> [] \<and>
    (\<forall>r \<in> set (rp_ranked p). \<exists>c \<in> set (sh_candidates sh). let i = rk_candidate r in cr_id c = i \<and> cr_status c = Routeable \<and>
       \<not> is_excluded i (rs_excluded s) \<and> i \<notin> set (rq_exclude rq) \<and> (cr_auto_eligible c \<or> rp_picked p = Some i) \<and>
       \<not> fst (is_quarantined_at i (rq_now rq) t) \<and> fst (cordon_active_at (cid_agent i) (rq_now rq) t) = None \<and>
       usage_cordon_at i (rq_wall rq) t = None \<and> \<not> seat_exhausted_at i (rq_wall rq) t \<and>
       model_outage (lineage_of (sh_agents sh) (cid_agent i)) (cid_model i) (rq_wall rq) t = None \<and>
       (rs_coordinator s \<longrightarrow> in_planning_pool cfg i \<or> rp_picked p = Some i) \<and>
       (rs_override s = None \<longrightarrow> (\<forall>e. rs_effort_request s = Some e \<longrightarrow> offers_effort (scores_for sh s i) e))) \<and>
    (\<forall>i. rp_picked p = Some i \<longrightarrow> rs_override s = Some i \<and> rs_override_source s = Some UserPick \<and> rp_strategy p = StaticStrategy \<and>
       (rs_preferred s = None \<and> i \<in> rk_candidate ` set (rp_ranked p) \<longrightarrow> rk_candidate (hd (rp_ranked p)) = i) \<and>
       (\<not> sc_allow_fallback (rc_static (sg_routers cfg)) \<longrightarrow> map rk_candidate (rp_ranked p) = [i])) \<and>
    (\<forall>i. rs_preferred s = Some i \<and> i \<in> rk_candidate ` set (rp_ranked p) \<longrightarrow> rk_candidate (hd (rp_ranked p)) = i)"
proof -
  obtain over ranked where over: "over = kept_override cfg s (fst (available_override s (rq_exclude rq) (rq_wall rq) t))"
    and rank: "make_strategy (sg_routers cfg) (rp_strategy p)
      (session_context s rq (map_option (ordered_override sh s (fst (plan_pool cfg sh s over rq t))) over))
      (fst (plan_pool cfg sh s over rq t)) = Inr ranked"
    and kind: "rp_strategy p = (if over \<noteq> None then StaticStrategy else rs_strategy s)"
    and ranked: "rp_ranked p = prefer_front (rs_preferred s) ranked" and picked: "rp_picked p = opt_filter (\<lambda>_. user_pick s) over"
    using plan_route_Inr [OF assms] by metis
  note kept = kept_override_Some [of cfg s "rq_exclude rq" "rq_wall rq" t, folded over]
  have ids: "rk_candidate ` set (rp_ranked p) = rk_candidate ` set ranked" by (simp add: ranked prefer_front_set)
  have nonempty: "rp_ranked p \<noteq> []" using chosen_strategy.ranked_nonempty [OF rank] ids by auto
  have pick: "rs_override s = Some i \<and> rs_override_source s = Some UserPick \<and> rp_strategy p = StaticStrategy \<and>
       (rs_preferred s = None \<and> i \<in> rk_candidate ` set (rp_ranked p) \<longrightarrow> rk_candidate (hd (rp_ranked p)) = i) \<and>
       (\<not> sc_allow_fallback (rc_static (sg_routers cfg)) \<longrightarrow> map rk_candidate (rp_ranked p) = [i])"
    if "rp_picked p = Some i" for i
  proof -
    have o: "over = Some i" "user_pick s" using that by (auto simp: picked opt_filter_Some_iff)
    then have k: "rp_strategy p = StaticStrategy" by (simp add: kind)
    note st = static_choice [OF rank [unfolded k], of i]
    have x: "rt_explicit_candidate (session_context s rq (map_option (ordered_override sh s (fst (plan_pool cfg sh s over rq t))) over)) = Some i"
      using o by (simp add: session_context_def ordered_override_def)
    show ?thesis
      using kept(1) [OF o(1)] o(2) k st(1) [OF x] prefer_front_single [OF st(2) [OF x]] ids
      by (auto simp: user_pick_def ranked prefer_front_def split: option.splits)
  qed
  have member: "\<exists>c \<in> set (sh_candidates sh). cr_id c = rk_candidate r \<and> may_serve cfg sh s rq p t c" if "r \<in> set (rp_ranked p)" for r
    using ranked_may_serve [OF assms] that by blast
  have preferred: "rk_candidate (hd (rp_ranked p)) = i" if "rs_preferred s = Some i" "i \<in> rk_candidate ` set (rp_ranked p)" for i
    using that ids prefer_front_first [of i ranked] by (simp add: ranked)
  show ?thesis
  proof (intro conjI ballI allI impI)
    fix r assume "r \<in> set (rp_ranked p)"
    then obtain c where "c \<in> set (sh_candidates sh)" "cr_id c = rk_candidate r" "may_serve cfg sh s rq p t c" using member by blast
    then show "\<exists>c \<in> set (sh_candidates sh). let i = rk_candidate r in cr_id c = i \<and> cr_status c = Routeable \<and>
       \<not> is_excluded i (rs_excluded s) \<and> i \<notin> set (rq_exclude rq) \<and> (cr_auto_eligible c \<or> rp_picked p = Some i) \<and>
       \<not> fst (is_quarantined_at i (rq_now rq) t) \<and> fst (cordon_active_at (cid_agent i) (rq_now rq) t) = None \<and>
       usage_cordon_at i (rq_wall rq) t = None \<and> \<not> seat_exhausted_at i (rq_wall rq) t \<and>
       model_outage (lineage_of (sh_agents sh) (cid_agent i)) (cid_model i) (rq_wall rq) t = None \<and>
       (rs_coordinator s \<longrightarrow> in_planning_pool cfg i \<or> rp_picked p = Some i) \<and>
       (rs_override s = None \<longrightarrow> (\<forall>e. rs_effort_request s = Some e \<longrightarrow> offers_effort (scores_for sh s i) e))"
      by (intro bexI [of _ c]) (simp_all add: may_serve_def Let_def)
  qed (use nonempty pick preferred in blast)+
qed

section \<open>The escape off a cordoned pin\<close>

lemma last_max_None [simp]: "last_max k xs = None \<longleftrightarrow> xs = []"
  by (cases xs) (auto split: option.splits)

lemma last_max_mem: "last_max k xs = Some x \<Longrightarrow> x \<in> set xs"
  by (induction xs arbitrary: x) (auto split: option.splits if_splits)

lemma last_max_greatest: "last_max k xs = Some x \<Longrightarrow> y \<in> set xs \<Longrightarrow> k y \<le> k x"
proof (induction xs arbitrary: x)
  case (Cons a xs)
  then show ?case by (cases "last_max k xs") (auto split: if_splits dest: order.trans)
qed simp

lemma first_min_None [simp]: "first_min k xs = None \<longleftrightarrow> xs = []"
  by (cases xs) (auto split: option.splits)

lemma first_min_mem: "first_min k xs = Some x \<Longrightarrow> x \<in> set xs"
  by (induction xs arbitrary: x) (auto split: option.splits if_splits)

lemma first_min_least: "first_min k xs = Some x \<Longrightarrow> y \<in> set xs \<Longrightarrow> k x \<le> k y"
proof (induction xs arbitrary: x)
  case (Cons a xs)
  then show ?case by (cases "first_min k xs") (auto split: if_splits dest: order.trans)
qed simp

text \<open>A skill route lands only on an eligible candidate of its list that is not excluded.\<close>

lemma pattern_views_member:
  assumes "v \<in> set (fst (pattern_views sh patterns cls excluded now wall t))"
  shows "\<not> is_excluded (cv_id v) excluded \<and> (\<exists>p \<in> set patterns. candidate_matches p (cv_id v)) \<and>
    usage_cordon_at (cv_id v) wall t = None"
proof -
  note v = assms [unfolded pattern_views_def]
  have "list_ex (\<lambda>p. candidate_matches p (cv_id v)) patterns" by (rule eligible_matches [OF v]) simp
  moreover have "usage_cordon_at (cv_id v) wall t = None"
    using eligible_open [OF v] by (simp add: tracker_open_def pool_request_default_def)
  moreover have "\<not> is_excluded (cv_id v) excluded"
    using eligible_passes [OF v] by (auto simp: passes_def static_gates_def)
  ultimately show ?thesis by (auto simp: list_ex_iff)
qed

lemma route_target_member:
  assumes "select_route_target sh route cls excluded now wall t = (Some i, t')"
  shows "\<not> is_excluded i excluded \<and> (\<exists>p \<in> set (sr_candidates route). candidate_matches p i) \<and> usage_cordon_at i wall t = None"
proof -
  have "\<exists>v \<in> set (fst (pattern_views sh (sr_candidates route) cls excluded now wall t)). cv_id v = i"
  proof (cases "sr_selection route")
    case BestQuality
    then show ?thesis
      using assms by (auto simp: select_route_target_def first_eligible_candidate_def split_beta Let_def set_map_filter dest!: last_max_mem)
  next
    case FirstMatch
    then show ?thesis
      using assms by (auto simp: select_route_target_def first_matching_pattern_candidate_def split_beta Let_def
          bind_eq_Some_conv dest!: last_max_mem)
  qed
  then show ?thesis using pattern_views_member [of _ sh "sr_candidates route" cls excluded now wall t] by auto
qed

lemma escape_queued:
  assumes "queue_usage_cordon_escape cfg sh now wall s t = (s', t')" and "rs_pending_switch s' \<noteq> rs_pending_switch s"
  obtains pin c i where "rs_pin s = Some pin" "\<not> switch_pending s" "usage_cordon_at pin wall t = Some c"
    "fst (cordon_escape_target cfg sh s pin now wall t) = Some i"
    "s' = s\<lparr>rs_pending_switch := Some (cordon_switch c pin i), rs_usage_recovery_target := Some pin, rs_quiet_turns := 0\<rparr>"
proof -
  obtain pin where pin: "opt_filter (\<lambda>_. \<not> switch_pending s) (rs_pin s) = Some pin"
    using assms by (cases "opt_filter (\<lambda>_. \<not> switch_pending s) (rs_pin s)") (auto simp: queue_usage_cordon_escape_def)
  obtain c where c: "usage_cordon_at pin wall t = Some c"
    using assms pin by (cases "usage_cordon_at pin wall t") (auto simp: queue_usage_cordon_escape_def)
  obtain i where i: "fst (cordon_escape_target cfg sh s pin now wall t) = Some i"
    using assms pin c by (cases "fst (cordon_escape_target cfg sh s pin now wall t)") (auto simp: queue_usage_cordon_escape_def split_beta Let_def)
  show ?thesis
    using assms(1) pin c i by (intro that [of pin c i]) (auto simp: queue_usage_cordon_escape_def split_beta Let_def opt_filter_Some_iff)
qed

lemma escape_target_sound:
  assumes "fst (cordon_escape_target cfg sh s pin now wall t) = Some i"
  shows "i \<noteq> pin \<and> usage_cordon_at i wall t = None \<and> \<not> is_excluded i (rs_excluded s) \<and>
    (\<forall>route. elevation_route cfg s = Some route \<longrightarrow> (\<exists>p \<in> set (sr_candidates route). candidate_matches p i)) \<and>
    (elevation_route cfg s = None \<and> rs_coordinator s \<longrightarrow> in_planning_pool cfg i \<or> rs_override s = Some i \<and> user_pick s)"
proof (cases "elevation_route cfg s")
  case (Some route)
  have "is_excluded pin (rs_excluded s @ [candidate_display pin])"
    using is_excluded_self [of pin "[pin]"] by (simp add: is_excluded_append)
  moreover obtain t' where "select_route_target sh route (session_class s) (rs_excluded s @ [candidate_display pin]) now wall t = (Some i, t')"
    using assms Some by (auto simp: cordon_escape_target_def prod_eq_iff)
  ultimately show ?thesis using route_target_member Some by (fastforce simp: is_excluded_append)
next
  case None
  define rq where "rq = \<lparr>rq_class = fst (unwrap_or (rs_preclass_profile s) (session_class s, rs_task_complexity s)),
    rq_complexity = snd (unwrap_or (rs_preclass_profile s) (session_class s, rs_task_complexity s)), rq_required = caps_default,
    rq_exclude = [pin], rq_larger_than = None, rq_now = now, rq_wall = wall\<rparr>"
  obtain p t' where plan: "plan_route cfg sh s rq t = (Inr p, t')" and i: "i \<in> rk_candidate ` set (rp_ranked p)"
    using assms None by (cases "plan_route cfg sh s rq t")
      (auto simp: cordon_escape_target_def rq_def split_beta Let_def dest!: find_Some_mem split: sum.splits)
  obtain c where c: "cr_id c = i" "may_serve cfg sh s rq p t c" using ranked_may_serve [OF plan i] by blast
  have "rp_picked p = Some i \<Longrightarrow> rs_override s = Some i \<and> user_pick s"
    using plan_route_Inr [OF plan] kept_override_Some(1) [of cfg s "rq_exclude rq" "rq_wall rq" t i]
    by (metis opt_filter_Some_iff)
  with c None show ?thesis by (auto simp: may_serve_def rq_def Let_def)
qed

lemma recovery_queued:
  assumes "queue_usage_cordon_recovery sh now wall s t = (s', t')" and "rs_pending_switch s = None" and "rs_pending_switch s' \<noteq> None"
  shows "map_option sw_target (rs_pending_switch s') = rs_usage_recovery_target s \<and> \<not> rs_pin_user_pick s' \<and>
    (\<exists>pin. rs_usage_recovery_target s = Some pin \<and> usage_cordon_at pin wall t = None \<and> rs_pin s \<noteq> Some pin)"
proof -
  obtain pin where pin: "opt_filter (\<lambda>_. \<not> switch_pending s) (rs_usage_recovery_target s) = Some pin"
    using assms by (cases "opt_filter (\<lambda>_. \<not> switch_pending s) (rs_usage_recovery_target s)") (auto simp: queue_usage_cordon_recovery_def)
  have ready: "\<not> (rs_pin s = Some pin \<or> rs_pin_user_pick s)"
    using assms pin by (auto simp: queue_usage_cordon_recovery_def)
  obtain v where v: "fst (candidate_view_revivable sh pin caps_default (session_class s) now wall t) = Some v"
    using assms pin ready by (cases "fst (candidate_view_revivable sh pin caps_default (session_class s) now wall t)")
      (auto simp: queue_usage_cordon_recovery_def split_beta Let_def)
  let ?e = "eligible_views_core sh ((pool_request_default caps_default (session_class s) now wall)
    \<lparr>pr_admit := Some pin, pr_explicit_pick := True\<rparr>) (\<lambda>_. True) t"
  have "List.find (\<lambda>u. cv_id u = pin) (fst ?e) = Some v"
    using v by (simp add: candidate_view_revivable_def find_view_def split_beta)
  then have m: "v \<in> set (fst ?e)" "cv_id v = pin" by (auto simp: find_Some_iff)
  have "usage_cordon_at pin wall t = None"
    using eligible_open [OF m(1)] m(2) by (simp add: tracker_open_def pool_request_default_def)
  with assms pin ready v show ?thesis
    by (auto simp: queue_usage_cordon_recovery_def split_beta Let_def opt_filter_Some_iff)
qed

text \<open>
  Leaving a capped account never lands on a capped one, and never breaks the contract of the
  session. When the pin is cordoned and nothing else is pending, the switch queued before
  the turn goes to another candidate that has no usage cordon and matches no exclusion; under a
  skill it matches one of the skill's candidates, otherwise a coordinator gets a planning
  candidate or the human's pick. The pin is remembered, and a later check returns exactly to it,
  only once its cordon is gone and while no human has picked the model in use.
\<close>
lemma cordon_escape_sound:
  assumes "queue_usage_cordon_escape cfg sh now wall s t = (s', t')" and "rs_pending_switch s' \<noteq> rs_pending_switch s"
  shows "\<exists>pin c sw. rs_pin s = Some pin \<and> usage_cordon_at pin wall t = Some c \<and> \<not> switch_pending s \<and>
    rs_pending_switch s' = Some sw \<and> rs_usage_recovery_target s' = Some pin \<and> \<not> sw_user_pick sw \<and>
    sw_target sw \<noteq> pin \<and> usage_cordon_at (sw_target sw) wall t = None \<and> \<not> is_excluded (sw_target sw) (rs_excluded s) \<and>
    (\<forall>route. elevation_route cfg s = Some route \<longrightarrow> (\<exists>p \<in> set (sr_candidates route). candidate_matches p (sw_target sw))) \<and>
    (elevation_route cfg s = None \<and> rs_coordinator s \<longrightarrow>
       in_planning_pool cfg (sw_target sw) \<or> rs_override s = Some (sw_target sw) \<and> user_pick s) \<and>
    (\<forall>now' wall' s1 t1 s2 t2. rs_usage_recovery_target s1 = Some pin \<and> rs_pending_switch s1 = None \<and>
       queue_usage_cordon_recovery sh now' wall' s1 t1 = (s2, t2) \<and> rs_pending_switch s2 \<noteq> None \<longrightarrow>
       map_option sw_target (rs_pending_switch s2) = Some pin \<and> usage_cordon_at pin wall' t1 = None \<and> \<not> rs_pin_user_pick s2)"
proof -
  obtain pin c i where pin: "rs_pin s = Some pin" "\<not> switch_pending s" "usage_cordon_at pin wall t = Some c"
    and i: "fst (cordon_escape_target cfg sh s pin now wall t) = Some i"
    and s': "s' = s\<lparr>rs_pending_switch := Some (cordon_switch c pin i), rs_usage_recovery_target := Some pin, rs_quiet_turns := 0\<rparr>"
    using escape_queued [OF assms] by blast
  have home: "\<forall>now' wall' s1 t1 s2 t2. rs_usage_recovery_target s1 = Some pin \<and> rs_pending_switch s1 = None \<and>
       queue_usage_cordon_recovery sh now' wall' s1 t1 = (s2, t2) \<and> rs_pending_switch s2 \<noteq> None \<longrightarrow>
       map_option sw_target (rs_pending_switch s2) = Some pin \<and> usage_cordon_at pin wall' t1 = None \<and> \<not> rs_pin_user_pick s2"
  proof (intro allI impI, elim conjE)
    fix now' wall' s1 t1 s2 t2
    assume "rs_usage_recovery_target s1 = Some pin" "rs_pending_switch s1 = None"
      "queue_usage_cordon_recovery sh now' wall' s1 t1 = (s2, t2)" "rs_pending_switch s2 \<noteq> None"
    then show "map_option sw_target (rs_pending_switch s2) = Some pin \<and> usage_cordon_at pin wall' t1 = None \<and> \<not> rs_pin_user_pick s2"
      using recovery_queued by fastforce
  qed
  have sw: "sw_target (cordon_switch c pin i) = i" "\<not> sw_user_pick (cordon_switch c pin i)" by (simp_all add: cordon_switch_def)
  show ?thesis
    unfolding s'
    by (intro exI [of _ pin] exI [of _ c] exI [of _ "cordon_switch c pin i"] conjI; (rule home)?)
      (use pin escape_target_sound [OF i] in \<open>simp_all add: sw\<close>)
qed

section \<open>A sample session\<close>

definition sample_triggers :: escalation_triggers where
  "sample_triggers = \<lparr>et_path = Ladder, et_before_side_effects = True, et_after_reads = 6, et_after_tool_calls = 30,
     et_after_tool_failures = 3, et_on_max_tokens = True, et_on_refusal = True, et_max_escalations = 3\<rparr>"

definition sample_session_config :: session_config where
  "sample_session_config = \<lparr>sg_routers = sample_routers, sg_triggers = sample_triggers, sg_auto_upgrade = True,
     sg_confidence_threshold = 55 / 100, sg_after_quiet_turns = 2, sg_skill_routing = [], sg_forbid_native_subagents = True\<rparr>"

definition sample_session :: router_session where
  "sample_session = \<lparr>rs_strategy = AutoStrategy, rs_override = Some sample_seat_id, rs_override_source = Some UserPick,
     rs_effort_request = None, rs_version_request = None, rs_preferred = None, rs_excluded = [], rs_coordinator = False,
     rs_planner_phase = None, rs_planner_explicit_phase = None, rs_planner_difficulty = None, rs_task_class = Some CodingGeneral,
     rs_task_complexity = 1 / 2, rs_preclass_profile = None, rs_pin = None, rs_pin_user_pick = False, rs_pinned_quality = 1,
     rs_struggle = 0, rs_elevation = None, rs_elevation_skill = None, rs_quiet_turns = 0, rs_escalations_done = 0,
     rs_pending_switch = None, rs_escalation_requested = None, rs_usage_recovery_target = None, rs_capturing_summary = False,
     rs_turn_reads = 0, rs_turn_side_effect = False, rs_turn_tool_calls = 0, rs_turn_tool_failures = 0, rs_turn_counted_tools = [],
     rs_turn_failed_tools = [], rs_delegation_directive_active = False, rs_turn_native_subagent_warned = False, rs_native_subagents = 0\<rparr>"

definition sample_route_request :: route_request where
  "sample_route_request = \<lparr>rq_class = CodingGeneral, rq_complexity = 1 / 2, rq_required = caps_default, rq_exclude = [],
     rq_larger_than = None, rq_now = 5, rq_wall = 5\<rparr>"

lemmas sample_session_defs = sample_session_def sample_session_config_def sample_triggers_def sample_route_request_def

text \<open>With two seats, one of them cordoned.\<close>

definition second_seat :: candidate_id where
  "second_seat = \<lparr>cid_agent = ''codex@b'', cid_model = ''gpt''\<rparr>"

definition second_agent :: agent_config where
  "second_agent = sample_agent\<lparr>ac_name := ''codex@b'', ac_usage_source := Some CodexRollout, ac_lineage := None\<rparr>"

definition two_seats :: shared_state where
  "two_seats = sample_shared\<lparr>sh_agents := [sample_agent, second_agent],
     sh_candidates := [sample_runtime, sample_runtime\<lparr>cr_id := second_seat, cr_config_index := 1\<rparr>]\<rparr>"

text \<open>The ids of a pool whose only passing candidate is the one named.\<close>

lemma pool_ids_single:
  assumes "filter (passes sh pr t) (routeable_candidates_inner sh (pr_explicit_pick pr)) = [c]"
    and "pr_admit pr = Some (cr_id c)" and "\<And>v. cv_id v = cr_id c \<Longrightarrow> m v"
  shows "map cv_id (fst (eligible_views_core sh pr m t)) = [cr_id c]"
proof -
  obtain v where v: "fst (pool_views sh pr (routeable_candidates_inner sh (pr_explicit_pick pr)) t) = [v]" "cv_id v = cr_id c"
    using pool_views_exact [of sh pr "routeable_candidates_inner sh (pr_explicit_pick pr)" t, THEN conjunct1] unfolding assms(1)
    by (auto simp: map_eq_Cons_conv)
  show ?thesis unfolding eligible_ids v(1) using v(2) assms(2,3) by (simp add: prioritize_def keep_first_def keep_included_def)
qed

lemma sample_plan_pool:
  "map cv_id (fst (plan_pool sample_session_config sample_shared sample_session (Some sample_seat_id) sample_route_request fresh_tracker)) =
     [sample_seat_id]"
proof -
  let ?pr = "plan_request sample_session (Some sample_seat_id) sample_route_request"
  have "passes sample_shared ?pr (retain_cordons 5 fresh_tracker) sample_runtime"
    by (simp add: passes_def static_gates_def tracker_open_def is_excluded_def routing_disabled_def auth_rejection_def find_agent_def
        satisfied_by_def is_quarantined_at_def cordon_active_at_def usage_cordon_at_def model_outage_def seat_exhausted_at_def
        availability_at_def retain_cordons_def sample_router_defs sample_session_defs)
  then have "map cv_id (fst (eligible_views_core sample_shared ?pr
      (route_admits sample_session_config sample_shared sample_session (Some sample_seat_id)) (retain_cordons 5 fresh_tracker))) = [cr_id sample_runtime]"
    by (intro pool_ids_single) (simp_all add: routeable_candidates_inner_def sample_router_defs sample_session_defs route_admits_def user_pick_def)
  then show ?thesis by (simp add: plan_pool_def split_beta Let_def sample_session_defs sample_runtime_def)
qed

theorem planned_route_sound_witness:
  "\<exists>p. fst (plan_route sample_session_config sample_shared sample_session sample_route_request fresh_tracker) = Inr p \<and>
     rk_candidate (hd (rp_ranked p)) = sample_seat_id \<and> rp_picked p = Some sample_seat_id"
proof -
  obtain u where u: "fst (plan_pool sample_session_config sample_shared sample_session (Some sample_seat_id) sample_route_request fresh_tracker) = [u]"
    "cv_id u = sample_seat_id"
    using sample_plan_pool by (auto simp: map_eq_Cons_conv)
  have over: "available_override sample_session (rq_exclude sample_route_request) (rq_wall sample_route_request) fresh_tracker = (Some sample_seat_id, None)"
    by (simp add: available_override_def unavailable_reason_def usage_cordon_at_def seat_exhausted_at_def availability_at_def
        sample_session_defs fresh_tracker_def tracker_new_def)
  have pick: "user_pick sample_session" "rs_preferred sample_session = None" by (simp_all add: sample_session_defs user_pick_def)
  obtain p t' where p: "plan_route sample_session_config sample_shared sample_session sample_route_request fresh_tracker = (Inr p, t')"
    and k: "rp_picked p = Some sample_seat_id" "rk_candidate ` set (rp_ranked p) = {sample_seat_id}"
    using u pick by (simp add: plan_route_def over kept_override_def split_beta Let_def ordered_override_def static_auth_error_def
        make_strategy_def simple_strategy_def static_rank_def static_chosen_def session_context_def prefer_front_def
        sample_session_config_def sample_routers_def)
  with planned_route_sound [OF p] pick show ?thesis by auto
qed

text \<open>Two accounts, the pinned one cordoned, under a skill that allows the other.\<close>

definition ship_config :: session_config where
  "ship_config = sample_session_config\<lparr>sg_skill_routing := [\<lparr>sr_pattern = ''ship'', sr_candidates = [''*gpt''], sr_selection = FirstMatch\<rparr>]\<rparr>"

definition ship_session :: router_session where
  "ship_session = sample_session\<lparr>rs_pin := Some sample_seat_id, rs_elevation_skill := Some ''ship''\<rparr>"

definition capped_tracker :: tracker where
  "capped_tracker = fresh_tracker\<lparr>tr_candidate_cordons := [sample_seat_id \<mapsto>
     \<lparr>uc_reason = ''limit'', uc_resets_at = 100, uc_rfc3339 = ''later'', uc_soft = False\<rparr>]\<rparr>"

lemma prioritize_single:
  assumes "distinct (map ac_name agents)" and "\<not> cv_on_overage v"
  shows "prioritize agents admit [v] = [v]"
  using prioritize_nonempty [of "[v]" agents admit] assms
  by (auto simp: prioritize_def keep_first_def keep_included_def split: if_splits)

lemma ship_pattern_views:
  "map cv_id (fst (pattern_views two_seats [''*gpt''] CodingGeneral [candidate_display sample_seat_id] 5 5 capped_tracker)) = [second_seat]"
proof -
  let ?pr = "(pool_request_default caps_default CodingGeneral 5 5)\<lparr>pr_excluded := [candidate_display sample_seat_id]\<rparr>"
  let ?second = "sample_runtime\<lparr>cr_id := second_seat, cr_config_index := 1\<rparr>"
  have "passes two_seats ?pr capped_tracker ?second"
    by (simp add: passes_def static_gates_def tracker_open_def is_excluded_def candidate_matches_def routing_disabled_def auth_rejection_def
        find_agent_def satisfied_by_def is_quarantined_at_def cordon_active_at_def usage_cordon_at_def model_outage_def seat_exhausted_at_def
        availability_at_def lineage_of_def two_seats_def second_agent_def second_seat_def capped_tracker_def candidate_display_def
        eq_ignore_ascii_case_def to_ascii_lowercase_def byte_eq_def ascii_lower_def sample_router_defs)
  moreover have "\<not> passes two_seats ?pr capped_tracker sample_runtime"
    by (simp add: passes_def tracker_open_def usage_cordon_at_def capped_tracker_def sample_router_defs)
  ultimately have "filter (passes two_seats ?pr capped_tracker) (routeable_candidates_inner two_seats (pr_explicit_pick ?pr)) = [?second]"
    by (simp add: routeable_candidates_inner_def two_seats_def sample_runtime_def pool_request_default_def)
  then obtain v where v: "fst (pool_views two_seats ?pr (routeable_candidates_inner two_seats (pr_explicit_pick ?pr)) capped_tracker) = [v]"
      "cv_id v = second_seat" "seat_view ?pr capped_tracker v"
    using pool_views_exact [of two_seats ?pr "routeable_candidates_inner two_seats (pr_explicit_pick ?pr)" capped_tracker]
    by (auto simp: map_eq_Cons_conv)
  have "\<not> cv_on_overage v"
    using v(3) by (simp add: seat_view_def availability_at_def capped_tracker_def fresh_tracker_def tracker_new_def)
  moreover have "candidate_matches ''*gpt'' second_seat"
    by (simp add: candidate_matches_def second_seat_def candidate_display_def byte_eq_def)
  ultimately show ?thesis
    unfolding pattern_views_def eligible_ids v(1) using v(2)
    by (simp add: prioritize_single two_seats_def second_agent_def sample_agent_def)
qed

section \<open>A limit of preferences\<close>

text \<open>
  A soft preference displaces an explicit pick: when static routing may fall back, the chain
  for a pick holds the preferred candidate as well, and moving it to the front routes the
  session away from the model the human named.
\<close>

lemma preference_displaces_pick:
  assumes "user_pick s" and "rs_preferred s = Some pref" and "sc_allow_fallback (rc_static (sg_routers cfg))"
    and "kept_override cfg s (fst (available_override s (rq_exclude rq) (rq_wall rq) t)) = Some pick" and "pref \<noteq> pick"
    and "pref \<in> cv_id ` set (fst (plan_pool cfg sh s (Some pick) rq t))"
  shows "\<exists>p. fst (plan_route cfg sh s rq t) = Inr p \<and> rp_picked p = Some pick \<and> rk_candidate (hd (rp_ranked p)) = pref"
proof -
  let ?pool = "fst (plan_pool cfg sh s (Some pick) rq t)"
  have over: "ordered_override sh s ?pool pick = pick" using assms(1) by (simp add: ordered_override_def)
  obtain u where u: "u \<in> set ?pool" "cv_id u = pref" using assms(6) by auto
  then have ne: "?pool \<noteq> []" "filter (\<lambda>c. cv_id c \<noteq> pick) ?pool \<noteq> []" using assms(5) by (auto simp: filter_empty_conv)
  obtain ranked where r: "make_strategy (sg_routers cfg) StaticStrategy (session_context s rq (Some pick)) ?pool = Inr ranked"
    and m: "pref \<in> rk_candidate ` set ranked"
  proof -
    have "\<exists>ranked. make_strategy (sg_routers cfg) StaticStrategy (session_context s rq (Some pick)) ?pool = Inr ranked \<and>
        pref \<in> rk_candidate ` set ranked"
      using u ne(2) assms(3,5) by (force simp: make_strategy_def simple_strategy_def static_rank_def static_chosen_def session_context_def Let_def)
    then show ?thesis using that by blast
  qed
  have "fst (plan_route cfg sh s rq t) = Inr \<lparr>rp_ranked = prefer_front (Some pref) ranked, rp_strategy = StaticStrategy, rp_picked = Some pick,
      rp_cordon_redirect = snd (available_override s (rq_exclude rq) (rq_wall rq) t)\<rparr>"
    using assms(1,2,3,4) ne(1) over r by (simp add: plan_route_def split_beta Let_def static_auth_error_def)
  then show ?thesis using prefer_front_first [OF m] by simp
qed

end
