(* ===== verification/Session_Escalation.thy ===== *)
theory Session_Escalation
  imports Session_Routing
begin

text \<open>
  How a pinned session moves up and down (\<open>session.rs\<close>): what a tool call counts as, the mid-turn
  triggers of the \<open>escalation\<close> router, confidence and the automatic upgrade after a turn, the
  demotion of an elevated pin after quiet turns, and what a switch does to the session.
  Notifications to the agent and the user are not modelled.
\<close>

section \<open>What a tool call does\<close>

datatype tool_class = Investigation | SideEffect | Defer

fun replace_from :: "nat \<Rightarrow> string \<Rightarrow> string \<Rightarrow> string \<Rightarrow> string" where
  "replace_from k old new [] = []"
| "replace_from (Suc k) old new (c # cs) = replace_from k old new cs"
| "replace_from 0 old new (c # cs) =
     (if starts_with (c # cs) old then new @ replace_from (length old - 1) old new cs
      else c # replace_from 0 old new cs)"

definition replace_str :: "string \<Rightarrow> string \<Rightarrow> string \<Rightarrow> string" where
  "replace_str s old new = replace_from 0 old new s"

definition HARMLESS :: "string list" where
  "HARMLESS = [''2>/dev/null'', ''2>>/dev/null'', ''>/dev/null'', ''1>/dev/null'', ''&>/dev/null'', ''2>&1'', ''1>&2'']"

definition MUTATORS :: "string list" where
  "MUTATORS =
     [''>'', ''>>'', '' rm '', ''rm -'', ''rmdir'', '' mv '', '' cp '', ''mkdir'', ''touch '', ''sed -i'', '' tee '', ''|tee'',
      ''install'', ''chmod'', ''chown'', '' ln '', '' dd '', ''kill '', ''git commit'', ''git push'', ''git add'',
      ''git checkout'', ''git reset'', ''git merge'', ''git rebase'', ''git stash'', ''git apply'', ''git restore'',
      ''git switch'', ''git clean'', ''npm run'', ''cargo build'', ''cargo run'', ''cargo test'', ''cargo install'',
      ''cargo fix'', ''make '', ''docker '', ''curl -o'', ''wget '', ''brew install'', ''pip install'', ''apply'', ''delete'']"

definition READERS :: "string list" where
  "READERS =
     [''ls'', ''cat'', ''grep'', ''rg'', ''find'', ''head'', ''tail'', ''pwd'', ''echo'', ''which'', ''wc'', ''stat'', ''tree'',
      ''file'', ''du'', ''df'', ''env'', ''date'', ''whoami'', ''hostname'', ''ps'', ''less'', ''more'', ''sed '', ''awk '',
      ''jq '', ''sort'', ''uniq'', ''diff'', ''git status'', ''git log'', ''git diff'', ''git show'', ''git branch'',
      ''git remote'', ''git rev-parse'', ''git ls-files'', ''git blame'', ''git describe'', ''git config --get'']"

definition is_read_only_command :: "text_env \<Rightarrow> string \<Rightarrow> bool" where
  "is_read_only_command te cmd =
     (let lc = te_lowercase te (trim cmd) in
      if lc = [] then False
      else let plain = fold (\<lambda>h s. replace_str s h '' '') HARMLESS lc in
           \<not> list_ex (contains_str plain) MUTATORS
           \<and> list_ex (\<lambda>r. plain = r \<or> starts_with plain (r @ '' '')) READERS)"

definition WRITE_VERBS :: "string list" where
  "WRITE_VERBS = [''send'', ''create'', ''update'', ''write'', ''delete'', ''post'', ''add'', ''remove'', ''schedule'',
     ''apply'', ''label'', ''draft'', ''canvas'', ''set_'', ''put'']"

definition READ_VERBS :: "string list" where
  "READ_VERBS = [''search'', ''read'', ''list'', ''get'', ''view'', ''fetch'', ''find'', ''lookup'', ''query'', ''describe'']"

definition is_read_only_mcp :: "text_env \<Rightarrow> string \<Rightarrow> bool" where
  "is_read_only_mcp te name =
     (let n = te_lowercase te name in
      contains_str n ''toolsearch'' \<or> \<not> list_ex (contains_str n) WRITE_VERBS \<and> list_ex (contains_str n) READ_VERBS)"

text \<open>The name the adapter reports, else the title.\<close>

definition frame_tool_name :: "json \<Rightarrow> string" where
  "frame_tool_name update =
     unwrap_or (opt_or (Option.bind (Option.bind (json_get update ''_meta'') (\<lambda>m. json_get m ''claudeCode''))
                          (\<lambda>c. get_str c ''toolName''))
                  (get_str update ''title'')) []"

definition classify_tool :: "text_env \<Rightarrow> json \<Rightarrow> tool_class" where
  "classify_tool te update =
     (let kind = unwrap_or (get_str update ''kind'') [] in
      if kind \<in> {''read'', ''search'', ''fetch'', ''think''} then Investigation
      else if kind = ''execute''
      then (case Option.bind (json_get update ''rawInput'') (\<lambda>r. get_str r ''command'') of
              Some cmd \<Rightarrow> if is_read_only_command te cmd then Investigation else SideEffect
            | None \<Rightarrow> Defer)
      else if kind = ''other''
      then (if frame_tool_name update = [] then Defer
            else if is_read_only_mcp te (frame_tool_name update) then Investigation else SideEffect)
      else if kind = [] then Defer
      else SideEffect)"

definition is_native_subagent_tool :: "text_env \<Rightarrow> json \<Rightarrow> bool" where
  "is_native_subagent_tool te update =
     (let name = te_lowercase te (trim (frame_tool_name update)) in
      \<not> (contains_str name ''delegate_task'' \<or> contains_str name ''delegate_followup'' \<or> contains_str name ''delegate_close'')
      \<and> (name = ''task'' \<or> starts_with name ''task '' \<or> starts_with name ''task:'' \<or> name = ''dispatch_agent''
         \<or> contains_str name ''subagent'' \<or> contains_str name ''sub-agent'' \<or> contains_str name ''spawn_agent''))"

section \<open>Targets\<close>

text \<open>The candidates a session could move to: eligible, not excluded, not the pin.\<close>

definition other_views ::
  "shared_state \<Rightarrow> router_session \<Rightarrow> candidate_id \<Rightarrow> instant \<Rightarrow> instant \<Rightarrow> tracker \<Rightarrow> candidate_view list \<times> tracker" where
  "other_views sh s current now wall t =
     (let (pool, t1) = eligible_views sh caps_default (session_class s) now wall t
      in (filter (\<lambda>v. cv_id v \<noteq> current \<and> \<not> is_excluded (cv_id v) (rs_excluded s)) pool, t1))"

definition views_above :: "real \<Rightarrow> real \<Rightarrow> candidate_view list \<Rightarrow> candidate_view list" where
  "views_above current_q margin = filter (\<lambda>v. quality_utility current_q + margin < quality_utility (cv_quality v))"

definition pick_above :: "escalation_path \<Rightarrow> real \<Rightarrow> candidate_view list \<Rightarrow> real \<Rightarrow> candidate_view option" where
  "pick_above path current_q pool margin =
     (case path of
        Leap \<Rightarrow> last_max cv_quality (views_above current_q margin pool)
      | Ladder \<Rightarrow> first_min cv_quality (views_above current_q margin pool))"

definition stronger_view :: "escalation_path \<Rightarrow> real \<Rightarrow> candidate_view list \<Rightarrow> candidate_view option" where
  "stronger_view path current_q pool =
     opt_or (pick_above path current_q pool (5 / 100)) (pick_above path current_q pool F64_EPSILON)"

definition escalation_target ::
  "session_config \<Rightarrow> shared_state \<Rightarrow> router_session \<Rightarrow> instant \<Rightarrow> instant \<Rightarrow> tracker \<Rightarrow> candidate_id option \<times> tracker" where
  "escalation_target cfg sh s now wall t =
     (case rs_pin s of
        None \<Rightarrow> (None, t)
      | Some current \<Rightarrow>
          (let (pool, t1) = other_views sh s current now wall t
           in (opt_filter (\<lambda>c. \<not> coordinator_blocks cfg s c)
                 (map_option cv_id (stronger_view (et_path (sg_triggers cfg)) (rs_pinned_quality s) pool)), t1)))"

definition skill_views :: "session_config \<Rightarrow> router_session \<Rightarrow> candidate_view list \<Rightarrow> candidate_view list" where
  "skill_views cfg s pool =
     (case elevation_route cfg s of
        None \<Rightarrow> pool
      | Some route \<Rightarrow> filter (\<lambda>v. list_ex (\<lambda>p. candidate_matches p (cv_id v)) (sr_candidates route)) pool)"

definition upgrade_target ::
  "session_config \<Rightarrow> shared_state \<Rightarrow> router_session \<Rightarrow> instant \<Rightarrow> instant \<Rightarrow> tracker \<Rightarrow> candidate_id option \<times> tracker" where
  "upgrade_target cfg sh s now wall t =
     (case rs_pin s of
        None \<Rightarrow> (None, t)
      | Some current \<Rightarrow>
          (let (pool, t1) = other_views sh s current now wall t
           in (opt_filter (\<lambda>c. \<not> coordinator_blocks cfg s c)
                 (map_option cv_id (stronger_view Leap (rs_pinned_quality s) (skill_views cfg s pool))), t1)))"

definition runtime_of :: "shared_state \<Rightarrow> candidate_id \<Rightarrow> candidate_runtime option" where
  "runtime_of sh cid = List.find (\<lambda>c. cr_id c = cid) (sh_candidates sh)"

definition holds_threshold :: "session_config \<Rightarrow> router_session \<Rightarrow> candidate_view \<Rightarrow> bool" where
  "holds_threshold cfg s v \<longleftrightarrow>
     (sg_auto_upgrade cfg \<and> rs_strategy s \<noteq> Escalation \<longrightarrow>
      sg_confidence_threshold cfg \<le> quality_confidence (cv_quality v) (session_class s) (rs_task_complexity s) - rs_struggle s)"

definition demotion_target ::
  "session_config \<Rightarrow> shared_state \<Rightarrow> router_session \<Rightarrow> instant \<Rightarrow> instant \<Rightarrow> tracker \<Rightarrow> candidate_id option \<times> tracker" where
  "demotion_target cfg sh s now wall t =
     (case rs_pin s of
        None \<Rightarrow> (None, t)
      | Some current \<Rightarrow>
          (case runtime_of sh current of
             None \<Rightarrow> (None, t)
           | Some c \<Rightarrow>
               (let (pool, t1) = other_views sh s current now wall t;
                    cheaper = filter (\<lambda>v. cv_cost_rank v < cr_cost_rank c) pool
                in (opt_filter (\<lambda>c. \<not> coordinator_blocks cfg s c)
                      (map_option cv_id (last_max cv_quality (filter (holds_threshold cfg s) (skill_views cfg s cheaper)))), t1))))"

section \<open>Mid-turn triggers\<close>

definition request_escalation :: "string \<Rightarrow> candidate_id \<Rightarrow> router_session \<Rightarrow> router_session" where
  "request_escalation reason target s =
     s\<lparr>rs_escalation_requested := Some \<lparr>sw_target = target, sw_reason = reason, sw_handoff = FullHandoff, sw_user_pick = False\<rparr>\<rparr>"

definition may_escalate :: "session_config \<Rightarrow> router_session \<Rightarrow> bool" where
  "may_escalate cfg s \<longleftrightarrow>
     rs_strategy s = Escalation \<and> rs_escalation_requested s = None \<and> rs_escalations_done s < et_max_escalations (sg_triggers cfg)"

text \<open>Once a trigger is crossed the strongest allowed target is asked for, if there is one.\<close>

definition escalate_if ::
  "session_config \<Rightarrow> shared_state \<Rightarrow> bool \<Rightarrow> string \<Rightarrow> instant \<Rightarrow> instant \<Rightarrow> router_session \<Rightarrow> tracker \<Rightarrow> router_session \<times> tracker" where
  "escalate_if cfg sh cross reason now wall s t =
     (if \<not> cross then (s, t)
      else let (target, t1) = escalation_target cfg sh s now wall t
           in (case target of None \<Rightarrow> s | Some c \<Rightarrow> request_escalation reason c s, t1))"

definition note_tool_activity ::
  "session_config \<Rightarrow> shared_state \<Rightarrow> instant \<Rightarrow> instant \<Rightarrow> router_session \<Rightarrow> tracker \<Rightarrow> router_session \<times> tracker" where
  "note_tool_activity cfg sh now wall s t =
     (let n = et_after_tool_calls (sg_triggers cfg); s1 = s\<lparr>rs_turn_tool_calls := rs_turn_tool_calls s + 1\<rparr>
      in escalate_if cfg sh (may_escalate cfg s1 \<and> 0 < n \<and> n \<le> rs_turn_tool_calls s1)
           (''escalation: '' @ show_nat n @ ''+ tool calls in one turn without finishing'') now wall s1 t)"

definition note_tool_failure ::
  "session_config \<Rightarrow> shared_state \<Rightarrow> instant \<Rightarrow> instant \<Rightarrow> router_session \<Rightarrow> tracker \<Rightarrow> router_session \<times> tracker" where
  "note_tool_failure cfg sh now wall s t =
     (let n = et_after_tool_failures (sg_triggers cfg); s1 = s\<lparr>rs_turn_tool_failures := rs_turn_tool_failures s + 1\<rparr>
      in escalate_if cfg sh (may_escalate cfg s1 \<and> 0 < n \<and> n \<le> rs_turn_tool_failures s1)
           (''escalation: '' @ show_nat n @ ''+ tool failures mid-turn'' @ EM_DASH @ ''the model is struggling'') now wall s1 t)"

definition note_investigation ::
  "session_config \<Rightarrow> shared_state \<Rightarrow> instant \<Rightarrow> instant \<Rightarrow> router_session \<Rightarrow> tracker \<Rightarrow> router_session \<times> tracker" where
  "note_investigation cfg sh now wall s t =
     (let n = et_after_reads (sg_triggers cfg); s1 = s\<lparr>rs_turn_reads := rs_turn_reads s + 1\<rparr>
      in escalate_if cfg sh
           (may_escalate cfg s1 \<and> et_before_side_effects (sg_triggers cfg) \<and> 0 < n \<and> \<not> rs_turn_side_effect s1
            \<and> \<not> rs_capturing_summary s1 \<and> n \<le> rs_turn_reads s1)
           (''escalation: '' @ show_nat n @ ''+ investigation reads before any output'' @ EM_DASH @ ''deeper than it looked'')
           now wall s1 t)"

text \<open>The built-in sub-agent tool used although the session was told to delegate through the router.\<close>

definition note_native_subagent :: "text_env \<Rightarrow> session_config \<Rightarrow> json \<Rightarrow> router_session \<Rightarrow> router_session" where
  "note_native_subagent te cfg update s =
     (if is_native_subagent_tool te update \<and> rs_delegation_directive_active s \<and> sg_forbid_native_subagents cfg
      then s\<lparr>rs_native_subagents := rs_native_subagents s + 1, rs_turn_native_subagent_warned := True\<rparr> else s)"

definition fresh_tool :: "string \<Rightarrow> string list \<Rightarrow> bool" where
  "fresh_tool tool_id seen \<longleftrightarrow> tool_id = [] \<or> tool_id \<notin> set seen"

definition remember_tool :: "string \<Rightarrow> string list \<Rightarrow> string list" where
  "remember_tool tool_id seen = (if tool_id = [] \<or> tool_id \<in> set seen then seen else seen @ [tool_id])"

definition count_investigation ::
  "session_config \<Rightarrow> shared_state \<Rightarrow> string \<Rightarrow> instant \<Rightarrow> instant \<Rightarrow> router_session \<Rightarrow> tracker \<Rightarrow> router_session \<times> tracker" where
  "count_investigation cfg sh tool_id now wall s t =
     (let s1 = s\<lparr>rs_turn_counted_tools := remember_tool tool_id (rs_turn_counted_tools s)\<rparr>
      in if fresh_tool tool_id (rs_turn_counted_tools s) then note_investigation cfg sh now wall s1 t else (s1, t))"

definition count_failure ::
  "session_config \<Rightarrow> shared_state \<Rightarrow> string \<Rightarrow> instant \<Rightarrow> instant \<Rightarrow> router_session \<Rightarrow> tracker \<Rightarrow> router_session \<times> tracker" where
  "count_failure cfg sh tool_id now wall s t =
     (let s1 = s\<lparr>rs_turn_failed_tools := remember_tool tool_id (rs_turn_failed_tools s)\<rparr>
      in if fresh_tool tool_id (rs_turn_failed_tools s) then note_tool_failure cfg sh now wall s1 t else (s1, t))"

definition observe_tool_frame ::
  "text_env \<Rightarrow> session_config \<Rightarrow> shared_state \<Rightarrow> json \<Rightarrow> instant \<Rightarrow> instant \<Rightarrow> router_session \<Rightarrow> tracker \<Rightarrow> router_session \<times> tracker" where
  "observe_tool_frame te cfg sh update now wall s t =
     (let su = unwrap_or (get_str update ''sessionUpdate'') [];
          tool_id = unwrap_or (get_str update ''toolCallId'') []
      in if \<not> (su = ''tool_call'' \<or> su = ''tool_call_update'') then (s, t)
         else let (s1, t1) = (if su = ''tool_call''
                              then let (s', t') = note_tool_activity cfg sh now wall s t in (note_native_subagent te cfg update s', t')
                              else (s, t));
                  (s2, t2) = (case classify_tool te update of
                                SideEffect \<Rightarrow> (s1\<lparr>rs_turn_side_effect := True\<rparr>, t1)
                              | Investigation \<Rightarrow> count_investigation cfg sh tool_id now wall s1 t1
                              | Defer \<Rightarrow> (s1, t1))
              in if get_str update ''status'' = Some ''failed'' then count_failure cfg sh tool_id now wall s2 t2 else (s2, t2))"

section \<open>Around a turn\<close>

datatype acp_stop_reason = EndTurn | MaxTokens | MaxTurnRequests | Refusal | Cancelled

definition begin_attempt :: "router_session \<Rightarrow> router_session" where
  "begin_attempt s =
     s\<lparr>rs_turn_reads := 0, rs_turn_side_effect := False, rs_turn_tool_failures := 0, rs_turn_counted_tools := [],
       rs_turn_failed_tools := [], rs_turn_tool_calls := 0, rs_escalation_requested := None, rs_turn_native_subagent_warned := False\<rparr>"

text \<open>After the attempt: a mid-turn request the coordinator rule allows is taken up.\<close>

definition take_escalation :: "session_config \<Rightarrow> router_session \<Rightarrow> switch_request option \<times> router_session" where
  "take_escalation cfg s =
     (let esc = opt_filter (\<lambda>e. \<not> refuse_coordinator_switch cfg s e) (rs_escalation_requested s);
          s1 = s\<lparr>rs_escalation_requested := None\<rparr>
      in (esc, if esc = None then s1
               else s1\<lparr>rs_escalations_done := rs_escalations_done s1 + 1, rs_elevation := Some ''escalation'',
                        rs_elevation_skill := None, rs_quiet_turns := 0\<rparr>))"

definition take_pending_switch :: "session_config \<Rightarrow> router_session \<Rightarrow> switch_request option \<times> router_session" where
  "take_pending_switch cfg s =
     (opt_filter (\<lambda>sw. \<not> refuse_coordinator_switch cfg s sw) (rs_pending_switch s), s\<lparr>rs_pending_switch := None\<rparr>)"

text \<open>The session after \<open>switch_pin\<close> opened the target.\<close>

definition switched :: "shared_state \<Rightarrow> candidate_id \<Rightarrow> bool \<Rightarrow> router_session \<Rightarrow> router_session" where
  "switched sh target user s =
     (let s1 = s\<lparr>rs_pin := Some target,
                 rs_pinned_quality := (case rs_task_class s of Some cls \<Rightarrow> quality (scores_for sh s target) cls | None \<Rightarrow> 1 / 2),
                 rs_struggle := 0, rs_pending_switch := None, rs_delegation_directive_active := False, rs_pin_user_pick := user\<rparr>
      in if user then s1\<lparr>rs_override := Some target, rs_override_source := Some UserPick\<rparr> else s1)"

text \<open>The session after \<open>pin_ranked\<close> opened a candidate of the plan.\<close>

definition pinned :: "shared_state \<Rightarrow> route_request \<Rightarrow> route_plan \<Rightarrow> candidate_id \<Rightarrow> router_session \<Rightarrow> router_session" where
  "pinned sh rq plan cand s =
     s\<lparr>rs_pin := Some cand, rs_pin_user_pick := (rp_picked plan = Some cand), rs_delegation_directive_active := False,
       rs_pinned_quality := quality (scores_for sh s cand) (rq_class rq), rs_task_class := Some (rq_class rq),
       rs_task_complexity := rq_complexity rq, rs_struggle := 0\<rparr>"

definition session_confidence :: "router_session \<Rightarrow> real" where
  "session_confidence s =
     clamp 0 1 (quality_confidence (rs_pinned_quality s) (session_class s) (rs_task_complexity s) - rs_struggle s)"

definition demotion_switch :: "nat \<Rightarrow> router_session \<Rightarrow> candidate_id \<Rightarrow> switch_request" where
  "demotion_switch quiet_needed s c =
     \<lparr>sw_target = c,
      sw_reason = ''demotion: '' @ show_nat quiet_needed @ '' quiet turns since ''
        @ unwrap_or (rs_elevation s) ''elevation'' @ EM_DASH @ ''verdict expired'',
      sw_handoff = FullHandoff, sw_user_pick = False\<rparr>"

definition maybe_demote ::
  "session_config \<Rightarrow> shared_state \<Rightarrow> instant \<Rightarrow> instant \<Rightarrow> router_session \<Rightarrow> tracker \<Rightarrow> router_session \<times> tracker" where
  "maybe_demote cfg sh now wall s t =
     (let quiet_needed = sg_after_quiet_turns cfg in
      if quiet_needed = 0 then (s, t)
      else if \<not> (rs_pin s \<noteq> None \<and> \<not> switch_pending s \<and> rs_elevation s \<noteq> None \<and> quiet_needed \<le> rs_quiet_turns s) then (s, t)
      else let (target, t1) = demotion_target cfg sh s now wall t
           in (case target of
                 None \<Rightarrow> s
               | Some c \<Rightarrow>
                   s\<lparr>rs_pending_switch := Some (demotion_switch quiet_needed s c),
                     rs_elevation := None, rs_elevation_skill := None, rs_quiet_turns := 0\<rparr>, t1))"

definition escalation_reasons :: "session_config \<Rightarrow> acp_stop_reason \<Rightarrow> nat \<Rightarrow> string list" where
  "escalation_reasons cfg stop failures =
     (let et = sg_triggers cfg in
      (if et_on_max_tokens et \<and> stop = MaxTokens then [''hit the token ceiling''] else [])
      @ (if et_on_refusal et \<and> stop = Refusal then [''refused''] else [])
      @ (if 0 < et_after_tool_failures et \<and> et_after_tool_failures et \<le> failures
         then [show_nat failures @ '' tool failures''] else []))"

definition elevate :: "string \<Rightarrow> string \<Rightarrow> candidate_id \<Rightarrow> router_session \<Rightarrow> router_session" where
  "elevate cause reason target s =
     s\<lparr>rs_pending_switch := Some \<lparr>sw_target = target, sw_reason = reason, sw_handoff = FullHandoff, sw_user_pick = False\<rparr>,
       rs_elevation := Some cause, rs_elevation_skill := None, rs_quiet_turns := 0\<rparr>"

fun join_strs :: "string \<Rightarrow> string list \<Rightarrow> string" where
  "join_strs sep [] = []"
| "join_strs sep [x] = x"
| "join_strs sep (x # xs) = x @ sep @ join_strs sep xs"

definition escalation_post_turn ::
  "session_config \<Rightarrow> shared_state \<Rightarrow> acp_stop_reason \<Rightarrow> nat \<Rightarrow> instant \<Rightarrow> instant \<Rightarrow> router_session \<Rightarrow> tracker \<Rightarrow> router_session \<times> tracker" where
  "escalation_post_turn cfg sh stop failures now wall s t =
     (let reasons = escalation_reasons cfg stop failures in
      if \<not> (rs_pin s \<noteq> None \<and> rs_pending_switch s = None \<and> rs_escalations_done s < et_max_escalations (sg_triggers cfg))
         \<or> reasons = [] then (s, t)
      else let (target, t1) = escalation_target cfg sh s now wall t
           in (case target of
                 None \<Rightarrow> s
               | Some c \<Rightarrow> (elevate ''escalation'' (''escalation: '' @ join_strs '', '' reasons) c s)
                             \<lparr>rs_escalations_done := rs_escalations_done s + 1\<rparr>, t1))"

definition turn_delta :: "acp_stop_reason \<Rightarrow> nat \<Rightarrow> real" where
  "turn_delta stop failures =
     (if stop = MaxTokens then 3 / 10 else if stop = Refusal then 5 / 10 else 0) + (if 3 \<le> failures then 2 / 10 else 0)"

definition record_outcome :: "acp_stop_reason \<Rightarrow> router_session \<Rightarrow> nat \<times> router_session" where
  "record_outcome stop s =
     (let failures = rs_turn_tool_failures s; delta = turn_delta stop failures;
          s1 = s\<lparr>rs_turn_tool_failures := 0\<rparr>;
          s2 = (if 0 < delta then s1\<lparr>rs_struggle := min (rs_struggle s1 + delta) 1\<rparr> else s1)
      in (failures,
          if rs_elevation s2 = None then s2
          else if 0 < delta \<or> 0 < failures then s2\<lparr>rs_quiet_turns := 0\<rparr>
          else s2\<lparr>rs_quiet_turns := rs_quiet_turns s2 + 1, rs_struggle := max (rs_struggle s2 - 5 / 100) 0\<rparr>))"

definition maybe_upgrade ::
  "session_config \<Rightarrow> shared_state \<Rightarrow> (real \<Rightarrow> real \<Rightarrow> string) \<Rightarrow> instant \<Rightarrow> instant \<Rightarrow> router_session \<Rightarrow> tracker \<Rightarrow> router_session \<times> tracker" where
  "maybe_upgrade cfg sh upgrade_text now wall s t =
     (if \<not> sg_auto_upgrade cfg \<or> \<not> (rs_pin s \<noteq> None \<and> rs_pending_switch s = None)
         \<or> sg_confidence_threshold cfg \<le> session_confidence s then (s, t)
      else let (target, t1) = upgrade_target cfg sh s now wall t
           in (case target of
                 None \<Rightarrow> s
               | Some c \<Rightarrow> elevate ''auto-upgrade'' (upgrade_text (session_confidence s) (sg_confidence_threshold cfg)) c s, t1))"

definition update_confidence_and_maybe_upgrade ::
  "session_config \<Rightarrow> shared_state \<Rightarrow> (real \<Rightarrow> real \<Rightarrow> string) \<Rightarrow> acp_stop_reason \<Rightarrow> instant \<Rightarrow> instant \<Rightarrow> router_session \<Rightarrow> tracker \<Rightarrow> router_session \<times> tracker" where
  "update_confidence_and_maybe_upgrade cfg sh upgrade_text stop now wall s t =
     (let (failures, s1) = record_outcome stop s; (s2, t2) = maybe_demote cfg sh now wall s1 t
      in if rs_strategy s2 = Escalation then escalation_post_turn cfg sh stop failures now wall s2 t2
         else maybe_upgrade cfg sh upgrade_text now wall s2 t2)"

section \<open>What the targets are\<close>

text \<open>What the pool says of a candidate's strength and cost is what the configuration says.\<close>

definition view_key :: "candidate_view \<Rightarrow> candidate_id \<times> real \<times> nat" where
  "view_key v = (cv_id v, cv_quality v, cv_cost_rank v)"

definition runtime_key :: "shared_state \<Rightarrow> task_class \<Rightarrow> candidate_runtime \<Rightarrow> candidate_id \<times> real \<times> nat" where
  "runtime_key sh cls c = (cr_id c, quality (candidate_scores sh (cr_id c)) cls, cr_cost_rank c)"

lemma make_view_key: "view_key (fst (make_view sh pr c t)) = runtime_key sh (pr_class pr) c"
  by (simp add: make_view_def Let_def split_beta view_key_def runtime_key_def)

lemma pool_views_key: "view_key ` set (fst (pool_views sh pr cs t)) \<subseteq> runtime_key sh (pr_class pr) ` set cs"
proof (induction cs arbitrary: t)
  case (Cons c cs)
  obtain b t1 where g: "tracker_gates sh pr (cr_id c) t = (b, t1)" by fastforce
  obtain v t2 where m: "make_view sh pr c t1 = (v, t2)" by fastforce
  obtain vs t3 where p: "pool_views sh pr cs t2 = (vs, t3)" by fastforce
  have "view_key v = runtime_key sh (pr_class pr) c" using make_view_key [of sh pr c t1] m by simp
  then show ?case using Cons.IH [of t] Cons.IH [of t1] Cons.IH [of t2] g m p by (simp, blast)
qed simp

lemma caps_keep_keys:
  "map view_key (cap_unmetered_headroom vs) = map view_key vs" "map view_key (cap_overage_headroom w vs) = map view_key vs"
  "map view_key (hide_plan ap vs) = map view_key vs"
  by (auto simp: cap_unmetered_headroom_def cap_overage_headroom_def hide_plan_def Let_def view_key_def split: option.splits)

lemma eligible_keys:
  "map view_key (fst (eligible_views_core sh pr m t)) =
   map view_key (prioritize (sh_agents sh) (pr_admit pr)
     (filter m (fst (pool_views sh pr (routeable_candidates_inner sh (pr_explicit_pick pr)) t))))"
  by (simp add: eligible_views_core_def split_beta Let_def caps_keep_keys)

lemma eligible_key:
  assumes "v \<in> set (fst (eligible_views_core sh pr m t))"
  shows "view_key v \<in> runtime_key sh (pr_class pr) ` set (sh_candidates sh)"
proof -
  let ?pool = "fst (pool_views sh pr (routeable_candidates_inner sh (pr_explicit_pick pr)) t)"
  have "view_key v \<in> set (map view_key (fst (eligible_views_core sh pr m t)))" using assms by simp
  then have "view_key v \<in> view_key ` set ?pool" unfolding eligible_keys using set_prioritize by fastforce
  then have "view_key v \<in> runtime_key sh (pr_class pr) ` set (routeable_candidates_inner sh (pr_explicit_pick pr))"
    using pool_views_key by blast
  then show ?thesis by (auto simp: routeable_candidates_inner_def)
qed

text \<open>Where a session may move: an eligible candidate other than the pin, not excluded, and not barred to a coordinator.\<close>

definition may_move_to :: "session_config \<Rightarrow> shared_state \<Rightarrow> router_session \<Rightarrow> instant \<Rightarrow> instant \<Rightarrow> tracker \<Rightarrow> candidate_view \<Rightarrow> bool" where
  "may_move_to cfg sh s now wall t v \<longleftrightarrow>
     v \<in> set (fst (eligible_views sh caps_default (session_class s) now wall t)) \<and> rs_pin s \<noteq> Some (cv_id v) \<and>
     \<not> is_excluded (cv_id v) (rs_excluded s) \<and> \<not> coordinator_blocks cfg s (cv_id v) \<and> rs_pin s \<noteq> None"

lemma pick_above_above:
  assumes "pick_above path q pool margin = Some v" and "0 \<le> margin"
  shows "v \<in> set pool \<and> quality_utility q < quality_utility (cv_quality v)"
proof -
  have "v \<in> set (views_above q margin pool)"
    using assms(1) by (cases path) (auto simp: pick_above_def dest: last_max_mem first_min_mem)
  then show ?thesis using assms(2) by (auto simp: views_above_def)
qed

lemma stronger_view_above:
  assumes "stronger_view path q pool = Some v"
  shows "v \<in> set pool \<and> quality_utility q < quality_utility (cv_quality v)"
proof (cases "pick_above path q pool (5 / 100)")
  case None
  then have "pick_above path q pool F64_EPSILON = Some v" using assms by (simp add: stronger_view_def)
  then show ?thesis by (rule pick_above_above) (simp add: F64_EPSILON_def)
next
  case (Some u)
  then show ?thesis using assms pick_above_above [OF Some] by (simp add: stronger_view_def)
qed

lemma skill_views_subset: "set (skill_views cfg s pool) \<subseteq> set pool"
  by (auto simp: skill_views_def split: option.splits)

lemma other_views_set:
  "set (fst (other_views sh s current now wall t)) =
     {v \<in> set (fst (eligible_views sh caps_default (session_class s) now wall t)). cv_id v \<noteq> current \<and> \<not> is_excluded (cv_id v) (rs_excluded s)}"
  by (auto simp: other_views_def split_beta Let_def)

lemma escalation_target_sound:
  assumes "fst (escalation_target cfg sh s now wall t) = Some i"
  shows "\<exists>v. cv_id v = i \<and> may_move_to cfg sh s now wall t v \<and> quality_utility (rs_pinned_quality s) < quality_utility (cv_quality v)"
proof -
  obtain pin where pin: "rs_pin s = Some pin" using assms by (cases "rs_pin s") (auto simp: escalation_target_def)
  obtain v where v: "stronger_view (et_path (sg_triggers cfg)) (rs_pinned_quality s) (fst (other_views sh s pin now wall t)) = Some v"
    "cv_id v = i" "\<not> coordinator_blocks cfg s i"
    using assms pin by (auto simp: escalation_target_def split_beta Let_def opt_filter_Some_iff)
  then show ?thesis using stronger_view_above [OF v(1)] pin by (auto simp: may_move_to_def other_views_set)
qed

lemma upgrade_target_sound:
  assumes "fst (upgrade_target cfg sh s now wall t) = Some i"
  shows "\<exists>v. cv_id v = i \<and> may_move_to cfg sh s now wall t v \<and> quality_utility (rs_pinned_quality s) < quality_utility (cv_quality v) \<and>
    (\<forall>route. elevation_route cfg s = Some route \<longrightarrow> (\<exists>p \<in> set (sr_candidates route). candidate_matches p i))"
proof -
  obtain pin where pin: "rs_pin s = Some pin" using assms by (cases "rs_pin s") (auto simp: upgrade_target_def)
  obtain v where v: "stronger_view Leap (rs_pinned_quality s) (skill_views cfg s (fst (other_views sh s pin now wall t))) = Some v"
    "cv_id v = i" "\<not> coordinator_blocks cfg s i"
    using assms pin by (auto simp: upgrade_target_def split_beta Let_def opt_filter_Some_iff)
  note a = stronger_view_above [OF v(1)]
  have "v \<in> set (fst (other_views sh s pin now wall t))" using a skill_views_subset by blast
  moreover have "\<forall>route. elevation_route cfg s = Some route \<longrightarrow> (\<exists>p \<in> set (sr_candidates route). candidate_matches p i)"
    using a v(2) by (auto simp: skill_views_def list_ex_iff)
  ultimately show ?thesis using a v(2,3) pin by (auto simp: may_move_to_def other_views_set)
qed

lemma demotion_target_sound:
  assumes "fst (demotion_target cfg sh s now wall t) = Some i"
  shows "\<exists>v pin c. cv_id v = i \<and> may_move_to cfg sh s now wall t v \<and> rs_pin s = Some pin \<and> runtime_of sh pin = Some c \<and>
    cv_cost_rank v < cr_cost_rank c \<and> holds_threshold cfg s v"
proof -
  obtain pin where pin: "rs_pin s = Some pin" using assms by (cases "rs_pin s") (auto simp: demotion_target_def)
  obtain c where c: "runtime_of sh pin = Some c" using assms pin by (cases "runtime_of sh pin") (auto simp: demotion_target_def)
  obtain v where v: "last_max cv_quality (filter (holds_threshold cfg s) (skill_views cfg s
      (filter (\<lambda>v. cv_cost_rank v < cr_cost_rank c) (fst (other_views sh s pin now wall t))))) = Some v"
    "cv_id v = i" "\<not> coordinator_blocks cfg s i"
    using assms pin c by (auto simp: demotion_target_def split_beta Let_def opt_filter_Some_iff)
  have "v \<in> set (fst (other_views sh s pin now wall t))" "cv_cost_rank v < cr_cost_rank c" "holds_threshold cfg s v"
    using last_max_mem [OF v(1)] skill_views_subset by fastforce+
  then show ?thesis using v(2,3) pin c by (auto simp: may_move_to_def other_views_set)
qed

section \<open>The switch after a turn\<close>

lemma record_outcome_keeps [simp]:
  "rs_pin (snd (record_outcome stop s)) = rs_pin s" "rs_pending_switch (snd (record_outcome stop s)) = rs_pending_switch s"
  "rs_elevation (snd (record_outcome stop s)) = rs_elevation s" "rs_task_class (snd (record_outcome stop s)) = rs_task_class s"
  "rs_elevation_skill (snd (record_outcome stop s)) = rs_elevation_skill s"
  "rs_excluded (snd (record_outcome stop s)) = rs_excluded s" "rs_coordinator (snd (record_outcome stop s)) = rs_coordinator s"
  "rs_pinned_quality (snd (record_outcome stop s)) = rs_pinned_quality s" "rs_strategy (snd (record_outcome stop s)) = rs_strategy s"
  "rs_escalations_done (snd (record_outcome stop s)) = rs_escalations_done s"
  "rs_task_complexity (snd (record_outcome stop s)) = rs_task_complexity s"
  "rs_version_request (snd (record_outcome stop s)) = rs_version_request s"
  "rs_escalation_requested (snd (record_outcome stop s)) = rs_escalation_requested s"
  "rs_turn_tool_failures (snd (record_outcome stop s)) = 0"
  by (simp_all add: record_outcome_def Let_def)

lemma outcome_move: "may_move_to cfg sh (snd (record_outcome stop s)) now wall t v = may_move_to cfg sh s now wall t v"
  by (simp add: may_move_to_def session_class_def coordinator_blocks_def)

text \<open>What an automatic move up and one down have to satisfy.\<close>

definition moved_up :: "session_config \<Rightarrow> shared_state \<Rightarrow> instant \<Rightarrow> instant \<Rightarrow> tracker \<Rightarrow> router_session \<Rightarrow> router_session \<Rightarrow> candidate_id \<Rightarrow> bool" where
  "moved_up cfg sh now wall t s s' i \<longleftrightarrow>
     (\<exists>v. cv_id v = i \<and> may_move_to cfg sh s now wall t v \<and> quality_utility (rs_pinned_quality s) < quality_utility (cv_quality v)) \<and>
     rs_elevation s' \<noteq> None \<and> rs_quiet_turns s' = 0"

definition moved_down :: "session_config \<Rightarrow> shared_state \<Rightarrow> acp_stop_reason \<Rightarrow> instant \<Rightarrow> instant \<Rightarrow> tracker \<Rightarrow> router_session \<Rightarrow> router_session \<Rightarrow> candidate_id \<Rightarrow> bool" where
  "moved_down cfg sh stop now wall t s s' i \<longleftrightarrow>
     (\<exists>v pin c. cv_id v = i \<and> may_move_to cfg sh s now wall t v \<and> rs_pin s = Some pin \<and> runtime_of sh pin = Some c \<and>
        cv_cost_rank v < cr_cost_rank c \<and> holds_threshold cfg s' v) \<and>
     rs_elevation s \<noteq> None \<and> rs_elevation s' = None \<and> rs_escalation_requested s = None \<and>
     0 < sg_after_quiet_turns cfg \<and> sg_after_quiet_turns cfg \<le> rs_quiet_turns (snd (record_outcome stop s))"

lemma elevate_fields [simp]:
  "rs_pin (elevate cause r c s) = rs_pin s" "map_option sw_target (rs_pending_switch (elevate cause r c s)) = Some c"
  "map_option sw_user_pick (rs_pending_switch (elevate cause r c s)) = Some False" "rs_elevation (elevate cause r c s) = Some cause"
  "rs_quiet_turns (elevate cause r c s) = 0" "rs_struggle (elevate cause r c s) = rs_struggle s"
  "rs_escalations_done (elevate cause r c s) = rs_escalations_done s" "rs_escalation_requested (elevate cause r c s) = rs_escalation_requested s"
  by (simp_all add: elevate_def)

lemma demotion_switch_fields [simp]: "sw_target (demotion_switch n s c) = c" "\<not> sw_user_pick (demotion_switch n s c)"
  by (simp_all add: demotion_switch_def)

lemma maybe_demote_cases:
  obtains (kept) "fst (maybe_demote cfg sh now wall s t) = s"
  | (moved) sw where "fst (maybe_demote cfg sh now wall s t) =
        s\<lparr>rs_pending_switch := Some sw, rs_elevation := None, rs_elevation_skill := None, rs_quiet_turns := 0\<rparr>"
      "fst (demotion_target cfg sh s now wall t) = Some (sw_target sw)" "\<not> sw_user_pick sw" "rs_pending_switch s = None"
      "rs_elevation s \<noteq> None" "0 < sg_after_quiet_turns cfg" "sg_after_quiet_turns cfg \<le> rs_quiet_turns s"
      "rs_escalation_requested s = None"
proof -
  let ?ready = "sg_after_quiet_turns cfg \<noteq> 0 \<and> rs_pin s \<noteq> None \<and> \<not> switch_pending s \<and> rs_elevation s \<noteq> None \<and>
    sg_after_quiet_turns cfg \<le> rs_quiet_turns s"
  obtain target t1 where d: "demotion_target cfg sh s now wall t = (target, t1)" by fastforce
  show thesis
  proof (cases "?ready \<and> target \<noteq> None")
    case True
    then obtain c where c: "target = Some c" by auto
    show thesis
      by (rule moved [of "demotion_switch (sg_after_quiet_turns cfg) s c"]) (use True c d in \<open>simp_all add: maybe_demote_def switch_pending_def\<close>)
  next
    case False
    then show thesis using d kept by (cases target) (auto simp: maybe_demote_def Let_def)
  qed
qed

lemma escalation_post_turn_cases:
  obtains (kept) "fst (escalation_post_turn cfg sh stop n now wall s t) = s"
  | (moved) r c where "fst (escalation_post_turn cfg sh stop n now wall s t) =
        (elevate ''escalation'' r c s)\<lparr>rs_escalations_done := rs_escalations_done s + 1\<rparr>"
      "fst (escalation_target cfg sh s now wall t) = Some c" "rs_pending_switch s = None"
      "rs_escalations_done s < et_max_escalations (sg_triggers cfg)" "escalation_reasons cfg stop n \<noteq> []"
proof -
  obtain target t1 where d: "escalation_target cfg sh s now wall t = (target, t1)" by fastforce
  show thesis
  proof (cases "rs_pin s \<noteq> None \<and> rs_pending_switch s = None \<and> rs_escalations_done s < et_max_escalations (sg_triggers cfg) \<and>
      escalation_reasons cfg stop n \<noteq> [] \<and> target \<noteq> None")
    case True
    then obtain c where c: "target = Some c" by auto
    show thesis by (rule moved) (use True c d in \<open>simp_all add: escalation_post_turn_def\<close>)
  next
    case False
    then show thesis using d kept by (cases target) (auto simp: escalation_post_turn_def Let_def)
  qed
qed

lemma maybe_upgrade_cases:
  obtains (kept) "fst (maybe_upgrade cfg sh f now wall s t) = s"
  | (moved) r c where "fst (maybe_upgrade cfg sh f now wall s t) = elevate ''auto-upgrade'' r c s"
      "fst (upgrade_target cfg sh s now wall t) = Some c" "rs_pending_switch s = None"
      "session_confidence s < sg_confidence_threshold cfg" "sg_auto_upgrade cfg"
proof -
  obtain target t1 where d: "upgrade_target cfg sh s now wall t = (target, t1)" by fastforce
  show thesis
  proof (cases "sg_auto_upgrade cfg \<and> rs_pin s \<noteq> None \<and> rs_pending_switch s = None \<and>
      session_confidence s < sg_confidence_threshold cfg \<and> target \<noteq> None")
    case True
    then obtain c where c: "target = Some c" by auto
    show thesis by (rule moved) (use True c d in \<open>simp_all add: maybe_upgrade_def\<close>)
  next
    case False
    then show thesis using d kept by (cases target) (auto simp: maybe_upgrade_def Let_def)
  qed
qed

text \<open>The whole post-turn step is the demotion and, when it queued nothing, one of the two ways up.\<close>

lemma post_turn_cases:
  fixes stop s
  defines "s1 \<equiv> snd (record_outcome stop s)"
  assumes "update_confidence_and_maybe_upgrade cfg sh f stop now wall s t = (s', t')"
  obtains (kept) "s' = s1"
  | (down) sw where "s' = s1\<lparr>rs_pending_switch := Some sw, rs_elevation := None, rs_elevation_skill := None, rs_quiet_turns := 0\<rparr>"
      "fst (demotion_target cfg sh s1 now wall t) = Some (sw_target sw)" "\<not> sw_user_pick sw" "rs_pending_switch s = None"
      "rs_elevation s \<noteq> None" "0 < sg_after_quiet_turns cfg" "sg_after_quiet_turns cfg \<le> rs_quiet_turns s1"
      "rs_escalation_requested s = None"
  | (escalated) r c where "s' = (elevate ''escalation'' r c s1)\<lparr>rs_escalations_done := rs_escalations_done s + 1\<rparr>"
      "fst (escalation_target cfg sh s1 now wall (snd (maybe_demote cfg sh now wall s1 t))) = Some c" "rs_pending_switch s = None"
      "rs_escalations_done s < et_max_escalations (sg_triggers cfg)" "rs_strategy s = Escalation"
      "escalation_reasons cfg stop (rs_turn_tool_failures s) \<noteq> []"
  | (upgraded) r c where "s' = elevate ''auto-upgrade'' r c s1"
      "fst (upgrade_target cfg sh s1 now wall (snd (maybe_demote cfg sh now wall s1 t))) = Some c" "rs_pending_switch s = None"
      "session_confidence s1 < sg_confidence_threshold cfg" "sg_auto_upgrade cfg" "rs_strategy s \<noteq> Escalation"
proof -
  define s2 t2 n where "s2 = fst (maybe_demote cfg sh now wall s1 t)" and "t2 = snd (maybe_demote cfg sh now wall s1 t)"
    and "n = fst (record_outcome stop s)"
  have step: "s' = fst (if rs_strategy s2 = Escalation then escalation_post_turn cfg sh stop n now wall s2 t2 else maybe_upgrade cfg sh f now wall s2 t2)"
    using assms(2) by (simp add: update_confidence_and_maybe_upgrade_def s1_def s2_def t2_def n_def split_beta Let_def split: if_splits)
  show thesis
  proof (cases rule: maybe_demote_cases [of cfg sh now wall s1 t])
    case kept
    then have [simp]: "s2 = s1" by (simp add: s2_def)
    have [simp]: "rs_strategy s1 = rs_strategy s" "rs_pending_switch s1 = rs_pending_switch s" "rs_escalations_done s1 = rs_escalations_done s"
      by (simp_all add: s1_def)
    have n: "n = rs_turn_tool_failures s" by (simp add: n_def record_outcome_def Let_def)
    show thesis
    proof (cases "rs_strategy s = Escalation")
      case True
      then have e: "s' = fst (escalation_post_turn cfg sh stop n now wall s1 t2)" by (simp add: step)
      show thesis
        by (cases rule: escalation_post_turn_cases [of cfg sh stop n now wall s1 t2])
          (use e True that(1,3) n in \<open>auto simp: t2_def\<close>)
    next
      case False
      then have e: "s' = fst (maybe_upgrade cfg sh f now wall s1 t2)" by (simp add: step)
      show thesis
        by (cases rule: maybe_upgrade_cases [of cfg sh f now wall s1 t2])
          (use e False that(1,4) in \<open>auto simp: t2_def\<close>)
    qed
  next
    case (moved sw)
    then have "s' = s1\<lparr>rs_pending_switch := Some sw, rs_elevation := None, rs_elevation_skill := None, rs_quiet_turns := 0\<rparr>"
      by (simp add: step s2_def escalation_post_turn_def maybe_upgrade_def Let_def)
    then show thesis using moved by (intro down) (simp_all add: s1_def)
  qed
qed

lemma holds_threshold_cong:
  "rs_strategy s = rs_strategy s' \<Longrightarrow> rs_task_class s = rs_task_class s' \<Longrightarrow> rs_task_complexity s = rs_task_complexity s' \<Longrightarrow>
   rs_struggle s = rs_struggle s' \<Longrightarrow> holds_threshold cfg s v = holds_threshold cfg s' v"
  by (simp add: holds_threshold_def session_class_def)

lemma moved_upI:
  assumes "\<exists>v. cv_id v = i \<and> may_move_to cfg sh (snd (record_outcome stop s)) now wall t v \<and>
      quality_utility (rs_pinned_quality (snd (record_outcome stop s))) < quality_utility (cv_quality v)"
    and "rs_elevation s' \<noteq> None" "rs_quiet_turns s' = 0"
  shows "moved_up cfg sh now wall t s s' i"
  using assms by (simp add: moved_up_def outcome_move)

lemma moved_downI:
  assumes "fst (demotion_target cfg sh (snd (record_outcome stop s)) now wall t) = Some i" and "rs_elevation s \<noteq> None"
    and "0 < sg_after_quiet_turns cfg" and "sg_after_quiet_turns cfg \<le> rs_quiet_turns (snd (record_outcome stop s))"
    and "rs_escalation_requested s = None"
    and "s' = (snd (record_outcome stop s))\<lparr>rs_pending_switch := sw, rs_elevation := None, rs_elevation_skill := None, rs_quiet_turns := 0\<rparr>"
  shows "moved_down cfg sh stop now wall t s s' i"
proof -
  let ?s1 = "snd (record_outcome stop s)"
  have "holds_threshold cfg ?s1 v = holds_threshold cfg s' v" for v by (rule holds_threshold_cong) (simp_all add: assms(6))
  then have "\<exists>v pin c. cv_id v = i \<and> may_move_to cfg sh s now wall t v \<and> rs_pin s = Some pin \<and> runtime_of sh pin = Some c \<and>
      cv_cost_rank v < cr_cost_rank c \<and> holds_threshold cfg s' v"
    using demotion_target_sound [OF assms(1)] by (simp add: outcome_move)
  then show ?thesis using assms(2-5) by (simp add: moved_down_def assms(6))
qed

text \<open>Reading the pool for a demotion leaves what the gates read.\<close>

lemma maybe_demote_gates: "gate_view now (snd (maybe_demote cfg sh now wall s t)) = gate_view now t"
proof -
  have "gate_view now (snd (other_views sh s c now wall t)) = gate_view now t" for c
    using eligible_gate_view [of "pool_request_default caps_default (session_class s) now wall" sh "\<lambda>_. True" t]
    by (simp add: other_views_def eligible_views_def split_beta Let_def pool_request_default_def)
  then have "gate_view now (snd (demotion_target cfg sh s now wall t)) = gate_view now t"
    by (simp add: demotion_target_def split_beta Let_def split: option.splits)
  then show ?thesis by (simp add: maybe_demote_def split_beta Let_def)
qed

text \<open>The candidate a session moves to is one that passes every gate.\<close>

definition passing_seat :: "shared_state \<Rightarrow> router_session \<Rightarrow> instant \<Rightarrow> instant \<Rightarrow> tracker \<Rightarrow> candidate_id \<Rightarrow> bool" where
  "passing_seat sh s now wall t i \<longleftrightarrow>
     (\<exists>c \<in> set (routeable_candidates_inner sh False). cr_id c = i \<and>
        passes sh (pool_request_default caps_default (session_class s) now wall) t c)"

lemma may_move_passing:
  assumes "may_move_to cfg sh s now wall u v" and "gate_view now u = gate_view now t"
  shows "passing_seat sh s now wall t (cv_id v)"
proof -
  let ?pr = "pool_request_default caps_default (session_class s) now wall"
  have "v \<in> set (fst (eligible_views_core sh ?pr (\<lambda>_. True) u))" using assms(1) by (simp add: may_move_to_def eligible_views_def)
  from eligible_passes [OF this] obtain c where c: "c \<in> set (routeable_candidates_inner sh False)" "cv_id v = cr_id c" "passes sh ?pr u c"
    by (auto simp: pool_request_default_def)
  moreover have "passes sh ?pr u c = passes sh ?pr t c"
    using tracker_open_view [of ?pr u t sh] assms(2) by (simp add: passes_def pool_request_default_def)
  ultimately show ?thesis by (auto simp: passing_seat_def)
qed

text \<open>
  C12. Safety of the automatic switches. The step after a turn never touches the pin, never
  replaces a switch that is already queued, and queues at most one, which is no human pick. A
  queued switch leads to a routeable candidate that passes every gate of the pool as the tracker
  stands when the turn ends (neither quarantined, cordoned nor out of quota), other than
  the pin, not excluded and open to a coordinator. Either the session is elevated: the target is
  strictly more capable than the pin, the escalation router does it only for one of its triggers
  and counts it against its bound, and any other strategy only when confidence is below the
  threshold; or an elevation ran out: the configured number of quiet turns has passed, nothing else
  is queued or requested, and the target is strictly cheaper than the pin and, where the automatic
  upgrade could undo the move, keeps confidence at the threshold.
\<close>
theorem automatic_switch_sound:
  assumes "update_confidence_and_maybe_upgrade cfg sh f stop now wall s t = (s', t')"
  shows "rs_pin s' = rs_pin s \<and> (rs_pending_switch s \<noteq> None \<longrightarrow> rs_pending_switch s' = rs_pending_switch s) \<and>
    (\<forall>sw. rs_pending_switch s = None \<and> rs_pending_switch s' = Some sw \<longrightarrow> \<not> sw_user_pick sw \<and>
      passing_seat sh s now wall t (sw_target sw) \<and>
      (moved_down cfg sh stop now wall t s s' (sw_target sw) \<and> rs_escalations_done s' = rs_escalations_done s \<or>
       moved_up cfg sh now wall (snd (maybe_demote cfg sh now wall (snd (record_outcome stop s)) t)) s s' (sw_target sw) \<and>
        (if rs_strategy s = Escalation
         then rs_escalations_done s' = rs_escalations_done s + 1 \<and> rs_escalations_done s' \<le> et_max_escalations (sg_triggers cfg) \<and>
           escalation_reasons cfg stop (rs_turn_tool_failures s) \<noteq> []
         else sg_auto_upgrade cfg \<and> session_confidence (snd (record_outcome stop s)) < sg_confidence_threshold cfg)))"
proof -
  let ?t1 = "snd (maybe_demote cfg sh now wall (snd (record_outcome stop s)) t)"
  have up_passing: "passing_seat sh s now wall t i" if "moved_up cfg sh now wall ?t1 s s' i" for i
    using that may_move_passing [OF _ maybe_demote_gates] by (auto simp: moved_up_def)
  from assms show ?thesis
  proof (cases rule: post_turn_cases)
    case (down sw)
    note d = moved_downI [OF down(2) down(5) down(6) down(7) down(8) down(1)]
    then have "passing_seat sh s now wall t (sw_target sw)" by (auto simp: moved_down_def dest!: may_move_passing [OF _ refl])
    with d show ?thesis using down by simp
  next
    case (escalated r c)
    have up: "moved_up cfg sh now wall ?t1 s s' c"
      by (rule moved_upI [OF escalation_target_sound [OF escalated(2)]]) (simp_all add: escalated(1))
    obtain sw where "rs_pending_switch (elevate ''escalation'' r c (snd (record_outcome stop s))) = Some sw" "sw_target sw = c" "\<not> sw_user_pick sw"
      by (auto simp: elevate_def)
    with up up_passing [OF up] escalated show ?thesis by auto
  next
    case (upgraded r c)
    have "\<exists>v. cv_id v = c \<and> may_move_to cfg sh (snd (record_outcome stop s)) now wall ?t1 v \<and>
        quality_utility (rs_pinned_quality (snd (record_outcome stop s))) < quality_utility (cv_quality v)"
      using upgrade_target_sound [OF upgraded(2)] by blast
    then have up: "moved_up cfg sh now wall ?t1 s s' c" by (rule moved_upI) (simp_all add: upgraded(1))
    obtain sw where "rs_pending_switch (elevate ''auto-upgrade'' r c (snd (record_outcome stop s))) = Some sw" "sw_target sw = c" "\<not> sw_user_pick sw"
      by (auto simp: elevate_def)
    with up up_passing [OF up] upgraded show ?thesis by auto
  qed auto
qed

section \<open>A demotion is not undone\<close>

lemma session_scores:
  assumes "rs_version_request s = None" and "map_of (tbl_pinned (sh_scores sh)) i = None"
  shows "scores_for sh s i = candidate_scores sh i"
  using assms by (simp add: scores_for_def version_for_def candidate_scores_def score_lookup_def split: option.split)

lemma move_target_quality:
  assumes "may_move_to cfg sh s now wall t v"
  shows "cv_quality v = quality (candidate_scores sh (cv_id v)) (session_class s)"
proof -
  have "v \<in> set (fst (eligible_views_core sh (pool_request_default caps_default (session_class s) now wall) (\<lambda>_. True) t))"
    using assms by (simp add: may_move_to_def eligible_views_def)
  from eligible_key [OF this] show ?thesis by (auto simp: view_key_def runtime_key_def pool_request_default_def)
qed

lemma outcome_struggle:
  assumes "0 \<le> rs_struggle s" and "rs_struggle s \<le> 1"
  shows "0 \<le> rs_struggle (snd (record_outcome stop s)) \<and> rs_struggle (snd (record_outcome stop s)) \<le> 1"
  using assms by (auto simp: record_outcome_def turn_delta_def Let_def)

text \<open>
  A demotion is not undone by the next turn. When an elevation runs out and the session moves
  to the queued target, a following turn that ends normally with fewer than three tool failures
  queues no switch, whatever the pool then holds. This is for sessions that run the pool's version
  of the target (no version was requested and the score table pins none) and a threshold of at
  most one, outside the escalation router.
\<close>
lemma demotion_sticks:
  assumes "update_confidence_and_maybe_upgrade cfg sh f stop now wall s t = (s', t')"
    and "rs_pending_switch s = None" and "rs_pending_switch s' = Some sw" and "rs_elevation s' = None"
    and "0 \<le> rs_struggle s" and "rs_struggle s \<le> 1" and "rs_strategy s \<noteq> Escalation" and "sg_confidence_threshold cfg \<le> 1"
    and "rs_task_class s \<noteq> None" and "rs_version_request s = None" and "map_of (tbl_pinned (sh_scores sh)) (sw_target sw) = None"
    and "stop' = EndTurn" and "failures < 3"
    and "s2 = (switched sh (sw_target sw) False s')\<lparr>rs_turn_tool_failures := failures\<rparr>"
  shows "rs_pin s2 = Some (sw_target sw) \<and>
    rs_pending_switch (fst (update_confidence_and_maybe_upgrade cfg sh f' stop' now' wall' s2 t2)) = None"
proof -
  have s': "s' = (snd (record_outcome stop s))\<lparr>rs_pending_switch := Some sw, rs_elevation := None, rs_elevation_skill := None, rs_quiet_turns := 0\<rparr>"
    "fst (demotion_target cfg sh (snd (record_outcome stop s)) now wall t) = Some (sw_target sw)"
    using assms(1) by (cases rule: post_turn_cases; use assms(2,3,4) in \<open>auto simp: elevate_def\<close>)+
  obtain v where v: "cv_id v = sw_target sw" "may_move_to cfg sh (snd (record_outcome stop s)) now wall t v"
      "holds_threshold cfg (snd (record_outcome stop s)) v"
    using demotion_target_sound [OF s'(2)] by blast
  have cls: "session_class s2 = session_class s" "rs_task_complexity s2 = rs_task_complexity s" "rs_strategy s2 = rs_strategy s"
    "rs_struggle s2 = 0" "rs_elevation s2 = None" "rs_pending_switch s2 = None" "rs_turn_tool_failures s2 = failures"
    by (simp_all add: assms(14) switched_def s'(1) session_class_def)
  have "scores_for sh s' (sw_target sw) = candidate_scores sh (sw_target sw)"
    using assms(10,11) by (intro session_scores) (simp_all add: s'(1))
  then have q: "rs_pinned_quality s2 = cv_quality v"
    using move_target_quality [OF v(2)] v(1) assms(9) by (auto simp: assms(14) switched_def s'(1) session_class_def)
  have out: "snd (record_outcome stop' s2) = s2\<lparr>rs_turn_tool_failures := 0\<rparr>"
    using assms(12,13) cls by (simp add: record_outcome_def turn_delta_def)
  have "sg_confidence_threshold cfg \<le> session_confidence s2" if "sg_auto_upgrade cfg"
    using v(3) that assms(7,8) outcome_struggle [OF assms(5,6), of stop] cls q
    by (simp add: holds_threshold_def session_confidence_def session_class_def clamp_def)
  then have conf: "sg_auto_upgrade cfg \<Longrightarrow> sg_confidence_threshold cfg \<le> session_confidence (snd (record_outcome stop' s2))"
    by (simp add: out session_confidence_def session_class_def)
  obtain s3 t3 where r: "update_confidence_and_maybe_upgrade cfg sh f' stop' now' wall' s2 t2 = (s3, t3)" by fastforce
  then have "rs_pending_switch s3 = None" by (cases rule: post_turn_cases) (use conf cls assms(7) in auto)
  with r show ?thesis by (simp add: assms(14) switched_def Let_def)
qed

section \<open>A session over its turns\<close>

text \<open>
  Between turns the queued switch is taken, with success or not; an attempt starts by clearing
  the counters of the turn; frames arrive at any time; an attempt ends in an error, in a failover to another
  candidate, in the escalation that was asked for (after which the prompt is sent again), or with
  a response, whose outcome is folded in before the next turn. Other sessions, the pollers and the
  human change the tracker, and queue switches, at any time.
\<close>

datatype turn_phase = BetweenTurns | Running | Ending

type_synonym turn_state = "turn_phase \<times> router_session \<times> tracker"

inductive turn_step ::
  "text_env \<Rightarrow> session_config \<Rightarrow> shared_state \<Rightarrow> (real \<Rightarrow> real \<Rightarrow> string) \<Rightarrow> turn_state \<Rightarrow> turn_state \<Rightarrow> bool"
  for te cfg sh f where
  frame: "turn_step te cfg sh f (p, s, t) (p, observe_tool_frame te cfg sh update now wall s t)"
| asked: "turn_step te cfg sh f (p, s, t) (p, s\<lparr>rs_pending_switch := Some sw\<rparr>, t)"
| tracked: "turn_step te cfg sh f (p, s, t) (p, s, t')"
| escape: "turn_step te cfg sh f (BetweenTurns, s, t) (BetweenTurns, queue_usage_cordon_escape cfg sh now wall s t)"
| recovery: "turn_step te cfg sh f (BetweenTurns, s, t) (BetweenTurns, queue_usage_cordon_recovery sh now wall s t)"
| switch: "take_pending_switch cfg s = (Some sw, s') \<Longrightarrow>
    turn_step te cfg sh f (BetweenTurns, s, t) (BetweenTurns, switched sh (sw_target sw) (sw_user_pick sw) s', t)"
| no_switch: "turn_step te cfg sh f (BetweenTurns, s, t) (BetweenTurns, snd (take_pending_switch cfg s), t)"
| attempt: "turn_step te cfg sh f (BetweenTurns, s, t) (Running, begin_attempt s, t)"
| aborted: "turn_step te cfg sh f (Running, s, t) (BetweenTurns, s, t)"
| failover: "turn_step te cfg sh f (Running, s, t) (BetweenTurns, pinned sh rq plan cand s, t)"
| escalate: "take_escalation cfg s = (Some esc, s') \<Longrightarrow>
    turn_step te cfg sh f (Running, s, t) (BetweenTurns, switched sh (sw_target esc) False s', t)"
| escalation_failed: "take_escalation cfg s = (Some esc, s') \<Longrightarrow> turn_step te cfg sh f (Running, s, t) (BetweenTurns, s', t)"
| answered: "take_escalation cfg s = (None, s') \<Longrightarrow> turn_step te cfg sh f (Running, s, t) (Ending, s', t)"
| settled: "turn_step te cfg sh f (Ending, s, t) (BetweenTurns, update_confidence_and_maybe_upgrade cfg sh f stop now wall s t)"

inductive_cases turn_stepE: "turn_step te cfg sh f (p, s, t) (p', s', t')"

text \<open>The bound holds, also once a request of the running attempt is taken up.\<close>

fun escalation_inv :: "session_config \<Rightarrow> turn_state \<Rightarrow> bool" where
  "escalation_inv cfg (p, s, t) \<longleftrightarrow>
     rs_escalations_done s \<le> et_max_escalations (sg_triggers cfg) \<and>
     (p = Running \<and> rs_escalation_requested s \<noteq> None \<longrightarrow> rs_escalations_done s < et_max_escalations (sg_triggers cfg)) \<and>
     0 \<le> rs_struggle s \<and> rs_struggle s \<le> 1"

text \<open>What watching a frame leaves alone: it asks for an escalation only below the bound.\<close>

definition watched :: "session_config \<Rightarrow> router_session \<Rightarrow> router_session \<Rightarrow> bool" where
  "watched cfg s s' \<longleftrightarrow>
     rs_escalations_done s' = rs_escalations_done s \<and> rs_struggle s' = rs_struggle s \<and> rs_pending_switch s' = rs_pending_switch s \<and>
     rs_pin s' = rs_pin s \<and> rs_coordinator s' = rs_coordinator s \<and>
     (rs_escalation_requested s' = rs_escalation_requested s \<or>
      rs_escalation_requested s = None \<and> rs_escalations_done s < et_max_escalations (sg_triggers cfg))"

lemma watched_trans: "watched cfg s s' \<Longrightarrow> watched cfg s' s'' \<Longrightarrow> watched cfg s s''"
  by (auto simp: watched_def)

lemma escalate_if_watched:
  assumes "cross \<Longrightarrow> may_escalate cfg s"
  shows "watched cfg s (fst (escalate_if cfg sh cross r now wall s t))"
  using assms by (auto simp: escalate_if_def request_escalation_def may_escalate_def watched_def split_beta Let_def split: option.split)

lemma notes_watched:
  "watched cfg s (fst (note_tool_activity cfg sh now wall s t))" "watched cfg s (fst (note_tool_failure cfg sh now wall s t))"
  "watched cfg s (fst (note_investigation cfg sh now wall s t))"
  unfolding note_tool_activity_def note_tool_failure_def note_investigation_def Let_def
  by (rule watched_trans [OF _ escalate_if_watched], simp add: watched_def, simp)+

lemma seen_watched:
  "watched cfg s (s\<lparr>rs_turn_counted_tools := x\<rparr>)" "watched cfg s (s\<lparr>rs_turn_failed_tools := x\<rparr>)"
  "watched cfg s (s\<lparr>rs_turn_side_effect := b\<rparr>)"
  by (simp_all add: watched_def)

lemma counts_watched:
  "watched cfg s (fst (count_investigation cfg sh i now wall s t))" "watched cfg s (fst (count_failure cfg sh i now wall s t))"
  using watched_trans [OF seen_watched(1) notes_watched(3)] watched_trans [OF seen_watched(2) notes_watched(2)]
  by (simp_all add: count_investigation_def count_failure_def Let_def seen_watched)

lemma native_watched: "watched cfg s (note_native_subagent te cfg update s)"
  by (simp add: note_native_subagent_def watched_def)

lemma frame_watched: "watched cfg s (fst (observe_tool_frame te cfg sh update now wall s t))"
proof -
  have refl: "watched cfg s s" by (simp add: watched_def)
  have called: "watched cfg s (fst (let (s', t') = note_tool_activity cfg sh now wall s t in (note_native_subagent te cfg update s', t')))"
    using watched_trans [OF notes_watched(1) native_watched] by (simp add: split_beta Let_def)
  have sorted_in: "watched cfg s1 (fst (case classify_tool te update of
      SideEffect \<Rightarrow> (s1\<lparr>rs_turn_side_effect := True\<rparr>, t1) | Investigation \<Rightarrow> count_investigation cfg sh i now wall s1 t1 | Defer \<Rightarrow> (s1, t1)))" for s1 t1 i
    by (simp add: seen_watched counts_watched watched_def split: tool_class.split) (simp add: watched_def [symmetric] counts_watched)
  have failed: "watched cfg s1 (fst (if b then count_failure cfg sh i now wall s1 t1 else (s1, t1)))" for b s1 t1 i
    using counts_watched(2) by (simp add: watched_def [of cfg s1 s1])
  let ?su = "unwrap_or (get_str update ''sessionUpdate'') []"
  have begun: "watched cfg s (fst (if ?su = ''tool_call''
      then let (s', t') = note_tool_activity cfg sh now wall s t in (note_native_subagent te cfg update s', t') else (s, t)))"
    using called refl by simp
  show ?thesis
  proof (cases "?su = ''tool_call'' \<or> ?su = ''tool_call_update''")
    case True
    then show ?thesis
      unfolding observe_tool_frame_def Let_def split_beta
      using watched_trans [OF begun [unfolded Let_def split_beta] watched_trans [OF sorted_in failed]] by (simp add: Let_def split_beta)
  qed (simp add: observe_tool_frame_def refl)
qed

lemma turn_step_keeps: "turn_step te cfg sh f x y \<Longrightarrow> escalation_inv cfg x \<Longrightarrow> escalation_inv cfg y"
proof (induction rule: turn_step.induct)
  case (frame p s t update now wall)
  then show ?case using frame_watched [of cfg s te sh update now wall t]
    by (cases "observe_tool_frame te cfg sh update now wall s t") (auto simp: watched_def)
next
  case (settled s t stop now wall)
  obtain s' t' where r: "update_confidence_and_maybe_upgrade cfg sh f stop now wall s t = (s', t')" by fastforce
  have "0 \<le> rs_struggle (snd (record_outcome stop s))" "rs_struggle (snd (record_outcome stop s)) \<le> 1"
    using settled outcome_struggle by auto
  with r settled have "escalation_inv cfg (BetweenTurns, s', t')" by (cases rule: post_turn_cases) auto
  then show ?case by (simp only: r)
qed (auto simp: queue_usage_cordon_escape_def queue_usage_cordon_recovery_def take_pending_switch_def take_escalation_def switched_def
    pinned_def begin_attempt_def Let_def split_beta opt_filter_Some_iff split: option.splits if_splits)

interpretation turns: step_invariant "turn_step te cfg sh f" "escalation_inv cfg" for te cfg sh f
  by unfold_locales (rule turn_step_keeps)

text \<open>
  C13. Over any sequence of turns, frames, switches and outages from a fresh session, the number of
  escalations stays within the configured bound, an escalation asked for during an attempt can be
  counted without passing it, and the struggle score stays between zero and one.
\<close>
theorem escalations_bounded:
  assumes "(turn_step te cfg sh f)\<^sup>*\<^sup>* (BetweenTurns, s0, t0) (p, s, t)" and "rs_escalations_done s0 = 0" and "rs_struggle s0 = 0"
  shows "rs_escalations_done s \<le> et_max_escalations (sg_triggers cfg) \<and> 0 \<le> rs_struggle s \<and> rs_struggle s \<le> 1 \<and>
    (p = Running \<and> fst (take_escalation cfg s) \<noteq> None \<longrightarrow>
       rs_escalations_done (snd (take_escalation cfg s)) = rs_escalations_done s + 1 \<and>
       rs_escalations_done (snd (take_escalation cfg s)) \<le> et_max_escalations (sg_triggers cfg))"
proof -
  have "escalation_inv cfg (BetweenTurns, s0, t0)" using assms(2,3) by simp
  then have "escalation_inv cfg (p, s, t)" by (rule turns.reachable_keeps [OF assms(1)])
  then show ?thesis by (auto simp: take_escalation_def Let_def opt_filter_Some_iff split: if_splits)
qed

section \<open>Witnesses\<close>

text \<open>The pinned account is capped; the other one is cheaper and rated.\<close>

definition rated_runtime :: candidate_runtime where
  "rated_runtime = sample_runtime\<lparr>cr_id := second_seat, cr_cost_rank := 0, cr_config_index := 1\<rparr>"

definition rated_seats :: shared_state where
  "rated_seats = two_seats\<lparr>sh_candidates := [sample_runtime, rated_runtime],
     sh_scores := \<lparr>tbl_entries = [(''*'', scores_default\<lparr>rsc_default_quality := 2\<rparr>)], tbl_pinned = []\<rparr>\<rparr>"

definition elevated_session :: router_session where
  "elevated_session = sample_session\<lparr>rs_pin := Some sample_seat_id, rs_elevation := Some ''auto-upgrade'', rs_quiet_turns := 1\<rparr>"

definition struggling_session :: router_session where
  "struggling_session = sample_session\<lparr>rs_strategy := Escalation, rs_pin := Some sample_seat_id, rs_pinned_quality := 1 / 2\<rparr>"

lemmas rated_defs = rated_seats_def rated_runtime_def two_seats_def second_agent_def second_seat_def capped_tracker_def

lemma rated_quality: "quality (candidate_scores rated_seats i) CodingGeneral = 2"
proof -
  have star: "list_ex (glob_match []) (tails x)" for x
    using glob_spec.star [OF glob_spec.nil, of x] glob_match_iff [of "''*''" x] by simp
  have "sh_pinned_versions rated_seats = Map.empty" "tbl_pinned (sh_scores rated_seats) = []"
    "tbl_entries (sh_scores rated_seats) = [(''*'', scores_default\<lparr>rsc_default_quality := 2\<rparr>)]"
    by (simp_all add: rated_seats_def two_seats_def sample_shared_def)
  then show ?thesis
    by (simp add: candidate_scores_def resolve_version_def pinned_version_def score_lookup_def lookup_exact_def Let_def star quality_def scores_default_def)
qed

lemma rated_pool:
  obtains v where "fst (eligible_views rated_seats caps_default CodingGeneral 5 5 capped_tracker) = [v]" "cv_id v = second_seat"
    "cv_cost_rank v = 0" "cv_quality v = 2"
proof -
  let ?pr = "pool_request_default caps_default CodingGeneral 5 5"
  have "passes rated_seats ?pr capped_tracker rated_runtime"
    by (simp add: passes_def static_gates_def tracker_open_def is_excluded_def candidate_matches_def routing_disabled_def auth_rejection_def
        find_agent_def satisfied_by_def is_quarantined_at_def cordon_active_at_def usage_cordon_at_def model_outage_def seat_exhausted_at_def
        availability_at_def lineage_of_def rated_defs candidate_display_def sample_router_defs)
  moreover have "\<not> passes rated_seats ?pr capped_tracker sample_runtime"
    by (simp add: passes_def tracker_open_def usage_cordon_at_def capped_tracker_def sample_router_defs)
  ultimately have "filter (passes rated_seats ?pr capped_tracker) (routeable_candidates_inner rated_seats (pr_explicit_pick ?pr)) = [rated_runtime]"
    by (simp add: routeable_candidates_inner_def rated_seats_def rated_runtime_def sample_runtime_def pool_request_default_def)
  then obtain v where v: "fst (pool_views rated_seats ?pr (routeable_candidates_inner rated_seats (pr_explicit_pick ?pr)) capped_tracker) = [v]"
      "cv_id v = second_seat" "seat_view ?pr capped_tracker v"
    using pool_views_exact [of rated_seats ?pr "routeable_candidates_inner rated_seats (pr_explicit_pick ?pr)" capped_tracker]
    by (auto simp: map_eq_Cons_conv rated_runtime_def)
  have "\<not> cv_on_overage v"
    using v(3) by (simp add: seat_view_def availability_at_def capped_tracker_def fresh_tracker_def tracker_new_def)
  then have "map view_key (fst (eligible_views rated_seats caps_default CodingGeneral 5 5 capped_tracker)) = [view_key v]"
    unfolding eligible_views_def eligible_keys v(1) by (simp add: prioritize_single rated_seats_def two_seats_def second_agent_def sample_agent_def)
  then obtain u where u: "fst (eligible_views rated_seats caps_default CodingGeneral 5 5 capped_tracker) = [u]" "cv_id u = second_seat"
    using v(2) by (auto simp: map_eq_Cons_conv view_key_def)
  then have "view_key u \<in> runtime_key rated_seats (pr_class ?pr) ` set (sh_candidates rated_seats)"
    by (intro eligible_key [of u rated_seats ?pr "\<lambda>_. True" capped_tracker]) (simp add: eligible_views_def)
  then have "view_key u \<in> {runtime_key rated_seats CodingGeneral sample_runtime, runtime_key rated_seats CodingGeneral rated_runtime}"
    by (simp add: rated_seats_def pool_request_default_def)
  then have "cv_cost_rank u = 0 \<and> cv_quality u = 2"
    using u(2) by (auto simp: view_key_def runtime_key_def rated_quality rated_runtime_def second_seat_def sample_runtime_def sample_seat_id_def)
  with u that show thesis by blast
qed

lemma rated_others:
  assumes "rs_excluded s = []" and "session_class s = CodingGeneral"
  obtains v where "fst (other_views rated_seats s sample_seat_id 5 5 capped_tracker) = [v]" "cv_id v = second_seat" "cv_cost_rank v = 0"
    "cv_quality v = 2"
proof -
  obtain v where v: "fst (eligible_views rated_seats caps_default CodingGeneral 5 5 capped_tracker) = [v]" "cv_id v = second_seat"
    "cv_cost_rank v = 0" "cv_quality v = 2"
    by (rule rated_pool)
  moreover have "second_seat \<noteq> sample_seat_id" by (simp add: second_seat_def sample_seat_id_def)
  ultimately have "fst (other_views rated_seats s sample_seat_id 5 5 capped_tracker) = [v]"
    using assms by (simp add: other_views_def split_beta Let_def is_excluded_def)
  with v that show thesis by blast
qed

lemma rated_escalation:
  assumes "rs_excluded s = []" and "session_class s = CodingGeneral" and "rs_pin s = Some sample_seat_id" and "rs_pinned_quality s = 1 / 2"
    and "\<not> rs_coordinator s"
  shows "fst (escalation_target cfg rated_seats s 5 5 capped_tracker) = Some second_seat"
proof -
  obtain v where v: "fst (other_views rated_seats s sample_seat_id 5 5 capped_tracker) = [v]" "cv_id v = second_seat" "cv_quality v = 2"
    using assms(1,2) by (rule rated_others)
  have "pick_above path (1 / 2) [v] (5 / 100) = Some v" for path
    by (cases path) (simp_all add: pick_above_def views_above_def v(3) quality_utility_def QUALITY_MIN_def QUALITY_MAX_def clamp_def)
  then show ?thesis using v assms(3,5) by (simp add: assms(4) escalation_target_def stronger_view_def split_beta Let_def coordinator_blocks_def)
qed

lemma rated_demotion:
  assumes "rs_excluded s = []" and "rs_task_class s = Some CodingGeneral" and "rs_pin s = Some sample_seat_id" and "rs_struggle s = 0"
    and "\<not> rs_coordinator s" and "rs_elevation_skill s = None" and "rs_task_complexity s = 1 / 2"
  shows "fst (demotion_target sample_session_config rated_seats s 5 5 capped_tracker) = Some second_seat"
proof -
  have cls: "session_class s = CodingGeneral" using assms(2) by (simp add: session_class_def)
  obtain v where v: "fst (other_views rated_seats s sample_seat_id 5 5 capped_tracker) = [v]" "cv_id v = second_seat" "cv_cost_rank v = 0" "cv_quality v = 2"
    using assms(1) cls by (rule rated_others)
  have "runtime_of rated_seats sample_seat_id = Some sample_runtime" by (simp add: runtime_of_def rated_seats_def sample_runtime_def)
  moreover have "holds_threshold sample_session_config s v"
    by (simp add: assms(4,7) holds_threshold_def cls v(4) sample_session_config_def quality_confidence_def quality_demand_def class_base_def
        QUALITY_MIN_def QUALITY_MAX_def clamp_def)
  ultimately show ?thesis
    using v assms(3,5,6) by (simp add: demotion_target_def split_beta Let_def skill_views_def elevation_route_def coordinator_blocks_def sample_runtime_def)
qed

text \<open>A turn that ends quietly expires the elevation; a refused turn escalates.\<close>

lemma elevated_demotes:
  assumes "rs_elevation s \<noteq> None" "rs_quiet_turns s = 1" "rs_pin s = Some sample_seat_id" "rs_pending_switch s = None" "rs_escalation_requested s = None"
    "rs_excluded s = []" "rs_task_class s = Some CodingGeneral" "rs_struggle s = 0" "\<not> rs_coordinator s" "rs_elevation_skill s = None"
    "rs_task_complexity s = 1 / 2" "rs_strategy s = AutoStrategy" "rs_turn_tool_failures s = 0"
  shows "\<exists>s' t' sw. update_confidence_and_maybe_upgrade sample_session_config rated_seats f EndTurn 5 5 s capped_tracker = (s', t') \<and>
    rs_pending_switch s' = Some sw \<and> sw_target sw = second_seat \<and> rs_elevation s' = None"
proof -
  let ?s1 = "s\<lparr>rs_turn_tool_failures := 0, rs_quiet_turns := 2\<rparr>"
  have out: "record_outcome EndTurn s = (0, ?s1)"
    using assms by (simp add: record_outcome_def turn_delta_def Let_def numeral_2_eq_2)
  have "fst (demotion_target sample_session_config rated_seats ?s1 5 5 capped_tracker) = Some second_seat"
    using assms by (intro rated_demotion) simp_all
  then obtain t1 where d: "demotion_target sample_session_config rated_seats ?s1 5 5 capped_tracker = (Some second_seat, t1)"
    by (metis fst_conv surj_pair)
  obtain y where "rs_elevation s = Some y" using assms(1) by auto
  then show ?thesis
    using d assms(2-) out by (simp add: update_confidence_and_maybe_upgrade_def maybe_demote_def maybe_upgrade_def switch_pending_def sample_session_config_def)
qed

theorem automatic_switch_sound_witness:
  "\<exists>s' t'. update_confidence_and_maybe_upgrade sample_session_config rated_seats (\<lambda>_ _. []) Refusal 5 5 struggling_session capped_tracker = (s', t') \<and>
     passing_seat rated_seats struggling_session 5 5 capped_tracker second_seat \<and>
     moved_up sample_session_config rated_seats 5 5 capped_tracker struggling_session s' second_seat \<and> rs_escalations_done s' = 1"
proof -
  let ?s1 = "struggling_session\<lparr>rs_turn_tool_failures := 0, rs_struggle := 1 / 2\<rparr>"
  have out: "record_outcome Refusal struggling_session = (0, ?s1)"
    by (simp add: record_outcome_def turn_delta_def Let_def struggling_session_def sample_session_def)
  have "fst (escalation_target sample_session_config rated_seats ?s1 5 5 capped_tracker) = Some second_seat"
    by (rule rated_escalation) (simp_all add: struggling_session_def sample_session_def session_class_def)
  then obtain t1 where d: "escalation_target sample_session_config rated_seats ?s1 5 5 capped_tracker = (Some second_seat, t1)"
    by (metis fst_conv surj_pair)
  have reasons: "escalation_reasons sample_session_config Refusal 0 \<noteq> []" "et_max_escalations (sg_triggers sample_session_config) = 3"
    by (simp_all add: escalation_reasons_def sample_session_defs)
  have fields: "rs_pending_switch struggling_session = None" "rs_strategy struggling_session = Escalation" "rs_escalations_done struggling_session = 0"
    "rs_elevation struggling_session = None" "rs_pin struggling_session = Some sample_seat_id"
    by (simp_all add: struggling_session_def sample_session_def)
  have demote: "maybe_demote sample_session_config rated_seats 5 5 ?s1 capped_tracker = (?s1, capped_tracker)" by (simp add: maybe_demote_def Let_def fields)
  moreover have "fst (escalation_post_turn sample_session_config rated_seats Refusal 0 5 5 ?s1 capped_tracker) =
      (elevate ''escalation'' (''escalation: '' @ join_strs '', '' (escalation_reasons sample_session_config Refusal 0)) second_seat ?s1)\<lparr>rs_escalations_done := 1\<rparr>"
    using reasons by (simp add: escalation_post_turn_def Let_def fields d)
  ultimately obtain s' t' reason where
    r: "update_confidence_and_maybe_upgrade sample_session_config rated_seats (\<lambda>_ _. []) Refusal 5 5 struggling_session capped_tracker = (s', t')"
    and s'0: "s' = (elevate ''escalation'' reason second_seat ?s1)\<lparr>rs_escalations_done := 1\<rparr>"
    using out fields by (cases "escalation_post_turn sample_session_config rated_seats Refusal 0 5 5 ?s1 capped_tracker")
      (simp add: update_confidence_and_maybe_upgrade_def)
  have s': "rs_escalations_done s' = 1" by (simp add: s'0)
  obtain sw where sw: "rs_pending_switch s' = Some sw" "sw_target sw = second_seat" by (simp add: s'0 elevate_def)
  have "snd (maybe_demote sample_session_config rated_seats 5 5 (snd (record_outcome Refusal struggling_session)) capped_tracker) = capped_tracker"
    by (simp add: out demote)
  from automatic_switch_sound [OF r, unfolded this] fields sw s'
  have "passing_seat rated_seats struggling_session 5 5 capped_tracker second_seat \<and>
    moved_up sample_session_config rated_seats 5 5 capped_tracker struggling_session s' second_seat" by auto
  with r s' show ?thesis by blast
qed

text \<open>One failed tool call is enough here to ask for the escalation of a running attempt.\<close>

definition eager_config :: session_config where
  "eager_config = sample_session_config\<lparr>sg_triggers := sample_triggers\<lparr>et_after_tool_failures := 1\<rparr>\<rparr>"

definition failed_frame :: json where
  "failed_frame = JObject [(''sessionUpdate'', JString ''tool_call_update''), (''status'', JString ''failed'')]"

lemma failed_frame_escalates:
  "map_option sw_target (rs_escalation_requested (fst (observe_tool_frame sample_text_env eager_config rated_seats failed_frame 5 5
     (begin_attempt struggling_session) capped_tracker))) = Some second_seat"
proof -
  let ?s = "(begin_attempt struggling_session)\<lparr>rs_turn_tool_failures := 1\<rparr>"
  have d: "fst (escalation_target eager_config rated_seats ?s 5 5 capped_tracker) = Some second_seat"
    by (rule rated_escalation) (simp_all add: begin_attempt_def struggling_session_def sample_session_def session_class_def)
  have "may_escalate eager_config ?s"
    by (simp add: may_escalate_def begin_attempt_def struggling_session_def sample_session_def eager_config_def sample_session_config_def sample_triggers_def)
  moreover have "rs_turn_failed_tools (begin_attempt s) = []" "rs_turn_tool_failures (begin_attempt s) = 0" for s
    by (simp_all add: begin_attempt_def)
  moreover have "et_after_tool_failures (sg_triggers eager_config) = 1" by (simp add: eager_config_def)
  ultimately show ?thesis
    using d by (simp add: observe_tool_frame_def failed_frame_def classify_tool_def get_str_def count_failure_def fresh_tool_def remember_tool_def
        note_tool_failure_def escalate_if_def request_escalation_def split_beta Let_def)
qed

theorem escalations_bounded_witness:
  "\<exists>s t. (turn_step sample_text_env eager_config rated_seats (\<lambda>_ _. []))\<^sup>*\<^sup>* (BetweenTurns, struggling_session, capped_tracker) (Running, s, t) \<and>
     fst (take_escalation eager_config s) \<noteq> None \<and>
     rs_escalations_done (snd (take_escalation eager_config s)) \<le> et_max_escalations (sg_triggers eager_config)"
proof -
  let ?step = "turn_step sample_text_env eager_config rated_seats (\<lambda>_ _. [])"
  obtain s t where f: "observe_tool_frame sample_text_env eager_config rated_seats failed_frame 5 5 (begin_attempt struggling_session) capped_tracker = (s, t)"
    by fastforce
  have "?step (BetweenTurns, struggling_session, capped_tracker) (Running, begin_attempt struggling_session, capped_tracker)" by (rule turn_step.attempt)
  moreover have "?step (Running, begin_attempt struggling_session, capped_tracker) (Running, s, t)"
    using turn_step.frame [of sample_text_env eager_config rated_seats "\<lambda>_ _. []" Running "begin_attempt struggling_session" capped_tracker failed_frame 5 5] f
    by simp
  ultimately have run: "?step\<^sup>*\<^sup>* (BetweenTurns, struggling_session, capped_tracker) (Running, s, t)" by (rule converse_rtranclp_into_rtranclp [OF _ r_into_rtranclp])
  obtain esc where esc: "rs_escalation_requested s = Some esc" using failed_frame_escalates f by auto
  have "\<not> rs_coordinator s"
    using frame_watched [of eager_config "begin_attempt struggling_session" sample_text_env rated_seats failed_frame 5 5 capped_tracker] f
    by (simp add: watched_def begin_attempt_def struggling_session_def sample_session_def)
  then have "fst (take_escalation eager_config s) \<noteq> None"
    by (simp add: take_escalation_def esc Let_def refuse_coordinator_switch_def coordinator_blocks_def)
  then show ?thesis
    using run escalations_bounded [OF run] by (auto simp: struggling_session_def sample_session_def)
qed

section \<open>Limits of the code\<close>

text \<open>
  A switch the human asks for leaves the elevation in place, so the explicit pick is demoted to a
  cheaper model after the quiet turns, like an automatic one.
\<close>

lemma user_pick_demoted:
  "\<exists>s. s = switched rated_seats sample_seat_id True elevated_session \<and> rs_override s = Some sample_seat_id \<and> rs_override_source s = Some UserPick \<and>
     rs_pin s = Some sample_seat_id \<and> rs_pin_user_pick s \<and>
     map_option sw_target (rs_pending_switch (fst (update_confidence_and_maybe_upgrade sample_session_config rated_seats f EndTurn 5 5 s capped_tracker))) =
       Some second_seat"
proof -
  let ?s = "switched rated_seats sample_seat_id True elevated_session"
  have "\<exists>s' t' sw. update_confidence_and_maybe_upgrade sample_session_config rated_seats f EndTurn 5 5 ?s capped_tracker = (s', t') \<and>
    rs_pending_switch s' = Some sw \<and> sw_target sw = second_seat \<and> rs_elevation s' = None"
    by (rule elevated_demotes) (simp_all add: switched_def elevated_session_def sample_session_def)
  then have "map_option sw_target (rs_pending_switch (fst (update_confidence_and_maybe_upgrade sample_session_config rated_seats f EndTurn 5 5 ?s capped_tracker))) =
       Some second_seat" by auto
  moreover have "rs_override ?s = Some sample_seat_id \<and> rs_override_source ?s = Some UserPick \<and> rs_pin ?s = Some sample_seat_id \<and> rs_pin_user_pick ?s"
    by (simp add: switched_def Let_def)
  ultimately show ?thesis by blast
qed

text \<open>A separator without a space after it hides the second command from the list of mutators.\<close>

lemma chained_removal_counts_as_reading:
  "is_read_only_command sample_text_env ''ls a;rm x''" "\<not> is_read_only_command sample_text_env ''ls a; rm x''"
  by code_simp+

end
