(* ===== verification/Usage_Cache.thy ===== *)
theory Usage_Cache
  imports Failure_Limits
begin

text \<open>
  The usage snapshot that all router processes of a machine share (\<open>usage_cache.rs\<close>): the refresh
  policy with its backoff, the lock file with its breaking of stale locks, the cache-mediated
  fetch, and the protocol several processes run on the same two files. Times are seconds. What the
  provider answers, the credentials read again under the lock and the outcome of writes are
  arguments; the digest that names an account is not computed here.
\<close>

section \<open>Refresh policy\<close>

definition U64_MAX :: nat where "U64_MAX = 2 ^ 64 - 1"
definition U32_MAX :: nat where "U32_MAX = 2 ^ 32 - 1"

text \<open>Saturating arithmetic of the machine integers.\<close>

definition sat_mul :: "nat \<Rightarrow> nat \<Rightarrow> nat" where "sat_mul a b = min (a * b) U64_MAX"
definition sat_add :: "nat \<Rightarrow> nat \<Rightarrow> nat" where "sat_add a b = min (a + b) U64_MAX"

definition MAX_BACKOFF_SECS :: nat where "MAX_BACKOFF_SECS = 900"
definition LOCK_STALE_SECS :: nat where "LOCK_STALE_SECS = 60"

record usage_snapshot =
  sn_source :: string
  sn_account :: string
  sn_access_generation :: "string option"
  sn_fetched_at :: nat
  sn_attempted_at :: nat
  sn_consecutive_failures :: nat
  sn_last_error :: "string option"
  sn_payload :: "json option"

record cache_request =
  cq_account :: string
  cq_access_generation :: "string option"
  cq_access_token :: "string option"

datatype cached_usage =
    Success json
  | SuccessWithGeneration json string
  | Unknown "json option"

definition from_snapshot :: "usage_snapshot option \<Rightarrow> cached_usage" where
  "from_snapshot snap =
     (case snap of
        None \<Rightarrow> Unknown None
      | Some s \<Rightarrow> (case sn_payload s of
                     Some payload \<Rightarrow> if sn_last_error s = None then Success payload else Unknown (Some payload)
                   | None \<Rightarrow> Unknown None))"

definition from_snapshot_for :: "usage_snapshot option \<Rightarrow> cache_request \<Rightarrow> cached_usage" where
  "from_snapshot_for snap request =
     (case snap of
        None \<Rightarrow> Unknown None
      | Some s \<Rightarrow>
          (case sn_payload s of
             None \<Rightarrow> Unknown None
           | Some payload \<Rightarrow>
               if sn_last_error s \<noteq> None \<or> sn_access_generation s \<noteq> cq_access_generation request \<or> cq_access_generation request = None
               then Unknown (Some payload)
               else SuccessWithGeneration payload (unwrap_or (cq_access_generation request) [])))"

definition next_attempt_wait :: "nat \<Rightarrow> nat \<Rightarrow> nat" where
  "next_attempt_wait min_refresh consecutive_failures =
     min (sat_mul min_refresh (2 ^ min consecutive_failures 63)) (max MAX_BACKOFF_SECS min_refresh)"

definition should_fetch :: "usage_snapshot option \<Rightarrow> nat \<Rightarrow> string \<Rightarrow> nat \<Rightarrow> bool" where
  "should_fetch cache now fingerprint min_refresh =
     (case cache of
        None \<Rightarrow> True
      | Some snap \<Rightarrow>
          if sn_account snap \<noteq> fingerprint then True
          else sat_add (sn_attempted_at snap) (next_attempt_wait min_refresh (sn_consecutive_failures snap)) \<le> now)"

definition should_fetch_with_access_generation :: "usage_snapshot option \<Rightarrow> nat \<Rightarrow> string \<Rightarrow> string option \<Rightarrow> nat \<Rightarrow> bool" where
  "should_fetch_with_access_generation cache now account access_generation min_refresh =
     (case cache of
        None \<Rightarrow> True
      | Some snap \<Rightarrow>
          if sn_account snap \<noteq> account \<or> sn_access_generation snap \<noteq> access_generation then True
          else sat_add (sn_attempted_at snap) (next_attempt_wait min_refresh (sn_consecutive_failures snap)) \<le> now)"

definition on_success_with_access_generation :: "string \<Rightarrow> string \<Rightarrow> string option \<Rightarrow> nat \<Rightarrow> json \<Rightarrow> usage_snapshot" where
  "on_success_with_access_generation source account access_generation now payload =
     \<lparr>sn_source = source, sn_account = account, sn_access_generation = access_generation, sn_fetched_at = now,
      sn_attempted_at = now, sn_consecutive_failures = 0, sn_last_error = None, sn_payload = Some payload\<rparr>"

definition on_success :: "string \<Rightarrow> string \<Rightarrow> nat \<Rightarrow> json \<Rightarrow> usage_snapshot" where
  "on_success source fingerprint now payload = on_success_with_access_generation source fingerprint None now payload"

definition on_failure_with_access_generation ::
  "string \<Rightarrow> usage_snapshot option \<Rightarrow> string \<Rightarrow> string option \<Rightarrow> nat \<Rightarrow> string \<Rightarrow> usage_snapshot" where
  "on_failure_with_access_generation source prev account access_generation now error =
     (case opt_filter (\<lambda>p. sn_account p = account) prev of
        Some p \<Rightarrow> p\<lparr>sn_attempted_at := now, sn_consecutive_failures := min (sn_consecutive_failures p + 1) U32_MAX,
                    sn_last_error := Some error, sn_access_generation := opt_or access_generation (sn_access_generation p)\<rparr>
      | None \<Rightarrow> \<lparr>sn_source = source, sn_account = account, sn_access_generation = access_generation, sn_fetched_at = 0,
                 sn_attempted_at = now, sn_consecutive_failures = 1, sn_last_error = Some error, sn_payload = None\<rparr>)"

definition on_failure :: "string \<Rightarrow> usage_snapshot option \<Rightarrow> string \<Rightarrow> nat \<Rightarrow> string \<Rightarrow> usage_snapshot" where
  "on_failure source prev fingerprint now error = on_failure_with_access_generation source prev fingerprint None now error"

text \<open>What a passive reader reports: never a sibling's account, a reading from the future or another credential's.\<close>

definition read_agent_snapshot :: "usage_snapshot option \<Rightarrow> string \<Rightarrow> string option \<Rightarrow> nat \<Rightarrow> usage_snapshot option" where
  "read_agent_snapshot file account generation now =
     opt_filter (\<lambda>s. \<not> (sn_account s \<noteq> account \<or> now < sn_fetched_at s
        \<or> generation \<noteq> None \<and> sn_access_generation s \<noteq> None \<and> generation \<noteq> sn_access_generation s)) file"

section \<open>The lock file\<close>

record lock_file =
  lk_content :: string
  lk_mtime :: nat

record cache_fs =
  cf_file :: "usage_snapshot option"
  cf_lock :: "lock_file option"

definition lock_stale :: "nat \<Rightarrow> nat \<Rightarrow> lock_file \<Rightarrow> bool" where
  "lock_stale now stale_after l \<longleftrightarrow> lk_mtime l \<le> now \<and> stale_after < now - lk_mtime l"

text \<open>Exclusive creation; the token reaches the file unless that write fails.\<close>

definition create_lock :: "string \<Rightarrow> nat \<Rightarrow> bool \<Rightarrow> cache_fs \<Rightarrow> cache_fs" where
  "create_lock token now written fs = fs\<lparr>cf_lock := Some \<lparr>lk_content = (if written then token else []), lk_mtime = now\<rparr>\<rparr>"

text \<open>The rename to a scratch name and its removal.\<close>

definition break_lock :: "cache_fs \<Rightarrow> cache_fs" where
  "break_lock fs = fs\<lparr>cf_lock := None\<rparr>"

definition drop_guard :: "string \<Rightarrow> cache_fs \<Rightarrow> cache_fs" where
  "drop_guard token fs = (if is_some_and (cf_lock fs) (\<lambda>l. lk_content l = token) then fs\<lparr>cf_lock := None\<rparr> else fs)"

definition acquire_lock :: "string \<Rightarrow> nat \<Rightarrow> nat \<Rightarrow> nat \<Rightarrow> bool \<Rightarrow> cache_fs \<Rightarrow> bool \<times> cache_fs" where
  "acquire_lock token now created_at stale_after written fs =
     (case cf_lock fs of
        None \<Rightarrow> (True, create_lock token created_at written fs)
      | Some l \<Rightarrow> if \<not> lock_stale now stale_after l then (False, fs)
                  else (True, create_lock token created_at written (break_lock fs)))"

section \<open>The cache-mediated fetch\<close>

fun exact_401 :: "string \<Rightarrow> string \<Rightarrow> bool" where
  "exact_401 marker [] = False"
| "exact_401 marker (c # cs) =
     (starts_with (c # cs) marker \<and>
        (case drop (length marker) (c # cs) of [] \<Rightarrow> True | d # _ \<Rightarrow> \<not> (is_ascii_alphanumeric d \<or> d = CHR ''_''))
      \<or> exact_401 marker cs)"

definition MARKERS_401 :: "string list" where
  "MARKERS_401 = [''http 401'', ''http/1.1 401'', ''status 401'', ''status_code: 401'', ''returned error: 401'', ''error: 401'',
     ''401 unauthorized'', ''unauthorized (401)'']"

definition error_is_http_401 :: "text_env \<Rightarrow> string \<Rightarrow> bool" where
  "error_is_http_401 te text =
     (let lower = te_lowercase te text in trim lower = ''401'' \<or> list_ex (\<lambda>m. exact_401 m lower) MARKERS_401)"

definition classify_error :: "string \<Rightarrow> string" where
  "classify_error err = (if contains_str err ''429'' then ''HTTP 429'' else err)"

text \<open>
  What one call meets: the clock at its readings, the token of its lock, whether the directory can
  be written, the credentials read under the lock and again after a rejection, and the answers of
  the provider.
\<close>

record cache_io =
  io_looked :: nat
  io_locking :: nat
  io_locked :: nat
  io_rechecked :: nat
  io_finished :: nat
  io_token :: string
  io_lockable :: bool
  io_token_written :: bool
  io_snapshot_written :: bool
  io_reread :: "cache_request option"
  io_reread_401 :: "cache_request option"
  io_fetch :: "string option \<Rightarrow> string + json"
  io_fetch_again :: "string option \<Rightarrow> string + json"

definition serve :: "bool \<Rightarrow> usage_snapshot option \<Rightarrow> cache_request \<Rightarrow> cached_usage" where
  "serve generation_aware snap request = (if generation_aware then from_snapshot_for snap request else from_snapshot snap)"

definition fetch_outcome :: "text_env \<Rightarrow> cache_io \<Rightarrow> cache_request \<Rightarrow> cache_request \<times> (string + json)" where
  "fetch_outcome te io request =
     (let outcome = io_fetch io (cq_access_token request);
          rejected = (case outcome of Inl err \<Rightarrow> error_is_http_401 te err | Inr _ \<Rightarrow> False)
      in case opt_filter (\<lambda>current. rejected \<and>
                (cq_access_token current \<noteq> cq_access_token request \<or> cq_access_generation current \<noteq> cq_access_generation request) \<and>
                cq_access_generation current \<noteq> None) (io_reread_401 io) of
           Some current \<Rightarrow> (current, io_fetch_again io (cq_access_token current))
         | None \<Rightarrow> (request, outcome))"

definition attempt_snapshot :: "string \<Rightarrow> usage_snapshot option \<Rightarrow> cache_request \<Rightarrow> nat \<Rightarrow> string + json \<Rightarrow> usage_snapshot" where
  "attempt_snapshot source snap used now outcome =
     (case outcome of
        Inr payload \<Rightarrow> on_success_with_access_generation source (cq_account used) (cq_access_generation used) now payload
      | Inl err \<Rightarrow> on_failure_with_access_generation source snap (cq_account used) (cq_access_generation used) now (classify_error err))"

definition attempt_result :: "bool \<Rightarrow> cache_request \<Rightarrow> usage_snapshot \<Rightarrow> string + json \<Rightarrow> cached_usage" where
  "attempt_result generation_aware used s outcome =
     (case outcome of
        Inr payload \<Rightarrow> if generation_aware then SuccessWithGeneration payload (unwrap_or (cq_access_generation used) []) else Success payload
      | Inl _ \<Rightarrow> serve generation_aware (Some s) used)"

definition cached_usage_locked ::
  "text_env \<Rightarrow> cache_io \<Rightarrow> string \<Rightarrow> nat \<Rightarrow> bool \<Rightarrow> cache_fs \<Rightarrow> cached_usage \<times> cache_fs" where
  "cached_usage_locked te io source min_refresh generation_aware fs =
     (case io_reread io of
        None \<Rightarrow> (Unknown None, fs)
      | Some request \<Rightarrow>
          (let snap = cf_file fs in
           if \<not> should_fetch_with_access_generation snap (io_rechecked io) (cq_account request) (cq_access_generation request) min_refresh
           then (serve generation_aware snap request, fs)
           else let (used, outcome) = fetch_outcome te io request;
                    s = attempt_snapshot source snap used (io_finished io) outcome
                in (attempt_result generation_aware used s outcome,
                    if io_snapshot_written io then fs\<lparr>cf_file := Some s\<rparr> else fs)))"

definition cached_usage_at ::
  "text_env \<Rightarrow> cache_io \<Rightarrow> string \<Rightarrow> cache_request \<Rightarrow> nat \<Rightarrow> bool \<Rightarrow> cache_fs \<Rightarrow> cached_usage \<times> cache_fs" where
  "cached_usage_at te io source initial min_refresh generation_aware fs =
     (let snap = cf_file fs in
      if \<not> should_fetch_with_access_generation snap (io_looked io) (cq_account initial) (cq_access_generation initial) min_refresh
      then (serve generation_aware snap initial, fs)
      else let (held, fs1) = (if io_lockable io
                              then acquire_lock (io_token io) (io_locking io) (io_locked io) LOCK_STALE_SECS (io_token_written io) fs
                              else (False, fs))
           in if \<not> held then (serve generation_aware (opt_filter (\<lambda>s. sn_account s = cq_account initial) snap) initial, fs1)
              else let (result, fs2) = cached_usage_locked te io source min_refresh generation_aware fs1
                   in (result, drop_guard (io_token io) fs2))"

section \<open>Backoff\<close>

lemma wait_cases:
  assumes "min_refresh \<le> U64_MAX"
  shows "next_attempt_wait min_refresh n = min (min_refresh * 2 ^ min n 63) (max MAX_BACKOFF_SECS min_refresh)"
proof -
  have "max MAX_BACKOFF_SECS min_refresh \<le> U64_MAX" using assms by (simp add: MAX_BACKOFF_SECS_def U64_MAX_def)
  then show ?thesis by (simp add: next_attempt_wait_def sat_mul_def min.assoc min.absorb2)
qed


lemma wait_greatest: "next_attempt_wait min_refresh n \<le> max MAX_BACKOFF_SECS min_refresh"
  by (simp add: next_attempt_wait_def)

lemma wait_mono:
  assumes "m \<le> n"
  shows "next_attempt_wait min_refresh m \<le> next_attempt_wait min_refresh n"
proof -
  have "(2::nat) ^ min m 63 \<le> 2 ^ min n 63" using assms by (intro power_increasing) auto
  then have "min_refresh * 2 ^ min m 63 \<le> min_refresh * 2 ^ min n 63" by simp
  then show ?thesis unfolding next_attempt_wait_def sat_mul_def by (intro min.mono order_refl)
qed

lemma wait_doubles:
  assumes "min_refresh \<le> U64_MAX" and "n < 63" and "min_refresh * 2 ^ Suc n \<le> MAX_BACKOFF_SECS"
  shows "next_attempt_wait min_refresh (Suc n) = 2 * next_attempt_wait min_refresh n"
  using assms by (simp add: wait_cases min.absorb1 min.absorb2)


section \<open>Several processes\<close>

text \<open>
  Where a process is in its call: it saw that a refresh is due, judged a lock stale and is about to rename it away, has done so, holds
  the lock, is fetching (with the request that was due, the one in use and the snapshot read under
  the lock), or is about to drop the guard. \<open>Trying\<close> carries the clock reading the age of the lock
  is compared with, \<open>Breaking\<close> the lock that was judged; the rename takes whatever lock is there.
\<close>

datatype cache_phase =
    Resting
  | Trying nat
  | Breaking lock_file
  | Retrying
  | Holding
  | Fetching cache_request cache_request "usage_snapshot option"
  | Leaving



record cache_state =
  cs_fs :: cache_fs
  cs_clock :: nat
  cs_procs :: "nat \<Rightarrow> cache_phase"

abbreviation move_to :: "nat \<Rightarrow> cache_phase \<Rightarrow> cache_state \<Rightarrow> cache_state" where
  "move_to p ph c \<equiv> c\<lparr>cs_procs := (cs_procs c)(p := ph)\<rparr>"

definition due :: "usage_snapshot option \<Rightarrow> nat \<Rightarrow> cache_request \<Rightarrow> nat \<Rightarrow> bool" where
  "due snap now request min_refresh = should_fetch_with_access_generation snap now (cq_account request) (cq_access_generation request) min_refresh"

inductive cache_step :: "string \<Rightarrow> nat \<Rightarrow> (nat \<Rightarrow> string) \<Rightarrow> cache_state \<Rightarrow> cache_state \<Rightarrow> bool" for source min_refresh tok where
  clock: "cs_clock c \<le> now \<Longrightarrow> cache_step source min_refresh tok c (c\<lparr>cs_clock := now\<rparr>)"
| look: "cs_procs c p = Resting \<Longrightarrow> due (cf_file (cs_fs c)) (cs_clock c) request min_refresh \<Longrightarrow>
    cache_step source min_refresh tok c (move_to p (Trying (cs_clock c)) c)"
| aim: "cs_procs c p = Trying now \<Longrightarrow> cache_step source min_refresh tok c (move_to p (Trying (cs_clock c)) c)"
| take: "cs_procs c p = Trying now \<Longrightarrow> cf_lock (cs_fs c) = None \<Longrightarrow>
    cache_step source min_refresh tok c (move_to p Holding (c\<lparr>cs_fs := create_lock (tok p) (cs_clock c) written (cs_fs c)\<rparr>))"
| busy: "cs_procs c p = Trying now \<Longrightarrow> cf_lock (cs_fs c) = Some l \<Longrightarrow> \<not> lock_stale now LOCK_STALE_SECS l \<Longrightarrow>
    cache_step source min_refresh tok c (move_to p Resting c)"
| denied: "cs_procs c p = Trying now \<or> cs_procs c p = Retrying \<Longrightarrow> cache_step source min_refresh tok c (move_to p Resting c)"
| stale: "cs_procs c p = Trying now \<Longrightarrow> cf_lock (cs_fs c) = Some l \<Longrightarrow> lock_stale now LOCK_STALE_SECS l \<Longrightarrow>
    cache_step source min_refresh tok c (move_to p (Breaking l) c)"
| broken: "cs_procs c p = Breaking l \<Longrightarrow>
    cache_step source min_refresh tok c (move_to p Retrying (c\<lparr>cs_fs := break_lock (cs_fs c)\<rparr>))"
| retake: "cs_procs c p = Retrying \<Longrightarrow> cf_lock (cs_fs c) = None \<Longrightarrow>
    cache_step source min_refresh tok c (move_to p Holding (c\<lparr>cs_fs := create_lock (tok p) (cs_clock c) written (cs_fs c)\<rparr>))"
| lost: "cs_procs c p = Retrying \<Longrightarrow> cf_lock (cs_fs c) \<noteq> None \<Longrightarrow> cache_step source min_refresh tok c (move_to p Resting c)"
| recheck: "cs_procs c p = Holding \<Longrightarrow> due (cf_file (cs_fs c)) (cs_clock c) request min_refresh \<Longrightarrow>
    cache_step source min_refresh tok c (move_to p (Fetching request request (cf_file (cs_fs c))) c)"
| skip: "cs_procs c p = Holding \<Longrightarrow> cache_step source min_refresh tok c (move_to p Leaving c)"
| rotate: "cs_procs c p = Fetching request used snap \<Longrightarrow> cache_step source min_refresh tok c (move_to p (Fetching request current snap) c)"
| store: "cs_procs c p = Fetching request used snap \<Longrightarrow>
    cache_step source min_refresh tok c
      (move_to p Leaving (c\<lparr>cs_fs := (cs_fs c)\<lparr>cf_file := Some (attempt_snapshot source snap used (cs_clock c) outcome)\<rparr>\<rparr>))"
| unstored: "cs_procs c p = Fetching request used snap \<Longrightarrow> cache_step source min_refresh tok c (move_to p Leaving c)"
| leave: "cs_procs c p = Leaving \<Longrightarrow>
    cache_step source min_refresh tok c (move_to p Resting (c\<lparr>cs_fs := drop_guard (tok p) (cs_fs c)\<rparr>))"
| crash: "cache_step source min_refresh tok c (move_to p Resting c)"









definition cache_start :: "cache_fs \<Rightarrow> nat \<Rightarrow> cache_state" where
  "cache_start fs now = \<lparr>cs_fs = fs, cs_clock = now, cs_procs = \<lambda>_. Resting\<rparr>"


section \<open>One call as steps of the protocol\<close>

text \<open>The readings of the clock of a call follow each other.\<close>

definition clock_order :: "cache_io \<Rightarrow> bool" where
  "clock_order io \<longleftrightarrow> io_looked io \<le> io_locking io \<and> io_locking io \<le> io_locked io \<and> io_locked io \<le> io_rechecked io \<and>
     io_rechecked io \<le> io_finished io"

abbreviation "at_clock fs now procs \<equiv> \<lparr>cs_fs = fs, cs_clock = now, cs_procs = procs\<rparr>"

lemma clock_steps: "now \<le> now' \<Longrightarrow> (cache_step source m tok)\<^sup>*\<^sup>* (at_clock fs now procs) (at_clock fs now' procs)"
  using cache_step.clock [of "at_clock fs now procs" now' source m tok] by (simp add: r_into_rtranclp)

lemma one_step:
  "cache_step source m tok c c' \<Longrightarrow> c' = c'' \<Longrightarrow> (cache_step source m tok)\<^sup>*\<^sup>* c c''"
  by simp

lemma locked_steps:
  assumes "cached_usage_locked te io source m aware fs = (r, fs')" and "procs p = Holding" and "io_rechecked io \<le> io_finished io"
  shows "(cache_step source m tok)\<^sup>*\<^sup>* (at_clock fs (io_rechecked io) procs) (at_clock fs' (io_finished io) (procs(p := Leaving)))"
proof -
  let ?steps = "(cache_step source m tok)\<^sup>*\<^sup>*"
  let ?c = "at_clock fs (io_rechecked io) procs"
  have skipped: "?steps ?c (at_clock fs (io_finished io) (procs(p := Leaving)))"
    using cache_step.skip [of ?c p source m tok] assms(2) clock_steps [OF assms(3)]
    by (simp add: converse_rtranclp_into_rtranclp)
  consider (none) "io_reread io = None" | (rest) request where "io_reread io = Some request" "\<not> due (cf_file fs) (io_rechecked io) request m"
    | (fetch) request where "io_reread io = Some request" "due (cf_file fs) (io_rechecked io) request m"
    by (cases "io_reread io") auto
  then show ?thesis
  proof cases
    case none
    then show ?thesis using assms(1) skipped by (simp add: cached_usage_locked_def)
  next
    case rest
    then show ?thesis using assms(1) skipped by (simp add: cached_usage_locked_def due_def)
  next
    case fetch
    obtain used outcome where o: "fetch_outcome te io request = (used, outcome)" by fastforce
    let ?snap = "cf_file fs" let ?f = "\<lambda>u. procs(p := Fetching request u ?snap)"
    have "?steps ?c (at_clock fs (io_rechecked io) (?f request))"
      using cache_step.recheck [of ?c p request m source tok] assms(2) fetch(2) by (simp add: r_into_rtranclp)
    also have "?steps \<dots> (at_clock fs (io_rechecked io) (?f used))"
      using cache_step.rotate [of "at_clock fs (io_rechecked io) (?f request)" p request request ?snap source m tok used]
      by (simp add: r_into_rtranclp)
    also have "?steps \<dots> (at_clock fs (io_finished io) (?f used))" by (rule clock_steps [OF assms(3)])
    also have "?steps \<dots> (at_clock fs' (io_finished io) (procs(p := Leaving)))"
    proof (cases "io_snapshot_written io")
      case True
      then have "fs' = fs\<lparr>cf_file := Some (attempt_snapshot source ?snap used (io_finished io) outcome)\<rparr>"
        using assms(1) fetch o by (simp add: cached_usage_locked_def due_def Let_def)
      then show ?thesis
        using cache_step.store [of "at_clock fs (io_finished io) (?f used)" p request used ?snap source m tok outcome] by (simp add: r_into_rtranclp)
    next
      case False
      then have "fs' = fs" using assms(1) fetch o by (simp add: cached_usage_locked_def due_def Let_def)
      then show ?thesis
        using cache_step.unstored [of "at_clock fs (io_finished io) (?f used)" p request used ?snap source m tok] by (simp add: r_into_rtranclp)
    qed
    finally show ?thesis .
  qed
qed

lemma acquire_steps:
  assumes "acquire_lock (tok p) now locked LOCK_STALE_SECS written fs = (b, fs')" and "procs p = Trying now" and "now \<le> locked"
  shows "(cache_step source m tok)\<^sup>*\<^sup>* (at_clock fs now procs) (at_clock fs' locked (procs(p := if b then Holding else Resting)))"
proof -
  let ?steps = "(cache_step source m tok)\<^sup>*\<^sup>*"
  note wait = clock_steps [OF assms(3), of source m tok]
  consider (none) "cf_lock fs = None" | (young) l where "cf_lock fs = Some l" "\<not> lock_stale now LOCK_STALE_SECS l"
    | (stale) l where "cf_lock fs = Some l" "lock_stale now LOCK_STALE_SECS l"
    by (cases "cf_lock fs") auto
  then show ?thesis
  proof cases
    case none
    have "?steps (at_clock fs locked procs) (at_clock (create_lock (tok p) locked written fs) locked (procs(p := Holding)))"
      using cache_step.take [of "at_clock fs locked procs" p now source m tok written] assms(2) none by (simp add: r_into_rtranclp)
    then show ?thesis using wait [of fs procs] assms(1) none by (auto simp: acquire_lock_def)
  next
    case (young l)
    have "?steps (at_clock fs now procs) (at_clock fs now (procs(p := Resting)))"
      using cache_step.busy [of "at_clock fs now procs" p now l source m tok] assms(2) young by (simp add: r_into_rtranclp)
    then show ?thesis using wait [of fs "procs(p := Resting)"] assms(1) young by (auto simp: acquire_lock_def)
  next
    case (stale l)
    let ?gone = "break_lock fs"
    have "?steps (at_clock fs now procs) (at_clock fs now (procs(p := Breaking l)))"
      using cache_step.stale [of "at_clock fs now procs" p now l source m tok] assms(2) stale by (simp add: r_into_rtranclp)
    also have "?steps \<dots> (at_clock ?gone now (procs(p := Retrying)))"
      using cache_step.broken [of "at_clock fs now (procs(p := Breaking l))" p l source m tok] by (simp add: r_into_rtranclp)
    also have "?steps \<dots> (at_clock ?gone locked (procs(p := Retrying)))" by (rule wait)
    also have "?steps \<dots> (at_clock (create_lock (tok p) locked written ?gone) locked (procs(p := Holding)))"
      using cache_step.retake [of "at_clock ?gone locked (procs(p := Retrying))" p source m tok written]
      by (simp add: r_into_rtranclp break_lock_def)
    finally show ?thesis using assms(1) stale by (auto simp: acquire_lock_def)
  qed
qed

text \<open>
  Refinement. A whole call of the cache, whatever it meets, is a sequence of steps of the
  protocol by its process, from where it rests to where it rests again with the files as the call
  leaves them; so what holds of the protocol holds of the calls.
\<close>
lemma cached_usage_refines:
  assumes "cached_usage_at te io source initial m aware fs = (r, fs')" and "clock_order io" and "procs p = Resting" and "tok p = io_token io"
  shows "\<exists>now. (cache_step source m tok)\<^sup>*\<^sup>* (at_clock fs (io_looked io) procs) (at_clock fs' now procs)"
proof (cases "due (cf_file fs) (io_looked io) initial m")
  case False
  then show ?thesis using assms(1) by (auto simp: cached_usage_at_def due_def)
next
  case True
  let ?steps = "(cache_step source m tok)\<^sup>*\<^sup>*"
  let ?trial = "procs(p := Trying (io_locking io))"
  have order: "io_looked io \<le> io_locking io" "io_locking io \<le> io_locked io" "io_locked io \<le> io_rechecked io" "io_rechecked io \<le> io_finished io"
    using assms(2) by (simp_all add: clock_order_def)
  have [simp]: "procs(p := Resting) = procs" using assms(3) by auto
  have "?steps (at_clock fs (io_looked io) procs) (at_clock fs (io_looked io) (procs(p := Trying (io_looked io))))"
    using cache_step.look [of "at_clock fs (io_looked io) procs" p initial m source tok] assms(3) True by (simp add: r_into_rtranclp)
  also have "?steps \<dots> (at_clock fs (io_locking io) (procs(p := Trying (io_looked io))))" by (rule clock_steps [OF order(1)])
  also have "?steps \<dots> (at_clock fs (io_locking io) ?trial)"
    using cache_step.aim [of "at_clock fs (io_locking io) (procs(p := Trying (io_looked io)))" p "io_looked io" source m tok]
    by (simp add: r_into_rtranclp)
  finally have tried: "?steps (at_clock fs (io_looked io) procs) (at_clock fs (io_locking io) ?trial)" .
  show ?thesis
  proof (cases "io_lockable io")
    case False
    have "?steps (at_clock fs (io_locking io) ?trial) (at_clock fs (io_locking io) procs)"
      using cache_step.denied [of "at_clock fs (io_locking io) ?trial" p "io_locking io" source m tok] by (simp add: r_into_rtranclp)
    moreover have "fs' = fs" using assms(1) True False by (simp add: cached_usage_at_def due_def Let_def)
    ultimately show ?thesis using tried by (meson rtranclp_trans)
  next
    case True2: True
    obtain b fs1 where a: "acquire_lock (io_token io) (io_locking io) (io_locked io) LOCK_STALE_SECS (io_token_written io) fs = (b, fs1)" by fastforce
    have got: "?steps (at_clock fs (io_locking io) ?trial) (at_clock fs1 (io_locked io) (procs(p := if b then Holding else Resting)))"
      using acquire_steps [of tok p "io_locking io" "io_locked io" "io_token_written io" fs b fs1 ?trial source m] a assms(4) order(2) by simp
    show ?thesis
    proof (cases b)
      case False
      then have "fs' = fs1" using assms(1) True True2 a by (simp add: cached_usage_at_def due_def Let_def)
      then show ?thesis using tried got False by (simp, meson rtranclp_trans)
    next
      case held: True
      obtain r2 fs2 where l: "cached_usage_locked te io source m aware fs1 = (r2, fs2)" by fastforce
      have "fs' = drop_guard (io_token io) fs2" using assms(1) True True2 a held l by (simp add: cached_usage_at_def due_def Let_def)
      then have "?steps (at_clock fs2 (io_finished io) (procs(p := Leaving))) (at_clock fs' (io_finished io) procs)"
        using cache_step.leave [of "at_clock fs2 (io_finished io) (procs(p := Leaving))" p source m tok] assms(4) by (simp add: r_into_rtranclp)
      moreover have "?steps (at_clock fs1 (io_rechecked io) (procs(p := Holding))) (at_clock fs2 (io_finished io) (procs(p := Leaving)))"
        using locked_steps [OF l, of "procs(p := Holding)" p tok] order(4) by simp
      moreover have "?steps (at_clock fs1 (io_locked io) (procs(p := Holding))) (at_clock fs1 (io_rechecked io) (procs(p := Holding)))"
        by (rule clock_steps [OF order(3)])
      ultimately show ?thesis using tried got held by (simp, meson rtranclp_trans)
    qed
  qed
qed

section \<open>Whose usage is reported\<close>

definition usage_payload :: "cached_usage \<Rightarrow> json option" where
  "usage_payload r = (case r of Success p \<Rightarrow> Some p | SuccessWithGeneration p _ \<Rightarrow> Some p | Unknown q \<Rightarrow> q)"

text \<open>A stored reading served for a request, and one the provider gave for it.\<close>

definition stored_for :: "usage_snapshot option \<Rightarrow> json \<Rightarrow> cached_usage \<Rightarrow> cache_request \<Rightarrow> bool" where
  "stored_for file p r rq \<longleftrightarrow>
     (\<exists>s. file = Some s \<and> sn_payload s = Some p \<and> sn_account s = cq_account rq \<and>
        (\<forall>q g. r = SuccessWithGeneration q g \<longrightarrow>
           sn_last_error s = None \<and> sn_access_generation s = Some g \<and> cq_access_generation rq = Some g))"

definition fetched_for :: "cache_io \<Rightarrow> json \<Rightarrow> cache_request \<Rightarrow> bool" where
  "fetched_for io p rq \<longleftrightarrow> io_fetch io (cq_access_token rq) = Inr p \<or> io_fetch_again io (cq_access_token rq) = Inr p"

lemma serve_stored:
  assumes "usage_payload (serve aware snap rq) = Some p" and "\<And>s. snap = Some s \<Longrightarrow> sn_account s = cq_account rq"
  shows "stored_for snap p (serve aware snap rq) rq"
  using assms by (cases snap) (auto simp: serve_def from_snapshot_def from_snapshot_for_def usage_payload_def stored_for_def split: option.splits if_splits)

lemma not_due_account: "\<not> due snap now rq m \<Longrightarrow> snap = Some s \<Longrightarrow> sn_account s = cq_account rq"
  by (auto simp: due_def should_fetch_with_access_generation_def split: if_splits)

lemma failure_stored:
  assumes "s' = on_failure_with_access_generation source snap (cq_account rq) g now err" and "usage_payload (serve aware (Some s') rq) = Some p"
  shows "stored_for snap p (serve aware (Some s') rq) rq"
proof -
  have e: "sn_last_error s' \<noteq> None" using assms(1) by (auto simp: on_failure_with_access_generation_def split: option.splits)
  then have u: "serve aware (Some s') rq = Unknown (sn_payload s')"
    by (auto simp: serve_def from_snapshot_def from_snapshot_for_def split: option.splits)
  then have p: "sn_payload s' = Some p" using assms(2) by (simp add: usage_payload_def)
  then have "\<exists>s. snap = Some s \<and> sn_payload s = Some p \<and> sn_account s = cq_account rq"
    using assms(1) by (cases snap) (auto simp: on_failure_with_access_generation_def split: if_splits)
  then show ?thesis by (auto simp: stored_for_def u)
qed

lemma fetch_outcome_used:
  assumes "fetch_outcome te io request = (used, outcome)"
  shows "(used = request \<or> io_reread_401 io = Some used) \<and> (outcome = Inr p \<longrightarrow> fetched_for io p used)"
  using assms by (auto simp: fetch_outcome_def Let_def fetched_for_def opt_filter_Some_iff split: option.splits)

lemma locked_scoped:
  assumes "cached_usage_locked te io source m aware fs = (r, fs')" and "usage_payload r = Some p"
  shows "\<exists>rq. (io_reread io = Some rq \<or> io_reread_401 io = Some rq) \<and> (stored_for (cf_file fs) p r rq \<or> fetched_for io p rq)"
proof -
  obtain request where rq: "io_reread io = Some request"
    using assms by (cases "io_reread io") (auto simp: cached_usage_locked_def usage_payload_def)
  show ?thesis
  proof (cases "due (cf_file fs) (io_rechecked io) request m")
    case False
    then have r: "r = serve aware (cf_file fs) request" using assms(1) rq by (auto simp: cached_usage_locked_def due_def Let_def)
    then show ?thesis using serve_stored [of aware "cf_file fs" request p] assms(2) not_due_account [OF False] rq by blast
  next
    case True
    obtain used outcome where o: "fetch_outcome te io request = (used, outcome)" by fastforce
    let ?s = "attempt_snapshot source (cf_file fs) used (io_finished io) outcome"
    have r: "r = attempt_result aware used ?s outcome" using assms(1) rq True o by (simp add: cached_usage_locked_def due_def Let_def)
    have u: "io_reread io = Some used \<or> io_reread_401 io = Some used" using fetch_outcome_used [OF o] rq by blast
    show ?thesis
    proof (cases outcome)
      case (Inr q)
      then have "q = p" using r assms(2) by (auto simp: attempt_result_def usage_payload_def split: if_splits)
      then show ?thesis using fetch_outcome_used [OF o, of p] Inr u by blast
    next
      case (Inl err)
      then have s: "?s = on_failure_with_access_generation source (cf_file fs) (cq_account used) (cq_access_generation used) (io_finished io) (classify_error err)"
        and r2: "r = serve aware (Some ?s) used"
        by (simp_all add: attempt_snapshot_def r attempt_result_def)
      then have "stored_for (cf_file fs) p r used" using failure_stored [OF s, of aware p] assms(2) by simp
      then show ?thesis using u by blast
    qed
  qed
qed

lemma attempt_failure:
  assumes "s' = attempt_snapshot source (Some s) used now outcome" and "sn_last_error s' \<noteq> None" and "sn_account s' = sn_account s"
  shows "sn_payload s' = sn_payload s \<and> sn_fetched_at s' = sn_fetched_at s \<and> sn_consecutive_failures s' = min (sn_consecutive_failures s + 1) U32_MAX"
proof (cases outcome)
  case (Inl err)
  then show ?thesis using assms by (cases "sn_account s = cq_account used") (simp_all add: attempt_snapshot_def on_failure_with_access_generation_def)
next
  case (Inr p)
  then show ?thesis using assms(1,2) by (simp add: attempt_snapshot_def on_success_with_access_generation_def)
qed

lemma locked_file:
  assumes "cached_usage_locked te io source m aware fs = (r, fs')"
  shows "cf_file fs' = cf_file fs \<or>
    (\<exists>used outcome. cf_file fs' = Some (attempt_snapshot source (cf_file fs) used (io_finished io) outcome))"
proof (cases "io_reread io")
  case (Some request)
  obtain used outcome where o: "fetch_outcome te io request = (used, outcome)" by fastforce
  have "cf_file fs' = cf_file fs \<or> cf_file fs' = Some (attempt_snapshot source (cf_file fs) used (io_finished io) outcome)"
    using assms Some o by (auto simp: cached_usage_locked_def Let_def split: if_splits)
  then show ?thesis by blast
qed (use assms in \<open>auto simp: cached_usage_locked_def\<close>)

lemma acquire_file: "cf_file (snd (acquire_lock token now created stale_after written fs)) = cf_file fs"
  by (simp add: acquire_lock_def create_lock_def break_lock_def split: option.split)

text \<open>
  Usage is reported only for its account. A payload a call returns was stored for the account
  the call reads credentials of, or fetched with them; a stored one counts as evidence that the
  credential works only when its attempt succeeded with the very credential of the request. And
  what a call stores keeps the last good reading of the account through failures: an attempt that
  failed leaves payload and time of an earlier reading of the account as they were, and one more
  failure counted.
\<close>
lemma usage_payload_scoped:
  assumes "cached_usage_at te io source initial m aware fs = (r, fs')"
  shows "(\<forall>p. usage_payload r = Some p \<longrightarrow> (\<exists>rq. (rq = initial \<or> io_reread io = Some rq \<or> io_reread_401 io = Some rq) \<and>
            (stored_for (cf_file fs) p r rq \<or> fetched_for io p rq))) \<and>
    (\<forall>s s'. cf_file fs = Some s \<and> cf_file fs' = Some s' \<and> s' \<noteq> s \<and> sn_last_error s' \<noteq> None \<and> sn_account s' = sn_account s \<longrightarrow>
       sn_payload s' = sn_payload s \<and> sn_fetched_at s' = sn_fetched_at s \<and>
       sn_consecutive_failures s' = min (sn_consecutive_failures s + 1) U32_MAX)"
proof (cases "due (cf_file fs) (io_looked io) initial m")
  case False
  then have "r = serve aware (cf_file fs) initial" "fs' = fs" using assms by (auto simp: cached_usage_at_def due_def Let_def)
  then show ?thesis using serve_stored [of aware "cf_file fs" initial] not_due_account [OF False] by auto
next
  case True
  obtain b fs1 where a: "(if io_lockable io then acquire_lock (io_token io) (io_locking io) (io_locked io) LOCK_STALE_SECS (io_token_written io) fs
      else (False, fs)) = (b, fs1)" by fastforce
  have same: "cf_file fs1 = cf_file fs"
    using a acquire_file [of "io_token io" "io_locking io" "io_locked io" LOCK_STALE_SECS "io_token_written io" fs] by (auto split: if_splits)
  show ?thesis
  proof (cases b)
    case False
    let ?snap = "opt_filter (\<lambda>s. sn_account s = cq_account initial) (cf_file fs)"
    have r: "r = serve aware ?snap initial" "fs' = fs1" using assms True a False by (auto simp: cached_usage_at_def due_def Let_def)
    have "stored_for (cf_file fs) p r initial" if "usage_payload r = Some p" for p
    proof -
      have "stored_for ?snap p r initial"
        unfolding r(1) by (rule serve_stored) (use that in \<open>auto simp: r(1) opt_filter_Some_iff\<close>)
      then show ?thesis by (cases "cf_file fs") (auto simp: stored_for_def split: if_splits)
    qed
    then show ?thesis using same r(2) by auto
  next
    case held: True
    obtain r2 fs2 where l: "cached_usage_locked te io source m aware fs1 = (r2, fs2)" by fastforce
    have r: "r = r2" "fs' = drop_guard (io_token io) fs2" using assms True a held l by (auto simp: cached_usage_at_def due_def Let_def)
    have kept: "cf_file fs' = cf_file fs2" by (simp add: r(2) drop_guard_def)
    have fails: "sn_payload s' = sn_payload s \<and> sn_fetched_at s' = sn_fetched_at s \<and> sn_consecutive_failures s' = min (sn_consecutive_failures s + 1) U32_MAX"
      if "cf_file fs = Some s" "cf_file fs2 = Some s'" "s' \<noteq> s" "sn_last_error s' \<noteq> None" "sn_account s' = sn_account s" for s s'
      using locked_file [OF l] that attempt_failure [where source = source and s = s and s' = s'] unfolding same by auto
    have scoped: "\<exists>rq. (io_reread io = Some rq \<or> io_reread_401 io = Some rq) \<and> (stored_for (cf_file fs) p r rq \<or> fetched_for io p rq)"
      if "usage_payload r = Some p" for p
      using locked_scoped [OF l] that r(1) same by simp
    show ?thesis
    proof (intro conjI allI impI)
      fix p assume "usage_payload r = Some p"
      from scoped [OF this] show "\<exists>rq. (rq = initial \<or> io_reread io = Some rq \<or> io_reread_401 io = Some rq) \<and>
            (stored_for (cf_file fs) p r rq \<or> fetched_for io p rq)" by blast
    qed (use fails kept in metis)+
  qed
qed

section \<open>Witnesses\<close>

definition sample_cache_request :: cache_request where
  "sample_cache_request = \<lparr>cq_account = ''acc'', cq_access_generation = Some ''gen'', cq_access_token = Some ''token''\<rparr>"

definition sample_cache_io :: cache_io where
  "sample_cache_io = \<lparr>io_looked = 100, io_locking = 100, io_locked = 101, io_rechecked = 101, io_finished = 105, io_token = ''u1'', io_lockable = True,
     io_token_written = True, io_snapshot_written = True, io_reread = Some sample_cache_request, io_reread_401 = None,
     io_fetch = (\<lambda>_. Inl ''returned error: 429''), io_fetch_again = (\<lambda>_. Inl [])\<rparr>"

definition good_snapshot :: usage_snapshot where
  "good_snapshot = on_success_with_access_generation ''codex'' ''acc'' (Some ''gen'') 10 (JInt 7)"

definition empty_cache :: cache_fs where
  "empty_cache = \<lparr>cf_file = None, cf_lock = None\<rparr>"

lemmas sample_cache_defs = sample_cache_request_def sample_cache_io_def good_snapshot_def empty_cache_def

text \<open>The lock of a process that died: another breaks it, takes the lock and fetches.\<close>

definition dead_lock :: lock_file where
  "dead_lock = \<lparr>lk_content = ''dead'', lk_mtime = 0\<rparr>"

definition leaked_cache :: cache_fs where
  "leaked_cache = \<lparr>cf_file = None, cf_lock = Some dead_lock\<rparr>"


lemma sample_cached_usage:
  "\<exists>s. cached_usage_at sample_text_env sample_cache_io ''codex'' sample_cache_request 60 True (empty_cache\<lparr>cf_file := Some good_snapshot\<rparr>) =
     (Unknown (Some (JInt 7)), empty_cache\<lparr>cf_file := Some s\<rparr>) \<and> s \<noteq> good_snapshot \<and> sn_last_error s = Some ''HTTP 429'' \<and> sn_account s = ''acc''"
proof -
  have "\<not> error_is_http_401 sample_text_env ''returned error: 429''" by code_simp
  moreover have "classify_error ''returned error: 429'' = ''HTTP 429''" by code_simp
  ultimately show ?thesis
    by (simp add: cached_usage_at_def cached_usage_locked_def should_fetch_with_access_generation_def sat_add_def next_attempt_wait_def sat_mul_def
        acquire_lock_def create_lock_def drop_guard_def fetch_outcome_def attempt_snapshot_def attempt_result_def serve_def from_snapshot_for_def
        on_success_with_access_generation_def on_failure_with_access_generation_def U64_MAX_def U32_MAX_def MAX_BACKOFF_SECS_def sample_cache_defs)
qed

section \<open>A limit of the lock\<close>

text \<open>
  Two processes that both saw a leaked lock can end up holding the lock together: the rename of
  the slower one takes the fresh lock of the faster one away.
\<close>

lemma stale_break_admits_two:
  defines "leaked \<equiv> leaked_cache"
  shows "\<exists>c. (cache_step source m tok)\<^sup>*\<^sup>* (cache_start leaked 100) c \<and> cs_procs c 0 = Holding \<and> cs_procs c 1 = Holding"
proof -
  let ?step = "cache_step source m tok"
  let ?c0 = "cache_start leaked 100"
  let ?c1 = "move_to 0 (Trying 100) ?c0" let ?c2 = "move_to 1 (Trying 100) ?c1"
  let ?c3 = "move_to 0 (Breaking dead_lock) ?c2" let ?c4 = "move_to 1 (Breaking dead_lock) ?c3"
  let ?c5 = "move_to 1 Retrying (?c4\<lparr>cs_fs := break_lock leaked\<rparr>)"
  let ?c6 = "move_to 1 Holding (?c5\<lparr>cs_fs := create_lock (tok 1) 100 True (break_lock leaked)\<rparr>)"
  let ?c7 = "move_to 0 Retrying (?c6\<lparr>cs_fs := break_lock (create_lock (tok 1) 100 True (break_lock leaked))\<rparr>)"
  let ?c8 = "move_to 0 Holding (?c7\<lparr>cs_fs := create_lock (tok 0) 100 True (cs_fs ?c7)\<rparr>)"
  have due: "due None n rq m" for n rq by (simp add: due_def should_fetch_with_access_generation_def)
  note defs = cache_start_def leaked_def leaked_cache_def dead_lock_def break_lock_def create_lock_def lock_stale_def LOCK_STALE_SECS_def due
  have s1: "?step ?c0 ?c1" using cache_step.look [of ?c0 0 sample_cache_request m source tok] by (simp add: defs)
  have s2: "?step ?c1 ?c2" using cache_step.look [of ?c1 1 sample_cache_request m source tok] by (simp add: defs)
  have s3: "?step ?c2 ?c3" using cache_step.stale [of ?c2 0 100 _ source m tok] by (simp add: defs)
  have s4: "?step ?c3 ?c4" using cache_step.stale [of ?c3 1 100 _ source m tok] by (simp add: defs)
  have s5: "?step ?c4 ?c5" using cache_step.broken [of ?c4 1 dead_lock source m tok] by (simp add: defs)
  have s6: "?step ?c5 ?c6" using cache_step.retake [of ?c5 1 source m tok True] by (simp add: defs)
  have s7: "?step ?c6 ?c7" using cache_step.broken [of ?c6 0 dead_lock source m tok] by (simp add: defs)
  have s8: "?step ?c7 ?c8" using cache_step.retake [of ?c7 0 source m tok True] by (simp add: defs)
  have "?step\<^sup>*\<^sup>* ?c0 ?c4"
    by (rule converse_rtranclp_into_rtranclp [where r = ?step, OF s1], rule converse_rtranclp_into_rtranclp [where r = ?step, OF s2], rule converse_rtranclp_into_rtranclp [where r = ?step, OF s3], rule r_into_rtranclp, rule s4)
  moreover have "?step\<^sup>*\<^sup>* ?c4 ?c8"
    by (rule converse_rtranclp_into_rtranclp [where r = ?step, OF s5], rule converse_rtranclp_into_rtranclp [where r = ?step, OF s6], rule converse_rtranclp_into_rtranclp [where r = ?step, OF s7], rule r_into_rtranclp, rule s8)
  ultimately have "?step\<^sup>*\<^sup>* ?c0 ?c8" by (rule rtranclp_trans)
  then show ?thesis by (intro exI [of _ ?c8]) simp
qed

end
