(* ===== verification/Prompt_Classes.thy ===== *)
theory Prompt_Classes
  imports Session_Routing Planner_Lifecycle
begin

text \<open>
  How a prompt is classified before a model is chosen: the heuristic over keyword tables with its
  automatic effort (\<open>classifier.rs\<close>), and the evaluating model: the text it is given, what its reply
  may decide, and the walk over the evaluators that ends in a decision (\<open>pre_classifier.rs\<close>). The
  rule tables, the parser of JSON and the replies are arguments; log and summary texts are not
  modelled.
\<close>

section \<open>Automatic effort\<close>

record task_profile =
  tp_class :: task_class
  tp_complexity :: real
  tp_languages :: "string list"
  tp_effort :: "effort_level option"

definition automatic_effort :: "task_class \<Rightarrow> real \<Rightarrow> effort_level" where
  "automatic_effort cls complexity =
     (if clamp 0 1 complexity \<le> 15 / 100 \<and> (cls = UiTweak \<or> cls = Writing) then EffortLow else EffortMedium)"

definition DIFFICULTY_SIGNALS :: "string list" where
  "DIFFICULTY_SIGNALS = [''still broken'', ''still failing'', ''didn'' @ [CHR 0x27] @ ''t work'', ''did not work'', ''failed after'',
     ''multiple attempts'', ''reproduce the failure'']"

definition has_concrete_difficulty_evidence :: "text_env \<Rightarrow> string \<Rightarrow> bool" where
  "has_concrete_difficulty_evidence te evidence \<longleftrightarrow>
     list_ex (\<lambda>signal. contains_str (te_lowercase te evidence) signal) DIFFICULTY_SIGNALS"

definition automatic_effort_with_evidence :: "text_env \<Rightarrow> task_class \<Rightarrow> real \<Rightarrow> string \<Rightarrow> effort_level" where
  "automatic_effort_with_evidence te cls complexity evidence =
     (if has_concrete_difficulty_evidence te evidence then EffortHigh else automatic_effort cls complexity)"

section \<open>Heuristic classification\<close>

record class_rule =
  cl_class :: string
  cl_weight :: real
  cl_keywords :: "string list"

record keyword_bump =
  kb_bump :: real
  kb_floor :: "real option"
  kb_keywords :: "string list"

record complexity_rules =
  cx_length_full_score_chars :: nat
  cx_length_max :: real
  cx_per_file_bump :: real
  cx_max_file_bump :: real
  cx_keyword_bumps :: "keyword_bump list"

record multi_step_rules =
  ms_per_token_bump :: real
  ms_max_bump :: real
  ms_tokens :: "string list"

record classifier_rules =
  ru_classes :: "class_rule list"
  ru_complexity :: complexity_rules
  ru_multi_step :: multi_step_rules
  ru_languages :: "string \<rightharpoonup> string"

definition known_classes :: "classifier_rules \<Rightarrow> (string, classifier_rules) result" where
  "known_classes rules =
     (case List.find (\<lambda>r. class_parse (cl_class r) = None) (ru_classes rules) of
        Some r \<Rightarrow> Inl (cl_class r)
      | None \<Rightarrow> Inr rules)"

record classify_input =
  ci_text :: string
  ci_mentioned_paths :: "string list"
  ci_resource_count :: nat
  ci_resource_bytes :: nat
  ci_cwd_languages :: "string list"

text \<open>Tokens that look like file names. The text is split at Unicode white space and at brackets, quotes, commas and semicolons.\<close>

definition path_separator :: "char \<Rightarrow> bool" where
  "path_separator c \<longleftrightarrow> c \<in> set ''()[]{}<>,;'' \<or> byte c = 34 \<or> byte c = 39 \<or> byte c = 96"

definition token_end :: "char \<Rightarrow> bool" where
  "token_end c \<longleftrightarrow> c \<in> set ''.:?!''"

definition trim_token :: "string \<Rightarrow> string" where
  "trim_token token = rev (dropWhile token_end (rev token))"

definition path_like :: "string \<Rightarrow> bool" where
  "path_like token \<longleftrightarrow>
     3 \<le> length token \<and>
     (case rsplit_once ''.'' token of
        None \<Rightarrow> False
      | Some (stem, ext) \<Rightarrow>
          stem \<noteq> [] \<and> ext \<noteq> [] \<and> length ext \<le> 8 \<and> list_all is_ascii_alphanumeric ext \<and> list_ex is_ascii_alphanumeric stem \<and>
          \<not> list_all is_ascii_digit stem)"

definition extract_path_mentions :: "string \<Rightarrow> string list" where
  "extract_path_mentions text =
     filter path_like (map trim_token (concat (map (split_on path_separator) (split_ws_acc [] text))))"

fun add_block :: "classify_input \<Rightarrow> content_block \<Rightarrow> classify_input" where
  "add_block inp (TextBlock t) =
     inp\<lparr>ci_text := (if ci_text inp = [] then [] else ci_text inp @ newline) @ t\<rparr>"
| "add_block inp (ResourceLinkBlock v) =
     inp\<lparr>ci_resource_count := ci_resource_count inp + 1, ci_mentioned_paths := ci_mentioned_paths inp @ [unwrap_or (get_str v ''uri'') []]\<rparr>"
| "add_block inp (ResourceBlock v) =
     (let inp1 = inp\<lparr>ci_resource_count := ci_resource_count inp + 1\<rparr>;
          inp2 = (case Option.bind (json_get v ''resource'') (\<lambda>r. get_str r ''uri'') of
                    Some uri \<Rightarrow> inp1\<lparr>ci_mentioned_paths := ci_mentioned_paths inp1 @ [uri]\<rparr> | None \<Rightarrow> inp1)
      in (case Option.bind (json_get v ''resource'') (\<lambda>r. get_str r ''text'') of
            Some body \<Rightarrow> inp2\<lparr>ci_resource_bytes := ci_resource_bytes inp2 + length body\<rparr> | None \<Rightarrow> inp2))"
| "add_block inp _ = inp"

definition from_prompt :: "content_block list \<Rightarrow> string list \<Rightarrow> classify_input" where
  "from_prompt prompt cwd_languages =
     (let inp = foldl add_block \<lparr>ci_text = [], ci_mentioned_paths = [], ci_resource_count = 0, ci_resource_bytes = 0,
                                 ci_cwd_languages = cwd_languages\<rparr> prompt
      in inp\<lparr>ci_mentioned_paths := ci_mentioned_paths inp @ extract_path_mentions (ci_text inp)\<rparr>)"

text \<open>\<open>str::matches(p).count()\<close>: occurrences that do not overlap; the empty pattern matches at every character boundary.\<close>

definition char_count :: "string \<Rightarrow> nat" where
  "char_count s = length (filter (\<lambda>c. \<not> utf8_tail c) s)"

function match_count :: "string \<Rightarrow> string \<Rightarrow> nat" where
  "match_count p s =
     (if p = [] then char_count s + 1
      else case s of
        [] \<Rightarrow> 0
      | c # cs \<Rightarrow> if starts_with s p then 1 + match_count p (drop (length p) s) else match_count p cs)"
  by pat_completeness auto
termination by (relation "measure (\<lambda>(p, s). length s)") (auto simp: Suc_le_eq)

declare match_count.simps [simp del]

definition keyword_hits :: "text_env \<Rightarrow> string \<Rightarrow> string list \<Rightarrow> nat" where
  "keyword_hits te lower keywords = length (filter (\<lambda>k. contains_str lower (te_lowercase te k)) keywords)"

definition class_total :: "text_env \<Rightarrow> classifier_rules \<Rightarrow> string \<Rightarrow> task_class \<Rightarrow> real" where
  "class_total te rules lower cls =
     sum_list (map (\<lambda>r. if class_parse (cl_class r) = Some cls then cl_weight r * real (keyword_hits te lower (cl_keywords r)) else 0)
       (ru_classes rules))"

definition class_index :: "task_class \<Rightarrow> nat" where
  "class_index cls = unwrap_or (position (\<lambda>c. c = cls) class_all) 0"

definition heuristic_class :: "(task_class \<Rightarrow> real) \<Rightarrow> task_class" where
  "heuristic_class weight =
     unwrap_or (opt_filter (\<lambda>c. 0 < weight c) (last_max (\<lambda>c. (weight c, - int (class_index c))) class_all)) CodingGeneral"

fun keyword_bumps :: "text_env \<Rightarrow> string \<Rightarrow> keyword_bump list \<Rightarrow> real \<times> real \<Rightarrow> real \<times> real" where
  "keyword_bumps te lower [] acc = acc"
| "keyword_bumps te lower (b # bs) (complexity, lowest) =
     (let hits = keyword_hits te lower (kb_keywords b)
      in keyword_bumps te lower bs
           (complexity + kb_bump b * real (min hits 2), if 0 < hits then max lowest (unwrap_or (kb_floor b) 0) else lowest))"

definition heuristic_complexity :: "text_env \<Rightarrow> classifier_rules \<Rightarrow> classify_input \<Rightarrow> string \<Rightarrow> real" where
  "heuristic_complexity te rules inp lower =
     (let c = ru_complexity rules; ms = ru_multi_step rules;
          ramp = (if 0 < cx_length_full_score_chars c
                  then min (real (length (ci_text inp)) / real (cx_length_full_score_chars c)) 1 * cx_length_max c else 0);
          (bumped, lowest) = keyword_bumps te lower (cx_keyword_bumps c) (ramp, 0);
          files = length (ci_mentioned_paths inp) + ci_resource_count inp;
          steps = sum_list (map (\<lambda>t. match_count t lower) (ms_tokens ms))
      in clamp 0 1 (max (bumped + min (real files * cx_per_file_bump c) (cx_max_file_bump c)
                         + min (real steps * ms_per_token_bump ms) (ms_max_bump ms)) lowest))"

definition path_language :: "text_env \<Rightarrow> classifier_rules \<Rightarrow> string \<Rightarrow> string option" where
  "path_language te rules path = Option.bind (rsplit_once ''.'' path) (\<lambda>(_, ext). ru_languages rules (te_lowercase te ext))"

definition classify_heuristic :: "text_env \<Rightarrow> classifier_rules \<Rightarrow> classify_input \<Rightarrow> task_profile" where
  "classify_heuristic te rules inp =
     (let lower = te_lowercase te (ci_text inp); cls = heuristic_class (class_total te rules lower);
          complexity = heuristic_complexity te rules inp lower
      in \<lparr>tp_class = cls, tp_complexity = complexity,
          tp_languages = sorted_list_of_set (set (ci_cwd_languages inp) \<union> set (List.map_filter (path_language te rules) (ci_mentioned_paths inp))),
          tp_effort = Some (automatic_effort cls complexity)\<rparr>)"

text \<open>
  The languages of a directory: an entry is a file or a directory whose entries may be unreadable.
  Directories wait on a stack; the ones below the first level are not entered, and after
  \<open>MAX_ENTRIES\<close> entries the scan ends.
\<close>

datatype dir_entry = FileEntry string | DirEntry string "dir_entry list option"

definition MAX_ENTRIES :: nat where "MAX_ENTRIES = 512"

fun entry_name :: "dir_entry \<Rightarrow> string" where
  "entry_name (FileEntry n) = n"
| "entry_name (DirEntry n _) = n"

definition skipped_entry :: "string \<Rightarrow> bool" where
  "skipped_entry name \<longleftrightarrow> starts_with name ''.'' \<or> name = ''node_modules'' \<or> name = ''target''"

text \<open>The entries of one directory: how many were seen, the languages hit and the directories met.\<close>

fun scan_dir :: "text_env \<Rightarrow> classifier_rules \<Rightarrow> nat \<Rightarrow> dir_entry list \<Rightarrow> nat \<times> string list \<times> dir_entry list option list" where
  "scan_dir te rules seen [] = (seen, [], [])"
| "scan_dir te rules seen (e # es) =
     (if MAX_ENTRIES < seen + 1 then (seen + 1, [], [])
      else let (seen', hits, dirs) = scan_dir te rules (seen + 1) es
           in if skipped_entry (entry_name e) then (seen', hits, dirs)
              else case e of
                     DirEntry _ entries \<Rightarrow> (seen', hits, entries # dirs)
                   | FileEntry name \<Rightarrow>
                       (seen', (case path_language te rules name of Some lang \<Rightarrow> lang # hits | None \<Rightarrow> hits), dirs))"

fun scan_stack :: "text_env \<Rightarrow> classifier_rules \<Rightarrow> nat \<Rightarrow> dir_entry list option list \<Rightarrow> string list" where
  "scan_stack te rules seen [] = []"
| "scan_stack te rules seen (None # ds) = scan_stack te rules seen ds"
| "scan_stack te rules seen (Some entries # ds) =
     (let (seen', hits, _) = scan_dir te rules seen entries
      in if MAX_ENTRIES < seen' then hits else hits @ scan_stack te rules seen' ds)"

definition cwd_language_fingerprint :: "text_env \<Rightarrow> classifier_rules \<Rightarrow> dir_entry list option \<Rightarrow> string list" where
  "cwd_language_fingerprint te rules cwd =
     (let hits = (case cwd of
                    None \<Rightarrow> []
                  | Some entries \<Rightarrow> (let (seen, hits, dirs) = scan_dir te rules 0 entries
                                    in if MAX_ENTRIES < seen then hits else hits @ scan_stack te rules seen (rev dirs)))
      in take 4 (sort_key (\<lambda>l. (- int (count_list hits l), l)) (remdups hits)))"

text \<open>
  The local model: where its runtime listens, a prompt cut at byte 4000, which panics inside a
  character, and its reply as class, complexity and languages. Any failure falls back to the
  heuristic.
\<close>

function trim_start_matches :: "string \<Rightarrow> string \<Rightarrow> string" where
  "trim_start_matches p s = (if p \<noteq> [] \<and> starts_with s p then trim_start_matches p (drop (length p) s) else s)"
  by pat_completeness auto
termination by (relation "measure (\<lambda>(p, s). length s)") (auto simp: starts_with_iff)

declare trim_start_matches.simps [simp del]

definition local_host :: "string \<Rightarrow> (string \<times> string) option" where
  "local_host model_spec =
     (case split_once (CHR '':'') model_spec of
        None \<Rightarrow> None
      | Some (runtime, model) \<Rightarrow>
          if runtime = ''ollama'' then Some (''127.0.0.1:11434'', model)
          else if starts_with runtime ''ollama@'' then Some (trim_start_matches ''ollama@'' runtime, model)
          else None)"

definition local_prompt :: "string \<Rightarrow> string option" where
  "local_prompt text = truncate_str 4000 text"

definition local_profile :: "string \<Rightarrow> real \<Rightarrow> string list \<Rightarrow> (string, task_profile) result" where
  "local_profile cls complexity languages =
     (case class_parse cls of
        None \<Rightarrow> Inl cls
      | Some c \<Rightarrow> Inr \<lparr>tp_class = c, tp_complexity = clamp 0 1 complexity, tp_languages = languages,
                       tp_effort = Some (automatic_effort c (clamp 0 1 complexity))\<rparr>)"

text \<open>The answer of the runtime at a host to a model and a prompt: an error, also for a timeout, or the fields of the reply.\<close>

type_synonym local_runtime = "string \<Rightarrow> string \<Rightarrow> string \<Rightarrow> (string, string \<times> real \<times> string list) result"

definition classify_local_model :: "local_runtime \<Rightarrow> string \<Rightarrow> string \<Rightarrow> (string, task_profile) result option" where
  "classify_local_model ask model_spec text =
     (case local_host model_spec of
        None \<Rightarrow> Some (Inl model_spec)
      | Some (host, model) \<Rightarrow>
          map_option (\<lambda>prompt. rbind (ask host model prompt) (\<lambda>(cls, complexity, languages). local_profile cls complexity languages))
            (local_prompt text))"

definition classify :: "text_env \<Rightarrow> local_runtime \<Rightarrow> string option \<Rightarrow> classifier_rules \<Rightarrow> classify_input \<Rightarrow> task_profile option" where
  "classify te ask local_model rules inp =
     (case local_model of
        None \<Rightarrow> Some (classify_heuristic te rules inp)
      | Some model_spec \<Rightarrow>
          map_option (\<lambda>r. case r of Inr profile \<Rightarrow> profile | Inl _ \<Rightarrow> classify_heuristic te rules inp)
            (classify_local_model ask model_spec (ci_text inp)))"

section \<open>The heuristic profile\<close>

lemma class_all_UNIV [simp]: "c \<in> set class_all"
  by (cases c) (simp_all add: class_all_def)

lemma clamp_least: "f \<le> x \<Longrightarrow> f \<le> hi \<Longrightarrow> f \<le> clamp lo hi x"
  by (auto simp: clamp_def)

lemma heuristic_class_best:
  assumes "0 < weight c"
  shows "weight d \<le> weight (heuristic_class weight)" and "0 < weight (heuristic_class weight)"
    and "weight d = weight (heuristic_class weight) \<Longrightarrow> class_index (heuristic_class weight) \<le> class_index d"
proof -
  have "last_max (\<lambda>c. (weight c, - int (class_index c))) class_all \<noteq> None" unfolding last_max_None by (simp add: class_all_def)
  then obtain m where m: "last_max (\<lambda>c. (weight c, - int (class_index c))) class_all = Some m" by blast
  have best: "(weight d, - int (class_index d)) \<le> (weight m, - int (class_index m))" for d
    by (rule last_max_greatest [OF m]) simp
  have "weight c \<le> weight m" using best [of c] by (auto simp: less_eq_prod_def)
  then have h: "heuristic_class weight = m" using m assms by (simp add: heuristic_class_def)
  show "weight d \<le> weight (heuristic_class weight)" using best [of d] by (auto simp: h less_eq_prod_def)
  show "0 < weight (heuristic_class weight)" using assms \<open>weight c \<le> weight m\<close> by (simp add: h)
  show "class_index (heuristic_class weight) \<le> class_index d" if "weight d = weight (heuristic_class weight)"
    using best [of d] that by (auto simp: h less_eq_prod_def)
qed

lemma heuristic_class_default: "(\<And>c. weight c \<le> 0) \<Longrightarrow> heuristic_class weight = CodingGeneral"
  by (cases "last_max (\<lambda>c. (weight c, - int (class_index c))) class_all") (auto simp: heuristic_class_def not_less [symmetric])

lemma keyword_bumps_lowest:
  "lowest \<le> snd (keyword_bumps te lower bs (x, lowest)) \<and>
   (\<forall>b \<in> set bs. 0 < keyword_hits te lower (kb_keywords b) \<longrightarrow> unwrap_or (kb_floor b) 0 \<le> snd (keyword_bumps te lower bs (x, lowest)))"
proof (induction bs arbitrary: x lowest)
  case (Cons b bs)
  let ?x = "x + kb_bump b * real (min (keyword_hits te lower (kb_keywords b)) 2)"
  let ?l = "if 0 < keyword_hits te lower (kb_keywords b) then max lowest (unwrap_or (kb_floor b) 0) else lowest"
  have step: "keyword_bumps te lower (b # bs) (x, lowest) = keyword_bumps te lower bs (?x, ?l)" by (simp add: Let_def)
  show ?case unfolding step using Cons.IH [of ?l ?x] by (auto split: if_splits)
qed simp

lemma complexity_floor:
  assumes "b \<in> set (cx_keyword_bumps (ru_complexity rules))" and "0 < keyword_hits te lower (kb_keywords b)"
    and "kb_floor b = Some f" and "f \<le> 1"
  shows "f \<le> heuristic_complexity te rules inp lower"
proof -
  have "f \<le> snd (keyword_bumps te lower (cx_keyword_bumps (ru_complexity rules)) (x, 0))" for x
    using keyword_bumps_lowest [of 0 te lower "cx_keyword_bumps (ru_complexity rules)" x] assms by force
  then show ?thesis using assms(4)
    unfolding heuristic_complexity_def Let_def split_beta by (intro clamp_least max.coboundedI2) simp_all
qed

lemma automatic_effort_low: "automatic_effort cls x = EffortLow \<longleftrightarrow> clamp 0 1 x \<le> 15 / 100 \<and> (cls = UiTweak \<or> cls = Writing)"
  by (simp add: automatic_effort_def)

lemma automatic_effort_range: "automatic_effort cls x = EffortLow \<or> automatic_effort cls x = EffortMedium"
  by (simp add: automatic_effort_def)

lemma clamp_id: "lo \<le> x \<Longrightarrow> x \<le> hi \<Longrightarrow> clamp lo hi x = x"
  by (simp add: clamp_def)

text \<open>
  The heuristic profile of a prompt. When a class has keywords in the text with positive
  weight, the class of the profile has the greatest weight, and of several such it is the first in
  the order of the classes; otherwise it is general coding. The complexity is a share of one, and at
  least the floor of every keyword group that was hit. Effort is medium, or low for a trivial edit
  or text; the languages, without repetition, are those of the directory and of the files named.
\<close>
lemma heuristic_profile_sound:
  fixes te rules inp
  defines "weight \<equiv> class_total te rules (te_lowercase te (ci_text inp))" and "p \<equiv> classify_heuristic te rules inp"
  shows "(if \<exists>c. 0 < weight c
          then (\<forall>c. weight c \<le> weight (tp_class p)) \<and> (\<forall>c. weight c = weight (tp_class p) \<longrightarrow> class_index (tp_class p) \<le> class_index c)
          else tp_class p = CodingGeneral) \<and>
    0 \<le> tp_complexity p \<and> tp_complexity p \<le> 1 \<and>
    (\<forall>b \<in> set (cx_keyword_bumps (ru_complexity rules)). \<forall>f \<le> 1.
       0 < keyword_hits te (te_lowercase te (ci_text inp)) (kb_keywords b) \<and> kb_floor b = Some f \<longrightarrow> f \<le> tp_complexity p) \<and>
    tp_effort p = Some (if tp_complexity p \<le> 15 / 100 \<and> (tp_class p = UiTweak \<or> tp_class p = Writing) then EffortLow else EffortMedium) \<and>
    sorted (tp_languages p) \<and> distinct (tp_languages p) \<and>
    set (tp_languages p) = set (ci_cwd_languages inp) \<union> {l. \<exists>f \<in> set (ci_mentioned_paths inp). path_language te rules f = Some l}"
proof -
  have cls: "tp_class p = heuristic_class weight" and cx: "tp_complexity p = heuristic_complexity te rules inp (te_lowercase te (ci_text inp))"
    by (simp_all add: p_def weight_def classify_heuristic_def Let_def)
  have best: "if \<exists>c. 0 < weight c
      then (\<forall>c. weight c \<le> weight (tp_class p)) \<and> (\<forall>c. weight c = weight (tp_class p) \<longrightarrow> class_index (tp_class p) \<le> class_index c)
      else tp_class p = CodingGeneral"
    using heuristic_class_best [of weight] heuristic_class_default [of weight] unfolding cls by (auto simp: not_less)
  have bounds: "0 \<le> tp_complexity p \<and> tp_complexity p \<le> 1"
    unfolding cx heuristic_complexity_def Let_def split_beta by (rule clamp_bounds) simp
  have floors: "\<forall>b \<in> set (cx_keyword_bumps (ru_complexity rules)). \<forall>f \<le> 1.
      0 < keyword_hits te (te_lowercase te (ci_text inp)) (kb_keywords b) \<and> kb_floor b = Some f \<longrightarrow> f \<le> tp_complexity p"
    unfolding cx using complexity_floor by blast
  have effort: "tp_effort p = Some (automatic_effort (tp_class p) (tp_complexity p))"
    by (simp add: p_def classify_heuristic_def Let_def)
  have langs: "tp_languages p = sorted_list_of_set (set (ci_cwd_languages inp) \<union> set (List.map_filter (path_language te rules) (ci_mentioned_paths inp)))"
    by (simp add: p_def classify_heuristic_def Let_def)
  have fin: "finite (set (ci_cwd_languages inp) \<union> {l. \<exists>f \<in> set (ci_mentioned_paths inp). path_language te rules f = Some l})"
    (is "finite (_ \<union> ?L)")
  proof -
    have "?L \<subseteq> (\<lambda>f. the (path_language te rules f)) ` set (ci_mentioned_paths inp)" by force
    then show ?thesis by (intro finite_UnI) (auto dest: finite_subset)
  qed
  have hit: "set (List.map_filter (path_language te rules) fs) = {l. \<exists>f \<in> set fs. path_language te rules f = Some l}" for fs
    by (induction fs) (auto simp: List.map_filter_simps split: option.splits)
  have "tp_effort p = Some (if tp_complexity p \<le> 15 / 100 \<and> (tp_class p = UiTweak \<or> tp_class p = Writing) then EffortLow else EffortMedium)"
    using bounds by (simp add: effort automatic_effort_def clamp_id)
  moreover have "sorted (tp_languages p)" "distinct (tp_languages p)" by (simp_all add: langs)
  moreover have "set (tp_languages p) = set (ci_cwd_languages inp) \<union> {l. \<exists>f \<in> set (ci_mentioned_paths inp). path_language te rules f = Some l}"
    using fin by (simp add: langs hit)
  ultimately show ?thesis using best bounds floors by blast
qed

section \<open>The languages of a directory\<close>

lemma scan_dir_bound:
  assumes "seen \<le> MAX_ENTRIES" and "scan_dir te rules seen es = (seen', hits, dirs)"
  shows "seen' \<le> MAX_ENTRIES + 1 \<and> seen + length hits \<le> MAX_ENTRIES \<and> (seen' \<le> MAX_ENTRIES \<longrightarrow> seen + length hits \<le> seen')"
  using assms
proof (induction te rules seen es arbitrary: seen' hits dirs rule: scan_dir.induct)
  case (2 te rules seen e es)
  show ?case
  proof (cases "MAX_ENTRIES < seen + 1")
    case False
    obtain s h d where r: "scan_dir te rules (seen + 1) es = (s, h, d)" by (metis prod_cases3)
    have "length hits \<le> length h + 1" "seen' = s"
      using "2.prems"(2) False r by (auto simp: Let_def split: if_splits dir_entry.splits option.splits)
    then show ?thesis using "2.IH" [OF False _ r] False by auto
  qed (use "2.prems" in auto)
qed simp

lemma scan_stack_bound: "seen \<le> MAX_ENTRIES \<Longrightarrow> seen + length (scan_stack te rules seen ds) \<le> MAX_ENTRIES"
proof (induction te rules seen ds rule: scan_stack.induct)
  case (3 te rules seen entries ds)
  obtain s h d where r: "scan_dir te rules seen entries = (s, h, d)" by (metis prod_cases3)
  from scan_dir_bound [OF "3.prems" r] "3.IH" [OF r [symmetric] refl] show ?case by (auto simp: r Let_def)
qed simp_all

section \<open>Limits of the local model\<close>

text \<open>A runtime on another host, written as documented with a port, loses the port to the model name.\<close>

lemma remote_runtime_loses_port: "local_host ''ollama@host:11434:qwen'' = Some (''host'', ''11434:qwen'')"
  by (simp add: local_host_def trim_start_matches.simps)

text \<open>A text with a character across byte 4000 makes the classification panic.\<close>

lemma local_model_panics:
  "classify te ask (Some ''ollama:qwen'') rules (inp\<lparr>ci_text := replicate 3999 (CHR ''a'') @ [CHR 0xC3, CHR 0xA9]\<rparr>) = None"
proof -
  have "(replicate 3999 (CHR ''a'') @ [CHR 0xC3, CHR 0xA9]) ! 4000 = CHR 0xA9" by (simp add: nth_append)
  then show ?thesis by (simp add: classify_def classify_local_model_def local_host_def local_prompt_def truncate_str_def)
qed

section \<open>Witnesses\<close>

definition sample_rules :: classifier_rules where
  "sample_rules = \<lparr>ru_classes = [\<lparr>cl_class = ''BugFix'', cl_weight = 2, cl_keywords = [''crash'']\<rparr>],
     ru_complexity = \<lparr>cx_length_full_score_chars = 1000, cx_length_max = 1 / 2, cx_per_file_bump = 1 / 10, cx_max_file_bump = 3 / 10,
       cx_keyword_bumps = [\<lparr>kb_bump = 1 / 10, kb_floor = Some (2 / 5), kb_keywords = [''crash'']\<rparr>]\<rparr>,
     ru_multi_step = \<lparr>ms_per_token_bump = 0, ms_max_bump = 0, ms_tokens = []\<rparr>, ru_languages = [''rs'' \<mapsto> ''rust'']\<rparr>"

definition sample_input :: classify_input where
  "sample_input = from_prompt [TextBlock ''Crash in src/main.rs.''] []"

lemma sample_input_text: "ci_text sample_input = ''Crash in src/main.rs.''" "ci_mentioned_paths sample_input = [''src/main.rs'']"
  by code_simp+

lemma sample_hits: "keyword_hits sample_text_env (te_lowercase sample_text_env ''Crash in src/main.rs.'') [''crash''] = 1"
  by code_simp

end
