(* ===== verification/Pre_Classifier.thy ===== *)
theory Pre_Classifier
  imports Prompt_Classes
begin

text \<open>
  The evaluating model that classifies the first prompt of a session (\<open>pre_classifier.rs\<close>): the text
  it is given, what its reply may decide, one attempt on one evaluator, the walk over the evaluators
  down to the heuristic, and what the session takes from the result (\<open>session.rs\<close>). The JSON parser,
  the errors of the protocol library and what each evaluator does are arguments.
\<close>

section \<open>The text of the evaluator\<close>

definition ELLIPSIS :: string where "ELLIPSIS = [CHR 0xE2, CHR 0x80, CHR 0xA6]"
definition PROMPT_TRUNCATE :: nat where "PROMPT_TRUNCATE = 8000"
definition ELIDE_HEAD :: nat where "ELIDE_HEAD = 3000"
definition ELIDE_TAIL :: nat where "ELIDE_TAIL = 5000"
definition TICKET_CONTEXT_BUDGET :: nat where "TICKET_CONTEXT_BUDGET = 1200"

definition ELISION_MARKER :: string where
  "ELISION_MARKER = newline @ ''['' @ ELLIPSIS @ '' middle elided for classification '' @ ELLIPSIS @ '']'' @ newline"

definition TICKET_ELISION_MARKER :: string where
  "TICKET_ELISION_MARKER = newline @ ''['' @ ELLIPSIS @ '' ticket context truncated for classification; classify the user'' @ [CHR 0x27]
     @ ''s own message below '' @ ELLIPSIS @ '']''"

definition BLOCK_PREFIX :: string where "BLOCK_PREFIX = ''[Ticket ''"

definition BLOCK_TAG :: string where
  "BLOCK_TAG = [CHR 0xE2, CHR 0x80, CHR 0x94] @ '' loaded automatically because the prompt references it]''"

definition is_injected_ticket_block :: "string \<Rightarrow> bool" where
  "is_injected_ticket_block text \<longleftrightarrow>
     starts_with text BLOCK_PREFIX \<and> contains_str (takeWhile (\<lambda>c. c \<noteq> CHR 0x0A) text) BLOCK_TAG"

text \<open>The text after the first \<open>n\<close> characters.\<close>

fun drop_chars :: "nat \<Rightarrow> string \<Rightarrow> string" where
  "drop_chars n [] = []"
| "drop_chars n (c # cs) =
     (if utf8_tail c then drop_chars n cs
      else case n of 0 \<Rightarrow> c # cs | Suc m \<Rightarrow> drop_chars m cs)"

definition truncate_head :: "string \<Rightarrow> nat \<Rightarrow> string \<Rightarrow> string" where
  "truncate_head s m marker = (if char_count s \<le> m then s else take_chars m s @ marker)"

definition elide_middle :: "string \<Rightarrow> string" where
  "elide_middle s =
     (if char_count s \<le> PROMPT_TRUNCATE then s
      else take_chars ELIDE_HEAD s @ ELISION_MARKER @ drop_chars (char_count s - ELIDE_TAIL) s)"

fun add_classified :: "string \<Rightarrow> content_block \<Rightarrow> string" where
  "add_classified acc (TextBlock t) =
     (if acc = [] then [] else acc @ newline)
     @ (if is_injected_ticket_block t then truncate_head t TICKET_CONTEXT_BUDGET TICKET_ELISION_MARKER else t)"
| "add_classified acc _ = acc"

definition build_classified_text :: "content_block list \<Rightarrow> string" where
  "build_classified_text prompt = foldl add_classified [] prompt"

section \<open>The reply\<close>

text \<open>The parser of a JSON text is an argument: None is an error.\<close>

type_synonym json_parser = "string \<Rightarrow> json option"

definition FENCE :: string where "FENCE = [CHR 0x60, CHR 0x60, CHR 0x60]"

definition fenced_json :: "json_parser \<Rightarrow> string \<Rightarrow> json option" where
  "fenced_json parse trimmed =
     (case find_str FENCE trimmed of
        None \<Rightarrow> None
      | Some start \<Rightarrow>
          (let after0 = drop (start + 3) trimmed;
               after1 = (case opt_or (strip_prefix ''json'' after0) (strip_prefix ''JSON'' after0) of Some r \<Rightarrow> r | None \<Rightarrow> after0);
               after2 = dropWhile (\<lambda>c. c = CHR 0x0A) after1
           in case find_str FENCE after2 of
                None \<Rightarrow> None
              | Some stop \<Rightarrow> parse (trim (take stop after2))))"

definition braced_json :: "json_parser \<Rightarrow> string \<Rightarrow> json option" where
  "braced_json parse trimmed =
     (case (find_str ''{'' trimmed, rfind_str ''}'' trimmed) of
        (Some a, Some b) \<Rightarrow> if a < b then parse (drop a (take (b + 1) trimmed)) else None
      | _ \<Rightarrow> None)"

definition parse_evaluator_json :: "json_parser \<Rightarrow> string \<Rightarrow> (string, json) result" where
  "parse_evaluator_json parse raw =
     (let trimmed = trim raw in
      if trimmed = [] then Inl ''empty evaluator reply''
      else case opt_or (fenced_json parse trimmed) (opt_or (braced_json parse trimmed) (parse trimmed)) of
             Some v \<Rightarrow> Inr v
           | None \<Rightarrow> Inl ''JSON parse failed'')"

record phase_decision =
  pd_phase :: planner_phase
  pd_confidence :: real
  pd_plan_ready :: bool
  pd_reason :: string

record routing_decision =
  de_task_class :: task_class
  de_task_classes :: "task_class list"
  de_categories :: "string list"
  de_required_capabilities :: "string list"
  de_complexity :: real
  de_confidence :: real
  de_effort :: "effort_level option"
  de_reason :: string

fun phase_word :: "string \<Rightarrow> planner_phase option" where
  "phase_word s = (if s = ''planning'' then Some Planning else if s = ''implementation'' then Some Implementation else None)"

definition parse_planner_phase :: "json \<Rightarrow> phase_decision option" where
  "parse_planner_phase v =
     map_option (\<lambda>phase. \<lparr>pd_phase = phase, pd_confidence = clamp 0 1 (unwrap_or (get_f64 v ''confidence'') 0),
                          pd_plan_ready = unwrap_or (get_bool v ''plan_ready'') False, pd_reason = unwrap_or (get_str v ''reason'') []\<rparr>)
       (Option.bind (get_str v ''phase'') phase_word)"

text \<open>The effort the reply asks for: \<open>None\<close> rejects the whole decision.\<close>

definition requested_effort :: "json \<Rightarrow> effort_level option option" where
  "requested_effort v =
     (case json_get v ''effort'' of
        None \<Rightarrow> Some None
      | Some (JString s) \<Rightarrow> map_option Some (effort_parse s)
      | Some _ \<Rightarrow> None)"

fun bounded_effort :: "effort_level \<Rightarrow> effort_level option \<Rightarrow> effort_level" where
  "bounded_effort automatic (Some EffortHigh) = (if automatic = EffortHigh then EffortHigh else automatic)"
| "bounded_effort automatic (Some EffortLow) = (if automatic = EffortLow then EffortLow else automatic)"
| "bounded_effort automatic (Some EffortMedium) = EffortMedium"
| "bounded_effort automatic _ = automatic"

definition get_strings :: "json \<Rightarrow> string \<Rightarrow> string list" where
  "get_strings v k = List.map_filter as_str (unwrap_or (Option.bind (json_get v k) as_array) [])"

definition listed_classes :: "task_class \<Rightarrow> json \<Rightarrow> task_class list" where
  "listed_classes cls v =
     (let classes = List.map_filter class_parse (get_strings v ''task_classes'')
      in remdups_adj (if cls \<in> set classes then classes else cls # classes))"

definition named_strings :: "json \<Rightarrow> string \<Rightarrow> string list" where
  "named_strings v k = filter (\<lambda>s. s \<noteq> []) (map trim (get_strings v k))"

definition parse_routing :: "text_env \<Rightarrow> json \<Rightarrow> routing_decision option" where
  "parse_routing te v =
     Option.bind (Option.bind (get_str v ''task_class'') class_parse) (\<lambda>cls.
     Option.bind (get_f64 v ''complexity'') (\<lambda>complexity.
     Option.bind (get_f64 v ''confidence'') (\<lambda>confidence.
     Option.bind (requested_effort v) (\<lambda>requested.
       let reason = unwrap_or (get_str v ''reason'') []
       in Some \<lparr>de_task_class = cls, de_task_classes = listed_classes cls v, de_categories = take 8 (named_strings v ''categories''),
                de_required_capabilities = [], de_complexity = clamp 0 1 complexity, de_confidence = clamp 0 1 confidence,
                de_effort = Some (bounded_effort (automatic_effort_with_evidence te cls complexity reason) requested),
                de_reason = reason\<rparr>))))"

section \<open>Dimensions of the host\<close>

datatype act_when = FieldEquals string string | Warranted bool

record dimension =
  dm_id :: string
  dm_min_confidence :: real
  dm_act_when :: act_when
  dm_inject_prompt :: string

record pre_class =
  pc_ok :: bool
  pc_skip_reason :: "string option"
  pc_evaluator :: "string option"
  pc_routing :: "routing_decision option"
  pc_planner_phase :: "phase_decision option"
  pc_dimensions :: "(string, json) btree"
  pc_acted_modes :: "string list"
  pc_injects :: "string list"

fun act_when_matches :: "act_when \<Rightarrow> json \<Rightarrow> bool" where
  "act_when_matches (FieldEquals f equals) v = (get_str v f = Some equals)"
| "act_when_matches (Warranted warranted) v = (get_bool v ''warranted'' = Some warranted)"

definition dimension_chip :: "string \<Rightarrow> string" where
  "dimension_chip i = (if i = ''ui_planning'' then ''UI'' else i)"

definition dimension_confidence :: "json \<Rightarrow> real" where
  "dimension_confidence v = unwrap_or (get_f64 v ''confidence'') 0"

definition CAPABILITY_LIMIT :: nat where "CAPABILITY_LIMIT = 16"

definition add_capability :: "string \<Rightarrow> string list \<Rightarrow> string list" where
  "add_capability capability caps = (if CAPABILITY_LIMIT \<le> length caps \<or> capability \<in> set caps then caps else caps @ [capability])"

definition add_capabilities :: "json \<Rightarrow> routing_decision \<Rightarrow> routing_decision" where
  "add_capabilities v d =
     d\<lparr>de_required_capabilities := fold add_capability (named_strings v ''required_capabilities'') (de_required_capabilities d)\<rparr>"

definition apply_dimension :: "json \<Rightarrow> dimension \<Rightarrow> pre_class \<Rightarrow> pre_class" where
  "apply_dimension parsed dmn r =
     (case json_get parsed (dm_id dmn) of
        None \<Rightarrow> r
      | Some v \<Rightarrow>
          (let sure = dm_min_confidence dmn \<le> dimension_confidence v;
               r1 = r\<lparr>pc_dimensions := bt_insert (dm_id dmn) v (pc_dimensions r),
                      pc_routing := (if sure then map_option (add_capabilities v) (pc_routing r) else pc_routing r)\<rparr>
           in if sure \<and> act_when_matches (dm_act_when dmn) v
              then let chip = dimension_chip (dm_id dmn)
                   in r1\<lparr>pc_acted_modes := (if chip \<in> set (pc_acted_modes r1) then pc_acted_modes r1 else pc_acted_modes r1 @ [chip]),
                         pc_injects := (if blank (dm_inject_prompt dmn) then pc_injects r1 else pc_injects r1 @ [dm_inject_prompt dmn])\<rparr>
              else r1))"

definition apply_thresholds :: "text_env \<Rightarrow> strategy_kind \<Rightarrow> dimension list \<Rightarrow> json \<Rightarrow> string option \<Rightarrow> pre_class" where
  "apply_thresholds te router dimensions parsed evaluator =
     fold (apply_dimension parsed) dimensions
       \<lparr>pc_ok = True, pc_skip_reason = None, pc_evaluator = evaluator,
        pc_routing = Option.bind (json_get parsed ''routing'') (parse_routing te),
        pc_planner_phase = (if router = PlannerStrategy then Option.bind (json_get parsed ''planner_phase'') parse_planner_phase else None),
        pc_dimensions = [], pc_acted_modes = [], pc_injects = []\<rparr>"

definition fail_open :: "string \<Rightarrow> string option \<Rightarrow> pre_class" where
  "fail_open reason evaluator =
     \<lparr>pc_ok = False, pc_skip_reason = Some reason, pc_evaluator = evaluator, pc_routing = None, pc_planner_phase = None,
      pc_dimensions = [], pc_acted_modes = [], pc_injects = []\<rparr>"

section \<open>One attempt on an evaluator\<close>

text \<open>
  What the code uses of the parser and of the protocol library, and what happens on one evaluator:
  its session opens or not (an evaluator without modes says so), it may call a tool, and its turn
  fails or leaves a text.
\<close>

record evaluator_env =
  ee_text :: text_env
  ee_parse :: json_parser
  ee_internal_error :: "string \<Rightarrow> router_failure"
  ee_auth_required :: "string \<Rightarrow> router_failure"

datatype open_result = OpenTimedOut | OpenFailed router_failure | Opened bool

record evaluator_run =
  er_open :: open_result
  er_violation :: bool
  er_turn :: "router_failure option"
  er_cancelled :: bool
  er_raw :: string

definition AUTH_REPLIES :: "string list" where
  "AUTH_REPLIES = [''Failed to authenticate: OAuth session expired and could not be refreshed'',
     ''Failed to authenticate: OAuth token revoked. Please log in again or contact your administrator'',
     ''Authentication required'', ''Not logged in. Please run /login'']"

definition response_is_auth_error :: "string \<Rightarrow> bool" where
  "response_is_auth_error text \<longleftrightarrow> trim_end_chars ''.'' (trim text) \<in> set AUTH_REPLIES"

definition strip_mock_echo :: "string \<Rightarrow> string" where
  "strip_mock_echo raw =
     (case Option.bind (strip_prefix ''echo:'' raw) (split_once (CHR '':'')) of Some (_, body) \<Rightarrow> body | None \<Rightarrow> raw)"

definition evaluate_on_candidate ::
  "evaluator_env \<Rightarrow> strategy_kind \<Rightarrow> dimension list \<Rightarrow> candidate_id \<Rightarrow> evaluator_run \<Rightarrow> (router_failure, pre_class) result" where
  "evaluate_on_candidate env router dimensions cand run =
     (let name = candidate_display cand in
      case er_open run of
        OpenTimedOut \<Rightarrow> Inr (fail_open ''evaluator session open timed out'' (Some name))
      | OpenFailed f \<Rightarrow> if rf_auth_required f then Inl f else Inr (fail_open (''evaluator session open failed: '' @ rf_text f) (Some name))
      | Opened mode_less \<Rightarrow>
          if er_violation run
          then (if mode_less then Inr (fail_open ''mode-less evaluator attempted tool use (structural, not cordoned)'' (Some name))
                else Inl (ee_internal_error env ''evaluator attempted tool use''))
          else case er_turn run of
                 Some f \<Rightarrow> if er_cancelled run then Inr (fail_open ''evaluator cancelled by client'' (Some name)) else Inl f
               | None \<Rightarrow>
                   if response_is_auth_error (er_raw run)
                   then Inl (ee_auth_required env ''Provider reported an authentication error'')
                   else case parse_evaluator_json (ee_parse env) (strip_mock_echo (er_raw run)) of
                          Inr parsed \<Rightarrow> Inr (apply_thresholds (ee_text env) router dimensions parsed (Some name))
                        | Inl e \<Rightarrow> Inr (fail_open (''parse failed: '' @ e) (Some name)))"

section \<open>The walk over the evaluators\<close>

text \<open>
  One round: whether the client has cancelled, the router's state and clocks when the evaluator is
  chosen, what other sessions did to the tracker since the last round, what the chosen evaluator
  does, whether its credentials were repaired after a refusal and what it does then, and the clocks
  when a failure is recorded.
\<close>

record eval_round =
  ev_cancelled :: bool
  ev_shared :: shared_state
  ev_now :: instant
  ev_wall :: instant
  ev_between :: "tracker \<Rightarrow> tracker"
  ev_run :: "candidate_id \<Rightarrow> evaluator_run"
  ev_repaired :: bool
  ev_rerun :: "candidate_id \<Rightarrow> evaluator_run"
  ev_failed_now :: instant
  ev_failed_wall :: instant

record pre_classifier_config =
  pcc_enabled :: bool
  pcc_evaluator :: "string list"
  pcc_dimensions :: "dimension list"
  pcc_evaluator_cwd :: "string option"
  pcc_router :: strategy_kind

definition should_run :: "pre_classifier_config \<Rightarrow> bool \<Rightarrow> bool \<Rightarrow> bool" where
  "should_run cfg already_ran eligible_turn \<longleftrightarrow> pcc_enabled cfg \<and> eligible_turn \<and> \<not> already_ran"

definition evaluator_workspace :: "pre_classifier_config \<Rightarrow> string \<Rightarrow> string list \<Rightarrow> string \<times> string list" where
  "evaluator_workspace cfg session_cwd session_dirs =
     (case pcc_evaluator_cwd cfg of Some dir \<Rightarrow> (dir, []) | None \<Rightarrow> (session_cwd, session_dirs))"

definition choose_evaluator ::
  "pre_classifier_config \<Rightarrow> task_class \<Rightarrow> eval_round \<Rightarrow> string list \<Rightarrow> tracker \<Rightarrow> candidate_id option \<times> tracker" where
  "choose_evaluator cfg cls rd excluded t =
     (case first_eligible_candidate (ev_shared rd) (pcc_evaluator cfg) cls excluded (ev_now rd) (ev_wall rd) t of
        (Some c, t1) \<Rightarrow> (Some c, t1)
      | (None, t1) \<Rightarrow> first_eligible_candidate (ev_shared rd) [''*''] cls excluded (ev_now rd) (ev_wall rd) t1)"

definition try_evaluator ::
  "evaluator_env \<Rightarrow> pre_classifier_config \<Rightarrow> eval_round \<Rightarrow> candidate_id \<Rightarrow> (router_failure, pre_class) result" where
  "try_evaluator env cfg rd cand =
     (let outcome = evaluate_on_candidate env (pcc_router cfg) (pcc_dimensions cfg) cand (ev_run rd cand) in
      case outcome of
        Inr _ \<Rightarrow> outcome
      | Inl f \<Rightarrow> if rf_auth_required f \<and> ev_repaired rd
                 then evaluate_on_candidate env (pcc_router cfg) (pcc_dimensions cfg) cand (ev_rerun rd cand) else outcome)"

definition routing_from_static_profile :: "task_profile \<Rightarrow> string \<Rightarrow> routing_decision" where
  "routing_from_static_profile profile skip_reason =
     \<lparr>de_task_class = tp_class profile, de_task_classes = [], de_categories = [], de_required_capabilities = [],
      de_complexity = tp_complexity profile, de_confidence = 0, de_effort = tp_effort profile,
      de_reason = ''static keyword classifier fallback: '' @ skip_reason\<rparr>"

definition static_fallback :: "task_profile \<Rightarrow> pre_class option \<Rightarrow> pre_class" where
  "static_fallback profile last_fail =
     (let skip_reason = (case last_fail of Some r \<Rightarrow> unwrap_or (pc_skip_reason r) ''no routing decision''
                         | None \<Rightarrow> ''no evaluator candidate available'')
      in \<lparr>pc_ok = True, pc_skip_reason = Some skip_reason, pc_evaluator = Some ''static-classifier'',
          pc_routing = Some (routing_from_static_profile profile skip_reason), pc_planner_phase = None,
          pc_dimensions = [], pc_acted_modes = [], pc_injects = []\<rparr>)"

text \<open>
  The walk, with the evaluators tried; the round number counts on. Its result is None where the code
  panics: the heuristic profile is None, or the text of a failure cannot be cut.
\<close>

record walk_end =
  we_result :: "pre_class option"
  we_tried :: "candidate_id list"
  we_tracker :: tracker

fun evaluate_walk ::
  "nat \<Rightarrow> evaluator_env \<Rightarrow> pre_classifier_config \<Rightarrow> task_class \<Rightarrow> task_profile option \<Rightarrow> (nat \<Rightarrow> eval_round) \<Rightarrow> nat \<Rightarrow>
   candidate_id list \<Rightarrow> string list \<Rightarrow> pre_class option \<Rightarrow> tracker \<Rightarrow> walk_end option"
where
  "evaluate_walk 0 env cfg cls profile rounds n tried excluded last_fail t = None"
| "evaluate_walk (Suc fuel) env cfg cls profile rounds n tried excluded last_fail t =
     (let rd = rounds n in
      if ev_cancelled rd then Some \<lparr>we_result = Some (fail_open ''pre-class cancelled by client'' None), we_tried = tried, we_tracker = t\<rparr>
      else case choose_evaluator cfg cls rd excluded (ev_between rd t) of
             (None, t1) \<Rightarrow> Some \<lparr>we_result = map_option (\<lambda>p. static_fallback p last_fail) profile, we_tried = tried, we_tracker = t1\<rparr>
           | (Some cand, t1) \<Rightarrow>
               (let name = candidate_display cand in
                if name \<in> set (map candidate_display tried)
                then evaluate_walk fuel env cfg cls profile rounds (Suc n) tried (excluded @ [name]) last_fail t1
                else case try_evaluator env cfg rd cand of
                       Inr r \<Rightarrow> if pc_routing r \<noteq> None then Some \<lparr>we_result = Some r, we_tried = tried @ [cand], we_tracker = t1\<rparr>
                                else evaluate_walk fuel env cfg cls profile rounds (Suc n) (tried @ [cand]) (excluded @ [name]) (Some r) t1
                     | Inl f \<Rightarrow>
                         (case apply_failure (ee_text env) (ev_shared rd) cand f (ev_failed_now rd) (ev_failed_wall rd) t1 of
                            (None, t2) \<Rightarrow> Some \<lparr>we_result = None, we_tried = tried @ [cand], we_tracker = t2\<rparr>
                          | (Some human, t2) \<Rightarrow>
                              evaluate_walk fuel env cfg cls profile rounds (Suc n) (tried @ [cand]) (excluded @ [name])
                                (Some (fail_open (''evaluator '' @ name @ '' failed: '' @ human) (Some name))) t2)))"

definition evaluate ::
  "nat \<Rightarrow> evaluator_env \<Rightarrow> pre_classifier_config \<Rightarrow> task_profile option \<Rightarrow> (nat \<Rightarrow> eval_round) \<Rightarrow> router_session \<Rightarrow> tracker \<Rightarrow> walk_end option" where
  "evaluate fuel env cfg profile rounds s t =
     (if \<not> pcc_enabled cfg then Some \<lparr>we_result = Some (fail_open ''pre_classifier disabled'' None), we_tried = [], we_tracker = t\<rparr>
      else evaluate_walk fuel env cfg (unwrap_or (rs_task_class s) CodingGeneral) profile rounds 0 [] (rs_excluded s) None t)"

section \<open>What the session takes\<close>

record preclass_session =
  ps_done :: bool
  ps_profile :: "task_profile option"
  ps_capabilities :: "string list"
  ps_injects :: "string list"

definition profile_of_decision :: "string list \<Rightarrow> routing_decision \<Rightarrow> task_profile" where
  "profile_of_decision languages d =
     \<lparr>tp_class = de_task_class d, tp_complexity = de_complexity d, tp_languages = languages,
      tp_effort = opt_or (de_effort d) (Some (automatic_effort (de_task_class d) (de_complexity d)))\<rparr>"

text \<open>Without a decision the prompt is refused with the reason and nothing is kept, so a retry classifies again.\<close>

definition take_preclass :: "string \<Rightarrow> string list \<Rightarrow> pre_class \<Rightarrow> preclass_session \<Rightarrow> (string, preclass_session) result" where
  "take_preclass decision_note languages r s =
     (case pc_routing r of
        None \<Rightarrow> Inl (unwrap_or (pc_skip_reason r) ''no classification result'')
      | Some d \<Rightarrow> Inr \<lparr>ps_done = True, ps_profile = Some (profile_of_decision languages d),
                       ps_capabilities = de_required_capabilities d, ps_injects = ps_injects s @ [decision_note] @ pc_injects r\<rparr>)"

section \<open>Characters\<close>

lemma char_count_simps [simp]:
  "char_count [] = 0" "char_count (c # cs) = (if utf8_tail c then char_count cs else Suc (char_count cs))"
  "char_count (a @ b) = char_count a + char_count b"
  by (simp_all add: char_count_def)

lemma take_drop_chars: "take_chars n s @ drop_chars n s = s"
  by (induction n s rule: take_chars.induct) (auto split: nat.splits)

lemma char_count_take: "char_count (take_chars n s) = min n (char_count s)"
  by (induction n s rule: take_chars.induct) (auto split: nat.splits)

lemma char_count_drop: "char_count (drop_chars n s) = char_count s - n"
proof -
  have "char_count s = char_count (take_chars n s) + char_count (drop_chars n s)"
    by (metis take_drop_chars char_count_simps(3))
  then show ?thesis by (simp add: char_count_take)
qed

lemma drop_chars_append:
  "n \<le> char_count s \<Longrightarrow> \<not> (t \<noteq> [] \<and> utf8_tail (hd t)) \<Longrightarrow> drop_chars n (s @ t) = drop_chars n s @ t"
proof (induction n s rule: drop_chars.induct)
  case (1 n)
  then show ?case by (cases t) auto
next
  case (2 n c cs)
  then show ?case by (cases n) auto
qed

lemma elide_length:
  "char_count (elide_middle s) = (if char_count s \<le> PROMPT_TRUNCATE then char_count s else PROMPT_TRUNCATE + char_count ELISION_MARKER)"
  by (simp add: elide_middle_def char_count_take char_count_drop PROMPT_TRUNCATE_def ELIDE_HEAD_def ELIDE_TAIL_def)

text \<open>The marker is not counted: an elided text is longer than the cap it is cut to.\<close>

lemma elided_over_cap: "PROMPT_TRUNCATE < char_count s \<Longrightarrow> PROMPT_TRUNCATE < char_count (elide_middle s)"
proof -
  have "0 < char_count ELISION_MARKER" by code_simp
  then show "PROMPT_TRUNCATE < char_count s \<Longrightarrow> PROMPT_TRUNCATE < char_count (elide_middle s)" by (simp add: elide_length)
qed

lemma classified_last:
  assumes "\<not> is_injected_ticket_block ask"
  shows "\<exists>ctx. build_classified_text (before @ [TextBlock ask]) = ctx @ ask"
  using assms by (simp add: build_classified_text_def)

text \<open>
  C38. The evaluator always reads the request itself. When the last block of a prompt is the user's
  own text of at most five thousand characters, the text given to the evaluator ends with all of it,
  whatever tickets and context stand before; and at most eight thousand characters and the mark of
  the elision are sent.
\<close>
theorem evaluator_reads_request:
  assumes "\<not> is_injected_ticket_block ask" and "char_count ask \<le> 5000" and "ask \<noteq> [] \<Longrightarrow> \<not> utf8_tail (hd ask)"
  shows "(\<exists>ctx. elide_middle (build_classified_text (before @ [TextBlock ask])) = ctx @ ask) \<and>
    char_count (elide_middle (build_classified_text (before @ [TextBlock ask]))) \<le> 8000 + char_count ELISION_MARKER"
proof -
  obtain ctx where b: "build_classified_text (before @ [TextBlock ask]) = ctx @ ask" using classified_last [OF assms(1)] by blast
  have "\<exists>ctx'. elide_middle (ctx @ ask) = ctx' @ ask"
  proof (cases "char_count (ctx @ ask) \<le> PROMPT_TRUNCATE")
    case False
    have "char_count (ctx @ ask) - ELIDE_TAIL \<le> char_count ctx" using assms(2) by (simp add: ELIDE_TAIL_def)
    then have "drop_chars (char_count (ctx @ ask) - ELIDE_TAIL) (ctx @ ask) = drop_chars (char_count (ctx @ ask) - ELIDE_TAIL) ctx @ ask"
      by (rule drop_chars_append) (use assms(3) in blast)
    then show ?thesis using False by (simp add: elide_middle_def)
  qed (simp add: elide_middle_def)
  moreover have "char_count (elide_middle s) \<le> 8000 + char_count ELISION_MARKER" for s
    unfolding elide_length by (simp add: PROMPT_TRUNCATE_def)
  ultimately show ?thesis unfolding b by blast
qed

section \<open>What a reply may decide\<close>

definition effort_guarded :: "text_env \<Rightarrow> routing_decision \<Rightarrow> bool" where
  "effort_guarded te d \<longleftrightarrow>
     (case de_effort d of
        Some EffortHigh \<Rightarrow> has_concrete_difficulty_evidence te (de_reason d)
      | Some EffortLow \<Rightarrow> de_complexity d \<le> 15 / 100 \<and> (de_task_class d = UiTweak \<or> de_task_class d = Writing)
      | Some EffortMedium \<Rightarrow> True
      | _ \<Rightarrow> False)"

definition decision_core :: "text_env \<Rightarrow> routing_decision \<Rightarrow> bool" where
  "decision_core te d \<longleftrightarrow>
     0 \<le> de_complexity d \<and> de_complexity d \<le> 1 \<and> 0 \<le> de_confidence d \<and> de_confidence d \<le> 1 \<and> effort_guarded te d \<and>
     de_task_class d \<in> set (de_task_classes d) \<and> length (de_categories d) \<le> 8"

text \<open>A capability that a configured dimension of the reply names, with the confidence it needs.\<close>

definition offered_capability :: "json \<Rightarrow> dimension list \<Rightarrow> string \<Rightarrow> bool" where
  "offered_capability parsed dims capability \<longleftrightarrow>
     (\<exists>dmn \<in> set dims. \<exists>v. json_get parsed (dm_id dmn) = Some v \<and> dm_min_confidence dmn \<le> dimension_confidence v \<and>
        capability \<in> set (named_strings v ''required_capabilities''))"

definition acting :: "json \<Rightarrow> dimension \<Rightarrow> bool" where
  "acting parsed dmn \<longleftrightarrow>
     is_some_and (json_get parsed (dm_id dmn)) (\<lambda>v. dm_min_confidence dmn \<le> dimension_confidence v \<and> act_when_matches (dm_act_when dmn) v)"

lemma bounded_effort_cases: "bounded_effort automatic requested = EffortMedium \<or> bounded_effort automatic requested = automatic"
  by (cases "(automatic, requested)" rule: bounded_effort.cases) auto

lemma parse_routing_core: "parse_routing te v = Some d \<Longrightarrow> decision_core te d \<and> de_required_capabilities d = []"
proof -
  assume "parse_routing te v = Some d"
  then obtain cls complexity confidence requested where d: "d = \<lparr>de_task_class = cls, de_task_classes = listed_classes cls v,
      de_categories = take 8 (named_strings v ''categories''), de_required_capabilities = [], de_complexity = clamp 0 1 complexity,
      de_confidence = clamp 0 1 confidence,
      de_effort = Some (bounded_effort (automatic_effort_with_evidence te cls complexity (unwrap_or (get_str v ''reason'') [])) requested),
      de_reason = unwrap_or (get_str v ''reason'') []\<rparr>"
    by (auto simp: parse_routing_def bind_eq_Some_conv Let_def)
  have "effort_guarded te d"
    using bounded_effort_cases [of "automatic_effort_with_evidence te cls complexity (unwrap_or (get_str v ''reason'') [])" requested]
    by (auto simp: d effort_guarded_def automatic_effort_with_evidence_def automatic_effort_def)
  moreover have "cls \<in> set (listed_classes cls v)" by (simp add: listed_classes_def Let_def)
  ultimately show ?thesis using clamp_bounds [of 0 1 complexity] clamp_bounds [of 0 1 confidence]
    by (simp add: decision_core_def d)
qed

lemma add_capability_fold:
  assumes "distinct caps" and "length caps \<le> CAPABILITY_LIMIT"
  shows "distinct (fold add_capability cs caps) \<and> length (fold add_capability cs caps) \<le> CAPABILITY_LIMIT \<and>
    set (fold add_capability cs caps) \<subseteq> set caps \<union> set cs"
  using assms
proof (induction cs arbitrary: caps)
  case (Cons c cs)
  have "distinct (add_capability c caps) \<and> length (add_capability c caps) \<le> CAPABILITY_LIMIT \<and> set (add_capability c caps) \<subseteq> insert c (set caps)"
    using Cons.prems by (auto simp: add_capability_def)
  then show ?case using Cons.IH [of "add_capability c caps"] by auto
qed simp

text \<open>What holds while the dimensions are applied.\<close>

definition result_sound :: "text_env \<Rightarrow> json \<Rightarrow> dimension list \<Rightarrow> pre_class \<Rightarrow> bool" where
  "result_sound te parsed dims r \<longleftrightarrow>
     (case pc_routing r of
        None \<Rightarrow> True
      | Some d \<Rightarrow> decision_core te d \<and> distinct (de_required_capabilities d) \<and> length (de_required_capabilities d) \<le> CAPABILITY_LIMIT \<and>
                 list_all (offered_capability parsed dims) (de_required_capabilities d)) \<and>
     distinct (pc_acted_modes r) \<and> set (pc_acted_modes r) = dimension_chip ` dm_id ` {dmn \<in> set dims. acting parsed dmn} \<and>
     pc_injects r = map dm_inject_prompt (filter (\<lambda>dmn. acting parsed dmn \<and> \<not> blank (dm_inject_prompt dmn)) dims)"

lemma core_capabilities [simp]: "decision_core te (d\<lparr>de_required_capabilities := caps\<rparr>) = decision_core te d"
  by (simp add: decision_core_def effort_guarded_def split: option.split effort_level.split)

lemma offered_more: "offered_capability parsed dims c \<Longrightarrow> offered_capability parsed (dims @ later) c"
  by (auto simp: offered_capability_def)

lemma apply_dimension_sound:
  assumes "result_sound te parsed dims r"
  shows "result_sound te parsed (dims @ [dmn]) (apply_dimension parsed dmn r)"
proof (cases "json_get parsed (dm_id dmn)")
  case None
  then have "{d \<in> set (dims @ [dmn]). acting parsed d} = {d \<in> set dims. acting parsed d}" "\<not> acting parsed dmn"
    by (auto simp: acting_def)
  then show ?thesis using assms None
    by (auto simp: result_sound_def apply_dimension_def list_all_iff offered_more split: option.splits)
next
  case (Some v)
  let ?sure = "dm_min_confidence dmn \<le> dimension_confidence v"
  have act: "acting parsed dmn \<longleftrightarrow> ?sure \<and> act_when_matches (dm_act_when dmn) v" by (simp add: acting_def Some)
  have sets: "{d \<in> set (dims @ [dmn]). acting parsed d} = (if acting parsed dmn then insert dmn else id) {d \<in> set dims. acting parsed d}"
    by auto
  have routing: "pc_routing (apply_dimension parsed dmn r) = (if ?sure then map_option (add_capabilities v) (pc_routing r) else pc_routing r)"
    by (simp add: apply_dimension_def Some Let_def)
  have modes: "pc_acted_modes (apply_dimension parsed dmn r) =
      (if acting parsed dmn \<and> dimension_chip (dm_id dmn) \<notin> set (pc_acted_modes r) then pc_acted_modes r @ [dimension_chip (dm_id dmn)]
       else pc_acted_modes r)"
    and injects: "pc_injects (apply_dimension parsed dmn r) =
      (if acting parsed dmn \<and> \<not> blank (dm_inject_prompt dmn) then pc_injects r @ [dm_inject_prompt dmn] else pc_injects r)"
    by (simp_all add: apply_dimension_def Some Let_def act)
  have "case pc_routing (apply_dimension parsed dmn r) of None \<Rightarrow> True
      | Some d \<Rightarrow> decision_core te d \<and> distinct (de_required_capabilities d) \<and> length (de_required_capabilities d) \<le> CAPABILITY_LIMIT \<and>
                 list_all (offered_capability parsed (dims @ [dmn])) (de_required_capabilities d)"
  proof (cases "pc_routing r")
    case None
    then show ?thesis by (simp add: routing)
  next
    case d: (Some d)
    have old: "decision_core te d" "distinct (de_required_capabilities d)" "length (de_required_capabilities d) \<le> CAPABILITY_LIMIT"
        "\<forall>c \<in> set (de_required_capabilities d). offered_capability parsed (dims @ [dmn]) c"
      using assms d offered_more by (auto simp: result_sound_def list_all_iff)
    have new: "offered_capability parsed (dims @ [dmn]) c" if "?sure" "c \<in> set (named_strings v ''required_capabilities'')" for c
      using that Some by (auto simp: offered_capability_def)
    note caps = add_capability_fold [OF old(2,3), of "named_strings v ''required_capabilities''"]
    show ?thesis
    proof (cases ?sure)
      case True
      then show ?thesis using old caps new by (simp add: routing d add_capabilities_def list_all_iff) blast
    next
      case False
      then show ?thesis using old by (simp add: routing d list_all_iff)
    qed
  qed
  then show ?thesis using assms unfolding result_sound_def modes injects sets by auto
qed

lemma apply_dimensions_sound:
  "result_sound te parsed dims r \<Longrightarrow> result_sound te parsed (dims @ later) (fold (apply_dimension parsed) later r)"
proof (induction later arbitrary: dims r)
  case (Cons dmn later)
  from Cons.IH [OF apply_dimension_sound [OF Cons.prems, of dmn]] show ?case by simp
qed simp

text \<open>
  C18. What an evaluator's reply can decide. Complexity and confidence are shares; high effort only
  when the reason it gives names concrete difficulty, low only for a trivial edit or text, and never
  more than high; the chosen class is among the classes. The capabilities it demands, at most sixteen
  and distinct, are each named under a configured dimension of sufficient confidence, never by the
  reply alone. And exactly the configured dimensions that are confident and match act: their labels
  are the modes, and their texts that are not blank are injected, in order.
\<close>
theorem evaluated_decision_bounded:
  fixes te router dims parsed evaluator
  defines "r \<equiv> apply_thresholds te router dims parsed evaluator"
  shows "(\<forall>d. pc_routing r = Some d \<longrightarrow>
       0 \<le> de_complexity d \<and> de_complexity d \<le> 1 \<and> 0 \<le> de_confidence d \<and> de_confidence d \<le> 1 \<and> effort_guarded te d \<and>
       de_task_class d \<in> set (de_task_classes d) \<and> length (de_categories d) \<le> 8 \<and>
       distinct (de_required_capabilities d) \<and> length (de_required_capabilities d) \<le> 16 \<and>
       (\<forall>c \<in> set (de_required_capabilities d). offered_capability parsed dims c)) \<and>
    distinct (pc_acted_modes r) \<and> set (pc_acted_modes r) = dimension_chip ` dm_id ` {dmn \<in> set dims. acting parsed dmn} \<and>
    pc_injects r = map dm_inject_prompt (filter (\<lambda>dmn. acting parsed dmn \<and> \<not> blank (dm_inject_prompt dmn)) dims)"
proof -
  have "result_sound te parsed [] \<lparr>pc_ok = True, pc_skip_reason = None, pc_evaluator = evaluator,
        pc_routing = Option.bind (json_get parsed ''routing'') (parse_routing te), pc_planner_phase = p,
        pc_dimensions = [], pc_acted_modes = [], pc_injects = []\<rparr>" for p
    by (auto simp: result_sound_def split: option.split dest!: parse_routing_core simp: bind_eq_Some_conv)
  from apply_dimensions_sound [OF this, of dims] have "result_sound te parsed dims r"
    unfolding r_def apply_thresholds_def by simp
  then show ?thesis by (auto simp: result_sound_def decision_core_def list_all_iff CAPABILITY_LIMIT_def)
qed

section \<open>The walk ends\<close>

lemma first_eligible_member:
  assumes "first_eligible_candidate sh patterns cls excluded now wall t = (Some i, t')"
  shows "\<not> is_excluded i excluded \<and> i \<in> cr_id ` set (sh_candidates sh)"
proof -
  obtain v where v: "v \<in> set (fst (pattern_views sh patterns cls excluded now wall t))" "cv_id v = i"
    using assms by (auto simp: first_eligible_candidate_def split_beta Let_def set_map_filter dest!: last_max_mem)
  then obtain c where "c \<in> set (routeable_candidates_inner sh False)" "cv_id v = cr_id c"
    using eligible_passes unfolding pattern_views_def by (fastforce simp: pool_request_default_def)
  then have "i \<in> cr_id ` set (sh_candidates sh)" using v(2) by (auto simp: routeable_candidates_inner_def)
  then show ?thesis using pattern_views_member [OF v(1)] v(2) by simp
qed

lemma choose_member:
  assumes "choose_evaluator cfg cls rd excluded t = (Some i, t')"
  shows "\<not> is_excluded i excluded \<and> i \<in> cr_id ` set (sh_candidates (ev_shared rd))"
proof -
  obtain o1 t1 where f: "first_eligible_candidate (ev_shared rd) (pcc_evaluator cfg) cls excluded (ev_now rd) (ev_wall rd) t = (o1, t1)"
    by fastforce
  show ?thesis
  proof (cases o1)
    case None
    then show ?thesis using assms f first_eligible_member by (auto simp: choose_evaluator_def)
  next
    case (Some j)
    then show ?thesis using assms f first_eligible_member [OF f [unfolded Some]] by (simp add: choose_evaluator_def)
  qed
qed

lemma excluded_display: "candidate_display i \<in> set excluded \<Longrightarrow> is_excluded i excluded"
  using glob_match_refl by (auto simp: is_excluded_def candidate_matches_def list_ex_iff)

lemma apply_failure_None:
  "apply_failure te sh i f now wall t = (None, t') \<Longrightarrow> truncate_str 160 (rf_text f) = None"
  by (auto simp: apply_failure_def Let_def split: if_splits failure_class.splits option.splits)

text \<open>How the walk may end, from a state in which some evaluators were tried.\<close>

definition walk_sound ::
  "evaluator_env \<Rightarrow> pre_classifier_config \<Rightarrow> task_profile option \<Rightarrow> (nat \<Rightarrow> eval_round) \<Rightarrow> candidate_id set \<Rightarrow> candidate_id list \<Rightarrow>
   string list \<Rightarrow> walk_end \<Rightarrow> bool"
where
  "walk_sound env cfg profile rounds C tried excluded e \<longleftrightarrow>
     distinct (we_tried e) \<and> set (we_tried e) \<subseteq> set tried \<union> {c \<in> C. \<not> is_excluded c excluded} \<and>
     (case we_result e of
        None \<Rightarrow> profile = None \<or> (\<exists>n c f. c \<in> set (we_tried e) \<and> try_evaluator env cfg (rounds n) c = Inl f \<and> truncate_str 160 (rf_text f) = None)
      | Some r \<Rightarrow>
          (pc_routing r = None \<and> (\<exists>n. ev_cancelled (rounds n))) \<or>
          (\<exists>p last_fail. profile = Some p \<and> r = static_fallback p last_fail) \<or>
          (pc_routing r \<noteq> None \<and> (\<exists>n c. c \<in> set (we_tried e) \<and> try_evaluator env cfg (rounds n) c = Inr r)))"

lemma walk_sound_step:
  assumes "walk_sound env cfg profile rounds C tried' (excluded @ [candidate_display c]) e"
    and "set tried' \<subseteq> insert c (set tried)" and "c \<in> C" and "\<not> is_excluded c excluded"
  shows "walk_sound env cfg profile rounds C tried excluded e"
  using assms unfolding walk_sound_def is_excluded_append by blast

lemma evaluate_walk_ends:
  assumes "finite C" and "\<And>n. cr_id ` set (sh_candidates (ev_shared (rounds n))) \<subseteq> C"
    and "card {c \<in> C. \<not> is_excluded c excluded} < fuel" and "distinct tried" and "candidate_display ` set tried \<subseteq> set excluded"
  shows "\<exists>e. evaluate_walk fuel env cfg cls profile rounds n tried excluded last_fail t = Some e \<and>
    walk_sound env cfg profile rounds C tried excluded e"
  using assms(3-)
proof (induction fuel arbitrary: n tried excluded last_fail t)
  case (Suc fuel)
  let ?rd = "rounds n"
  show ?case
  proof (cases "ev_cancelled ?rd")
    case True
    then show ?thesis using Suc.prems by (auto simp: Let_def walk_sound_def fail_open_def)
  next
    case live: False
    obtain o1 t1 where ch: "choose_evaluator cfg cls ?rd excluded (ev_between ?rd t) = (o1, t1)" by fastforce
    show ?thesis
    proof (cases o1)
      case None
      then show ?thesis using live ch Suc.prems(2) by (cases profile) (auto simp: Let_def walk_sound_def)
    next
      case (Some c)
      have c: "\<not> is_excluded c excluded" "c \<in> C" using choose_member [OF ch [unfolded Some]] assms(2) by auto
      have fresh: "candidate_display c \<notin> candidate_display ` set tried" using c(1) Suc.prems(3) excluded_display by blast
      have "{d \<in> C. \<not> is_excluded d (excluded @ [candidate_display c])} \<subset> {d \<in> C. \<not> is_excluded d excluded}"
        using c excluded_display [of c "[candidate_display c]"] by (auto simp: is_excluded_append)
      then have "card {d \<in> C. \<not> is_excluded d (excluded @ [candidate_display c])} < card {d \<in> C. \<not> is_excluded d excluded}"
        using assms(1) by (intro psubset_card_mono) simp_all
      then have less: "card {d \<in> C. \<not> is_excluded d (excluded @ [candidate_display c])} < fuel" using Suc.prems(1) by simp
      have dist: "distinct (tried @ [c])" using Suc.prems(2) fresh by auto
      have names: "candidate_display ` set (tried @ [c]) \<subseteq> set (excluded @ [candidate_display c])" using Suc.prems(3) by auto
      have rest: "\<exists>e. evaluate_walk fuel env cfg cls profile rounds (Suc n) (tried @ [c]) (excluded @ [candidate_display c]) l u = Some e \<and>
          walk_sound env cfg profile rounds C tried excluded e" for l u
        using Suc.IH [OF less dist names, of "Suc n" l u] walk_sound_step [where tried' = "tried @ [c]", OF _ _ c(2,1)] by fastforce
      have here: "set (tried @ [c]) \<subseteq> set tried \<union> {d \<in> C. \<not> is_excluded d excluded}" using c by auto
      show ?thesis
      proof (cases "try_evaluator env cfg ?rd c")
        case (Inr r)
        show ?thesis
        proof (cases "pc_routing r = None")
          case True
          then show ?thesis using live ch Some fresh Inr rest by (simp add: Let_def)
        next
          case False
          have "walk_sound env cfg profile rounds C tried excluded \<lparr>we_result = Some r, we_tried = tried @ [c], we_tracker = t1\<rparr>"
            using dist here False Inr by (auto simp: walk_sound_def)
          then show ?thesis using live ch Some fresh Inr False by (simp add: Let_def)
        qed
      next
        case (Inl f)
        obtain o2 t2 where a: "apply_failure (ee_text env) (ev_shared ?rd) c f (ev_failed_now ?rd) (ev_failed_wall ?rd) t1 = (o2, t2)" by fastforce
        show ?thesis
        proof (cases o2)
          case None
          have "walk_sound env cfg profile rounds C tried excluded \<lparr>we_result = None, we_tried = tried @ [c], we_tracker = t2\<rparr>"
            using dist here Inl apply_failure_None [OF a [unfolded None]] by (auto simp: walk_sound_def)
          then show ?thesis using live ch Some fresh Inl a None by (simp add: Let_def)
        next
          case human: (Some h)
          then show ?thesis using live ch Some fresh Inl a rest by (simp add: Let_def)
        qed
      qed
    qed
  qed
qed simp

lemma static_fallback_routing: "pc_routing (static_fallback p l) = Some (routing_from_static_profile p (the (pc_skip_reason (static_fallback p l))))"
  by (simp add: static_fallback_def Let_def)

text \<open>
  C17. Classification ends and decides. Whatever the evaluators, other sessions and the client do, the
  walk over \<open>n\<close> configured candidates ends within \<open>n\<close> rounds and one: it tries each candidate at
  most once and none the session excludes. Unless the client cancelled it ends with a decision,
  that of an evaluator it tried or, with confidence zero, that of the heuristic profile; it has none
  to give only where the code stops, without a heuristic profile or at a failure text it cannot cut.
\<close>
theorem evaluation_decides:
  assumes "finite C" and "\<And>n. cr_id ` set (sh_candidates (ev_shared (rounds n))) \<subseteq> C" and "card C < fuel" and "pcc_enabled cfg"
  shows "\<exists>e. evaluate fuel env cfg profile rounds s t = Some e \<and> distinct (we_tried e) \<and> set (we_tried e) \<subseteq> C \<and>
    (\<forall>c \<in> set (we_tried e). \<not> is_excluded c (rs_excluded s)) \<and>
    (case we_result e of
       None \<Rightarrow> profile = None \<or> (\<exists>n c f. c \<in> set (we_tried e) \<and> try_evaluator env cfg (rounds n) c = Inl f \<and> truncate_str 160 (rf_text f) = None)
     | Some r \<Rightarrow>
         (case pc_routing r of
            None \<Rightarrow> \<exists>n. ev_cancelled (rounds n)
          | Some d \<Rightarrow> (\<exists>p why. profile = Some p \<and> d = routing_from_static_profile p why \<and> de_confidence d = 0) \<or>
                      (\<exists>n c. c \<in> set (we_tried e) \<and> try_evaluator env cfg (rounds n) c = Inr r)))"
proof -
  have "card {c \<in> C. \<not> is_excluded c (rs_excluded s)} < fuel"
    using assms(1,3) card_mono [of C "{c \<in> C. \<not> is_excluded c (rs_excluded s)}"] by fastforce
  then obtain e where e: "evaluate fuel env cfg profile rounds s t = Some e"
    and sound: "walk_sound env cfg profile rounds C [] (rs_excluded s) e"
    using evaluate_walk_ends [where rounds = rounds and tried = "[]", OF assms(1,2)] assms(4) unfolding evaluate_def by force
  have "case pc_routing r of
            None \<Rightarrow> \<exists>n. ev_cancelled (rounds n)
          | Some d \<Rightarrow> (\<exists>p why. profile = Some p \<and> d = routing_from_static_profile p why \<and> de_confidence d = 0) \<or>
                      (\<exists>n c. c \<in> set (we_tried e) \<and> try_evaluator env cfg (rounds n) c = Inr r)" if res: "we_result e = Some r" for r
  proof (cases "pc_routing r")
    case None
    then show ?thesis using sound res static_fallback_routing by (fastforce simp: walk_sound_def)
  next
    case (Some d)
    then consider p l where "profile = Some p" "r = static_fallback p l"
      | n c where "c \<in> set (we_tried e)" "try_evaluator env cfg (rounds n) c = Inr r"
      using sound res by (auto simp: walk_sound_def)
    then show ?thesis
    proof cases
      case 1
      have "d = routing_from_static_profile p (the (pc_skip_reason r))" using Some static_fallback_routing [of p l] by (simp add: 1(2))
      then show ?thesis using 1(1) by (auto simp: Some routing_from_static_profile_def)
    next
      case 2
      then show ?thesis by (auto simp: Some)
    qed
  qed
  then show ?thesis using e sound by (auto simp: walk_sound_def split: option.split)
qed

section \<open>Witnesses\<close>

theorem evaluator_reads_request_witness:
  "\<exists>ctx. elide_middle (build_classified_text ([TextBlock ''context''] @ [TextBlock ''fix it''])) = ctx @ ''fix it''"
proof -
  have "\<not> is_injected_ticket_block ''fix it''" "char_count ''fix it'' \<le> 5000" "\<not> utf8_tail (hd ''fix it'')" by code_simp+
  then show ?thesis using evaluator_reads_request [of "''fix it''" "[TextBlock ''context'']"] by blast
qed

definition sample_dimension :: dimension where
  "sample_dimension = \<lparr>dm_id = ''data'', dm_min_confidence = 1, dm_act_when = Warranted True, dm_inject_prompt = ''use the schema''\<rparr>"

definition sample_reply :: json where
  "sample_reply = JObject
     [(''routing'', JObject [(''task_class'', JString ''BugFix''), (''complexity'', JInt 2), (''confidence'', JInt 1)]),
      (''data'', JObject [(''confidence'', JInt 1), (''warranted'', JBool True), (''required_capabilities'', JArray [JString ''db''])])]"

definition sample_decision :: routing_decision where
  "sample_decision = \<lparr>de_task_class = BugFix, de_task_classes = [BugFix], de_categories = [], de_required_capabilities = [''db''],
     de_complexity = 1, de_confidence = 1, de_effort = Some EffortMedium, de_reason = []\<rparr>"

lemma sample_reply_strings:
  "class_parse ''BugFix'' = Some BugFix" "trim ''db'' = ''db''" "blank ''use the schema'' = False"
  "has_concrete_difficulty_evidence sample_text_env [] = False" "dimension_chip ''data'' = ''data''"
  by code_simp+

lemma sample_parsed: "parse_routing sample_text_env (JObject [(''task_class'', JString ''BugFix''), (''complexity'', JInt 2), (''confidence'', JInt 1)])
    = Some (sample_decision\<lparr>de_required_capabilities := []\<rparr>)"
  using sample_reply_strings by (simp add: parse_routing_def get_str_def get_f64_def requested_effort_def clamp_def listed_classes_def named_strings_def
      get_strings_def automatic_effort_with_evidence_def automatic_effort_def sample_decision_def List.map_filter_simps)

lemma sample_applied:
  "pc_routing (apply_thresholds sample_text_env AutoStrategy [sample_dimension] sample_reply None) = Some sample_decision"
  "pc_injects (apply_thresholds sample_text_env AutoStrategy [sample_dimension] sample_reply None) = [''use the schema'']"
  using sample_parsed sample_reply_strings
  by (simp_all add: apply_thresholds_def sample_reply_def sample_dimension_def apply_dimension_def dimension_confidence_def get_f64_def get_bool_def
      add_capabilities_def add_capability_def named_strings_def get_strings_def List.map_filter_simps CAPABILITY_LIMIT_def sample_decision_def Let_def)

theorem evaluated_decision_bounded_witness:
  "effort_guarded sample_text_env sample_decision \<and> offered_capability sample_reply [sample_dimension] ''db'' \<and>
   length (de_required_capabilities sample_decision) \<le> 16"
proof -
  have "''db'' \<in> set (de_required_capabilities sample_decision)" by (simp add: sample_decision_def)
  then show ?thesis
    using evaluated_decision_bounded [of sample_text_env AutoStrategy "[sample_dimension]" sample_reply None] sample_applied(1) by blast
qed

definition no_evaluators :: eval_round where
  "no_evaluators = \<lparr>ev_cancelled = False, ev_shared = sample_shared\<lparr>sh_candidates := []\<rparr>, ev_now = 0, ev_wall = 0, ev_between = id,
     ev_run = (\<lambda>_. \<lparr>er_open = OpenTimedOut, er_violation = False, er_turn = None, er_cancelled = False, er_raw = []\<rparr>), ev_repaired = False,
     ev_rerun = (\<lambda>_. \<lparr>er_open = OpenTimedOut, er_violation = False, er_turn = None, er_cancelled = False, er_raw = []\<rparr>),
     ev_failed_now = 0, ev_failed_wall = 0\<rparr>"

definition sample_preclass :: pre_classifier_config where
  "sample_preclass = \<lparr>pcc_enabled = True, pcc_evaluator = [''*haiku*''], pcc_dimensions = [sample_dimension], pcc_evaluator_cwd = None,
     pcc_router = AutoStrategy\<rparr>"

definition sample_profile :: task_profile where
  "sample_profile = \<lparr>tp_class = BugFix, tp_complexity = 1 / 2, tp_languages = [], tp_effort = Some EffortMedium\<rparr>"

definition sample_evaluators :: evaluator_env where
  "sample_evaluators = \<lparr>ee_text = sample_text_env, ee_parse = (\<lambda>_. None), ee_internal_error = (\<lambda>_. sample_limit), ee_auth_required = (\<lambda>_. sample_limit)\<rparr>"

theorem evaluation_decides_witness:
  "\<exists>e. evaluate 1 sample_evaluators sample_preclass (Some sample_profile) (\<lambda>_. no_evaluators) sample_session sample_tracker = Some e \<and>
     we_tried e = [] \<and> (\<exists>r d. we_result e = Some r \<and> pc_routing r = Some d \<and> de_confidence d = 0 \<and> de_task_class d = BugFix)"
proof -
  have "cr_id ` set (sh_candidates (ev_shared no_evaluators)) \<subseteq> {}" "pcc_enabled sample_preclass" "\<not> ev_cancelled no_evaluators"
    by (simp_all add: no_evaluators_def sample_preclass_def)
  then obtain e where e: "evaluate 1 sample_evaluators sample_preclass (Some sample_profile) (\<lambda>_. no_evaluators) sample_session sample_tracker = Some e"
    and tried: "set (we_tried e) \<subseteq> {}"
    and result: "case we_result e of
       None \<Rightarrow> Some sample_profile = None \<or> (\<exists>(n::nat) c f. c \<in> set (we_tried e) \<and> try_evaluator sample_evaluators sample_preclass no_evaluators c = Inl f \<and>
         truncate_str 160 (rf_text f) = None)
     | Some r \<Rightarrow> (case pc_routing r of
            None \<Rightarrow> \<exists>n::nat. ev_cancelled no_evaluators
          | Some d \<Rightarrow> (\<exists>p why. Some sample_profile = Some p \<and> d = routing_from_static_profile p why \<and> de_confidence d = 0) \<or>
                      (\<exists>(n::nat) c. c \<in> set (we_tried e) \<and> try_evaluator sample_evaluators sample_preclass no_evaluators c = Inr r))"
    using evaluation_decides [of "{}" "\<lambda>_. no_evaluators" 1 sample_preclass sample_evaluators "Some sample_profile" sample_session sample_tracker]
    by simp blast
  have "\<exists>d. pc_routing r = Some d \<and> de_confidence d = 0 \<and> de_task_class d = BugFix" if "we_result e = Some r" for r
    using result that tried \<open>\<not> ev_cancelled no_evaluators\<close>
    by (auto simp: routing_from_static_profile_def sample_profile_def split: option.splits)
  then show ?thesis using e tried result by (cases "we_result e") auto
qed

end
