(* ===== verification/Session_Input.thy ===== *)
theory Session_Input
  imports Planner_Capacity Planner_Input Planner_Samples
begin

text \<open>
  \<open>send-input\<close> to a session without a planner run (\<open>session_input.rs\<close> and its table in
  \<open>state.rs\<close>): one revision-checked document per input id, queued by a command, delivered by
  the wake loop as a turn of its own or steered into a running turn, withdrawn by the
  operator. Every write checks the revision it read, so a read and its write take effect
  together at the write or not at all; \<open>race\<close> is what other processes write between them.
\<close>

section \<open>Documents\<close>

record session_input =
  si_origin :: string
  si_text :: string
  si_queued_at_ms :: int
  si_delivered_at_ms :: "int option"
  si_acknowledged_at_ms :: "int option"
  si_withdrawn :: "(int \<times> string) option"
  si_delivery :: "string option"
  si_deliveries :: nat
  si_retry_after :: int
  si_steer_attempted :: bool
  si_steer_attempted_at :: int
  si_steer_candidate :: "string option"
  si_interrupt :: bool
  si_claim_pid :: nat
  si_claim_started_at_ms :: nat
  si_sender :: "string option"
  si_announced :: bool

text \<open>The rows of one session in insertion order: id, revision and document.\<close>

type_synonym input_rows = "(string \<times> nat \<times> session_input) list"

datatype session_input_error =
    ErrSender
  | ErrInputId
  | ErrMessage
  | ErrSessionMissing
  | ErrCheckout
  | ErrOtherMessage
  | ErrChangedConcurrently
  | ErrUnknownInputRow
  | ErrHumanOrigin
  | ErrReason
  | ErrActiveDelivery string

definition si_resolved :: "session_input \<Rightarrow> bool" where
  "si_resolved inp \<longleftrightarrow> si_acknowledged_at_ms inp \<noteq> None \<or> si_withdrawn inp \<noteq> None"

definition claim_alive :: "planner_env \<Rightarrow> string \<Rightarrow> session_input \<Rightarrow> bool" where
  "claim_alive env i inp \<longleftrightarrow>
     si_claim_pid inp \<noteq> 0 \<and>
     owner_alive env \<lparr>att_id = i, att_router_pid = si_claim_pid inp, att_router_started_at_ms = si_claim_started_at_ms inp,
       att_delegate_id = None, att_ended = False\<rparr>"

record session_input_status =
  sis_input_id :: string
  sis_queued :: bool
  sis_delivered :: bool
  sis_acknowledged :: bool
  sis_origin :: string
  sis_delivery :: "string option"
  sis_withdrawn :: "(int \<times> string) option"

definition input_report :: "string \<Rightarrow> session_input \<Rightarrow> session_input_status" where
  "input_report i inp =
     \<lparr>sis_input_id = i, sis_queued = (\<not> si_resolved inp \<and> si_delivered_at_ms inp = None),
      sis_delivered = (si_delivered_at_ms inp \<noteq> None),
      sis_acknowledged = (si_acknowledged_at_ms inp \<noteq> None \<and> si_withdrawn inp = None),
      sis_origin = si_origin inp, sis_delivery = si_delivery inp, sis_withdrawn = si_withdrawn inp\<rparr>"

section \<open>The table\<close>

definition put_row :: "string \<Rightarrow> nat \<times> session_input \<Rightarrow> input_rows \<Rightarrow> input_rows" where
  "put_row i v rows = map (\<lambda>(k, x). (k, if k = i then v else x)) rows"

definition save_session_input ::
  "string \<Rightarrow> nat \<Rightarrow> session_input \<Rightarrow> input_rows \<Rightarrow> (session_input_error, nat \<times> input_rows) result" where
  "save_session_input i expected doc rows =
     (if expected = 0
      then (if map_of rows i = None then Inr (1, rows @ [(i, 1, doc)]) else Inl ErrChangedConcurrently)
      else if is_some_and (map_of rows i) (\<lambda>(revision, _). revision = expected)
           then Inr (expected + 1, put_row i (expected + 1, doc) rows)
           else Inl ErrChangedConcurrently)"

text \<open>Read a row, change it and write it back; a missing row changes nothing.\<close>

definition rewrite_row :: "string \<Rightarrow> (session_input \<Rightarrow> session_input) \<Rightarrow> input_rows \<Rightarrow> input_rows" where
  "rewrite_row i f rows =
     (case map_of rows i of
        None \<Rightarrow> rows
      | Some (revision, doc) \<Rightarrow>
          (case save_session_input i revision (f doc) rows of Inr (_, rows') \<Rightarrow> rows' | Inl _ \<Rightarrow> rows))"

section \<open>Commands\<close>

definition check_cwd :: "planner_env \<Rightarrow> string \<Rightarrow> (session_input_error, unit) result" where
  "check_cwd env cwd =
     (case env_cwd env of
        None \<Rightarrow> Inl ErrSessionMissing
      | Some home \<Rightarrow>
          if env_canonical env home \<noteq> env_canonical env cwd \<or> \<not> is_ok (env_canonical env home)
          then Inl ErrCheckout else Inr ())"

definition input_status :: "string \<Rightarrow> input_rows \<Rightarrow> (session_input_error, session_input_status) result" where
  "input_status i rows =
     (case map_of rows i of None \<Rightarrow> Inl ErrUnknownInputRow | Some (_, inp) \<Rightarrow> Inr (input_report i inp))"

definition list_inputs :: "input_rows \<Rightarrow> session_input_status list" where
  "list_inputs rows = map (\<lambda>(i, _, inp). input_report i inp) (filter (\<lambda>(_, _, inp). \<not> si_resolved inp) rows)"

definition new_input :: "planner_env \<Rightarrow> string \<Rightarrow> string option \<Rightarrow> bool \<Rightarrow> session_input" where
  "new_input env message sender interrupt =
     \<lparr>si_origin = ''agent'', si_text = message, si_queued_at_ms = env_now_ms env, si_delivered_at_ms = None,
      si_acknowledged_at_ms = None, si_withdrawn = None, si_delivery = None, si_deliveries = 0,
      si_retry_after = 0, si_steer_attempted = False, si_steer_attempted_at = 0, si_steer_candidate = None,
      si_interrupt = interrupt, si_claim_pid = 0, si_claim_started_at_ms = 0, si_sender = sender, si_announced = False\<rparr>"

definition report_same ::
  "string \<Rightarrow> string \<Rightarrow> nat \<times> session_input \<Rightarrow> (session_input_error, session_input_status) result" where
  "report_same i message = (\<lambda>(_, inp).
     if si_text inp \<noteq> message then Inl ErrOtherMessage else Inr (input_report i inp))"

definition send_input ::
  "planner_env \<Rightarrow> string \<Rightarrow> (input_rows \<Rightarrow> input_rows) \<Rightarrow> string \<Rightarrow> string \<Rightarrow> string option \<Rightarrow> bool \<Rightarrow> input_rows \<Rightarrow>
   (session_input_error, session_input_status) result \<times> input_rows" where
  "send_input env cwd race i message sender interrupt rows =
     (case (case sender of None \<Rightarrow> Some None | Some s \<Rightarrow> map_option Some (validate_sender s)) of
        None \<Rightarrow> (Inl ErrSender, rows)
      | Some from_sender \<Rightarrow>
          if \<not> valid_input_id i then (Inl ErrInputId, rows)
          else if blank message \<or> 65536 < length message then (Inl ErrMessage, rows)
          else case check_cwd env cwd of
            Inl e \<Rightarrow> (Inl e, rows)
          | Inr _ \<Rightarrow>
              (case map_of rows i of
                 Some existing \<Rightarrow> (report_same i message existing, rows)
               | None \<Rightarrow>
                   (let inp = new_input env message from_sender interrupt; rows' = race rows in
                    case save_session_input i 0 inp rows' of
                      Inr (_, rows'') \<Rightarrow> (Inr (input_report i inp), rows'')
                    | Inl e \<Rightarrow>
                        (case map_of rows' i of
                           None \<Rightarrow> (Inl e, rows')
                         | Some existing \<Rightarrow> (report_same i message existing, rows')))))"

definition withdraw_selected :: "string option \<Rightarrow> bool \<Rightarrow> input_rows \<Rightarrow> input_rows" where
  "withdraw_selected i include_human rows =
     filter (\<lambda>(k, _, inp). is_none_or i (\<lambda>x. x = k) \<and> \<not> si_resolved inp \<and> (include_human \<or> si_origin inp = ''agent'')) rows"

fun withdraw_rows ::
  "planner_env \<Rightarrow> string \<Rightarrow> input_rows \<Rightarrow> input_rows \<Rightarrow>
   (session_input_error, session_input_status list) result \<times> input_rows" where
  "withdraw_rows env reason [] rows = (Inr [], rows)"
| "withdraw_rows env reason ((i, revision, inp) # sel) rows =
     (let inp' = inp\<lparr>si_withdrawn := Some (env_now_ms env, reason)\<rparr> in
      case save_session_input i revision inp' rows of
        Inl e \<Rightarrow> (Inl e, rows)
      | Inr (_, rows') \<Rightarrow>
          (case withdraw_rows env reason sel rows' of
             (Inl e, rows'') \<Rightarrow> (Inl e, rows'')
           | (Inr reports, rows'') \<Rightarrow> (Inr (input_report i inp' # reports), rows'')))"

definition withdraw_inputs ::
  "planner_env \<Rightarrow> string \<Rightarrow> (input_rows \<Rightarrow> input_rows) \<Rightarrow> string option \<Rightarrow> bool \<Rightarrow> string \<Rightarrow> bool \<Rightarrow> input_rows \<Rightarrow>
   (session_input_error, session_input_status list) result \<times> input_rows" where
  "withdraw_inputs env cwd race i include_human reason apply_it rows =
     (case check_cwd env cwd of
        Inl e \<Rightarrow> (Inl e, rows)
      | Inr _ \<Rightarrow>
          if apply_it \<and> (blank reason \<or> 4096 < length reason) then (Inl ErrReason, rows)
          else let selected = withdraw_selected i include_human rows in
          if is_some_and i (\<lambda>k. map_of rows k = None) then (Inl ErrUnknownInputRow, rows)
          else if is_some_and i (\<lambda>k. is_some_and (map_of rows k) (\<lambda>(_, inp). si_origin inp \<noteq> ''agent'' \<and> \<not> include_human))
          then (Inl ErrHumanOrigin, rows)
          else if \<not> apply_it then (Inr (map (\<lambda>(k, _, inp). input_report k inp) selected), rows)
          else case List.find (\<lambda>(k, _, inp). claim_alive env k inp) selected of
            Some (k, _) \<Rightarrow> (Inl (ErrActiveDelivery k), rows)
          | None \<Rightarrow> withdraw_rows env reason selected (race rows))"

section \<open>The wake loop\<close>

definition STEER_RETRY_SECS :: int where "STEER_RETRY_SECS = 60"

definition steer_due :: "session_input \<Rightarrow> string option \<Rightarrow> int \<Rightarrow> bool" where
  "steer_due inp candidate now \<longleftrightarrow>
     \<not> si_steer_attempted inp \<or> si_steer_candidate inp \<noteq> candidate \<or> STEER_RETRY_SECS \<le> now - si_steer_attempted_at inp"

definition tick_pending :: "planner_env \<Rightarrow> int \<Rightarrow> input_rows \<Rightarrow> input_rows" where
  "tick_pending env now rows =
     filter (\<lambda>(i, _, inp). \<not> si_resolved inp \<and> si_retry_after inp \<le> now \<and> \<not> claim_alive env i inp) rows"

definition claim_input :: "planner_env \<Rightarrow> int \<Rightarrow> session_input \<Rightarrow> session_input" where
  "claim_input env now inp =
     inp\<lparr>si_claim_pid := fst (env_identity env), si_claim_started_at_ms := snd (env_identity env),
        si_deliveries := si_deliveries inp + 1, si_retry_after := now + wake_retry_secs (si_deliveries inp + 1)\<rparr>"

definition steer_input :: "int \<Rightarrow> string \<Rightarrow> session_input \<Rightarrow> session_input" where
  "steer_input now candidate inp =
     inp\<lparr>si_steer_attempted := True, si_steer_attempted_at := now, si_steer_candidate := Some candidate\<rparr>"

text \<open>
  One tick: a busy session steers the oldest input that is due, an idle one gives its oldest
  pending input a turn. The result is what the tick starts, when its write was accepted.
\<close>

datatype tick_start = StartSteer string session_input | StartTurn string session_input

definition input_tick ::
  "planner_env \<Rightarrow> int \<Rightarrow> bool \<Rightarrow> string option \<Rightarrow> (input_rows \<Rightarrow> input_rows) \<Rightarrow> input_rows \<Rightarrow>
   tick_start option \<times> input_rows" where
  "input_tick env now idle pinned race rows =
     (case tick_pending env now rows of
        [] \<Rightarrow> (None, rows)
      | (first_id, first_rev, first_inp) # _ \<Rightarrow>
          if \<not> idle
          then (case pinned of
                  None \<Rightarrow> (None, rows)
                | Some candidate \<Rightarrow>
                    (case List.find (\<lambda>(_, _, inp). steer_due inp (Some candidate) now) (tick_pending env now rows) of
                       None \<Rightarrow> (None, rows)
                     | Some (i, revision, inp) \<Rightarrow>
                         (case save_session_input i revision (steer_input now candidate inp) (race rows) of
                            Inl _ \<Rightarrow> (None, race rows)
                          | Inr (_, rows') \<Rightarrow> (Some (StartSteer i (steer_input now candidate inp)), rows'))))
          else (case save_session_input first_id first_rev (claim_input env now first_inp) (race rows) of
                  Inl _ \<Rightarrow> (None, race rows)
                | Inr (_, rows') \<Rightarrow> (Some (StartTurn first_id (claim_input env now first_inp)), rows')))"

text \<open>What a started delivery writes: on acceptance of a steer, at the start and the end of a turn.\<close>

definition steer_accepted :: "int \<Rightarrow> session_input \<Rightarrow> session_input" where
  "steer_accepted at_ms inp =
     inp\<lparr>si_delivered_at_ms := Some at_ms, si_acknowledged_at_ms := Some at_ms, si_delivery := Some ''steered''\<rparr>"

definition turn_started :: "int \<Rightarrow> session_input \<Rightarrow> session_input" where
  "turn_started at_ms inp = inp\<lparr>si_delivered_at_ms := Some at_ms, si_delivery := Some ''turn''\<rparr>"

definition input_announced :: "session_input \<Rightarrow> session_input" where
  "input_announced inp = inp\<lparr>si_announced := True\<rparr>"

definition turn_ended :: "int \<Rightarrow> bool \<Rightarrow> session_input \<Rightarrow> session_input" where
  "turn_ended at_ms completed inp =
     (if completed then inp\<lparr>si_claim_pid := 0, si_acknowledged_at_ms := Some at_ms\<rparr>
      else inp\<lparr>si_claim_pid := 0, si_delivered_at_ms := None, si_delivery := None\<rparr>)"

definition same_claim :: "session_input \<Rightarrow> session_input \<Rightarrow> bool" where
  "same_claim claimed inp \<longleftrightarrow>
     si_claim_pid inp = si_claim_pid claimed \<and> si_claim_started_at_ms inp = si_claim_started_at_ms claimed"

definition deliver_end :: "int \<Rightarrow> bool \<Rightarrow> string \<Rightarrow> session_input \<Rightarrow> input_rows \<Rightarrow> input_rows" where
  "deliver_end at_ms completed i claimed rows =
     (if is_some_and (map_of rows i) (\<lambda>(_, inp). same_claim claimed inp)
      then rewrite_row i (turn_ended at_ms completed) rows else rows)"

section \<open>All interleavings\<close>

text \<open>
  The rows of a session, the deliveries its router has in flight, and the last clock reading of
  a tick. A crash loses the deliveries in flight and nothing else.
\<close>

record input_world =
  iw_now :: int
  iw_rows :: input_rows
  iw_turns :: "(string \<times> session_input) list"
  iw_steers :: "string list"

inductive input_step :: "input_world \<Rightarrow> input_world \<Rightarrow> bool" where
  sent: "send_input env cwd (\<lambda>r. r) i message sender interrupt (iw_rows w) = (res, rows) \<Longrightarrow>
    input_step w (w\<lparr>iw_rows := rows\<rparr>)"
| withdrew: "withdraw_inputs env cwd (\<lambda>r. r) i human reason apply_it (iw_rows w) = (res, rows) \<Longrightarrow>
    input_step w (w\<lparr>iw_rows := rows\<rparr>)"
| turn: "input_tick env now True pinned (\<lambda>r. r) (iw_rows w) = (Some (StartTurn i inp), rows) \<Longrightarrow> iw_now w \<le> now \<Longrightarrow>
    input_step w (w\<lparr>iw_now := now, iw_rows := rows, iw_turns := (i, inp) # iw_turns w\<rparr>)"
| steer: "input_tick env now False pinned (\<lambda>r. r) (iw_rows w) = (Some (StartSteer i inp), rows) \<Longrightarrow> iw_now w \<le> now \<Longrightarrow>
    input_step w (w\<lparr>iw_now := now, iw_rows := rows, iw_steers := i # iw_steers w\<rparr>)"
| begun: "(i, inp) \<in> set (iw_turns w) \<Longrightarrow> input_step w (w\<lparr>iw_rows := rewrite_row i (turn_started at_ms) (iw_rows w)\<rparr>)"
| announced: "input_step w (w\<lparr>iw_rows := rewrite_row i input_announced (iw_rows w)\<rparr>)"
| finished: "(i, inp) \<in> set (iw_turns w) \<Longrightarrow>
    input_step w (w\<lparr>iw_rows := deliver_end at_ms completed i inp (iw_rows w), iw_turns := remove1 (i, inp) (iw_turns w)\<rparr>)"
| accepted: "i \<in> set (iw_steers w) \<Longrightarrow>
    input_step w (w\<lparr>iw_rows := rewrite_row i (steer_accepted at_ms) (iw_rows w), iw_steers := remove1 i (iw_steers w)\<rparr>)"
| declined: "i \<in> set (iw_steers w) \<Longrightarrow> input_step w (w\<lparr>iw_steers := remove1 i (iw_steers w)\<rparr>)"
| crashed: "input_step w (w\<lparr>iw_turns := [], iw_steers := []\<rparr>)"

text \<open>What is kept of a document, and of the rows.\<close>

definition input_kept :: "session_input \<Rightarrow> session_input \<Rightarrow> bool" where
  "input_kept a b \<longleftrightarrow>
     si_origin b = si_origin a \<and> si_text b = si_text a \<and> si_queued_at_ms b = si_queued_at_ms a \<and>
     si_sender b = si_sender a \<and> si_interrupt b = si_interrupt a \<and>
     (si_withdrawn a \<noteq> None \<longrightarrow> si_withdrawn b = si_withdrawn a) \<and>
     (si_acknowledged_at_ms a \<noteq> None \<longrightarrow> si_acknowledged_at_ms b \<noteq> None) \<and>
     (si_announced a \<longrightarrow> si_announced b) \<and>
     si_deliveries a \<le> si_deliveries b \<and> (si_resolved a \<longrightarrow> si_deliveries b = si_deliveries a)"

definition rows_le :: "input_rows \<Rightarrow> input_rows \<Rightarrow> bool" where
  "rows_le rows rows' \<longleftrightarrow>
     (\<exists>new. map fst rows' = map fst rows @ new) \<and>
     (\<forall>i r a. map_of rows i = Some (r, a) \<longrightarrow>
        (\<exists>r' b. map_of rows' i = Some (r', b) \<and> r \<le> r' \<and> (r' = r \<longrightarrow> b = a) \<and> input_kept a b))"

definition rows_ok :: "int \<Rightarrow> input_rows \<Rightarrow> bool" where
  "rows_ok now rows \<longleftrightarrow>
     distinct (map fst rows) \<and> (\<forall>(i, r, a) \<in> set rows. 1 \<le> r \<and> si_retry_after a \<le> now + 300)"

lemma input_kept_refl: "input_kept a a"
  by (simp add: input_kept_def)

lemma input_kept_trans: "input_kept a b \<Longrightarrow> input_kept b c \<Longrightarrow> input_kept a c"
  by (auto simp: input_kept_def si_resolved_def)

lemma rows_le_refl: "rows_le rows rows"
  by (simp add: rows_le_def input_kept_refl)

lemma rows_le_trans:
  assumes ab: "rows_le a b" and bc: "rows_le b c"
  shows "rows_le a c"
  unfolding rows_le_def
proof (intro conjI allI impI)
  show "\<exists>new. map fst c = map fst a @ new" using ab bc by (auto simp: rows_le_def)
next
  fix i r x
  assume "map_of a i = Some (r, x)"
  then obtain r' y where y: "map_of b i = Some (r', y)" "r \<le> r'" "r' = r \<longrightarrow> y = x" "input_kept x y"
    using ab unfolding rows_le_def by blast
  then obtain r'' z where "map_of c i = Some (r'', z)" "r' \<le> r''" "r'' = r' \<longrightarrow> z = y" "input_kept y z"
    using bc unfolding rows_le_def by blast
  with y show "\<exists>r' z. map_of c i = Some (r', z) \<and> r \<le> r' \<and> (r' = r \<longrightarrow> z = x) \<and> input_kept x z"
    using input_kept_trans by (intro exI [of _ r''] exI [of _ z]) auto
qed

lemma map_of_put_row: "map_of (put_row i v rows) k = (if k = i then map_option (\<lambda>_. v) (map_of rows k) else map_of rows k)"
  by (induction rows) (auto simp: put_row_def)

lemma fst_put_row [simp]: "map fst (put_row i v rows) = map fst rows"
  by (induction rows) (auto simp: put_row_def)

lemma set_put_row: "x \<in> set (put_row i v rows) \<Longrightarrow> x \<in> set rows \<or> x = (i, v)"
  by (auto simp: put_row_def split: if_splits)

text \<open>A write of a kept document over the revision it was read at.\<close>

lemma save_le:
  assumes "map_of rows i = Some (r, a)" "0 < r" "save_session_input i r b rows = Inr (n, rows')" "input_kept a b"
  shows "rows_le rows rows'"
  using assms by (auto simp: save_session_input_def rows_le_def map_of_put_row input_kept_refl)

lemma save_ok:
  assumes "rows_ok now rows" "save_session_input i r b rows = Inr (n, rows')" "si_retry_after b \<le> now + 300"
  shows "rows_ok now rows'"
  using assms by (auto simp: save_session_input_def rows_ok_def map_of_eq_None_iff dest!: set_put_row split: if_splits)

lemma rows_ok_mono: "rows_ok now rows \<Longrightarrow> now \<le> later \<Longrightarrow> rows_ok later rows"
  by (fastforce simp: rows_ok_def)

lemma rows_ok_get: "rows_ok now rows \<Longrightarrow> map_of rows i = Some (r, a) \<Longrightarrow> 0 < r \<and> si_retry_after a \<le> now + 300"
  by (fastforce simp: rows_ok_def dest: map_of_SomeD)

lemma rewrite_row_le:
  assumes "rows_ok now rows" "\<And>a. input_kept a (f a)"
  shows "rows_le rows (rewrite_row i f rows)"
  using assms rows_ok_get [OF assms(1), of i]
  by (auto simp: rewrite_row_def rows_le_refl intro: save_le split: option.splits sum.splits)

lemma rewrite_row_ok:
  assumes "rows_ok now rows" "\<And>a. si_retry_after (f a) = si_retry_after a"
  shows "rows_ok now (rewrite_row i f rows)"
  using assms rows_ok_get [OF assms(1), of i]
  by (auto simp: rewrite_row_def intro: save_ok split: option.splits sum.splits)

lemma kept_edits:
  "\<And>a. input_kept a (turn_started at_ms a)" "\<And>a. input_kept a (input_announced a)"
  "\<And>a. input_kept a (steer_accepted at_ms a)" "\<And>a. input_kept a (turn_ended at_ms completed a)"
  "\<And>a. input_kept a (steer_input now candidate a)"
  by (auto simp: input_kept_def turn_started_def input_announced_def steer_accepted_def turn_ended_def steer_input_def)

lemma kept_unresolved:
  "\<not> si_resolved a \<Longrightarrow> input_kept a (claim_input env now a)"
  "\<not> si_resolved a \<Longrightarrow> input_kept a (a\<lparr>si_withdrawn := Some v\<rparr>)"
  by (auto simp: input_kept_def claim_input_def si_resolved_def)

lemma retry_edits [simp]:
  "si_retry_after (turn_started at_ms a) = si_retry_after a" "si_retry_after (input_announced a) = si_retry_after a"
  "si_retry_after (steer_accepted at_ms a) = si_retry_after a" "si_retry_after (turn_ended at_ms completed a) = si_retry_after a"
  "si_retry_after (steer_input now candidate a) = si_retry_after a"
  by (simp_all add: turn_started_def input_announced_def steer_accepted_def turn_ended_def steer_input_def)

lemma claim_retry: "si_retry_after (claim_input env now a) \<le> now + 300"
proof -
  have "k \<le> 2 \<Longrightarrow> [30, 120, 300 :: int] ! k \<le> 300" for k by (cases k rule: nat.exhaust; cases "k - 1") auto
  then show ?thesis by (simp add: claim_input_def wake_retry_secs_def)
qed

text \<open>What a command or a tick does to the rows.\<close>

lemma send_input_rows:
  assumes "send_input env cwd (\<lambda>r. r) i message sender interrupt rows = (res, rows')"
  shows "rows' = rows \<or> (\<exists>s. map_of rows i = None \<and> rows' = rows @ [(i, 1, new_input env message s interrupt)])"
  using assms by (auto simp: send_input_def save_session_input_def Let_def split: option.splits sum.splits if_splits)

lemma withdraw_rows_grow:
  assumes "rows_ok now rows" "distinct (map fst sel)" "\<forall>(i, r, a) \<in> set sel. map_of rows i = Some (r, a) \<and> \<not> si_resolved a"
    "withdraw_rows env reason sel rows = (res, rows')"
  shows "rows_le rows rows' \<and> rows_ok now rows'"
  using assms
proof (induction sel arbitrary: rows res)
  case (Cons x sel)
  obtain i r a where x: "x = (i, r, a)" by (cases x)
  have a: "map_of rows i = Some (r, a)" "\<not> si_resolved a" using Cons.prems(3) x by auto
  have r: "0 < r" "si_retry_after a \<le> now + 300" using rows_ok_get [OF Cons.prems(1) a(1)] by auto
  let ?a = "a\<lparr>si_withdrawn := Some (env_now_ms env, reason)\<rparr>"
  have s: "save_session_input i r ?a rows = Inr (r + 1, put_row i (r + 1, ?a) rows)"
    using a r by (simp add: save_session_input_def)
  have le: "rows_le rows (put_row i (r + 1, ?a) rows)" "rows_ok now (put_row i (r + 1, ?a) rows)"
    using save_le [OF a(1) r(1) s kept_unresolved(2) [OF a(2)]] save_ok [OF Cons.prems(1) s] r(2) by auto
  have "\<forall>(j, r', b) \<in> set sel. map_of (put_row i (r + 1, ?a) rows) j = Some (r', b) \<and> \<not> si_resolved b"
  proof (clarify, intro conjI)
    fix j r' b assume m: "(j, r', b) \<in> set sel"
    then have "j \<noteq> i" using Cons.prems(2) x by (force simp: image_iff)
    then show "map_of (put_row i (r + 1, ?a) rows) j = Some (r', b)" "\<not> si_resolved b"
      using Cons.prems(3) m by (auto simp: map_of_put_row)
  qed
  moreover obtain res' where "withdraw_rows env reason sel (put_row i (r + 1, ?a) rows) = (res', rows')"
    using Cons.prems(4) x s by (auto simp: Let_def split: prod.splits sum.splits)
  ultimately show ?case
    using Cons.IH [OF le(2)] Cons.prems(2) x rows_le_trans [OF le(1)] by auto
qed (simp add: rows_le_refl)

lemma withdraw_inputs_grow:
  assumes "rows_ok now rows" "withdraw_inputs env cwd (\<lambda>r. r) i human reason apply_it rows = (res, rows')"
  shows "rows_le rows rows' \<and> rows_ok now rows'"
proof -
  let ?sel = "withdraw_selected i human rows"
  have "distinct (map fst ?sel)"
    using assms(1) by (simp add: rows_ok_def withdraw_selected_def distinct_map_filter)
  moreover have "\<forall>(k, r, a) \<in> set ?sel. map_of rows k = Some (r, a) \<and> \<not> si_resolved a"
    using assms(1) by (auto simp: withdraw_selected_def rows_ok_def intro: map_of_is_SomeI)
  ultimately show ?thesis
    using withdraw_rows_grow [OF assms(1)] assms
    by (auto simp: withdraw_inputs_def Let_def rows_le_refl split: sum.splits if_splits option.splits)
qed

lemma tick_saved:
  assumes "input_tick env now idle pinned (\<lambda>r. r) rows = (Some start, rows')"
  obtains i r a b n where "(i, r, a) \<in> set (tick_pending env now rows)" "save_session_input i r b rows = Inr (n, rows')"
    "idle \<and> start = StartTurn i b \<and> b = claim_input env now a \<or>
     \<not> idle \<and> start = StartSteer i b \<and> (\<exists>c. b = steer_input now c a)"
proof (cases "tick_pending env now rows")
  case Nil
  then show thesis using assms by (simp add: input_tick_def)
next
  case (Cons x xs)
  obtain i r a where x: "x = (i, r, a)" by (cases x)
  show thesis
  proof (cases idle)
    case True
    then show thesis
      using assms Cons x that [of i r a "claim_input env now a"]
      by (auto simp: input_tick_def split: sum.splits)
  next
    case False
    obtain c where c: "pinned = Some c" using assms False Cons x by (cases pinned) (auto simp: input_tick_def)
    obtain j q b where f: "List.find (\<lambda>(_, _, inp). steer_due inp (Some c) now) (tick_pending env now rows) = Some (j, q, b)"
      using assms False Cons x c
      by (cases "List.find (\<lambda>(_, _, inp). steer_due inp (Some c) now) (tick_pending env now rows)")
        (auto simp: input_tick_def simp del: find.simps)
    then have "(case save_session_input j q (steer_input now c b) rows of
         Inl _ \<Rightarrow> (None, rows) | Inr (_, rows') \<Rightarrow> (Some (StartSteer j (steer_input now c b)), rows')) = (Some start, rows')"
      using assms False Cons x c by (auto simp: input_tick_def simp del: find.simps)
    then show thesis
      using that [of j q b "steer_input now c b"] False find_Some_mem [OF f] by (auto split: sum.splits)
  qed
qed

lemma tick_rows:
  assumes "rows_ok now0 rows" "now0 \<le> now" "input_tick env now idle pinned (\<lambda>r. r) rows = (Some start, rows')"
  shows "rows_le rows rows' \<and> rows_ok now rows'"
proof -
  have ok: "rows_ok now rows" by (rule rows_ok_mono [OF assms(1,2)])
  have get: "map_of rows i = Some (r, a) \<and> 0 < r \<and> \<not> si_resolved a \<and> si_retry_after a \<le> now + 300"
    if "(i, r, a) \<in> set (tick_pending env now rows)" for i r a
    using that ok by (auto simp: tick_pending_def rows_ok_def intro: map_of_is_SomeI)
  obtain i r a b n where t: "(i, r, a) \<in> set (tick_pending env now rows)" "save_session_input i r b rows = Inr (n, rows')"
    "b = claim_input env now a \<or> (\<exists>c. b = steer_input now c a)"
    using tick_saved [OF assms(3)] by metis
  note g = get [OF t(1)]
  have "input_kept a b" using t(3) g kept_edits(5) kept_unresolved(1) by auto
  moreover have "si_retry_after b \<le> now + 300" using t(3) g claim_retry by auto
  ultimately show ?thesis using save_le [OF _ _ t(2)] save_ok [OF ok t(2)] g by auto
qed

section \<open>Correctness\<close>

definition world_ok :: "input_world \<Rightarrow> bool" where
  "world_ok w \<longleftrightarrow> rows_ok (iw_now w) (iw_rows w)"

lemma append_row_ok:
  assumes "rows_ok now rows" "map_of rows i = None" "0 \<le> now + 300"
  shows "rows_le rows (rows @ [(i, 1, new_input env m s t)]) \<and> rows_ok now (rows @ [(i, 1, new_input env m s t)])"
  using assms
  by (auto simp: rows_le_def rows_ok_def new_input_def map_of_eq_None_iff map_add_def input_kept_refl split: option.splits)

lemma deliver_end_grow:
  "rows_ok now rows \<Longrightarrow> rows_le rows (deliver_end at_ms completed i inp rows) \<and> rows_ok now (deliver_end at_ms completed i inp rows)"
  by (auto simp: deliver_end_def rows_le_refl intro!: rewrite_row_le rewrite_row_ok kept_edits)

lemma input_step_grow:
  assumes "input_step w w'" "world_ok w" "0 \<le> iw_now w"
  shows "world_ok w' \<and> 0 \<le> iw_now w' \<and> rows_le (iw_rows w) (iw_rows w')"
  using assms
proof (induction rule: input_step.induct)
  case (sent env cwd i message sender interrupt w res rows)
  then show ?case
    using send_input_rows [OF sent(1)] append_row_ok by (auto simp: world_ok_def rows_le_refl)
next
  case (withdrew env cwd i human reason apply_it w res rows)
  then show ?case using withdraw_inputs_grow by (auto simp: world_ok_def)
next
  case (turn env now pinned w i inp rows)
  then show ?case using tick_rows [OF _ turn(2,1)] by (auto simp: world_ok_def)
next
  case (steer env now pinned w i inp rows)
  then show ?case using tick_rows [OF _ steer(2,1)] by (auto simp: world_ok_def)
next
  case (finished i inp w at_ms completed)
  then show ?case using deliver_end_grow by (auto simp: world_ok_def)
qed (auto simp: world_ok_def rows_le_refl intro!: rewrite_row_le rewrite_row_ok kept_edits)

interpretation inputs: step_progress input_step "\<lambda>w. world_ok w \<and> 0 \<le> iw_now w" "\<lambda>w w'. rows_le (iw_rows w) (iw_rows w')"
  by unfold_locales (use input_step_grow in \<open>auto intro: rows_le_refl rows_le_trans\<close>)

definition empty_world :: input_world where
  "empty_world = \<lparr>iw_now = 0, iw_rows = [], iw_turns = [], iw_steers = []\<rparr>"

lemma empty_world_ok: "world_ok empty_world \<and> 0 \<le> iw_now empty_world"
  by (simp add: world_ok_def empty_world_def rows_ok_def)

text \<open>
  C30. A queued message is conserved. Through any interleaving of sends, withdrawals, ticks,
  turns, steers and crashes: it keeps its place in the queue, its text, origin, sender and
  time; its revision never goes back and identifies its document; once acknowledged or
  withdrawn it stays so, the withdrawal reason is kept, and it is never given another turn.
\<close>
theorem session_input_conserved:
  assumes "input_step\<^sup>*\<^sup>* w w'" and "world_ok w" and "0 \<le> iw_now w" and "map_of (iw_rows w) i = Some (r, a)"
  shows "\<exists>r' b. map_of (iw_rows w') i = Some (r', b) \<and> r \<le> r' \<and> (r' = r \<longrightarrow> b = a) \<and>
     si_text b = si_text a \<and> si_origin b = si_origin a \<and> si_sender b = si_sender a \<and>
     si_queued_at_ms b = si_queued_at_ms a \<and>
     (si_withdrawn a \<noteq> None \<longrightarrow> si_withdrawn b = si_withdrawn a) \<and>
     (si_resolved a \<longrightarrow> si_resolved b \<and> si_deliveries b = si_deliveries a) \<and>
     (\<exists>new. map fst (iw_rows w') = map fst (iw_rows w) @ new)"
proof -
  have le: "rows_le (iw_rows w) (iw_rows w')" using inputs.reachable_le [OF assms(1)] assms(2,3) by blast
  then obtain r' b where "map_of (iw_rows w') i = Some (r', b)" "r \<le> r'" "r' = r \<longrightarrow> b = a" "input_kept a b"
    using assms(4) unfolding rows_le_def by blast
  then show ?thesis using le by (auto simp: input_kept_def si_resolved_def rows_le_def)
qed

text \<open>
  C31. No queued message is lost. In every reachable state, five minutes after the last tick that
  started anything, if no delivery claim is alive, a tick of the idle session starts a turn
  for the oldest unresolved message, whatever crashed or was cancelled before.
\<close>
theorem session_input_never_lost:
  assumes "input_step\<^sup>*\<^sup>* empty_world w" and "iw_now w + 300 \<le> now"
    and "\<forall>(j, r, b) \<in> set (iw_rows w). \<not> claim_alive env j b"
    and "iw_rows w = done_rows @ (i, r, a) # later" and "\<forall>(j, r, b) \<in> set done_rows. si_resolved b" and "\<not> si_resolved a"
  shows "\<exists>rows. input_tick env now True pinned (\<lambda>x. x) (iw_rows w) = (Some (StartTurn i (claim_input env now a)), rows)"
proof -
  have ok: "rows_ok (iw_now w) (iw_rows w)"
    using inputs.reachable_keeps [OF assms(1)] empty_world_ok by (simp add: world_ok_def)
  have "si_retry_after a \<le> now" "0 < r" using ok assms(2,4) by (auto simp: rows_ok_def)
  moreover have "tick_pending env now done_rows = []"
    using assms(5) by (auto simp: tick_pending_def filter_empty_conv)
  ultimately obtain rest where p: "tick_pending env now (iw_rows w) = (i, r, a) # rest"
    using assms(3,4,6) by (auto simp: tick_pending_def)
  have "distinct (map fst (iw_rows w))" "(i, r, a) \<in> set (iw_rows w)" using ok assms(4) by (simp_all add: rows_ok_def)
  then have "map_of (iw_rows w) i = Some (r, a)" by (rule map_of_is_SomeI)
  then show ?thesis using \<open>0 < r\<close> p by (simp add: input_tick_def save_session_input_def)
qed

text \<open>
  C32. An input id names one message. Whatever other processes write meanwhile, an accepted send
  leaves a row under the id with exactly the message sent; a send of another message under a
  used id is refused and changes nothing, so an uncertain send is safely repeated.
\<close>
theorem send_input_once:
  "(\<forall>st rows'. send_input env cwd race i message sender interrupt rows = (Inr st, rows') \<longrightarrow>
      (\<exists>r a. map_of rows' i = Some (r, a) \<and> si_text a = message \<and> st = input_report i a)) \<and>
   (\<forall>res rows' r a. send_input env cwd race i message sender interrupt rows = (res, rows') \<longrightarrow>
      map_of rows i = Some (r, a) \<longrightarrow> rows' = rows \<and> (si_text a \<noteq> message \<longrightarrow> \<not> is_ok res)) \<and>
   (\<forall>res rows' r a. send_input env cwd race i message sender interrupt rows = (res, rows') \<longrightarrow>
      map_of rows i = None \<longrightarrow> map_of (race rows) i = Some (r, a) \<longrightarrow>
      (rows' = rows \<or> rows' = race rows) \<and> (si_text a \<noteq> message \<longrightarrow> \<not> is_ok res))"
proof (intro conjI allI impI)
  fix st rows'
  assume "send_input env cwd race i message sender interrupt rows = (Inr st, rows')"
  then show "\<exists>r a. map_of rows' i = Some (r, a) \<and> si_text a = message \<and> st = input_report i a"
    by (auto simp: send_input_def save_session_input_def report_same_def new_input_def Let_def map_add_def
        split: option.splits sum.splits if_splits)
qed (auto simp: send_input_def save_session_input_def report_same_def Let_def
      split: option.splits sum.splits if_splits)

section \<open>Witnesses\<close>

definition sample_message :: session_input where
  "sample_message = new_input sample_env ''hello'' None False"

definition sent_world :: input_world where
  "sent_world = empty_world\<lparr>iw_rows := [(''a'', 1, sample_message)]\<rparr>"

lemma sample_send: "input_step empty_world sent_world" "input_step\<^sup>*\<^sup>* empty_world sent_world"
proof -
  have "send_input sample_env ''/repo'' (\<lambda>r. r) ''a'' ''hello'' None False [] =
      (Inr (input_report ''a'' sample_message), [(''a'', 1, sample_message)])"
  proof -
    have "valid_input_id ''a''" "\<not> blank ''hello''" "check_cwd sample_env ''/repo'' = Inr ()" by code_simp+
    then show ?thesis by (simp add: send_input_def save_session_input_def sample_message_def Let_def)
  qed
  then show "input_step empty_world sent_world"
    using sent [of sample_env "''/repo''" "''a''" "''hello''" None False empty_world] by (simp add: sent_world_def empty_world_def)
  then show "input_step\<^sup>*\<^sup>* empty_world sent_world" by (rule r_into_rtranclp)
qed

theorem session_input_conserved_witness:
  "\<exists>r' b. map_of (iw_rows (sent_world\<lparr>iw_turns := [], iw_steers := []\<rparr>)) ''a'' = Some (r', b) \<and> si_text b = ''hello''"
proof -
  have "world_ok sent_world" "0 \<le> iw_now sent_world"
    using inputs.step_keeps [OF sample_send(1)] empty_world_ok by auto
  moreover have "input_step\<^sup>*\<^sup>* sent_world (sent_world\<lparr>iw_turns := [], iw_steers := []\<rparr>)"
    by (rule r_into_rtranclp, rule crashed)
  moreover have "map_of (iw_rows sent_world) ''a'' = Some (1, sample_message)" by (simp add: sent_world_def)
  ultimately show ?thesis using session_input_conserved by (fastforce simp: sample_message_def new_input_def)
qed

theorem session_input_never_lost_witness:
  "\<exists>rows. input_tick sample_env 300 True None (\<lambda>x. x) (iw_rows sent_world) =
     (Some (StartTurn ''a'' (claim_input sample_env 300 sample_message)), rows)"
  by (rule session_input_never_lost [OF sample_send(2), where done_rows = "[]" and later = "[]" and r = 1])
    (simp_all add: sent_world_def empty_world_def sample_message_def new_input_def claim_alive_def si_resolved_def)

theorem send_input_once_witness:
  "\<not> is_ok (fst (send_input sample_env ''/repo'' (\<lambda>r. r) ''a'' ''other'' None False (iw_rows sent_world))) \<and>
   snd (send_input sample_env ''/repo'' (\<lambda>r. r) ''a'' ''other'' None False (iw_rows sent_world)) = iw_rows sent_world"
proof -
  have "map_of (iw_rows sent_world) ''a'' = Some (1, sample_message)" "si_text sample_message = ''hello''"
    by (simp_all add: sent_world_def sample_message_def new_input_def)
  then show ?thesis
    using send_input_once [of sample_env "''/repo''" "\<lambda>r. r" "''a''" "''other''" None False "iw_rows sent_world"]
    by (cases "send_input sample_env ''/repo'' (\<lambda>r. r) ''a'' ''other'' None False (iw_rows sent_world)") auto
qed

text \<open>
  A steer claims nothing: while its request is in flight the session can become idle and the
  next tick gives the same message a turn, so it can reach the agent twice.
\<close>

lemma steer_and_turn_overlap:
  "\<exists>w. input_step\<^sup>*\<^sup>* empty_world w \<and> ''a'' \<in> set (iw_steers w) \<and> (\<exists>inp. (''a'', inp) \<in> set (iw_turns w))"
proof -
  let ?s = "steer_input 1 ''claude/opus'' sample_message"
  have t: "input_tick sample_env 1 False (Some ''claude/opus'') (\<lambda>r. r) (iw_rows sent_world) =
      (Some (StartSteer ''a'' ?s), [(''a'', 2, ?s)])"
    "input_tick sample_env 2 True (Some ''claude/opus'') (\<lambda>r. r) [(''a'', 2, ?s)] =
      (Some (StartTurn ''a'' (claim_input sample_env 2 ?s)), [(''a'', 3, claim_input sample_env 2 ?s)])"
    by code_simp+
  let ?w = "sent_world\<lparr>iw_now := 1, iw_rows := [(''a'', 2, ?s)], iw_steers := [''a'']\<rparr>"
  have "input_step sent_world ?w"
    using steer [OF t(1)] by (simp add: sent_world_def empty_world_def)
  moreover have "input_step ?w (?w\<lparr>iw_now := 2, iw_rows := [(''a'', 3, claim_input sample_env 2 ?s)],
      iw_turns := [(''a'', claim_input sample_env 2 ?s)]\<rparr>)"
    using turn [of sample_env 2 "Some ''claude/opus''" ?w] t(2) by (simp add: sent_world_def empty_world_def)
  ultimately have "input_step\<^sup>*\<^sup>* empty_world (?w\<lparr>iw_now := 2, iw_rows := [(''a'', 3, claim_input sample_env 2 ?s)],
      iw_turns := [(''a'', claim_input sample_env 2 ?s)]\<rparr>)"
    using sample_send(2) by (metis (no_types, lifting) rtranclp.rtrancl_into_rtrancl)
  then show ?thesis by (intro exI conjI) auto
qed

end
