(* ===== verification/Goals.thy ===== *)
theory Goals
  imports Failure_Limits Planner_Input Prompt_Directives
begin

text \<open>
  \<open>/goal\<close> (\<open>goals.rs\<close> and the turn loop \<open>run_primary_turn\<close> of \<open>session.rs\<close>): an objective the
  session works on inside one client turn until the agent affirms with proof that it is met
  or unmeetable, or the continuations are used up. The notices sent to the client and the
  agent's own goal mode are data; the agent is the sequence of its replies.
\<close>

section \<open>Goals and commands\<close>

datatype goal_status = GoalActive | GoalMet | GoalUnmeetable | GoalStalled

record goal =
  goal_objective :: string
  goal_state :: goal_status
  goal_continuations :: nat
  goal_kickoff :: bool

definition MAX_CONTINUATIONS :: nat where "MAX_CONTINUATIONS = 12"
definition MIN_PROOF_CHARS :: nat where "MIN_PROOF_CHARS = 40"

definition goal_new :: "string \<Rightarrow> goal" where
  "goal_new objective =
     \<lparr>goal_objective = trim objective, goal_state = GoalActive, goal_continuations = 0, goal_kickoff = True\<rparr>"

definition goal_active :: "goal \<Rightarrow> bool" where
  "goal_active g \<longleftrightarrow> goal_state g = GoalActive"

datatype goal_command = ShowGoal | ClearGoal | SetGoal string

definition parse_goal_command :: "string \<Rightarrow> goal_command option" where
  "parse_goal_command text =
     (case strip_prefix ''/goal'' (trim text) of
        None \<Rightarrow> None
      | Some rest \<Rightarrow>
          if rest \<noteq> [] \<and> trim_start rest = rest then None
          else let arg = trim rest in
               if arg = [] then Some ShowGoal
               else if arg \<in> {''clear'', ''off'', ''none'', ''stop'', ''cancel''} then Some ClearGoal
               else Some (SetGoal arg))"

datatype goal_family = SlashCommand | ControlRequest | NoGoalMode

definition goal_family_of :: "string \<Rightarrow> goal_family" where
  "goal_family_of agent =
     (let name = (case split_once (CHR ''@'') agent of Some (n, _) \<Rightarrow> n | None \<Rightarrow> agent) in
      if name = ''claude'' \<or> name = ''grok'' then SlashCommand
      else if name = ''codex'' then ControlRequest else NoGoalMode)"

section \<open>The verdict of a reply\<close>

text \<open>\<open>str::lines\<close>: split at line feeds, each with the carriage return before it; a final empty line is no line.\<close>

definition CR :: char where "CR = CHR 0x0D"

fun str_lines :: "string \<Rightarrow> string list" where
  "str_lines [] = []"
| "str_lines (c # s) =
     (if c = LF then [] # str_lines s
      else if c = CR \<and> s \<noteq> [] \<and> hd s = LF then [] # str_lines (tl s)
      else case str_lines s of [] \<Rightarrow> [[c]] | l # ls \<Rightarrow> (c # l) # ls)"

definition trim_chars :: "char list \<Rightarrow> string \<Rightarrow> string" where
  "trim_chars cs s = trim_end_chars cs (dropWhile (\<lambda>c. c \<in> set cs) s)"

definition to_ascii_uppercase :: "string \<Rightarrow> string" where
  "to_ascii_uppercase = map (\<lambda>c. if 97 \<le> byte c \<and> byte c \<le> 122 then char_of (byte c - 32) else c)"

definition affirmation :: "string \<Rightarrow> bool option" where
  "affirmation raw =
     (let line = trim (trim_chars [CHR 0x60] (trim_chars [CHR ''*''] (trim raw))) in
      case opt_or (strip_prefix ''GOAL:'' line) (strip_prefix ''Goal:'' line) of
        None \<Rightarrow> None
      | Some after \<Rightarrow>
          (let rest = trim (trim_chars [CHR ''*''] (trim after));
               word = to_ascii_uppercase (trim_end_chars [CHR ''.'', CHR ''!'', CHR ''*'', CHR 0x60, CHR '' ''] rest)
           in if word = ''MET'' then Some True else if word = ''UNMEETABLE'' then Some False else None))"

text \<open>The characters of a UTF-8 text that are not white space.\<close>

fun graphic_chars :: "string \<Rightarrow> nat" where
  "graphic_chars [] = 0"
| "graphic_chars (a # xs) =
     (if ws1 (byte a) then graphic_chars xs
      else case xs of
        b # c # zs \<Rightarrow>
          if ws2 (byte a) (byte b) then graphic_chars (c # zs)
          else if ws3 (byte a) (byte b) (byte c) then graphic_chars zs
          else (if 128 \<le> byte a \<and> byte a < 192 then 0 else 1) + graphic_chars (b # c # zs)
      | [b] \<Rightarrow> if ws2 (byte a) (byte b) then 0
               else (if 128 \<le> byte a \<and> byte a < 192 then 0 else 1) + graphic_chars [b]
      | [] \<Rightarrow> (if 128 \<le> byte a \<and> byte a < 192 then 0 else 1))"

datatype verdict = VerdictMet string | VerdictUnmeetable string | VerdictOpen

text \<open>The last affirming line with what follows it.\<close>

fun last_affirmation :: "string list \<Rightarrow> (bool \<times> string list) option" where
  "last_affirmation [] = None"
| "last_affirmation (l # ls) =
     (case last_affirmation ls of
        Some r \<Rightarrow> Some r
      | None \<Rightarrow> map_option (\<lambda>met. (met, ls)) (affirmation l))"

definition proof_text :: "string list \<Rightarrow> string" where
  "proof_text after =
     (let t = trim (join_with [LF] after) in
      trim (unwrap_or (opt_or (strip_prefix ''Proof:'' t)
              (opt_or (strip_prefix ''**Proof:**'' t) (strip_prefix ''PROOF:'' t))) t))"

definition verdict_of :: "string \<Rightarrow> verdict" where
  "verdict_of reply =
     (case last_affirmation (str_lines reply) of
        None \<Rightarrow> VerdictOpen
      | Some (met, after) \<Rightarrow>
          (let evidence = proof_text after in
           if graphic_chars evidence < MIN_PROOF_CHARS then VerdictOpen
           else if met then VerdictMet evidence else VerdictUnmeetable evidence))"

section \<open>What the agent is told\<close>

definition keep_working_term :: string where
  "keep_working_term =
     ''Keep working until this goal is fully met. Do not end your turn with the goal ''
     @ ''unmet: take the next step yourself instead of reporting what remains or asking ''
     @ ''whether to continue. End your turn only when one of these is true, and then end ''
     @ ''your reply with exactly one of:''"

definition met_term :: string where
  "met_term =
     CHR 0x60 # ''GOAL: MET'' @ CHR 0x60 # '' on its own line, then '' @ CHR 0x60 # ''Proof:'' @ CHR 0x60
     # '' and the concrete evidence that the goal is met (what you ran or checked and what it showed);''"

definition unmeetable_term :: string where
  "unmeetable_term =
     CHR 0x60 # ''GOAL: UNMEETABLE'' @ CHR 0x60 # '' on its own line, then '' @ CHR 0x60 # ''Proof:'' @ CHR 0x60
     # '' and why no remaining path can meet it (what you tried and what rules each path out).''"

definition goal_terms :: "string \<Rightarrow> string list" where
  "goal_terms objective =
     [''[router-acp goal]'', ''The session's goal: '' @ objective, keep_working_term, met_term, unmeetable_term,
      ''The router keeps the session working until you do.'']"

definition protocol :: "string \<Rightarrow> string" where
  "protocol objective = join_with [LF] (goal_terms objective)"

definition kickoff_text :: "string \<Rightarrow> goal_family \<Rightarrow> string" where
  "kickoff_text objective family =
     (case family of
        SlashCommand \<Rightarrow> ''/goal '' @ objective
      | _ \<Rightarrow> ''Start working toward this goal now.'' @ [LF, LF] @ protocol objective)"

text \<open>The continuation prompt; its first line also carries a middle dot, here as its two bytes.\<close>

definition continuation_text :: "string \<Rightarrow> nat \<Rightarrow> string" where
  "continuation_text objective n =
     ''[router-acp goal '' @ [CHR 0xC2, CHR 0xB7] @ '' continuation '' @ show_nat n @ '' of '' @ show_nat MAX_CONTINUATIONS @ '']''
     @ [LF] @ ''Your turn ended, but you did not affirm that the goal is met or cannot be met. ''
     @ ''The goal is: '' @ objective
     @ [LF] @ ''Continue the work now. If it is already met, verify that and reply with the ''
     @ ''affirmation and its proof.''"

section \<open>The session's goal\<close>

record goal_session =
  gs_goal :: "goal option"
  gs_clear_pending :: bool
  gs_output :: string
  gs_pinned :: "string option"

definition pinned_family :: "goal_session \<Rightarrow> goal_family option" where
  "pinned_family s = map_option goal_family_of (gs_pinned s)"

text \<open>A client turn starts the continuation count over and revives a stalled goal (\<open>continue_prompt\<close>).\<close>

definition client_turn :: "goal_session \<Rightarrow> goal_session" where
  "client_turn s = s\<lparr>gs_goal := map_option (\<lambda>g. g\<lparr>goal_continuations := 0,
     goal_state := (if goal_state g = GoalStalled then GoalActive else goal_state g)\<rparr>) (gs_goal s)\<rparr>"

datatype goal_handling = GoalAnswered | GoalDispatch

text \<open>
  \<open>handle_command\<close> on the typed text of an all-text prompt; the last component is the objective
  the agent's own goal control is sent, \<open>None\<close> inside for a clear.
\<close>

definition handle_goal_command ::
  "string \<Rightarrow> goal_session \<Rightarrow> (goal_handling \<times> goal_session \<times> string option option) option" where
  "handle_goal_command text s =
     (case parse_goal_command text of
        None \<Rightarrow> None
      | Some ShowGoal \<Rightarrow> Some (GoalAnswered, s, None)
      | Some ClearGoal \<Rightarrow>
          (let had = gs_goal s \<noteq> None;
               pending = had \<and> pinned_family s = Some SlashCommand
           in Some (if pending then GoalDispatch else GoalAnswered,
                    s\<lparr>gs_goal := None, gs_clear_pending := pending\<rparr>,
                    if had \<and> pinned_family s = Some ControlRequest then Some None else None))
      | Some (SetGoal objective) \<Rightarrow> Some (GoalDispatch, s\<lparr>gs_goal := Some (goal_new objective)\<rparr>, None))"

definition goal_control ::
  "json \<Rightarrow> goal_session \<Rightarrow> (string, goal_session \<times> string option option) result" where
  "goal_control params s =
     (case Option.bind (json_get params ''action'') as_str of
        Some action \<Rightarrow>
          if action = ''set'' then
            (case opt_filter (\<lambda>o1. o1 \<noteq> []) (map_option trim (Option.bind (json_get params ''objective'') as_str)) of
               None \<Rightarrow> Inl ''_router/goal set requires an objective''
             | Some objective \<Rightarrow>
                 Inr (s\<lparr>gs_goal := Some (goal_new objective)\<rparr>,
                      if pinned_family s = Some ControlRequest then Some (Some objective) else None))
          else if action = ''clear'' then
            Inr (s\<lparr>gs_goal := None,
                   gs_clear_pending := (gs_goal s \<noteq> None \<and> pinned_family s = Some SlashCommand)\<rparr>,
                 if pinned_family s = Some ControlRequest then Some None else None)
          else Inl ''_router/goal action must be set or clear''
      | None \<Rightarrow> Inl ''_router/goal action must be set or clear'')"

text \<open>Taking the goal's part of a turn (\<open>run_primary_turn_inner\<close>): kickoff objective, clear, active objective.\<close>

definition take_goal_turn :: "goal_session \<Rightarrow> (string option \<times> bool \<times> string option) \<times> goal_session" where
  "take_goal_turn s =
     ((map_option goal_objective (opt_filter goal_kickoff (gs_goal s)), gs_clear_pending s,
       map_option goal_objective (opt_filter goal_active (gs_goal s))),
      s\<lparr>gs_goal := map_option (\<lambda>g. g\<lparr>goal_kickoff := False\<rparr>) (gs_goal s), gs_clear_pending := False\<rparr>)"

datatype followup = FollowDone | FollowContinue string

text \<open>
  \<open>after_turn\<close> takes the session lock twice: once to read the goal and the reply, and again to
  write what it judged. \<open>check_goal\<close> is the first section with the judgement: \<open>None\<close> when there is
  nothing to enforce, else the status to write and the continuation prompt. \<open>mark_goal\<close> is the
  second, which writes onto the goal the session has by then.
\<close>

definition check_goal :: "bool \<Rightarrow> goal_session \<Rightarrow> (goal_status \<times> string option) option" where
  "check_goal ended_normally s =
     (case opt_filter goal_active (gs_goal s) of
        None \<Rightarrow> None
      | Some g \<Rightarrow>
          if \<not> ended_normally then None
          else Some (case verdict_of (gs_output s) of
                  VerdictMet _ \<Rightarrow> (GoalMet, None)
                | VerdictUnmeetable _ \<Rightarrow> (GoalUnmeetable, None)
                | VerdictOpen \<Rightarrow>
                    if MAX_CONTINUATIONS \<le> goal_continuations g then (GoalStalled, None)
                    else (GoalActive, Some (continuation_text (goal_objective g) (goal_continuations g + 1)))))"

definition mark_goal :: "goal_status \<times> string option \<Rightarrow> goal_session \<Rightarrow> goal_session" where
  "mark_goal judged s = s\<lparr>gs_goal := map_option (\<lambda>g. g\<lparr>goal_state := fst judged,
     goal_continuations := goal_continuations g + (if snd judged = None then 0 else 1)\<rparr>) (gs_goal s)\<rparr>"

text \<open>What a \<open>_router/goal\<close> request does to the session; a refused one does nothing.\<close>

definition controlled :: "json \<Rightarrow> goal_session \<Rightarrow> goal_session" where
  "controlled params s = (case goal_control params s of Inl _ \<Rightarrow> s | Inr (s', _) \<Rightarrow> s')"

text \<open>\<open>after_turn\<close> with the requests the client gets in between its two sections.\<close>

definition after_turn :: "bool \<Rightarrow> json list \<Rightarrow> goal_session \<Rightarrow> followup \<times> goal_session" where
  "after_turn ended_normally meanwhile s =
     (let s' = fold controlled meanwhile s in
      case check_goal ended_normally s of
        None \<Rightarrow> (FollowDone, s')
      | Some judged \<Rightarrow>
          (case snd judged of Some text \<Rightarrow> FollowContinue text | None \<Rightarrow> FollowDone, mark_goal judged s'))"

text \<open>
  One inner turn of the loop of \<open>run_primary_turn\<close>: the agent's reply, whether the turn ended
  normally, and the \<open>_router/goal\<close> requests that arrive before the turn takes the goal, while it
  runs, and while its end is judged.
\<close>

record goal_round =
  gr_reply :: string
  gr_ended :: bool
  gr_before :: "json list"
  gr_during :: "json list"
  gr_judging :: "json list"

text \<open>
  The loop: another inner turn as long as the goal continues. Fuel bounds the turns looked at;
  the result is the number of turns run and the session after them.
\<close>

fun goal_turns :: "nat \<Rightarrow> (nat \<Rightarrow> goal_round) \<Rightarrow> nat \<Rightarrow> goal_session \<Rightarrow> (nat \<times> goal_session) option" where
  "goal_turns 0 rounds n s = None"
| "goal_turns (Suc fuel) rounds n s =
     (let r = rounds n;
          s1 = snd (take_goal_turn (fold controlled (gr_before r) s));
          s2 = (fold controlled (gr_during r) s1)\<lparr>gs_output := gr_reply r\<rparr>
      in case after_turn (gr_ended r) (gr_judging r) s2 of
        (FollowDone, s3) \<Rightarrow> Some (n + 1, s3)
      | (FollowContinue _, s3) \<Rightarrow> goal_turns fuel rounds (n + 1) s3)"

section \<open>Correctness\<close>

text \<open>How many goals the client sets in a list of requests, and in a round.\<close>

definition goal_sets :: "json list \<Rightarrow> nat" where
  "goal_sets cs = length (filter (\<lambda>c. Option.bind (json_get c ''action'') as_str = Some ''set'') cs)"

definition round_sets :: "goal_round \<Rightarrow> nat" where
  "round_sets r = goal_sets (gr_before r) + goal_sets (gr_during r) + goal_sets (gr_judging r)"

text \<open>The continuations the session's goal has left.\<close>

definition goal_left :: "goal_session \<Rightarrow> nat" where
  "goal_left s = (case opt_filter goal_active (gs_goal s) of
     Some g \<Rightarrow> MAX_CONTINUATIONS - goal_continuations g | None \<Rightarrow> 0)"

lemma goal_left_le: "goal_left s \<le> MAX_CONTINUATIONS"
  by (simp add: goal_left_def split: option.splits)

text \<open>A request that sets no goal leaves the goal or removes it.\<close>

lemma controlled_no_set:
  "Option.bind (json_get c ''action'') as_str \<noteq> Some ''set'' \<Longrightarrow>
   gs_goal (controlled c s) = gs_goal s \<or> gs_goal (controlled c s) = None"
  by (auto simp: controlled_def goal_control_def split: option.splits)

lemma controls_no_set:
  "goal_sets cs = 0 \<Longrightarrow> gs_goal (fold controlled cs s) = gs_goal s \<or> gs_goal (fold controlled cs s) = None"
proof (induction cs arbitrary: s)
  case (Cons c cs)
  then have "Option.bind (json_get c ''action'') as_str \<noteq> Some ''set''" "goal_sets cs = 0"
    by (auto simp: goal_sets_def split: if_splits)
  then show ?case using Cons.IH [of "controlled c s"] controlled_no_set [of c s] by auto
qed simp

lemma controls_left:
  "goal_left (fold controlled cs s) \<le> goal_left s + MAX_CONTINUATIONS * goal_sets cs"
proof (cases "goal_sets cs = 0")
  case True
  then show ?thesis using controls_no_set [OF True, of s] by (auto simp: goal_left_def split: option.splits)
next
  case False
  then have "MAX_CONTINUATIONS \<le> MAX_CONTINUATIONS * goal_sets cs" by (cases "goal_sets cs") simp_all
  with goal_left_le [of "fold controlled cs s"] show ?thesis by linarith
qed

lemma take_left [simp]: "goal_left (snd (take_goal_turn s)) = goal_left s"
  by (cases "gs_goal s") (auto simp: goal_left_def take_goal_turn_def goal_active_def)

lemma output_left [simp]: "goal_left (s\<lparr>gs_output := t\<rparr>) = goal_left s"
  by (simp add: goal_left_def)

text \<open>
  A turn that continues uses one continuation up, however many the goals set meanwhile give
  back; one that does not leaves no active goal, unless it ended some other way or a goal was
  set after its end was read.
\<close>

lemma after_turn_continues:
  assumes "after_turn ended cs s = (FollowContinue text, s')"
  shows "goal_left s' + 1 \<le> goal_left s + 13 * goal_sets cs"
proof -
  from assms obtain g where g: "gs_goal s = Some g" "goal_active g" "goal_continuations g < MAX_CONTINUATIONS"
    "s' = mark_goal (GoalActive, Some text) (fold controlled cs s)"
    by (auto simp: after_turn_def check_goal_def opt_filter_Some_iff Let_def
        split: option.splits if_splits verdict.splits)
  show ?thesis
  proof (cases "goal_sets cs = 0")
    case True
    show ?thesis using controls_no_set [OF True, of s] g
      by (auto simp: goal_left_def mark_goal_def goal_active_def)
  next
    case False
    then show ?thesis using goal_left_le [of s'] by (simp add: MAX_CONTINUATIONS_def)
  qed
qed

lemma after_turn_done:
  assumes "after_turn ended cs s = (FollowDone, s')" "goal_sets cs = 0" "gs_goal s' = Some g" "goal_active g"
  shows "\<not> ended"
  using assms(1,3,4) controls_no_set [OF assms(2), of s]
  by (cases "gs_goal s") (auto simp: after_turn_def check_goal_def mark_goal_def goal_active_def opt_filter_Some_iff Let_def
      split: option.splits if_splits verdict.splits)

lemma goal_turns_returns:
  assumes "\<And>i. (\<Sum>j<i. round_sets (rounds (n + j))) \<le> k" "goal_left s + 13 * k < fuel"
  shows "\<exists>m s'. goal_turns fuel rounds n s = Some (m, s') \<and> n < m \<and> m \<le> n + fuel \<and>
     (\<forall>g. gs_goal s' = Some g \<longrightarrow> goal_active g \<longrightarrow>
        \<not> gr_ended (rounds (m - 1)) \<or> 0 < goal_sets (gr_judging (rounds (m - 1))))"
  using assms
proof (induction fuel arbitrary: n s k)
  case (Suc fuel)
  let ?r = "rounds n"
  let ?s2 = "(fold controlled (gr_during ?r) (snd (take_goal_turn (fold controlled (gr_before ?r) s))))
     \<lparr>gs_output := gr_reply ?r\<rparr>"
  obtain f s3 where f: "after_turn (gr_ended ?r) (gr_judging ?r) ?s2 = (f, s3)" by (metis surj_pair)
  show ?case
  proof (cases f)
    case FollowDone
    then show ?thesis using f after_turn_done [of "gr_ended ?r" "gr_judging ?r" ?s2 s3] by (auto simp: Let_def)
  next
    case (FollowContinue prompt)
    have sets: "(\<Sum>j<Suc i. round_sets (rounds (n + j))) = round_sets ?r + (\<Sum>j<i. round_sets (rounds (Suc n + j)))" for i
      by (subst sum.lessThan_Suc_shift) simp
    have k: "round_sets ?r \<le> k" "(\<Sum>j<i. round_sets (rounds (Suc n + j))) \<le> k - round_sets ?r" for i
      using Suc.prems(1) [of "Suc i"] sets [of i] Suc.prems(1) [of "Suc 0"] sets [of 0] by simp_all
    have "goal_left ?s2 \<le> goal_left s + 12 * goal_sets (gr_before ?r) + 12 * goal_sets (gr_during ?r)"
      using controls_left [of "gr_during ?r" "snd (take_goal_turn (fold controlled (gr_before ?r) s))"]
        controls_left [of "gr_before ?r" s] by (simp add: MAX_CONTINUATIONS_def)
    then have "goal_left s3 + 1 \<le> goal_left s + 13 * round_sets ?r"
      using after_turn_continues [of "gr_ended ?r" "gr_judging ?r" ?s2 prompt s3] f FollowContinue
      by (simp add: round_sets_def)
    then have "goal_left s3 + 13 * (k - round_sets ?r) < fuel" using Suc.prems(2) k(1) by auto
    from Suc.IH [OF k(2) this] show ?thesis using f FollowContinue by (auto simp: Let_def)
  qed
qed simp

text \<open>
  C33. A goal never loops forever. For any agent, whatever it replies and however its turns
  end: the turns of one prompt end after at most thirteen, one and its twelve continuations,
  and thirteen more for each goal the client sets with \<open>_router/goal\<close> while they run (a set
  goal starts the count over). They end with no active goal, so a goal that is left is decided
  (met, unmeetable or stalled), unless the last turn was cancelled or failed or a goal was set
  after its end was read.
\<close>
theorem goal_turns_bounded:
  assumes "\<And>i. (\<Sum>j<i. round_sets (rounds j)) \<le> k"
  shows "\<exists>m s'. goal_turns (13 * (k + 1)) rounds 0 s = Some (m, s') \<and> 1 \<le> m \<and> m \<le> 13 * (k + 1) \<and>
     (\<forall>g. gs_goal s' = Some g \<longrightarrow> goal_state g = GoalActive \<longrightarrow>
        \<not> gr_ended (rounds (m - 1)) \<or> 0 < goal_sets (gr_judging (rounds (m - 1))))"
proof -
  have "goal_left s + 13 * k < 13 * (k + 1)" using goal_left_le [of s] by (simp add: MAX_CONTINUATIONS_def)
  from goal_turns_returns [of rounds 0 k s, OF _ this] assms show ?thesis
    by (auto simp: goal_active_def Suc_le_eq)
qed

text \<open>
  The judgement is written onto the goal that is there by then: a goal the client sets while
  the end of the turn is judged takes the verdict on the one it replaced, unworked.
\<close>

lemma verdict_hits_new_goal:
  assumes "check_goal True s = Some (GoalMet, None)" "goal_control c s = Inr (s1, ctl)"
    "Option.bind (json_get c ''action'') as_str = Some ''set''"
  shows "\<exists>objective s'. gs_goal s1 = Some (goal_new objective) \<and> after_turn True [c] s = (FollowDone, s') \<and>
     gs_goal s' = Some ((goal_new objective)\<lparr>goal_state := GoalMet\<rparr>)"
  using assms
  by (auto simp: after_turn_def controlled_def mark_goal_def goal_control_def goal_new_def split: option.splits)

text \<open>What an affirming verdict rests on.\<close>

lemma last_affirmation_Some:
  "last_affirmation ls = Some (met, after) \<Longrightarrow>
   \<exists>before l. ls = before @ l # after \<and> affirmation l = Some met \<and> list_all (\<lambda>x. affirmation x = None) after"
proof (induction ls)
  case (Cons l ls)
  have none: "last_affirmation xs = None \<Longrightarrow> list_all (\<lambda>x. affirmation x = None) xs" for xs
    by (induction xs) (auto split: option.splits)
  show ?case
  proof (cases "last_affirmation ls")
    case None
    then show ?thesis using Cons.prems none [OF None] by (auto intro!: exI [of _ "[]"])
  next
    case (Some r)
    then obtain before x where "ls = before @ x # after" "affirmation x = Some met" "list_all (\<lambda>x. affirmation x = None) after"
      using Cons by auto
    then show ?thesis by (intro exI [of _ "l # before"] exI [of _ x]) simp
  qed
qed simp

lemma last_affirmation_None: "list_all (\<lambda>x. affirmation x = None) ls \<Longrightarrow> last_affirmation ls = None"
  by (induction ls) auto

text \<open>Lines of a text joined from lines.\<close>

lemma str_lines_line:
  assumes "LF \<notin> set l" "CR \<notin> set l"
  shows "str_lines (l @ LF # s) = l # str_lines s"
  using assms by (induction l) auto

lemma str_lines_last: "LF \<notin> set l \<Longrightarrow> CR \<notin> set l \<Longrightarrow> l \<noteq> [] \<Longrightarrow> str_lines l = [l]"
proof (induction l)
  case (Cons c l)
  then show ?case by (cases l) auto
qed simp

text \<open>A line that starts with another sign than the marks and the first letter affirms nothing.\<close>

lemma trim_rev_last:
  assumes "graphic c"
  shows "\<exists>ys. trim_rev (xs @ [c]) = ys @ [c]"
proof (induction xs rule: length_induct)
  case (1 xs)
  have g: "\<not> ws1 (byte c)" "\<not> ws2 (byte c) x" "\<not> ws3 (byte c) x y" for x y
    using assms by (auto simp: graphic_def)
  consider "xs = []" | d where "xs = [d]" | d b where "xs = [d, b]" | d b a zs where "xs = d # b # a # zs"
    by (metis list.exhaust)
  then show ?case
  proof cases
    case 4
    have "\<exists>ys. trim_rev ((b # a # zs) @ [c]) = ys @ [c]" "\<exists>ys. trim_rev ((a # zs) @ [c]) = ys @ [c]"
      "\<exists>ys. trim_rev (zs @ [c]) = ys @ [c]"
      using 1 4 by (metis length_Cons lessI less_Suc_eq)+
    then show ?thesis unfolding 4 append_Cons trim_rev.simps(2) [of d] by (simp del: trim_rev.simps ws1.simps ws2.simps ws3.simps)
  qed (auto simp: g simp del: ws1.simps ws2.simps ws3.simps)
qed

lemma starts_kept:
  assumes "graphic c"
  shows "\<exists>t. trim (c # s) = c # t" "c \<notin> set cs \<Longrightarrow> \<exists>t. trim_chars cs (c # s) = c # t"
proof -
  obtain ys where "trim_rev (rev s @ [c]) = ys @ [c]" using trim_rev_last [OF assms] by blast
  then show "\<exists>t. trim (c # s) = c # t"
    by (simp add: trim_def trim_end_def trim_start_graphic [OF assms] del: trim_start.simps)
  assume "c \<notin> set cs"
  then have "dropWhile (\<lambda>c. c \<in> set cs) (ys @ [c]) \<noteq> [] \<and> last (dropWhile (\<lambda>c. c \<in> set cs) (ys @ [c])) = c" for ys
    by (induction ys) auto
  from this [of "rev s"] \<open>c \<notin> set cs\<close> show "\<exists>t. trim_chars cs (c # s) = c # t"
    by (cases "dropWhile (\<lambda>c. c \<in> set cs) (rev s @ [c])" rule: rev_cases) (auto simp: trim_chars_def trim_end_chars_def)
qed

lemma affirmation_other:
  assumes "graphic c" "c \<notin> {CHR ''*'', CHR 0x60, CHR ''G''}"
  shows "affirmation (c # s) = None"
proof -
  obtain t where "trim (trim_chars [CHR 0x60] (trim_chars [CHR ''*''] (trim (c # s)))) = c # t"
    using starts_kept [OF assms(1)] assms(2) by (metis empty_iff insert_iff empty_set list.simps(15))
  then show ?thesis using assms(2) by (simp add: affirmation_def strip_prefix_def)
qed

lemma str_lines_join:
  "ls \<noteq> [] \<Longrightarrow> \<forall>l \<in> set ls. l \<noteq> [] \<and> LF \<notin> set l \<and> CR \<notin> set l \<Longrightarrow> str_lines (join_with [LF] ls) = ls"
proof (induction ls)
  case (Cons x ls)
  then show ?case by (cases ls) (simp_all add: str_lines_line str_lines_last)
qed simp

lemma goal_terms_lines:
  assumes "LF \<notin> set objective" "CR \<notin> set objective"
  shows "\<forall>l \<in> set (goal_terms objective). l \<noteq> [] \<and> LF \<notin> set l \<and> CR \<notin> set l"
proof -
  have "list_all (\<lambda>l. l \<noteq> [] \<and> LF \<notin> set l \<and> CR \<notin> set l)
     [''[router-acp goal]'', ''The session's goal: '', keep_working_term, met_term, unmeetable_term,
      ''The router keeps the session working until you do.'']"
    by code_simp
  then show ?thesis using assms by (simp add: goal_terms_def)
qed

lemma goal_terms_quiet: "list_all (\<lambda>l. affirmation l = None) (goal_terms objective)"
proof -
  have "affirmation met_term = None" "affirmation unmeetable_term = None" by code_simp+
  moreover have "graphic (CHR ''['')" "graphic (CHR ''T'')" "graphic (CHR ''K'')" by code_simp+
  ultimately show ?thesis by (simp add: goal_terms_def keep_working_term_def affirmation_other)
qed

text \<open>
  A goal ends affirmed only on evidence. A met or unmeetable verdict rests on a line that is
  the affirmation, the last one of the reply, followed by a proof of at least forty
  visible characters. Quoting the terms the router sent, for any one-line objective,
  affirms nothing.
\<close>
lemma goal_affirmed_with_proof:
  "(\<forall>evidence met. verdict_of reply = (if met then VerdictMet evidence else VerdictUnmeetable evidence) \<longrightarrow>
      40 \<le> graphic_chars evidence \<and>
      (\<exists>before l after. str_lines reply = before @ l # after \<and> affirmation l = Some met \<and>
         list_all (\<lambda>x. affirmation x = None) after \<and> evidence = proof_text after)) \<and>
   (LF \<notin> set objective \<longrightarrow> CR \<notin> set objective \<longrightarrow> verdict_of (protocol objective) = VerdictOpen)"
proof (intro conjI allI impI)
  fix evidence met
  assume v: "verdict_of reply = (if met then VerdictMet evidence else VerdictUnmeetable evidence)"
  then obtain after where after: "last_affirmation (str_lines reply) = Some (met, after)"
    "evidence = proof_text after" "\<not> graphic_chars evidence < MIN_PROOF_CHARS"
    by (cases met) (auto simp: verdict_of_def Let_def split: option.splits if_splits)
  then show "40 \<le> graphic_chars evidence" by (simp add: MIN_PROOF_CHARS_def)
  show "\<exists>before l after. str_lines reply = before @ l # after \<and> affirmation l = Some met \<and>
         list_all (\<lambda>x. affirmation x = None) after \<and> evidence = proof_text after"
    using last_affirmation_Some [OF after(1)] after(2) by blast
next
  assume "LF \<notin> set objective" "CR \<notin> set objective"
  then have "str_lines (protocol objective) = goal_terms objective"
    unfolding protocol_def by (intro str_lines_join goal_terms_lines) (simp_all add: goal_terms_def)
  then show "verdict_of (protocol objective) = VerdictOpen"
    by (simp add: verdict_of_def last_affirmation_None goal_terms_quiet)
qed

definition sample_goal_session :: goal_session where
  "sample_goal_session = \<lparr>gs_goal = Some (goal_new ''ship it''), gs_clear_pending = False, gs_output = [],
     gs_pinned = Some ''codex@work''\<rparr>"

definition sample_set_goal :: json where
  "sample_set_goal = JObject [(''action'', JString ''set''), (''objective'', JString ''ship more'')]"

definition sample_rounds :: "nat \<Rightarrow> goal_round" where
  "sample_rounds n = \<lparr>gr_reply = ''still working'', gr_ended = True, gr_before = [],
     gr_during = (if n = 12 then [sample_set_goal] else []), gr_judging = []\<rparr>"

theorem goal_turns_bounded_witness:
  "\<exists>m s'. goal_turns 26 sample_rounds 0 (client_turn sample_goal_session) = Some (m, s') \<and> 1 \<le> m \<and> m \<le> 26"
proof -
  have one: "round_sets (sample_rounds n) = (if n = 12 then 1 else 0)" for n
    by (simp add: sample_rounds_def round_sets_def goal_sets_def sample_set_goal_def)
  have "(\<Sum>j<i. round_sets (sample_rounds j)) \<le> 1" for i
    by (simp add: one)
  from goal_turns_bounded [of sample_rounds 1 "client_turn sample_goal_session", OF this] show ?thesis by auto
qed

text \<open>A goal set by a command is what the next turn works on, and a cleared one is never continued.\<close>

lemma goal_set_clear:
  "parse_goal_command text = Some (SetGoal objective) \<Longrightarrow>
     \<exists>s'. handle_goal_command text s = Some (GoalDispatch, s', None) \<and> gs_goal s' = Some (goal_new objective)"
  "parse_goal_command text = Some ClearGoal \<Longrightarrow>
     \<exists>h s' ctl. handle_goal_command text s = Some (h, s', ctl) \<and> after_turn ended [] s' = (FollowDone, s')"
  by (auto simp: handle_goal_command_def after_turn_def check_goal_def Let_def)

end
