(* ===== verification/Native_Backgrounds.thy ===== *)
theory Native_Backgrounds
  imports Failure_Limits "HOL-Library.Multiset"
begin

text \<open>
  Background work an agent starts with its own tools, mirrored to the client
  (\<open>native_backgrounds.rs\<close>). A tracker per session follows tool calls and reports what starts
  and ends; the notifications, sent after the tracker is unlocked, are the only thing the client sees. The captures of the
  regular expressions and the printing of a JSON value are fields of \<open>background_env\<close>.
\<close>

section \<open>State\<close>

record native_task =
  nt_id :: string
  nt_kind :: string
  nt_command :: string
  nt_started_at_ms :: int
  nt_output_file :: "string option"
  nt_tool_call_id :: string
  nt_deadline_ms :: "int option"

datatype background_event = TaskStarted native_task | TaskEnded native_task string

record tool_call =
  tc_name :: string
  tc_command :: string
  tc_target :: "string option"

definition tool_call_default :: tool_call where
  "tool_call_default = \<lparr>tc_name = [], tc_command = [], tc_target = None\<rparr>"

record bg_tracker =
  bt_tools :: "string \<rightharpoonup> tool_call"
  bt_running :: "native_task list"

definition bg_tracker_default :: bg_tracker where
  "bg_tracker_default = \<lparr>bt_tools = Map.empty, bt_running = []\<rparr>"

record background_env =
  be_monitor :: "string \<Rightarrow> (string \<times> string option) option"
  be_shell_id :: "string \<Rightarrow> string option"
  be_shell_output :: "string \<Rightarrow> string option"
  be_result_id :: "string \<Rightarrow> string option"
  be_finished :: "string \<Rightarrow> bool"
  be_json_text :: "json \<Rightarrow> string"

section \<open>Reading an update\<close>

fun json_path :: "string list \<Rightarrow> json \<Rightarrow> json option" where
  "json_path [] v = Some v"
| "json_path (k # ks) v = Option.bind (json_get v k) (json_path ks)"

definition str_at :: "string list \<Rightarrow> json \<Rightarrow> string option" where
  "str_at path v = Option.bind (json_path path v) as_str"

definition tool_name :: "json \<Rightarrow> string option" where
  "tool_name = str_at [''_meta'', ''claudeCode'', ''toolName'']"

definition tool_command :: "json \<Rightarrow> string option" where
  "tool_command update =
     (case json_get update ''rawInput'' of
        None \<Rightarrow> None
      | Some input \<Rightarrow>
          opt_filter (\<lambda>t. \<not> blank t)
            (Option.bind (opt_or (json_get input ''command'') (json_get input ''description'')) as_str))"

definition result_text :: "background_env \<Rightarrow> json \<Rightarrow> string" where
  "result_text be update =
     concat (map (\<lambda>block. case str_at [''content'', ''text''] block of Some part \<Rightarrow> part @ [LF] | None \<Rightarrow> [])
       (unwrap_or (Option.bind (json_get update ''content'') as_array) []))
     @ (case json_get update ''rawOutput'' of
          Some (JString raw) \<Rightarrow> raw
        | Some (JObject m) \<Rightarrow> be_json_text be (JObject m)
        | Some (JArray xs) \<Rightarrow> be_json_text be (JArray xs)
        | _ \<Rightarrow> [])"

definition monitor_started :: "background_env \<Rightarrow> string \<Rightarrow> (string \<times> int option) option" where
  "monitor_started be text = map_option (\<lambda>(i, ms). (i, Option.bind ms parse_i64)) (be_monitor be text)"

definition shell_started :: "background_env \<Rightarrow> string \<Rightarrow> (string \<times> string option) option" where
  "shell_started be text =
     map_option (\<lambda>i. (i, map_option (trim_end_chars [CHR ''.'']) (be_shell_output be text))) (be_shell_id be text)"

definition input_task_id :: "json option \<Rightarrow> string option" where
  "input_task_id input =
     (case input of
        None \<Rightarrow> None
      | Some v \<Rightarrow>
          (case List.map_filter (\<lambda>k. Option.bind (json_get v k) as_str)
                  [''task_id'', ''shell_id'', ''bash_id'', ''taskId'', ''shellId''] of
             [] \<Rightarrow> None | t # _ \<Rightarrow> Some t))"

section \<open>The tracker\<close>

fun remove_task :: "string \<Rightarrow> native_task list \<Rightarrow> native_task list" where
  "remove_task i [] = []"
| "remove_task i (t # ts) = (if nt_id t = i then ts else t # remove_task i ts)"

definition start_task :: "native_task \<Rightarrow> bg_tracker \<Rightarrow> background_event list \<times> bg_tracker" where
  "start_task task tr =
     (if list_ex (\<lambda>r. nt_id r = nt_id task) (bt_running tr) then ([], tr)
      else ([TaskStarted task], tr\<lparr>bt_running := bt_running tr @ [task]\<rparr>))"

definition end_task :: "string \<Rightarrow> string \<Rightarrow> bg_tracker \<Rightarrow> background_event list \<times> bg_tracker" where
  "end_task i reason tr =
     (case List.find (\<lambda>t. nt_id t = i) (bt_running tr) of
        Some task \<Rightarrow> ([TaskEnded task reason], tr\<lparr>bt_running := remove_task i (bt_running tr)\<rparr>)
      | None \<Rightarrow> ([], tr))"

fun end_all :: "string list \<Rightarrow> string \<Rightarrow> bg_tracker \<Rightarrow> background_event list \<times> bg_tracker" where
  "end_all [] reason tr = ([], tr)"
| "end_all (i # ids) reason tr =
     (let (e, tr1) = end_task i reason tr; (es, tr2) = end_all ids reason tr1 in (e @ es, tr2))"

definition expire :: "int \<Rightarrow> bg_tracker \<Rightarrow> background_event list \<times> bg_tracker" where
  "expire now tr =
     end_all (map nt_id (filter (\<lambda>t. is_some_and (nt_deadline_ms t) (\<lambda>d. d \<le> now)) (bt_running tr))) ''timeout'' tr"

definition update_tool :: "json \<Rightarrow> tool_call \<Rightarrow> tool_call" where
  "update_tool update c =
     c\<lparr>tc_name := unwrap_or (tool_name update) (tc_name c),
       tc_command := unwrap_or (tool_command update) (tc_command c),
       tc_target := opt_or (input_task_id (json_get update ''rawInput'')) (tc_target c)\<rparr>"

text \<open>Addition on \<open>i64\<close> in a release build, where it wraps.\<close>

definition wrap_i64 :: "int \<Rightarrow> int" where
  "wrap_i64 x = (x + 2 ^ 63) mod 2 ^ 64 - 2 ^ 63"

text \<open>What a finished tool call means for the running tasks.\<close>

definition finish_tool ::
  "background_env \<Rightarrow> json \<Rightarrow> int \<Rightarrow> string \<Rightarrow> tool_call \<Rightarrow> bg_tracker \<Rightarrow> background_event list \<times> bg_tracker" where
  "finish_tool be update now_ms i c tr =
     (let text = result_text be update; target = opt_or (tc_target c) (be_result_id be text) in
      if tc_name c = ''Monitor'' then
        (case monitor_started be text of
           None \<Rightarrow> ([], tr)
         | Some (task_id, timeout_ms) \<Rightarrow>
             start_task \<lparr>nt_id = task_id, nt_kind = ''monitor'',
               nt_command = (if tc_command c = [] then ''Monitor'' else tc_command c), nt_started_at_ms = now_ms,
               nt_output_file = None, nt_tool_call_id = i, nt_deadline_ms = map_option (\<lambda>ms. wrap_i64 (now_ms + ms)) timeout_ms\<rparr> tr)
      else if tc_name c = ''Bash'' then
        (case shell_started be text of
           None \<Rightarrow> ([], tr)
         | Some (task_id, output_file) \<Rightarrow>
             start_task \<lparr>nt_id = task_id, nt_kind = ''shell'', nt_command = tc_command c, nt_started_at_ms = now_ms,
               nt_output_file = output_file, nt_tool_call_id = i, nt_deadline_ms = None\<rparr> tr)
      else if tc_name c \<in> {''TaskStop'', ''KillShell'', ''KillBash''} then
        (case target of None \<Rightarrow> ([], tr) | Some t \<Rightarrow> end_task t ''stopped'' tr)
      else if tc_name c \<in> {''TaskOutput'', ''BashOutput''} then
        (case target of
           None \<Rightarrow> ([], tr)
         | Some t \<Rightarrow> if be_finished be text then end_task t ''finished'' tr else ([], tr))
      else ([], tr))"

definition observe_update ::
  "background_env \<Rightarrow> json \<Rightarrow> int \<Rightarrow> bg_tracker \<Rightarrow> background_event list \<times> bg_tracker" where
  "observe_update be update now_ms tr =
     (let (events, tr1) = expire now_ms tr;
          kind = unwrap_or (str_at [''sessionUpdate''] update) [] in
      if kind \<noteq> ''tool_call'' \<and> kind \<noteq> ''tool_call_update'' then (events, tr1)
      else case str_at [''toolCallId''] update of
        None \<Rightarrow> (events, tr1)
      | Some i \<Rightarrow>
          (let c = update_tool update (unwrap_or (bt_tools tr1 i) tool_call_default) in
           if str_at [''status''] update \<in> {Some ''completed'', Some ''failed''}
           then let (es, tr2) = finish_tool be update now_ms i c (tr1\<lparr>bt_tools := (bt_tools tr1)(i := None)\<rparr>)
                in (events @ es, tr2)
           else (events, tr1\<lparr>bt_tools := (bt_tools tr1)(i \<mapsto> c)\<rparr>)))"

section \<open>All sessions\<close>

text \<open>
  The trackers by session, and the notifications sent so far, each with its session. A
  section that changes a tracker returns its events and unlocks, and only then sends them
  one by one (\<open>observe\<close>, \<open>forget\<close> and the task of \<open>schedule_expiry\<close>, on threads of their own):
  the events it has still to send are a batch in \<open>bw_pending\<close>.
\<close>

record background_world =
  bw_trackers :: "string \<rightharpoonup> bg_tracker"
  bw_pending :: "(string \<times> background_event list) list"
  bw_sent :: "(string \<times> background_event) list"

definition bg_observe :: "background_env \<Rightarrow> string \<Rightarrow> json \<Rightarrow> int \<Rightarrow> background_world \<Rightarrow> background_world" where
  "bg_observe be sid update now_ms w =
     (let (events, tr) = observe_update be update now_ms (unwrap_or (bw_trackers w sid) bg_tracker_default)
      in w\<lparr>bw_trackers := (bw_trackers w)(sid \<mapsto> tr), bw_pending := bw_pending w @ [(sid, events)]\<rparr>)"

definition bg_expiry :: "string \<Rightarrow> int \<Rightarrow> background_world \<Rightarrow> background_world" where
  "bg_expiry sid now_ms w =
     (case bw_trackers w sid of
        None \<Rightarrow> w
      | Some tr \<Rightarrow>
          (let (events, tr') = expire now_ms tr
           in w\<lparr>bw_trackers := (bw_trackers w)(sid \<mapsto> tr'), bw_pending := bw_pending w @ [(sid, events)]\<rparr>))"

definition bg_forget :: "string \<Rightarrow> background_world \<Rightarrow> background_world" where
  "bg_forget sid w =
     w\<lparr>bw_trackers := (bw_trackers w)(sid := None),
       bw_pending := bw_pending w @ [(sid, map (\<lambda>t. TaskEnded t ''session ended'')
                   (bt_running (unwrap_or (bw_trackers w sid) bg_tracker_default)))]\<rparr>"

text \<open>\<open>publish\<close>: the next event of a pending batch goes to the client.\<close>

definition bg_publish :: "nat \<Rightarrow> background_world \<Rightarrow> background_world" where
  "bg_publish i w =
     (if i < length (bw_pending w) then
        (case bw_pending w ! i of
           (sid, []) \<Rightarrow> w
         | (sid, e # es) \<Rightarrow> w\<lparr>bw_pending := (bw_pending w)[i := (sid, es)], bw_sent := bw_sent w @ [(sid, e)]\<rparr>)
      else w)"

definition bg_running :: "string \<Rightarrow> background_world \<Rightarrow> native_task list" where
  "bg_running sid w = bt_running (unwrap_or (bw_trackers w sid) bg_tracker_default)"

text \<open>Sections and sends interleave in any order.\<close>

inductive background_step :: "background_world \<Rightarrow> background_world \<Rightarrow> bool" where
  observed: "background_step w (bg_observe be sid update now_ms w)"
| expiry: "background_step w (bg_expiry sid now_ms w)"
| forgotten: "background_step w (bg_forget sid w)"
| published: "background_step w (bg_publish i w)"

definition sent_to :: "string \<Rightarrow> background_world \<Rightarrow> background_event list" where
  "sent_to sid w = map snd (filter (\<lambda>(s, _). s = sid) (bw_sent w))"

definition pending_to :: "string \<Rightarrow> background_world \<Rightarrow> background_event list" where
  "pending_to sid w = concat (map snd (filter (\<lambda>(s, _). s = sid) (bw_pending w)))"

text \<open>
  An orderly run: no section of a session starts while events of an earlier one are unsent.
\<close>

inductive orderly_step :: "background_world \<Rightarrow> background_world \<Rightarrow> bool" where
  observed_orderly: "pending_to sid w = [] \<Longrightarrow> orderly_step w (bg_observe be sid update now_ms w)"
| expiry_orderly: "pending_to sid w = [] \<Longrightarrow> orderly_step w (bg_expiry sid now_ms w)"
| forgotten_orderly: "pending_to sid w = [] \<Longrightarrow> orderly_step w (bg_forget sid w)"
| published_orderly: "orderly_step w (bg_publish i w)"

section \<open>Correctness\<close>

text \<open>
  The client's list of running work, built from the notifications alone. A start of a task
  already listed, or an end of one not listed, would make it inconsistent.
\<close>

fun client_apply :: "background_event \<Rightarrow> native_task list \<Rightarrow> native_task list option" where
  "client_apply (TaskStarted t) listed = (if nt_id t \<in> nt_id ` set listed then None else Some (listed @ [t]))"
| "client_apply (TaskEnded t _) listed = (if t \<in> set listed then Some (remove1 t listed) else None)"

fun client_list :: "background_event list \<Rightarrow> native_task list \<Rightarrow> native_task list option" where
  "client_list [] listed = Some listed"
| "client_list (e # es) listed = Option.bind (client_apply e listed) (client_list es)"

lemma client_list_append: "client_list (es @ fs) l = Option.bind (client_list es l) (client_list fs)"
  by (induction es arbitrary: l) (auto split: bind_splits)

text \<open>A change of a tracker whose events take the client's list along.\<close>

definition tasks_ok :: "native_task list \<Rightarrow> bool" where
  "tasks_ok ts \<longleftrightarrow> distinct (map nt_id ts)"

definition mirrored :: "background_event list \<Rightarrow> bg_tracker \<Rightarrow> bg_tracker \<Rightarrow> bool" where
  "mirrored es tr tr' \<longleftrightarrow> (tasks_ok (bt_running tr) \<longrightarrow>
     client_list es (bt_running tr) = Some (bt_running tr') \<and> tasks_ok (bt_running tr'))"

lemma mirrored_none [simp]: "bt_running tr' = bt_running tr \<Longrightarrow> mirrored [] tr tr'"
  by (simp add: mirrored_def)

lemma mirrored_append: "mirrored es tr tr1 \<Longrightarrow> mirrored fs tr1 tr2 \<Longrightarrow> mirrored (es @ fs) tr tr2"
  by (auto simp: mirrored_def client_list_append)

lemma mirrored_tools: "mirrored es (tr\<lparr>bt_tools := m\<rparr>) tr' = mirrored es tr tr'"
  by (simp add: mirrored_def)

lemma remove_task_find:
  "tasks_ok ts \<Longrightarrow> List.find (\<lambda>t. nt_id t = i) ts = Some task \<Longrightarrow>
   task \<in> set ts \<and> remove_task i ts = remove1 task ts"
  by (induction ts) (auto simp: tasks_ok_def split: if_splits)

lemma set_remove_task: "set (remove_task i ts) \<subseteq> set ts"
  by (induction ts) auto

lemma tasks_ok_remove: "tasks_ok ts \<Longrightarrow> tasks_ok (remove_task i ts)"
  by (induction ts) (auto simp: tasks_ok_def dest: set_mp [OF set_remove_task])

lemma start_task_mirrored: "start_task task tr = (es, tr') \<Longrightarrow> mirrored es tr tr'"
  by (fastforce simp: start_task_def mirrored_def tasks_ok_def list_ex_iff split: if_splits)

lemma end_task_mirrored: "end_task i reason tr = (es, tr') \<Longrightarrow> mirrored es tr tr'"
  by (auto simp: end_task_def mirrored_def tasks_ok_remove split: option.splits dest: remove_task_find)

lemma end_all_mirrored: "end_all ids reason tr = (es, tr') \<Longrightarrow> mirrored es tr tr'"
proof (induction ids arbitrary: tr es)
  case (Cons i ids)
  obtain e tr1 where e: "end_task i reason tr = (e, tr1)" by (cases "end_task i reason tr")
  obtain fs where f: "end_all ids reason tr1 = (fs, tr')" "es = e @ fs"
    using Cons.prems e by (auto split: prod.splits)
  show ?case unfolding f(2) by (rule mirrored_append [OF end_task_mirrored [OF e] Cons.IH [OF f(1)]])
qed simp

lemma expire_mirrored: "expire now tr = (es, tr') \<Longrightarrow> mirrored es tr tr'"
  unfolding expire_def by (rule end_all_mirrored)

lemma finish_tool_mirrored: "finish_tool be update now i c tr = (es, tr') \<Longrightarrow> mirrored es tr tr'"
  by (auto simp: finish_tool_def Let_def split: if_splits option.splits prod.splits
      intro: start_task_mirrored end_task_mirrored)

lemma observe_mirrored:
  assumes "observe_update be update now tr = (es, tr')"
  shows "mirrored es tr tr'"
proof -
  obtain e1 tr1 where e: "expire now tr = (e1, tr1)" by (cases "expire now tr")
  note m = expire_mirrored [OF e]
  have plain: "mirrored e1 tr (tr1\<lparr>bt_tools := x\<rparr>)" for x
    using m by (simp add: mirrored_def)
  have fin: "mirrored (e1 @ es2) tr tr2" if "finish_tool be update now i c (tr1\<lparr>bt_tools := x\<rparr>) = (es2, tr2)" for i c x es2 tr2
    using mirrored_append [OF m] finish_tool_mirrored [OF that] by (simp add: mirrored_tools)
  show ?thesis
    using assms m plain fin by (auto simp: observe_update_def e Let_def split: if_splits option.splits prod.splits)
qed

text \<open>Ending tasks by identity leaves the others, in order.\<close>

lemma remove_task_filter: "tasks_ok ts \<Longrightarrow> remove_task i ts = filter (\<lambda>t. nt_id t \<noteq> i) ts"
proof (induction ts)
  case (Cons t ts)
  have "filter (\<lambda>u. nt_id u \<noteq> nt_id t) ts = ts"
    using Cons.prems by (intro filter_True) (auto simp: tasks_ok_def image_iff)
  then show ?case using Cons by (auto simp: tasks_ok_def)
qed simp

lemma end_task_running:
  "tasks_ok (bt_running tr) \<Longrightarrow> bt_running (snd (end_task i reason tr)) = filter (\<lambda>t. nt_id t \<noteq> i) (bt_running tr)"
  by (auto simp: end_task_def remove_task_filter find_None_iff split: option.splits intro!: sym [OF filter_True])

lemma tasks_ok_filter: "tasks_ok ts \<Longrightarrow> tasks_ok (filter P ts)"
  by (simp add: tasks_ok_def distinct_map_filter)

lemma end_all_running:
  "tasks_ok (bt_running tr) \<Longrightarrow>
   bt_running (snd (end_all ids reason tr)) = filter (\<lambda>t. nt_id t \<notin> set ids) (bt_running tr)"
proof (induction ids arbitrary: tr)
  case (Cons i ids)
  have r: "bt_running (snd (end_task i reason tr)) = filter (\<lambda>t. nt_id t \<noteq> i) (bt_running tr)"
    by (rule end_task_running [OF Cons.prems])
  from Cons.IH [of "snd (end_task i reason tr)"] show ?case
    by (simp add: r tasks_ok_filter Cons.prems split_beta conj_commute)
qed simp

definition past_deadline :: "int \<Rightarrow> native_task \<Rightarrow> bool" where
  "past_deadline now t \<longleftrightarrow> is_some_and (nt_deadline_ms t) (\<lambda>d. d \<le> now)"

lemma expire_running:
  assumes "tasks_ok (bt_running tr)"
  shows "bt_running (snd (expire now tr)) = filter (\<lambda>t. \<not> past_deadline now t) (bt_running tr)"
proof -
  have "inj_on nt_id (set (bt_running tr))" using assms by (simp add: tasks_ok_def distinct_map)
  then have "nt_id t \<in> nt_id ` {u \<in> set (bt_running tr). past_deadline now u} \<longleftrightarrow> past_deadline now t"
    if "t \<in> set (bt_running tr)" for t using that by (auto dest: inj_onD)
  then show ?thesis
    by (auto simp: expire_def end_all_running [OF assms] past_deadline_def [symmetric] intro: filter_cong)
qed

lemma expiry_running:
  "tasks_ok (bg_running sid w) \<Longrightarrow>
   bg_running sid (bg_expiry sid now w) = filter (\<lambda>t. \<not> past_deadline now t) (bg_running sid w)"
  using expire_running [of "unwrap_or (bw_trackers w sid) bg_tracker_default" now]
  by (cases "bw_trackers w sid")
    (auto simp: bg_running_def bg_expiry_def bg_tracker_default_def split_beta)

text \<open>The tasks that events start and end, as multisets.\<close>

fun started_task :: "background_event \<Rightarrow> native_task multiset" where
  "started_task (TaskStarted t) = {#t#}"
| "started_task (TaskEnded t _) = {#}"

fun ended_task :: "background_event \<Rightarrow> native_task multiset" where
  "ended_task (TaskStarted t) = {#}"
| "ended_task (TaskEnded t _) = {#t#}"

definition started_tasks :: "background_event list \<Rightarrow> native_task multiset" where
  "started_tasks es = sum_list (map started_task es)"

definition ended_tasks :: "background_event list \<Rightarrow> native_task multiset" where
  "ended_tasks es = sum_list (map ended_task es)"

lemma tasks_simps [simp]:
  "started_tasks [] = {#}" "started_tasks (e # es) = started_task e + started_tasks es"
  "started_tasks (es @ fs) = started_tasks es + started_tasks fs"
  "ended_tasks [] = {#}" "ended_tasks (e # es) = ended_task e + ended_tasks es"
  "ended_tasks (es @ fs) = ended_tasks es + ended_tasks fs"
  by (simp_all add: started_tasks_def ended_tasks_def)

lemma client_list_balance:
  "client_list es l = Some l' \<Longrightarrow> mset l + started_tasks es = mset l' + ended_tasks es"
proof (induction es arbitrary: l)
  case (Cons e es)
  then obtain m where m: "client_apply e l = Some m" "client_list es m = Some l'" by (auto split: bind_splits)
  have "mset l + started_task e = mset m + ended_task e"
    using m(1) by (cases e) (auto split: if_splits)
  then show ?case using Cons.IH [OF m(2)] by (simp add: ac_simps) (metis add.assoc add.commute)
qed simp

text \<open>A section: the tracker of one session changes, and its events become a batch.\<close>

definition section_of :: "string \<Rightarrow> background_world \<Rightarrow> background_event list \<Rightarrow> background_world \<Rightarrow> bool" where
  "section_of sid w es w' \<longleftrightarrow> bw_sent w' = bw_sent w \<and> bw_pending w' = bw_pending w @ [(sid, es)] \<and>
     (\<forall>x. x \<noteq> sid \<longrightarrow> bg_running x w' = bg_running x w) \<and>
     (tasks_ok (bg_running sid w) \<longrightarrow>
        client_list es (bg_running sid w) = Some (bg_running sid w') \<and> tasks_ok (bg_running sid w'))"

lemma forget_list: "client_list (map (\<lambda>t. TaskEnded t reason) ts) ts = Some []"
  by (induction ts) simp_all

lemma observe_section: "\<exists>es. section_of sid w es (bg_observe be sid update now_ms w)"
  using observe_mirrored [OF surjective_pairing, of be update now_ms "unwrap_or (bw_trackers w sid) bg_tracker_default"]
  by (auto simp: section_of_def bg_observe_def bg_running_def mirrored_def split_beta)

lemma expiry_section: "bg_expiry sid now_ms w = w \<or> (\<exists>es. section_of sid w es (bg_expiry sid now_ms w))"
proof (cases "bw_trackers w sid")
  case (Some tr)
  then show ?thesis using expire_mirrored [OF surjective_pairing, of now_ms tr]
    by (auto simp: section_of_def bg_expiry_def bg_running_def mirrored_def split_beta)
qed (simp add: bg_expiry_def)

lemma forget_section: "\<exists>es. section_of sid w es (bg_forget sid w)"
  by (auto simp: section_of_def bg_forget_def bg_running_def bg_tracker_default_def tasks_ok_def forget_list)

text \<open>The two kinds of step the proofs tell apart.\<close>

lemma background_step_cases:
  assumes "background_step w w'"
  obtains (same) "w' = w" | (ran) sid es where "section_of sid w es w'" | (sent) i where "w' = bg_publish i w"
  using assms by (cases rule: background_step.cases) (use observe_section expiry_section forget_section in blast)+

lemma orderly_step_cases:
  assumes "orderly_step w w'"
  obtains (same) "w' = w" | (ran) sid es where "pending_to sid w = []" "section_of sid w es w'"
    | (sent) i where "w' = bg_publish i w"
  using assms by (cases rule: orderly_step.cases) (use observe_section expiry_section forget_section in blast)+

text \<open>A send moves the first event of a batch.\<close>

lemma publish_cases:
  obtains (none) "bg_publish i w = w"
  | (one) a s e es b where "bw_pending w = a @ (s, e # es) # b"
      "bg_publish i w = w\<lparr>bw_pending := a @ (s, es) # b, bw_sent := bw_sent w @ [(s, e)]\<rparr>"
proof (cases "i < length (bw_pending w) \<and> snd (bw_pending w ! i) \<noteq> []")
  case True
  then obtain s e es where i: "bw_pending w ! i = (s, e # es)" by (metis list.exhaust prod.collapse)
  have "bw_pending w = take i (bw_pending w) @ (s, e # es) # drop (Suc i) (bw_pending w)"
    using True i by (metis id_take_nth_drop)
  moreover have "bg_publish i w = w\<lparr>bw_pending := take i (bw_pending w) @ (s, es) # drop (Suc i) (bw_pending w),
     bw_sent := bw_sent w @ [(s, e)]\<rparr>"
    using True i by (simp add: bg_publish_def upd_conv_take_nth_drop)
  ultimately show thesis by (rule one)
next
  case False
  then show thesis by (intro none) (auto simp: bg_publish_def split: prod.splits list.splits)
qed

text \<open>Whatever the order of the sends: the events sent and pending balance the running tasks.\<close>

definition mirror_ok :: "background_world \<Rightarrow> bool" where
  "mirror_ok w \<longleftrightarrow> (\<forall>sid. tasks_ok (bg_running sid w) \<and>
     started_tasks (sent_to sid w @ pending_to sid w) =
     ended_tasks (sent_to sid w @ pending_to sid w) + mset (bg_running sid w))"

lemma section_shifts:
  assumes "section_of sid w es w'"
  shows "sent_to x w' = sent_to x w" "pending_to x w' = pending_to x w @ (if x = sid then es else [])"
  using assms by (auto simp: section_of_def sent_to_def pending_to_def)

lemma background_step_keeps: "background_step w w' \<Longrightarrow> mirror_ok w \<Longrightarrow> mirror_ok w'"
proof (erule background_step_cases)
  fix sid es assume w: "section_of sid w es w'" "mirror_ok w"
  show "mirror_ok w'"
    unfolding mirror_ok_def
  proof
    fix x
    show "tasks_ok (bg_running x w') \<and>
     started_tasks (sent_to x w' @ pending_to x w') =
     ended_tasks (sent_to x w' @ pending_to x w') + mset (bg_running x w')"
    proof (cases "x = sid")
      case True
      have "client_list es (bg_running sid w) = Some (bg_running sid w')" "tasks_ok (bg_running sid w')"
        using w by (auto simp: section_of_def mirror_ok_def)
      then show ?thesis using w(2) client_list_balance [of es "bg_running sid w" "bg_running sid w'"]
        unfolding True mirror_ok_def section_shifts [OF w(1)] by (auto simp: ac_simps)
    next
      case False
      then have "bg_running x w' = bg_running x w" using w(1) by (simp add: section_of_def)
      then show ?thesis using w(2) False by (simp add: section_shifts [OF w(1)] mirror_ok_def)
    qed
  qed
next
  fix i assume w: "w' = bg_publish i w" "mirror_ok w"
  show "mirror_ok w'"
  proof (rule publish_cases [of i w])
    fix a s e es b
    assume b: "bw_pending w = a @ (s, e # es) # b"
      "bg_publish i w = w\<lparr>bw_pending := a @ (s, es) # b, bw_sent := bw_sent w @ [(s, e)]\<rparr>"
    have "bg_running x w' = bg_running x w" for x by (simp add: w(1) b(2) bg_running_def)
    moreover have "started_tasks (sent_to x w' @ pending_to x w') = started_tasks (sent_to x w @ pending_to x w)"
      "ended_tasks (sent_to x w' @ pending_to x w') = ended_tasks (sent_to x w @ pending_to x w)" for x
      by (auto simp: w(1) b sent_to_def pending_to_def ac_simps)
    ultimately show ?thesis using w(2) unfolding mirror_ok_def by (metis (no_types))
  qed (use w in simp)
qed simp

interpretation backgrounds: step_invariant background_step mirror_ok
  by unfold_locales (rule background_step_keeps)

text \<open>An orderly run also keeps the order: at most one batch of a session has events left.\<close>

definition unsent :: "string \<Rightarrow> background_world \<Rightarrow> (string \<times> background_event list) list" where
  "unsent sid w = filter (\<lambda>(s, es). s = sid \<and> es \<noteq> []) (bw_pending w)"

definition orderly_ok :: "background_world \<Rightarrow> bool" where
  "orderly_ok w \<longleftrightarrow> (\<forall>sid. length (unsent sid w) \<le> 1 \<and> tasks_ok (bg_running sid w) \<and>
     client_list (sent_to sid w @ pending_to sid w) [] = Some (bg_running sid w))"

lemma pending_unsent: "pending_to sid w = concat (map snd (unsent sid w))"
proof -
  have "concat (map snd (filter (\<lambda>(s, _). s = sid) bs)) =
        concat (map snd (filter (\<lambda>(s, es). s = sid \<and> es \<noteq> []) bs))" for bs :: "(string \<times> background_event list) list"
    by (induction bs) auto
  then show ?thesis by (simp add: pending_to_def unsent_def)
qed

lemma pending_none: "pending_to sid w = [] \<Longrightarrow> unsent sid w = []"
  by (auto simp: pending_unsent unsent_def filter_empty_conv)

lemma orderly_step_keeps: "orderly_step w w' \<Longrightarrow> orderly_ok w \<Longrightarrow> orderly_ok w'"
proof (erule orderly_step_cases)
  fix sid es assume w: "pending_to sid w = []" "section_of sid w es w'" "orderly_ok w"
  have run: "bg_running x w' = bg_running x w" if "x \<noteq> sid" for x using w(2) that by (simp add: section_of_def)
  have own: "client_list es (bg_running sid w) = Some (bg_running sid w')" "tasks_ok (bg_running sid w')"
    using w by (auto simp: section_of_def orderly_ok_def)
  have "length (unsent x w') \<le> 1" for x
    using w pending_none [OF w(1)] by (auto simp: orderly_ok_def unsent_def section_of_def)
  moreover have "tasks_ok (bg_running x w') \<and> client_list (sent_to x w' @ pending_to x w') [] = Some (bg_running x w')" for x
  proof (cases "x = sid")
    case True
    have "client_list (sent_to sid w @ pending_to sid w) [] = Some (bg_running sid w)"
      using w(3) by (simp add: orderly_ok_def)
    then have "client_list ((sent_to sid w @ pending_to sid w) @ es) [] = client_list es (bg_running sid w)"
      by (simp only: client_list_append [of "sent_to sid w @ pending_to sid w" es] bind.simps)
    then show ?thesis using own by (simp add: True section_shifts [OF w(2)])
  qed (use w(3) run [of x] in \<open>simp add: section_shifts [OF w(2)] orderly_ok_def\<close>)
  ultimately show "orderly_ok w'" by (simp add: orderly_ok_def)
next
  fix i assume w: "w' = bg_publish i w" "orderly_ok w"
  show "orderly_ok w'"
  proof (rule publish_cases [of i w])
    fix a s e es b
    assume b: "bw_pending w = a @ (s, e # es) # b"
      "bg_publish i w = w\<lparr>bw_pending := a @ (s, es) # b, bw_sent := bw_sent w @ [(s, e)]\<rparr>"
    let ?only = "\<lambda>x. filter (\<lambda>(y, es). y = x \<and> es \<noteq> [])"
    have "length (unsent s w) \<le> 1" using w(2) by (simp add: orderly_ok_def)
    then have none: "?only s a = []" "?only s b = []" by (simp_all add: unsent_def b(1))
    have "length (unsent x w') \<le> length (unsent x w)" for x by (simp add: w(1) b unsent_def)
    then have "length (unsent x w') \<le> 1" for x using w(2) unfolding orderly_ok_def by (meson le_trans)
    moreover have "sent_to x w' @ pending_to x w' = sent_to x w @ pending_to x w" for x
      using none by (cases "x = s") (auto simp: w(1) b sent_to_def pending_unsent unsent_def)
    moreover have "bg_running x w' = bg_running x w" for x by (simp add: w(1) b(2) bg_running_def)
    ultimately show ?thesis using w(2) unfolding orderly_ok_def by metis
  qed (use w in simp)
qed simp

interpretation orderly: step_invariant orderly_step orderly_ok
  by unfold_locales (rule orderly_step_keeps)

definition background_start :: background_world where
  "background_start = \<lparr>bw_trackers = Map.empty, bw_pending = [], bw_sent = []\<rparr>"

text \<open>
  C34. The notifications mirror the running tasks. For every session and any interleaving of
  its updates, expiries, its end and the sends of the events these leave: the tasks started
  by the events sent and still to send are, with multiplicity, those ended and those running,
  and no two running tasks share an identity; so once nothing is left to send, what the client
  was told nets to exactly the tracker's running tasks. An expiry ends exactly the monitors
  past their deadline and keeps the others in order. In an orderly run, where no section of
  a session starts before the events of the one before are sent, the list a client keeps by
  adding every started task and removing every ended one is, with what is still to send,
  exactly the tracker's, in order: no task is announced twice while it runs, and none ended
  that was not listed.
\<close>
theorem background_mirror_exact:
  assumes "background_step\<^sup>*\<^sup>* background_start w"
  shows "started_tasks (sent_to sid w @ pending_to sid w) =
           ended_tasks (sent_to sid w @ pending_to sid w) + mset (bg_running sid w) \<and>
    distinct (map nt_id (bg_running sid w)) \<and>
    (pending_to sid w = [] \<longrightarrow> started_tasks (sent_to sid w) - ended_tasks (sent_to sid w) = mset (bg_running sid w)) \<and>
    bg_running sid (bg_expiry sid now w) = filter (\<lambda>t. \<not> past_deadline now t) (bg_running sid w) \<and>
    (orderly_step\<^sup>*\<^sup>* background_start w \<longrightarrow>
       client_list (sent_to sid w @ pending_to sid w) [] = Some (bg_running sid w))"
proof -
  note start = background_start_def sent_to_def pending_to_def unsent_def bg_running_def bg_tracker_default_def tasks_ok_def
  have "mirror_ok background_start" "orderly_ok background_start"
    by (simp_all add: mirror_ok_def orderly_ok_def start)
  then have m: "mirror_ok w" "orderly_step\<^sup>*\<^sup>* background_start w \<longrightarrow> orderly_ok w"
    using backgrounds.reachable_keeps [OF assms] orderly.reachable_keeps by blast+
  then have b: "started_tasks (sent_to sid w @ pending_to sid w) =
    ended_tasks (sent_to sid w @ pending_to sid w) + mset (bg_running sid w)" "tasks_ok (bg_running sid w)"
    by (auto simp: mirror_ok_def)
  have "pending_to sid w = [] \<longrightarrow> started_tasks (sent_to sid w) - ended_tasks (sent_to sid w) = mset (bg_running sid w)"
    using b(1) by auto
  moreover have "orderly_step\<^sup>*\<^sup>* background_start w \<longrightarrow>
       client_list (sent_to sid w @ pending_to sid w) [] = Some (bg_running sid w)"
    using m(2) by (auto simp: orderly_ok_def)
  ultimately show ?thesis using b expiry_running [OF b(2)] by (simp add: tasks_ok_def)
qed

text \<open>A deadline past the range of \<open>i64\<close> wraps to the distant past: the monitor ends at once.\<close>

lemma monitor_deadline_wraps:
  assumes "0 \<le> now" "now < 2 ^ 63" "ms < 2 ^ 63" "2 ^ 63 \<le> now + ms"
  shows "wrap_i64 (now + ms) < 0"
proof -
  have "(now + ms + 2 ^ 63) mod 2 ^ 64 = now + ms + 2 ^ 63 - 2 ^ 64"
    using assms by (intro int_mod_pos_eq [where q = 1]) simp_all
  then show ?thesis using assms by (simp add: wrap_i64_def)
qed

lemma wrap_i64_small: "- (2 ^ 63) \<le> x \<Longrightarrow> x < 2 ^ 63 \<Longrightarrow> wrap_i64 x = x"
  by (simp add: wrap_i64_def)

text \<open>A monitor with a deadline of ten milliseconds, and its expiry.\<close>

definition monitor_env :: background_env where
  "monitor_env = \<lparr>be_monitor = (\<lambda>_. Some (''m1'', Some ''10'')), be_shell_id = (\<lambda>_. None), be_shell_output = (\<lambda>_. None),
     be_result_id = (\<lambda>_. None), be_finished = (\<lambda>_. False), be_json_text = (\<lambda>_. [])\<rparr>"

definition monitor_update :: json where
  "monitor_update = JObject [(''sessionUpdate'', JString ''tool_call''), (''toolCallId'', JString ''t1''),
     (''status'', JString ''completed''),
     (''_meta'', JObject [(''claudeCode'', JObject [(''toolName'', JString ''Monitor'')])])]"

definition monitor_world :: background_world where
  "monitor_world = bg_publish 0 (bg_observe monitor_env ''s'' monitor_update 5 background_start)"

lemmas monitor_simps =
  bg_observe_def bg_publish_def observe_update_def background_start_def bg_tracker_default_def
  expire_def monitor_update_def str_at_def update_tool_def tool_name_def tool_command_def input_task_id_def
  tool_call_default_def finish_tool_def monitor_started_def monitor_env_def start_task_def bg_running_def
  map_filter_simps parse_i64_def digits_val_def is_ascii_digit_def digit_val_def strip_plus_def wrap_i64_def Let_def

theorem background_mirror_exact_witness:
  "client_list (sent_to ''s'' monitor_world) [] = Some (bg_running ''s'' monitor_world) \<and>
   started_tasks (sent_to ''s'' monitor_world) - ended_tasks (sent_to ''s'' monitor_world) = mset (bg_running ''s'' monitor_world) \<and>
   map nt_id (bg_running ''s'' monitor_world) = [''m1''] \<and>
   bg_running ''s'' (bg_expiry ''s'' 14 monitor_world) \<noteq> [] \<and> bg_running ''s'' (bg_expiry ''s'' 15 monitor_world) = []"
proof -
  have start: "pending_to ''s'' background_start = []" by (simp add: pending_to_def background_start_def)
  have "background_step\<^sup>*\<^sup>* background_start monitor_world"
    unfolding monitor_world_def
    by (meson background_step.observed background_step.published rtranclp.rtrancl_refl rtranclp.rtrancl_into_rtrancl)
  note m = background_mirror_exact [OF this, of "''s''"]
  have o: "orderly_step\<^sup>*\<^sup>* background_start monitor_world"
    unfolding monitor_world_def
    by (meson orderly_step.observed_orderly [OF start] orderly_step.published_orderly
        rtranclp.rtrancl_refl rtranclp.rtrancl_into_rtrancl)
  have p: "pending_to ''s'' monitor_world = []"
    by (simp add: monitor_world_def pending_to_def monitor_simps)
  have "map (\<lambda>t. (nt_id t, nt_deadline_ms t)) (bg_running ''s'' monitor_world) = [(''m1'', Some 15)]"
    by (simp add: monitor_world_def monitor_simps)
  then obtain t where t: "bg_running ''s'' monitor_world = [t]" "nt_id t = ''m1''" "nt_deadline_ms t = Some 15" by auto
  with m [of 14] m [of 15] o p show ?thesis by (simp add: past_deadline_def)
qed

text \<open>
  Out of order the client is left with a task that ended. The expiry of a monitor runs between
  the section that started it and its sends, and tells the client first: every event is sent,
  nothing runs, and the last the client heard is that the monitor started.
\<close>

lemma end_before_start:
  "\<exists>w t. background_step\<^sup>*\<^sup>* background_start w \<and> pending_to ''s'' w = [] \<and> bg_running ''s'' w = [] \<and>
     sent_to ''s'' w = [TaskEnded t ''timeout'', TaskStarted t] \<and> client_list (sent_to ''s'' w) [] = None"
proof -
  let ?w = "bg_publish 0 (bg_publish 1 (bg_expiry ''s'' 15 (bg_observe monitor_env ''s'' monitor_update 5 background_start)))"
  have "background_step\<^sup>*\<^sup>* background_start ?w"
    by (meson background_step.intros rtranclp.rtrancl_refl rtranclp.rtrancl_into_rtrancl)
  moreover have "pending_to ''s'' ?w = []" "bg_running ''s'' ?w = []"
    "\<exists>t. sent_to ''s'' ?w = [TaskEnded t ''timeout'', TaskStarted t]"
    by (simp_all add: bg_expiry_def monitor_simps pending_to_def sent_to_def end_task_def)
  ultimately show ?thesis by (intro exI [of _ ?w]) auto
qed

end
