(* ===== verification/Spec2Isabelle.thy ===== *)
theory Spec2Isabelle
  imports Planner_Shutdown Planner_Outbox Session_Escalation Usage_Cache Pre_Classifier Session_Input Goals Native_Backgrounds
begin

text \<open>
  \<^bold>\<open>Verification of router-acp: planner, routing, sessions and usage.\<close>

  The router stands between an ACP client and several coding agents. It chooses a candidate
  (agent and model) for a prompt, moves a session to another one when it fails, struggles or
  runs out of quota, and it coordinates a long implementation run: a parent session admits
  works, the router starts and stops worker sessions, works produce artifacts that are
  reviewed, finished, released and integrated, and everything a run knows is one revisioned
  document in a database that several router processes may write.

  \<^bold>\<open>Theories: foundations\<close>

  \<^item> \<open>Prelude\<close>: results as sums, Rust strings as bytes (\<open>trim\<close>, \<open>split\<close>, ASCII case), \<open>BTreeMap\<close>
    as key-sorted association lists behind the locale \<open>ordered_map\<close>, JSON, and the locales
    \<open>step_invariant\<close> and \<open>step_progress\<close> of transition systems.
  \<^item> \<open>Failure_Limits\<close>: what an error text says: limits and their reset times, timestamps, outages
    of the transport (\<open>limits.rs\<close>).
  \<^item> \<open>Candidate\<close>: candidate ids, effort levels, the score table, globs (\<open>candidate.rs\<close>).

  \<^bold>\<open>Theories: the planner\<close>

  \<^item> \<open>Planner_Types\<close>: the run document of \<open>planner_workflow.rs\<close>, \<open>planner_release.rs\<close>,
    \<open>planner_capacity.rs\<close>, \<open>planner_guard.rs\<close> and \<open>planner_skills.rs\<close> as records and datatypes,
    the operations of the planner tool, and every refusal as a constructor.
  \<^item> \<open>Planner_Host\<close>, \<open>Planner_Samples\<close>: what the code decides from git, the process table and host
    programs, which are fields of the environment record, and concrete documents for witnesses.
  \<^item> \<open>Planner_Capacity\<close>: holds, the capacity host, filling slots, automatic admission,
    resumption of stopped workers (\<open>planner_capacity.rs\<close>).
  \<^item> \<open>Planner_Input\<close>: who a prompt is from, leading commands, the life of an input, monitor
    messages and the command transition (\<open>planner_workflow.rs\<close>, \<open>planner_input.rs\<close>,
    \<open>external_message.rs\<close>).
  \<^item> \<open>Planner_Release\<close>: the release ledger and attested selections (\<open>planner_release.rs\<close>).
  \<^item> \<open>Planner_Workflow\<close>: \<open>operate_once\<close> with every operation, and the run invariant \<open>run_ok\<close>.
  \<^item> \<open>Planner_Lifecycle\<close>: starting a worker (\<open>begin_work\<close>), its handoff, its end and follow-ups.
  \<^item> \<open>Planner_Store\<close>, \<open>Planner_Outbox\<close>: the revision-checked save, \<open>mutate\<close>, workspace claims, and
    the wake journal and hook outbox that survive crashes between two files (\<open>state.rs\<close>).
  \<^item> \<open>Planner_Phase\<close>: directed phases, observing and queueing a prompt, the parent role.
  \<^item> \<open>Planner_Adopt\<close>: the ownership lease and the adoption of a run whose router died
    (\<open>planner_adopt.rs\<close>).
  \<^item> \<open>Planner_Keeps\<close>: everything else that changes a run keeps \<open>run_ok\<close>.
  \<^item> \<open>Planner_Wake\<close>: the batch of wakes a delivery claims and its end, queued inputs one at a
    time, steering into a running turn, the heartbeat, the parked notice, and the wakes of the
    audit and the turn-end gate (\<open>planner_wake.rs\<close>, \<open>planner_guard.rs\<close>, \<open>planner_preempt.rs\<close>).
  \<^item> \<open>Planner_Shutdown\<close>: the graceful drain of a run, the poll of each worker, its one shutdown
    message, and whether a child takes another turn (\<open>planner_shutdown.rs\<close>, \<open>planner_guard.rs\<close>).
  \<^item> This theory: all of it as one transition system \<open>run_step\<close>.

  \<^bold>\<open>Theories: prompts, routing and sessions\<close>

  \<^item> \<open>Prompt_Directives\<close>: finding, reading and stripping \<open>[router: ...]\<close> tags (\<open>session.rs\<close>).
  \<^item> \<open>Strategies\<close>: the five routing strategies and the headroom caps (\<open>strategies/\<close>).
  \<^item> \<open>Headroom\<close>: cordons, sliding windows, quarantine and overage permission (\<open>headroom.rs\<close>).
  \<^item> \<open>Usage_Limits\<close>: what a usage payload of either provider means: seats, cordons with the
    reserve, overage pools, spend estimates, client hints (\<open>usage.rs\<close>).
  \<^item> \<open>Usage_Cache\<close>: the snapshot file all router processes share, its backoff, its lock file, and
    the fetch under the lock (\<open>usage_cache.rs\<close>).
  \<^item> \<open>Routing_Pool\<close>: the eligible candidates of a decision, what a failure does to the tracker, and
    the announced wait (\<open>session.rs\<close>, \<open>accounts.rs\<close>, \<open>config.rs\<close>).
  \<^item> \<open>Session_Routing\<close>: \<open>plan_route\<close> with every branch, skill routes, and the escape off a cordoned
    pin and back (\<open>session.rs\<close>).
  \<^item> \<open>Session_Escalation\<close>: tool signals, mid-turn escalation, confidence, automatic upgrade and
    demotion, and the turns of a session as a relation (\<open>session.rs\<close>).
  \<^item> \<open>Session_Input\<close>: messages sent to a session from outside and their wake tick
    (\<open>session_input.rs\<close>).
  \<^item> \<open>Goals\<close>: the goal command, verdicts and the loop of goal turns (\<open>goals.rs\<close>).
  \<^item> \<open>Native_Backgrounds\<close>: background tasks of agents, mirrored to the client
    (\<open>native_backgrounds.rs\<close>).
  \<^item> \<open>Prompt_Classes\<close>: the heuristic task profile, automatic effort, the languages of a directory and
    the local model (\<open>classifier.rs\<close>).
  \<^item> \<open>Pre_Classifier\<close>: the text an evaluating model is given, what its reply may decide, the walk
    over the evaluators, and what the session takes from it (\<open>pre_classifier.rs\<close>, \<open>session.rs\<close>).

  \<^bold>\<open>How the model corresponds to the code\<close>

  A Rust struct is a record, an enum a datatype, \<open>Result\<close> a sum with one constructor per
  refusal. A record keeps the fields the modelled code reads or writes. A function that mutates
  a run takes the run and returns the changed one; a function on the database takes and returns
  the store. A closure given to \<open>mutate\<close> is the definition on the run, so it composes with
  \<open>mutate\<close> of \<open>Planner_Store\<close>. The clock, process table, git, file system, host programs, answers
  of providers and agents, fresh identifiers, JSON fingerprints, Unicode lower case, captures of
  regular expressions and message texts are fields of environment records or arguments: no
  definition stands for code outside the repository. Integers of the run document stay far from
  their limits and are \<open>nat\<close> or \<open>int\<close>; where the code saturates the bound is written out
  (\<open>i64_max\<close>, \<open>U64_MAX\<close>, \<open>U32_MAX\<close>), and where it wraps on numbers read from text the modulus
  (\<open>wrap_i64\<close>). Scores, shares and other numbers of type \<open>f64\<close> are real
  numbers, so NaN and rounding are outside the model.

  \<^bold>\<open>Interfaces\<close>

  \<^item> \<open>ordered_map\<close>: interpreted on the association lists; every document uses its laws.
  \<^item> \<open>cas_writer\<close>: a writer that respects revisions; interpreted on \<open>save\<close> and
    \<open>reconcile_planner_wakes\<close>; \<open>mutate\<close> loses no update among such writers.
  \<^item> \<open>router_strategy\<close>: a ranking that invents no candidate; interpreted on every strategy and on
    the configured choice \<open>make_strategy\<close>.
  \<^item> \<open>usage_reading\<close>: how breaches of a reading become cordons; interpreted on both providers.
  \<^item> \<open>step_invariant\<close> and \<open>step_progress\<close>: interpreted on the outbox protocol, the run, session
    inputs, background tasks, the turns of a session, the shared usage cache and the drain.

  \<^bold>\<open>What is shown\<close>

  \<^item> A run: \<open>run_ok\<close> is kept by every operation, delivery, audit and adoption and so holds in
    every reachable state; integration, completion, worker authority, reconciliation, release
    order and selection are characterised on every path that succeeds; replays and stale
    attempts change nothing.
  \<^item> Delivery: the claimed batch is the most urgent deliverable wakes, a wake the parent leaves open
    comes back, queued inputs stay in order, steering respects operators and the throttle,
    and a parked run is told.
  \<^item> The store: no lost update, progress when one round is not raced, exclusive workspace
    claims, exactly-once delivery of the outbox under any interleaving and crash, and the
    whole save as a refinement of that protocol.
  \<^item> Inputs: recorded once, acknowledged only after delivery, originals kept; messages of agents
    and monitors carry no authority; a message queued for a session is never lost.
  \<^item> Directives: reading ends and consumes every tag, quoted material is inert wherever it stands, and a
    printed directive is read back.
  \<^item> Routing: rankings are sound for every configuration, \<open>auto\<close> is optimal; every candidate of
    a pool or a planned chain passes every gate; a failed candidate sits out; announced waits
    end; switches lead only to candidates that pass every gate and are more capable or, after quiet
    turns, cheaper; escalations are
    bounded and a demotion is not undone by the next quiet turn.
  \<^item> Usage: cordons follow exactly from the reading, headroom is the share of the window left,
    reset times are read back as printed, one process at a time fetches while no
    lock goes stale under its holder or is swapped under its breaker, and a payload is
    reported only for its account.
  \<^item> Adoption: claims are made only on the checked revision of a run without a living owner,
    and no work is lost or overwritten.
  \<^item> Goals end after at most thirteen turns, and thirteen more for each goal the client sets
    meanwhile; the notifications of background tasks balance the tasks that run under any
    interleaving, and list them exactly where the sends keep the order.
  \<^item> Draining: a draining run starts nothing, the drain of every worker ends, and a worker is told
    once.
  \<^item> Classification: the heuristic class is the heaviest, the complexity a share; the evaluator
    reads the request itself, can raise effort only with evidence and demand only configured
    capabilities; the walk over the evaluators ends and decides.

  \<^bold>\<open>Bounds\<close>

  Retry loops run sixteen rounds, as in the code; what happens after them is the contended
  error, and \<open>mutate_progress\<close> says when they return. A batch of wakes holds thirty-two. The scan
  of a prompt and the loop over its directives are total functions with their own termination
  proofs: each turn moves on by at least one byte and each directive removed takes at least
  nine. The goal loop recurses on fuel, and \<open>goal_turns_bounded\<close> shows that thirteen, and thirteen
  more for each goal set meanwhile, is enough for every sequence of replies. The walk over the evaluators needs one round more than there are
  candidates (\<open>evaluation_decides\<close>); the poll of a draining worker one more than fit before its
  deadline (\<open>drain_worker_ends\<close>), and the pause of a child one a second
  (\<open>child_continuation_ends\<close>).

  \<^bold>\<open>Not modelled\<close>

  The asynchronous session engine around child processes (start, relaying, handoff,
  restoration), the watchdog loop, saving the resume state and the last
  turn of the parent in a drain, the language model proxy, MCP servers and
  broker, credentials and login flows, the requests to usage endpoints, YAML configuration,
  database tables other than those of the planner and of session inputs, maintenance, transport
  and command line: they are input and output, timing, or glue around services, and their
  results enter the model as arguments. Status, instruction and notice texts are not modelled.
\<close>

section \<open>The planner run as a transition system\<close>

text \<open>
  Every way the modelled code changes the document of a run. The late result of an
  allocation is taken while the attempt that made it is still live: the commit compares the
  attempt's id but not whether it has ended. A run adopts the content of another sound run
  that has no release in progress.
\<close>

inductive run_step :: "planner_run \<Rightarrow> planner_run \<Rightarrow> bool" where
  operated: "operate_once env sid actor op run = Inr (reply, run') \<Longrightarrow> run_step run run'"
| claimed: "dispatch_check env run i = Inr w \<Longrightarrow> run_step run (upd_work i (claim_attempt env a) run)"
| allocated: "bt_get (run_works run) i = Some w \<Longrightarrow> attempt_live w \<Longrightarrow>
    allocation_committed env i a role ws run = Inr run' \<Longrightarrow> run_step run run'"
| not_allocated: "bt_get (run_works run) i = Some w \<Longrightarrow> attempt_live w \<Longrightarrow>
    allocation_failed i a e run = Inr run' \<Longrightarrow> run_step run run'"
| handed_off: "run_step run (record_handoff worker h run)"
| stopped: "attempt_ended worker d out failed run = Inr run' \<Longrightarrow> run_step run run'"
| followed_up: "begin_followup env worker run = Inr run' \<Longrightarrow> run_step run run'"
| commanded: "user_command_once ctx uuid original req queued run = Inr (Some (phase, run')) \<Longrightarrow> run_step run run'"
| observed: "observe_input draining uuid req run = Inr run' \<Longrightarrow> run_step run run'"
| enqueued: "enqueue_parent_input uuid sid req run = Inr run' \<Longrightarrow> run_step run run'"
| delivered: "mark_input_delivered sid i owner run = Inr run' \<Longrightarrow> run_step run run'"
| steered: "record_steered_input uuid sid req run = Inr run' \<Longrightarrow> run_step run run'"
| monitored: "send_from env sid cwd i message sender interrupt run = Inr run' \<Longrightarrow> run_step run run'"
| held: "record_hold run p reason detail now = Inr run' \<Longrightarrow> run_step run run'"
| leased: "run_step run (run\<lparr>run_owner := owner, run_owner_heartbeat_at := renewed\<rparr>)"
| superseded: "run_step run (run\<lparr>run_status := RunSuperseded, run_superseded_by := Some into_sid\<rparr>)"
| adopted: "merge from from_sid into_sid run = Inr (run', report) \<Longrightarrow> run_ok from \<Longrightarrow>
    (\<And>i r. bt_get (run_releases from) i = Some r \<Longrightarrow> \<not> release_active r) \<Longrightarrow> run_step run run'"
| retired: "run_step run (retire report run)"
| waked: "run_step run (snd (claim_delivery env now run))"
| wakes_settled: "run_step run (settle_delivery env preempted ids run)"
| input_claimed: "claim_queued_input env now q run = Inr run' \<Longrightarrow> run_step run run'"
| input_settled: "run_step run (settle_queued_input env q interrupted turn_ok run)"
| approval_asked: "run_step run (approval_started i run)"
| approval_given: "run_step run (approval_answered i run)"
| heartbeat_due: "run_step run (parent_heartbeat env uuid reason busy last_activity now run)"
| audited: "run_step run (audit_wake env sid uuid prose wait busy now last_at run)"
| gated: "run_step run (snd (gate_tick env sid uuid prose now rt run))"
| drain_started: "run_step run (snd (drain_begun run))"
| drain_over: "run_step run (drain_ended prior run)"
| saved: "run_step run (run\<lparr>run_revision := revision\<rparr>)"

lemma run_ok_sent: "run_ok run \<Longrightarrow> send_from env sid cwd i message sender interrupt run = Inr run' \<Longrightarrow> run_ok run'"
  by (auto simp: send_from_def Let_def split: option.splits if_splits intro: run_ok_queue)

lemma run_step_keeps: "run_step run run' \<Longrightarrow> run_ok run \<Longrightarrow> run_ok run'"
proof (induction rule: run_step.induct)
  case operated then show ?case by (rule run_ok_operate [rotated])
next
  case claimed then show ?case by (rule claim_keeps [rotated])
next
  case allocated then show ?case using allocation_committed_keeps by blast
next
  case not_allocated then show ?case using allocation_failed_keeps by blast
next
  case handed_off then show ?case by (rule record_handoff_keeps)
next
  case stopped then show ?case using attempt_ended_keeps by blast
next
  case followed_up then show ?case using begin_followup_keeps by blast
next
  case commanded then show ?case using run_ok_user_command by blast
next
  case observed then show ?case using run_ok_observe by blast
next
  case enqueued then show ?case using run_ok_enqueue by blast
next
  case delivered then show ?case using run_ok_delivered by blast
next
  case steered then show ?case using run_ok_steered by blast
next
  case monitored then show ?case using run_ok_sent by blast
next
  case held then show ?case using run_ok_record_hold by blast
next
  case adopted then show ?case using run_ok_merge by blast
next
  case retired then show ?case by (rule run_ok_retire_source)
next
  case waked then show ?case by (rule claim_delivery_keeps)
next
  case wakes_settled then show ?case by (rule settle_delivery_keeps)
next
  case input_claimed then show ?case using claim_queued_keeps by blast
next
  case input_settled then show ?case by (rule settle_queued_keeps)
next
  case approval_asked then show ?case by (rule approvals_keep)
next
  case approval_given then show ?case by (rule approvals_keep)
next
  case heartbeat_due then show ?case by (rule heartbeat_keeps)
next
  case audited then show ?case by (rule audit_wake_keeps)
next
  case gated then show ?case by (rule gate_tick_keeps)
next
  case drain_started then show ?case by (rule drain_keeps(1))
next
  case drain_over then show ?case by (rule drain_keeps(2))
qed simp_all

interpretation planner: step_invariant run_step run_ok
  by unfold_locales (rule run_step_keeps)

lemma initial_run_ok: "run_ok (initial_run env policy coordinator)"
  by (simp add: run_ok_def run_wf_def initial_run_def ledger_ok_def lane_def capacity_default_def)

text \<open>
  C1. Whatever sequence of planner operations, worker starts and stops, inputs, commands,
  deliveries of wakes, heartbeats, audits, drains, lease renewals and adoptions a run goes
  through from its creation, where what it adopts is a sound run with no release in progress
  (\<open>adoption_can_fill_lane_twice\<close> shows why) and the result of an allocation is taken only while
  its attempt is live, its records agree: an integrated work has an accepted artifact, a finish receipt and an integration receipt,
  all at one revision, and no live worker; every work is filed under its own id; and at most
  one release is in the staging lane and one between merge and acceptance in production.
\<close>

theorem reachable_run_sound:
  assumes "run_step\<^sup>*\<^sup>* (initial_run env policy coordinator) run"
  shows "(\<forall>i w. bt_get (run_works run) i = Some w \<longrightarrow> spec_work_id (work_spec w) = i) \<and>
    (\<forall>i w. bt_get (run_works run) i = Some w \<and> work_status w = Integrated \<longrightarrow>
       (\<exists>art f g. work_artifact w = Some art \<and> work_finish w = Some f \<and> work_integration w = Some g \<and>
          rcp_revision f = rcp_revision g \<and> art_revision art = rcp_revision f \<and> art_unresolved art = [] \<and>
          checks_pass (work_spec w) art \<and> \<not> attempt_live w)) \<and>
    lane staging_stage (run_releases run) \<and> lane production_stage (run_releases run)"
proof -
  have ok: "run_ok run" using planner.reachable_keeps [OF assms initial_run_ok] .
  have "\<exists>art f g. work_artifact w = Some art \<and> work_finish w = Some f \<and> work_integration w = Some g \<and>
      rcp_revision f = rcp_revision g \<and> art_revision art = rcp_revision f \<and> art_unresolved art = [] \<and>
      checks_pass (work_spec w) art \<and> \<not> attempt_live w"
    if "work_ok w" "work_status w = Integrated" for w
    using that unfolding work_ok_def by (fastforce simp: accepted_revision_def attempt_done_iff is_some_and_iff is_none_or_iff)
  then show ?thesis using ok run_okD [OF ok] unfolding run_ok_def ledger_ok_def by blast
qed

theorem reachable_run_sound_witness:
  "\<exists>run. run_step\<^sup>*\<^sup>* (initial_run sample_env sample_policy True) run \<and> lane staging_stage (run_releases run)"
proof -
  have r: "run_step\<^sup>*\<^sup>* (initial_run sample_env sample_policy True)
      ((initial_run sample_env sample_policy True)\<lparr>run_revision := 1\<rparr>)"
    by (rule r_into_rtranclp, rule run_step.saved)
  from reachable_run_sound [OF r] r show ?thesis by blast
qed

section \<open>Limits of an adoption\<close>

text \<open>
  Two runs that each have a release in the staging lane can be merged: the lanes of the two
  ledgers are not compared, so the merged run has two active releases there.
\<close>

lemma adoption_can_fill_lane_twice:
  "\<exists>into' report. merge ((sample_run [])\<lparr>run_releases := [(''r1'', sample_release)]\<rparr>) ''old'' ''new''
      ((sample_run [])\<lparr>run_releases := [(''r2'', sample_release)]\<rparr>) = Inr (into', report) \<and>
     \<not> lane staging_stage (run_releases into')"
proof -
  let ?m = "merge ((sample_run [])\<lparr>run_releases := [(''r1'', sample_release)]\<rparr>) ''old'' ''new''
      ((sample_run [])\<lparr>run_releases := [(''r2'', sample_release)]\<rparr>)"
  have m: "map_sum (\<lambda>_. ()) (\<lambda>(into', _). run_releases into') ?m = Inr [(''r1'', sample_release), (''r2'', sample_release)]"
    by code_simp
  then obtain into' report where i: "?m = Inr (into', report)" "run_releases into' = [(''r1'', sample_release), (''r2'', sample_release)]"
    by (cases ?m) auto
  have "release_active sample_release" "staging_stage (release_stage sample_release)" by code_simp+
  then have "\<not> lane staging_stage [(''r1'', sample_release), (''r2'', sample_release)]"
    unfolding lane_def not_all
    by (intro exI [of _ "''r1''"] exI [of _ "''r2''"] exI [of _ sample_release]) simp
  then show ?thesis using i by auto
qed

text \<open>
  A source that holds only inputs and wakes counts as already adopted once it is claimed: when
  the adopter stopped between the claim and the merge, the retry reports completion without
  moving them.
\<close>

lemma claimed_inputs_not_resumed:
  assumes "load into_sid st = Some into" and "cap_pending_adoption (run_capacity into) = Some source"
    and "source \<in> st_sessions st" and "load source st = Some from" and "run_superseded_by from = Some into_sid"
    and "run_works from = []" and "run_releases from = []" and "cap_holds (run_capacity from) = []" and "run_parent_queue from = []"
  shows "retry_source ctx into_sid source now st =
    andthen (adoption_pending ctx into_sid None NoticeCompleted st) (\<lambda>_ s. (Inr (Some (report_start source into_sid)), s))"
  using assms by (simp add: retry_source_def holds_claimed_content_def)

end
